(* ===== verification/Prelude.thy ===== *)
theory Prelude
  imports Complex_Main "HOL-Library.Char_ord" "HOL-Library.List_Lexorder" "HOL-Library.Product_Lexorder"
begin

text \<open>
  The prelude of the development: the JavaScript values the program computes with (strings
  with \<open>trim\<close>, numbers with NaN, infinities and the negative zero, dates that may be
  invalid), the error classes the modelled packages throw, the result type \<open>error + 'a\<close>
  of a call that may throw, the state-and-error commands of the application services with
  their transaction, and two locales: \<open>lifecycle\<close>, the contract of a transition table with
  terminal states, and \<open>ranked_lifecycle\<close>, the contract of a table that never goes back.

  Conventions. A \<open>string\<close> is a list of JavaScript code units below 256 (Latin-1): the
  program never inspects a string beyond \<open>trim\<close>, length, equality, prefix tests and
  character classes. A \<open>number\<close> that the code only counts with (a version, an index, a
  revision) is a \<open>nat\<close> or an \<open>int\<close>; a \<open>number\<close> that the code validates is
  a \<open>js_num\<close>.
\<close>

named_theorems js_simps \<open>evaluation of the JavaScript primitives\<close>
named_theorems result_simps \<open>case analysis of calls that may throw\<close>

section \<open>Strings\<close>

text \<open>The white space and line terminators that \<open>String.prototype.trim\<close> removes, below 256.\<close>

definition js_whitespace :: "char list" where
  "js_whitespace =
     [CHR 0x09, CHR 0x0A, CHR 0x0B, CHR 0x0C, CHR 0x0D, CHR 0x20, CHR 0xA0]"

definition is_js_space :: "char \<Rightarrow> bool" where
  "is_js_space c \<longleftrightarrow> c \<in> set js_whitespace"

definition trimStart :: "string \<Rightarrow> string" where
  "trimStart s = dropWhile is_js_space s"

definition trim :: "string \<Rightarrow> string" where
  "trim s = rev (trimStart (rev (trimStart s)))"

definition canonical_text :: "string \<Rightarrow> bool" where
  "canonical_text s \<longleftrightarrow> s \<noteq> [] \<and> trim s = s"

definition startsWith :: "string \<Rightarrow> string \<Rightarrow> bool" where
  "startsWith s p \<longleftrightarrow> take (length p) s = p"

definition endsWith :: "string \<Rightarrow> string \<Rightarrow> bool" where
  "endsWith s p \<longleftrightarrow> startsWith (rev s) (rev p)"

text \<open>The number of bytes of the UTF-8 encoding (\<open>TextEncoder\<close>): two from 128 on.\<close>

definition utf8_length :: "string \<Rightarrow> nat" where
  "utf8_length s = sum_list (map (\<lambda>c. if of_char c < (128::nat) then 1 else 2) s)"

fun join :: "string \<Rightarrow> string list \<Rightarrow> string" where
  "join sep [] = []"
| "join sep [x] = x"
| "join sep (x # y # ys) = x @ sep @ join sep (y # ys)"

text \<open>\<open>[...new Set(xs)]\<close>: the first of equal elements stays.\<close>

definition js_unique :: "'a list \<Rightarrow> 'a list" where
  "js_unique xs = rev (remdups (rev xs))"

text \<open>\<open>s.split(c)\<close> for a separator of one character.\<close>

fun js_split :: "char \<Rightarrow> string \<Rightarrow> string list" where
  "js_split c [] = [[]]"
| "js_split c (x # xs) = (if x = c then [] # js_split c xs
     else case js_split c xs of [] \<Rightarrow> [[x]] | y # ys \<Rightarrow> (x # y) # ys)"

text \<open>\<open>new Map(entries)\<close>: a later entry for a key replaces an earlier one.\<close>

definition js_map :: "('k \<times> 'v) list \<Rightarrow> ('k \<rightharpoonup> 'v)" where
  "js_map es = foldl (\<lambda>m e. m(fst e \<mapsto> snd e)) Map.empty es"

section \<open>Numbers and dates\<close>

text \<open>
  A JavaScript number: a finite value, the negative zero, NaN or an infinity. Every finite
  double is a rational, so \<open>Num\<close> covers them.
\<close>

datatype js_num = Num rat | NegZero | NaN | PosInf | NegInf

fun isFinite :: "js_num \<Rightarrow> bool" where
  "isFinite (Num q) = True"
| "isFinite NegZero = True"
| "isFinite _ = False"

fun num_value :: "js_num \<Rightarrow> rat" where
  "num_value (Num q) = q"
| "num_value _ = 0"

fun isInteger :: "js_num \<Rightarrow> bool" where
  "isInteger (Num q) = (of_int \<lfloor>q\<rfloor> = q)"
| "isInteger NegZero = True"
| "isInteger _ = False"

definition isSafeInteger :: "js_num \<Rightarrow> bool" where
  "isSafeInteger n \<longleftrightarrow> isInteger n \<and> \<bar>num_value n\<bar> \<le> 9007199254740991"

text \<open>The order \<open><\<close> on numbers: false as soon as one side is NaN.\<close>

fun num_lt :: "js_num \<Rightarrow> js_num \<Rightarrow> bool" where
  "num_lt NaN _ = False"
| "num_lt _ NaN = False"
| "num_lt PosInf _ = False"
| "num_lt _ NegInf = False"
| "num_lt NegInf _ = True"
| "num_lt _ PosInf = True"
| "num_lt a b = (num_value a < num_value b)"

text \<open>The integer a number converts to (\<open>BigInt\<close>), for an integer number.\<close>

definition toBigInt :: "js_num \<Rightarrow> int" where
  "toBigInt n = \<lfloor>num_value n\<rfloor>"

definition of_int_num :: "int \<Rightarrow> js_num" where
  "of_int_num i = Num (of_int i)"

text \<open>A \<open>Date\<close>: its time value in milliseconds, or an invalid date (\<open>getTime()\<close> is NaN).\<close>

datatype js_date = At int | InvalidDate

fun date_finite :: "js_date \<Rightarrow> bool" where
  "date_finite (At _) = True"
| "date_finite InvalidDate = False"

text \<open>\<open>a.getTime() < b.getTime()\<close> and \<open>a.getTime() <= b.getTime()\<close>.\<close>

fun date_lt :: "js_date \<Rightarrow> js_date \<Rightarrow> bool" where
  "date_lt (At a) (At b) = (a < b)"
| "date_lt _ _ = False"

fun date_le :: "js_date \<Rightarrow> js_date \<Rightarrow> bool" where
  "date_le (At a) (At b) = (a \<le> b)"
| "date_le _ _ = False"

section \<open>Errors, results and commands\<close>

text \<open>The errors of controlled actions and their connectors, \<open>capability-errors.ts\<close> and
  \<open>connector-sdk/src/errors.ts\<close>. \<open>ConnectorFailure\<close> is what a connector throws: the name of
  the error.\<close>

datatype action_error =
    UnsupportedConnectorError string
  | UnsupportedConnectorOperationError string string
  | UnsupportedConnectorResourceTypeError string string
  | ConnectorRegistryError string
  | ConnectorExecutionUnavailableError string
  | ConnectorFailure string
  | ResourceNotFoundError string
  | ResourceDisabledError string
  | CapabilityGrantNotFoundError string
  | CapabilityGrantRevokedError string
  | CapabilityPrincipalNotFoundError string string
  | CapabilityProjectMismatchError
  | ActionRequestNotFoundError string
  | ConcurrentActionTransitionError string string string
  | ActionSimulationConflictError string
  | InvalidConnectorInvocationStateError string
  | StaleActionAuthorizationError
  | ActionApprovalNotFoundError string
  | ActionApprovalConflictError string
  | InvalidActionApprovalStateError string
  | ActionExecutionConflictError string
  | InvalidActionExecutionStateError string
  | StaleActionSimulationError
  | AgentRunProvenanceError string

text \<open>
  The error classes of the modelled packages, one constructor per class, with the fields the
  class keeps or the message it is given. \<open>RangeError\<close> and \<open>TypeError\<close> are the language's
  own: an array access out of range whose result is then read throws a \<open>TypeError\<close>. \<open>ClassError\<close> is
  any other class of the packages, by its name, with its message; \<open>SystemError\<close> is a failed system call with its
  code, and \<open>MutationError\<close> a \<open>ConnectorMutationExecutionError\<close> with its code and whether the mutation may have
  occurred.
\<close>

datatype error =
    DomainValidationError string
  | InvalidTaskTransitionError string string "string list"
  | InvalidTaskCorrectionError string string string
  | TaskDependencyError string
  | TaskPrerequisiteIncompleteError string "(string \<times> string) list" bool
  | TaskNotRunnableError
  | PipelineTransitionError string
  | CapabilityValidationError string
  | InvalidCapabilityConstraintsError string
  | CanonicalSerializationError string string
  | InvalidActionTransitionError string string
  | InvalidActionTimestampError
  | InvalidModelUsageError string
  | RangeError string
  | TypeError
  | TransactionAlreadyActiveError
  | ProjectNotFoundError string
  | TaskNotFoundError string
  | AgentNotFoundError string
  | TaskCompletionApprovalError
  | OfficeManifestNotFoundError string
  | OfficePipelineNotFoundError string string
  | PipelineRunNotFoundError string
  | ActivePipelineRunExistsError string
  | PipelineDefinitionNotEnforcedError string
  | PipelineDefinitionAmbiguousError string
  | PipelineRoleUnavailableError string "string list"
  | PackPipelineUnsupportedError string string
  | ConcurrentPipelineTransitionError string
  | PipelineActorUnauthorizedError string
  | GovernanceSubjectNotFoundError string string
  | GovernanceCrossProjectReferenceError string
  | RequirementNotEditableError string string
  | ReviewNotFoundError string
  | ReviewAlreadyFinalizedError string
  | DuplicateRequirementKeyError string
  | RequirementNotFoundError string
  | BudgetNotFoundError
  | BudgetExceededError
  | MonetaryOverflowError
  | ReservationExpiredError string
  | PricingOverlapError string string
  | DuplicateProviderUsageError string string
  | PricingNotFoundError string string
  | PricingCurrencyMismatchError
  | AtomicReservationUnavailableError
  | StorageConstraintError string
  | ActionError action_error
  | ClassError string string
  | SystemError string
  | MutationError string bool

type_synonym 'a result = "error + 'a"

abbreviation throw :: "error \<Rightarrow> 'a result" where
  "throw e \<equiv> Inl e"

abbreviation ok :: "'a \<Rightarrow> 'a result" where
  "ok x \<equiv> Inr x"

fun bindR :: "'a result \<Rightarrow> ('a \<Rightarrow> 'b result) \<Rightarrow> 'b result" where
  "bindR (Inl e) f = Inl e"
| "bindR (Inr x) f = f x"

text \<open>A loop of checks that stops at the first throw, and a map that does.\<close>

fun forR :: "('a \<Rightarrow> unit result) \<Rightarrow> 'a list \<Rightarrow> unit result" where
  "forR f [] = ok ()"
| "forR f (x # xs) = bindR (f x) (\<lambda>_. forR f xs)"

fun mapR :: "('a \<Rightarrow> 'b result) \<Rightarrow> 'a list \<Rightarrow> 'b list result" where
  "mapR f [] = ok []"
| "mapR f (x # xs) = bindR (f x) (\<lambda>y. bindR (mapR f xs) (\<lambda>ys. ok (y # ys)))"

text \<open>Reading a property of \<open>xs[i]\<close>: \<open>undefined\<close> out of range, so the read throws.\<close>

definition index_read :: "'a list \<Rightarrow> nat \<Rightarrow> 'a result" where
  "index_read xs i = (if i < length xs then ok (xs ! i) else throw TypeError)"

text \<open>
  A command of an application service reads and changes a state \<open>'s\<close> and returns or throws.
  A transaction (\<open>SqliteTransactionRunner.run\<close>) restores the database part of the state when
  the work throws; what is not in the database (the clock and the identifier generator) keeps
  its progress.
\<close>

type_synonym ('s, 'a) command = "'s \<Rightarrow> 'a result \<times> 's"

definition returnM :: "'a \<Rightarrow> ('s, 'a) command" where
  "returnM x = (\<lambda>s. (ok x, s))"

definition throwM :: "error \<Rightarrow> ('s, 'a) command" where
  "throwM e = (\<lambda>s. (throw e, s))"

definition liftR :: "'a result \<Rightarrow> ('s, 'a) command" where
  "liftR r = (\<lambda>s. (r, s))"

definition bindM :: "('s, 'a) command \<Rightarrow> ('a \<Rightarrow> ('s, 'b) command) \<Rightarrow> ('s, 'b) command" where
  "bindM m f = (\<lambda>s. case m s of (Inl e, s') \<Rightarrow> (Inl e, s') | (Inr x, s') \<Rightarrow> f x s')"

definition readM :: "('s \<Rightarrow> 'a) \<Rightarrow> ('s, 'a) command" where
  "readM f = (\<lambda>s. (ok (f s), s))"

definition writeM :: "('s \<Rightarrow> 's) \<Rightarrow> ('s, unit) command" where
  "writeM f = (\<lambda>s. (ok (), f s))"

definition guardM :: "bool \<Rightarrow> error \<Rightarrow> ('s, unit) command" where
  "guardM b e = (if b then returnM () else throwM e)"

text \<open>
  The world of a service: the database, the connection's active-transaction mark, and how often
  the identifier generator and the clock were asked. The generator and the clock themselves
  (\<open>IdGenerator\<close>, \<open>Clock\<close>) are outside the program: their answers, call by call,
  are the parameter \<open>services\<close>.
\<close>

record 'db world =
  w_db :: 'db
  w_active :: bool
  w_ids :: nat
  w_clock :: nat

record services =
  sv_id :: "nat \<Rightarrow> string"
  sv_now :: "nat \<Rightarrow> js_date"

definition generate :: "services \<Rightarrow> ('db world, string) command" where
  "generate sv = (\<lambda>w. (ok (sv_id sv (w_ids w)), w\<lparr>w_ids := Suc (w_ids w)\<rparr>))"

definition clock_now :: "services \<Rightarrow> ('db world, js_date) command" where
  "clock_now sv = (\<lambda>w. (ok (sv_now sv (w_clock w)), w\<lparr>w_clock := Suc (w_clock w)\<rparr>))"

definition readDb :: "('db \<Rightarrow> 'a) \<Rightarrow> ('db world, 'a) command" where
  "readDb f = readM (\<lambda>w. f (w_db w))"

text \<open>A statement of the database: it returns and changes tables, or aborts and changes nothing.\<close>

definition execDb :: "('db \<Rightarrow> ('a \<times> 'db) result) \<Rightarrow> ('db world, 'a) command" where
  "execDb f = (\<lambda>w. case f (w_db w) of Inl e \<Rightarrow> (Inl e, w) | Inr (x, d) \<Rightarrow> (Inr x, w\<lparr>w_db := d\<rparr>))"

definition transaction :: "('db world, 'a) command \<Rightarrow> ('db world, 'a) command" where
  "transaction work = (\<lambda>w.
     if w_active w then (throw TransactionAlreadyActiveError, w)
     else case work (w\<lparr>w_active := True\<rparr>) of
        (Inl e, w') \<Rightarrow> (Inl e, w'\<lparr>w_db := w_db w, w_active := False\<rparr>)
      | (Inr x, w') \<Rightarrow> (Inr x, w'\<lparr>w_active := False\<rparr>))"

section \<open>Lemmas: strings\<close>

lemma trimStart_Nil_iff [simp]: "trimStart s = [] \<longleftrightarrow> (\<forall>c \<in> set s. is_js_space c)"
  by (simp add: trimStart_def dropWhile_eq_Nil_conv)

lemma trim_Nil [simp]: "trim [] = []"
  by (simp add: trim_def trimStart_def)

lemma trimStart_fixed: "trimStart s = s \<longleftrightarrow> s = [] \<or> \<not> is_js_space (hd s)"
  by (simp add: trimStart_def dropWhile_eq_self_iff)

lemma trimStart_trimStart [simp]: "trimStart (trimStart s) = trimStart s"
  by (simp add: trimStart_def)

lemma hd_trimStart: "trimStart s \<noteq> [] \<Longrightarrow> \<not> is_js_space (hd (trimStart s))"
  unfolding trimStart_def by (rule hd_dropWhile)

text \<open>Dropping from the right keeps the first character, if anything is left.\<close>

lemma hd_trim:
  assumes "trim s \<noteq> []"
  shows "\<not> is_js_space (hd (trim s))"
proof -
  let ?t = "trimStart s"
  have suffix: "trim s = rev (dropWhile is_js_space (rev ?t))"
    by (simp add: trim_def trimStart_def)
  obtain us where us: "?t = trim s @ us"
    using takeWhile_dropWhile_id [of is_js_space "rev ?t"]
    by (metis suffix rev_append rev_rev_ident)
  then have "hd ?t = hd (trim s)" using assms by simp
  moreover have "?t \<noteq> []" using us assms by simp
  ultimately show ?thesis using hd_trimStart [of s] by simp
qed

lemma last_trim: "trim s \<noteq> [] \<Longrightarrow> \<not> is_js_space (last (trim s))"
  using hd_trimStart [of "rev (trimStart s)"] by (simp add: trim_def last_rev)

lemma trim_fixed: "trim s = s \<longleftrightarrow> s = [] \<or> \<not> is_js_space (hd s) \<and> \<not> is_js_space (last s)"
proof
  assume "trim s = s"
  then show "s = [] \<or> \<not> is_js_space (hd s) \<and> \<not> is_js_space (last s)"
    using hd_trim [of s] last_trim [of s] by auto
next
  assume *: "s = [] \<or> \<not> is_js_space (hd s) \<and> \<not> is_js_space (last s)"
  then have "trimStart s = s" by (auto simp: trimStart_fixed)
  moreover have "trimStart (rev s) = rev s" using * by (auto simp: trimStart_fixed hd_rev)
  ultimately show "trim s = s" by (simp add: trim_def)
qed

lemma trim_trim [simp]: "trim (trim s) = trim s"
  using hd_trim [of s] last_trim [of s] by (auto simp: trim_fixed)

lemma canonical_trim: "trim s \<noteq> [] \<Longrightarrow> canonical_text (trim s)"
  by (simp add: canonical_text_def)

lemma js_map_eq: "js_map es = map_of (rev es)"
  by (induction es rule: rev_induct) (auto simp: js_map_def)

lemma js_map_None: "js_map es k = None \<longleftrightarrow> k \<notin> fst ` set es"
  by (simp add: js_map_eq map_of_eq_None_iff)

lemma js_map_Some: "js_map es k = Some v \<Longrightarrow> (k, v) \<in> set es"
  by (auto simp: js_map_eq dest: map_of_SomeD)

lemma sort_key_Nil [simp]: "sort_key f xs = [] \<longleftrightarrow> xs = []"
  by (metis length_0_conv length_sort)

lemma filter_key:
  "distinct (map f xs) \<Longrightarrow> e \<in> set xs \<Longrightarrow> (\<And>x. P x \<longleftrightarrow> f x = f e) \<Longrightarrow> filter P xs = [e]"
  by (induction xs) (auto simp: filter_empty_conv image_iff)

section \<open>Lemmas: results and commands\<close>

lemma bindR_ok [result_simps]: "bindR r f = ok y \<longleftrightarrow> (\<exists>x. r = ok x \<and> f x = ok y)"
  by (cases r) auto

lemma bindR_throw [result_simps]:
  "bindR r f = throw e \<longleftrightarrow> r = throw e \<or> (\<exists>x. r = ok x \<and> f x = throw e)"
  by (cases r) auto

lemma forR_ok [result_simps]: "forR f xs = ok u \<longleftrightarrow> (\<forall>x \<in> set xs. f x = ok ())"
  by (induction xs) (auto simp: result_simps)

lemma mapR_cong [fundef_cong]:
  "xs = ys \<Longrightarrow> (\<And>x. x \<in> set ys \<Longrightarrow> f x = g x) \<Longrightarrow> mapR f xs = mapR g ys"
  by (induction xs arbitrary: ys) auto

lemma forR_cong [fundef_cong]:
  "xs = ys \<Longrightarrow> (\<And>x. x \<in> set ys \<Longrightarrow> f x = g x) \<Longrightarrow> forR f xs = forR g ys"
  by (induction xs arbitrary: ys) auto

lemma bindR_cong [fundef_cong]:
  "r = r' \<Longrightarrow> (\<And>x. r' = ok x \<Longrightarrow> f x = g x) \<Longrightarrow> bindR r f = bindR r' g"
  by (cases r') auto

lemma mapR_ok_length: "mapR f xs = ok ys \<Longrightarrow> length ys = length xs"
  by (induction xs arbitrary: ys) (auto simp: result_simps)

lemma mapR_ok_nth: "mapR f xs = ok ys \<Longrightarrow> i < length xs \<Longrightarrow> f (xs ! i) = ok (ys ! i)"
  by (induction xs arbitrary: ys i) (auto simp: result_simps nth_Cons split: nat.splits)

lemma mapR_ok_list_all2: "mapR f xs = ok ys \<longleftrightarrow> list_all2 (\<lambda>x y. f x = ok y) xs ys"
  by (induction xs arbitrary: ys) (auto simp: result_simps list_all2_Cons1)

lemma returnM_app [simp]: "returnM x s = (ok x, s)"
  by (simp add: returnM_def)

lemma throwM_app [simp]: "throwM e s = (throw e, s)"
  by (simp add: throwM_def)

lemma liftR_app [simp]: "liftR r s = (r, s)"
  by (simp add: liftR_def)

lemma readM_app [simp]: "readM f s = (ok (f s), s)"
  by (simp add: readM_def)

lemma writeM_app [simp]: "writeM f s = (ok (), f s)"
  by (simp add: writeM_def)

lemma guardM_app [simp]: "guardM b e s = (if b then ok () else throw e, s)"
  by (simp add: guardM_def)

lemma bindM_ok [result_simps]:
  "bindM m f s = (ok y, s'') \<longleftrightarrow> (\<exists>x s'. m s = (ok x, s') \<and> f x s' = (ok y, s''))"
  by (auto simp: bindM_def split: prod.splits sum.splits)

lemma bindM_throw [result_simps]:
  "bindM m f s = (throw e, s'') \<longleftrightarrow>
     m s = (throw e, s'') \<or> (\<exists>x s'. m s = (ok x, s') \<and> f x s' = (throw e, s''))"
  by (auto simp: bindM_def split: prod.splits sum.splits)

lemma generate_app [simp]: "generate sv w = (ok (sv_id sv (w_ids w)), w\<lparr>w_ids := Suc (w_ids w)\<rparr>)"
  by (simp add: generate_def)

lemma clock_now_app [simp]:
  "clock_now sv w = (ok (sv_now sv (w_clock w)), w\<lparr>w_clock := Suc (w_clock w)\<rparr>)"
  by (simp add: clock_now_def)

lemma readDb_app [simp]: "readDb f w = (ok (f (w_db w)), w)"
  by (simp add: readDb_def)

lemma execDb_ok [result_simps]:
  "execDb f w = (ok x, w') \<longleftrightarrow> (\<exists>d. f (w_db w) = ok (x, d) \<and> w' = w\<lparr>w_db := d\<rparr>)"
  by (auto simp: execDb_def split: sum.splits)

lemma execDb_throw [result_simps]:
  "execDb f w = (throw e, w') \<longleftrightarrow> f (w_db w) = throw e \<and> w' = w"
  by (auto simp: execDb_def split: sum.splits)

lemma transaction_ok:
  "transaction work w = (ok x, w') \<longleftrightarrow>
     \<not> w_active w \<and> (\<exists>w1. work (w\<lparr>w_active := True\<rparr>) = (ok x, w1) \<and> w' = w1\<lparr>w_active := False\<rparr>)"
  by (auto simp: transaction_def split: prod.splits sum.splits)

text \<open>A command that throws inside a transaction leaves no trace in the database.\<close>

lemma transaction_throw_db: "transaction work w = (throw e, w') \<Longrightarrow> w_db w' = w_db w"
  by (auto simp: transaction_def split: prod.splits sum.splits if_splits)

text \<open>
  A property of the database that the work keeps when it returns is kept by the transaction,
  whatever the outcome.
\<close>

lemma transaction_keeps:
  assumes "P (w_db w)" and "transaction work w = (r, w')"
    and "\<And>x w1. work (w\<lparr>w_active := True\<rparr>) = (ok x, w1) \<Longrightarrow> P (w_db w1)"
  shows "P (w_db w')"
proof (cases r)
  case (Inl e)
  then show ?thesis using assms(1,2) transaction_throw_db by metis
next
  case (Inr x)
  then show ?thesis using assms(2,3) by (auto simp: transaction_ok)
qed

lemma index_read_ok [result_simps]: "index_read xs i = ok x \<longleftrightarrow> i < length xs \<and> x = xs ! i"
  by (auto simp: index_read_def)

lemma index_read_throw [result_simps]:
  "index_read xs i = throw e \<longleftrightarrow> \<not> i < length xs \<and> e = TypeError"
  by (auto simp: index_read_def)

section \<open>Lemmas: numbers and dates\<close>

lemma num_lt_irrefl [simp]: "\<not> num_lt n n"
  by (cases n) auto

lemma isSafeInteger_finite: "isSafeInteger n \<Longrightarrow> isFinite n"
  by (cases n) (auto simp: isSafeInteger_def)

lemma toBigInt_value: "isInteger n \<Longrightarrow> of_int (toBigInt n) = num_value n"
  by (cases n) (auto simp: toBigInt_def)

lemma date_lt_iff: "date_finite a \<Longrightarrow> date_finite b \<Longrightarrow> date_lt a b \<longleftrightarrow> \<not> date_le b a"
  by (cases a; cases b) auto

lemma date_le_refl [simp]: "date_le d d \<longleftrightarrow> date_finite d"
  by (cases d) auto

lemma date_le_trans: "date_le a b \<Longrightarrow> date_le b c \<Longrightarrow> date_le a c"
  by (cases a; cases b; cases c) auto

section \<open>The contract of a status lifecycle\<close>

text \<open>
  A transition table \<open>allowed\<close> and a set of terminal statuses: the statuses no transition
  leaves. The tables of tasks, agent runs, action requests and governance records are all
  instances.
\<close>

definition lifecycle_rel :: "('s \<Rightarrow> 's list) \<Rightarrow> ('s \<times> 's) set" where
  "lifecycle_rel allowed = {(s, t). t \<in> set (allowed s)}"

locale lifecycle =
  fixes allowed :: "'s \<Rightarrow> 's list"
    and terminal :: "'s \<Rightarrow> bool"
  assumes terminal_iff: "terminal s \<longleftrightarrow> allowed s = []"
begin

lemma terminal_no_step: "terminal s \<Longrightarrow> (s, t) \<notin> lifecycle_rel allowed"
  by (simp add: terminal_iff lifecycle_rel_def)

lemma terminal_absorbing:
  assumes "(s, t) \<in> (lifecycle_rel allowed)\<^sup>*" and "terminal s"
  shows "t = s"
  using assms by (induction rule: converse_rtrancl_induct) (auto dest: terminal_no_step)

lemma progress: "\<not> terminal s \<Longrightarrow> \<exists>t. (s, t) \<in> lifecycle_rel allowed"
  by (cases "allowed s") (auto simp: terminal_iff lifecycle_rel_def)

end

locale ranked_lifecycle = lifecycle allowed terminal
  for allowed :: "'s \<Rightarrow> 's list" and terminal :: "'s \<Rightarrow> bool" +
  fixes rank :: "'s \<Rightarrow> nat"
  assumes rank_less: "t \<in> set (allowed s) \<Longrightarrow> rank s < rank t"
begin

lemma rank_relpow: "(s, t) \<in> lifecycle_rel allowed ^^ n \<Longrightarrow> rank s + n \<le> rank t"
proof (induction n arbitrary: t)
  case 0
  then show ?case by simp
next
  case (Suc n)
  then obtain u where u: "(s, u) \<in> lifecycle_rel allowed ^^ n" "t \<in> set (allowed u)"
    by (auto simp: lifecycle_rel_def)
  from Suc.IH [OF u(1)] rank_less [OF u(2)] show ?case by simp
qed

lemma never_back: "(s, s) \<notin> (lifecycle_rel allowed)\<^sup>+"
proof
  assume "(s, s) \<in> (lifecycle_rel allowed)\<^sup>+"
  then obtain n where "n > 0" "(s, s) \<in> lifecycle_rel allowed ^^ n"
    by (auto simp: trancl_power)
  then show False using rank_relpow [of s s n] by simp
qed

lemma acyclic_lifecycle: "acyclic (lifecycle_rel allowed)"
  using never_back by (simp add: acyclic_def)

end

end
