(* ===== verification/Task_Lifecycle.thy ===== *)
theory Task_Lifecycle
  imports Prelude "HOL-Library.Word"
begin

text \<open>
  The task aggregate, \<open>packages/domain/src/task/task.ts\<close>: the transition table, the guards
  that read it, reason and priority validation, and every operation of the class \<open>Task\<close> as a
  function from the properties to the new properties or an error. The properties of the class
  are shown for whole histories: a list of operations applied to a created task.
\<close>

section \<open>The model\<close>

datatype task_status =
    Pending | Assigned | Running | Blocked | WaitingReview | Completed | Failed | Cancelled

fun task_status_str :: "task_status \<Rightarrow> string" where
  "task_status_str Pending = ''pending''"
| "task_status_str Assigned = ''assigned''"
| "task_status_str Running = ''running''"
| "task_status_str Blocked = ''blocked''"
| "task_status_str WaitingReview = ''waiting_review''"
| "task_status_str Completed = ''completed''"
| "task_status_str Failed = ''failed''"
| "task_status_str Cancelled = ''cancelled''"

fun taskTransitions :: "task_status \<Rightarrow> task_status list" where
  "taskTransitions Pending = [Running, Blocked, Cancelled]"
| "taskTransitions Assigned = [Running, Blocked, Cancelled]"
| "taskTransitions Running = [WaitingReview, Completed, Blocked, Failed, Cancelled]"
| "taskTransitions Blocked = [Pending, Failed, Cancelled]"
| "taskTransitions WaitingReview = [Completed, Blocked, Failed, Cancelled]"
| "taskTransitions Completed = []"
| "taskTransitions Failed = []"
| "taskTransitions Cancelled = []"

definition terminalTaskStatuses :: "task_status list" where
  "terminalTaskStatuses = [Completed, Failed, Cancelled]"

definition isTerminalTaskStatus :: "task_status \<Rightarrow> bool" where
  "isTerminalTaskStatus s \<longleftrightarrow> s \<in> {Completed, Failed, Cancelled}"

definition allowedTaskTransitions :: "task_status \<Rightarrow> task_status list" where
  "allowedTaskTransitions s = taskTransitions s"

definition isTaskTransitionAllowed :: "task_status \<Rightarrow> task_status \<Rightarrow> bool" where
  "isTaskTransitionAllowed s t \<longleftrightarrow> t \<in> set (taskTransitions s)"

definition isHistoricalCompletionApplicable :: "task_status \<Rightarrow> bool" where
  "isHistoricalCompletionApplicable s \<longleftrightarrow>
     \<not> isTerminalTaskStatus s \<and> \<not> isTaskTransitionAllowed s Completed"

definition historicalCompletionRefusal :: "task_status \<Rightarrow> string option" where
  "historicalCompletionRefusal s =
     (if isTerminalTaskStatus s
      then Some (task_status_str s @ '' is terminal and terminal state is never rewritten'')
      else if isTaskTransitionAllowed s Completed
      then Some (task_status_str s @
        '' can reach completed through the ordinary lifecycle, so use task:complete'')
      else None)"

definition maximumTaskReasonLength :: nat where
  "maximumTaskReasonLength = 2000"

definition normalizeTaskReason :: "string \<Rightarrow> string \<Rightarrow> string result" where
  "normalizeTaskReason value label =
     (let reason = trim value in
      if length reason = 0
      then throw (DomainValidationError (''Task '' @ label @ '' cannot be empty''))
      else if length reason > maximumTaskReasonLength
      then throw (DomainValidationError (''Task '' @ label @ '' cannot exceed 2000 characters''))
      else ok reason)"

definition minTaskPriority :: int where
  "minTaskPriority = - 2147483648"

definition maxTaskPriority :: int where
  "maxTaskPriority = 2147483647"

definition defaultTaskPriority :: js_num where
  "defaultTaskPriority = Num 0"

definition validateTaskPriority :: "js_num \<Rightarrow> js_num result" where
  "validateTaskPriority priority =
     (if \<not> isInteger priority \<or> num_lt priority (of_int_num minTaskPriority)
         \<or> num_lt (of_int_num maxTaskPriority) priority
      then throw (DomainValidationError
        ''Task priority must be an integer between -2147483648 and 2147483647'')
      else ok (if num_value priority = 0 then Num 0 else priority))"

record task =
  task_id :: string
  task_projectId :: string
  task_title :: string
  task_description :: "string option"
  task_status :: task_status
  task_priority :: js_num
  task_createdAt :: js_date
  task_updatedAt :: js_date

definition Task_create ::
  "string \<Rightarrow> string \<Rightarrow> string \<Rightarrow> string option \<Rightarrow> js_num option \<Rightarrow> js_date \<Rightarrow> task result" where
  "Task_create tid pid title0 description priority0 now =
     (let title = trim title0 in
      if length title = 0 then throw (DomainValidationError ''Task title cannot be empty'')
      else bindR (validateTaskPriority
             (case priority0 of None \<Rightarrow> defaultTaskPriority | Some p \<Rightarrow> p)) (\<lambda>priority.
        ok \<lparr>task_id = tid, task_projectId = pid, task_title = title,
            task_description = description, task_status = Pending,
            task_priority = priority, task_createdAt = now, task_updatedAt = now\<rparr>))"

definition Task_restore :: "task \<Rightarrow> task" where
  "Task_restore props = props"

definition Task_updateDescription :: "string \<Rightarrow> js_date \<Rightarrow> task \<Rightarrow> task result" where
  "Task_updateDescription description now t =
     ok (t\<lparr>task_description := Some description, task_updatedAt := now\<rparr>)"

definition Task_updatePriority :: "js_num \<Rightarrow> js_date \<Rightarrow> task \<Rightarrow> task result" where
  "Task_updatePriority priority now t =
     bindR (validateTaskPriority priority) (\<lambda>p.
       ok (t\<lparr>task_priority := p, task_updatedAt := now\<rparr>))"

definition Task_transition :: "task_status \<Rightarrow> js_date \<Rightarrow> task \<Rightarrow> task result" where
  "Task_transition to now t =
     (if \<not> isTaskTransitionAllowed (task_status t) to
      then throw (InvalidTaskTransitionError (task_status_str (task_status t))
             (task_status_str to)
             (map task_status_str (allowedTaskTransitions (task_status t))))
      else ok (t\<lparr>task_status := to, task_updatedAt := now\<rparr>))"

definition Task_start :: "js_date \<Rightarrow> task \<Rightarrow> task result" where
  "Task_start now = Task_transition Running now"

definition Task_submitForReview :: "js_date \<Rightarrow> task \<Rightarrow> task result" where
  "Task_submitForReview now = Task_transition WaitingReview now"

definition Task_complete :: "js_date \<Rightarrow> task \<Rightarrow> task result" where
  "Task_complete now = Task_transition Completed now"

definition Task_block :: "js_date \<Rightarrow> task \<Rightarrow> task result" where
  "Task_block now = Task_transition Blocked now"

definition Task_unblock :: "js_date \<Rightarrow> task \<Rightarrow> task result" where
  "Task_unblock now = Task_transition Pending now"

definition Task_fail :: "js_date \<Rightarrow> task \<Rightarrow> task result" where
  "Task_fail now = Task_transition Failed now"

definition Task_cancel :: "js_date \<Rightarrow> task \<Rightarrow> task result" where
  "Task_cancel now = Task_transition Cancelled now"

definition Task_recordHistoricalCompletion :: "js_date \<Rightarrow> task \<Rightarrow> task result" where
  "Task_recordHistoricalCompletion now t =
     (case historicalCompletionRefusal (task_status t) of
        Some refusal \<Rightarrow> throw (InvalidTaskCorrectionError (task_status_str (task_status t))
                          ''completed'' refusal)
      | None \<Rightarrow> ok (t\<lparr>task_status := Completed, task_updatedAt := now\<rparr>))"

text \<open>
  A history of a task: the mutating methods of the class, applied one after the other. A
  refused call throws and leaves the aggregate as it was.
\<close>

datatype task_op =
    UpdateDescription string | UpdatePriority js_num
  | Start | SubmitForReview | Complete | Block | Unblock | Fail | Cancel
  | RecordHistoricalCompletion

fun task_apply :: "task_op \<Rightarrow> js_date \<Rightarrow> task \<Rightarrow> task result" where
  "task_apply (UpdateDescription d) now t = Task_updateDescription d now t"
| "task_apply (UpdatePriority p) now t = Task_updatePriority p now t"
| "task_apply Start now t = Task_start now t"
| "task_apply SubmitForReview now t = Task_submitForReview now t"
| "task_apply Complete now t = Task_complete now t"
| "task_apply Block now t = Task_block now t"
| "task_apply Unblock now t = Task_unblock now t"
| "task_apply Fail now t = Task_fail now t"
| "task_apply Cancel now t = Task_cancel now t"
| "task_apply RecordHistoricalCompletion now t = Task_recordHistoricalCompletion now t"

definition task_attempt :: "task \<Rightarrow> task_op \<times> js_date \<Rightarrow> task" where
  "task_attempt t oc = (case task_apply (fst oc) (snd oc) t of Inl _ \<Rightarrow> t | Inr t' \<Rightarrow> t')"

definition task_history :: "task \<Rightarrow> (task_op \<times> js_date) list \<Rightarrow> task" where
  "task_history t ocs = foldl task_attempt t ocs"

text \<open>
  The well-formedness every created task has: a trimmed title that is not empty, and an integer
  priority in the signed 32-bit range that is not the negative zero.
\<close>

definition wf_task :: "task \<Rightarrow> bool" where
  "wf_task t \<longleftrightarrow> canonical_text (task_title t) \<and> isInteger (task_priority t)
     \<and> task_priority t \<noteq> NegZero
     \<and> of_int minTaskPriority \<le> num_value (task_priority t)
     \<and> num_value (task_priority t) \<le> of_int maxTaskPriority"

section \<open>Lemmas\<close>

lemmas task_guard_defs = isTerminalTaskStatus_def isTaskTransitionAllowed_def
  allowedTaskTransitions_def isHistoricalCompletionApplicable_def historicalCompletionRefusal_def

lemmas task_op_defs = Task_start_def Task_submitForReview_def Task_complete_def Task_block_def
  Task_unblock_def Task_fail_def Task_cancel_def Task_transition_def
  Task_updateDescription_def Task_updatePriority_def

interpretation task_lc: lifecycle taskTransitions isTerminalTaskStatus
  by unfold_locales (rename_tac s, case_tac s, simp_all add: isTerminalTaskStatus_def)

lemma isTerminal_iff_listed: "isTerminalTaskStatus s \<longleftrightarrow> s \<in> set terminalTaskStatuses"
  by (simp add: isTerminalTaskStatus_def terminalTaskStatuses_def)

lemma cancel_allowed_iff: "isTaskTransitionAllowed s Cancelled \<longleftrightarrow> \<not> isTerminalTaskStatus s"
  by (cases s) (simp_all add: task_guard_defs)

lemma historicalCompletionRefusal_None:
  "historicalCompletionRefusal s = None \<longleftrightarrow> s \<in> {Pending, Assigned, Blocked}"
  by (cases s) (simp_all add: task_guard_defs)

lemma Task_recordHistoricalCompletion_ok:
  "Task_recordHistoricalCompletion now t = ok t' \<longleftrightarrow>
     task_status t \<in> {Pending, Assigned, Blocked}
     \<and> t' = t\<lparr>task_status := Completed, task_updatedAt := now\<rparr>"
  by (cases "task_status t") (auto simp: Task_recordHistoricalCompletion_def task_guard_defs)

lemma validateTaskPriority_ok:
  "validateTaskPriority p = ok q \<Longrightarrow>
     isInteger q \<and> q \<noteq> NegZero \<and> num_value q = num_value p
     \<and> of_int minTaskPriority \<le> num_value q \<and> num_value q \<le> of_int maxTaskPriority"
  by (cases p) (auto simp: validateTaskPriority_def of_int_num_def minTaskPriority_def
      maxTaskPriority_def not_less split: if_splits)

lemma validateTaskPriority_int:
  "validateTaskPriority (of_int_num i) =
     (if minTaskPriority \<le> i \<and> i \<le> maxTaskPriority then ok (of_int_num i)
      else throw (DomainValidationError
        ''Task priority must be an integer between -2147483648 and 2147483647''))"
  by (auto simp: validateTaskPriority_def of_int_num_def not_less)

lemma wf_task_Task_create: "Task_create i p ti d pr now = ok t \<Longrightarrow> wf_task t"
  by (auto simp: Task_create_def wf_task_def Let_def canonical_text_def
      dest: validateTaskPriority_ok split: if_splits simp: result_simps)

lemma wf_task_apply: "task_apply oc now t = ok t' \<Longrightarrow> wf_task t \<Longrightarrow> wf_task t'"
  by (cases oc) (auto simp: task_op_defs Task_recordHistoricalCompletion_ok wf_task_def
      result_simps dest: validateTaskPriority_ok split: if_splits)

lemma wf_task_history: "wf_task t \<Longrightarrow> wf_task (task_history t ocs)"
  unfolding task_history_def
  by (induction ocs arbitrary: t) (auto simp: task_attempt_def split: sum.splits dest: wf_task_apply)

text \<open>What one operation does to the status.\<close>

fun op_target :: "task_op \<Rightarrow> task_status option" where
  "op_target Start = Some Running"
| "op_target SubmitForReview = Some WaitingReview"
| "op_target Complete = Some Completed"
| "op_target Block = Some Blocked"
| "op_target Unblock = Some Pending"
| "op_target Fail = Some Failed"
| "op_target Cancel = Some Cancelled"
| "op_target RecordHistoricalCompletion = Some Completed"
| "op_target _ = None"

lemma task_apply_status:
  "task_apply oc now t = ok t' \<Longrightarrow>
     task_status t' = (case op_target oc of None \<Rightarrow> task_status t | Some s \<Rightarrow> s)"
  by (cases oc) (auto simp: task_op_defs Task_recordHistoricalCompletion_ok result_simps
      split: if_splits)

lemma task_apply_allowed:
  "task_apply oc now t = ok t' \<Longrightarrow> op_target oc = Some s \<Longrightarrow> oc \<noteq> RecordHistoricalCompletion \<Longrightarrow>
     isTaskTransitionAllowed (task_status t) s"
  by (cases oc) (auto simp: task_op_defs result_simps split: if_splits)

lemma task_apply_frame:
  "task_apply oc now t = ok t' \<Longrightarrow>
     task_id t' = task_id t \<and> task_projectId t' = task_projectId t \<and> task_title t' = task_title t
     \<and> task_createdAt t' = task_createdAt t \<and> task_updatedAt t' = now"
  by (cases oc) (auto simp: task_op_defs Task_recordHistoricalCompletion_ok result_simps
      split: if_splits)

lemma task_apply_terminal:
  assumes "task_apply oc now t = ok t'" and "isTerminalTaskStatus (task_status t)"
  shows "task_status t' = task_status t"
proof (cases "op_target oc")
  case None
  then show ?thesis using task_apply_status [OF assms(1)] by simp
next
  case (Some s)
  show ?thesis
  proof (cases "oc = RecordHistoricalCompletion")
    case True
    then show ?thesis using assms
      by (auto simp: Task_recordHistoricalCompletion_ok isTerminalTaskStatus_def)
  next
    case False
    then have "s \<in> set (taskTransitions (task_status t))"
      using task_apply_allowed [OF assms(1) Some] by (simp add: isTaskTransitionAllowed_def)
    then show ?thesis using assms(2) by (simp add: task_lc.terminal_iff)
  qed
qed

lemma task_history_Nil [simp]: "task_history t [] = t"
  by (simp add: task_history_def)

lemma task_history_Cons [simp]: "task_history t (oc # ocs) = task_history (task_attempt t oc) ocs"
  by (simp add: task_history_def)

lemma task_history_append: "task_history t (xs @ ys) = task_history (task_history t xs) ys"
  by (simp add: task_history_def)

lemma task_history_terminal:
  "isTerminalTaskStatus (task_status t) \<Longrightarrow> task_status (task_history t ocs) = task_status t"
proof (induction ocs arbitrary: t)
  case Nil
  then show ?case by simp
next
  case (Cons oc ocs)
  have "task_status (task_attempt t oc) = task_status t"
    using Cons.prems by (auto simp: task_attempt_def dest: task_apply_terminal split: sum.splits)
  then show ?case using Cons.IH [of "task_attempt t oc"] Cons.prems by simp
qed

text \<open>
  How a task that began \<open>pending\<close> gets out of the statuses that precede work: only through
  \<open>running\<close>, through an accepted historical correction, or into \<open>failed\<close> or \<open>cancelled\<close>.
\<close>

definition was_running :: "task \<Rightarrow> (task_op \<times> js_date) list \<Rightarrow> bool" where
  "was_running t ocs \<longleftrightarrow> (\<exists>xs ys. ocs = xs @ ys \<and> task_status (task_history t xs) = Running)"

definition was_corrected :: "task \<Rightarrow> (task_op \<times> js_date) list \<Rightarrow> bool" where
  "was_corrected t ocs \<longleftrightarrow>
     (\<exists>xs now ys. ocs = xs @ (RecordHistoricalCompletion, now) # ys
        \<and> task_status (task_history t xs) \<in> {Pending, Assigned, Blocked})"

lemma was_running_snoc: "was_running t xs \<Longrightarrow> was_running t (xs @ ys)"
  unfolding was_running_def by (metis append_assoc)

lemma was_corrected_snoc: "was_corrected t xs \<Longrightarrow> was_corrected t (xs @ ys)"
  unfolding was_corrected_def by (metis append_Cons append_assoc)

lemma was_running_now: "task_status (task_history t xs) = Running \<Longrightarrow> was_running t xs"
  unfolding was_running_def by (metis append_Nil2)

lemma was_corrected_now:
  "task_status (task_history t xs) \<in> {Pending, Assigned, Blocked} \<Longrightarrow>
     was_corrected t (xs @ [(RecordHistoricalCompletion, now)])"
  unfolding was_corrected_def by blast

lemma unstarted_step:
  assumes "task_status t \<in> {Pending, Blocked, Failed, Cancelled}"
  shows "task_status (task_attempt t oc) \<in> {Pending, Blocked, Failed, Cancelled, Running}
     \<or> fst oc = RecordHistoricalCompletion \<and> task_status t \<in> {Pending, Assigned, Blocked}"
proof (cases "task_apply (fst oc) (snd oc) t")
  case (Inl e)
  then show ?thesis using assms by (auto simp: task_attempt_def)
next
  case (Inr t')
  then show ?thesis using assms
    by (cases "fst oc") (auto simp: task_attempt_def task_op_defs isTaskTransitionAllowed_def
        result_simps Task_recordHistoricalCompletion_ok split: if_splits)
qed

lemma work_or_correction:
  assumes "task_status t = Pending"
  shows "task_status (task_history t ocs) \<in> {Pending, Blocked, Failed, Cancelled}
     \<or> was_running t ocs \<or> was_corrected t ocs"
proof (induction ocs rule: rev_induct)
  case Nil
  then show ?case using assms by simp
next
  case (snoc oc ocs)
  show ?case
  proof (cases "was_running t ocs \<or> was_corrected t ocs")
    case True
    then show ?thesis using was_running_snoc was_corrected_snoc by blast
  next
    case False
    let ?u = "task_history t ocs"
    have "task_status ?u \<in> {Pending, Blocked, Failed, Cancelled}" using snoc False by blast
    from unstarted_step [OF this, of oc] consider
        "task_status (task_history t (ocs @ [oc])) \<in> {Pending, Blocked, Failed, Cancelled}"
      | "task_status (task_history t (ocs @ [oc])) = Running"
      | "fst oc = RecordHistoricalCompletion" "task_status ?u \<in> {Pending, Assigned, Blocked}"
      by (auto simp: task_history_append)
    then show ?thesis
    proof cases
      case 2
      then show ?thesis using was_running_now by blast
    next
      case 3
      then show ?thesis using was_corrected_now [of t ocs "snd oc"] by (cases oc) auto
    qed blast
  qed
qed

section \<open>Properties of the aggregate\<close>

text \<open>Terminal task statuses are final: whatever sequence of the aggregate's methods is called
  on a task that is completed, failed or cancelled, accepted or refused, including historical
  corrections, its status never changes.\<close>

theorem task_terminal_final:
  assumes "isTerminalTaskStatus (task_status t)"
  shows "task_status (task_history t ocs) = task_status t"
  using assms by (rule task_history_terminal)

definition example_task :: task where
  "example_task = \<lparr>task_id = ''t1'', task_projectId = ''p1'', task_title = ''Ship it'',
     task_description = None, task_status = Pending, task_priority = Num 0,
     task_createdAt = At 0, task_updatedAt = At 0\<rparr>"

theorem task_terminal_final_witness:
  "task_status (task_history (example_task\<lparr>task_status := Failed\<rparr>)
     [(Start, At 1), (RecordHistoricalCompletion, At 2)]) = Failed"
  using task_terminal_final [of "example_task\<lparr>task_status := Failed\<rparr>"
      "[(Start, At 1), (RecordHistoricalCompletion, At 2)]"]
  by (simp add: isTerminalTaskStatus_def)

text \<open>C16. No shortcut to completion: a task that was created by the aggregate and is completed
  after some history either was running at some point of that history, or was completed by an
  accepted historical correction made while it was pending, assigned or blocked.\<close>

theorem task_completed_was_worked_or_corrected:
  assumes "Task_create tid pid title description priority now = ok t"
    and "task_status (task_history t ocs) = Completed"
  shows "was_running t ocs \<or> was_corrected t ocs"
proof -
  have "task_status t = Pending"
    using assms(1) by (auto simp: Task_create_def Let_def result_simps split: if_splits)
  then show ?thesis using work_or_correction [of t ocs] assms(2) by auto
qed

theorem task_completed_was_worked_or_corrected_witness:
  "was_running example_task [(Start, At 1), (Complete, At 2)]
   \<or> was_corrected example_task [(Start, At 1), (Complete, At 2)]"
proof (rule task_completed_was_worked_or_corrected)
  show "Task_create ''t1'' ''p1'' ''Ship it '' None None (At 0) = ok example_task"
    by (simp add: Task_create_def trim_def trimStart_def is_js_space_def js_whitespace_def
        validateTaskPriority_def defaultTaskPriority_def of_int_num_def minTaskPriority_def
        maxTaskPriority_def example_task_def)
  show "task_status (task_history example_task [(Start, At 1), (Complete, At 2)]) = Completed"
    by (simp add: example_task_def task_attempt_def task_op_defs isTaskTransitionAllowed_def)
qed

text \<open>The aggregate keeps its invariant: a created task has a trimmed, nonempty title and an
  integer priority in the 32-bit range, and after any history of method calls it still has them,
  with the identifier, the project and the creation time it was created with.\<close>

theorem task_history_invariant:
  assumes "Task_create tid pid title description priority now = ok t"
  shows "wf_task (task_history t ocs) \<and> task_id (task_history t ocs) = tid
     \<and> task_projectId (task_history t ocs) = pid \<and> task_title (task_history t ocs) = trim title
     \<and> task_createdAt (task_history t ocs) = now"
proof -
  have frame: "task_id (task_history u ocs) = task_id u
     \<and> task_projectId (task_history u ocs) = task_projectId u
     \<and> task_title (task_history u ocs) = task_title u
     \<and> task_createdAt (task_history u ocs) = task_createdAt u" for u
    by (induction ocs arbitrary: u)
      (auto simp: task_attempt_def split: sum.splits dest!: task_apply_frame)
  have "task_id t = tid" "task_projectId t = pid" "task_title t = trim title"
    "task_createdAt t = now"
    using assms by (auto simp: Task_create_def Let_def result_simps split: if_splits)
  then show ?thesis using frame [of t] wf_task_history [OF wf_task_Task_create [OF assms]] by simp
qed

theorem task_history_invariant_witness:
  "wf_task (task_history example_task [(UpdatePriority (Num 7), At 1), (Fail, At 2)])"
  using task_history_invariant [of "''t1''" "''p1''" "''Ship it''" None None "At 0" example_task
      "[(UpdatePriority (Num 7), At 1), (Fail, At 2)]"]
  by (simp add: Task_create_def trim_def trimStart_def is_js_space_def js_whitespace_def
      validateTaskPriority_def defaultTaskPriority_def of_int_num_def minTaskPriority_def
      maxTaskPriority_def example_task_def)

text \<open>Priorities survive a signed 32-bit column: the validation accepts exactly the integer
  numbers (the negative zero read as zero) whose value a 32-bit two's-complement word represents,
  returns that integer, and rejects every other number, NaN and the infinities included.\<close>

theorem task_priority_fits_int32:
  "(\<exists>q. validateTaskPriority p = ok q) \<longleftrightarrow>
     (\<exists>i. isInteger p \<and> num_value p = of_int i \<and> sint (word_of_int i :: 32 word) = i
        \<and> validateTaskPriority p = ok (of_int_num i))"
proof
  assume "\<exists>q. validateTaskPriority p = ok q"
  then obtain q where q: "validateTaskPriority p = ok q" by blast
  note v = validateTaskPriority_ok [OF q]
  define i where "i = toBigInt q"
  have i: "of_int i = num_value q" using v by (simp add: i_def toBigInt_value)
  then have "minTaskPriority \<le> i" "i \<le> maxTaskPriority" using v by (metis of_int_le_iff)+
  then have "sint (word_of_int i :: 32 word) = i"
    by (simp add: sint_sbintrunc' signed_take_bit_int_eq_self
        minTaskPriority_def maxTaskPriority_def)
  moreover have "q = of_int_num i" using v i by (cases q) (auto simp: of_int_num_def)
  moreover have "isInteger p" using q by (simp add: validateTaskPriority_def split: if_splits)
  ultimately show "\<exists>i. isInteger p \<and> num_value p = of_int i \<and> sint (word_of_int i :: 32 word) = i
      \<and> validateTaskPriority p = ok (of_int_num i)"
    using v i q by (intro exI [of _ i]) simp
qed blast

text \<open>A failed task may never have been started: the doc comment of \<open>Task.fail\<close> says the
  status is reachable only once work has begun, but \<open>pending\<close> may be blocked and \<open>blocked\<close>
  may fail, so blocking and failing a fresh task leaves it failed without ever having run.\<close>

theorem task_failed_without_start:
  assumes "Task_create tid pid title description priority now = ok t"
  shows "task_status (task_history t [(Block, n1), (Fail, n2)]) = Failed
     \<and> \<not> was_running t [(Block, n1), (Fail, n2)]"
proof -
  have p: "task_status t = Pending"
    using assms by (auto simp: Task_create_def Let_def result_simps split: if_splits)
  have "task_status (task_history t xs) \<noteq> Running" if "xs @ ys = [(Block, n1), (Fail, n2)]" for xs ys
    using that p by (auto simp: append_eq_Cons_conv task_attempt_def task_op_defs
        isTaskTransitionAllowed_def)
  then show ?thesis using p
    by (auto simp: was_running_def task_attempt_def task_op_defs isTaskTransitionAllowed_def)
qed

theorem task_failed_without_start_witness:
  "task_status (task_history example_task [(Block, At 1), (Fail, At 2)]) = Failed"
  using task_failed_without_start [of "''t1''" "''p1''" "''Ship it''" None None "At 0" example_task
      "At 1" "At 2"]
  by (simp add: Task_create_def trim_def trimStart_def is_js_space_def js_whitespace_def
      validateTaskPriority_def defaultTaskPriority_def of_int_num_def minTaskPriority_def
      maxTaskPriority_def example_task_def)

end
