(* ===== verification/Task_Dependency.thy ===== *)
theory Task_Dependency
  imports Task_Lifecycle
begin

text \<open>
  Task prerequisites, \<open>packages/domain/src/task/task-dependency.ts\<close> and
  \<open>packages/domain/src/agent/run-eligibility.ts\<close>: which prerequisites block a dependent,
  and the breadth-first search that refuses an edge closing a cycle. The search is shown to
  terminate on every edge list and to decide reachability, so that the prerequisite graph
  stays acyclic.
\<close>

section \<open>The model\<close>

text \<open>A stored prerequisite edge (\<open>TaskDependency\<close> of the repository port).\<close>

record task_dependency =
  dep_projectId :: string
  dep_taskId :: string
  dep_dependsOn :: string
  dep_createdAt :: js_date

datatype prerequisite_requirement = ForStart | ForCompletion

text \<open>\<open>status === "completed" || (requirement === "start" && status === "waiting_review")\<close>\<close>

definition prerequisite_satisfied :: "prerequisite_requirement \<Rightarrow> task_status \<Rightarrow> bool" where
  "prerequisite_satisfied requirement status \<longleftrightarrow>
     status = Completed \<or> requirement = ForStart \<and> status = WaitingReview"

fun blockingPrerequisites ::
  "string list \<Rightarrow> (string \<rightharpoonup> task_status) \<Rightarrow> prerequisite_requirement
     \<Rightarrow> (string \<times> task_status) list result" where
  "blockingPrerequisites [] statuses requirement = ok []"
| "blockingPrerequisites (i # ids) statuses requirement =
     (case statuses i of
        None \<Rightarrow> throw (TaskDependencyError (''Prerequisite task '' @ i @ '' does not exist''))
      | Some status \<Rightarrow>
          bindR (blockingPrerequisites ids statuses requirement) (\<lambda>rest.
            ok (if prerequisite_satisfied requirement status then rest else (i, status) # rest)))"

text \<open>The adjacency map the search builds: prerequisite to its dependents, in edge order.\<close>

fun outgoing_add :: "(string \<rightharpoonup> string list) \<Rightarrow> task_dependency \<Rightarrow> (string \<rightharpoonup> string list)" where
  "outgoing_add m e = m(dep_dependsOn e \<mapsto>
     (case m (dep_dependsOn e) of None \<Rightarrow> [] | Some values \<Rightarrow> values) @ [dep_taskId e])"

definition outgoing :: "task_dependency list \<Rightarrow> (string \<rightharpoonup> string list)" where
  "outgoing edges = foldl outgoing_add Map.empty edges"

definition successors :: "task_dependency list \<Rightarrow> string \<Rightarrow> string list" where
  "successors edges v = (case outgoing edges v of None \<Rightarrow> [] | Some values \<Rightarrow> values)"

lemma successors_eq: "successors edges v = map dep_taskId (filter (\<lambda>e. dep_dependsOn e = v) edges)"
proof (induction edges rule: rev_induct)
  case Nil
  then show ?case by (simp add: successors_def outgoing_def)
next
  case (snoc e edges)
  then show ?case by (auto simp: successors_def outgoing_def)
qed

text \<open>The loop \<open>while (queue.length > 0)\<close> with its queue and its visited set.\<close>

function cycle_search ::
  "task_dependency list \<Rightarrow> string \<Rightarrow> string list \<Rightarrow> string set \<Rightarrow> unit result" where
  "cycle_search edges target [] visited = ok ()"
| "cycle_search edges target (current # queue) visited =
     (if current = target
      then throw (TaskDependencyError ''Task dependency would create a cycle'')
      else if current \<in> visited then cycle_search edges target queue visited
      else cycle_search edges target (queue @ successors edges current) (insert current visited))"
  by pat_completeness auto
termination
proof (relation "inv_image (finite_psubset <*lex*> less_than)
    (\<lambda>(edges, target, queue, visited). (dep_dependsOn ` set edges - visited, length queue))")
  fix edges target current queue and visited :: "string set"
  assume "current \<notin> visited"
  then show "((edges, target, queue @ successors edges current, insert current visited),
      edges, target, current # queue, visited)
      \<in> inv_image (finite_psubset <*lex*> less_than)
         (\<lambda>(edges, target, queue, visited). (dep_dependsOn ` set edges - visited, length queue))"
    by (cases "current \<in> dep_dependsOn ` set edges")
      (auto simp: finite_psubset_def successors_eq filter_empty_conv)
qed auto

definition assertAcyclicDependency ::
  "string \<Rightarrow> string \<Rightarrow> task_dependency list \<Rightarrow> unit result" where
  "assertAcyclicDependency taskId dependsOnTaskId edges =
     (if taskId = dependsOnTaskId
      then throw (TaskDependencyError ''A task cannot depend on itself'')
      else cycle_search edges dependsOnTaskId [taskId] {})"

definition isTaskRunnable :: "task_status \<Rightarrow> bool" where
  "isTaskRunnable status \<longleftrightarrow>
     status = Pending \<or> status = Assigned \<or> status = Running \<or> status = WaitingReview"

text \<open>The prerequisite graph: an edge from each prerequisite to its dependent.\<close>

definition prerequisite_graph :: "task_dependency list \<Rightarrow> (string \<times> string) set" where
  "prerequisite_graph edges = (\<lambda>e. (dep_dependsOn e, dep_taskId e)) ` set edges"

section \<open>Lemmas\<close>

lemma in_prerequisite_graph: "(v, w) \<in> prerequisite_graph edges \<longleftrightarrow> w \<in> set (successors edges v)"
  by (auto simp: prerequisite_graph_def successors_eq)

lemma prerequisite_graph_Cons [simp]:
  "prerequisite_graph (e # es) = insert (dep_dependsOn e, dep_taskId e) (prerequisite_graph es)"
  by (simp add: prerequisite_graph_def)

lemma prerequisite_graph_append [simp]:
  "prerequisite_graph (xs @ ys) = prerequisite_graph xs \<union> prerequisite_graph ys"
  by (auto simp: prerequisite_graph_def)

text \<open>
  The invariant of the search: a visited vertex is not the target, and its successors are
  visited or queued. Then the search throws exactly when the target is reachable from the
  queue or from a visited vertex.
\<close>

definition search_inv :: "(string \<times> string) set \<Rightarrow> string \<Rightarrow> string list \<Rightarrow> string set \<Rightarrow> bool" where
  "search_inv g target queue visited \<longleftrightarrow>
     target \<notin> visited \<and> g `` visited \<subseteq> visited \<union> set queue"

lemma closed_not_reached:
  assumes "(s, t) \<in> g\<^sup>*" and "s \<in> V" and "g `` V \<subseteq> V"
  shows "t \<in> V"
  using assms by (induction rule: rtrancl_induct) auto

lemma cycle_search_ok:
  assumes "search_inv (prerequisite_graph edges) target queue visited"
  shows "cycle_search edges target queue visited = ok () \<longleftrightarrow>
    (\<forall>s \<in> set queue \<union> visited. (s, target) \<notin> (prerequisite_graph edges)\<^sup>*)"
  using assms
proof (induction edges target queue visited rule: cycle_search.induct)
  case (1 edges target visited)
  then show ?case using closed_not_reached [of _ target "prerequisite_graph edges" visited]
    by (auto simp: search_inv_def)
next
  case (2 edges target current queue visited)
  let ?g = "prerequisite_graph edges"
  consider "current = target" | "current \<noteq> target" "current \<in> visited"
    | "current \<noteq> target" "current \<notin> visited" by blast
  then show ?case
  proof cases
    case 2
    then have "search_inv ?g target queue visited"
      using "2.prems" by (auto simp: search_inv_def)
    with 2 "2.IH"(1) show ?thesis by auto
  next
    case 3
    have inv: "search_inv ?g target (queue @ successors edges current) (insert current visited)"
      using "2.prems" 3 by (auto simp: search_inv_def in_prerequisite_graph)
    have "(current, target) \<in> ?g\<^sup>*" if "w \<in> set (successors edges current)" "(w, target) \<in> ?g\<^sup>*" for w
      using that by (auto simp: in_prerequisite_graph [symmetric] intro: converse_rtrancl_into_rtrancl)
    then show ?thesis using 3 "2.IH"(2) [OF _ _ inv] by auto
  qed auto
qed

lemma assertAcyclicDependency_ok:
  "assertAcyclicDependency t d edges = ok () \<longleftrightarrow> (t, d) \<notin> (prerequisite_graph edges)\<^sup>*"
  using cycle_search_ok [of edges d "[t]" "{}"]
  by (auto simp: assertAcyclicDependency_def search_inv_def)

lemma assertAcyclicDependency_outcome:
  "assertAcyclicDependency t d edges =
     (if t = d then throw (TaskDependencyError ''A task cannot depend on itself'')
      else if (t, d) \<in> (prerequisite_graph edges)\<^sup>*
      then throw (TaskDependencyError ''Task dependency would create a cycle'')
      else ok ())"
proof -
  have out: "cycle_search es x q v = ok ()
    \<or> cycle_search es x q v = throw (TaskDependencyError ''Task dependency would create a cycle'')"
    for es x q v
    by (induction es x q v rule: cycle_search.induct) auto
  show ?thesis using assertAcyclicDependency_ok [of t d edges] out [of edges d "[t]" "{}"]
    by (auto simp: assertAcyclicDependency_def simp del: cycle_search.simps)
qed

lemma blockingPrerequisites_ok:
  "blockingPrerequisites ids statuses requirement = ok bs \<longleftrightarrow>
     (\<forall>i \<in> set ids. i \<in> dom statuses)
     \<and> bs = map (\<lambda>i. (i, the (statuses i)))
         (filter (\<lambda>i. \<not> prerequisite_satisfied requirement (the (statuses i))) ids)"
  by (induction ids arbitrary: bs) (auto simp: result_simps dom_def split: option.splits)

lemma prerequisite_satisfied_mono:
  "prerequisite_satisfied ForCompletion s \<Longrightarrow> prerequisite_satisfied requirement s"
  by (auto simp: prerequisite_satisfied_def)

lemma not_runnable: "\<not> isTaskRunnable s \<longleftrightarrow> s = Blocked \<or> isTerminalTaskStatus s"
  by (cases s) (auto simp: isTaskRunnable_def isTerminalTaskStatus_def)

section \<open>Properties of the prerequisite graph\<close>

text \<open>C15. The cycle check is exact: for every edge list the breadth-first search terminates; it
  refuses an edge when the task is its own prerequisite or when the prerequisite is reachable
  from the task along stored edges, with the message of the case, and accepts it otherwise.\<close>

theorem assertAcyclicDependency_exact:
  "assertAcyclicDependency t d edges =
     (if t = d then throw (TaskDependencyError ''A task cannot depend on itself'')
      else if (t, d) \<in> (prerequisite_graph edges)\<^sup>*
      then throw (TaskDependencyError ''Task dependency would create a cycle'')
      else ok ())"
  by (rule assertAcyclicDependency_outcome)

text \<open>What blocks a dependent: the call throws exactly when a listed prerequisite is unknown;
  otherwise it returns, in the order given and with their statuses, exactly the prerequisites
  that are not completed and, for a start, not waiting for review either. Everything that blocks
  a start also blocks a completion.\<close>

theorem blockingPrerequisites_exact:
  "(blockingPrerequisites ids statuses requirement = ok bs \<longleftrightarrow>
      set ids \<subseteq> dom statuses
      \<and> bs = map (\<lambda>i. (i, the (statuses i)))
           (filter (\<lambda>i. the (statuses i) \<noteq> Completed
              \<and> (requirement = ForCompletion \<or> the (statuses i) \<noteq> WaitingReview)) ids))
   \<and> (blockingPrerequisites ids statuses ForStart = ok xs \<and>
      blockingPrerequisites ids statuses ForCompletion = ok ys \<longrightarrow> set xs \<subseteq> set ys)"
proof -
  have "\<not> prerequisite_satisfied requirement s \<longleftrightarrow>
      s \<noteq> Completed \<and> (requirement = ForCompletion \<or> s \<noteq> WaitingReview)" for s
    by (cases requirement) (auto simp: prerequisite_satisfied_def)
  then have "blockingPrerequisites ids statuses requirement = ok bs \<longleftrightarrow>
      set ids \<subseteq> dom statuses
      \<and> bs = map (\<lambda>i. (i, the (statuses i)))
           (filter (\<lambda>i. the (statuses i) \<noteq> Completed
              \<and> (requirement = ForCompletion \<or> the (statuses i) \<noteq> WaitingReview)) ids)"
    by (simp add: blockingPrerequisites_ok subset_eq)
  moreover have "set xs \<subseteq> set ys" if "blockingPrerequisites ids statuses ForStart = ok xs"
      "blockingPrerequisites ids statuses ForCompletion = ok ys"
    using that prerequisite_satisfied_mono by (fastforce simp: blockingPrerequisites_ok)
  ultimately show ?thesis by blast
qed

theorem blockingPrerequisites_exact_witness:
  "blockingPrerequisites [''a'', ''b''] [''a'' \<mapsto> WaitingReview, ''b'' \<mapsto> Running] ForStart
     = ok [(''b'', Running)]
   \<and> set [(''b'', Running)] \<subseteq> set [(''a'', WaitingReview), (''b'', Running)]"
  using blockingPrerequisites_exact [of "[''a'', ''b'']"
      "[''a'' \<mapsto> WaitingReview, ''b'' \<mapsto> Running]" ForStart "[(''b'', Running)]"
      "[(''b'', Running)]" "[(''a'', WaitingReview), (''b'', Running)]"]
  by (simp add: prerequisite_satisfied_def)

end
