(* ===== verification/Canonical_Json.thy ===== *)
theory Canonical_Json
  imports Prelude "HOL-Library.Multiset"
begin

text \<open>
  Canonical serialization, \<open>packages/domain/src/capability/canonical-json.ts\<close>, and the check
  for sensitive field names, \<open>sensitive-fields.ts\<close>. An \<open>unknown\<close> value is a tree
  \<open>js_value\<close>: the object graph unfolded from the root, in which a reference to an enclosing
  object is the leaf \<open>JsAncestor\<close>. A normalized value is a \<open>json\<close>. Object properties are
  in creation order; the order in which the language enumerates them (array indices first, in
  ascending order, then the other keys in creation order) is \<open>own_order\<close>.

  The decimal text of a number (\<open>Number::toString\<close>) is the parameter \<open>num_str\<close>, with
  what the language standard guarantees of it as the hypothesis \<open>number_printer\<close>: it is a
  nonempty text of digits, signs, the point and the exponent mark, and it determines the number.
\<close>

section \<open>The model\<close>

datatype json =
    JNull
  | JBool bool
  | JNum rat
  | JStr string
  | JArr "json list"
  | JObj "(string \<times> json) list"

text \<open>
  A property slot of an array or an object: a missing index, a property that is an accessor or
  not enumerable, or a plain data property.
\<close>

datatype 'a slot = Hole | Accessor | Data 'a

text \<open>
  \<open>JsArray symbols extra slots\<close>: whether the array has symbol properties, its own names
  that are neither \<open>length\<close> nor an index below the length, and the slot at each index.
  \<open>JsObject plain symbols props\<close>: whether the prototype is that of plain objects or null.
\<close>

datatype js_value =
    JsNull
  | JsBool bool
  | JsNumber js_num
  | JsString string
  | JsUndefined
  | JsFunction
  | JsSymbol
  | JsBigInt int
  | JsAncestor
  | JsArray bool "string list" "js_value slot list"
  | JsObject bool bool "(string \<times> js_value slot) list"

definition forbiddenObjectKeys :: "string list" where
  "forbiddenObjectKeys = [''__proto__'', ''constructor'', ''prototype'']"

text \<open>Decimal text of an index, as in \<open>`${path}[${index}]`\<close>.\<close>

fun nat_str :: "nat \<Rightarrow> string" where
  "nat_str n = (if n < 10 then [char_of (48 + n)] else nat_str (n div 10) @ [char_of (48 + n mod 10)])"

definition index_path :: "string \<Rightarrow> nat \<Rightarrow> string" where
  "index_path path index = path @ ''['' @ nat_str index @ '']''"

definition key_path :: "string \<Rightarrow> string \<Rightarrow> string" where
  "key_path path key = path @ ''.'' @ key"

text \<open>\<open>Object.getOwnPropertyNames(record).sort()\<close> with the slots of the names.\<close>

definition sort_props :: "(string \<times> 'a) list \<Rightarrow> (string \<times> 'a) list" where
  "sort_props ps = sort_key fst ps"

lemma sort_props_slots [termination_simp]:
  "(k, s) \<in> set (sort_props ps) \<longleftrightarrow> (k, s) \<in> set ps"
  by (simp add: sort_props_def)

lemma size_slot [termination_simp]:
  "(k, Data v) \<in> set ps \<Longrightarrow> size v < Suc (size_list (size_prod (\<lambda>_. 0) (size_slot size)) ps)"
  by (induction ps) auto

lemma size_slot_nth [termination_simp]:
  "i < length ss \<Longrightarrow> ss ! i = Data v \<Longrightarrow> size v < Suc (size_list (size_slot size) ss)"
proof -
  assume "i < length ss" "ss ! i = Data v"
  then have "Data v \<in> set ss" by (metis nth_mem)
  then show ?thesis by (induction ss) auto
qed

function (sequential) normalize :: "js_value \<Rightarrow> string \<Rightarrow> json result" where
  "normalize JsNull path = ok JNull"
| "normalize (JsString s) path = ok (JStr s)"
| "normalize (JsBool b) path = ok (JBool b)"
| "normalize (JsNumber n) path =
     (if \<not> isFinite n
      then throw (CanonicalSerializationError path ''non-finite numbers are forbidden'')
      else ok (JNum (num_value n)))"
| "normalize JsUndefined path = throw (CanonicalSerializationError path ''undefined is forbidden'')"
| "normalize JsFunction path =
     throw (CanonicalSerializationError path ''function values are forbidden'')"
| "normalize JsSymbol path =
     throw (CanonicalSerializationError path ''symbol values are forbidden'')"
| "normalize (JsBigInt i) path =
     throw (CanonicalSerializationError path ''bigint values are forbidden'')"
| "normalize JsAncestor path =
     throw (CanonicalSerializationError path ''cyclic references are forbidden'')"
| "normalize (JsArray symbols extra slots) path =
     (if symbols
      then throw (CanonicalSerializationError path ''symbol array properties are forbidden'')
      else case extra of
        key # _ \<Rightarrow> throw (CanonicalSerializationError (key_path path key)
                   ''additional array properties are forbidden'')
      | [] \<Rightarrow> bindR (mapR (\<lambda>index. case slots ! index of
            Hole \<Rightarrow> throw (CanonicalSerializationError (index_path path index)
                      ''sparse arrays are forbidden'')
          | Accessor \<Rightarrow> throw (CanonicalSerializationError (index_path path index)
                      ''array accessors are forbidden'')
          | Data v \<Rightarrow> normalize v (index_path path index)) [0..<length slots])
          (\<lambda>vs. ok (JArr vs)))"
| "normalize (JsObject plain symbols props) path =
     (if \<not> plain
      then throw (CanonicalSerializationError path ''only plain objects are supported'')
      else if symbols
      then throw (CanonicalSerializationError path ''symbol keys are forbidden'')
      else bindR (mapR (\<lambda>(key, slot). case slot of
            Data v \<Rightarrow>
              if key \<in> set forbiddenObjectKeys
              then throw (CanonicalSerializationError (key_path path key)
                     ''prototype-sensitive keys are forbidden'')
              else bindR (normalize v (key_path path key)) (\<lambda>j. ok (key, j))
          | _ \<Rightarrow> throw (CanonicalSerializationError (key_path path key)
                     ''accessor and non-enumerable properties are forbidden'')) (sort_props props))
          (\<lambda>es. ok (JObj es)))"
  by pat_completeness auto

termination
proof (relation "measure (size \<circ> fst)")
qed (auto simp: termination_simp size_slot_nth)


definition normalizeCanonicalJson :: "js_value \<Rightarrow> json result" where
  "normalizeCanonicalJson v = normalize v ''$''"

subsection \<open>Enumeration order and \<open>JSON.stringify\<close>\<close>

definition is_digit :: "char \<Rightarrow> bool" where
  "is_digit c \<longleftrightarrow> c \<in> set ''0123456789''"

definition digits_value :: "string \<Rightarrow> nat" where
  "digits_value s = foldl (\<lambda>n c. 10 * n + (of_char c - 48)) 0 s"

text \<open>The keys that are array indices: canonical decimals below \<open>2^32 - 1\<close>.\<close>

definition is_array_index :: "string \<Rightarrow> bool" where
  "is_array_index k \<longleftrightarrow> k \<noteq> [] \<and> list_all is_digit k \<and> (k = ''0'' \<or> hd k \<noteq> CHR ''0'')
     \<and> digits_value k < 4294967295"

definition property_order :: "(string \<times> 'a) list \<Rightarrow> (string \<times> 'a) list" where
  "property_order es = sort_key (digits_value \<circ> fst) (filter (is_array_index \<circ> fst) es)
     @ filter (Not \<circ> is_array_index \<circ> fst) es"

text \<open>A value with the properties of every object in the order they are enumerated.\<close>

fun own_order :: "json \<Rightarrow> json" where
  "own_order (JArr vs) = JArr (map own_order vs)"
| "own_order (JObj es) = JObj (property_order (map (\<lambda>(k, v). (k, own_order v)) es))"
| "own_order j = j"

text \<open>The escapes of a JSON string.\<close>

definition hex_digit :: "nat \<Rightarrow> char" where
  "hex_digit n = ''0123456789abcdef'' ! n"

definition esc_char :: "char \<Rightarrow> string" where
  "esc_char c =
     (if c = CHR 0x08 then [CHR 0x5C, CHR ''b'']
      else if c = CHR 0x09 then [CHR 0x5C, CHR ''t'']
      else if c = CHR 0x0A then [CHR 0x5C, CHR ''n'']
      else if c = CHR 0x0C then [CHR 0x5C, CHR ''f'']
      else if c = CHR 0x0D then [CHR 0x5C, CHR ''r'']
      else if c = CHR 0x22 then [CHR 0x5C, CHR 0x22]
      else if c = CHR 0x5C then [CHR 0x5C, CHR 0x5C]
      else if of_char c < (32::nat)
      then [CHR 0x5C, CHR ''u'', CHR ''0'', CHR ''0'', hex_digit (of_char c div 16),
            hex_digit (of_char c mod 16)]
      else [c])"

definition quote :: "string \<Rightarrow> string" where
  "quote s = CHR 0x22 # concat (map esc_char s) @ [CHR 0x22]"

fun print_json :: "(rat \<Rightarrow> string) \<Rightarrow> json \<Rightarrow> string" where
  "print_json num_str JNull = ''null''"
| "print_json num_str (JBool b) = (if b then ''true'' else ''false'')"
| "print_json num_str (JNum q) = num_str q"
| "print_json num_str (JStr s) = quote s"
| "print_json num_str (JArr vs) = ''['' @ join '','' (map (print_json num_str) vs) @ '']''"
| "print_json num_str (JObj es) =
     ''{'' @ join '','' (map (\<lambda>(k, v). quote k @ '':'' @ print_json num_str v) es) @ ''}''"

definition JSON_stringify :: "(rat \<Rightarrow> string) \<Rightarrow> json \<Rightarrow> string" where
  "JSON_stringify num_str j = print_json num_str (own_order j)"

definition canonicalStringify :: "(rat \<Rightarrow> string) \<Rightarrow> js_value \<Rightarrow> string result" where
  "canonicalStringify num_str v =
     bindR (normalizeCanonicalJson v) (\<lambda>j. ok (JSON_stringify num_str j))"

definition number_printer :: "(rat \<Rightarrow> string) \<Rightarrow> bool" where
  "number_printer num_str \<longleftrightarrow> inj num_str
     \<and> (\<forall>q. num_str q \<noteq> [] \<and> set (num_str q) \<subseteq> set ''0123456789+-.e'')"

subsection \<open>Sensitive fields\<close>

definition sensitiveFieldNames :: "string list" where
  "sensitiveFieldNames = [''apikey'', ''authorization'', ''credential'', ''credentialref'',
     ''credentials'', ''password'', ''secret'', ''token'']"

text \<open>\<open>toLowerCase\<close> below 256: the capital letters, the accented ones included.\<close>

definition to_lower :: "char \<Rightarrow> char" where
  "to_lower c =
     (let n = of_char c :: nat in
      if 65 \<le> n \<and> n \<le> 90 \<or> 192 \<le> n \<and> n \<le> 222 \<and> n \<noteq> 215 then char_of (n + 32) else c)"

definition js_lower :: "string \<Rightarrow> string" where
  "js_lower s = map to_lower s"

definition is_lower_alnum :: "char \<Rightarrow> bool" where
  "is_lower_alnum c \<longleftrightarrow> is_digit c \<or> (97 \<le> (of_char c :: nat) \<and> (of_char c :: nat) \<le> 122)"

definition normalizeSensitiveFieldKey :: "string \<Rightarrow> string" where
  "normalizeSensitiveFieldKey key = filter is_lower_alnum (map to_lower key)"

definition isSensitiveFieldKey :: "string \<Rightarrow> bool" where
  "isSensitiveFieldKey key \<longleftrightarrow> normalizeSensitiveFieldKey key \<in> set sensitiveFieldNames"

text \<open>
  The check on a JSON value, whose properties are visited in the order given: the callers pass
  \<open>own_order\<close> of the value.
\<close>

lemma size_json_nth [termination_simp]: "i < length vs \<Longrightarrow> size (vs ! i) < Suc (size_list size vs)"
  by (metis nth_mem size_list_estimation' le_imp_less_Suc order_refl)

fun check_sensitive :: "json \<Rightarrow> string \<Rightarrow> unit result" where
  "check_sensitive (JArr vs) path =
     forR (\<lambda>index. check_sensitive (vs ! index) (index_path path index)) [0..<length vs]"
| "check_sensitive (JObj es) path =
     forR (\<lambda>(key, item).
       if isSensitiveFieldKey key
       then throw (CapabilityValidationError (path @ '' cannot contain sensitive field '' @ key))
       else check_sensitive item (key_path path key)) es"
| "check_sensitive _ path = ok ()"

definition assertNoSensitiveFields :: "json \<Rightarrow> string \<Rightarrow> unit result" where
  "assertNoSensitiveFields v path = check_sensitive (own_order v) path"

text \<open>All the keys of a value, at any depth.\<close>

fun json_keys :: "json \<Rightarrow> string set" where
  "json_keys (JArr vs) = (\<Union>v \<in> set vs. json_keys v)"
| "json_keys (JObj es) = (\<Union>(k, v) \<in> set es. insert k (json_keys v))"
| "json_keys _ = {}"

text \<open>
  A value in canonical form: every object has its keys strictly increasing and none of them is
  prototype-sensitive.
\<close>

fun canonical_json :: "json \<Rightarrow> bool" where
  "canonical_json (JArr vs) = list_all canonical_json vs"
| "canonical_json (JObj es) =
     (sorted_wrt (<) (map fst es) \<and> list_all (\<lambda>(k, v). k \<notin> set forbiddenObjectKeys \<and> canonical_json v) es)"
| "canonical_json _ = True"

text \<open>A normalized value as the plain, frozen value the program goes on with.\<close>

fun embed :: "json \<Rightarrow> js_value" where
  "embed JNull = JsNull"
| "embed (JBool b) = JsBool b"
| "embed (JNum q) = JsNumber (Num q)"
| "embed (JStr s) = JsString s"
| "embed (JArr vs) = JsArray False [] (map (\<lambda>v. Data (embed v)) vs)"
| "embed (JObj es) = JsObject True False (map (\<lambda>(k, v). (k, Data (embed v))) es)"

text \<open>
  The values of the language have distinct property names, at every depth.
\<close>

fun wf_js :: "js_value \<Rightarrow> bool" where
  "wf_js (JsArray sy extra ss) = list_all (\<lambda>s. case s of Data v \<Rightarrow> wf_js v | _ \<Rightarrow> True) ss"
| "wf_js (JsObject pl sy ps) =
     (distinct (map fst ps) \<and> list_all (\<lambda>(k, s). case s of Data v \<Rightarrow> wf_js v | _ \<Rightarrow> True) ps)"
| "wf_js _ = True"

text \<open>Two values that differ in the creation order of properties, at any depth.\<close>

inductive reordered :: "js_value \<Rightarrow> js_value \<Rightarrow> bool" where
  permute: "mset ps = mset qs \<Longrightarrow> distinct (map fst ps) \<Longrightarrow>
     reordered (JsObject plain symbols ps) (JsObject plain symbols qs)"
| in_object: "reordered v w \<Longrightarrow>
     reordered (JsObject plain symbols (ps @ (k, Data v) # qs))
       (JsObject plain symbols (ps @ (k, Data w) # qs))"
| in_array: "reordered v w \<Longrightarrow>
     reordered (JsArray symbols extra (ss @ Data v # ts)) (JsArray symbols extra (ss @ Data w # ts))"
| chain: "reordered u v \<Longrightarrow> reordered v w \<Longrightarrow> reordered u w"

section \<open>Lemmas: the normal form\<close>

lemma sorted_keys_unique:
  assumes "mset ps = mset qs" and "distinct (map fst ps)"
  shows "sort_props ps = sort_props qs"
  unfolding sort_props_def
proof (rule properties_for_sort_key)
  show "mset (sort_key fst qs) = mset ps" using assms(1) by simp
  show "filter (\<lambda>x. fst k = fst x) (sort_key fst qs) = filter (\<lambda>x. fst k = fst x) ps"
    if "k \<in> set (sort_key fst qs)" for k
  proof -
    have set: "set (sort_key fst qs) = set ps" and d: "distinct (map fst (sort_key fst qs))"
      using assms by (metis mset_eq_setD set_sort, metis mset_map mset_sort mset_eq_imp_distinct_iff)
    have "filter (\<lambda>x. fst k = fst x) xs = [k]"
      if "distinct (map fst xs)" "k \<in> set xs" for xs :: "(string \<times> 'a) list"
      using that by (induction xs) (auto simp: filter_empty_conv rev_image_eqI)
    then show ?thesis using that set assms(2) d by simp
  qed
qed simp

lemma insort_all2:
  assumes "list_all2 R xs ys" and "R x y" and "\<And>p q. R p q \<Longrightarrow> fst p = fst q"
  shows "list_all2 R (insort_key fst x xs) (insort_key fst y ys)"
  using assms(1)
proof (induction xs ys rule: list_all2_induct)
  case (Cons a as b bs)
  then show ?case using assms(2,3) by (metis insort_key.simps(2) list_all2_Cons)
qed (simp add: assms(2))

lemma sort_props_all2:
  assumes "list_all2 R xs ys" and "\<And>p q. R p q \<Longrightarrow> fst p = fst q"
  shows "list_all2 R (sort_props xs) (sort_props ys)"
  using assms(1) unfolding sort_props_def
  by (induction xs ys rule: list_all2_induct) (simp_all add: insort_all2 assms(2))

lemma mapR_all2_cong: "list_all2 (\<lambda>x y. f x = f y) xs ys \<Longrightarrow> mapR f xs = mapR f ys"
  by (induction xs ys rule: list_all2_induct) simp_all

lemma reordered_normalize: "reordered v w \<Longrightarrow> normalize v path = normalize w path"
proof (induction arbitrary: path rule: reordered.induct)
  case (permute ps qs plain symbols)
  then show ?case by (simp add: sorted_keys_unique)
next
  case (in_object v w plain symbols ps k qs)
  let ?R = "\<lambda>p q. fst p = fst q \<and> (snd p = snd q \<or> snd p = Data v \<and> snd q = Data w)"
  let ?f = "\<lambda>(key, slot). case slot of
            Data v \<Rightarrow>
              if key \<in> set forbiddenObjectKeys
              then throw (CanonicalSerializationError (key_path path key)
                     ''prototype-sensitive keys are forbidden'')
              else bindR (normalize v (key_path path key)) (\<lambda>j. ok (key, j))
          | _ \<Rightarrow> throw (CanonicalSerializationError (key_path path key)
                     ''accessor and non-enumerable properties are forbidden'')"
  have "list_all2 ?R (ps @ (k, Data v) # qs) (ps @ (k, Data w) # qs)"
    by (auto intro!: list_all2_appendI list_all2_refl)
  then have "list_all2 ?R (sort_props (ps @ (k, Data v) # qs)) (sort_props (ps @ (k, Data w) # qs))"
    by (rule sort_props_all2) simp
  then have "list_all2 (\<lambda>p q. ?f p = ?f q)
      (sort_props (ps @ (k, Data v) # qs)) (sort_props (ps @ (k, Data w) # qs))"
    by (rule list_all2_mono) (use in_object.IH in \<open>auto split: prod.splits\<close>)
  from mapR_all2_cong [OF this] show ?case by simp
next
  case (in_array v w symbols extra ss ts)
  have "mapR (\<lambda>i. case (ss @ Data v # ts) ! i of
            Hole \<Rightarrow> throw (CanonicalSerializationError (index_path path i)
                      ''sparse arrays are forbidden'')
          | Accessor \<Rightarrow> throw (CanonicalSerializationError (index_path path i)
                      ''array accessors are forbidden'')
          | Data u \<Rightarrow> normalize u (index_path path i)) xs =
        mapR (\<lambda>i. case (ss @ Data w # ts) ! i of
            Hole \<Rightarrow> throw (CanonicalSerializationError (index_path path i)
                      ''sparse arrays are forbidden'')
          | Accessor \<Rightarrow> throw (CanonicalSerializationError (index_path path i)
                      ''array accessors are forbidden'')
          | Data u \<Rightarrow> normalize u (index_path path i)) xs" for xs
    by (rule mapR_cong) (use in_array in \<open>auto simp: nth_append nth_Cons split: nat.splits\<close>)
  then show ?case by (cases extra) simp_all
next
  case (chain u v w)
  then show ?case by simp
qed


lemma mapR_upt:
  "mapR f [0..<n] = ok vs \<longleftrightarrow> length vs = n \<and> (\<forall>i < n. f i = ok (vs ! i))"
  by (auto simp: mapR_ok_list_all2 list_all2_conv_all_nth)

lemma normalize_array_ok:
  "normalize (JsArray sy ex ss) path = ok j \<longleftrightarrow> \<not> sy \<and> ex = [] \<and> (\<exists>vs. j = JArr vs
     \<and> length vs = length ss \<and> (\<forall>i < length ss. \<exists>v. ss ! i = Data v
          \<and> normalize v (index_path path i) = ok (vs ! i)))"
proof -
  let ?f = "\<lambda>i. case ss ! i of
            Hole \<Rightarrow> throw (CanonicalSerializationError (index_path path i)
                      ''sparse arrays are forbidden'')
          | Accessor \<Rightarrow> throw (CanonicalSerializationError (index_path path i)
                      ''array accessors are forbidden'')
          | Data v \<Rightarrow> normalize v (index_path path i)"
  note m = mapR_upt [of ?f "length ss"]
  have "?f i = ok y \<longleftrightarrow> (\<exists>v. ss ! i = Data v \<and> normalize v (index_path path i) = ok y)" for i y
    by (cases "ss ! i") auto
  with m have "mapR ?f [0..<length ss] = ok vs \<longleftrightarrow> length vs = length ss \<and>
      (\<forall>i < length ss. \<exists>v. ss ! i = Data v \<and> normalize v (index_path path i) = ok (vs ! i))" for vs
    by simp
  then show ?thesis by (cases ex) (simp_all add: bindR_ok, blast)
qed

lemma normalize_object_ok:
  "normalize (JsObject pl sy ps) path = ok j \<longleftrightarrow> pl \<and> \<not> sy \<and> (\<exists>es. j = JObj es
     \<and> list_all2 (\<lambda>(k, s) (k', u). k' = k \<and> k \<notin> set forbiddenObjectKeys
          \<and> (\<exists>v. s = Data v \<and> normalize v (key_path path k) = ok u)) (sort_props ps) es)"
proof -
  let ?f = "\<lambda>(key, slot). case slot of
            Data v \<Rightarrow>
              if key \<in> set forbiddenObjectKeys
              then throw (CanonicalSerializationError (key_path path key)
                     ''prototype-sensitive keys are forbidden'')
              else bindR (normalize v (key_path path key)) (\<lambda>j. ok (key, j))
          | _ \<Rightarrow> throw (CanonicalSerializationError (key_path path key)
                     ''accessor and non-enumerable properties are forbidden'')"
  have "(?f p = ok q) = (case p of (k, s) \<Rightarrow> case q of (k', u) \<Rightarrow> k' = k \<and> k \<notin> set forbiddenObjectKeys
          \<and> (\<exists>v. s = Data v \<and> normalize v (key_path path k) = ok u))" for p q
    by (cases p; cases q; cases "snd p") (auto simp: result_simps)
  then have "mapR ?f qs = ok es \<longleftrightarrow> list_all2 (\<lambda>(k, s) (k', u). k' = k \<and> k \<notin> set forbiddenObjectKeys
          \<and> (\<exists>v. s = Data v \<and> normalize v (key_path path k) = ok u)) qs es" for qs es
    by (simp add: mapR_ok_list_all2 case_prod_beta')
  then show ?thesis by (auto simp: result_simps simp del: split_paired_Ex)
qed

lemma sorted_props_strict:
  "distinct (map fst ps) \<Longrightarrow> sorted_wrt (<) (map fst (sort_props ps))"
proof -
  assume "distinct (map fst ps)"
  then have "distinct (map fst (sort_props ps))"
    unfolding sort_props_def by (metis mset_eq_imp_distinct_iff mset_map mset_sort)
  then show ?thesis
    by (simp add: sort_props_def strict_sorted_iff)
qed


lemma normalize_canonical: "wf_js v \<Longrightarrow> normalize v path = ok j \<Longrightarrow> canonical_json j"
proof (induction v path arbitrary: j rule: normalize.induct)
  case (10 sy ex ss path)
  obtain vs where vs: "j = JArr vs" "length vs = length ss"
      "\<And>i. i < length ss \<Longrightarrow> \<exists>v. ss ! i = Data v \<and> normalize v (index_path path i) = ok (vs ! i)"
    and fl: "\<not> sy" "ex = []"
    using "10.prems"(2) by (auto simp: normalize_array_ok simp del: normalize.simps)
  have "canonical_json (vs ! i)" if i: "i < length ss" for i
  proof -
    obtain v where v: "ss ! i = Data v" "normalize v (index_path path i) = ok (vs ! i)"
      using vs(3) [OF i] by blast
    have "wf_js v" using "10.prems"(1) i v(1) by (auto simp: list_all_length)
    with "10.IH" [OF fl] i v show ?thesis by simp
  qed
  then show ?case using vs by (simp add: list_all_length)
next
  case (11 pl sy ps path)
  let ?Q = "\<lambda>(k, s) (k', u). k' = k \<and> k \<notin> set forbiddenObjectKeys
          \<and> (\<exists>v. s = Data v \<and> normalize v (key_path path k) = ok u)"
  obtain es where es: "j = JObj es" "list_all2 ?Q (sort_props ps) es" and fl: "pl" "\<not> sy"
    using "11.prems"(2) by (auto simp: normalize_object_ok simp del: normalize.simps)
  have keys: "map fst es = map fst (sort_props ps)"
    using es(2) by (induction rule: list_all2_induct) auto
  have "k \<notin> set forbiddenObjectKeys \<and> canonical_json u" if "(k, u) \<in> set es" for k u
  proof -
    obtain i where i: "i < length es" "es ! i = (k, u)"
      using \<open>(k, u) \<in> set es\<close> by (metis in_set_conv_nth)
    then have "?Q (sort_props ps ! i) (k, u)" and "i < length (sort_props ps)"
      using list_all2_nthD2 [OF es(2) i(1)] list_all2_lengthD [OF es(2)] by simp_all
    then obtain s where s: "(k, s) \<in> set (sort_props ps)" "?Q (k, s) (k, u)"
      by (cases "sort_props ps ! i") (auto dest: nth_mem)
    then obtain v where v: "s = Data v" "normalize v (key_path path k) = ok u" "k \<notin> set forbiddenObjectKeys"
      by auto
    have "wf_js v" using "11.prems"(1) s(1) v(1) by (auto simp: list_all_iff sort_props_slots)
    with "11.IH" [of "(k, s)" k s v] fl s v show ?thesis by simp
  qed
  then show ?case using es(1) keys sorted_props_strict [of ps] "11.prems"(1)
    by (auto simp: list_all_iff)
qed (auto split: if_splits)

lemma sort_props_sorted: "sorted_wrt (<) (map fst ps) \<Longrightarrow> sort_props ps = ps"
proof (induction ps)
  case (Cons p ps)
  then have "\<forall>q \<in> set ps. fst p \<le> fst q" by (auto intro: less_imp_le)
  then show ?case using Cons by (simp add: sort_props_def insort_is_Cons)
qed (simp add: sort_props_def)

lemma normalize_embed: "canonical_json j \<Longrightarrow> normalize (embed j) path = ok j"
proof (induction j arbitrary: path)
  case (JArr vs)
  then show ?case unfolding embed.simps normalize_array_ok by (auto simp: list_all_length)
next
  case (JObj es)
  have "map fst (map (\<lambda>(k, v). (k, Data (embed v))) es) = map fst es" by (simp add: case_prod_beta')
  then have "sort_props (map (\<lambda>(k, v). (k, Data (embed v))) es) = map (\<lambda>(k, v). (k, Data (embed v))) es"
    using JObj.prems by (intro sort_props_sorted) (metis canonical_json.simps(2))
  moreover have "normalize (embed v) p = ok v \<and> k \<notin> set forbiddenObjectKeys" if "(k, v) \<in> set es" for k v p
    using JObj that by (fastforce simp: list_all_iff)
  ultimately show ?case unfolding embed.simps normalize_object_ok
    by (auto simp: list_all2_map1 intro!: list.rel_refl_strong)
qed auto

section \<open>Lemmas: printing is unambiguous\<close>

definition delimited :: "string \<Rightarrow> bool" where
  "delimited r \<longleftrightarrow> r = [] \<or> hd r \<in> {CHR '','', CHR '']'', CHR ''}''}"

lemma hex_digit_inj: "m < 16 \<Longrightarrow> n < 16 \<Longrightarrow> hex_digit m = hex_digit n \<longleftrightarrow> m = n"
proof -
  assume "m < 16" "n < 16"
  moreover have "distinct ''0123456789abcdef''" by simp
  ultimately show ?thesis unfolding hex_digit_def
    using nth_eq_iff_index_eq [of "''0123456789abcdef''" m n] by simp
qed

lemma esc_char_unambiguous:
  assumes "esc_char c @ r = esc_char d @ s"
  shows "c = d \<and> r = s"
proof -
  have hex: "c = d" if "of_char c < (32::nat)" "of_char d < (32::nat)"
    "hex_digit (of_char c div 16) = hex_digit (of_char d div 16)"
    "hex_digit (of_char c mod 16) = hex_digit (of_char d mod 16)"
  proof -
    have "(of_char c :: nat) div 16 = of_char d div 16" "(of_char c :: nat) mod 16 = of_char d mod 16"
      using that by (simp_all add: hex_digit_inj)
    then have "(of_char c :: nat) = of_char d" by (metis div_mult_mod_eq)
    then show ?thesis by simp
  qed
  show ?thesis using assms hex unfolding esc_char_def by (simp split: if_splits)
qed

lemma esc_char_first: "\<exists>h t. esc_char c = h # t \<and> h \<noteq> CHR 0x22"
  by (simp add: esc_char_def)

lemma quote_unambiguous:
  assumes "quote s @ r = quote t @ q"
  shows "s = t \<and> r = q"
proof -
  have "concat (map esc_char s) @ CHR 0x22 # r = concat (map esc_char t) @ CHR 0x22 # q \<Longrightarrow> s = t \<and> r = q"
  proof (induction s arbitrary: t)
    case Nil
    then show ?case using esc_char_first by (cases t) (auto, metis append_Cons list.inject)
  next
    case (Cons c s)
    show ?case
    proof (cases t)
      case Nil
      then show ?thesis using Cons.prems esc_char_first [of c] by auto
    next
      case (Cons d u)
      then have "c = d \<and> concat (map esc_char s) @ CHR 0x22 # r = concat (map esc_char u) @ CHR 0x22 # q"
        using Cons.prems by (intro esc_char_unambiguous) simp
      then show ?thesis using Cons Cons.IH by simp
    qed
  qed
  then show ?thesis using assms by (simp add: quote_def)
qed


lemma join_Cons: "join sep (x # xs) = x @ concat (map (\<lambda>y. sep @ y) xs)"
  by (induction xs arbitrary: x) auto

text \<open>
  A printer is unambiguous on a set of values when, up to a delimiter, its text determines the
  value and what follows. Lists in brackets inherit it from their elements.
\<close>

definition unambiguous :: "('a \<Rightarrow> string) \<Rightarrow> 'a \<Rightarrow> bool" where
  "unambiguous p x \<longleftrightarrow> (\<forall>y r s. delimited r \<longrightarrow> delimited s \<longrightarrow> p x @ r = p y @ s \<longrightarrow> x = y \<and> r = s)"

lemma unambiguousD:
  "unambiguous p x \<Longrightarrow> p x @ r = p y @ s \<Longrightarrow> delimited r \<Longrightarrow> delimited s \<Longrightarrow> x = y \<and> r = s"
  unfolding unambiguous_def by blast

lemma delimited_tail:
  "close \<in> {CHR '']'', CHR ''}''} \<Longrightarrow> delimited (concat (map (\<lambda>y. '','' @ p y) xs) @ close # r)"
  by (cases xs) (auto simp: delimited_def)

lemma tail_unambiguous:
  assumes close: "close \<in> {CHR '']'', CHR ''}''}" and un: "\<forall>x \<in> set xs. unambiguous p x"
    and eq: "concat (map (\<lambda>y. '','' @ p y) xs) @ close # r = concat (map (\<lambda>y. '','' @ p y) ys) @ close # s"
  shows "xs = ys \<and> r = s"
  using un eq
proof (induction xs arbitrary: ys)
  case Nil
  then show ?case using close by (cases ys) auto
next
  case (Cons x xs)
  show ?case
  proof (cases ys)
    case Nil
    then show ?thesis using Cons.prems(2) close by auto
  next
    case (Cons y zs)
    let ?r = "concat (map (\<lambda>y. '','' @ p y) xs) @ close # r"
    let ?s = "concat (map (\<lambda>y. '','' @ p y) zs) @ close # s"
    have "p x @ ?r = p y @ ?s" using Cons.prems(2) Cons by simp
    then have "x = y \<and> ?r = ?s"
      using Cons.prems(1) delimited_tail [OF close] by (intro unambiguousD) simp_all
    then show ?thesis using Cons.IH Cons.prems(1) Cons by simp
  qed
qed

lemma join_unambiguous:
  assumes close: "close \<in> {CHR '']'', CHR ''}''}" and un: "\<forall>x \<in> set xs. unambiguous p x"
    and start: "\<And>x. \<exists>h t. p x = h # t \<and> h \<noteq> close"
    and eq: "join '','' (map p xs) @ close # r = join '','' (map p ys) @ close # s"
  shows "xs = ys \<and> r = s"
proof (cases xs)
  case Nil
  then show ?thesis using eq start
    by (cases ys) (auto simp: join_Cons simp del: join.simps(2,3), metis append_Cons list.inject)
next
  case (Cons x xs')
  note x = this
  show ?thesis
  proof (cases ys)
    case Nil
    then show ?thesis using eq x start [of x] by (auto simp: join_Cons simp del: join.simps(2,3))
  next
    case (Cons y ys')
    let ?r = "concat (map (\<lambda>y. '','' @ p y) xs') @ close # r"
    let ?s = "concat (map (\<lambda>y. '','' @ p y) ys') @ close # s"
    have "p x @ ?r = p y @ ?s"
      using eq x Cons by (simp add: join_Cons o_def del: join.simps(2,3))
    then have "x = y \<and> ?r = ?s"
      using un x delimited_tail [OF close] by (intro unambiguousD) simp_all
    moreover from this have "xs' = ys' \<and> r = s"
      using un x by (intro tail_unambiguous [OF close, of xs' p r ys' s]) simp_all
    ultimately show ?thesis using x Cons by simp
  qed
qed

lemma number_unambiguous:
  assumes "number_printer num_str" and "num_str q @ r = num_str q' @ s"
    and "delimited r" and "delimited s"
  shows "q = q' \<and> r = s"
proof -
  let ?N = "set ''0123456789+-.e''"
  have sub: "\<forall>c \<in> set (num_str x). c \<in> ?N" for x
    using assms(1) unfolding number_printer_def by blast
  have no: "takeWhile (\<lambda>c. c \<in> ?N) t = []" if "delimited t" for t
    using that by (cases t) (auto simp: delimited_def)
  have tw: "takeWhile (\<lambda>c. c \<in> ?N) (num_str x @ t) = num_str x" if "delimited t" for x t
    using takeWhile_append2 [of "num_str x" "\<lambda>c. c \<in> ?N" t] sub [of x] no [OF that] by simp
  have "num_str q = takeWhile (\<lambda>c. c \<in> ?N) (num_str q @ r)" by (simp only: tw [OF assms(3)])
  also have "\<dots> = num_str q'" unfolding assms(2) by (simp only: tw [OF assms(4)])
  finally have "num_str q = num_str q'" .
  then show ?thesis using assms(1,2) by (auto simp: number_printer_def dest: injD)
qed


lemma print_json_start:
  assumes "number_printer num_str"
  shows "\<exists>h t. print_json num_str j = h # t \<and> h \<noteq> CHR '']'' \<and> h \<noteq> CHR ''}''"
proof (cases j)
  case (JNum q)
  then show ?thesis using assms unfolding number_printer_def
    by (cases "num_str q") (auto dest!: spec [of _ q])
qed (auto simp: quote_def)

text \<open>The kind of a value shows in its first character.\<close>

fun kind_chars :: "json \<Rightarrow> string" where
  "kind_chars JNull = ''n''"
| "kind_chars (JBool b) = (if b then ''t'' else ''f'')"
| "kind_chars (JNum q) = ''0123456789+-.e''"
| "kind_chars (JStr s) = [CHR 0x22]"
| "kind_chars (JArr vs) = ''[''"
| "kind_chars (JObj es) = ''{''"

lemma print_json_kind:
  assumes "number_printer num_str"
  shows "\<exists>h t. print_json num_str j = h # t \<and> h \<in> set (kind_chars j)"
proof (cases j)
  case (JNum q)
  then show ?thesis using assms unfolding number_printer_def
    by (cases "num_str q") (auto dest!: spec [of _ q])
qed (auto simp: quote_def)

lemma print_json_same_kind:
  assumes "number_printer num_str" and "print_json num_str j @ r = print_json num_str k @ s"
  shows "set (kind_chars j) \<inter> set (kind_chars k) \<noteq> {}"
  using print_json_kind [OF assms(1), of j] print_json_kind [OF assms(1), of k] assms(2) by auto

lemma entry_unambiguous:
  assumes "unambiguous p v"
  shows "unambiguous (\<lambda>(k, v). quote k @ '':'' @ p v) (k, v)"
  unfolding unambiguous_def
proof (intro allI impI)
  fix y r s
  assume d: "delimited r" "delimited s"
    and eq: "(case (k, v) of (k, v) \<Rightarrow> quote k @ '':'' @ p v) @ r = (case y of (k, v) \<Rightarrow> quote k @ '':'' @ p v) @ s"
  obtain k' v' where y: "y = (k', v')" by (cases y)
  have "quote k @ (CHR '':'' # p v @ r) = quote k' @ (CHR '':'' # p v' @ s)" using eq y by simp
  from quote_unambiguous [OF this] have "k = k'" "p v @ r = p v' @ s" by simp_all
  then show "(k, v) = y \<and> r = s" using unambiguousD [OF assms] d y by blast
qed

lemma print_json_unambiguous:
  assumes np: "number_printer num_str"
  shows "unambiguous (print_json num_str) j"
proof (induction j)
  case (JArr vs)
  have start: "\<exists>h t. print_json num_str v = h # t \<and> h \<noteq> CHR '']''" for v
    using print_json_start [OF np, of v] by blast
  show ?case unfolding unambiguous_def
  proof (intro allI impI)
    fix y r s
    assume eq: "print_json num_str (JArr vs) @ r = print_json num_str y @ s"
    obtain ws where y: "y = JArr ws"
      using print_json_same_kind [OF np eq] by (cases y) (auto split: if_splits)
    have "vs = ws \<and> r = s"
      by (rule join_unambiguous [OF _ _ start]) (use JArr eq y in auto)
    then show "JArr vs = y \<and> r = s" using y by simp
  qed
next
  case (JObj es)
  let ?p = "\<lambda>(k, v). quote k @ '':'' @ print_json num_str v"
  have un: "\<forall>e \<in> set es. unambiguous ?p e"
    using JObj entry_unambiguous [of "print_json num_str"] by (metis prod.collapse snds.intros)
  have start: "\<exists>h t. ?p e = h # t \<and> h \<noteq> CHR ''}''" for e
    by (cases e) (simp add: quote_def)
  show ?case unfolding unambiguous_def
  proof (intro allI impI)
    fix y r s
    assume eq: "print_json num_str (JObj es) @ r = print_json num_str y @ s"
    obtain fs where y: "y = JObj fs"
      using print_json_same_kind [OF np eq] by (cases y) (auto split: if_splits)
    have "es = fs \<and> r = s"
      by (rule join_unambiguous [OF _ un start]) (use eq y in auto)
    then show "JObj es = y \<and> r = s" using y by simp
  qed
next
  case (JNum q)
  show ?case unfolding unambiguous_def
  proof (intro allI impI)
    fix y r s
    assume d: "delimited r" "delimited s"
      and eq: "print_json num_str (JNum q) @ r = print_json num_str y @ s"
    obtain q' where y: "y = JNum q'"
      using print_json_same_kind [OF np eq] by (cases y) (auto split: if_splits)
    then show "JNum q = y \<and> r = s" using number_unambiguous [OF np _ d] eq by auto
  qed
next
  case (JStr t)
  show ?case unfolding unambiguous_def
  proof (intro allI impI)
    fix y r s
    assume eq: "print_json num_str (JStr t) @ r = print_json num_str y @ s"
    obtain u where y: "y = JStr u"
      using print_json_same_kind [OF np eq] by (cases y) (auto split: if_splits)
    then show "JStr t = y \<and> r = s" using quote_unambiguous [of t r u s] eq by simp
  qed
next
  case JNull
  show ?case unfolding unambiguous_def
  proof (intro allI impI)
    fix y r s
    assume eq: "print_json num_str JNull @ r = print_json num_str y @ s"
    have "y = JNull" using print_json_same_kind [OF np eq] by (cases y) (auto split: if_splits)
    then show "JNull = y \<and> r = s" using eq by simp
  qed
next
  case (JBool b)
  show ?case unfolding unambiguous_def
  proof (intro allI impI)
    fix y r s
    assume eq: "print_json num_str (JBool b) @ r = print_json num_str y @ s"
    have "y = JBool b" using print_json_same_kind [OF np eq] by (cases y) (auto split: if_splits)
    then show "JBool b = y \<and> r = s" using eq by simp
  qed
qed


lemma mset_property_order: "mset (property_order es) = mset es"
  by (simp add: property_order_def o_def)

lemma property_order_inj:
  assumes "sorted_wrt (<) (map fst es)" and "sorted_wrt (<) (map fst fs)"
    and "property_order es = property_order fs"
  shows "es = fs"
proof -
  have "mset es = mset fs" using assms(3) mset_property_order by metis
  then have "sort_props es = sort_props fs"
    using assms(1) by (intro sorted_keys_unique) (simp_all add: strict_sorted_iff)
  then show ?thesis using assms(1,2) by (simp add: sort_props_sorted)
qed

lemma own_order_inj:
  "canonical_json j \<Longrightarrow> canonical_json k \<Longrightarrow> own_order j = own_order k \<Longrightarrow> j = k"
proof (induction j arbitrary: k)
  case (JArr vs)
  then obtain ws where k: "k = JArr ws" "map own_order vs = map own_order ws"
    by (cases k) auto
  have "vs = ws"
  proof (rule nth_equalityI)
    show len: "length vs = length ws" using k(2) by (metis length_map)
    show "vs ! i = ws ! i" if "i < length vs" for i
    proof (rule JArr.IH)
      show "own_order (vs ! i) = own_order (ws ! i)" using k(2) that len by (metis nth_map)
    qed (use JArr.prems k that len in \<open>auto simp: list_all_length\<close>)
  qed
  then show ?case using k by simp
next
  case (JObj es)
  let ?m = "map (\<lambda>(k, v). (k, own_order v))"
  have keys: "map fst (?m xs) = map fst xs" for xs :: "(string \<times> json) list"
    by (induction xs) auto
  obtain fs where k: "k = JObj fs" "property_order (?m es) = property_order (?m fs)"
    using JObj.prems(3) by (cases k) auto
  have m: "?m es = ?m fs"
    by (rule property_order_inj [OF _ _ k(2)]; use JObj.prems(1,2) k(1) in \<open>simp only: keys canonical_json.simps\<close>)
  have "es = fs"
  proof (rule nth_equalityI)
    show len: "length es = length fs" using m by (metis length_map)
    show "es ! i = fs ! i" if i: "i < length es" for i
    proof -
      obtain a v where e: "es ! i = (a, v)" by fastforce
      obtain b w where f: "fs ! i = (b, w)" by fastforce
      have "?m es ! i = ?m fs ! i" using m by simp
      then have ab: "a = b" "own_order v = own_order w" using i len e f by simp_all
      have "(a, v) \<in> set es" "(b, w) \<in> set fs" using i len e f by (metis nth_mem)+
      then have "canonical_json v" "canonical_json w"
        using JObj.prems k by (auto simp: list_all_iff)
      then have "v = w" using JObj.IH [of "(a, v)" v w] \<open>(a, v) \<in> set es\<close> ab by simp
      then show ?thesis using e f ab by simp
    qed
  qed
  then show ?case using k by simp
qed (auto elim: own_order.elims dest: sym)

lemma JSON_stringify_inj:
  assumes "number_printer num_str" and "canonical_json j" and "canonical_json k"
    and "JSON_stringify num_str j = JSON_stringify num_str k"
  shows "j = k"
  using unambiguousD [OF print_json_unambiguous [OF assms(1)], of "own_order j" "[]" "own_order k" "[]"]
    own_order_inj [OF assms(2,3)] assms(4) by (simp add: JSON_stringify_def delimited_def)

section \<open>Lemmas: sensitive fields\<close>

lemma set_property_order [simp]: "set (property_order es) = set es"
  by (metis mset_property_order set_mset_mset)

lemma json_keys_own_order [simp]: "json_keys (own_order j) = json_keys j"
proof (induction j)
  case (JObj es)
  have "insert k (json_keys (own_order v)) = insert k (json_keys v)" if "(k, v) \<in> set es" for k v
    using JObj that by (metis snds.intros snd_conv)
  then show ?case by (auto simp: case_prod_beta' image_iff)
qed auto

lemma check_sensitive_ok:
  "check_sensitive j path = ok () \<longleftrightarrow> (\<forall>k \<in> json_keys j. \<not> isSensitiveFieldKey k)"
proof (induction j path rule: check_sensitive.induct)
  case (1 vs path)
  then have "check_sensitive (JArr vs) path = ok () \<longleftrightarrow>
      (\<forall>i < length vs. \<forall>k \<in> json_keys (vs ! i). \<not> isSensitiveFieldKey k)"
    by (auto simp: result_simps)
  then show ?case by (simp add: all_set_conv_all_nth)
next
  case (2 es path)
  then show ?case by (fastforce simp: result_simps split: if_splits)
qed simp_all


section \<open>Properties\<close>

text \<open>C19. Canonical texts identify values: two values that serialize to the same canonical text have
  the same normal form, so a hash of the text binds the whole value. This holds whatever the
  nesting, with every string escape, and although the language enumerates keys that are array
  indices before the sorted ones.\<close>

theorem canonicalStringify_injective:
  assumes "number_printer num_str" and "wf_js v" and "wf_js w"
    and "canonicalStringify num_str v = ok s" and "canonicalStringify num_str w = ok s"
  shows "normalizeCanonicalJson v = normalizeCanonicalJson w"
proof -
  obtain j k where "normalize v ''$'' = ok j" "normalize w ''$'' = ok k"
      "JSON_stringify num_str j = s" "JSON_stringify num_str k = s"
    using assms(4,5) by (auto simp: canonicalStringify_def normalizeCanonicalJson_def result_simps)
  then show ?thesis
    using JSON_stringify_inj [OF assms(1)] normalize_canonical assms(2,3)
    by (auto simp: normalizeCanonicalJson_def)
qed

text \<open>A number printer: a sign, as many nines as the numerator, an exponent mark and the denominator
  in the same way. It stands in for the decimal text in the witness.\<close>

definition unary_num :: "rat \<Rightarrow> string" where
  "unary_num q = (let (a, b) = quotient_of q in
     (if a < 0 then ''-'' else ''+'') @ replicate (nat \<bar>a\<bar>) (CHR ''9'') @ ''e'' @ replicate (nat b) (CHR ''9''))"

lemma replicate_mark:
  assumes "replicate m x @ y # s = replicate n x @ y # t" and "x \<noteq> y"
  shows "m = n \<and> s = t"
  using assms
proof (induction m arbitrary: n)
  case 0
  then show ?case by (cases n) auto
next
  case (Suc m)
  then show ?case by (cases n) auto
qed

lemma number_printer_unary_num: "number_printer unary_num"
  unfolding number_printer_def
proof (intro conjI allI)
  show "inj unary_num"
  proof (rule injI)
    fix p q
    assume eq: "unary_num p = unary_num q"
    obtain a b where p: "quotient_of p = (a, b)" by fastforce
    obtain c d where q: "quotient_of q = (c, d)" by fastforce
    have pos: "b > 0" "d > 0" using p q quotient_of_denom_pos by blast+
    have sign: "(a < 0) = (c < 0)" using eq p q by (auto simp: unary_num_def split: if_splits)
    then have "replicate (nat \<bar>a\<bar>) (CHR ''9'') @ CHR ''e'' # replicate (nat b) (CHR ''9'') =
        replicate (nat \<bar>c\<bar>) (CHR ''9'') @ CHR ''e'' # replicate (nat d) (CHR ''9'')"
      using eq p q by (simp add: unary_num_def split: if_splits)
    from replicate_mark [OF this] have "nat \<bar>a\<bar> = nat \<bar>c\<bar>" "nat b = nat d"
      by (simp_all add: replicate_eq_replicate)
    then have "a = c" "b = d" using sign pos by linarith+
    then show "p = q" using p q by (metis quotient_of_inject)
  qed
  show "unary_num q \<noteq> []" "set (unary_num q) \<subseteq> set ''0123456789+-.e''" for q
    by (auto simp: unary_num_def split: prod.splits)
qed

definition sample_value :: js_value where
  "sample_value = JsObject True False
     [(''b'', Data (JsArray False [] [Data (JsNumber NegZero), Data (JsString ''x'')])),
      (''10'', Data JsNull), (''a'', Data (JsBool True))]"

lemma sample_value_eval:
  "normalizeCanonicalJson sample_value = ok (JObj [(''10'', JNull), (''a'', JBool True),
     (''b'', JArr [JNum 0, JStr ''x''])])"
  by (simp add: normalizeCanonicalJson_def sample_value_def sort_props_def upt_rec
      forbiddenObjectKeys_def)

theorem canonicalStringify_injective_witness:
  "\<exists>s. canonicalStringify unary_num sample_value = ok s \<and> wf_js sample_value
     \<and> normalizeCanonicalJson sample_value = normalizeCanonicalJson (JsObject True False
         [(''a'', Data (JsBool True)), (''10'', Data JsNull),
          (''b'', Data (JsArray False [] [Data (JsNumber (Num 0)), Data (JsString ''x'')]))])"
proof -
  let ?w = "JsObject True False
         [(''a'', Data (JsBool True)), (''10'', Data JsNull),
          (''b'', Data (JsArray False [] [Data (JsNumber (Num 0)), Data (JsString ''x'')]))]"
  have w: "normalizeCanonicalJson ?w = ok (JObj [(''10'', JNull), (''a'', JBool True),
     (''b'', JArr [JNum 0, JStr ''x''])])"
    by (simp add: normalizeCanonicalJson_def sort_props_def upt_rec forbiddenObjectKeys_def)
  have wf: "wf_js sample_value" "wf_js ?w" by (simp_all add: sample_value_def)
  obtain s where s: "canonicalStringify unary_num sample_value = ok s"
      "canonicalStringify unary_num ?w = ok s"
    by (simp add: canonicalStringify_def sample_value_eval w)
  from canonicalStringify_injective [OF number_printer_unary_num wf s] s wf show ?thesis by blast
qed

text \<open>C20. Canonical texts do not depend on the order in which properties were created, at any depth:
  two values that differ only in that order have the same canonical text, or the same error at
  the same path.\<close>

theorem canonicalStringify_order_independent:
  assumes "reordered v w"
  shows "canonicalStringify num_str v = canonicalStringify num_str w"
  using reordered_normalize [OF assms] by (simp add: canonicalStringify_def normalizeCanonicalJson_def)

theorem canonicalStringify_order_independent_witness:
  "canonicalStringify unary_num (JsObject True False [(''b'', Data JsNull), (''a'', Data JsFunction)])
   = canonicalStringify unary_num (JsObject True False [(''a'', Data JsFunction), (''b'', Data JsNull)])"
  by (rule canonicalStringify_order_independent, rule reordered.permute) auto

text \<open>C21. Normalization produces the canonical form (keys strictly increasing at every depth, none of
  the prototype-sensitive ones) and is idempotent: normalizing the normal form again gives it
  back.\<close>

theorem normalizeCanonicalJson_canonical:
  assumes "wf_js v" and "normalizeCanonicalJson v = ok j"
  shows "canonical_json j \<and> normalizeCanonicalJson (embed j) = ok j"
  using normalize_canonical [OF assms(1)] normalize_embed assms(2)
  by (simp add: normalizeCanonicalJson_def)

theorem normalizeCanonicalJson_canonical_witness:
  "canonical_json (JObj [(''10'', JNull), (''a'', JBool True), (''b'', JArr [JNum 0, JStr ''x''])])"
  using normalizeCanonicalJson_canonical [OF _ sample_value_eval] by (simp add: sample_value_def)

text \<open>The check for sensitive fields accepts a value exactly when no key at any depth, compared
  without case and punctuation, is one of the sensitive names.\<close>

theorem assertNoSensitiveFields_exact:
  "assertNoSensitiveFields v path = ok () \<longleftrightarrow>
     (\<nexists>k. k \<in> json_keys v \<and> normalizeSensitiveFieldKey k \<in> set sensitiveFieldNames)"
  by (auto simp: assertNoSensitiveFields_def check_sensitive_ok isSensitiveFieldKey_def)

end
