(* ===== verification/Task_Storage.thy ===== *)
theory Task_Storage
  imports Task_Dependency Canonical_Json
begin

text \<open>
  The task tables of a project database and their SQLite repositories:
  \<open>sqlite-task.repository.ts\<close>, \<open>sqlite-task-dependency.repository.ts\<close>,
  \<open>sqlite-audit-event.repository.ts\<close> in \<open>packages/storage-sqlite/src/repositories\<close>, with the
  constraints and triggers the migrations under \<open>migrations/project\<close> put on the tables.
  A statement returns what the driver reports and the new tables, or aborts. The contract the
  application relies on is the locale \<open>task_store\<close>, interpreted on these repositories.

  A task row is the task itself: every column is a property, and reading a row restores it. Of a row
  of \<open>task_execution_history\<close> only the task and the project are kept: no modelled code reads
  its other columns.
\<close>

section \<open>The model\<close>

datatype actor_type = ActorDaemon | ActorCli | ActorSystem

record audit_event =
  ae_id :: string
  ae_eventType :: string
  ae_actorType :: actor_type
  ae_actorId :: "string option"
  ae_aggregateType :: "string option"
  ae_aggregateId :: "string option"
  ae_projectId :: "string option"
  ae_payload :: "(string \<times> json) list"
  ae_occurredAt :: js_date

definition AuditEvent_create :: "audit_event \<Rightarrow> audit_event result" where
  "AuditEvent_create props =
     (if length (trim (ae_eventType props)) = 0
      then throw (DomainValidationError ''Audit event type cannot be empty'')
      else ok (props\<lparr>ae_eventType := trim (ae_eventType props)\<rparr>))"

record project_db =
  db_projects :: "string list"
  db_tasks :: "task list"
  db_dependencies :: "task_dependency list"
  db_executed :: "(string \<times> string) list"
  db_audit :: "audit_event list"

text \<open>\<open>toISOString()\<close> of an invalid date throws.\<close>

definition iso_check :: "js_date \<Rightarrow> unit result" where
  "iso_check d = (if date_finite d then ok () else throw (RangeError ''Invalid time value''))"

fun date_ms :: "js_date \<Rightarrow> int" where
  "date_ms (At ms) = ms"
| "date_ms InvalidDate = 0"

definition project_exists :: "'z project_db_scheme \<Rightarrow> string \<Rightarrow> bool" where
  "project_exists db p \<longleftrightarrow> p \<in> set (db_projects db)"

subsection \<open>Tasks\<close>

definition task_find :: "'z project_db_scheme \<Rightarrow> string \<Rightarrow> task option" where
  "task_find db i = find (\<lambda>t. task_id t = i) (db_tasks db)"

text \<open>\<open>ORDER BY priority DESC, created_at ASC, id ASC\<close>\<close>

definition task_listByProject :: "'z project_db_scheme \<Rightarrow> string \<Rightarrow> task list" where
  "task_listByProject db p =
     sort_key (\<lambda>t. (- num_value (task_priority t), date_ms (task_createdAt t), task_id t))
       (filter (\<lambda>t. task_projectId t = p) (db_tasks db))"

text \<open>
  \<open>EXISTS (SELECT 1 FROM task_dependency edge JOIN task prerequisite ...)\<close> of the triggers: an
  edge of the task whose prerequisite has a status outside the accepted ones.
\<close>

definition unmet_prerequisite ::
  "task_status list \<Rightarrow> 'z project_db_scheme \<Rightarrow> string \<Rightarrow> string \<Rightarrow> bool" where
  "unmet_prerequisite accepted db p i \<longleftrightarrow>
     list_ex (\<lambda>e. dep_projectId e = p \<and> dep_taskId e = i \<and>
       list_ex (\<lambda>t. task_id t = dep_dependsOn e \<and> task_status t \<notin> set accepted) (db_tasks db))
       (db_dependencies db)"

definition mark_executed :: "string \<Rightarrow> string \<Rightarrow> 'z project_db_scheme \<Rightarrow> 'z project_db_scheme" where
  "mark_executed i p db =
     (if i \<in> fst ` set (db_executed db) then db
      else db\<lparr>db_executed := (i, p) # db_executed db\<rparr>)"

text \<open>\<open>CHECK (length(trim(title)) > 0)\<close>: SQLite trims spaces only.\<close>

definition title_check :: "string \<Rightarrow> bool" where
  "title_check s \<longleftrightarrow> (\<exists>c \<in> set s. c \<noteq> CHR '' '')"

definition replace_task :: "task \<Rightarrow> task list \<Rightarrow> task list" where
  "replace_task t ts = map (\<lambda>u. if task_id u = task_id t then t else u) ts"

text \<open>
  The insert-or-update of a task with its triggers: completing running or reviewed work requires
  completed prerequisites, starting requires completed or reviewed ones, and entering
  \<open>running\<close> or \<open>waiting_review\<close> leaves a row in the execution history. The update keeps the
  project and the creation time of the row.
\<close>

definition task_update :: "task \<Rightarrow> task \<Rightarrow> 'z project_db_scheme \<Rightarrow> (unit \<times> 'z project_db_scheme) result" where
  "task_update old t db =
     (let new = t\<lparr>task_projectId := task_projectId old, task_createdAt := task_createdAt old\<rparr>;
          db1 = db\<lparr>db_tasks := replace_task new (db_tasks db)\<rparr>
      in if task_status new = Completed \<and> task_status old \<in> {Running, WaitingReview}
            \<and> unmet_prerequisite [Completed] db (task_projectId new) (task_id new)
         then throw (StorageConstraintError ''task has incomplete prerequisites'')
         else if task_status new \<in> {Running, WaitingReview} \<and> task_status old \<noteq> task_status new
         then if task_status new = Running
                \<and> unmet_prerequisite [Completed, WaitingReview] db1 (task_projectId new) (task_id new)
              then throw (StorageConstraintError ''task has incomplete prerequisites'')
              else ok ((), mark_executed (task_id new) (task_projectId new) db1)
         else ok ((), db1))"

definition task_save :: "task \<Rightarrow> 'z project_db_scheme \<Rightarrow> (unit \<times> 'z project_db_scheme) result" where
  "task_save t db =
     bindR (iso_check (task_createdAt t)) (\<lambda>_.
     bindR (iso_check (task_updatedAt t)) (\<lambda>_.
       if \<not> title_check (task_title t) then throw (StorageConstraintError ''CHECK constraint failed: task'')
       else case task_find db (task_id t) of
         None \<Rightarrow>
           if \<not> project_exists db (task_projectId t)
           then throw (StorageConstraintError ''FOREIGN KEY constraint failed'')
           else ok ((), db\<lparr>db_tasks := db_tasks db @ [t]\<rparr>)
       | Some old \<Rightarrow> task_update old t db))"

subsection \<open>Prerequisites\<close>

definition hasExecutionHistory :: "'z project_db_scheme \<Rightarrow> string \<Rightarrow> string \<Rightarrow> bool" where
  "hasExecutionHistory db p i \<longleftrightarrow> (i, p) \<in> set (db_executed db)"

definition dependency_listByProject :: "'z project_db_scheme \<Rightarrow> string \<Rightarrow> task_dependency list" where
  "dependency_listByProject db p =
     sort_key (\<lambda>e. (dep_taskId e, dep_dependsOn e))
       (filter (\<lambda>e. dep_projectId e = p) (db_dependencies db))"

text \<open>The trigger \<open>task_dependency_cycle_insert\<close>: the prerequisite is reachable from the task.\<close>

definition cycle_trigger :: "'z project_db_scheme \<Rightarrow> string \<Rightarrow> string \<Rightarrow> bool" where
  "cycle_trigger db t d \<longleftrightarrow>
     cycle_search (db_dependencies db) d (successors (db_dependencies db) t) {} \<noteq> ok ()"

definition same_project :: "'z project_db_scheme \<Rightarrow> task_dependency \<Rightarrow> bool" where
  "same_project db v \<longleftrightarrow>
     (\<exists>t \<in> set (db_tasks db). task_id t = dep_taskId v \<and> task_projectId t = dep_projectId v)
     \<and> (\<exists>t \<in> set (db_tasks db). task_id t = dep_dependsOn v \<and> task_projectId t = dep_projectId v)"

definition dependency_link ::
  "task_dependency \<Rightarrow> 'z project_db_scheme \<Rightarrow> (bool \<times> 'z project_db_scheme) result" where
  "dependency_link v db =
     bindR (iso_check (dep_createdAt v)) (\<lambda>_.
       if \<not> same_project db v then ok (False, db)
       else if cycle_trigger db (dep_taskId v) (dep_dependsOn v)
       then throw (StorageConstraintError ''task dependency cycle'')
       else if (dep_taskId v, dep_projectId v) \<in> set (db_executed db)
       then throw (StorageConstraintError ''task dependency cannot change after execution history'')
       else if dep_taskId v = dep_dependsOn v
       then throw (StorageConstraintError ''CHECK constraint failed: task_dependency'')
       else if \<exists>e \<in> set (db_dependencies db). dep_taskId e = dep_taskId v
              \<and> dep_dependsOn e = dep_dependsOn v
       then ok (False, db)
       else ok (True, db\<lparr>db_dependencies := v # db_dependencies db\<rparr>))"

definition dependency_unlink ::
  "string \<Rightarrow> string \<Rightarrow> string \<Rightarrow> 'z project_db_scheme \<Rightarrow> (bool \<times> 'z project_db_scheme) result" where
  "dependency_unlink p t d db =
     (let hit = (\<lambda>e. dep_projectId e = p \<and> dep_taskId e = t \<and> dep_dependsOn e = d)
      in if \<not> list_ex hit (db_dependencies db) then ok (False, db)
         else if (\<exists>u \<in> set (db_tasks db). task_id u = t) \<and> project_exists db p
                \<and> (t, p) \<in> set (db_executed db)
         then throw (StorageConstraintError ''task dependency cannot change after execution history'')
         else ok (length (filter hit (db_dependencies db)) = 1,
                db\<lparr>db_dependencies := filter (Not \<circ> hit) (db_dependencies db)\<rparr>))"

subsection \<open>Audit events\<close>

definition audit_append :: "audit_event \<Rightarrow> 'z project_db_scheme \<Rightarrow> (unit \<times> 'z project_db_scheme) result" where
  "audit_append event db =
     bindR (iso_check (ae_occurredAt event)) (\<lambda>_.
       if (case ae_projectId event of None \<Rightarrow> False | Some p \<Rightarrow> \<not> project_exists db p)
       then throw (StorageConstraintError ''FOREIGN KEY constraint failed'')
       else if \<exists>e \<in> set (db_audit db). ae_id e = ae_id event
       then throw (StorageConstraintError ''UNIQUE constraint failed: audit_event.id'')
       else ok ((), db\<lparr>db_audit := db_audit db @ [event]\<rparr>))"


section \<open>The contract of the task repository\<close>

text \<open>What the commands rely on: rows are found by their identifier, the list of a project is exactly
  its tasks, and a save is seen by the next lookup and changes nothing else.\<close>

locale task_store =
  fixes valid :: "'db \<Rightarrow> bool"
    and find_task :: "'db \<Rightarrow> string \<Rightarrow> task option"
    and list_tasks :: "'db \<Rightarrow> string \<Rightarrow> task list"
    and save_task :: "task \<Rightarrow> 'db \<Rightarrow> (unit \<times> 'db) result"
  assumes find_key: "valid db \<Longrightarrow> find_task db i = Some t \<Longrightarrow> task_id t = i"
    and list_exact: "valid db \<Longrightarrow>
      t \<in> set (list_tasks db p) \<longleftrightarrow> find_task db (task_id t) = Some t \<and> task_projectId t = p"
    and save_valid: "valid db \<Longrightarrow> save_task t db = ok (u, db') \<Longrightarrow> valid db'"
    and save_lookup: "valid db \<Longrightarrow> save_task t db = ok (u, db') \<Longrightarrow>
      find_task db' i = (if i = task_id t then Some (case find_task db (task_id t) of None \<Rightarrow> t
         | Some old \<Rightarrow> t\<lparr>task_projectId := task_projectId old, task_createdAt := task_createdAt old\<rparr>)
        else find_task db i)"
begin

lemma statuses_of_list:
  assumes "valid db"
  shows "js_map (map (\<lambda>t. (task_id t, task_status t)) (list_tasks db p)) i =
    (case find_task db i of None \<Rightarrow> None
     | Some t \<Rightarrow> if task_projectId t = p then Some (task_status t) else None)"
    (is "?m i = _")
proof (cases "?m i")
  case None
  then have "t \<notin> set (list_tasks db p)" if "task_id t = i" for t
    using that by (auto simp: js_map_None image_image)
  then show ?thesis using None list_exact [OF assms] find_key [OF assms]
    by (auto split: option.splits)
next
  case (Some s)
  then obtain t where "t \<in> set (list_tasks db p)" "task_id t = i" "task_status t = s"
    by (auto dest!: js_map_Some)
  then show ?thesis using Some list_exact [OF assms] by auto
qed

lemma save_round_trip:
  assumes "valid db" and "find_task db (task_id t) = Some old" and "save_task t db = ok (u, db')"
    and "task_projectId t = task_projectId old" and "task_createdAt t = task_createdAt old"
  shows "find_task db' (task_id t) = Some t"
  using save_lookup [OF assms(1,3)] assms(2,4,5) by simp

lemma save_frame:
  "valid db \<Longrightarrow> save_task t db = ok (u, db') \<Longrightarrow> i \<noteq> task_id t \<Longrightarrow> find_task db' i = find_task db i"
  using save_lookup by simp

end

section \<open>The repository meets the contract\<close>

definition task_rows_ok :: "'z project_db_scheme \<Rightarrow> bool" where
  "task_rows_ok db \<longleftrightarrow> distinct (map task_id (db_tasks db))
     \<and> (\<forall>t \<in> set (db_tasks db). project_exists db (task_projectId t))"

lemma find_distinct:
  "distinct (map f xs) \<Longrightarrow> find (\<lambda>x. f x = k) xs = Some x \<longleftrightarrow> x \<in> set xs \<and> f x = k"
  by (induction xs) auto

lemma task_find_iff:
  "task_rows_ok db \<Longrightarrow> task_find db i = Some t \<longleftrightarrow> t \<in> set (db_tasks db) \<and> task_id t = i"
  by (simp add: task_find_def task_rows_ok_def find_distinct)

lemma task_find_None: "task_find db i = None \<longleftrightarrow> i \<notin> task_id ` set (db_tasks db)"
  by (auto simp: task_find_def find_None_iff)

lemma replace_task_ids [simp]: "map task_id (replace_task t ts) = map task_id ts"
  by (simp add: replace_task_def)

lemma find_replace_task:
  "find (\<lambda>u. task_id u = i) (replace_task t ts) =
     (if i = task_id t then (if i \<in> task_id ` set ts then Some t else None)
      else find (\<lambda>u. task_id u = i) ts)"
  by (induction ts) (auto simp: replace_task_def)

lemma find_append: "find P (xs @ ys) = (case find P xs of None \<Rightarrow> find P ys | Some x \<Rightarrow> Some x)"
  by (induction xs) auto

text \<open>What a save leaves: the row of the task, merged with the stored one, and nothing else.\<close>

definition merged_row :: "'z project_db_scheme \<Rightarrow> task \<Rightarrow> task" where
  "merged_row db t = (case task_find db (task_id t) of None \<Rightarrow> t
     | Some old \<Rightarrow> t\<lparr>task_projectId := task_projectId old, task_createdAt := task_createdAt old\<rparr>)"

lemma mark_executed_simps [simp]:
  "db_tasks (mark_executed i p db) = db_tasks db"
  "db_projects (mark_executed i p db) = db_projects db"
  "db_dependencies (mark_executed i p db) = db_dependencies db"
  "db_audit (mark_executed i p db) = db_audit db"
  "project_db.more (mark_executed i p db) = project_db.more db"
  by (simp_all add: mark_executed_def)

lemma task_save_ok:
  assumes "task_save t db = ok (u, db')"
  shows "task_find db' i = (if i = task_id t then Some (merged_row db t) else task_find db i)"
    and "map task_id (db_tasks db') = map task_id (db_tasks db) @
      (if task_find db (task_id t) = None then [task_id t] else [])"
    and "db_projects db' = db_projects db" and "db_dependencies db' = db_dependencies db"
    and "db_audit db' = db_audit db" and "project_db.more db' = project_db.more db"
    and "project_exists db (task_projectId t) \<or> task_find db (task_id t) \<noteq> None"
    and "set (db_executed db) \<subseteq> set (db_executed db')"
    and "set (db_tasks db') \<subseteq> insert (merged_row db t) (set (db_tasks db))"
proof -
  have cases: "task_find db (task_id t) = None \<and> project_exists db (task_projectId t)
      \<and> db' = db\<lparr>db_tasks := db_tasks db @ [t]\<rparr>
    \<or> (\<exists>old. task_find db (task_id t) = Some old \<and> task_update old t db = ok (u, db'))"
    using assms by (auto simp: task_save_def result_simps split: option.splits if_splits)
  have upd: "db_tasks db' = replace_task (merged_row db t) (db_tasks db)
      \<and> db_projects db' = db_projects db \<and> db_dependencies db' = db_dependencies db
      \<and> db_audit db' = db_audit db \<and> project_db.more db' = project_db.more db
      \<and> set (db_executed db) \<subseteq> set (db_executed db')"
    if "task_find db (task_id t) = Some old" "task_update old t db = ok (u, db')" for old
    using that by (auto simp: task_update_def Let_def merged_row_def mark_executed_def split: if_splits)
  have key: "task_id (merged_row db t) = task_id t"
    by (simp add: merged_row_def split: option.splits)
  have ids: "map task_id (replace_task (merged_row db t) (db_tasks db)) = map task_id (db_tasks db)"
    by simp
  note facts = cases upd key ids
  show "task_find db' i = (if i = task_id t then Some (merged_row db t) else task_find db i)"
  proof (cases "task_find db (task_id t)")
    case None
    then show ?thesis using cases by (auto simp: task_find_def find_append merged_row_def split: option.splits)
  next
    case (Some old)
    moreover have "task_id t \<in> task_id ` set (db_tasks db)" using Some task_find_None by (metis option.distinct(1))
    moreover have "db_tasks db' = replace_task (merged_row db t) (db_tasks db)" using cases upd Some by auto
    ultimately show ?thesis using find_replace_task [of i "merged_row db t" "db_tasks db"] key
      by (simp add: task_find_def)
  qed
  show "map task_id (db_tasks db') = map task_id (db_tasks db) @
      (if task_find db (task_id t) = None then [task_id t] else [])"
    using facts by auto
  show "db_projects db' = db_projects db" "db_dependencies db' = db_dependencies db"
    "db_audit db' = db_audit db" "project_db.more db' = project_db.more db"
    "project_exists db (task_projectId t) \<or> task_find db (task_id t) \<noteq> None"
    "set (db_executed db) \<subseteq> set (db_executed db')"
    using cases upd by auto
  show "set (db_tasks db') \<subseteq> insert (merged_row db t) (set (db_tasks db))"
    using cases upd by (auto simp: merged_row_def replace_task_def split: option.splits)
qed


lemma task_save_rows_ok:
  assumes "task_rows_ok db" and "task_save t db = ok (u, db')"
  shows "task_rows_ok db'"
proof -
  note s = task_save_ok [OF assms(2)]
  have "distinct (map task_id (db_tasks db'))"
    unfolding s(2) using assms(1) task_find_None [of db "task_id t"]
    by (auto simp: task_rows_ok_def)
  moreover have "project_exists db' (task_projectId v)" if "v \<in> set (db_tasks db')" for v
  proof -
    have "v = merged_row db t \<or> v \<in> set (db_tasks db)" using s(9) that by blast
    moreover have "project_exists db (task_projectId (merged_row db t))"
    proof (cases "task_find db (task_id t)")
      case None
      then show ?thesis using s(7) by (simp add: merged_row_def)
    next
      case (Some old)
      then have "old \<in> set (db_tasks db)" using task_find_iff [OF assms(1)] by blast
      then show ?thesis using assms(1) Some by (simp add: merged_row_def task_rows_ok_def)
    qed
    ultimately show ?thesis using assms(1) s(3) by (auto simp: task_rows_ok_def project_exists_def)
  qed
  ultimately show ?thesis by (simp add: task_rows_ok_def)
qed

interpretation sqlite_tasks: task_store task_rows_ok task_find task_listByProject task_save
proof unfold_locales
  fix db :: "'z project_db_scheme" and i t p u db'
  assume ok: "task_rows_ok db"
  show "task_find db i = Some t \<Longrightarrow> task_id t = i" using task_find_iff [OF ok] by blast
  show "t \<in> set (task_listByProject db p) \<longleftrightarrow> task_find db (task_id t) = Some t \<and> task_projectId t = p"
    by (auto simp: task_listByProject_def task_find_iff [OF ok])
  assume save: "task_save t db = ok (u, db')"
  show "task_rows_ok db'" by (rule task_save_rows_ok [OF ok save])
  show "task_find db' i = (if i = task_id t then Some (case task_find db (task_id t) of None \<Rightarrow> t
         | Some old \<Rightarrow> t\<lparr>task_projectId := task_projectId old, task_createdAt := task_createdAt old\<rparr>)
        else task_find db i)"
    using task_save_ok(1) [OF save] by (simp add: merged_row_def)
qed

section \<open>The prerequisite tables\<close>

definition edges_ok :: "'z project_db_scheme \<Rightarrow> bool" where
  "edges_ok db \<longleftrightarrow> (\<forall>e \<in> set (db_dependencies db). same_project db e)
     \<and> distinct (map (\<lambda>e. (dep_taskId e, dep_dependsOn e)) (db_dependencies db))
     \<and> acyclic (prerequisite_graph (db_dependencies db))"

lemma set_dependency_listByProject [simp]:
  "set (dependency_listByProject db p) = {e \<in> set (db_dependencies db). dep_projectId e = p}"
  by (auto simp: dependency_listByProject_def)

lemma unmet_prerequisite_iff:
  assumes "task_rows_ok db"
  shows "unmet_prerequisite accepted db p i \<longleftrightarrow>
    (\<exists>e \<in> set (dependency_listByProject db p). dep_taskId e = i
       \<and> (\<exists>t. task_find db (dep_dependsOn e) = Some t \<and> task_status t \<notin> set accepted))"
  by (auto simp: unmet_prerequisite_def list_ex_iff task_find_iff [OF assms])

lemma cycle_trigger_iff:
  "cycle_trigger db t d \<longleftrightarrow> (t, d) \<in> (prerequisite_graph (db_dependencies db))\<^sup>+"
proof -
  let ?es = "db_dependencies db"
  have "cycle_trigger db t d \<longleftrightarrow>
      (\<exists>s \<in> set (successors ?es t). (s, d) \<in> (prerequisite_graph ?es)\<^sup>*)"
    unfolding cycle_trigger_def
    using cycle_search_ok [of ?es d "successors ?es t" "{}"] by (simp add: search_inv_def)
  then show ?thesis by (auto simp: in_prerequisite_graph [symmetric] trancl_unfold_left)
qed

text \<open>The edges of the whole table that matter for a task are those of its project.\<close>

lemma project_reachability:
  assumes rows: "task_rows_ok db" and edges: "edges_ok db"
    and t: "task_find db t = Some v" "task_projectId v = p"
  shows "(t, d) \<in> (prerequisite_graph (dependency_listByProject db p))\<^sup>* \<longleftrightarrow>
    (t, d) \<in> (prerequisite_graph (db_dependencies db))\<^sup>*"
proof
  assume "(t, d) \<in> (prerequisite_graph (dependency_listByProject db p))\<^sup>*"
  then show "(t, d) \<in> (prerequisite_graph (db_dependencies db))\<^sup>*"
    by (rule rtrancl_mono [THEN subsetD, rotated]) (auto simp: prerequisite_graph_def)
next
  assume "(t, d) \<in> (prerequisite_graph (db_dependencies db))\<^sup>*"
  then have "(t, d) \<in> (prerequisite_graph (dependency_listByProject db p))\<^sup>*
      \<and> (\<exists>w. task_find db d = Some w \<and> task_projectId w = p)"
  proof (induction rule: rtrancl_induct)
    case base
    then show ?case using t by blast
  next
    case (step y z)
    then obtain e where e: "e \<in> set (db_dependencies db)" "dep_dependsOn e = y" "dep_taskId e = z"
      by (auto simp: prerequisite_graph_def)
    have "same_project db e" using edges e(1) by (simp add: edges_ok_def)
    then obtain w x where "task_find db y = Some w" "task_projectId w = dep_projectId e"
        "task_find db z = Some x" "task_projectId x = dep_projectId e"
      using e by (auto simp: same_project_def task_find_iff [OF rows])
    then have "dep_projectId e = p" "task_find db z = Some x" "task_projectId x = p"
      using step.IH by auto
    then show ?case using step.IH e
      by (auto simp: prerequisite_graph_def intro: rtrancl_into_rtrancl)
  qed
  then show "(t, d) \<in> (prerequisite_graph (dependency_listByProject db p))\<^sup>*" by blast
qed

lemma same_project_tasks:
  assumes "task_rows_ok db"
  shows "same_project db e \<longleftrightarrow>
    (\<exists>t. task_find db (dep_taskId e) = Some t \<and> task_projectId t = dep_projectId e)
    \<and> (\<exists>t. task_find db (dep_dependsOn e) = Some t \<and> task_projectId t = dep_projectId e)"
  by (auto simp: same_project_def task_find_iff [OF assms])

text \<open>A save changes no project of a stored task, so the edges stay in their projects.\<close>

lemma task_save_same_project:
  assumes "task_rows_ok db" and "task_save t db = ok (u, db')" and "same_project db e"
  shows "same_project db' e"
proof -
  have *: "\<exists>v'. task_find db' i = Some v' \<and> task_projectId v' = q"
    if "task_find db i = Some v" "task_projectId v = q" for i v q
    using task_save_ok(1) [OF assms(2), of i] that by (auto simp: merged_row_def)
  show ?thesis using assms(3)
    unfolding same_project_tasks [OF assms(1)] same_project_tasks [OF task_save_rows_ok [OF assms(1,2)]]
    using * by blast
qed

lemma task_save_edges_ok:
  assumes "task_rows_ok db" and "edges_ok db" and "task_save t db = ok (u, db')"
  shows "edges_ok db'"
  using task_save_same_project [OF assms(1,3)] task_save_ok(4) [OF assms(3)] assms(2)
  by (simp add: edges_ok_def)

lemma dependency_link_edges_ok:
  assumes "edges_ok db" and "dependency_link v db = ok (c, db')"
  shows "edges_ok db'"
proof (cases c)
  case False
  then show ?thesis using assms by (auto simp: dependency_link_def result_simps split: if_splits)
next
  case True
  have l: "same_project db v" "\<not> cycle_trigger db (dep_taskId v) (dep_dependsOn v)"
    "dep_taskId v \<noteq> dep_dependsOn v" "db' = db\<lparr>db_dependencies := v # db_dependencies db\<rparr>"
    "\<nexists>e. e \<in> set (db_dependencies db) \<and> dep_taskId e = dep_taskId v \<and> dep_dependsOn e = dep_dependsOn v"
    using assms(2) True by (auto simp: dependency_link_def result_simps split: if_splits)
  have "(dep_taskId v, dep_dependsOn v) \<notin> (prerequisite_graph (db_dependencies db))\<^sup>*"
    using l(2,3) unfolding cycle_trigger_iff by (metis rtrancl_eq_or_trancl)
  then show ?thesis using assms(1) l(1,4,5)
    by (auto simp: edges_ok_def acyclic_insert same_project_def)
qed

lemma dependency_unlink_edges_ok:
  assumes "edges_ok db" and "dependency_unlink p t d db = ok (c, db')"
  shows "edges_ok db'"
proof -
  obtain P where db': "db' = db \<or> db' = db\<lparr>db_dependencies := filter P (db_dependencies db)\<rparr>"
    using assms(2) by (auto simp: dependency_unlink_def Let_def split: if_splits)
  have "acyclic (prerequisite_graph (filter P (db_dependencies db)))"
    using assms(1) by (auto simp: edges_ok_def prerequisite_graph_def elim: acyclic_subset)
  then show ?thesis using assms(1) db'
    by (auto simp: edges_ok_def same_project_def distinct_map_filter)
qed

end
