(* ===== verification/Task_Commands.thy ===== *)
theory Task_Commands
  imports Task_Storage
begin

text \<open>
  The application services that change tasks, \<open>packages/application/src/commands\<close>:
  \<open>record-audit-event.ts\<close>, \<open>create-task.ts\<close>, \<open>update-task.ts\<close>,
  \<open>manage-task-lifecycle.ts\<close> and \<open>manage-task-dependencies.ts\<close>, on the repositories of
  \<open>Task_Storage\<close>. A command threads the world (database, clock, identifier generator) and
  returns or throws; sequences of commands and the properties of what they reach are in
  \<open>Task_Reachability\<close>.
\<close>

section \<open>The model\<close>

definition RecordAuditEvent ::
  "services \<Rightarrow> string \<Rightarrow> actor_type \<Rightarrow> string option \<Rightarrow> string option \<Rightarrow> string option \<Rightarrow> string option
     \<Rightarrow> (string \<times> json) list \<Rightarrow> ('z project_db_scheme world, string) command" where
  "RecordAuditEvent sv eventType actorType actorId aggregateType aggregateId projectId payload =
     bindM (generate sv) (\<lambda>i.
     bindM (clock_now sv) (\<lambda>now.
     bindM (liftR (AuditEvent_create \<lparr>ae_id = i, ae_eventType = eventType, ae_actorType = actorType,
       ae_actorId = actorId, ae_aggregateType = aggregateType, ae_aggregateId = aggregateId,
       ae_projectId = projectId, ae_payload = payload, ae_occurredAt = now\<rparr>)) (\<lambda>event.
     bindM (execDb (audit_append event)) (\<lambda>_. returnM (ae_id event)))))"

text \<open>The audit record the task commands write: by an operator, about one task.\<close>

definition audit_task ::
  "services \<Rightarrow> string \<Rightarrow> string \<Rightarrow> string \<Rightarrow> string \<Rightarrow> (string \<times> json) list
     \<Rightarrow> ('z project_db_scheme world, string) command" where
  "audit_task sv eventType actorId projectId taskId payload =
     RecordAuditEvent sv eventType ActorCli (Some actorId) (Some ''task'') (Some taskId)
       (Some projectId) payload"

definition CreateTask ::
  "services \<Rightarrow> string \<Rightarrow> string \<Rightarrow> string option \<Rightarrow> js_num option
     \<Rightarrow> ('z project_db_scheme world, string) command" where
  "CreateTask sv projectId title description priority =
     bindM (readDb (\<lambda>db. project_exists db projectId)) (\<lambda>found.
     bindM (guardM found (ProjectNotFoundError projectId)) (\<lambda>_.
     bindM (generate sv) (\<lambda>i.
     bindM (clock_now sv) (\<lambda>now.
     bindM (liftR (Task_create i projectId title description priority now)) (\<lambda>task.
     bindM (execDb (task_save task)) (\<lambda>_. returnM (task_id task)))))))"

text \<open>A task of another project reads as absent.\<close>

definition requireTask ::
  "string \<Rightarrow> string \<Rightarrow> error \<Rightarrow> ('z project_db_scheme world, task) command" where
  "requireTask projectId taskId absent =
     bindM (readDb (\<lambda>db. project_exists db projectId)) (\<lambda>found.
     bindM (guardM found (ProjectNotFoundError projectId)) (\<lambda>_.
     bindM (readDb (\<lambda>db. task_find db taskId)) (\<lambda>t.
       case t of None \<Rightarrow> throwM absent
       | Some task \<Rightarrow> if task_projectId task \<noteq> projectId then throwM absent else returnM task)))"

record update_result =
  ur_taskId :: string
  ur_description :: string
  ur_priority :: js_num
  ur_updatedAt :: js_date

definition when_some :: "'a option \<Rightarrow> ('a \<Rightarrow> ('s, 'b) command) \<Rightarrow> ('s, unit) command" where
  "when_some v f = (case v of None \<Rightarrow> returnM () | Some x \<Rightarrow> bindM (f x) (\<lambda>_. returnM ()))"

fun apply_priority :: "js_num option \<Rightarrow> js_date \<Rightarrow> task \<Rightarrow> task result" where
  "apply_priority None now t = ok t"
| "apply_priority (Some p) now t = Task_updatePriority p now t"

fun apply_description :: "string option \<Rightarrow> js_date \<Rightarrow> task \<Rightarrow> task result" where
  "apply_description None now t = ok t"
| "apply_description (Some d) now t = Task_updateDescription d now t"

definition update_work ::
  "services \<Rightarrow> string \<Rightarrow> string \<Rightarrow> string \<Rightarrow> string option \<Rightarrow> js_num option
     \<Rightarrow> ('z project_db_scheme world, update_result) command" where
  "update_work sv projectId taskId actorId description priority =
     bindM (requireTask projectId taskId (TaskNotFoundError taskId)) (\<lambda>task.
     bindM (clock_now sv) (\<lambda>now.
     bindM (liftR (apply_priority priority now task)) (\<lambda>task1.
     bindM (liftR (apply_description description now task1)) (\<lambda>task2.
     bindM (execDb (task_save task2)) (\<lambda>_.
     bindM (when_some description (\<lambda>_.
       audit_task sv ''task.description_updated'' actorId (task_projectId task2) (task_id task2)
         [(''descriptionUpdated'', JBool True)])) (\<lambda>_.
     bindM (when_some priority (\<lambda>_.
       audit_task sv ''task.priority_updated'' actorId (task_projectId task2) (task_id task2)
         [(''from'', JNum (num_value (task_priority task))),
          (''to'', JNum (num_value (task_priority task2)))])) (\<lambda>_.
     returnM \<lparr>ur_taskId = task_id task2,
       ur_description = (case task_description task2 of None \<Rightarrow> [] | Some d \<Rightarrow> d),
       ur_priority = task_priority task2, ur_updatedAt = task_updatedAt task2\<rparr>)))))))"

definition UpdateTask ::
  "services \<Rightarrow> string \<Rightarrow> string \<Rightarrow> string \<Rightarrow> string option \<Rightarrow> js_num option
     \<Rightarrow> ('z project_db_scheme world, update_result) command" where
  "UpdateTask sv projectId taskId actorId description priority = transaction (update_work sv projectId taskId actorId description priority)"

subsection \<open>Prerequisites of a task\<close>

definition prerequisites_of :: "task_dependency list \<Rightarrow> string \<Rightarrow> string list" where
  "prerequisites_of edges taskId = map dep_dependsOn (filter (\<lambda>e. dep_taskId e = taskId) edges)"

text \<open>The reads both callers make: the statuses of the project and the blocking prerequisites.\<close>

definition blocked_by ::
  "string \<Rightarrow> string \<Rightarrow> prerequisite_requirement \<Rightarrow> 'z project_db_scheme
     \<Rightarrow> (string \<times> task_status) list result" where
  "blocked_by projectId taskId requirement db =
     blockingPrerequisites (prerequisites_of (dependency_listByProject db projectId) taskId)
       (js_map (map (\<lambda>t. (task_id t, task_status t)) (task_listByProject db projectId))) requirement"

definition assertTaskPrerequisitesComplete ::
  "string \<Rightarrow> string \<Rightarrow> prerequisite_requirement \<Rightarrow> ('z project_db_scheme world, unit) command" where
  "assertTaskPrerequisitesComplete projectId taskId requirement =
     bindM (readDb (blocked_by projectId taskId requirement)) (\<lambda>r.
     bindM (liftR r) (\<lambda>blockedBy.
       guardM (length blockedBy = 0) (TaskPrerequisiteIncompleteError taskId
         (map (\<lambda>(i, s). (i, task_status_str s)) blockedBy) (requirement = ForCompletion))))"

subsection \<open>The lifecycle operations\<close>

datatype lifecycle_operation =
  OpStart | OpSubmitReview | OpComplete | OpBlock | OpUnblock | OpFail | OpCancel

fun operation_str :: "lifecycle_operation \<Rightarrow> string" where
  "operation_str OpStart = ''start''"
| "operation_str OpSubmitReview = ''submit-review''"
| "operation_str OpComplete = ''complete''"
| "operation_str OpBlock = ''block''"
| "operation_str OpUnblock = ''unblock''"
| "operation_str OpFail = ''fail''"
| "operation_str OpCancel = ''cancel''"

definition taskLifecycleOperations :: "(lifecycle_operation \<times> string \<times> task_status) list" where
  "taskLifecycleOperations =
     [(OpStart, ''task:start'', Running), (OpSubmitReview, ''task:submit-review'', WaitingReview),
      (OpComplete, ''task:complete'', Completed), (OpBlock, ''task:block'', Blocked),
      (OpUnblock, ''task:unblock'', Pending), (OpFail, ''task:fail'', Failed),
      (OpCancel, ''task:cancel'', Cancelled)]"

fun lifecycleMutations :: "lifecycle_operation \<Rightarrow> js_date \<Rightarrow> task \<Rightarrow> task result" where
  "lifecycleMutations OpStart now t = Task_start now t"
| "lifecycleMutations OpSubmitReview now t = Task_submitForReview now t"
| "lifecycleMutations OpComplete now t = Task_complete now t"
| "lifecycleMutations OpBlock now t = Task_block now t"
| "lifecycleMutations OpUnblock now t = Task_unblock now t"
| "lifecycleMutations OpFail now t = Task_fail now t"
| "lifecycleMutations OpCancel now t = Task_cancel now t"

definition reasonRequiredOperations :: "lifecycle_operation list" where
  "reasonRequiredOperations = [OpBlock, OpFail]"

definition reasonAcceptedOperations :: "lifecycle_operation list" where
  "reasonAcceptedOperations = [OpBlock, OpFail, OpCancel]"

definition resolveReason :: "lifecycle_operation \<Rightarrow> string option \<Rightarrow> string option result" where
  "resolveReason operation value =
     (case value of
        None \<Rightarrow>
          if operation \<in> set reasonRequiredOperations
          then throw (DomainValidationError (''Task '' @ operation_str operation @ '' requires a reason''))
          else ok None
      | Some v \<Rightarrow>
          if operation \<notin> set reasonAcceptedOperations
          then throw (DomainValidationError
                 (''Task '' @ operation_str operation @ '' does not accept a reason''))
          else bindR (normalizeTaskReason v (operation_str operation @ '' reason'')) (\<lambda>r. ok (Some r)))"

text \<open>
  \<open>perform\<close>; \<open>dependencies\<close> says whether the service was given the dependency repository.
\<close>

definition lifecycle_perform ::
  "services \<Rightarrow> bool \<Rightarrow> string \<Rightarrow> string \<Rightarrow> string \<Rightarrow> lifecycle_operation \<Rightarrow> string option
     \<Rightarrow> ('z project_db_scheme world, task_status) command" where
  "lifecycle_perform sv dependencies projectId taskId actorId operation reasonGiven =
     bindM (liftR (resolveReason operation reasonGiven)) (\<lambda>reason.
     bindM (requireTask projectId taskId (TaskNotFoundError taskId)) (\<lambda>task.
     bindM (if operation \<in> {OpStart, OpComplete} \<and> dependencies
            then assertTaskPrerequisitesComplete projectId taskId
                   (if operation = OpStart then ForStart else ForCompletion)
            else returnM ()) (\<lambda>_.
     bindM (clock_now sv) (\<lambda>now.
     bindM (liftR (lifecycleMutations operation now task)) (\<lambda>after.
     bindM (execDb (task_save after)) (\<lambda>_.
     bindM (audit_task sv ''task.status_changed'' actorId (task_projectId after) (task_id after)
         ([(''operation'', JStr (operation_str operation)),
           (''from'', JStr (task_status_str (task_status task))),
           (''to'', JStr (task_status_str (task_status after)))]
          @ (case reason of None \<Rightarrow> [] | Some r \<Rightarrow> [(''reason'', JStr r)]))) (\<lambda>_.
     returnM (task_status after))))))))"

definition lifecycle_apply ::
  "services \<Rightarrow> bool \<Rightarrow> string \<Rightarrow> string \<Rightarrow> string \<Rightarrow> lifecycle_operation \<Rightarrow> string option
     \<Rightarrow> ('z project_db_scheme world, task_status) command" where
  "lifecycle_apply sv dependencies projectId taskId actorId operation reason =
     transaction (lifecycle_perform sv dependencies projectId taskId actorId operation reason)"

text \<open>
  \<open>cancel\<close> stops the runs of the task after the transition is committed. The service that
  does it is optional and given by its caller: project, task, actor and reason to a command.
\<close>

definition lifecycle_cancel ::
  "services \<Rightarrow> bool \<Rightarrow> (string \<Rightarrow> string \<Rightarrow> string \<Rightarrow> string \<Rightarrow> ('z project_db_scheme world, unit) command) option
     \<Rightarrow> string \<Rightarrow> string \<Rightarrow> string \<Rightarrow> string option \<Rightarrow> ('z project_db_scheme world, task_status) command" where
  "lifecycle_cancel sv dependencies runCancellation projectId taskId actorId reason =
     bindM (lifecycle_apply sv dependencies projectId taskId actorId OpCancel reason) (\<lambda>status.
     bindM (case runCancellation of None \<Rightarrow> returnM ()
            | Some cancelTaskRuns \<Rightarrow> cancelTaskRuns projectId taskId actorId
                (case reason of None \<Rightarrow> ''Task cancelled'' | Some r \<Rightarrow> r)) (\<lambda>_.
     returnM status))"

record available_transition =
  at_to :: task_status
  at_operation :: lifecycle_operation
  at_command :: string
  at_terminal :: bool

record transition_report =
  tr_taskId :: string
  tr_projectId :: string
  tr_title :: string
  tr_status :: task_status
  tr_terminal :: bool
  tr_allowed :: "available_transition list"
  tr_terminalStatuses :: "task_status list"

definition operationsByTarget :: "task_status \<rightharpoonup> lifecycle_operation" where
  "operationsByTarget = js_map (map (\<lambda>(oc, command, to_status). (to_status, oc)) taskLifecycleOperations)"

definition operation_command :: "lifecycle_operation \<Rightarrow> string" where
  "operation_command oc = (case map_of taskLifecycleOperations oc of Some (command, _) \<Rightarrow> command)"

definition available_for :: "task_status \<Rightarrow> available_transition result" where
  "available_for s = (case operationsByTarget s of
       None \<Rightarrow> throw TypeError
     | Some oc \<Rightarrow> ok \<lparr>at_to = s, at_operation = oc, at_command = operation_command oc,
         at_terminal = isTerminalTaskStatus s\<rparr>)"

definition lifecycle_transitions ::
  "string \<Rightarrow> string \<Rightarrow> ('z project_db_scheme world, transition_report) command" where
  "lifecycle_transitions projectId taskId =
     bindM (requireTask projectId taskId (TaskNotFoundError taskId)) (\<lambda>t.
     bindM (liftR (mapR available_for (allowedTaskTransitions (task_status t)))) (\<lambda>allowed.
     returnM \<lparr>tr_taskId = task_id t, tr_projectId = task_projectId t, tr_title = task_title t,
       tr_status = task_status t, tr_terminal = isTerminalTaskStatus (task_status t),
       tr_allowed = allowed, tr_terminalStatuses = terminalTaskStatuses\<rparr>))"

subsection \<open>Prerequisite management\<close>

definition absent_dependency_task :: "string \<Rightarrow> string \<Rightarrow> error" where
  "absent_dependency_task projectId taskId =
     TaskDependencyError (''Task '' @ taskId @ '' does not exist in project '' @ projectId)"

definition assertEditable ::
  "string \<Rightarrow> string \<Rightarrow> ('z project_db_scheme world, unit) command" where
  "assertEditable projectId taskId =
     bindM (requireTask projectId taskId (absent_dependency_task projectId taskId)) (\<lambda>task.
     bindM (guardM (task_status task \<in> {Pending, Blocked}) (TaskDependencyError
         ''Prerequisites can change only before task execution begins'')) (\<lambda>_.
     bindM (readDb (\<lambda>db. hasExecutionHistory db projectId taskId)) (\<lambda>executed.
     guardM (\<not> executed) (TaskDependencyError
       ''Prerequisites cannot change after task execution begins or when lifetime history is unknown''))))"

definition link_work ::
  "services \<Rightarrow> string \<Rightarrow> string \<Rightarrow> string \<Rightarrow> string \<Rightarrow> ('z project_db_scheme world, bool) command" where
  "link_work sv projectId taskId dependsOnTaskId actorId =
     bindM (assertEditable projectId taskId) (\<lambda>_.
     bindM (requireTask projectId dependsOnTaskId (absent_dependency_task projectId dependsOnTaskId)) (\<lambda>_.
     bindM (readDb (\<lambda>db. dependency_listByProject db projectId)) (\<lambda>edges.
       if \<exists>e \<in> set edges. dep_taskId e = taskId \<and> dep_dependsOn e = dependsOnTaskId
       then returnM False
       else bindM (liftR (assertAcyclicDependency taskId dependsOnTaskId edges)) (\<lambda>_.
         bindM (clock_now sv) (\<lambda>now.
         bindM (execDb (dependency_link \<lparr>dep_projectId = projectId, dep_taskId = taskId,
           dep_dependsOn = dependsOnTaskId, dep_createdAt = now\<rparr>)) (\<lambda>created.
         bindM (guardM created (TaskDependencyError ''Task dependency changed during linkage'')) (\<lambda>_.
         bindM (audit_task sv ''task.dependency_linked'' actorId projectId taskId
           [(''dependsOnTaskId'', JStr dependsOnTaskId)]) (\<lambda>_.
         returnM created))))))))"

definition dependencies_link ::
  "services \<Rightarrow> string \<Rightarrow> string \<Rightarrow> string \<Rightarrow> string \<Rightarrow> ('z project_db_scheme world, bool) command" where
  "dependencies_link sv projectId taskId dependsOnTaskId actorId = transaction (link_work sv projectId taskId dependsOnTaskId actorId)"

definition unlink_work ::
  "services \<Rightarrow> string \<Rightarrow> string \<Rightarrow> string \<Rightarrow> string \<Rightarrow> ('z project_db_scheme world, bool) command" where
  "unlink_work sv projectId taskId dependsOnTaskId actorId =
     bindM (assertEditable projectId taskId) (\<lambda>_.
     bindM (requireTask projectId dependsOnTaskId (absent_dependency_task projectId dependsOnTaskId)) (\<lambda>_.
     bindM (execDb (dependency_unlink projectId taskId dependsOnTaskId)) (\<lambda>removed.
     bindM (if removed
            then audit_task sv ''task.dependency_unlinked'' actorId projectId taskId
                   [(''dependsOnTaskId'', JStr dependsOnTaskId)]
            else returnM []) (\<lambda>_.
     returnM removed))))"

definition dependencies_unlink ::
  "services \<Rightarrow> string \<Rightarrow> string \<Rightarrow> string \<Rightarrow> string \<Rightarrow> ('z project_db_scheme world, bool) command" where
  "dependencies_unlink sv projectId taskId dependsOnTaskId actorId = transaction (unlink_work sv projectId taskId dependsOnTaskId actorId)"

record dependency_readiness =
  rd_taskId :: string
  rd_status :: task_status
  rd_runnable :: bool
  rd_blockedBy :: "(string \<times> task_status) list"

definition dependencies_readiness ::
  "string \<Rightarrow> string \<Rightarrow> ('z project_db_scheme world, dependency_readiness) command" where
  "dependencies_readiness projectId taskId =
     bindM (requireTask projectId taskId (absent_dependency_task projectId taskId)) (\<lambda>task.
     bindM (readDb (blocked_by projectId taskId ForStart)) (\<lambda>r.
     bindM (liftR r) (\<lambda>blockedBy.
     returnM \<lparr>rd_taskId = taskId, rd_status = task_status task,
       rd_runnable = (isTaskRunnable (task_status task) \<and> length blockedBy = 0),
       rd_blockedBy = blockedBy\<rparr>)))"

section \<open>Lemmas: identifiers only move forward\<close>

text \<open>Commands that never take back an identifier, whatever their outcome.\<close>

definition forward :: "('db world, 'a) command \<Rightarrow> bool" where
  "forward m \<longleftrightarrow> (\<forall>w r w'. m w = (r, w') \<longrightarrow> w_ids w \<le> w_ids w')"

named_theorems forward_intros

lemma forward_bind [forward_intros]: "forward m \<Longrightarrow> (\<And>x. forward (f x)) \<Longrightarrow> forward (bindM m f)"
  unfolding forward_def bindM_def by (fastforce split: prod.splits sum.splits intro: order_trans)

lemma forward_basic [forward_intros]:
  "forward (returnM x)" "forward (throwM e)" "forward (liftR r)" "forward (readDb f)"
  "forward (guardM b e)" "forward (generate sv)" "forward (clock_now sv)" "forward (execDb g)"
  by (auto simp: forward_def execDb_def split: sum.splits)

lemma forward_transaction [forward_intros]: "forward m \<Longrightarrow> forward (transaction m)"
  unfolding forward_def transaction_def by (fastforce split: prod.splits sum.splits if_splits)

lemma forward_cases [forward_intros]:
  "forward a \<Longrightarrow> forward b \<Longrightarrow> forward (if c then a else b)"
  "forward a \<Longrightarrow> (\<And>x. forward (f x)) \<Longrightarrow> forward (case v of None \<Rightarrow> a | Some x \<Rightarrow> f x)"
  by (auto split: option.splits)

lemmas task_command_defs = RecordAuditEvent_def audit_task_def CreateTask_def requireTask_def
  when_some_def UpdateTask_def update_work_def assertTaskPrerequisitesComplete_def lifecycle_perform_def
  lifecycle_apply_def assertEditable_def dependencies_link_def link_work_def dependencies_unlink_def unlink_work_def

lemma forward_commands [forward_intros]:
  "forward (CreateTask sv p title desc prio)" "forward (UpdateTask sv p t a desc prio)" "forward (lifecycle_apply sv deps p t a oc r)"
  "forward (dependencies_link sv p t d a)" "forward (dependencies_unlink sv p t d a)"
  unfolding task_command_defs by (intro forward_intros)+

section \<open>Lemmas: a command that throws changes nothing\<close>

text \<open>\<open>quiet\<close> commands never change the database; \<open>clean\<close> ones do not when they throw.\<close>

definition quiet :: "('db world, 'a) command \<Rightarrow> bool" where
  "quiet m \<longleftrightarrow> (\<forall>w r w'. m w = (r, w') \<longrightarrow> w_db w' = w_db w)"

definition clean :: "('db world, 'a) command \<Rightarrow> bool" where
  "clean m \<longleftrightarrow> (\<forall>w e w'. m w = (throw e, w') \<longrightarrow> w_db w' = w_db w)"

named_theorems clean_intros

lemma quiet_basic [clean_intros]:
  "quiet (returnM x)" "quiet (throwM e)" "quiet (liftR r)" "quiet (readDb f)"
  "quiet (guardM b e)" "quiet (generate sv)" "quiet (clock_now sv)"
  by (auto simp: quiet_def)

lemma clean_bind [clean_intros]: "quiet m \<Longrightarrow> (\<And>x. clean (f x)) \<Longrightarrow> clean (bindM m f)"
  unfolding quiet_def clean_def bindM_throw by metis

lemma clean_last [clean_intros]: "clean m \<Longrightarrow> clean (bindM m (\<lambda>x. returnM (g x)))"
  unfolding clean_def bindM_throw by auto

lemma clean_exec [clean_intros]: "clean (execDb f)"
  by (auto simp: clean_def execDb_throw)

lemma clean_transaction [clean_intros]: "clean (transaction m)"
  by (auto simp: clean_def dest: transaction_throw_db)

lemma clean_CreateTask: "clean (CreateTask sv p title d prio)"
  unfolding CreateTask_def
  by (rule clean_bind, rule clean_intros)+ (rule clean_last, rule clean_exec)

lemma clean_commands [clean_intros]:
  "clean (UpdateTask sv p t a desc prio)" "clean (lifecycle_apply sv deps p t a oc r)"
  "clean (dependencies_link sv p t d a)" "clean (dependencies_unlink sv p t d a)"
  unfolding UpdateTask_def lifecycle_apply_def dependencies_link_def dependencies_unlink_def
  by (rule clean_transaction)+

section \<open>Lemmas: the effect of the steps\<close>

lemma requireTask_ok [result_simps]:
  "requireTask p t e w = (ok v, w') \<longleftrightarrow> w' = w \<and> project_exists (w_db w) p
     \<and> task_find (w_db w) t = Some v \<and> task_projectId v = p"
  by (auto simp: requireTask_def result_simps split: option.splits if_splits)

lemma requireTask_throw [result_simps]:
  "requireTask p t e w = (throw e', w') \<longleftrightarrow> w' = w \<and> (if project_exists (w_db w) p
     then e' = e \<and> (\<forall>v. task_find (w_db w) t = Some v \<longrightarrow> task_projectId v \<noteq> p)
     else e' = ProjectNotFoundError p)"
  by (auto simp: requireTask_def result_simps split: option.splits if_splits)

text \<open>The event a task command appends, and the database after it.\<close>

definition task_audit_event ::
  "services \<Rightarrow> 'db world \<Rightarrow> string \<Rightarrow> string \<Rightarrow> string \<Rightarrow> string \<Rightarrow> (string \<times> json) list \<Rightarrow> audit_event" where
  "task_audit_event sv w eventType actorId projectId taskId payload =
     \<lparr>ae_id = sv_id sv (w_ids w), ae_eventType = trim eventType, ae_actorType = ActorCli,
       ae_actorId = Some actorId, ae_aggregateType = Some ''task'', ae_aggregateId = Some taskId,
       ae_projectId = Some projectId, ae_payload = payload, ae_occurredAt = sv_now sv (w_clock w)\<rparr>"

lemma audit_task_ok:
  assumes "audit_task sv ty a p t payload w = (ok i, w')"
  shows "w_db w' = (w_db w)\<lparr>db_audit := db_audit (w_db w) @ [task_audit_event sv w ty a p t payload]\<rparr>"
    and "w_ids w' = Suc (w_ids w)"
  using assms by (auto simp: audit_task_def RecordAuditEvent_def AuditEvent_create_def audit_append_def
      task_audit_event_def result_simps split: if_splits)

lemma audit_tables [simp]:
  "task_find (db\<lparr>db_audit := x\<rparr>) i = task_find db i"
  "task_rows_ok (db\<lparr>db_audit := x\<rparr>) = task_rows_ok db"
  "edges_ok (db\<lparr>db_audit := x\<rparr>) = edges_ok db"
  "same_project (db\<lparr>db_audit := x\<rparr>) e = same_project db e"
  by (simp_all add: task_find_def task_rows_ok_def project_exists_def edges_ok_def same_project_def)

definition lifecycle_target :: "lifecycle_operation \<Rightarrow> task_status" where
  "lifecycle_target oc = snd (the (map_of taskLifecycleOperations oc))"

lemma lifecycleMutations_ok:
  "lifecycleMutations oc now t = ok t' \<longleftrightarrow> isTaskTransitionAllowed (task_status t) (lifecycle_target oc)
     \<and> t' = t\<lparr>task_status := lifecycle_target oc, task_updatedAt := now\<rparr>"
  by (cases oc) (auto simp: task_op_defs lifecycle_target_def taskLifecycleOperations_def)

lemma blocked_by_ok:
  assumes rows: "task_rows_ok db" and edges: "edges_ok db"
  shows "blocked_by p t requirement db = ok bs \<longleftrightarrow>
    bs = map (\<lambda>i. (i, task_status (the (task_find db i))))
      (filter (\<lambda>i. \<not> prerequisite_satisfied requirement (task_status (the (task_find db i))))
         (prerequisites_of (dependency_listByProject db p) t))"
proof -
  let ?ids = "prerequisites_of (dependency_listByProject db p) t"
  let ?m = "js_map (map (\<lambda>t. (task_id t, task_status t)) (task_listByProject db p))"
  have m: "?m i = Some (task_status (the (task_find db i)))" if i: "i \<in> set ?ids" for i
  proof -
    obtain e where e: "e \<in> set (db_dependencies db)" "dep_projectId e = p" "dep_dependsOn e = i"
      using i by (auto simp: prerequisites_of_def)
    then have "same_project db e" using edges by (simp add: edges_ok_def)
    then obtain v where "task_find db i = Some v" "task_projectId v = p"
      using e by (auto simp: same_project_tasks [OF rows])
    then show ?thesis using sqlite_tasks.statuses_of_list [OF rows, of p i] by simp
  qed
  show ?thesis unfolding blocked_by_def blockingPrerequisites_ok
    using m by (auto simp: dom_def intro!: filter_cong map_cong)
qed


section \<open>Lemmas: the invariant of the task tables\<close>

text \<open>The structure of the tables: rows with their own identifiers, edges inside a project, no cycle.\<close>

definition tables_ok :: "'z project_db_scheme \<Rightarrow> bool" where
  "tables_ok db \<longleftrightarrow> task_rows_ok db \<and> edges_ok db"

lemma tables_okD:
  assumes "tables_ok db"
  shows "task_rows_ok db" and "edges_ok db"
  using assms by (simp_all add: tables_ok_def)

text \<open>
  The audit trail says which tasks were completed by a historical correction, which attests work
  that was done outside the office and needs no completed prerequisites.
\<close>

definition corrected :: "'z project_db_scheme \<Rightarrow> string \<Rightarrow> bool" where
  "corrected db t \<longleftrightarrow> (\<exists>e \<in> set (db_audit db). ae_eventType e = ''task.completion_recorded'' \<and> ae_aggregateId e = Some t)"

text \<open>Completed work rests on completed work: the prerequisites of a completed task are completed,
  except for the tasks in \<open>X\<close>.\<close>

definition closed_except :: "string set \<Rightarrow> 'z project_db_scheme \<Rightarrow> bool" where
  "closed_except X db \<longleftrightarrow> (\<forall>e \<in> set (db_dependencies db). \<forall>t d.
     task_find db (dep_taskId e) = Some t \<longrightarrow> task_find db (dep_dependsOn e) = Some d
       \<longrightarrow> task_status t = Completed \<longrightarrow> task_status d = Completed \<or> dep_taskId e \<in> X)"

lemma closed_exceptD:
  "closed_except X db \<Longrightarrow> e \<in> set (db_dependencies db) \<Longrightarrow> task_find db (dep_taskId e) = Some t \<Longrightarrow>
     task_find db (dep_dependsOn e) = Some d \<Longrightarrow> task_status t = Completed \<Longrightarrow>
     task_status d = Completed \<or> dep_taskId e \<in> X"
  unfolding closed_except_def by blast

lemma closed_exceptI:
  "(\<And>e t d. e \<in> set (db_dependencies db) \<Longrightarrow> task_find db (dep_taskId e) = Some t \<Longrightarrow>
     task_find db (dep_dependsOn e) = Some d \<Longrightarrow> task_status t = Completed \<Longrightarrow>
     task_status d = Completed \<or> dep_taskId e \<in> X)
   \<Longrightarrow> closed_except X db"
  unfolding closed_except_def by blast

lemma closed_except_mono: "closed_except X db \<Longrightarrow> X \<subseteq> Y \<Longrightarrow> closed_except Y db"
  unfolding closed_except_def by blast

definition tables_inv :: "'z project_db_scheme \<Rightarrow> bool" where
  "tables_inv db \<longleftrightarrow> tables_ok db \<and> closed_except {t. corrected db t} db"

lemma tables_invD:
  assumes "tables_inv db"
  shows "task_rows_ok db" and "edges_ok db" and "closed_except {t. corrected db t} db" and "tables_ok db"
  using assms by (simp_all add: tables_inv_def tables_ok_def)

text \<open>The same tasks, by identifier: nothing was created.\<close>

definition task_ids :: "'z project_db_scheme \<Rightarrow> string list" where
  "task_ids db = map task_id (db_tasks db)"

lemma task_ids_simps [simp]:
  "task_ids (db\<lparr>db_audit := x\<rparr>) = task_ids db"
  "task_ids (db\<lparr>db_dependencies := es\<rparr>) = task_ids db"
  by (simp_all add: task_ids_def)

lemma task_save_ids:
  "task_save t db = ok (u, db') \<Longrightarrow> task_find db (task_id t) \<noteq> None \<Longrightarrow> task_ids db' = task_ids db"
  unfolding task_ids_def by (drule task_save_ok(2)) simp

lemma audit_tables_ok [simp]: "tables_ok (db\<lparr>db_audit := x\<rparr>) = tables_ok db"
  by (simp add: tables_ok_def)

lemma audit_closed [simp]: "closed_except X (db\<lparr>db_audit := x\<rparr>) = closed_except X db"
  by (simp add: closed_except_def)

text \<open>The audit trail only grows, and with it the tasks it calls corrected.\<close>

lemma corrected_mono: "set (db_audit db) \<subseteq> set x \<Longrightarrow> {t. corrected db t} \<subseteq> {t. corrected (db\<lparr>db_audit := x\<rparr>) t}"
  by (auto simp: corrected_def)

lemma audit_tables_inv: "tables_inv db \<Longrightarrow> set (db_audit db) \<subseteq> set x \<Longrightarrow> tables_inv (db\<lparr>db_audit := x\<rparr>)"
  unfolding tables_inv_def audit_tables_ok audit_closed using closed_except_mono [OF _ corrected_mono] by blast

lemma edge_tasks:
  assumes "tables_ok db" and "e \<in> set (db_dependencies db)"
  obtains t d where "task_find db (dep_taskId e) = Some t" "task_projectId t = dep_projectId e"
    "task_find db (dep_dependsOn e) = Some d" "task_projectId d = dep_projectId e"
proof -
  have "same_project db e" using assms by (simp add: tables_ok_def edges_ok_def)
  then show ?thesis using that by (auto simp: same_project_tasks [OF tables_okD(1) [OF assms(1)]])
qed

lemma no_self_edge:
  assumes "tables_ok db" and "e \<in> set (db_dependencies db)"
  shows "dep_taskId e \<noteq> dep_dependsOn e"
proof
  assume "dep_taskId e = dep_dependsOn e"
  then have "(dep_taskId e, dep_taskId e) \<in> prerequisite_graph (db_dependencies db)"
    using assms(2) by (auto simp: prerequisite_graph_def image_iff)
  then show False using assms(1) by (auto simp: tables_ok_def edges_ok_def acyclic_def)
qed

text \<open>What a save may do to the status of a stored task without opening a completed dependent.\<close>

definition status_step_ok :: "string set \<Rightarrow> 'z project_db_scheme \<Rightarrow> task \<Rightarrow> task_status \<Rightarrow> bool" where
  "status_step_ok X db old s \<longleftrightarrow> s = task_status old \<or> (task_status old \<noteq> Completed \<and>
     (s = Completed \<longrightarrow> task_id old \<in> X \<or> (\<forall>e \<in> set (db_dependencies db). \<forall>d. dep_taskId e = task_id old \<longrightarrow>
        task_find db (dep_dependsOn e) = Some d \<longrightarrow> task_status d = Completed)))"

lemma task_save_tables_ok: "tables_ok db \<Longrightarrow> task_save t db = ok (u, db') \<Longrightarrow> tables_ok db'"
  unfolding tables_ok_def using task_save_rows_ok task_save_edges_ok by blast

lemma task_save_closed:
  assumes tab: "tables_ok db" and closed: "closed_except X db" and save: "task_save t db = ok (u, db')"
    and step: "\<And>old. task_find db (task_id t) = Some old \<Longrightarrow> status_step_ok X db old (task_status t)"
  shows "closed_except X db'"
proof (rule closed_exceptI)
  note rows = tables_okD(1) [OF tab] and s = task_save_ok [OF save]
  fix e v d
  assume "e \<in> set (db_dependencies db')" and v: "task_find db' (dep_taskId e) = Some v"
    and d: "task_find db' (dep_dependsOn e) = Some d" and c: "task_status v = Completed"
  then have e: "e \<in> set (db_dependencies db)" by (simp add: s(4))
  obtain v0 d0 where o: "task_find db (dep_taskId e) = Some v0" "task_find db (dep_dependsOn e) = Some d0"
    using edge_tasks [OF tab e] by blast
  note before = closed_exceptD [OF closed e o]
  have status: "task_status x = (if i = task_id t then task_status t else task_status x0)"
    if "task_find db' i = Some x" "task_find db i = Some x0" for i x x0
    using s(1) [of i] that by (auto simp: merged_row_def split: option.splits)
  have ne: "dep_taskId e \<noteq> dep_dependsOn e" by (rule no_self_edge [OF tab e])
  have key: "task_id v0 = dep_taskId e" "task_id d0 = dep_dependsOn e"
    using o sqlite_tasks.find_key [OF rows] by blast+
  show "task_status d = Completed \<or> dep_taskId e \<in> X"
  proof (cases "dep_taskId e = task_id t")
    case True
    then have "status_step_ok X db v0 Completed" using step [of v0] o status [OF v o(1)] c by simp
    then have "task_status d0 = Completed \<or> dep_taskId e \<in> X"
      using before e o key unfolding status_step_ok_def by metis
    then show ?thesis using status [OF d o(2)] True ne by simp
  next
    case False
    then have "task_status d0 = Completed \<or> dep_taskId e \<in> X" using status [OF v o(1)] c before by simp
    moreover have "task_status t = Completed" if "dep_dependsOn e = task_id t" "task_status d0 = Completed"
      using step [of d0] o that by (auto simp: status_step_ok_def)
    ultimately show ?thesis using status [OF d o(2)] by auto
  qed
qed

lemma task_save_inv:
  assumes inv: "tables_inv db" and save: "task_save t db = ok (u, db')"
    and step: "\<And>old. task_find db (task_id t) = Some old \<Longrightarrow> status_step_ok {t. corrected db t} db old (task_status t)"
  shows "tables_inv db'"
  using task_save_tables_ok [OF tables_invD(4) [OF inv] save] task_save_ok(5) [OF save]
    task_save_closed [OF tables_invD(4,3) [OF inv] save step]
  by (simp add: tables_inv_def corrected_def)

text \<open>The trigger of the storage is what makes a completion safe.\<close>

lemma task_save_completed:
  assumes inv: "tables_ok db" and save: "task_save t db = ok (u, db')"
    and old: "task_find db (task_id t) = Some old" "task_status old \<in> {Running, WaitingReview}"
    and e: "e \<in> set (db_dependencies db)" "dep_taskId e = task_id t" "task_status t = Completed"
    and d: "task_find db (dep_dependsOn e) = Some d"
  shows "task_status d = Completed"
proof -
  note rows = tables_okD(1) [OF inv]
  have key: "task_id old = task_id t" using sqlite_tasks.find_key [OF rows old(1)] .
  have "task_update old t db = ok (u, db')"
    using save old(1) by (auto simp: task_save_def result_simps split: if_splits)
  then have "\<not> unmet_prerequisite [Completed] db (task_projectId old) (task_id t)"
    using old(2) e(3) by (auto simp: task_update_def Let_def split: if_splits)
  moreover have "dep_projectId e = task_projectId old"
    using edge_tasks [OF inv e(1)] e(2) old(1) by (metis option.inject)
  ultimately show ?thesis
    using e d by (auto simp: unmet_prerequisite_iff [OF rows])
qed

lemma lifecycle_step_ok:
  assumes inv: "tables_ok db" and save: "task_save t db = ok (u, db')"
    and old: "task_find db (task_id t) = Some old"
    and allowed: "isTaskTransitionAllowed (task_status old) (task_status t)"
  shows "status_step_ok X db old (task_status t)"
proof -
  have key: "task_id old = task_id t"
    using sqlite_tasks.find_key [OF tables_okD(1) [OF inv] old] .
  have "task_status old \<noteq> Completed"
    using allowed by (auto simp: isTaskTransitionAllowed_def)
  moreover have "task_status old \<in> {Running, WaitingReview}" if "task_status t = Completed"
    using allowed that by (cases "task_status old") (auto simp: isTaskTransitionAllowed_def)
  ultimately show ?thesis
    using task_save_completed [OF inv save old] key by (auto simp: status_step_ok_def)
qed

definition status_payload ::
  "lifecycle_operation \<Rightarrow> task_status \<Rightarrow> string option \<Rightarrow> (string \<times> json) list" where
  "status_payload oc from reason =
     [(''operation'', JStr (operation_str oc)), (''from'', JStr (task_status_str from)),
      (''to'', JStr (task_status_str (lifecycle_target oc)))]
     @ (case reason of None \<Rightarrow> [] | Some r \<Rightarrow> [(''reason'', JStr r)])"

lemma prerequisites_asserted:
  "assertTaskPrerequisitesComplete p t r w = (ok u, w') \<longleftrightarrow> blocked_by p t r (w_db w) = ok [] \<and> w' = w"
  by (auto simp: assertTaskPrerequisitesComplete_def result_simps split: if_splits)

lemma lifecycle_perform_ok:
  assumes "lifecycle_perform sv deps p t a oc given w = (ok s, w')"
  obtains v reason db1 where "resolveReason oc given = ok reason" "project_exists (w_db w) p"
    "task_find (w_db w) t = Some v" "task_projectId v = p"
    "deps \<longrightarrow> oc \<in> {OpStart, OpComplete} \<longrightarrow>
       blocked_by p t (if oc = OpStart then ForStart else ForCompletion) (w_db w) = ok []"
    "isTaskTransitionAllowed (task_status v) (lifecycle_target oc)" "s = lifecycle_target oc"
    "task_save (v\<lparr>task_status := lifecycle_target oc, task_updatedAt := sv_now sv (w_clock w)\<rparr>)
       (w_db w) = ok ((), db1)"
    "w_db w' = db1\<lparr>db_audit := db_audit db1 @ [task_audit_event sv (w\<lparr>w_clock := Suc (w_clock w)\<rparr>)
       ''task.status_changed'' a p (task_id v) (status_payload oc (task_status v) reason)]\<rparr>"
proof -
  obtain reason v u w1 db1 i where 1: "resolveReason oc given = ok reason" "project_exists (w_db w) p"
      "task_find (w_db w) t = Some v" "task_projectId v = p"
    and 2: "(if oc \<in> {OpStart, OpComplete} \<and> deps
       then assertTaskPrerequisitesComplete p t (if oc = OpStart then ForStart else ForCompletion)
       else returnM ()) w = (ok u, w1)"
    and 3: "isTaskTransitionAllowed (task_status v) (lifecycle_target oc)" "s = lifecycle_target oc"
      "task_save (v\<lparr>task_status := lifecycle_target oc, task_updatedAt := sv_now sv (w_clock w1)\<rparr>)
         (w_db w1) = ok ((), db1)"
    and 4: "audit_task sv ''task.status_changed'' a p (task_id v)
        (status_payload oc (task_status v) reason)
        (w1\<lparr>w_clock := Suc (w_clock w1), w_db := db1\<rparr>) = (ok i, w')"
    using assms by (auto simp: lifecycle_perform_def result_simps lifecycleMutations_ok status_payload_def
        simp del: insert_iff)
  have w1: "w1 = w" using 2 by (auto simp: prerequisites_asserted split: if_splits)
  have 5: "deps \<longrightarrow> oc \<in> {OpStart, OpComplete} \<longrightarrow>
       blocked_by p t (if oc = OpStart then ForStart else ForCompletion) (w_db w) = ok []"
    using 2 w1 by (auto simp: prerequisites_asserted)
  have 6: "w_db w' = db1\<lparr>db_audit := db_audit db1 @ [task_audit_event sv (w\<lparr>w_clock := Suc (w_clock w)\<rparr>)
       ''task.status_changed'' a p (task_id v) (status_payload oc (task_status v) reason)]\<rparr>"
    using audit_task_ok(1) [OF 4] w1 by (simp add: task_audit_event_def)
  show ?thesis by (rule that [OF 1 5 3(1,2) 3(3) [unfolded w1] 6])
qed

lemma lifecycle_perform_inv:
  assumes inv: "tables_inv (w_db w)"
    and ok: "lifecycle_perform sv deps p t a oc given w = (ok s, w')"
  shows "tables_inv (w_db w') \<and> task_ids (w_db w') = task_ids (w_db w)"
  using ok
proof (rule lifecycle_perform_ok)
  fix v :: task and reason db1
  let ?v = "v\<lparr>task_status := lifecycle_target oc, task_updatedAt := sv_now sv (w_clock w)\<rparr>"
  assume v: "task_find (w_db w) t = Some v"
      "isTaskTransitionAllowed (task_status v) (lifecycle_target oc)"
      "task_save ?v (w_db w) = ok ((), db1)"
    and w': "w_db w' = db1\<lparr>db_audit := db_audit db1 @ [task_audit_event sv
       (w\<lparr>w_clock := Suc (w_clock w)\<rparr>) ''task.status_changed'' a p (task_id v)
       (status_payload oc (task_status v) reason)]\<rparr>"
  have key: "task_id v = t" using sqlite_tasks.find_key [OF tables_invD(1) [OF inv] v(1)] .
  have "tables_inv db1"
    by (rule task_save_inv [OF inv v(3)]) (use lifecycle_step_ok [OF tables_invD(4) [OF inv] v(3)] v key in auto)
  moreover have "task_ids db1 = task_ids (w_db w)" using task_save_ids [OF v(3)] v(1) key by simp
  ultimately show ?thesis using w' by (simp add: audit_tables_inv subset_insertI)
qed

lemma same_status_inv:
  assumes inv: "tables_inv db" and save: "task_save t db = ok (u, db')"
    and "task_find db (task_id t) = Some old" and "task_status t = task_status old"
  shows "tables_inv db'"
  by (rule task_save_inv [OF inv save]) (use assms in \<open>auto simp: status_step_ok_def\<close>)


lemma apply_update_ok:
  "apply_priority prio now v = ok v1 \<Longrightarrow> apply_description d now v1 = ok v2 \<Longrightarrow>
     task_id v2 = task_id v \<and> task_status v2 = task_status v \<and> task_projectId v2 = task_projectId v"
  by (cases prio; cases d) (auto simp: Task_updatePriority_def Task_updateDescription_def result_simps)

lemma when_some_audit:
  assumes "when_some x (\<lambda>_. audit_task sv ty a p t payload) w = (ok u, w')"
  shows "\<exists>y. w_db w' = (w_db w)\<lparr>db_audit := y\<rparr> \<and> set (db_audit (w_db w)) \<subseteq> set y"
proof (cases x)
  case None
  then show ?thesis using assms by (auto simp: when_some_def intro: exI [of _ "db_audit (w_db w)"])
next
  case (Some z)
  then show ?thesis using assms by (auto simp: when_some_def result_simps dest: audit_task_ok(1))
qed

lemma update_work_ok:
  assumes "update_work sv p t a d prio w = (ok x, w1)"
  obtains v now v1 v2 db1 y where "task_find (w_db w) t = Some v"
    "apply_priority prio now v = ok v1" "apply_description d now v1 = ok v2"
    "task_save v2 (w_db w) = ok ((), db1)" "w_db w1 = db1\<lparr>db_audit := y\<rparr>" "set (db_audit db1) \<subseteq> set y"
proof -
  obtain v now v1 v2 db1 u2 u3 w2 pl1 pl2 where v: "task_find (w_db w) t = Some v"
      "apply_priority prio now v = ok v1" "apply_description d now v1 = ok v2"
      "task_save v2 (w_db w) = ok ((), db1)"
    and a1: "when_some d (\<lambda>_. audit_task sv ''task.description_updated'' a (task_projectId v2)
        (task_id v2) pl1) (w\<lparr>w_clock := Suc (w_clock w), w_db := db1\<rparr>) = (ok u2, w2)"
    and a2: "when_some prio (\<lambda>_. audit_task sv ''task.priority_updated'' a (task_projectId v2)
        (task_id v2) pl2) w2 = (ok u3, w1)"
    using assms by (auto simp: update_work_def result_simps)
  have "\<exists>y. w_db w1 = db1\<lparr>db_audit := y\<rparr> \<and> set (db_audit db1) \<subseteq> set y"
    using when_some_audit [OF a1] when_some_audit [OF a2] by fastforce
  then show ?thesis using that [OF v] by blast
qed

lemma UpdateTask_inv:
  assumes inv: "tables_inv (w_db w)" and run: "UpdateTask sv p t a d prio w = (r, w')"
  shows "tables_inv (w_db w') \<and> task_ids (w_db w') = task_ids (w_db w)" (is "?P (w_db w')")
  using conjI [OF inv refl] run unfolding UpdateTask_def
proof (rule transaction_keeps [where P = ?P])
  fix x w1
  assume "update_work sv p t a d prio (w\<lparr>w_active := True\<rparr>) = (ok x, w1)"
  then show "?P (w_db w1)"
  proof (rule update_work_ok)
    fix v v1 v2 :: task and now db1 y
    assume "task_find (w_db (w\<lparr>w_active := True\<rparr>)) t = Some v"
      and u: "apply_priority prio now v = ok v1" "apply_description d now v1 = ok v2"
      and "task_save v2 (w_db (w\<lparr>w_active := True\<rparr>)) = ok ((), db1)"
      and w1: "w_db w1 = db1\<lparr>db_audit := y\<rparr>" "set (db_audit db1) \<subseteq> set y"
    then have v: "task_find (w_db w) t = Some v" "task_save v2 (w_db w) = ok ((), db1)" by simp_all
    have key: "task_id v = t" using sqlite_tasks.find_key [OF tables_invD(1) [OF inv] v(1)] .
    have "tables_inv db1"
      by (rule same_status_inv [OF inv v(2)]) (use apply_update_ok [OF u] v key in auto)
    moreover have "task_ids db1 = task_ids (w_db w)"
      using task_save_ids [OF v(2)] apply_update_ok [OF u] v(1) key by simp
    ultimately show ?thesis using w1 by (simp add: audit_tables_inv)
  qed
qed

text \<open>A new identifier: one the generator has not given out.\<close>

definition ids_bounded :: "services \<Rightarrow> nat \<Rightarrow> 'z project_db_scheme \<Rightarrow> bool" where
  "ids_bounded sv n db \<longleftrightarrow> (\<forall>t \<in> set (db_tasks db). \<exists>k < n. task_id t = sv_id sv k)"

lemma ids_fresh:
  assumes "inj (sv_id sv)" and "ids_bounded sv n db" and "n \<le> k"
  shows "task_find db (sv_id sv k) = None"
  using assms by (fastforce simp: task_find_None ids_bounded_def dest: injD)

lemma ids_bounded_tasks:
  "ids_bounded sv n db \<longleftrightarrow> (\<forall>i \<in> set (map task_id (db_tasks db)). \<exists>k < n. i = sv_id sv k)"
  by (auto simp: ids_bounded_def)

lemma CreateTask_inv:
  assumes inv: "tables_inv (w_db w)" and ids: "inj (sv_id sv)" "ids_bounded sv (w_ids w) (w_db w)"
    and run: "CreateTask sv p title d prio w = (r, w')"
  shows "tables_inv (w_db w') \<and> ids_bounded sv (w_ids w') (w_db w')"
proof (cases "w_db w' = w_db w")
  case True
  have "forward (CreateTask sv p title d prio :: ('z project_db_scheme world, string) command)"
    unfolding CreateTask_def by (intro forward_intros)
  then have "w_ids w \<le> w_ids w'" using run unfolding forward_def by blast
  then show ?thesis using True inv ids(2) unfolding ids_bounded_def by (metis order_less_le_trans)
next
  case False
  have "clean (CreateTask sv p title d prio :: ('z project_db_scheme world, string) command)"
    by (rule clean_CreateTask)
  then obtain i where "CreateTask sv p title d prio w = (ok i, w')"
    using run False unfolding clean_def by (cases r) auto
  then obtain t db1 where t: "Task_create (sv_id sv (w_ids w)) p title d prio (sv_now sv (w_clock w)) = ok t"
      "task_save t (w_db w) = ok ((), db1)" "w_db w' = db1" "w_ids w' = Suc (w_ids w)"
    by (auto simp: CreateTask_def result_simps split: if_splits)
  have key: "task_id t = sv_id sv (w_ids w)"
    using t(1) by (auto simp: Task_create_def Let_def result_simps split: if_splits)
  have new: "task_find (w_db w) (task_id t) = None" using ids_fresh [OF ids] key by simp
  have "tables_inv db1" by (rule task_save_inv [OF inv t(2)]) (simp add: new)
  moreover have "ids_bounded sv (Suc (w_ids w)) db1"
  proof -
    have "set (map task_id (db_tasks db1)) = insert (sv_id sv (w_ids w)) (set (map task_id (db_tasks (w_db w))))"
      using task_save_ok(2) [OF t(2)] new key by simp
    then show ?thesis using ids(2) unfolding ids_bounded_tasks by (simp add: less_Suc_eq) blast
  qed
  ultimately show ?thesis using t by simp
qed

lemma assertEditable_ok:
  "assertEditable p t w = (ok u, w') \<longleftrightarrow> w' = w \<and> project_exists (w_db w) p \<and>
     (\<exists>v. task_find (w_db w) t = Some v \<and> task_projectId v = p \<and> task_status v \<in> {Pending, Blocked})
     \<and> \<not> hasExecutionHistory (w_db w) p t"
  by (auto simp: assertEditable_def result_simps split: if_splits)

lemma dependency_link_ok:
  assumes "dependency_link e db = ok (c, db')"
  shows "db' = db \<or> db' = db\<lparr>db_dependencies := e # db_dependencies db\<rparr> \<and> same_project db e"
  using assms by (auto simp: dependency_link_def result_simps split: if_splits)

lemma dependency_unlink_ok:
  assumes "dependency_unlink p t d db = ok (c, db')"
  shows "\<exists>P. db' = db\<lparr>db_dependencies := filter P (db_dependencies db)\<rparr>"
proof (cases "db' = db")
  case True
  then show ?thesis by (intro exI [of _ "\<lambda>_. True"]) simp
next
  case False
  then show ?thesis using assms by (auto simp: dependency_unlink_def Let_def split: if_splits)
qed

lemma edge_tables [simp]:
  "task_find (db\<lparr>db_dependencies := es\<rparr>) i = task_find db i"
  "task_rows_ok (db\<lparr>db_dependencies := es\<rparr>) = task_rows_ok db"
  by (simp_all add: task_find_def task_rows_ok_def project_exists_def)

lemma dependency_link_inv:
  assumes inv: "tables_inv db" and link: "dependency_link e db = ok (c, db')"
    and open_task: "task_find db (dep_taskId e) = Some v" "task_status v \<noteq> Completed"
  shows "tables_inv db'"
proof -
  have "edges_ok db'" by (rule dependency_link_edges_ok [OF tables_invD(2) [OF inv] link])
  moreover from dependency_link_ok [OF link] have "task_rows_ok db' \<and> closed_except {t. corrected db' t} db'"
  proof
    assume "db' = db"
    then show ?thesis using tables_invD [OF inv] by simp
  next
    assume "db' = db\<lparr>db_dependencies := e # db_dependencies db\<rparr> \<and> same_project db e"
    moreover have "closed_except {t. corrected db t} (db\<lparr>db_dependencies := e # db_dependencies db\<rparr>)"
    proof (rule closed_exceptI)
      fix f x y
      assume f: "f \<in> set (db_dependencies (db\<lparr>db_dependencies := e # db_dependencies db\<rparr>))"
        "task_find (db\<lparr>db_dependencies := e # db_dependencies db\<rparr>) (dep_taskId f) = Some x"
        "task_find (db\<lparr>db_dependencies := e # db_dependencies db\<rparr>) (dep_dependsOn f) = Some y"
        "task_status x = Completed"
      then have "f \<noteq> e" using open_task by auto
      then show "task_status y = Completed \<or> dep_taskId f \<in> {t. corrected db t}"
        using closed_exceptD [OF tables_invD(3) [OF inv], of f x y] f by simp
    qed
    ultimately show ?thesis using tables_invD(1) [OF inv] by (simp add: corrected_def)
  qed
  ultimately show ?thesis by (simp add: tables_inv_def tables_ok_def)
qed

lemma dependency_unlink_inv:
  assumes inv: "tables_inv db" and unlink: "dependency_unlink p t d db = ok (c, db')"
  shows "tables_inv db'"
proof -
  obtain P where db': "db' = db\<lparr>db_dependencies := filter P (db_dependencies db)\<rparr>"
    using dependency_unlink_ok [OF unlink] by blast
  have "closed_except {t. corrected db' t} db'"
  proof (rule closed_exceptI)
    fix f x y
    assume "f \<in> set (db_dependencies db')" "task_find db' (dep_taskId f) = Some x"
      "task_find db' (dep_dependsOn f) = Some y" "task_status x = Completed"
    then show "task_status y = Completed \<or> dep_taskId f \<in> {t. corrected db' t}"
      using closed_exceptD [OF tables_invD(3) [OF inv], of f x y] db' by (simp add: corrected_def)
  qed
  then show ?thesis using dependency_unlink_edges_ok [OF tables_invD(2) [OF inv] unlink]
      tables_invD(1) [OF inv] db' by (simp add: tables_inv_def tables_ok_def)
qed


lemma link_work_ok:
  assumes "link_work sv p t d a w = (ok c, w')"
  obtains (Existing) "w' = w" "\<not> c"
  | (Linked) v db1 x where "c" "task_find (w_db w) t = Some v" "task_status v \<in> {Pending, Blocked}"
      "task_projectId v = p" "\<not> hasExecutionHistory (w_db w) p t"
      "assertAcyclicDependency t d (dependency_listByProject (w_db w) p) = ok ()"
      "dependency_link \<lparr>dep_projectId = p, dep_taskId = t, dep_dependsOn = d,
         dep_createdAt = sv_now sv (w_clock w)\<rparr> (w_db w) = ok (True, db1)"
      "w_db w' = db1\<lparr>db_audit := x\<rparr>" "set (db_audit db1) \<subseteq> set x"
proof -
  obtain v where v: "task_find (w_db w) t = Some v" "task_status v \<in> {Pending, Blocked}"
      "task_projectId v = p" "\<not> hasExecutionHistory (w_db w) p t"
    and rest: "(if \<exists>e \<in> set (dependency_listByProject (w_db w) p). dep_taskId e = t \<and> dep_dependsOn e = d
       then returnM False
       else bindM (liftR (assertAcyclicDependency t d (dependency_listByProject (w_db w) p))) (\<lambda>_.
         bindM (clock_now sv) (\<lambda>now.
         bindM (execDb (dependency_link \<lparr>dep_projectId = p, dep_taskId = t, dep_dependsOn = d,
           dep_createdAt = now\<rparr>)) (\<lambda>created.
         bindM (guardM created (TaskDependencyError ''Task dependency changed during linkage'')) (\<lambda>_.
         bindM (audit_task sv ''task.dependency_linked'' a p t [(''dependsOnTaskId'', JStr d)]) (\<lambda>_.
         returnM created)))))) w = (ok c, w')"
    using assms unfolding link_work_def by (auto simp: bindM_ok assertEditable_ok requireTask_ok)
  show ?thesis
  proof (cases "\<exists>e \<in> set (dependency_listByProject (w_db w) p). dep_taskId e = t \<and> dep_dependsOn e = d")
    case True
    then show ?thesis using rest Existing by (simp del: set_dependency_listByProject)
  next
    case False
    obtain db1 i w1 where 1: "c" "assertAcyclicDependency t d (dependency_listByProject (w_db w) p) = ok ()"
      "dependency_link \<lparr>dep_projectId = p, dep_taskId = t, dep_dependsOn = d,
         dep_createdAt = sv_now sv (w_clock w)\<rparr> (w_db w) = ok (True, db1)"
      and 2: "audit_task sv ''task.dependency_linked'' a p t [(''dependsOnTaskId'', JStr d)]
        (w\<lparr>w_clock := Suc (w_clock w), w_db := db1\<rparr>) = (ok i, w')"
      using rest False by (auto simp: bindM_ok execDb_ok split: if_splits)
    show ?thesis by (rule Linked [OF 1(1) v 1(2,3)]) (use audit_task_ok(1) [OF 2] in auto)
  qed
qed

lemma dependencies_link_inv:
  assumes inv: "tables_inv (w_db w)" and run: "dependencies_link sv p t d a w = (r, w')"
  shows "tables_inv (w_db w') \<and> task_ids (w_db w') = task_ids (w_db w)" (is "?P (w_db w')")
  using conjI [OF inv refl] run unfolding dependencies_link_def
proof (rule transaction_keeps [where P = ?P])
  fix x w1
  assume "link_work sv p t d a (w\<lparr>w_active := True\<rparr>) = (ok x, w1)"
  then show "?P (w_db w1)"
  proof (rule link_work_ok)
    fix v db1 y
    assume v: "task_find (w_db (w\<lparr>w_active := True\<rparr>)) t = Some v" "task_status v \<in> {Pending, Blocked}"
      and l: "dependency_link \<lparr>dep_projectId = p, dep_taskId = t, dep_dependsOn = d,
         dep_createdAt = sv_now sv (w_clock (w\<lparr>w_active := True\<rparr>))\<rparr> (w_db (w\<lparr>w_active := True\<rparr>)) = ok (True, db1)"
      and w1: "w_db w1 = db1\<lparr>db_audit := y\<rparr>" "set (db_audit db1) \<subseteq> set y"
    have "tables_inv db1"
      by (rule dependency_link_inv [of "w_db w"]) (use inv l v in auto)
    moreover have "task_ids db1 = task_ids (w_db w)" using dependency_link_ok [OF l] by auto
    ultimately show ?thesis using w1 by (simp add: audit_tables_inv)
  qed (use inv in simp)
qed

lemma unlink_work_ok:
  assumes "unlink_work sv p t d a w = (ok x, w1)"
  obtains v db1 y where "task_find (w_db w) t = Some v" "task_projectId v = p"
    "\<not> hasExecutionHistory (w_db w) p t" "dependency_unlink p t d (w_db w) = ok (x, db1)"
    "w_db w1 = db1\<lparr>db_audit := y\<rparr>" "set (db_audit db1) \<subseteq> set y"
proof -
  obtain v db1 w2 i where v: "task_find (w_db w) t = Some v" "task_projectId v = p"
      "\<not> hasExecutionHistory (w_db w) p t" "dependency_unlink p t d (w_db w) = ok (x, db1)"
    and 2: "(if x then audit_task sv ''task.dependency_unlinked'' a p t [(''dependsOnTaskId'', JStr d)]
        else returnM []) w2 = (ok i, w1)" and w2: "w_db w2 = db1"
    using assms unfolding unlink_work_def by (auto simp: bindM_ok assertEditable_ok requireTask_ok execDb_ok)
  have "\<exists>y. w_db w1 = db1\<lparr>db_audit := y\<rparr> \<and> set (db_audit db1) \<subseteq> set y"
  proof (cases x)
    case True
    then show ?thesis using audit_task_ok(1) [of sv _ a p t _ w2 i w1] 2 w2 by auto
  next
    case False
    then show ?thesis using 2 w2 by (intro exI [of _ "db_audit db1"]) simp
  qed
  then show ?thesis using that [OF v] by blast
qed

lemma dependencies_unlink_inv:
  assumes inv: "tables_inv (w_db w)" and run: "dependencies_unlink sv p t d a w = (r, w')"
  shows "tables_inv (w_db w') \<and> task_ids (w_db w') = task_ids (w_db w)" (is "?P (w_db w')")
  using conjI [OF inv refl] run unfolding dependencies_unlink_def
proof (rule transaction_keeps [where P = ?P])
  fix x w1
  assume "unlink_work sv p t d a (w\<lparr>w_active := True\<rparr>) = (ok x, w1)"
  then show "?P (w_db w1)"
  proof (rule unlink_work_ok)
    fix db1 y
    assume u: "dependency_unlink p t d (w_db (w\<lparr>w_active := True\<rparr>)) = ok (x, db1)"
      and w1: "w_db w1 = db1\<lparr>db_audit := y\<rparr>" "set (db_audit db1) \<subseteq> set y"
    have "tables_inv db1" by (rule dependency_unlink_inv [OF inv]) (use u in simp)
    moreover have "task_ids db1 = task_ids (w_db w)" using dependency_unlink_ok [OF u] by auto
    ultimately show ?thesis using w1 by (simp add: audit_tables_inv)
  qed
qed

lemma lifecycle_apply_inv:
  assumes inv: "tables_inv (w_db w)" and run: "lifecycle_apply sv deps p t a oc reason w = (r, w')"
  shows "tables_inv (w_db w') \<and> task_ids (w_db w') = task_ids (w_db w)" (is "?P (w_db w')")
  using conjI [OF inv refl] run unfolding lifecycle_apply_def
  by (rule transaction_keeps [where P = ?P])
    (use lifecycle_perform_inv [of "w\<lparr>w_active := True\<rparr>"] inv in simp)

section \<open>Lemmas: execution freezes the prerequisites\<close>

text \<open>The rows of the execution history belong to stored tasks of the project they name.\<close>

definition executed_ok :: "'z project_db_scheme \<Rightarrow> bool" where
  "executed_ok db \<longleftrightarrow> (\<forall>i q. (i, q) \<in> set (db_executed db) \<longrightarrow>
     (\<exists>v. task_find db i = Some v \<and> task_projectId v = q))"

text \<open>
  One step keeps the history rows and the edges of the tasks in it.
\<close>

definition frozen_step :: "'z project_db_scheme \<Rightarrow> 'z project_db_scheme \<Rightarrow> bool" where
  "frozen_step db db' \<longleftrightarrow> executed_ok db' \<and> set (db_executed db) \<subseteq> set (db_executed db')
     \<and> (\<forall>i q. (i, q) \<in> set (db_executed db) \<longrightarrow> filter (\<lambda>e. dep_taskId e = i) (db_dependencies db') =
          filter (\<lambda>e. dep_taskId e = i) (db_dependencies db))"

lemma executed_ok_audit [simp]: "executed_ok (db\<lparr>db_audit := x\<rparr>) = executed_ok db"
  by (simp add: executed_ok_def)

lemma frozen_audit [simp]: "frozen_step db (db'\<lparr>db_audit := x\<rparr>) = frozen_step db db'"
  by (simp add: frozen_step_def)

lemma frozen_refl: "executed_ok db \<Longrightarrow> frozen_step db db"
  by (simp add: frozen_step_def)

lemma frozen_trans: "frozen_step a b \<Longrightarrow> frozen_step b c \<Longrightarrow> frozen_step a c"
proof -
  assume ab: "frozen_step a b" and bc: "frozen_step b c"
  have "filter (\<lambda>e. dep_taskId e = i) (db_dependencies c) = filter (\<lambda>e. dep_taskId e = i) (db_dependencies a)"
    if i: "(i, q) \<in> set (db_executed a)" for i q
  proof -
    have "(i, q) \<in> set (db_executed b)" using ab i unfolding frozen_step_def by blast
    then have "filter (\<lambda>e. dep_taskId e = i) (db_dependencies c) = filter (\<lambda>e. dep_taskId e = i) (db_dependencies b)"
      using bc unfolding frozen_step_def by blast
    also have "\<dots> = filter (\<lambda>e. dep_taskId e = i) (db_dependencies a)"
      using ab i unfolding frozen_step_def by blast
    finally show ?thesis .
  qed
  then show ?thesis using ab bc unfolding frozen_step_def by blast
qed

lemma frozen_edges:
  assumes "executed_ok db" and "\<And>i q. (i, q) \<in> set (db_executed db) \<Longrightarrow>
      filter (\<lambda>e. dep_taskId e = i) es = filter (\<lambda>e. dep_taskId e = i) (db_dependencies db)"
  shows "frozen_step db (db\<lparr>db_dependencies := es\<rparr>)"
  using assms by (simp add: frozen_step_def executed_ok_def)

lemma task_save_frozen:
  assumes rows: "task_rows_ok db" and ex: "executed_ok db" and save: "task_save t db = ok (u, db')"
  shows "frozen_step db db'"
proof -
  note s = task_save_ok [OF save]
  have keep: "\<exists>v'. task_find db' i = Some v' \<and> task_projectId v' = q"
    if "task_find db i = Some v" "task_projectId v = q" for i v q
    using s(1) [of i] that by (auto simp: merged_row_def)
  have new: "set (db_executed db') \<subseteq> insert (task_id t, task_projectId (merged_row db t)) (set (db_executed db))"
  proof (cases "task_find db (task_id t)")
    case None
    then show ?thesis using save by (auto simp: task_save_def result_simps split: if_splits)
  next
    case (Some old)
    then have "task_update old t db = ok (u, db')"
      using save by (auto simp: task_save_def result_simps split: if_splits)
    then show ?thesis using Some
      by (auto simp: task_update_def Let_def mark_executed_def merged_row_def split: if_splits)
  qed
  have "\<exists>v. task_find db' i = Some v \<and> task_projectId v = q" if "(i, q) \<in> set (db_executed db')" for i q
  proof (cases "(i, q) \<in> set (db_executed db)")
    case True
    then show ?thesis using ex keep by (fastforce simp: executed_ok_def)
  next
    case False
    then have "i = task_id t" "q = task_projectId (merged_row db t)" using new that by auto
    then show ?thesis using s(1) [of i] by simp
  qed
  then show ?thesis using s(4,8) by (auto simp: frozen_step_def executed_ok_def)
qed

lemma edges_frozen:
  assumes ex: "executed_ok db" and v: "task_find db t = Some v" "task_projectId v = p"
    and hist: "\<not> hasExecutionHistory db p t"
  shows "(t, q) \<notin> set (db_executed db)"
proof
  assume "(t, q) \<in> set (db_executed db)"
  moreover from this have "q = p" using ex v unfolding executed_ok_def by (metis option.inject)
  ultimately show False using hist by (simp add: hasExecutionHistory_def)
qed

lemma dependency_link_frozen:
  assumes ex: "executed_ok db" and v: "task_find db (dep_taskId e) = Some v" "task_projectId v = p"
    and hist: "\<not> hasExecutionHistory db p (dep_taskId e)" and link: "dependency_link e db = ok (c, db')"
  shows "frozen_step db db'"
  using dependency_link_ok [OF link]
proof
  assume "db' = db\<lparr>db_dependencies := e # db_dependencies db\<rparr> \<and> same_project db e"
  moreover have "frozen_step db (db\<lparr>db_dependencies := e # db_dependencies db\<rparr>)"
    by (rule frozen_edges [OF ex]) (use edges_frozen [OF ex v hist] in auto)
  ultimately show ?thesis by blast
qed (simp add: frozen_refl ex)

lemma dependency_unlink_frozen:
  assumes ex: "executed_ok db" and v: "task_find db t = Some v" "task_projectId v = p"
    and hist: "\<not> hasExecutionHistory db p t" and unlink: "dependency_unlink p t d db = ok (c, db')"
  shows "frozen_step db db'"
proof -
  let ?hit = "\<lambda>e. dep_projectId e = p \<and> dep_taskId e = t \<and> dep_dependsOn e = d"
  have "db' = db \<or> db' = db\<lparr>db_dependencies := filter (Not \<circ> ?hit) (db_dependencies db)\<rparr>"
    using unlink by (auto simp: dependency_unlink_def Let_def split: if_splits)
  moreover have "frozen_step db (db\<lparr>db_dependencies := filter (Not \<circ> ?hit) (db_dependencies db)\<rparr>)"
  proof (rule frozen_edges [OF ex])
    fix i q
    assume "(i, q) \<in> set (db_executed db)"
    then have "i \<noteq> t" using edges_frozen [OF ex v hist, of q] by auto
    then show "filter (\<lambda>e. dep_taskId e = i) (filter (Not \<circ> ?hit) (db_dependencies db)) =
        filter (\<lambda>e. dep_taskId e = i) (db_dependencies db)"
      unfolding filter_filter by (intro filter_cong) auto
  qed
  ultimately show ?thesis using frozen_refl [OF ex] by (elim disjE; simp only:)
qed

lemma transaction_frozen:
  assumes ex: "executed_ok (w_db w)" and run: "transaction work w = (r, w')"
    and "\<And>x w1. work (w\<lparr>w_active := True\<rparr>) = (ok x, w1) \<Longrightarrow> frozen_step (w_db w) (w_db w1)"
  shows "frozen_step (w_db w) (w_db w')"
  using frozen_refl [OF ex] run assms(3) by (rule transaction_keeps [where P = "frozen_step (w_db w)"])


text \<open>The application's own checks and the triggers of the storage decide the same.\<close>

lemma blocked_by_iff_trigger:
  assumes inv: "tables_ok db"
  shows "blocked_by p t ForStart db = ok [] \<longleftrightarrow> \<not> unmet_prerequisite [Completed, WaitingReview] db p t"
    and "blocked_by p t ForCompletion db = ok [] \<longleftrightarrow> \<not> unmet_prerequisite [Completed] db p t"
proof -
  note rows = tables_okD(1) [OF inv] and edges = tables_okD(2) [OF inv]
  have found: "\<exists>v. task_find db (dep_dependsOn e) = Some v" if "e \<in> set (db_dependencies db)" for e
    using edge_tasks [OF inv that] by blast
  have "blocked_by p t r db = ok [] \<longleftrightarrow> (\<forall>e \<in> set (db_dependencies db). dep_projectId e = p \<longrightarrow>
      dep_taskId e = t \<longrightarrow> prerequisite_satisfied r (task_status (the (task_find db (dep_dependsOn e)))))" for r
    unfolding blocked_by_ok [OF rows edges]
    by (subst eq_commute) (auto simp: filter_empty_conv prerequisites_of_def)
  then show "blocked_by p t ForStart db = ok [] \<longleftrightarrow> \<not> unmet_prerequisite [Completed, WaitingReview] db p t"
    "blocked_by p t ForCompletion db = ok [] \<longleftrightarrow> \<not> unmet_prerequisite [Completed] db p t"
    unfolding unmet_prerequisite_iff [OF rows] using found
    by (fastforce simp: prerequisite_satisfied_def)+
qed

lemma acyclic_check_iff_trigger:
  assumes inv: "tables_ok db" and t: "task_find db t = Some v" "task_projectId v = p"
  shows "assertAcyclicDependency t d (dependency_listByProject db p) = ok () \<longleftrightarrow>
    t \<noteq> d \<and> \<not> cycle_trigger db t d"
  unfolding assertAcyclicDependency_ok cycle_trigger_iff
    project_reachability [OF tables_okD(1) [OF inv] tables_okD(2) [OF inv] t]
  by (auto simp: rtrancl_eq_or_trancl)

text \<open>Counted identifiers and a clock that ticks, for the samples.\<close>

definition counted_services :: services where
  "counted_services = \<lparr>sv_id = (\<lambda>n. replicate n (CHR ''x'')), sv_now = (\<lambda>n. At (int n))\<rparr>"

lemma counted_inj: "inj (sv_id counted_services)"
  by (rule injI) (simp add: counted_services_def replicate_eq_replicate)

end
