(* ===== verification/Governance.thy ===== *)
theory Governance
  imports Task_Commands
begin

text \<open>
  Governance records: the statuses and transition tables of
  \<open>packages/domain/src/governance/governance.ts\<close>, the repository
  \<open>sqlite-governance.repository.ts\<close> with the constraints and triggers of its tables, and the
  service \<open>packages/application/src/commands/manage-governance.ts\<close>.

  The service reads, decides and then makes one write, each write being one database
  transaction of its own. What another process does between the read and the write is
  therefore covered by stating the properties for every interleaving of the writes: the
  relation \<open>gov_step\<close> is one write, and the commands are shown to make at most one.
\<close>

section \<open>The model\<close>

datatype milestone_status = MsPlanned | MsActive | MsCompleted | MsCancelled | MsArchived
datatype requirement_status = RqProposed | RqAccepted | RqImplemented | RqVerified | RqRejected
datatype adr_status = AdProposed | AdAccepted | AdRejected | AdDeprecated | AdSuperseded
datatype review_status = RvPending | RvApproved | RvRejected
datatype review_decision = DecApproved | DecRejected
datatype review_subject = SubjTask | SubjAgentRun | SubjRequirement | SubjAdr | SubjMilestone
datatype gov_actor_type = GovUser | GovAgent | GovSystem
datatype governance_kind = GMilestone | GRequirement | GAdr

text \<open>A status together with the kind of record it belongs to.\<close>

datatype gov_status =
  MilestoneSt milestone_status | RequirementSt requirement_status | AdrSt adr_status

fun gov_kind :: "gov_status \<Rightarrow> governance_kind" where
  "gov_kind (MilestoneSt _) = GMilestone"
| "gov_kind (RequirementSt _) = GRequirement"
| "gov_kind (AdrSt _) = GAdr"

fun kind_str :: "governance_kind \<Rightarrow> string" where
  "kind_str GMilestone = ''milestone''"
| "kind_str GRequirement = ''requirement''"
| "kind_str GAdr = ''adr''"

fun gov_status_str :: "gov_status \<Rightarrow> string" where
  "gov_status_str (MilestoneSt MsPlanned) = ''planned''"
| "gov_status_str (MilestoneSt MsActive) = ''active''"
| "gov_status_str (MilestoneSt MsCompleted) = ''completed''"
| "gov_status_str (MilestoneSt MsCancelled) = ''cancelled''"
| "gov_status_str (MilestoneSt MsArchived) = ''archived''"
| "gov_status_str (RequirementSt RqProposed) = ''proposed''"
| "gov_status_str (RequirementSt RqAccepted) = ''accepted''"
| "gov_status_str (RequirementSt RqImplemented) = ''implemented''"
| "gov_status_str (RequirementSt RqVerified) = ''verified''"
| "gov_status_str (RequirementSt RqRejected) = ''rejected''"
| "gov_status_str (AdrSt AdProposed) = ''proposed''"
| "gov_status_str (AdrSt AdAccepted) = ''accepted''"
| "gov_status_str (AdrSt AdRejected) = ''rejected''"
| "gov_status_str (AdrSt AdDeprecated) = ''deprecated''"
| "gov_status_str (AdrSt AdSuperseded) = ''superseded''"

fun governanceTransitions :: "gov_status \<Rightarrow> gov_status list" where
  "governanceTransitions (MilestoneSt MsPlanned) = [MilestoneSt MsActive, MilestoneSt MsCancelled]"
| "governanceTransitions (MilestoneSt MsActive) = [MilestoneSt MsCompleted, MilestoneSt MsCancelled]"
| "governanceTransitions (MilestoneSt MsCompleted) = [MilestoneSt MsArchived]"
| "governanceTransitions (MilestoneSt MsCancelled) = []"
| "governanceTransitions (MilestoneSt MsArchived) = []"
| "governanceTransitions (RequirementSt RqProposed) = [RequirementSt RqAccepted, RequirementSt RqRejected]"
| "governanceTransitions (RequirementSt RqAccepted) = [RequirementSt RqImplemented, RequirementSt RqRejected]"
| "governanceTransitions (RequirementSt RqImplemented) = [RequirementSt RqVerified]"
| "governanceTransitions (RequirementSt RqVerified) = []"
| "governanceTransitions (RequirementSt RqRejected) = []"
| "governanceTransitions (AdrSt AdProposed) = [AdrSt AdAccepted, AdrSt AdRejected]"
| "governanceTransitions (AdrSt AdAccepted) = [AdrSt AdDeprecated, AdrSt AdSuperseded]"
| "governanceTransitions (AdrSt AdRejected) = []"
| "governanceTransitions (AdrSt AdDeprecated) = []"
| "governanceTransitions (AdrSt AdSuperseded) = []"

definition isRequirementEditable :: "requirement_status \<Rightarrow> bool" where
  "isRequirementEditable s \<longleftrightarrow> s = RqProposed"

definition isGovernanceTransitionAllowed :: "gov_status \<Rightarrow> gov_status \<Rightarrow> bool" where
  "isGovernanceTransitionAllowed s t \<longleftrightarrow> t \<in> set (governanceTransitions s)"

record governance_actor =
  ga_type :: gov_actor_type
  ga_id :: string
  ga_displayName :: "string option"

text \<open>
  A milestone row: the status column never holds \<open>archived\<close>, which is the column
  \<open>archived_at\<close> being set.
\<close>

record milestone =
  ms_id :: string
  ms_projectId :: string
  ms_title :: string
  ms_description :: "string option"
  ms_status :: milestone_status
  ms_archivedAt :: "js_date option"
  ms_createdAt :: js_date
  ms_updatedAt :: js_date

record requirement =
  rq_id :: string
  rq_projectId :: string
  rq_milestoneId :: "string option"
  rq_key :: string
  rq_title :: string
  rq_description :: string
  rq_status :: requirement_status
  rq_createdAt :: js_date
  rq_updatedAt :: js_date

record adr =
  ad_id :: string
  ad_projectId :: string
  ad_title :: string
  ad_context :: string
  ad_decision :: string
  ad_consequences :: string
  ad_status :: adr_status
  ad_supersededById :: "string option"
  ad_createdAt :: js_date
  ad_updatedAt :: js_date

record review =
  rv_id :: string
  rv_projectId :: string
  rv_subjectType :: review_subject
  rv_subjectId :: string
  rv_reviewer :: governance_actor
  rv_status :: review_status
  rv_summary :: "string option"
  rv_createdAt :: js_date
  rv_completedAt :: "js_date option"

record approval =
  ap_id :: string
  ap_projectId :: string
  ap_reviewId :: string
  ap_decision :: review_decision
  ap_actor :: governance_actor
  ap_rationale :: "string option"
  ap_createdAt :: js_date

record gov_event =
  ge_id :: string
  ge_projectId :: string
  ge_eventType :: string
  ge_aggregateId :: string
  ge_metadata :: "(string \<times> string) list"
  ge_occurredAt :: js_date

text \<open>
  The governance tables beside the task tables. Of an agent run only the identifier and the
  project are read here. \<open>gd_links\<close> are the rows of \<open>task_requirement\<close>.
\<close>

record governance_db = project_db +
  gd_milestones :: "milestone list"
  gd_requirements :: "requirement list"
  gd_adrs :: "adr list"
  gd_reviews :: "review list"
  gd_approvals :: "approval list"
  gd_events :: "gov_event list"
  gd_agentRuns :: "(string \<times> string) list"
  gd_links :: "(string \<times> string) list"


subsection \<open>The repository\<close>

definition appendEvent ::
  "gov_event \<Rightarrow> 'z governance_db_scheme \<Rightarrow> 'z governance_db_scheme result" where
  "appendEvent e db =
     bindR (iso_check (ge_occurredAt e)) (\<lambda>_.
       if \<not> project_exists db (ge_projectId e)
       then throw (StorageConstraintError ''FOREIGN KEY constraint failed'')
       else if ge_id e \<in> ge_id ` set (gd_events db)
       then throw (StorageConstraintError ''UNIQUE constraint failed: governance_event.id'')
       else ok (db\<lparr>gd_events := gd_events db @ [e]\<rparr>))"

definition created_event :: "string \<Rightarrow> string \<Rightarrow> string \<Rightarrow> (string \<times> string) list \<Rightarrow> js_date \<Rightarrow> gov_event" where
  "created_event kind i p metadata created =
     \<lparr>ge_id = kind @ '':'' @ i @ '':created'', ge_projectId = p, ge_eventType = kind @ ''.created'',
       ge_aggregateId = i, ge_metadata = metadata, ge_occurredAt = created\<rparr>"

text \<open>The checks a row passes on insertion: its dates, its project, its title and its key.\<close>

definition insert_checks ::
  "'z governance_db_scheme \<Rightarrow> js_date \<Rightarrow> js_date \<Rightarrow> string \<Rightarrow> bool \<Rightarrow> bool \<Rightarrow> unit result" where
  "insert_checks db created updated p title_ok fresh =
     bindR (iso_check created) (\<lambda>_.
     bindR (iso_check updated) (\<lambda>_.
       if \<not> title_ok then throw (StorageConstraintError ''CHECK constraint failed'')
       else if \<not> fresh then throw (StorageConstraintError ''UNIQUE constraint failed'')
       else if \<not> project_exists db p then throw (StorageConstraintError ''FOREIGN KEY constraint failed'')
       else ok ()))"

definition saveMilestone ::
  "milestone \<Rightarrow> 'z governance_db_scheme \<Rightarrow> (unit \<times> 'z governance_db_scheme) result" where
  "saveMilestone v db =
     bindR (insert_checks db (ms_createdAt v) (ms_updatedAt v) (ms_projectId v) (title_check (ms_title v))
       (ms_id v \<notin> ms_id ` set (gd_milestones db))) (\<lambda>_.
     bindR (appendEvent (created_event ''milestone'' (ms_id v) (ms_projectId v) [] (ms_createdAt v))
       (db\<lparr>gd_milestones := gd_milestones db @ [v]\<rparr>)) (\<lambda>db'. ok ((), db')))"

text \<open>\<open>UPDATE ... WHERE\<close>: the rows that match, and the table with them changed.\<close>

definition update_rows :: "('r \<Rightarrow> bool) \<Rightarrow> ('r \<Rightarrow> 'r) \<Rightarrow> 'r list \<Rightarrow> nat \<times> 'r list" where
  "update_rows hit f rows = (length (filter hit rows), map (\<lambda>r. if hit r then f r else r) rows)"

definition updateMilestone ::
  "(milestone \<Rightarrow> bool) \<Rightarrow> (milestone \<Rightarrow> milestone) \<Rightarrow> js_date \<Rightarrow> gov_event
     \<Rightarrow> 'z governance_db_scheme \<Rightarrow> (bool \<times> 'z governance_db_scheme) result" where
  "updateMilestone hit f now event db =
     bindR (iso_check now) (\<lambda>_.
       let (changes, rows) = update_rows hit f (gd_milestones db) in
       if changes \<noteq> 1 then ok (False, db)
       else bindR (appendEvent event (db\<lparr>gd_milestones := rows\<rparr>)) (\<lambda>db'. ok (True, db')))"

definition updateMilestoneTitle ::
  "string \<Rightarrow> string \<Rightarrow> string \<Rightarrow> string \<Rightarrow> js_date \<Rightarrow> string
     \<Rightarrow> 'z governance_db_scheme \<Rightarrow> (bool \<times> 'z governance_db_scheme) result" where
  "updateMilestoneTitle i p expectedTitle title now eventId =
     updateMilestone (\<lambda>m. ms_id m = i \<and> ms_projectId m = p \<and> ms_title m = expectedTitle)
       (\<lambda>m. m\<lparr>ms_title := title, ms_updatedAt := now\<rparr>) now
       \<lparr>ge_id = eventId, ge_projectId = p, ge_eventType = ''milestone.title_changed'',
         ge_aggregateId = i, ge_metadata = [(''from'', expectedTitle), (''to'', title)],
         ge_occurredAt = now\<rparr>"

definition updateMilestoneDescription ::
  "string \<Rightarrow> string \<Rightarrow> string option \<Rightarrow> string \<Rightarrow> js_date \<Rightarrow> string
     \<Rightarrow> 'z governance_db_scheme \<Rightarrow> (bool \<times> 'z governance_db_scheme) result" where
  "updateMilestoneDescription i p expected description now eventId =
     updateMilestone (\<lambda>m. ms_id m = i \<and> ms_projectId m = p \<and> ms_description m = expected)
       (\<lambda>m. m\<lparr>ms_description := Some description, ms_updatedAt := now\<rparr>) now
       \<lparr>ge_id = eventId, ge_projectId = p, ge_eventType = ''milestone.description_changed'',
         ge_aggregateId = i, ge_metadata = [(''descriptionUpdated'', ''true'')], ge_occurredAt = now\<rparr>"

definition milestone_in_project :: "'z governance_db_scheme \<Rightarrow> string \<Rightarrow> string \<Rightarrow> bool" where
  "milestone_in_project db m p \<longleftrightarrow> (\<exists>r \<in> set (gd_milestones db). ms_id r = m \<and> ms_projectId r = p)"

text \<open>The trigger \<open>requirement_milestone_ownership\<close>.\<close>

definition milestone_ownership :: "'z governance_db_scheme \<Rightarrow> string option \<Rightarrow> string \<Rightarrow> unit result" where
  "milestone_ownership db m p =
     (case m of None \<Rightarrow> ok ()
      | Some i \<Rightarrow> if milestone_in_project db i p then ok ()
          else throw (StorageConstraintError ''requirement milestone must belong to the same project''))"

definition saveRequirement ::
  "requirement \<Rightarrow> 'z governance_db_scheme \<Rightarrow> (unit \<times> 'z governance_db_scheme) result" where
  "saveRequirement v db =
     bindR (insert_checks db (rq_createdAt v) (rq_updatedAt v) (rq_projectId v) (title_check (rq_title v))
       (rq_id v \<notin> rq_id ` set (gd_requirements db))) (\<lambda>_.
     bindR (milestone_ownership db (rq_milestoneId v) (rq_projectId v)) (\<lambda>_.
       if \<exists>r \<in> set (gd_requirements db). rq_projectId r = rq_projectId v \<and> rq_key r = rq_key v
       then throw (DuplicateRequirementKeyError (rq_key v))
       else bindR (appendEvent (created_event ''requirement'' (rq_id v) (rq_projectId v)
              [(''key'', rq_key v)] (rq_createdAt v))
            (db\<lparr>gd_requirements := gd_requirements db @ [v]\<rparr>)) (\<lambda>db'. ok ((), db'))))"

definition updateRequirement ::
  "(requirement \<Rightarrow> bool) \<Rightarrow> (requirement \<Rightarrow> requirement) \<Rightarrow> js_date \<Rightarrow> gov_event
     \<Rightarrow> 'z governance_db_scheme \<Rightarrow> (bool \<times> 'z governance_db_scheme) result" where
  "updateRequirement hit f now event db =
     bindR (iso_check now) (\<lambda>_.
       let (changes, rows) = update_rows hit f (gd_requirements db) in
       if changes \<noteq> 1 then ok (False, db)
       else bindR (appendEvent event (db\<lparr>gd_requirements := rows\<rparr>)) (\<lambda>db'. ok (True, db')))"

definition requirement_updated ::
  "string \<Rightarrow> string \<Rightarrow> js_date \<Rightarrow> string \<Rightarrow> (string \<times> string) list \<Rightarrow> gov_event" where
  "requirement_updated i p now eventId metadata =
     \<lparr>ge_id = eventId, ge_projectId = p, ge_eventType = ''requirement.updated'', ge_aggregateId = i,
       ge_metadata = metadata, ge_occurredAt = now\<rparr>"

definition updateRequirementText ::
  "string \<Rightarrow> string \<Rightarrow> string \<times> string \<Rightarrow> string \<times> string \<Rightarrow> js_date \<Rightarrow> string \<Rightarrow> (string \<times> string) list
     \<Rightarrow> 'z governance_db_scheme \<Rightarrow> (bool \<times> 'z governance_db_scheme) result" where
  "updateRequirementText i p expected next_text now eventId metadata =
     updateRequirement (\<lambda>r. rq_id r = i \<and> rq_projectId r = p \<and> rq_status r = RqProposed
         \<and> rq_title r = fst expected \<and> rq_description r = snd expected)
       (\<lambda>r. r\<lparr>rq_title := fst next_text, rq_description := snd next_text, rq_updatedAt := now\<rparr>) now
       (requirement_updated i p now eventId metadata)"

definition assignRequirementMilestone ::
  "string \<Rightarrow> string \<Rightarrow> string \<Rightarrow> js_date \<Rightarrow> string \<Rightarrow> (string \<times> string) list
     \<Rightarrow> 'z governance_db_scheme \<Rightarrow> (bool \<times> 'z governance_db_scheme) result" where
  "assignRequirementMilestone i p m now eventId metadata db =
     updateRequirement (\<lambda>r. rq_id r = i \<and> rq_projectId r = p \<and> rq_status r = RqProposed
         \<and> rq_milestoneId r = None
         \<and> (\<exists>s \<in> set (gd_milestones db). ms_id s = m \<and> ms_projectId s = p
              \<and> ms_status s \<noteq> MsCancelled \<and> ms_archivedAt s = None))
       (\<lambda>r. r\<lparr>rq_milestoneId := Some m, rq_updatedAt := now\<rparr>) now
       (requirement_updated i p now eventId metadata) db"

definition saveAdr :: "adr \<Rightarrow> 'z governance_db_scheme \<Rightarrow> (unit \<times> 'z governance_db_scheme) result" where
  "saveAdr v db =
     bindR (insert_checks db (ad_createdAt v) (ad_updatedAt v) (ad_projectId v) (title_check (ad_title v))
       (ad_id v \<notin> ad_id ` set (gd_adrs db))) (\<lambda>_.
     if (case ad_supersededById v of None \<Rightarrow> False
         | Some s \<Rightarrow> \<not> (\<exists>a \<in> set (gd_adrs db). ad_id a = s \<and> ad_projectId a = ad_projectId v))
     then throw (StorageConstraintError ''superseding ADR must belong to the same project'')
     else bindR (appendEvent (created_event ''adr'' (ad_id v) (ad_projectId v) [] (ad_createdAt v))
         (db\<lparr>gd_adrs := gd_adrs db @ [v]\<rparr>)) (\<lambda>db'. ok ((), db')))"

fun subject_str :: "review_subject \<Rightarrow> string" where
  "subject_str SubjTask = ''task''"
| "subject_str SubjAgentRun = ''agent_run''"
| "subject_str SubjRequirement = ''requirement''"
| "subject_str SubjAdr = ''adr''"
| "subject_str SubjMilestone = ''milestone''"

definition lookup_project :: "('r \<Rightarrow> string) \<Rightarrow> ('r \<Rightarrow> string) \<Rightarrow> 'r list \<Rightarrow> string \<Rightarrow> string option" where
  "lookup_project key proj rows i = map_option proj (find (\<lambda>r. key r = i) rows)"

definition findMilestoneProject :: "string \<Rightarrow> 'z governance_db_scheme \<Rightarrow> string option" where
  "findMilestoneProject i db = lookup_project ms_id ms_projectId (gd_milestones db) i"

fun findSubjectProject :: "review_subject \<Rightarrow> string \<Rightarrow> 'z governance_db_scheme \<Rightarrow> string option" where
  "findSubjectProject SubjTask i db = lookup_project task_id task_projectId (db_tasks db) i"
| "findSubjectProject SubjAgentRun i db = lookup_project fst snd (gd_agentRuns db) i"
| "findSubjectProject SubjRequirement i db = lookup_project rq_id rq_projectId (gd_requirements db) i"
| "findSubjectProject SubjAdr i db = lookup_project ad_id ad_projectId (gd_adrs db) i"
| "findSubjectProject SubjMilestone i db = lookup_project ms_id ms_projectId (gd_milestones db) i"

definition actor_check :: "governance_actor \<Rightarrow> bool" where
  "actor_check a \<longleftrightarrow> title_check (ga_id a)"

definition saveReview :: "review \<Rightarrow> 'z governance_db_scheme \<Rightarrow> (unit \<times> 'z governance_db_scheme) result" where
  "saveReview v db =
     bindR (insert_checks db (rv_createdAt v) (rv_createdAt v) (rv_projectId v) (actor_check (rv_reviewer v))
       (rv_id v \<notin> rv_id ` set (gd_reviews db))) (\<lambda>_.
       if findSubjectProject (rv_subjectType v) (rv_subjectId v) db \<noteq> Some (rv_projectId v)
       then throw (StorageConstraintError ''review subject does not exist in the same project'')
       else bindR (appendEvent (created_event ''review'' (rv_id v) (rv_projectId v)
              [(''subjectType'', subject_str (rv_subjectType v)), (''subjectId'', rv_subjectId v)]
              (rv_createdAt v)) (db\<lparr>gd_reviews := gd_reviews db @ [v]\<rparr>)) (\<lambda>db'. ok ((), db')))"

definition findRequirement :: "string \<Rightarrow> string \<Rightarrow> 'z governance_db_scheme \<Rightarrow> requirement option" where
  "findRequirement i p db = find (\<lambda>r. rq_id r = i \<and> rq_projectId r = p) (gd_requirements db)"

text \<open>The status a milestone shows: archived as soon as \<open>archived_at\<close> is set.\<close>

definition shown_status :: "milestone \<Rightarrow> milestone_status" where
  "shown_status m = (if ms_archivedAt m \<noteq> None then MsArchived else ms_status m)"

fun findStatus :: "governance_kind \<Rightarrow> string \<Rightarrow> string \<Rightarrow> 'z governance_db_scheme \<Rightarrow> gov_status option" where
  "findStatus GMilestone i p db = map_option (MilestoneSt \<circ> shown_status)
     (find (\<lambda>m. ms_id m = i \<and> ms_projectId m = p) (gd_milestones db))"
| "findStatus GRequirement i p db = map_option (RequirementSt \<circ> rq_status)
     (find (\<lambda>r. rq_id r = i \<and> rq_projectId r = p) (gd_requirements db))"
| "findStatus GAdr i p db = map_option (AdrSt \<circ> ad_status)
     (find (\<lambda>a. ad_id a = i \<and> ad_projectId a = p) (gd_adrs db))"

text \<open>The conditional update of a status, by kind: the number of rows changed and the tables.\<close>

fun update_status_rows ::
  "string \<Rightarrow> string \<Rightarrow> gov_status \<Rightarrow> gov_status \<Rightarrow> js_date \<Rightarrow> 'z governance_db_scheme
     \<Rightarrow> nat \<times> 'z governance_db_scheme" where
  "update_status_rows i p expected (MilestoneSt s) now db =
     (let (changes, rows) =
        if s = MsArchived
        then update_rows (\<lambda>m. ms_id m = i \<and> ms_projectId m = p \<and> ms_status m = MsCompleted
               \<and> ms_archivedAt m = None)
             (\<lambda>m. m\<lparr>ms_archivedAt := Some now, ms_updatedAt := now\<rparr>) (gd_milestones db)
        else update_rows (\<lambda>m. ms_id m = i \<and> ms_projectId m = p \<and> MilestoneSt (ms_status m) = expected)
             (\<lambda>m. m\<lparr>ms_status := s, ms_updatedAt := now\<rparr>) (gd_milestones db)
      in (changes, db\<lparr>gd_milestones := rows\<rparr>))"
| "update_status_rows i p expected (RequirementSt s) now db =
     (let (changes, rows) =
        update_rows (\<lambda>r. rq_id r = i \<and> rq_projectId r = p \<and> RequirementSt (rq_status r) = expected)
          (\<lambda>r. r\<lparr>rq_status := s, rq_updatedAt := now\<rparr>) (gd_requirements db)
      in (changes, db\<lparr>gd_requirements := rows\<rparr>))"
| "update_status_rows i p expected (AdrSt s) now db =
     (let (changes, rows) =
        update_rows (\<lambda>a. ad_id a = i \<and> ad_projectId a = p \<and> AdrSt (ad_status a) = expected)
          (\<lambda>a. a\<lparr>ad_status := s, ad_updatedAt := now\<rparr>) (gd_adrs db)
      in (changes, db\<lparr>gd_adrs := rows\<rparr>))"

definition status_event_id :: "governance_kind \<Rightarrow> string \<Rightarrow> gov_status \<Rightarrow> string" where
  "status_event_id k i s = kind_str k @ '':'' @ i @ '':status:'' @ gov_status_str s"

definition status_event ::
  "string \<Rightarrow> string \<Rightarrow> gov_status \<Rightarrow> gov_status \<Rightarrow> js_date \<Rightarrow> gov_event" where
  "status_event i p expected s now =
     \<lparr>ge_id = status_event_id (gov_kind s) i s, ge_projectId = p,
       ge_eventType = kind_str (gov_kind s) @ ''.status_changed'', ge_aggregateId = i,
       ge_metadata = [(''from'', gov_status_str expected), (''to'', gov_status_str s)],
       ge_occurredAt = now\<rparr>"

definition updateStatus ::
  "string \<Rightarrow> string \<Rightarrow> gov_status \<Rightarrow> gov_status \<Rightarrow> js_date
     \<Rightarrow> 'z governance_db_scheme \<Rightarrow> (bool \<times> 'z governance_db_scheme) result" where
  "updateStatus i p expected s now db =
     bindR (iso_check now) (\<lambda>_.
       let (changes, db1) = update_status_rows i p expected s now db in
       if changes \<noteq> 1 then ok (False, db)
       else bindR (appendEvent (status_event i p expected s now) db1) (\<lambda>db'. ok (True, db')))"

datatype decision_result = Decided | NotFound | AlreadyFinalized

fun decision_status :: "review_decision \<Rightarrow> review_status" where
  "decision_status DecApproved = RvApproved"
| "decision_status DecRejected = RvRejected"

fun decision_str :: "review_decision \<Rightarrow> string" where
  "decision_str DecApproved = ''approved''"
| "decision_str DecRejected = ''rejected''"

text \<open>Inserting an approval runs the trigger \<open>approval_finalize_review\<close>.\<close>

definition decideReview ::
  "approval \<Rightarrow> 'z governance_db_scheme \<Rightarrow> (decision_result \<times> 'z governance_db_scheme) result" where
  "decideReview v db =
     (let hit = (\<lambda>r. rv_id r = ap_reviewId v \<and> rv_projectId r = ap_projectId v) in
      case find hit (gd_reviews db) of
        None \<Rightarrow> ok (NotFound, db)
      | Some r \<Rightarrow>
          if rv_status r \<noteq> RvPending then ok (AlreadyFinalized, db)
          else bindR (insert_checks db (ap_createdAt v) (ap_createdAt v) (ap_projectId v)
                 (actor_check (ap_actor v))
                 (ap_id v \<notin> ap_id ` set (gd_approvals db)
                  \<and> ap_reviewId v \<notin> ap_reviewId ` set (gd_approvals db))) (\<lambda>_.
            let reviews = snd (update_rows (\<lambda>r. hit r \<and> rv_status r = RvPending)
                  (\<lambda>r. r\<lparr>rv_status := decision_status (ap_decision v),
                    rv_completedAt := Some (ap_createdAt v)\<rparr>) (gd_reviews db))
            in bindR (appendEvent \<lparr>ge_id = ''review:'' @ ap_reviewId v @ '':decided'',
                   ge_projectId = ap_projectId v, ge_eventType = ''review.decided'',
                   ge_aggregateId = ap_reviewId v,
                   ge_metadata = [(''decision'', decision_str (ap_decision v))],
                   ge_occurredAt = ap_createdAt v\<rparr>
                 (db\<lparr>gd_approvals := gd_approvals db @ [v], gd_reviews := reviews\<rparr>))
               (\<lambda>db'. ok (Decided, db'))))"


subsection \<open>The service\<close>

definition governance_required :: "string \<Rightarrow> string \<Rightarrow> string result" where
  "governance_required value name =
     (let v = trim value in
      if v = [] then throw (DomainValidationError (name @ '' cannot be empty'')) else ok v)"

definition require_project :: "string \<Rightarrow> ('z governance_db_scheme world, unit) command" where
  "require_project p =
     bindM (readDb (\<lambda>db. project_exists db p)) (\<lambda>found. guardM found (ProjectNotFoundError p))"

fun optional_required :: "string option \<Rightarrow> string \<Rightarrow> string option result" where
  "optional_required None name = ok None"
| "optional_required (Some v) name = bindR (governance_required v name) (\<lambda>r. ok (Some r))"

definition checked_actor :: "governance_actor \<Rightarrow> string \<Rightarrow> governance_actor result" where
  "checked_actor value name =
     bindR (governance_required (ga_id value) (name @ '' ID'')) (\<lambda>i.
     bindR (optional_required (ga_displayName value) (name @ '' display name'')) (\<lambda>d.
       ok \<lparr>ga_type = ga_type value, ga_id = i, ga_displayName = d\<rparr>))"

definition createMilestone ::
  "services \<Rightarrow> string \<Rightarrow> string \<Rightarrow> string option \<Rightarrow> ('z governance_db_scheme world, string) command" where
  "createMilestone sv p title description =
     bindM (require_project p) (\<lambda>_.
     bindM (clock_now sv) (\<lambda>now.
     bindM (generate sv) (\<lambda>i.
     bindM (liftR (governance_required title ''Milestone title'')) (\<lambda>title'.
     bindM (execDb (saveMilestone \<lparr>ms_id = i, ms_projectId = p, ms_title = title',
       ms_description = description, ms_status = MsPlanned, ms_archivedAt = None,
       ms_createdAt = now, ms_updatedAt = now\<rparr>)) (\<lambda>_. returnM i)))))"

text \<open>\<open>getSnapshot\<close>, as far as the service reads it: the rows of a project in their order.\<close>

definition snapshot_milestones :: "string \<Rightarrow> 'z governance_db_scheme \<Rightarrow> milestone list" where
  "snapshot_milestones p db = sort_key (\<lambda>m. (date_ms (ms_createdAt m), ms_id m))
     (filter (\<lambda>m. ms_projectId m = p) (gd_milestones db))"

definition snapshot_requirements :: "string \<Rightarrow> 'z governance_db_scheme \<Rightarrow> requirement list" where
  "snapshot_requirements p db = sort_key (\<lambda>r. (rq_key r, rq_id r))
     (filter (\<lambda>r. rq_projectId r = p) (gd_requirements db))"

definition find_milestone :: "string \<Rightarrow> string \<Rightarrow> ('z governance_db_scheme world, milestone) command" where
  "find_milestone p m =
     bindM (readDb (\<lambda>db. find (\<lambda>v. ms_id v = m) (snapshot_milestones p db))) (\<lambda>r.
       case r of None \<Rightarrow> throwM (DomainValidationError (''milestone '' @ m @ '' not found''))
       | Some v \<Rightarrow> returnM v)"

definition modified_concurrently :: "string \<Rightarrow> string \<Rightarrow> error" where
  "modified_concurrently kind i = DomainValidationError (kind @ '' '' @ i @ '' was modified concurrently'')"

definition updateMilestoneTitle_command ::
  "services \<Rightarrow> string \<Rightarrow> string \<Rightarrow> string \<Rightarrow> ('z governance_db_scheme world, unit) command" where
  "updateMilestoneTitle_command sv p m title =
     bindM (require_project p) (\<lambda>_.
     bindM (liftR (governance_required title ''Milestone title'')) (\<lambda>title'.
     bindM (find_milestone p m) (\<lambda>milestone.
       if ms_title milestone = title' then returnM ()
       else bindM (clock_now sv) (\<lambda>now. bindM (generate sv) (\<lambda>e.
         bindM (execDb (updateMilestoneTitle m p (ms_title milestone) title' now e)) (\<lambda>updated.
         guardM updated (modified_concurrently ''milestone'' m)))))))"

definition updateMilestoneDescription_command ::
  "services \<Rightarrow> string \<Rightarrow> string \<Rightarrow> string \<Rightarrow> ('z governance_db_scheme world, unit) command" where
  "updateMilestoneDescription_command sv p m description =
     bindM (require_project p) (\<lambda>_.
     bindM (liftR (governance_required description ''Milestone description'')) (\<lambda>d.
     bindM (find_milestone p m) (\<lambda>milestone.
       if ms_description milestone = Some d then returnM ()
       else bindM (clock_now sv) (\<lambda>now. bindM (generate sv) (\<lambda>e.
         bindM (execDb (updateMilestoneDescription m p (ms_description milestone) d now e)) (\<lambda>updated.
         guardM updated (modified_concurrently ''milestone'' m)))))))"

definition check_milestone :: "string \<Rightarrow> string \<Rightarrow> ('z governance_db_scheme world, unit) command" where
  "check_milestone p m =
     bindM (readDb (findMilestoneProject m)) (\<lambda>owner.
       case owner of
         None \<Rightarrow> throwM (GovernanceSubjectNotFoundError ''milestone'' m)
       | Some q \<Rightarrow> guardM (q = p) (GovernanceCrossProjectReferenceError ''Requirement milestone''))"

definition createRequirement ::
  "services \<Rightarrow> string \<Rightarrow> string \<Rightarrow> string \<Rightarrow> string \<Rightarrow> string option
     \<Rightarrow> ('z governance_db_scheme world, string) command" where
  "createRequirement sv p key title description milestoneId =
     bindM (require_project p) (\<lambda>_.
     bindM (case milestoneId of None \<Rightarrow> returnM () | Some m \<Rightarrow> check_milestone p m) (\<lambda>_.
     bindM (clock_now sv) (\<lambda>now.
     bindM (generate sv) (\<lambda>i.
     bindM (liftR (governance_required key ''Requirement key'')) (\<lambda>key'.
     bindM (liftR (governance_required title ''Requirement title'')) (\<lambda>title'.
     bindM (liftR (governance_required description ''Requirement description'')) (\<lambda>description'.
     bindM (execDb (saveRequirement \<lparr>rq_id = i, rq_projectId = p, rq_milestoneId = milestoneId,
       rq_key = key', rq_title = title', rq_description = description', rq_status = RqProposed,
       rq_createdAt = now, rq_updatedAt = now\<rparr>)) (\<lambda>_. returnM i))))))))"

fun requirement_status_str :: "requirement_status \<Rightarrow> string" where
  "requirement_status_str s = gov_status_str (RequirementSt s)"

definition updateRequirement_command ::
  "services \<Rightarrow> string \<Rightarrow> string \<Rightarrow> string option \<Rightarrow> string option
     \<Rightarrow> ('z governance_db_scheme world, unit) command" where
  "updateRequirement_command sv p i title description =
     bindM (require_project p) (\<lambda>_.
     bindM (guardM (title \<noteq> None \<or> description \<noteq> None)
       (DomainValidationError ''Requirement update requires a title or description'')) (\<lambda>_.
     bindM (liftR (optional_required title ''Requirement title'')) (\<lambda>title'.
     bindM (liftR (optional_required description ''Requirement description'')) (\<lambda>description'.
     bindM (readDb (\<lambda>db. find (\<lambda>v. rq_id v = i) (snapshot_requirements p db))) (\<lambda>found.
     case found of None \<Rightarrow> throwM (GovernanceSubjectNotFoundError ''requirement'' i)
     | Some r \<Rightarrow>
     bindM (guardM (isRequirementEditable (rq_status r))
       (RequirementNotEditableError (rq_id r) (requirement_status_str (rq_status r)))) (\<lambda>_.
     let expected = (rq_title r, rq_description r);
         nt = (case title' of None \<Rightarrow> fst expected | Some x \<Rightarrow> x);
         nd = (case description' of None \<Rightarrow> snd expected | Some x \<Rightarrow> x);
         titleChanged = (nt \<noteq> fst expected); descriptionChanged = (nd \<noteq> snd expected)
     in if \<not> titleChanged \<and> \<not> descriptionChanged then returnM ()
        else bindM (clock_now sv) (\<lambda>now. bindM (generate sv) (\<lambda>e.
          bindM (execDb (updateRequirementText (rq_id r) p expected (nt, nd) now e
            ([(''key'', rq_key r)]
             @ (if titleChanged then [(''titleFrom'', fst expected), (''titleTo'', nt)] else [])
             @ (if descriptionChanged then [(''descriptionUpdated'', ''true'')] else [])))) (\<lambda>updated.
          guardM updated (modified_concurrently ''requirement'' (rq_id r)))))))))))"

definition assignRequirementMilestone_command ::
  "services \<Rightarrow> string \<Rightarrow> string \<Rightarrow> string \<Rightarrow> ('z governance_db_scheme world, unit) command" where
  "assignRequirementMilestone_command sv p i m =
     bindM (require_project p) (\<lambda>_.
     bindM (readDb (findRequirement i p)) (\<lambda>found.
     case found of None \<Rightarrow> throwM (GovernanceSubjectNotFoundError ''requirement'' i)
     | Some r \<Rightarrow>
     bindM (check_milestone p m) (\<lambda>_.
     bindM (readDb (findStatus GMilestone m p)) (\<lambda>status.
     bindM (guardM (status \<noteq> Some (MilestoneSt MsCancelled) \<and> status \<noteq> Some (MilestoneSt MsArchived))
       (DomainValidationError (''milestone '' @ m @ '' is '' @
         (case status of None \<Rightarrow> [] | Some s \<Rightarrow> gov_status_str s) @
         ''; a requirement cannot be assigned to it''))) (\<lambda>_.
     bindM (guardM (isRequirementEditable (rq_status r))
       (RequirementNotEditableError (rq_id r) (requirement_status_str (rq_status r)))) (\<lambda>_.
     bindM (guardM (rq_milestoneId r = None) (DomainValidationError (''requirement '' @ rq_key r @
         '' already belongs to a milestone; its milestone cannot be changed''))) (\<lambda>_.
     bindM (clock_now sv) (\<lambda>now. bindM (generate sv) (\<lambda>e.
     bindM (execDb (assignRequirementMilestone (rq_id r) p m now e
       [(''key'', rq_key r), (''milestoneTo'', m)])) (\<lambda>assigned.
     guardM assigned (modified_concurrently ''requirement'' (rq_id r))))))))))))"

definition createAdr ::
  "services \<Rightarrow> string \<Rightarrow> string \<Rightarrow> string \<Rightarrow> string \<Rightarrow> string
     \<Rightarrow> ('z governance_db_scheme world, string) command" where
  "createAdr sv p title ctxt decision consequences =
     bindM (require_project p) (\<lambda>_.
     bindM (clock_now sv) (\<lambda>now.
     bindM (generate sv) (\<lambda>i.
     bindM (liftR (governance_required title ''ADR title'')) (\<lambda>title'.
     bindM (liftR (governance_required ctxt ''ADR context'')) (\<lambda>ctxt'.
     bindM (liftR (governance_required decision ''ADR decision'')) (\<lambda>decision'.
     bindM (liftR (governance_required consequences ''ADR consequences'')) (\<lambda>consequences'.
     bindM (execDb (saveAdr \<lparr>ad_id = i, ad_projectId = p, ad_title = title', ad_context = ctxt',
       ad_decision = decision', ad_consequences = consequences', ad_status = AdProposed,
       ad_supersededById = None, ad_createdAt = now, ad_updatedAt = now\<rparr>)) (\<lambda>_. returnM i))))))))"

definition createReview ::
  "services \<Rightarrow> string \<Rightarrow> review_subject \<Rightarrow> string \<Rightarrow> governance_actor
     \<Rightarrow> ('z governance_db_scheme world, string) command" where
  "createReview sv p subjectType subjectId reviewer =
     bindM (require_project p) (\<lambda>_.
     bindM (readDb (findSubjectProject subjectType subjectId)) (\<lambda>owner.
     case owner of None \<Rightarrow> throwM (GovernanceSubjectNotFoundError (subject_str subjectType) subjectId)
     | Some q \<Rightarrow>
     bindM (guardM (q = p) (GovernanceCrossProjectReferenceError ''Review subject'')) (\<lambda>_.
     bindM (clock_now sv) (\<lambda>now.
     bindM (generate sv) (\<lambda>i.
     bindM (liftR (governance_required subjectId ''Review subject'')) (\<lambda>subjectId'.
     bindM (liftR (checked_actor reviewer ''Reviewer'')) (\<lambda>reviewer'.
     bindM (execDb (saveReview \<lparr>rv_id = i, rv_projectId = p, rv_subjectType = subjectType,
       rv_subjectId = subjectId', rv_reviewer = reviewer', rv_status = RvPending, rv_summary = None,
       rv_createdAt = now, rv_completedAt = None\<rparr>)) (\<lambda>_. returnM i))))))))"

definition approve ::
  "services \<Rightarrow> string \<Rightarrow> string \<Rightarrow> governance_actor \<Rightarrow> string option \<Rightarrow> review_decision option
     \<Rightarrow> ('z governance_db_scheme world, string) command" where
  "approve sv p reviewId actor rationale decision =
     bindM (require_project p) (\<lambda>_.
     bindM (generate sv) (\<lambda>i.
     bindM (liftR (checked_actor actor ''Approval actor'')) (\<lambda>actor'.
     bindM (clock_now sv) (\<lambda>now.
     bindM (execDb (decideReview \<lparr>ap_id = i, ap_projectId = p, ap_reviewId = reviewId,
       ap_decision = (case decision of None \<Rightarrow> DecApproved | Some d \<Rightarrow> d), ap_actor = actor',
       ap_rationale = rationale, ap_createdAt = now\<rparr>)) (\<lambda>result.
     case result of
       NotFound \<Rightarrow> throwM (ReviewNotFoundError reviewId)
     | AlreadyFinalized \<Rightarrow> throwM (ReviewAlreadyFinalizedError reviewId)
     | Decided \<Rightarrow> returnM i)))))"

definition setStatus ::
  "services \<Rightarrow> string \<Rightarrow> string \<Rightarrow> gov_status \<Rightarrow> ('z governance_db_scheme world, unit) command" where
  "setStatus sv p i status =
     bindM (require_project p) (\<lambda>_.
     bindM (readDb (findStatus (gov_kind status) i p)) (\<lambda>found.
     case found of
       None \<Rightarrow> throwM (DomainValidationError (kind_str (gov_kind status) @ '' '' @ i @ '' not found''))
     | Some current \<Rightarrow>
     bindM (guardM (isGovernanceTransitionAllowed current status) (DomainValidationError
       (''Cannot transition '' @ kind_str (gov_kind status) @ '' from '' @ gov_status_str current @
        '' to '' @ gov_status_str status))) (\<lambda>_.
     bindM (clock_now sv) (\<lambda>now.
     bindM (execDb (updateStatus i p current status now)) (\<lambda>updated.
     guardM updated (modified_concurrently (kind_str (gov_kind status)) i))))))"


section \<open>Writes in any interleaving\<close>

text \<open>
  A generated identifier has no colon; the identifiers of creation, decision and status
  events are built with colons.
\<close>

definition colon_free :: "string \<Rightarrow> bool" where
  "colon_free s \<longleftrightarrow> CHR '':'' \<notin> set s"

text \<open>
  One write the service makes. A status write carries the status that was read, which may be
  stale by then, and a status the table allows from it.
\<close>

inductive gov_step :: "'z governance_db_scheme \<Rightarrow> 'z governance_db_scheme \<Rightarrow> bool" where
  milestone_created: "saveMilestone v db = ok ((), db') \<Longrightarrow> ms_status v = MsPlanned \<Longrightarrow>
     ms_archivedAt v = None \<Longrightarrow> gov_step db db'"
| milestone_title: "updateMilestoneTitle i p old title now e db = ok (True, db') \<Longrightarrow> colon_free e \<Longrightarrow>
     gov_step db db'"
| milestone_description: "updateMilestoneDescription i p old d now e db = ok (True, db') \<Longrightarrow> colon_free e \<Longrightarrow>
     gov_step db db'"
| requirement_created: "saveRequirement v db = ok ((), db') \<Longrightarrow> rq_status v = RqProposed \<Longrightarrow> gov_step db db'"
| requirement_text: "updateRequirementText i p expected t2 now e md db = ok (True, db') \<Longrightarrow> colon_free e \<Longrightarrow>
     gov_step db db'"
| requirement_milestone: "assignRequirementMilestone i p m now e md db = ok (True, db') \<Longrightarrow> colon_free e \<Longrightarrow>
     gov_step db db'"
| adr_created: "saveAdr v db = ok ((), db') \<Longrightarrow> ad_status v = AdProposed \<Longrightarrow> gov_step db db'"
| review_created: "saveReview v db = ok ((), db') \<Longrightarrow> rv_status v = RvPending \<Longrightarrow> gov_step db db'"
| review_decided: "decideReview v db = ok (Decided, db') \<Longrightarrow> gov_step db db'"
| status_changed: "updateStatus i p read s now db = ok (True, db') \<Longrightarrow>
     isGovernanceTransitionAllowed read s \<Longrightarrow> gov_step db db'"

inductive_cases gov_stepE: "gov_step db db'"

definition no_records :: "'z governance_db_scheme \<Rightarrow> bool" where
  "no_records db \<longleftrightarrow> gd_milestones db = [] \<and> gd_requirements db = [] \<and> gd_adrs db = []
     \<and> gd_reviews db = [] \<and> gd_approvals db = [] \<and> gd_events db = []"

inductive gov_reachable :: "'z governance_db_scheme \<Rightarrow> bool" where
  start: "no_records db \<Longrightarrow> gov_reachable db"
| step: "gov_reachable db \<Longrightarrow> gov_step db db' \<Longrightarrow> gov_reachable db'"

fun initial_status :: "governance_kind \<Rightarrow> gov_status" where
  "initial_status GMilestone = MilestoneSt MsPlanned"
| "initial_status GRequirement = RequirementSt RqProposed"
| "initial_status GAdr = AdrSt AdProposed"

text \<open>The status of a record, by its key, and its status events in the order they were written.\<close>

definition row_status :: "('r \<Rightarrow> string) \<Rightarrow> ('r \<Rightarrow> gov_status) \<Rightarrow> 'r list \<Rightarrow> string \<Rightarrow> gov_status option" where
  "row_status key g rows i = map_option g (find (\<lambda>r. key r = i) rows)"

fun current_status :: "governance_kind \<Rightarrow> string \<Rightarrow> 'z governance_db_scheme \<Rightarrow> gov_status option" where
  "current_status GMilestone i db = row_status ms_id (MilestoneSt \<circ> shown_status) (gd_milestones db) i"
| "current_status GRequirement i db = row_status rq_id (RequirementSt \<circ> rq_status) (gd_requirements db) i"
| "current_status GAdr i db = row_status ad_id (AdrSt \<circ> ad_status) (gd_adrs db) i"

definition is_status_event :: "governance_kind \<Rightarrow> string \<Rightarrow> gov_event \<Rightarrow> bool" where
  "is_status_event k i e \<longleftrightarrow> ge_eventType e = kind_str k @ ''.status_changed'' \<and> ge_aggregateId e = i"

definition status_events :: "governance_kind \<Rightarrow> string \<Rightarrow> 'z governance_db_scheme \<Rightarrow> gov_event list" where
  "status_events k i db = filter (is_status_event k i) (gd_events db)"

text \<open>
  The events lead from one status to another: each starts where the one before ended, and goes
  where the table allows.
\<close>

fun trail :: "gov_status \<Rightarrow> gov_event list \<Rightarrow> gov_status \<Rightarrow> bool" where
  "trail s [] c \<longleftrightarrow> s = c"
| "trail s (e # es) c \<longleftrightarrow> (\<exists>u \<in> set (governanceTransitions s).
     ge_metadata e = [(''from'', gov_status_str s), (''to'', gov_status_str u)]
     \<and> ge_id e = status_event_id (gov_kind u) (ge_aggregateId e) u \<and> trail u es c)"

section \<open>Lemmas: the lifecycle of governance records\<close>

fun gov_rank :: "gov_status \<Rightarrow> nat" where
  "gov_rank (MilestoneSt s) = (case s of MsPlanned \<Rightarrow> 0 | MsActive \<Rightarrow> 1 | MsCompleted \<Rightarrow> 2 | _ \<Rightarrow> 3)"
| "gov_rank (RequirementSt s) = (case s of RqProposed \<Rightarrow> 0 | RqAccepted \<Rightarrow> 1 | RqImplemented \<Rightarrow> 2 | _ \<Rightarrow> 3)"
| "gov_rank (AdrSt s) = (case s of AdProposed \<Rightarrow> 0 | AdAccepted \<Rightarrow> 1 | _ \<Rightarrow> 2)"

definition gov_terminal :: "gov_status \<Rightarrow> bool" where
  "gov_terminal s \<longleftrightarrow> s \<in> {MilestoneSt MsCancelled, MilestoneSt MsArchived, RequirementSt RqVerified,
     RequirementSt RqRejected, AdrSt AdRejected, AdrSt AdDeprecated, AdrSt AdSuperseded}"

lemma governanceTransitions_rank:
  "t \<in> set (governanceTransitions s) \<Longrightarrow> gov_rank s < gov_rank t \<and> gov_kind t = gov_kind s"
  by (cases s rule: governanceTransitions.cases) auto

interpretation gov_lc: ranked_lifecycle governanceTransitions gov_terminal gov_rank
proof unfold_locales
  show "gov_terminal s \<longleftrightarrow> governanceTransitions s = []" for s
    by (cases s rule: governanceTransitions.cases) (auto simp: gov_terminal_def)
  show "t \<in> set (governanceTransitions s) \<Longrightarrow> gov_rank s < gov_rank t" for s t
    using governanceTransitions_rank by blast
qed

lemma trail_snoc:
  assumes "trail s es c" and "u \<in> set (governanceTransitions c)"
  shows "trail s (es @ [status_event i p c u now]) u"
  using assms
proof (induction es arbitrary: s)
  case Nil
  then show ?case by (simp add: status_event_def governanceTransitions_rank)
next
  case (Cons e es)
  then show ?case by auto
qed

lemma trail_rank:
  assumes "trail s es c"
  shows "gov_rank s \<le> gov_rank c"
    and "e \<in> set es \<Longrightarrow> \<exists>u. ge_id e = status_event_id (gov_kind u) (ge_aggregateId e) u
      \<and> gov_kind u = gov_kind s \<and> gov_rank u \<le> gov_rank c"
  using assms
proof (induction es arbitrary: s)
  case (Cons x es)
  {
    case 1
    then show ?case using Cons.IH(1) governanceTransitions_rank by fastforce
  next
    case 2
    then obtain u where u: "u \<in> set (governanceTransitions s)"
        "ge_id x = status_event_id (gov_kind u) (ge_aggregateId x) u" "trail u es c" by auto
    show ?case
    proof (cases "e = x")
      case True
      then show ?thesis using u Cons.IH(1) [OF u(3)] governanceTransitions_rank [OF u(1)]
        by (intro exI [of _ u]) auto
    next
      case False
      then show ?thesis using 2(1) Cons.IH(2) [OF _ u(3)] governanceTransitions_rank [OF u(1)] by auto
    qed
  }
qed simp_all

section \<open>Lemmas: event identifiers\<close>

definition last_segment :: "string \<Rightarrow> string" where
  "last_segment s = rev (takeWhile (\<lambda>c. c \<noteq> CHR '':'') (rev s))"

lemma last_segment_append: "colon_free b \<Longrightarrow> last_segment (a @ CHR '':'' # b) = b"
  by (simp add: last_segment_def colon_free_def takeWhile_append)

lemma colon_free_status [simp]: "colon_free (gov_status_str s)"
  by (cases s rule: gov_status_str.cases) (simp_all add: colon_free_def)

lemma status_event_id_split:
  "status_event_id k i s = (kind_str k @ '':'' @ i @ '':status'') @ CHR '':'' # gov_status_str s"
  by (simp add: status_event_id_def)

lemma status_str_inj:
  "gov_kind s = gov_kind t \<Longrightarrow> gov_status_str s = gov_status_str t \<Longrightarrow> s = t"
  by (cases s rule: gov_status_str.cases; cases t rule: gov_status_str.cases) simp_all

lemma kind_prefix_inj:
  "kind_str k @ '':'' @ i = kind_str l @ '':'' @ j \<Longrightarrow> k = l \<and> i = j"
  by (cases k; cases l) simp_all

lemma status_event_id_inj:
  assumes "status_event_id k i s = status_event_id l j t" and "gov_kind s = k" and "gov_kind t = l"
  shows "k = l \<and> i = j \<and> s = t"
proof -
  have str: "gov_status_str s = gov_status_str t"
    using assms(1) unfolding status_event_id_split by (metis last_segment_append colon_free_status)
  then have "kind_str k @ '':'' @ i @ '':status'' = kind_str l @ '':'' @ j @ '':status''"
    using assms(1) unfolding status_event_id_split by simp
  then have "k = l \<and> i = j" using kind_prefix_inj [of k "i @ '':status''" l "j @ '':status''"] by simp
  then show ?thesis using status_str_inj str assms(2,3) by simp
qed

lemma not_status_event_id:
  "colon_free e \<Longrightarrow> e \<noteq> status_event_id k i s"
  "a @ '':created'' \<noteq> status_event_id k i s" "a @ '':decided'' \<noteq> status_event_id k i s"
proof -
  have seg: "last_segment (status_event_id k i s) = gov_status_str s"
    unfolding status_event_id_split by (simp only: last_segment_append colon_free_status)
  show "a @ '':created'' \<noteq> status_event_id k i s" "a @ '':decided'' \<noteq> status_event_id k i s"
    using seg last_segment_append [of "''created''" a] last_segment_append [of "''decided''" a]
    by (cases s rule: gov_status_str.cases; auto simp: colon_free_def)+
qed (auto simp: status_event_id_def colon_free_def)


section \<open>Lemmas: one write\<close>

lemma update_rows_one:
  assumes "distinct (map key rows)" and "\<forall>r. hit r \<longrightarrow> key r = i" and "\<And>r. key (f r) = key r"
    and "update_rows hit f rows = (1, rows')"
  obtains r where "find (\<lambda>x. key x = i) rows = Some r" "hit r" "map key rows' = map key rows"
    "\<forall>j. find (\<lambda>x. key x = j) rows' = (if j = i then Some (f r) else find (\<lambda>x. key x = j) rows)"
proof -
  have rows': "rows' = map (\<lambda>r. if hit r then f r else r) rows" and one: "length (filter hit rows) = 1"
    using assms(4) by (auto simp: update_rows_def)
  obtain r where "r \<in> set (filter hit rows)" using one by (cases "filter hit rows") auto
  then have r: "r \<in> set rows" "hit r" by auto
  have keys: "map key rows' = map key rows" unfolding rows' by (simp add: assms(3))
  have found: "find (\<lambda>x. key x = i) rows = Some r"
    using find_distinct [OF assms(1)] r assms(2) by blast
  have d': "distinct (map key rows')" using assms(1) keys by simp
  have "find (\<lambda>x. key x = j) rows' = (if j = i then Some (f r) else find (\<lambda>x. key x = j) rows)" for j
  proof (cases "j = i")
    case True
    have "f r \<in> set rows'" using r unfolding rows' by force
    then show ?thesis using True find_distinct [OF d', of i "f r"] assms(2,3) r(2) by simp
  next
    case False
    have "find (\<lambda>x. key x = j) (map (\<lambda>r. if hit r then f r else r) xs) = find (\<lambda>x. key x = j) xs" for xs
      using False assms(2,3) by (induction xs) auto
    then show ?thesis using False rows' by simp
  qed
  then show ?thesis using that [OF found r(2) keys] by simp
qed

definition gov_tables_ok :: "'z governance_db_scheme \<Rightarrow> bool" where
  "gov_tables_ok db \<longleftrightarrow> distinct (map ms_id (gd_milestones db)) \<and> distinct (map rq_id (gd_requirements db))
     \<and> distinct (map ad_id (gd_adrs db))
     \<and> (\<forall>m \<in> set (gd_milestones db). ms_archivedAt m \<noteq> None \<longrightarrow> ms_status m = MsCompleted)"

text \<open>What a write does to the statuses: a record appears, one status moves, or nothing.\<close>

definition records_kept :: "'z governance_db_scheme \<Rightarrow> 'z governance_db_scheme \<Rightarrow> bool" where
  "records_kept db db' \<longleftrightarrow> gov_tables_ok db' \<and> (\<forall>k i. current_status k i db' = current_status k i db)"

lemma appendEvent_ok:
  "appendEvent e db = ok db' \<longleftrightarrow> date_finite (ge_occurredAt e) \<and> project_exists db (ge_projectId e)
     \<and> ge_id e \<notin> ge_id ` set (gd_events db) \<and> db' = db\<lparr>gd_events := gd_events db @ [e]\<rparr>"
  by (auto simp: appendEvent_def iso_check_def)

lemma event_tables [simp]:
  "current_status k i (db\<lparr>gd_events := x\<rparr>) = current_status k i db"
  "gov_tables_ok (db\<lparr>gd_events := x\<rparr>) = gov_tables_ok db"
  by (cases k) (simp_all add: gov_tables_ok_def)

text \<open>A row that is new under its key.\<close>

lemma find_no_row: "k \<notin> key ` set rows \<Longrightarrow> find (\<lambda>x. key x = k) rows = None"
  by (auto simp: find_None_iff)

lemma find_new_row: "key v \<notin> key ` set rows \<Longrightarrow>
    find (\<lambda>x. key x = j) (rows @ [v]) = (if j = key v then Some v else find (\<lambda>x. key x = j) rows)"
  by (induction rows) (auto simp: image_iff)

lemma saveMilestone_ok:
  assumes "saveMilestone v db = ok (u, db')" and "gov_tables_ok db" and "ms_status v = MsPlanned" "ms_archivedAt v = None"
  shows "gov_tables_ok db'" and "current_status GMilestone (ms_id v) db = None"
    and "current_status k i db' = (if k = GMilestone \<and> i = ms_id v then Some (initial_status k) else current_status k i db)"
    and "\<exists>e. gd_events db' = gd_events db @ [e] \<and> ge_id e = ''milestone:'' @ ms_id v @ '':created''
      \<and> ge_eventType e = ''milestone.created''"
proof -
  have f: "ms_id v \<notin> ms_id ` set (gd_milestones db)"
    and db': "db' = db\<lparr>gd_milestones := gd_milestones db @ [v], gd_events := gd_events db @
      [created_event ''milestone'' (ms_id v) (ms_projectId v) [] (ms_createdAt v)]\<rparr>"
    using assms(1) by (auto simp: saveMilestone_def insert_checks_def result_simps appendEvent_ok split: if_splits)
  show "gov_tables_ok db'" using assms(2,4) f db' by (auto simp: gov_tables_ok_def)
  show "current_status GMilestone (ms_id v) db = None" using find_no_row [OF f] by (simp add: row_status_def)
  show "current_status k i db' = (if k = GMilestone \<and> i = ms_id v then Some (initial_status k) else current_status k i db)"
    using find_new_row [OF f] assms(3,4) db' by (cases k) (auto simp: shown_status_def row_status_def)
  show "\<exists>e. gd_events db' = gd_events db @ [e] \<and> ge_id e = ''milestone:'' @ ms_id v @ '':created''
      \<and> ge_eventType e = ''milestone.created''" using db' by (simp add: created_event_def)
qed

lemma saveRequirement_ok:
  assumes "saveRequirement v db = ok (u, db')" and "gov_tables_ok db" and "rq_status v = RqProposed"
  shows "gov_tables_ok db'" and "current_status GRequirement (rq_id v) db = None"
    and "current_status k i db' = (if k = GRequirement \<and> i = rq_id v then Some (initial_status k) else current_status k i db)"
    and "\<exists>e. gd_events db' = gd_events db @ [e] \<and> ge_id e = ''requirement:'' @ rq_id v @ '':created''
      \<and> ge_eventType e = ''requirement.created''"
proof -
  have f: "rq_id v \<notin> rq_id ` set (gd_requirements db)"
    and db': "db' = db\<lparr>gd_requirements := gd_requirements db @ [v], gd_events := gd_events db @
      [created_event ''requirement'' (rq_id v) (rq_projectId v) [(''key'', rq_key v)] (rq_createdAt v)]\<rparr>"
    using assms(1) by (auto simp: saveRequirement_def insert_checks_def result_simps appendEvent_ok split: if_splits)
  show "gov_tables_ok db'" using assms(2) f db' by (auto simp: gov_tables_ok_def)
  show "current_status GRequirement (rq_id v) db = None" using find_no_row [OF f] by (simp add: row_status_def)
  show "current_status k i db' = (if k = GRequirement \<and> i = rq_id v then Some (initial_status k) else current_status k i db)"
    using find_new_row [OF f] assms(3) db' by (cases k) (auto simp: row_status_def)
  show "\<exists>e. gd_events db' = gd_events db @ [e] \<and> ge_id e = ''requirement:'' @ rq_id v @ '':created''
      \<and> ge_eventType e = ''requirement.created''" using db' by (simp add: created_event_def)
qed

lemma saveAdr_ok:
  assumes "saveAdr v db = ok (u, db')" and "gov_tables_ok db" and "ad_status v = AdProposed"
  shows "gov_tables_ok db'" and "current_status GAdr (ad_id v) db = None"
    and "current_status k i db' = (if k = GAdr \<and> i = ad_id v then Some (initial_status k) else current_status k i db)"
    and "\<exists>e. gd_events db' = gd_events db @ [e] \<and> ge_id e = ''adr:'' @ ad_id v @ '':created''
      \<and> ge_eventType e = ''adr.created''"
proof -
  have f: "ad_id v \<notin> ad_id ` set (gd_adrs db)"
    and db': "db' = db\<lparr>gd_adrs := gd_adrs db @ [v], gd_events := gd_events db @
      [created_event ''adr'' (ad_id v) (ad_projectId v) [] (ad_createdAt v)]\<rparr>"
    using assms(1) by (auto simp: saveAdr_def insert_checks_def result_simps appendEvent_ok split: if_splits)
  show "gov_tables_ok db'" using assms(2) f db' by (auto simp: gov_tables_ok_def)
  show "current_status GAdr (ad_id v) db = None" using find_no_row [OF f] by (simp add: row_status_def)
  show "current_status k i db' = (if k = GAdr \<and> i = ad_id v then Some (initial_status k) else current_status k i db)"
    using find_new_row [OF f] assms(3) db' by (cases k) (auto simp: row_status_def)
  show "\<exists>e. gd_events db' = gd_events db @ [e] \<and> ge_id e = ''adr:'' @ ad_id v @ '':created''
      \<and> ge_eventType e = ''adr.created''" using db' by (simp add: created_event_def)
qed


text \<open>The statuses \<open>g\<close> of a table after the write of one row.\<close>

lemma update_rows_status:
  assumes "distinct (map key rows)" and "\<forall>r. hit r \<longrightarrow> key r = i" and "\<And>r. key (f r) = key r"
    and "update_rows hit f rows = (1, rows')"
  obtains r where "r \<in> set rows" "hit r" "map key rows' = map key rows" "set rows' \<subseteq> insert (f r) (set rows)"
    "row_status key g rows i = Some (g r)"
    "\<forall>j. row_status key g rows' j = (if j = i then Some (g (f r)) else row_status key g rows j)"
proof -
  obtain r where r: "find (\<lambda>x. key x = i) rows = Some r" "hit r" "map key rows' = map key rows"
    "\<forall>j. find (\<lambda>x. key x = j) rows' = (if j = i then Some (f r) else find (\<lambda>x. key x = j) rows)"
    by (rule update_rows_one [OF assms]) (rule that; assumption)
  have rin: "r \<in> set rows" using r(1) find_distinct [OF assms(1)] by blast
  have only: "x = r" if "x \<in> set rows" "hit x" for x
    using that rin r(2) assms(1,2) by (metis distinct_map inj_onD)
  have "set rows' \<subseteq> insert (f r) (set rows)"
    using assms(4) only by (auto simp: update_rows_def)
  then show ?thesis using that [of r] rin r by (simp add: row_status_def)
qed

lemma updateMilestone_kept:
  assumes "updateMilestone hit f now e db = ok (True, db')" and tab: "gov_tables_ok db"
    and "\<forall>m. hit m \<longrightarrow> ms_id m = i" and f: "\<And>m. ms_id (f m) = ms_id m"
      "\<And>m. ms_status (f m) = ms_status m \<and> ms_archivedAt (f m) = ms_archivedAt m"
  shows "records_kept db db'" and "gd_events db' = gd_events db @ [e]"
proof -
  obtain rows where rows: "update_rows hit f (gd_milestones db) = (1, rows)"
    and db': "db' = db\<lparr>gd_milestones := rows, gd_events := gd_events db @ [e]\<rparr>"
    using assms(1) by (auto simp: updateMilestone_def result_simps appendEvent_ok split: prod.splits if_splits)
  have dist: "distinct (map ms_id (gd_milestones db))" using tab by (simp add: gov_tables_ok_def)
  let ?g = "MilestoneSt \<circ> shown_status"
  have sh: "shown_status (f m) = shown_status m" for m using f(2) by (simp add: shown_status_def)
  obtain m where m: "m \<in> set (gd_milestones db)" "hit m" "map ms_id rows = map ms_id (gd_milestones db)"
      "set rows \<subseteq> insert (f m) (set (gd_milestones db))" "row_status ms_id ?g (gd_milestones db) i = Some (?g m)"
      "\<forall>j. row_status ms_id ?g rows j = (if j = i then Some (?g (f m)) else row_status ms_id ?g (gd_milestones db) j)"
    by (rule update_rows_status [OF dist assms(3) f(1) rows, where g = ?g]) (rule that; assumption)
  have "current_status k j db' = current_status k j db" for k j
    by (cases k) (use m(5,6) sh db' in simp_all)
  moreover have "ms_archivedAt r \<noteq> None \<longrightarrow> ms_status r = MsCompleted" if "r \<in> set rows" for r
    using that m(1,4) f(2) tab unfolding gov_tables_ok_def by (metis insertE subsetD)
  then have "gov_tables_ok db'" using tab m(3) db' by (simp add: gov_tables_ok_def)
  ultimately show "records_kept db db'" by (simp add: records_kept_def)
  show "gd_events db' = gd_events db @ [e]" using db' by simp
qed

lemma updateRequirement_kept:
  assumes "updateRequirement hit f now e db = ok (True, db')" and tab: "gov_tables_ok db"
    and "\<forall>m. hit m \<longrightarrow> rq_id m = i" and f: "\<And>m. rq_id (f m) = rq_id m" "\<And>m. rq_status (f m) = rq_status m"
  shows "records_kept db db'" and "gd_events db' = gd_events db @ [e]"
proof -
  obtain rows where rows: "update_rows hit f (gd_requirements db) = (1, rows)"
    and db': "db' = db\<lparr>gd_requirements := rows, gd_events := gd_events db @ [e]\<rparr>"
    using assms(1) by (auto simp: updateRequirement_def result_simps appendEvent_ok split: prod.splits if_splits)
  have dist: "distinct (map rq_id (gd_requirements db))" using tab by (simp add: gov_tables_ok_def)
  let ?g = "RequirementSt \<circ> rq_status"
  obtain m where m: "m \<in> set (gd_requirements db)" "hit m" "map rq_id rows = map rq_id (gd_requirements db)"
      "set rows \<subseteq> insert (f m) (set (gd_requirements db))" "row_status rq_id ?g (gd_requirements db) i = Some (?g m)"
      "\<forall>j. row_status rq_id ?g rows j = (if j = i then Some (?g (f m)) else row_status rq_id ?g (gd_requirements db) j)"
    by (rule update_rows_status [OF dist assms(3) f(1) rows, where g = ?g]) (rule that; assumption)
  have "current_status k j db' = current_status k j db" for k j
    by (cases k) (use m(5,6) f(2) db' in simp_all)
  moreover have "gov_tables_ok db'" using tab m(3) db' by (simp add: gov_tables_ok_def)
  ultimately show "records_kept db db'" by (simp add: records_kept_def)
  show "gd_events db' = gd_events db @ [e]" using db' by simp
qed

text \<open>A status write that changes a row found the status it expected and leaves the new one.\<close>

definition status_moved ::
  "string \<Rightarrow> gov_status \<Rightarrow> gov_status \<Rightarrow> 'z governance_db_scheme \<Rightarrow> 'z governance_db_scheme \<Rightarrow> bool" where
  "status_moved i read s db db1 \<longleftrightarrow> gov_tables_ok db1 \<and> current_status (gov_kind s) i db = Some read
     \<and> gd_events db1 = gd_events db \<and> db_projects db1 = db_projects db
     \<and> (\<forall>k j. current_status k j db1 = (if k = gov_kind s \<and> j = i then Some s else current_status k j db))"

lemma milestone_status_moved:
  assumes tab: "gov_tables_ok db" and one: "update_status_rows i p read (MilestoneSt x) now db = (1, db1)"
    and allowed: "MilestoneSt x \<in> set (governanceTransitions read)"
  shows "status_moved i read (MilestoneSt x) db db1"
proof -
  define hit where "hit = (if x = MsArchived
      then (\<lambda>m::milestone. ms_id m = i \<and> ms_projectId m = p \<and> ms_status m = MsCompleted \<and> ms_archivedAt m = None)
      else (\<lambda>m. ms_id m = i \<and> ms_projectId m = p \<and> MilestoneSt (ms_status m) = read))"
  define f where "f = (if x = MsArchived then (\<lambda>m::milestone. m\<lparr>ms_archivedAt := Some now, ms_updatedAt := now\<rparr>)
      else (\<lambda>m. m\<lparr>ms_status := x, ms_updatedAt := now\<rparr>))"
  obtain rows where rows: "update_rows hit f (gd_milestones db) = (1, rows)"
    and db1: "db1 = db\<lparr>gd_milestones := rows\<rparr>"
    using one by (cases "x = MsArchived") (auto simp: hit_def f_def split: prod.splits)
  have dist: "distinct (map ms_id (gd_milestones db))" using tab by (simp add: gov_tables_ok_def)
  let ?g = "MilestoneSt \<circ> shown_status"
  have hf: "\<forall>m. hit m \<longrightarrow> ms_id m = i" "ms_id (f m) = ms_id m" for m
    by (auto simp: hit_def f_def split: if_splits)
  obtain m where m: "m \<in> set (gd_milestones db)" "hit m" "map ms_id rows = map ms_id (gd_milestones db)"
      "set rows \<subseteq> insert (f m) (set (gd_milestones db))" "row_status ms_id ?g (gd_milestones db) i = Some (?g m)"
      "\<forall>j. row_status ms_id ?g rows j = (if j = i then Some (?g (f m)) else row_status ms_id ?g (gd_milestones db) j)"
    by (rule update_rows_status [OF dist hf rows, where g = ?g]) (rule that; assumption)
  have arch: "ms_archivedAt m = None \<or> ms_status m = MsCompleted" using tab m(1) by (auto simp: gov_tables_ok_def)
  have sh: "?g m = read" "?g (f m) = MilestoneSt x" "ms_archivedAt (f m) = None \<or> ms_status (f m) = MsCompleted"
    using allowed m(2) arch
    by (cases read rule: governanceTransitions.cases; auto simp: hit_def f_def shown_status_def split: if_splits)+
  have "ms_archivedAt r \<noteq> None \<longrightarrow> ms_status r = MsCompleted" if "r \<in> set rows" for r
    using that m(4) sh(3) tab unfolding gov_tables_ok_def by (metis insertE subsetD)
  then have "gov_tables_ok db1" using tab m(3) db1 by (simp add: gov_tables_ok_def)
  moreover have "current_status k j db1 = (if k = GMilestone \<and> j = i then Some (MilestoneSt x) else current_status k j db)" for k j
    by (cases k) (use m(6) sh(2) db1 in simp_all)
  moreover have "current_status GMilestone i db = Some read" by (simp only: current_status.simps m(5) sh(1))
  ultimately show ?thesis using db1 by (simp add: status_moved_def)
qed

lemma requirement_status_moved:
  assumes tab: "gov_tables_ok db" and one: "update_status_rows i p read (RequirementSt x) now db = (1, db1)"
  shows "status_moved i read (RequirementSt x) db db1"
proof -
  define hit where "hit = (\<lambda>r::requirement. rq_id r = i \<and> rq_projectId r = p \<and> RequirementSt (rq_status r) = read)"
  define f where "f = (\<lambda>r::requirement. r\<lparr>rq_status := x, rq_updatedAt := now\<rparr>)"
  obtain rows where rows: "update_rows hit f (gd_requirements db) = (1, rows)"
    and db1: "db1 = db\<lparr>gd_requirements := rows\<rparr>"
    using one by (auto simp: hit_def f_def split: prod.splits)
  have dist: "distinct (map rq_id (gd_requirements db))" using tab by (simp add: gov_tables_ok_def)
  let ?g = "RequirementSt \<circ> rq_status"
  have hf: "\<forall>m. hit m \<longrightarrow> rq_id m = i" "rq_id (f m) = rq_id m" for m by (auto simp: hit_def f_def)
  obtain m where m: "m \<in> set (gd_requirements db)" "hit m" "map rq_id rows = map rq_id (gd_requirements db)"
      "set rows \<subseteq> insert (f m) (set (gd_requirements db))" "row_status rq_id ?g (gd_requirements db) i = Some (?g m)"
      "\<forall>j. row_status rq_id ?g rows j = (if j = i then Some (?g (f m)) else row_status rq_id ?g (gd_requirements db) j)"
    by (rule update_rows_status [OF dist hf rows, where g = ?g]) (rule that; assumption)
  have sh: "?g m = read" "?g (f m) = RequirementSt x" using m(2) by (auto simp: hit_def f_def)
  have "current_status k j db1 = (if k = GRequirement \<and> j = i then Some (RequirementSt x) else current_status k j db)" for k j
    by (cases k) (use m(6) sh(2) db1 in simp_all)
  moreover have "current_status GRequirement i db = Some read" by (simp only: current_status.simps m(5) sh(1))
  ultimately show ?thesis using m(3) db1 tab by (simp add: status_moved_def gov_tables_ok_def)
qed

lemma adr_status_moved:
  assumes tab: "gov_tables_ok db" and one: "update_status_rows i p read (AdrSt x) now db = (1, db1)"
  shows "status_moved i read (AdrSt x) db db1"
proof -
  define hit where "hit = (\<lambda>r::adr. ad_id r = i \<and> ad_projectId r = p \<and> AdrSt (ad_status r) = read)"
  define f where "f = (\<lambda>r::adr. r\<lparr>ad_status := x, ad_updatedAt := now\<rparr>)"
  obtain rows where rows: "update_rows hit f (gd_adrs db) = (1, rows)" and db1: "db1 = db\<lparr>gd_adrs := rows\<rparr>"
    using one by (auto simp: hit_def f_def split: prod.splits)
  have dist: "distinct (map ad_id (gd_adrs db))" using tab by (simp add: gov_tables_ok_def)
  let ?g = "AdrSt \<circ> ad_status"
  have hf: "\<forall>m. hit m \<longrightarrow> ad_id m = i" "ad_id (f m) = ad_id m" for m by (auto simp: hit_def f_def)
  obtain m where m: "m \<in> set (gd_adrs db)" "hit m" "map ad_id rows = map ad_id (gd_adrs db)"
      "set rows \<subseteq> insert (f m) (set (gd_adrs db))" "row_status ad_id ?g (gd_adrs db) i = Some (?g m)"
      "\<forall>j. row_status ad_id ?g rows j = (if j = i then Some (?g (f m)) else row_status ad_id ?g (gd_adrs db) j)"
    by (rule update_rows_status [OF dist hf rows, where g = ?g]) (rule that; assumption)
  have sh: "?g m = read" "?g (f m) = AdrSt x" using m(2) by (auto simp: hit_def f_def)
  have "current_status k j db1 = (if k = GAdr \<and> j = i then Some (AdrSt x) else current_status k j db)" for k j
    by (cases k) (use m(6) sh(2) db1 in simp_all)
  moreover have "current_status GAdr i db = Some read" by (simp only: current_status.simps m(5) sh(1))
  ultimately show ?thesis using m(3) db1 tab by (simp add: status_moved_def gov_tables_ok_def)
qed

lemma update_status_moved:
  assumes "gov_tables_ok db" and "update_status_rows i p read s now db = (1, db1)"
    and "s \<in> set (governanceTransitions read)"
  shows "status_moved i read s db db1"
  using assms by (cases s) (simp_all only: milestone_status_moved requirement_status_moved adr_status_moved)


text \<open>An event that is not a status event, neither by its type nor by its identifier.\<close>

definition other_event :: "gov_event \<Rightarrow> bool" where
  "other_event e \<longleftrightarrow> (\<forall>k. ge_eventType e \<noteq> kind_str k @ ''.status_changed'')
     \<and> (\<forall>k i s. ge_id e \<noteq> status_event_id k i s)"

lemma other_eventI:
  "ge_eventType e \<in> {''milestone.created'', ''requirement.created'', ''adr.created'', ''review.created'',
     ''milestone.title_changed'', ''milestone.description_changed'', ''requirement.updated'', ''review.decided''} \<Longrightarrow>
   colon_free (ge_id e) \<or> (\<exists>a. ge_id e = a @ '':created'') \<or> (\<exists>a. ge_id e = a @ '':decided'') \<Longrightarrow>
   other_event e"
  unfolding other_event_def
proof (intro conjI allI)
  fix k
  assume "ge_eventType e \<in> {''milestone.created'', ''requirement.created'', ''adr.created'', ''review.created'',
     ''milestone.title_changed'', ''milestone.description_changed'', ''requirement.updated'', ''review.decided''}"
  then show "ge_eventType e \<noteq> kind_str k @ ''.status_changed''" by (cases k) auto
qed (use not_status_event_id in metis)

lemma other_createdI:
  assumes "ge_eventType e \<in> {''milestone.created'', ''requirement.created'', ''adr.created''}"
    and "ge_id e = a @ b @ '':created''"
  shows "other_event e"
proof (rule other_eventI)
  have "ge_id e = (a @ b) @ '':created''" using assms(2) by simp
  then show "colon_free (ge_id e) \<or> (\<exists>a. ge_id e = a @ '':created'') \<or> (\<exists>a. ge_id e = a @ '':decided'')" by blast
qed (use assms(1) in auto)

lemma saveReview_kept:
  assumes "saveReview v db = ok (u, db')" and "gov_tables_ok db"
  shows "records_kept db db' \<and> (\<exists>e. gd_events db' = gd_events db @ [e] \<and> other_event e)"
proof -
  let ?e = "created_event ''review'' (rv_id v) (rv_projectId v)
    [(''subjectType'', subject_str (rv_subjectType v)), (''subjectId'', rv_subjectId v)] (rv_createdAt v)"
  have db': "db' = db\<lparr>gd_reviews := gd_reviews db @ [v], gd_events := gd_events db @ [?e]\<rparr>"
    using assms(1) by (auto simp: saveReview_def insert_checks_def result_simps appendEvent_ok split: if_splits)
  have "ge_id ?e = (''review:'' @ rv_id v) @ '':created''" by (simp add: created_event_def)
  then have "other_event ?e" by (intro other_eventI) (auto simp: created_event_def)
  moreover have "current_status k i db' = current_status k i db" for k i using db' by (cases k) simp_all
  ultimately show ?thesis using assms(2) db' by (auto simp: records_kept_def gov_tables_ok_def)
qed

text \<open>What the trigger \<open>approval_finalize_review\<close> does to a row of \<open>review\<close>.\<close>

definition finalized :: "approval \<Rightarrow> review \<Rightarrow> review" where
  "finalized v r = (if (rv_id r = ap_reviewId v \<and> rv_projectId r = ap_projectId v) \<and> rv_status r = RvPending
     then r\<lparr>rv_status := decision_status (ap_decision v), rv_completedAt := Some (ap_createdAt v)\<rparr> else r)"

lemma decideReview_ok:
  assumes "decideReview v db = ok (Decided, db')"
  obtains r e where "find (\<lambda>r. rv_id r = ap_reviewId v \<and> rv_projectId r = ap_projectId v) (gd_reviews db) = Some r"
    "rv_status r = RvPending" "ap_reviewId v \<notin> ap_reviewId ` set (gd_approvals db)" "other_event e"
    "db' = db\<lparr>gd_approvals := gd_approvals db @ [v], gd_reviews := map (finalized v) (gd_reviews db),
       gd_events := gd_events db @ [e]\<rparr>"
proof -
  let ?e = "\<lparr>ge_id = ''review:'' @ ap_reviewId v @ '':decided'', ge_projectId = ap_projectId v,
    ge_eventType = ''review.decided'', ge_aggregateId = ap_reviewId v,
    ge_metadata = [(''decision'', decision_str (ap_decision v))], ge_occurredAt = ap_createdAt v\<rparr>"
  have "ge_id ?e = (''review:'' @ ap_reviewId v) @ '':decided''" by simp
  then have e: "other_event ?e" by (intro other_eventI) auto
  show ?thesis
    using assms that [OF _ _ _ e] by (auto simp: decideReview_def Let_def insert_checks_def result_simps
        appendEvent_ok update_rows_def finalized_def [abs_def] split: option.splits if_splits)
qed

text \<open>The effect of one write on the records and the event log.\<close>

lemma gov_step_effect:
  assumes step: "gov_step db db'" and tab: "gov_tables_ok db"
  obtains (Kept) e where "records_kept db db'" "gd_events db' = gd_events db @ [e]" "other_event e"
  | (Created) k i e where "gov_tables_ok db'" "current_status k i db = None"
      "\<forall>l j. current_status l j db' = (if l = k \<and> j = i then Some (initial_status k) else current_status l j db)"
      "gd_events db' = gd_events db @ [e]" "other_event e"
  | (Moved) i p read s now db1 where "status_moved i read s db db1" "s \<in> set (governanceTransitions read)"
      "db' = db1\<lparr>gd_events := gd_events db @ [status_event i p read s now]\<rparr>"
  using step
proof cases
  case (milestone_created v)
  note s = saveMilestone_ok [OF milestone_created(1) tab milestone_created(2,3)]
  obtain e where e: "gd_events db' = gd_events db @ [e]" "ge_id e = ''milestone:'' @ ms_id v @ '':created''"
      "ge_eventType e = ''milestone.created''" using s(4) by blast
  have "other_event e" by (rule other_createdI [OF _ e(2)]) (simp add: e(3))
  then show ?thesis using Created [OF s(1,2) _ e(1)] s(3) by auto
next
  case (requirement_created v)
  note s = saveRequirement_ok [OF requirement_created(1) tab requirement_created(2)]
  obtain e where e: "gd_events db' = gd_events db @ [e]" "ge_id e = ''requirement:'' @ rq_id v @ '':created''"
      "ge_eventType e = ''requirement.created''" using s(4) by blast
  have "other_event e" by (rule other_createdI [OF _ e(2)]) (simp add: e(3))
  then show ?thesis using Created [OF s(1,2) _ e(1)] s(3) by auto
next
  case (adr_created v)
  note s = saveAdr_ok [OF adr_created(1) tab adr_created(2)]
  obtain e where e: "gd_events db' = gd_events db @ [e]" "ge_id e = ''adr:'' @ ad_id v @ '':created''"
      "ge_eventType e = ''adr.created''" using s(4) by blast
  have "other_event e" by (rule other_createdI [OF _ e(2)]) (simp add: e(3))
  then show ?thesis using Created [OF s(1,2) _ e(1)] s(3) by auto
next
  case (milestone_title i p old title now e)
  note k = updateMilestone_kept [OF milestone_title(1) [unfolded updateMilestoneTitle_def] tab, of i]
  show ?thesis by (rule Kept [OF k(1) k(2)]) (use milestone_title(2) in \<open>auto intro!: other_eventI\<close>)
next
  case (milestone_description i p old d now e)
  note k = updateMilestone_kept [OF milestone_description(1) [unfolded updateMilestoneDescription_def] tab, of i]
  show ?thesis by (rule Kept [OF k(1) k(2)]) (use milestone_description(2) in \<open>auto intro!: other_eventI\<close>)
next
  case (requirement_text i p expected t2 now e md)
  note k = updateRequirement_kept [OF requirement_text(1) [unfolded updateRequirementText_def] tab, of i]
  show ?thesis by (rule Kept [OF k(1) k(2)])
    (use requirement_text(2) in \<open>auto intro!: other_eventI simp: requirement_updated_def\<close>)
next
  case (requirement_milestone i p m now e md)
  note k = updateRequirement_kept [OF requirement_milestone(1) [unfolded assignRequirementMilestone_def] tab, of i]
  show ?thesis by (rule Kept [OF k(1) k(2)])
    (use requirement_milestone(2) in \<open>auto intro!: other_eventI simp: requirement_updated_def\<close>)
next
  case (review_created v)
  then show ?thesis using saveReview_kept [OF review_created(1) tab] Kept by blast
next
  case (review_decided v)
  then obtain e rs where e: "other_event e"
      "db' = db\<lparr>gd_approvals := gd_approvals db @ [v], gd_reviews := rs, gd_events := gd_events db @ [e]\<rparr>"
    by (rule decideReview_ok) blast
  have "current_status k i db' = current_status k i db" for k i using e(2) by (cases k) simp_all
  then have "records_kept db db'" using tab e(2) by (simp add: records_kept_def gov_tables_ok_def)
  then show ?thesis using Kept e by simp
next
  case (status_changed i p read s now)
  obtain db1 where u: "update_status_rows i p read s now db = (1, db1)"
      "appendEvent (status_event i p read s now) db1 = ok db'"
    using status_changed(1) by (auto simp: updateStatus_def Let_def result_simps split: prod.splits if_splits)
  have al: "s \<in> set (governanceTransitions read)"
    using status_changed(2) by (simp add: isGovernanceTransitionAllowed_def)
  have m: "status_moved i read s db db1" by (rule update_status_moved [OF tab u(1) al])
  show ?thesis by (rule Moved [OF m al]) (use u(2) m in \<open>auto simp: appendEvent_ok status_moved_def\<close>)
qed


section \<open>Lemmas: the audit trail\<close>

definition trail_ok :: "governance_kind \<Rightarrow> string \<Rightarrow> 'z governance_db_scheme \<Rightarrow> bool" where
  "trail_ok k i db \<longleftrightarrow> (case current_status k i db of
     None \<Rightarrow> status_events k i db = []
   | Some c \<Rightarrow> trail (initial_status k) (status_events k i db) c)"

definition id_ok :: "gov_event \<Rightarrow> bool" where
  "id_ok e \<longleftrightarrow> (\<forall>i s. ge_id e = status_event_id (gov_kind s) i s \<longrightarrow> is_status_event (gov_kind s) i e)"

definition gov_inv :: "'z governance_db_scheme \<Rightarrow> bool" where
  "gov_inv db \<longleftrightarrow> gov_tables_ok db \<and> (\<forall>k i. trail_ok k i db) \<and> (\<forall>e \<in> set (gd_events db). id_ok e)"

lemma status_events_snoc:
  "gd_events db' = gd_events db @ [e] \<Longrightarrow>
   status_events k i db' = status_events k i db @ (if is_status_event k i e then [e] else [])"
  by (simp add: status_events_def)

lemma other_event_not_status: "other_event e \<Longrightarrow> \<not> is_status_event k i e"
  by (simp add: other_event_def is_status_event_def)

lemma kind_str_inj: "kind_str k = kind_str l \<Longrightarrow> k = l"
  by (cases k; cases l) simp_all

lemma is_status_event_status_event [simp]:
  "is_status_event k j (status_event i p read s now) \<longleftrightarrow> k = gov_kind s \<and> j = i"
  using kind_str_inj by (auto simp: is_status_event_def status_event_def)

lemma gov_inv_trail:
  "gov_inv db \<Longrightarrow> current_status k i db = Some c \<Longrightarrow> trail (initial_status k) (status_events k i db) c"
  unfolding gov_inv_def trail_ok_def by (metis option.case(2))

lemma gov_inv_other:
  assumes inv: "gov_inv db" and ev: "gd_events db' = gd_events db @ [e]" "other_event e" and "gov_tables_ok db'"
    and cur: "\<forall>l j. current_status l j db' = current_status l j db
      \<or> current_status l j db = None \<and> current_status l j db' = Some (initial_status l)"
  shows "gov_inv db'"
proof -
  have se: "status_events k i db' = status_events k i db" for k i
    using status_events_snoc [OF ev(1)] other_event_not_status [OF ev(2)] by simp
  have "trail_ok k i db'" for k i
  proof (cases "current_status k i db' = current_status k i db")
    case True
    moreover have "trail_ok k i db" using inv by (simp add: gov_inv_def)
    ultimately show ?thesis by (simp add: trail_ok_def se split: option.splits)
  next
    case False
    then have "current_status k i db = None" "current_status k i db' = Some (initial_status k)" using cur by blast+
    moreover have "trail_ok k i db" using inv by (simp add: gov_inv_def)
    ultimately show ?thesis by (simp add: trail_ok_def se split: option.splits)
  qed
  moreover have "id_ok e" using ev(2) by (simp add: other_event_def id_ok_def)
  ultimately show ?thesis using inv assms(4) ev(1) by (simp add: gov_inv_def)
qed

lemma initial_kind: "trail s es c \<Longrightarrow> gov_kind c = gov_kind s"
  by (induction es arbitrary: s) (auto dest: governanceTransitions_rank)

lemma gov_inv_moved:
  assumes inv: "gov_inv db" and mv: "status_moved i read s db db1" and al: "s \<in> set (governanceTransitions read)"
    and db': "db' = db1\<lparr>gd_events := gd_events db @ [status_event i p read s now]\<rparr>"
  shows "gov_inv db'"
proof -
  let ?e = "status_event i p read s now"
  have ev: "gd_events db' = gd_events db @ [?e]" using db' by simp
  have cur: "current_status k j db' = (if k = gov_kind s \<and> j = i then Some s else current_status k j db)" for k j
    using mv db' by (simp add: status_moved_def)
  have tr: "trail_ok k j db'" for k j
  proof (cases "k = gov_kind s \<and> j = i")
    case True
    have "trail (initial_status k) (status_events k i db) read"
      using inv mv True by (simp add: gov_inv_trail status_moved_def)
    then show ?thesis using True cur status_events_snoc [OF ev, of k i] trail_snoc [OF _ al] by (simp add: trail_ok_def)
  next
    case False
    then have "status_events k j db' = status_events k j db" "current_status k j db' = current_status k j db"
      using cur status_events_snoc [OF ev, of k j] by auto
    moreover have "trail_ok k j db" using inv by (simp add: gov_inv_def)
    ultimately show ?thesis by (simp add: trail_ok_def split: option.splits)
  qed
  have "is_status_event (gov_kind t) j ?e" if "ge_id ?e = status_event_id (gov_kind t) j t" for t j
    using status_event_id_inj [of "gov_kind s" i s "gov_kind t" j t] that by (auto simp: status_event_def is_status_event_def)
  then have "id_ok ?e" by (simp add: id_ok_def)
  moreover have "gov_tables_ok db'" using mv db' by (simp add: status_moved_def)
  ultimately show ?thesis using tr inv ev by (simp add: gov_inv_def)
qed

lemma gov_inv_step:
  assumes "gov_inv db" and "gov_step db db'"
  shows "gov_inv db'"
proof -
  have tab: "gov_tables_ok db" using assms(1) by (simp add: gov_inv_def)
  show ?thesis
  proof (rule gov_step_effect [OF assms(2) tab])
    fix e assume "records_kept db db'" "gd_events db' = gd_events db @ [e]" "other_event e"
    then show ?thesis by (intro gov_inv_other [OF assms(1)]) (auto simp: records_kept_def)
  next
    fix k i e
    assume "gov_tables_ok db'" "current_status k i db = None" "gd_events db' = gd_events db @ [e]" "other_event e"
      "\<forall>l j. current_status l j db' = (if l = k \<and> j = i then Some (initial_status k) else current_status l j db)"
    then show ?thesis by (intro gov_inv_other [OF assms(1)]) auto
  qed (rule gov_inv_moved [OF assms(1)])
qed

lemma gov_inv_reachable: "gov_reachable db \<Longrightarrow> gov_inv db"
proof (induction rule: gov_reachable.induct)
  case (start db)
  have "current_status k i db = None" for k i
    using start by (cases k) (simp_all add: no_records_def row_status_def)
  then show ?case using start by (simp add: gov_inv_def no_records_def gov_tables_ok_def status_events_def trail_ok_def)
next
  case (step db db')
  then show ?case using gov_inv_step by blast
qed


lemma status_event_id_fresh:
  assumes inv: "gov_inv db" and cur: "current_status (gov_kind s) i db = Some c"
    and al: "s \<in> set (governanceTransitions c)"
  shows "status_event_id (gov_kind s) i s \<notin> ge_id ` set (gd_events db)"
proof
  assume "status_event_id (gov_kind s) i s \<in> ge_id ` set (gd_events db)"
  then obtain e where e: "e \<in> set (gd_events db)" "ge_id e = status_event_id (gov_kind s) i s" by auto
  have "is_status_event (gov_kind s) i e" using inv e by (simp add: gov_inv_def id_ok_def)
  then have mem: "e \<in> set (status_events (gov_kind s) i db)" and agg: "ge_aggregateId e = i"
    using e(1) by (simp_all add: status_events_def is_status_event_def)
  obtain u where u: "ge_id e = status_event_id (gov_kind u) i u" "gov_rank u \<le> gov_rank c"
    using trail_rank(2) [OF gov_inv_trail [OF inv cur] mem] agg by auto
  then have "u = s" using status_event_id_inj e(2) by metis
  then show False using u(2) governanceTransitions_rank [OF al] by simp
qed

text \<open>The status the service reads is the current one, and the write finds exactly that row.\<close>

lemma filter_hit_one:
  assumes "distinct (map key rows)" and "\<forall>r. hit r \<longrightarrow> key r = i" and "r \<in> set rows" "hit r"
  shows "length (filter hit rows) = 1"
proof -
  have "distinct (map key (filter hit rows))" using assms(1) by (simp add: distinct_map_filter)
  moreover have "set (filter hit rows) = {r}"
    using assms by (auto simp: distinct_map dest: inj_onD)
  ultimately show ?thesis
    by (metis distinct_map distinct_card card.empty card_insert_disjoint finite.emptyI empty_iff One_nat_def)
qed

lemma find_in_project:
  assumes "distinct (map key rows)" and "find (\<lambda>r. key r = i \<and> proj r = p) rows = Some m"
  shows "m \<in> set rows" "key m = i" "proj m = p" "find (\<lambda>r. key r = i) rows = Some m"
proof -
  show m: "m \<in> set rows" "key m = i" "proj m = p" using assms(2) by (auto simp: find_Some_iff)
  show "find (\<lambda>r. key r = i) rows = Some m" using find_distinct [OF assms(1)] m by blast
qed

lemma updateStatus_hits:
  assumes tab: "gov_tables_ok db" and fs: "findStatus (gov_kind s) i p db = Some c"
    and al: "s \<in> set (governanceTransitions c)"
  shows "current_status (gov_kind s) i db = Some c" and "fst (update_status_rows i p c s now db) = 1"
proof -
  have "current_status (gov_kind s) i db = Some c \<and> fst (update_status_rows i p c s now db) = 1"
  proof (cases s)
    case (MilestoneSt x)
    then obtain m where f: "find (\<lambda>m. ms_id m = i \<and> ms_projectId m = p) (gd_milestones db) = Some m"
      and c: "c = MilestoneSt (shown_status m)" using fs by auto
    have dist: "distinct (map ms_id (gd_milestones db))" using tab by (simp add: gov_tables_ok_def)
    note m = find_in_project [OF dist f]
    have live: "ms_archivedAt m = None" "c = MilestoneSt (ms_status m)" "x = MsArchived \<Longrightarrow> ms_status m = MsCompleted"
      using al c MilestoneSt by (cases c rule: governanceTransitions.cases; auto simp: shown_status_def split: if_splits)+
    have "length (filter (\<lambda>m. ms_id m = i \<and> ms_projectId m = p \<and> MilestoneSt (ms_status m) = c) (gd_milestones db)) = 1"
      by (rule filter_hit_one [OF dist _ m(1), of _ i]) (simp_all add: m(2,3) live(2))
    moreover have "length (filter (\<lambda>m. ms_id m = i \<and> ms_projectId m = p \<and> ms_status m = MsCompleted
        \<and> ms_archivedAt m = None) (gd_milestones db)) = 1" if "x = MsArchived"
      by (rule filter_hit_one [OF dist _ m(1), of _ i]) (simp_all add: m(2,3) live(1,3) that)
    moreover have "current_status (gov_kind s) i db = Some c" using m(4) c MilestoneSt by (simp add: row_status_def)
    ultimately show ?thesis
      by (cases "x = MsArchived") (simp_all only: MilestoneSt update_status_rows.simps update_rows_def Let_def
          split_beta fst_conv if_True if_False simp_thms)
  next
    case (RequirementSt x)
    then obtain m where f: "find (\<lambda>m. rq_id m = i \<and> rq_projectId m = p) (gd_requirements db) = Some m"
      and c: "c = RequirementSt (rq_status m)" using fs by auto
    have dist: "distinct (map rq_id (gd_requirements db))" using tab by (simp add: gov_tables_ok_def)
    note m = find_in_project [OF dist f]
    have "length (filter (\<lambda>m. rq_id m = i \<and> rq_projectId m = p \<and> RequirementSt (rq_status m) = c) (gd_requirements db)) = 1"
      by (rule filter_hit_one [OF dist _ m(1), of _ i]) (simp_all add: m(2,3) c)
    moreover have "current_status (gov_kind s) i db = Some c" using m(4) c RequirementSt by (simp add: row_status_def)
    ultimately show ?thesis by (simp only: RequirementSt update_status_rows.simps update_rows_def Let_def split_beta fst_conv simp_thms)
  next
    case (AdrSt x)
    then obtain m where f: "find (\<lambda>m. ad_id m = i \<and> ad_projectId m = p) (gd_adrs db) = Some m"
      and c: "c = AdrSt (ad_status m)" using fs by auto
    have dist: "distinct (map ad_id (gd_adrs db))" using tab by (simp add: gov_tables_ok_def)
    note m = find_in_project [OF dist f]
    have "length (filter (\<lambda>m. ad_id m = i \<and> ad_projectId m = p \<and> AdrSt (ad_status m) = c) (gd_adrs db)) = 1"
      by (rule filter_hit_one [OF dist _ m(1), of _ i]) (simp_all add: m(2,3) c)
    moreover have "current_status (gov_kind s) i db = Some c" using m(4) c AdrSt by (simp add: row_status_def)
    ultimately show ?thesis by (simp only: AdrSt update_status_rows.simps update_rows_def Let_def split_beta fst_conv simp_thms)
  qed
  then show "current_status (gov_kind s) i db = Some c" "fst (update_status_rows i p c s now db) = 1" by simp_all
qed


section \<open>Lemmas: reviews\<close>

text \<open>A review is pending exactly as long as no approval names it; then it shows the decision.\<close>

definition review_ok :: "approval list \<Rightarrow> review \<Rightarrow> bool" where
  "review_ok as r \<longleftrightarrow> (case find (\<lambda>a. ap_reviewId a = rv_id r) as of
     None \<Rightarrow> rv_status r = RvPending
   | Some a \<Rightarrow> ap_projectId a = rv_projectId r \<and> rv_status r = decision_status (ap_decision a)
       \<and> rv_completedAt r = Some (ap_createdAt a))"

definition reviews_inv :: "'z governance_db_scheme \<Rightarrow> bool" where
  "reviews_inv db \<longleftrightarrow> distinct (map rv_id (gd_reviews db)) \<and> distinct (map ap_reviewId (gd_approvals db))
     \<and> ap_reviewId ` set (gd_approvals db) \<subseteq> rv_id ` set (gd_reviews db)
     \<and> (\<forall>r \<in> set (gd_reviews db). review_ok (gd_approvals db) r)"

lemma decision_status_decided [simp]: "decision_status d \<noteq> RvPending"
  by (cases d) simp_all

lemma status_rows_reviews:
  "update_status_rows i p read s now db = (n, db1) \<Longrightarrow>
   gd_reviews db1 = gd_reviews db \<and> gd_approvals db1 = gd_approvals db"
  by (cases s) (auto split: prod.splits if_splits)

lemmas write_defs = saveMilestone_def saveRequirement_def saveAdr_def updateMilestone_def updateRequirement_def
  updateMilestoneTitle_def updateMilestoneDescription_def updateRequirementText_def
  assignRequirementMilestone_def updateStatus_def

lemma gov_step_reviews:
  assumes "gov_step db db'"
  obtains (Same) "gd_reviews db' = gd_reviews db" "gd_approvals db' = gd_approvals db"
  | (New) v where "gd_reviews db' = gd_reviews db @ [v]" "gd_approvals db' = gd_approvals db"
      "rv_id v \<notin> rv_id ` set (gd_reviews db)" "rv_status v = RvPending"
  | (Dec) v r where "find (\<lambda>r. rv_id r = ap_reviewId v \<and> rv_projectId r = ap_projectId v) (gd_reviews db) = Some r"
      "rv_status r = RvPending" "ap_reviewId v \<notin> ap_reviewId ` set (gd_approvals db)"
      "gd_approvals db' = gd_approvals db @ [v]"
      "gd_reviews db' = map (finalized v) (gd_reviews db)"
  using assms
proof cases
  case (review_created v)
  then show ?thesis
    by (intro New) (auto simp: saveReview_def insert_checks_def result_simps appendEvent_ok split: if_splits)
next
  case (review_decided v)
  then show ?thesis by (rule decideReview_ok) (rule Dec [of v]; simp)
next
  case (status_changed i p read s now)
  then show ?thesis
    by (intro Same) (auto simp: updateStatus_def Let_def result_simps appendEvent_ok dest: status_rows_reviews
        split: prod.splits if_splits)
qed (rule Same; auto simp: write_defs result_simps appendEvent_ok milestone_ownership_def
       split: if_splits option.splits prod.splits)+

lemma reviews_inv_new:
  assumes inv: "reviews_inv db" and "gd_reviews db' = gd_reviews db @ [v]" "gd_approvals db' = gd_approvals db"
    and new: "rv_id v \<notin> rv_id ` set (gd_reviews db)" "rv_status v = RvPending"
  shows "reviews_inv db'"
proof -
  have "rv_id v \<notin> ap_reviewId ` set (gd_approvals db)" using inv new(1) by (auto simp: reviews_inv_def)
  then have "review_ok (gd_approvals db) v" using new(2) by (simp add: review_ok_def find_no_row)
  then show ?thesis using assms by (auto simp: reviews_inv_def)
qed

lemma reviews_inv_decided:
  assumes inv: "reviews_inv db"
    and f: "find (\<lambda>r. rv_id r = ap_reviewId v \<and> rv_projectId r = ap_projectId v) (gd_reviews db) = Some r"
    and free: "ap_reviewId v \<notin> ap_reviewId ` set (gd_approvals db)"
    and ap: "gd_approvals db' = gd_approvals db @ [v]"
    and rv: "gd_reviews db' = map (finalized v) (gd_reviews db)"
  shows "reviews_inv db'"
proof -
  have dist: "distinct (map rv_id (gd_reviews db))" using inv by (simp add: reviews_inv_def)
  note r = find_in_project [OF dist f]
  have ids: "map rv_id (gd_reviews db') = map rv_id (gd_reviews db)" unfolding rv by (simp add: finalized_def)
  have one: "x = r" if "x \<in> set (gd_reviews db)" "rv_id x = ap_reviewId v" for x
    using that r(1,2) dist by (metis distinct_map inj_onD)
  have "review_ok (gd_approvals db') (finalized v x)" if x: "x \<in> set (gd_reviews db)" for x
  proof -
    have old: "review_ok (gd_approvals db) x" using inv x by (simp add: reviews_inv_def)
    have fx: "find (\<lambda>a. ap_reviewId a = rv_id x) (gd_approvals db') =
        (if rv_id x = ap_reviewId v then Some v else find (\<lambda>a. ap_reviewId a = rv_id x) (gd_approvals db))"
      unfolding ap by (rule find_new_row [OF free])
    show ?thesis
    proof (cases "rv_id x = ap_reviewId v")
      case True
      have none: "find (\<lambda>a. ap_reviewId a = rv_id x) (gd_approvals db) = None"
        using find_no_row [OF free] True by simp
      then have "rv_status x = RvPending" using old by (simp add: review_ok_def)
      moreover have "rv_projectId x = ap_projectId v" using one [OF x True] r(3) by simp
      ultimately show ?thesis using True fx by (simp add: review_ok_def finalized_def)
    next
      case False
      then show ?thesis using old fx by (simp add: review_ok_def finalized_def)
    qed
  qed
  then have all: "\<forall>x \<in> set (gd_reviews db'). review_ok (gd_approvals db') x" unfolding rv by simp
  have "rv_id ` set (gd_reviews db') = rv_id ` set (gd_reviews db)" using ids by (metis list.set_map)
  moreover have "ap_reviewId v \<in> rv_id ` set (gd_reviews db)" using r(1,2) by force
  ultimately show ?thesis using inv all ids free ap by (simp add: reviews_inv_def)
qed

lemma reviews_inv_step:
  assumes "reviews_inv db" and "gov_step db db'"
  shows "reviews_inv db'" and "r \<in> set (gd_reviews db) \<Longrightarrow> rv_status r \<noteq> RvPending \<Longrightarrow> r \<in> set (gd_reviews db')"
    and "set (gd_approvals db) \<subseteq> set (gd_approvals db')"
proof -
  show "reviews_inv db'"
  proof (rule gov_step_reviews [OF assms(2)])
    assume "gd_reviews db' = gd_reviews db" "gd_approvals db' = gd_approvals db"
    then show ?thesis using assms(1) by (simp add: reviews_inv_def)
  qed (rule reviews_inv_new [OF assms(1)] reviews_inv_decided [OF assms(1)]; assumption)+
  show "r \<in> set (gd_reviews db')" if "r \<in> set (gd_reviews db)" "rv_status r \<noteq> RvPending"
    by (rule gov_step_reviews [OF assms(2)]) (use that in \<open>force simp: finalized_def\<close>)+
  show "set (gd_approvals db) \<subseteq> set (gd_approvals db')" by (rule gov_step_reviews [OF assms(2)]) auto
qed

lemma reviews_inv_reachable: "gov_reachable db \<Longrightarrow> reviews_inv db"
proof (induction rule: gov_reachable.induct)
  case (start db)
  then show ?case by (simp add: no_records_def reviews_inv_def)
next
  case (step db db')
  then show ?case using reviews_inv_step(1) by blast
qed


section \<open>Lemmas: a command makes at most one write\<close>

text \<open>
  \<open>writes R m\<close>: the command \<open>m\<close> leaves the database alone, or returns after exactly one
  write related by \<open>R\<close>.
\<close>

definition writes :: "('db \<Rightarrow> 'db \<Rightarrow> bool) \<Rightarrow> ('db world, 'a) command \<Rightarrow> bool" where
  "writes R m \<longleftrightarrow> (\<forall>w r w'. m w = (r, w') \<longrightarrow>
     w_db w' = w_db w \<or> (\<exists>x. r = ok x) \<and> R (w_db w) (w_db w'))"

named_theorems writes_intros

lemma writes_quiet: "quiet m \<Longrightarrow> writes R m"
  by (simp add: writes_def quiet_def)

lemma writes_basic [writes_intros]: "writes R (returnM x)" "writes R (throwM e)"
  by (simp_all add: writes_quiet quiet_basic)

lemma writes_bind_quiet: "quiet m \<Longrightarrow> (\<And>x. writes R (f x)) \<Longrightarrow> writes R (bindM m f)"
  unfolding writes_def quiet_def bindM_def by (fastforce split: prod.splits sum.splits)

lemma writes_read [writes_intros]: "(\<And>x. writes R (f x)) \<Longrightarrow> writes R (bindM (readDb g) f)"
  by (intro writes_bind_quiet quiet_basic)

lemma writes_clock [writes_intros]: "(\<And>x. writes R (f x)) \<Longrightarrow> writes R (bindM (clock_now sv) f)"
  by (intro writes_bind_quiet quiet_basic)

lemma writes_lift [writes_intros]: "(\<And>x. writes R (f x)) \<Longrightarrow> writes R (bindM (liftR r) f)"
  by (intro writes_bind_quiet quiet_basic)

lemma writes_generate [writes_intros]:
  "(\<And>n. writes R (f (sv_id sv n))) \<Longrightarrow> writes R (bindM (generate sv) f)"
  unfolding writes_def bindM_def by (fastforce split: prod.splits sum.splits)

lemma writes_guard [writes_intros]: "(b \<Longrightarrow> writes R (f ())) \<Longrightarrow> writes R (bindM (guardM b e) f)"
  unfolding writes_def bindM_def by (cases b) (auto split: prod.splits sum.splits)

lemma writes_if [writes_intros]: "(b \<Longrightarrow> writes R m) \<Longrightarrow> (\<not> b \<Longrightarrow> writes R n) \<Longrightarrow> writes R (if b then m else n)"
  by simp

lemma writes_option [writes_intros]:
  "writes R m \<Longrightarrow> (\<And>x. v = Some x \<Longrightarrow> writes R (f x)) \<Longrightarrow> writes R (case v of None \<Rightarrow> m | Some x \<Rightarrow> f x)"
  by (cases v) auto

lemma writes_exec:
  assumes "\<And>x db db'. g db = ok (x, db') \<Longrightarrow> db' = db \<and> quiet (h x) \<or> R db db' \<and> (\<exists>y. h x = returnM y)"
  shows "writes R (bindM (execDb g) h)"
  unfolding writes_def
proof (intro allI impI)
  fix w r w' assume run: "bindM (execDb g) h w = (r, w')"
  show "w_db w' = w_db w \<or> (\<exists>x. r = ok x) \<and> R (w_db w) (w_db w')"
  proof (cases "g (w_db w)")
    case (Inl e)
    then show ?thesis using run by (auto simp: bindM_def execDb_def)
  next
    case (Inr q)
    then obtain x db' where q: "g (w_db w) = ok (x, db')" by (cases q) auto
    then have "h x (w\<lparr>w_db := db'\<rparr>) = (r, w')" using run by (simp add: bindM_def execDb_def)
    then show ?thesis using assms [OF q] by (auto simp: quiet_def)
  qed
qed

text \<open>A conditional update followed by the check that it hit.\<close>

lemma writes_update [writes_intros]:
  assumes "\<And>db db'. g db = ok (True, db') \<Longrightarrow> R db db'" and "\<And>db db'. g db = ok (False, db') \<Longrightarrow> db' = db"
  shows "writes R (bindM (execDb g) (\<lambda>updated. guardM updated e))"
proof (rule writes_exec)
  fix x db db' assume "g db = ok (x, db')"
  then show "db' = db \<and> quiet (guardM x e) \<or> R db db' \<and> (\<exists>y. guardM x e = returnM y)"
    using assms by (cases x) (auto simp: quiet_basic guardM_def returnM_def fun_eq_iff)
qed

lemma writes_save [writes_intros]:
  assumes "\<And>db db'. g db = ok ((), db') \<Longrightarrow> R db db'"
  shows "writes R (bindM (execDb g) (\<lambda>_. returnM i))"
  by (rule writes_exec) (use assms in auto)

datatype gov_command =
    GovCreateMilestone string string "string option"
  | GovUpdateMilestoneTitle string string string
  | GovUpdateMilestoneDescription string string string
  | GovCreateRequirement string string string string "string option"
  | GovUpdateRequirement string string "string option" "string option"
  | GovAssignMilestone string string string
  | GovCreateAdr string string string string string
  | GovCreateReview string review_subject string governance_actor
  | GovApprove string string governance_actor "string option" "review_decision option"
  | GovSetStatus string string gov_status

fun run_gov_command :: "services \<Rightarrow> gov_command \<Rightarrow> ('z governance_db_scheme world, string option) command" where
  "run_gov_command sv (GovCreateMilestone p t d) = bindM (createMilestone sv p t d) (\<lambda>i. returnM (Some i))"
| "run_gov_command sv (GovUpdateMilestoneTitle p m t) = bindM (updateMilestoneTitle_command sv p m t) (\<lambda>_. returnM None)"
| "run_gov_command sv (GovUpdateMilestoneDescription p m d) =
     bindM (updateMilestoneDescription_command sv p m d) (\<lambda>_. returnM None)"
| "run_gov_command sv (GovCreateRequirement p k t d m) = bindM (createRequirement sv p k t d m) (\<lambda>i. returnM (Some i))"
| "run_gov_command sv (GovUpdateRequirement p i t d) = bindM (updateRequirement_command sv p i t d) (\<lambda>_. returnM None)"
| "run_gov_command sv (GovAssignMilestone p i m) = bindM (assignRequirementMilestone_command sv p i m) (\<lambda>_. returnM None)"
| "run_gov_command sv (GovCreateAdr p t x d c) = bindM (createAdr sv p t x d c) (\<lambda>i. returnM (Some i))"
| "run_gov_command sv (GovCreateReview p k s a) = bindM (createReview sv p k s a) (\<lambda>i. returnM (Some i))"
| "run_gov_command sv (GovApprove p r a x d) = bindM (approve sv p r a x d) (\<lambda>i. returnM (Some i))"
| "run_gov_command sv (GovSetStatus p i s) = bindM (setStatus sv p i s) (\<lambda>_. returnM None)"

lemma writes_result: "writes R m \<Longrightarrow> writes R (bindM m (\<lambda>x. returnM (f x)))"
  unfolding writes_def bindM_def by (fastforce split: prod.splits sum.splits)

lemma quiet_require_project: "quiet (require_project p)"
  by (auto simp: quiet_def require_project_def bindM_def)

lemma quiet_check_milestone: "quiet (check_milestone p m)"
  by (auto simp: quiet_def check_milestone_def bindM_def split: option.splits)

lemma quiet_find_milestone: "quiet (find_milestone p m)"
  by (auto simp: quiet_def find_milestone_def bindM_def split: option.splits)

lemma quiet_optional_milestone: "quiet (case v of None \<Rightarrow> returnM () | Some m \<Rightarrow> check_milestone p m)"
  by (cases v) (simp_all add: quiet_basic quiet_check_milestone)

lemmas writes_checked = writes_bind_quiet [OF quiet_require_project] writes_bind_quiet [OF quiet_check_milestone]
  writes_bind_quiet [OF quiet_find_milestone] writes_bind_quiet [OF quiet_optional_milestone]

lemma missed_update:
  "updateMilestone hit f now e db = ok (False, db') \<Longrightarrow> db' = db"
  "updateRequirement rhit g now e db = ok (False, db') \<Longrightarrow> db' = db"
  "updateStatus i p c s now db = ok (False, db') \<Longrightarrow> db' = db"
  by (auto simp: updateMilestone_def updateRequirement_def updateStatus_def result_simps split: prod.splits if_splits)

lemma missed_named_update:
  "updateMilestoneTitle i p old t now e db = ok (False, db') \<Longrightarrow> db' = db"
  "updateMilestoneDescription i p oldd t now e db = ok (False, db') \<Longrightarrow> db' = db"
  "updateRequirementText i p ex nx now e md db = ok (False, db') \<Longrightarrow> db' = db"
  "assignRequirementMilestone i p m now e md db = ok (False, db') \<Longrightarrow> db' = db"
  unfolding updateMilestoneTitle_def updateMilestoneDescription_def updateRequirementText_def
    assignRequirementMilestone_def by (erule missed_update)+

lemma missed_decision: "decideReview v db = ok (x, db') \<Longrightarrow> x \<noteq> Decided \<Longrightarrow> db' = db"
  by (auto simp: decideReview_def Let_def result_simps split: option.splits if_splits)


lemma writes_creates:
  "writes gov_step (createMilestone sv p t d)" "writes gov_step (createRequirement sv p k t x m)"
  "writes gov_step (createAdr sv p t c x y)" "writes gov_step (createReview sv p q s a)"
  unfolding createMilestone_def createRequirement_def createAdr_def createReview_def
  subgoal by (intro writes_checked writes_intros) (erule milestone_created; simp)
  subgoal by (intro writes_checked writes_intros) (erule requirement_created; simp)
  subgoal by (intro writes_checked writes_intros) (erule adr_created; simp)
  subgoal by (intro writes_checked writes_intros) (erule review_created; simp)
  done

lemma writes_updates:
  assumes "\<forall>n. colon_free (sv_id sv n)"
  shows "writes gov_step (updateMilestoneTitle_command sv p m t)"
    and "writes gov_step (updateMilestoneDescription_command sv p m t)"
    and "writes gov_step (updateRequirement_command sv p i u d)"
    and "writes gov_step (assignRequirementMilestone_command sv p i m)"
    and "writes gov_step (setStatus sv p i s)"
  unfolding updateMilestoneTitle_command_def updateMilestoneDescription_command_def updateRequirement_command_def
    assignRequirementMilestone_command_def setStatus_def Let_def
  subgoal by (intro writes_checked writes_intros) (erule milestone_title missed_named_update; simp add: assms)+
  subgoal by (intro writes_checked writes_intros) (erule milestone_description missed_named_update; simp add: assms)+
  subgoal by (intro writes_checked writes_intros) (erule requirement_text missed_named_update; simp add: assms)+
  subgoal by (intro writes_checked writes_intros) (erule requirement_milestone missed_named_update; simp add: assms)+
  subgoal by (intro writes_checked writes_intros) (erule status_changed missed_update; simp)+
  done

lemma writes_approve: "writes gov_step (approve sv p r a x d)"
  unfolding approve_def
  by (intro writes_checked writes_intros writes_exec)
    (auto simp: quiet_basic dest: missed_decision gov_step.review_decided split: decision_result.splits)

lemma writes_run_gov_command:
  "\<forall>n. colon_free (sv_id sv n) \<Longrightarrow> writes gov_step (run_gov_command sv c)"
  by (cases c) (simp_all add: writes_result writes_creates writes_updates writes_approve)


section \<open>Sample databases\<close>

definition gov_empty :: governance_db where
  "gov_empty = \<lparr>db_projects = [''p1''], db_tasks = [], db_dependencies = [], db_executed = [], db_audit = [],
     gd_milestones = [], gd_requirements = [], gd_adrs = [], gd_reviews = [], gd_approvals = [], gd_events = [],
     gd_agentRuns = [], gd_links = []\<rparr>"

definition sample_milestone :: milestone where
  "sample_milestone = \<lparr>ms_id = ''m1'', ms_projectId = ''p1'', ms_title = ''beta'', ms_description = None,
     ms_status = MsPlanned, ms_archivedAt = None, ms_createdAt = At 0, ms_updatedAt = At 0\<rparr>"

definition sample_review :: review where
  "sample_review = \<lparr>rv_id = ''r1'', rv_projectId = ''p1'', rv_subjectType = SubjMilestone, rv_subjectId = ''m1'',
     rv_reviewer = \<lparr>ga_type = GovUser, ga_id = ''ann'', ga_displayName = None\<rparr>, rv_status = RvPending,
     rv_summary = None, rv_createdAt = At 2, rv_completedAt = None\<rparr>"

definition sample_approval :: approval where
  "sample_approval = \<lparr>ap_id = ''a1'', ap_projectId = ''p1'', ap_reviewId = ''r1'', ap_decision = DecApproved,
     ap_actor = \<lparr>ga_type = GovUser, ga_id = ''bob'', ga_displayName = None\<rparr>, ap_rationale = None,
     ap_createdAt = At 3\<rparr>"

definition after :: "('x \<times> 'db) result \<Rightarrow> 'db \<Rightarrow> 'db" where
  "after r db = (case r of Inl _ \<Rightarrow> db | Inr (x, db') \<Rightarrow> db')"

definition gov_one :: governance_db where
  "gov_one = after (saveMilestone sample_milestone gov_empty) gov_empty"

definition gov_two :: governance_db where
  "gov_two = after (updateStatus ''m1'' ''p1'' (MilestoneSt MsPlanned) (MilestoneSt MsActive) (At 1) gov_one) gov_one"

definition gov_three :: governance_db where
  "gov_three = after (saveReview sample_review gov_two) gov_two"

definition gov_four :: governance_db where
  "gov_four = after (decideReview sample_approval gov_three) gov_three"

lemmas gov_samples = gov_empty_def sample_milestone_def sample_review_def sample_approval_def after_def

lemmas gov_eval_defs = saveMilestone_def saveReview_def decideReview_def updateStatus_def insert_checks_def
  iso_check_def title_check_def actor_check_def appendEvent_def created_event_def status_event_def
  status_event_id_def update_rows_def project_exists_def lookup_project_def shown_status_def

lemma gov_one_eval: "saveMilestone sample_milestone gov_empty = ok ((), gov_one)"
  unfolding gov_one_def by (simp add: gov_samples gov_eval_defs)

lemma gov_two_eval:
  "updateStatus ''m1'' ''p1'' (MilestoneSt MsPlanned) (MilestoneSt MsActive) (At 1) gov_one = ok (True, gov_two)"
  unfolding gov_two_def gov_one_def by (simp add: gov_samples gov_eval_defs)

lemma gov_three_eval: "saveReview sample_review gov_two = ok ((), gov_three)"
  unfolding gov_three_def gov_two_def gov_one_def by (simp add: gov_samples gov_eval_defs)

lemma gov_four_eval: "decideReview sample_approval gov_three = ok (Decided, gov_four)"
  unfolding gov_four_def gov_three_def gov_two_def gov_one_def by (simp add: gov_samples gov_eval_defs)

lemma gov_two_reachable: "gov_reachable gov_two"
proof -
  have "gov_reachable gov_empty" by (rule gov_reachable.start) (simp add: gov_empty_def no_records_def)
  moreover have "gov_step gov_empty gov_one"
    by (rule milestone_created [OF gov_one_eval]) (simp_all add: sample_milestone_def)
  moreover have "gov_step gov_one gov_two"
    by (rule status_changed [OF gov_two_eval]) (simp add: isGovernanceTransitionAllowed_def)
  ultimately show ?thesis using gov_reachable.step by blast
qed

lemma gov_four_reachable: "gov_reachable gov_four"
  using gov_two_reachable review_created [OF gov_three_eval] review_decided [OF gov_four_eval] gov_reachable.step
  by (metis sample_review_def review.select_convs(6))

section \<open>Properties\<close>

text \<open>C22. The event log is a faithful history of every milestone, requirement and decision record:
  whatever writes were interleaved, the status events of a record, read in order, start at the
  initial status, each starts where the one before ended and goes where the transition table
  allows, and the last one ends at the status the record has.
\<close>

theorem governance_audit_trail:
  assumes "gov_reachable db" and "current_status k i db = Some c"
  shows "trail (initial_status k) (status_events k i db) c"
  using assms gov_inv_reachable gov_inv_trail by blast

theorem governance_audit_trail_witness:
  "current_status GMilestone ''m1'' gov_two = Some (MilestoneSt MsActive)
   \<and> trail (MilestoneSt MsPlanned) (status_events GMilestone ''m1'' gov_two) (MilestoneSt MsActive)
   \<and> length (status_events GMilestone ''m1'' gov_two) = 1"
proof -
  have cur: "current_status GMilestone ''m1'' gov_two = Some (MilestoneSt MsActive)"
    by (simp add: gov_two_def gov_one_def gov_samples gov_eval_defs row_status_def)
  have "length (status_events GMilestone ''m1'' gov_two) = 1"
    by (simp add: gov_two_def gov_one_def gov_samples gov_eval_defs status_events_def is_status_event_def)
  then show ?thesis using governance_audit_trail [OF gov_two_reachable cur] cur by simp
qed

text \<open>C24. The identifier of a status event is built from the record and the new status and must be
  unique in the log. Because no table lets a record come back to a status, a status write the
  table allows on the status just read is never refused for a duplicate event: it changes the
  record and appends the event.
\<close>

theorem governance_status_write_accepted:
  assumes "gov_reachable db" and "findStatus (gov_kind s) i p db = Some c"
    and "isGovernanceTransitionAllowed c s" and "project_exists db p" and "date_finite now"
  shows "\<exists>db'. updateStatus i p c s now db = ok (True, db') \<and> current_status (gov_kind s) i db' = Some s
    \<and> gd_events db' = gd_events db @ [status_event i p c s now]"
proof -
  have inv: "gov_inv db" by (rule gov_inv_reachable [OF assms(1)])
  then have tab: "gov_tables_ok db" by (simp add: gov_inv_def)
  have al: "s \<in> set (governanceTransitions c)" using assms(3) by (simp add: isGovernanceTransitionAllowed_def)
  note hits = updateStatus_hits [OF tab assms(2) al]
  obtain db1 where u: "update_status_rows i p c s now db = (1, db1)" using hits(2) by (metis prod.collapse)
  have mv: "status_moved i c s db db1" by (rule update_status_moved [OF tab u al])
  let ?e = "status_event i p c s now"
  have "ge_id ?e \<notin> ge_id ` set (gd_events db1)"
    using status_event_id_fresh [OF inv hits(1) al] mv by (simp add: status_moved_def status_event_def)
  then have "appendEvent ?e db1 = ok (db1\<lparr>gd_events := gd_events db1 @ [?e]\<rparr>)"
    using mv assms(4,5) by (simp add: appendEvent_ok status_moved_def status_event_def project_exists_def)
  then show ?thesis using u mv assms(5) by (simp add: updateStatus_def iso_check_def status_moved_def)
qed

theorem governance_status_write_accepted_witness:
  "findStatus GMilestone ''m1'' ''p1'' gov_two = Some (MilestoneSt MsActive) \<and>
   (\<exists>db'. updateStatus ''m1'' ''p1'' (MilestoneSt MsActive) (MilestoneSt MsCompleted) (At 5) gov_two = ok (True, db')
     \<and> current_status GMilestone ''m1'' db' = Some (MilestoneSt MsCompleted)
     \<and> gd_events db' = gd_events gov_two @ [status_event ''m1'' ''p1'' (MilestoneSt MsActive) (MilestoneSt MsCompleted) (At 5)])"
proof -
  have f: "findStatus GMilestone ''m1'' ''p1'' gov_two = Some (MilestoneSt MsActive)" "project_exists gov_two ''p1''"
    by (simp_all add: gov_two_def gov_one_def gov_samples gov_eval_defs)
  show ?thesis
    using governance_status_write_accepted [OF gov_two_reachable, of "MilestoneSt MsCompleted" "''m1''" "''p1''"
        "MilestoneSt MsActive" "At 5"] f by (simp add: isGovernanceTransitionAllowed_def)
qed

text \<open>C23. A decision on a review is final: once decided, the review row never changes again, in any
  interleaving of writes, exactly one approval names it, and that approval has the decision,
  the project and the time the review shows.
\<close>

theorem review_decision_final:
  assumes "gov_reachable db" and "r \<in> set (gd_reviews db)" and "rv_status r \<noteq> RvPending" and "gov_step\<^sup>*\<^sup>* db db'"
  shows "r \<in> set (gd_reviews db') \<and> (\<exists>!a. a \<in> set (gd_approvals db') \<and> ap_reviewId a = rv_id r)
    \<and> (\<exists>a \<in> set (gd_approvals db'). ap_reviewId a = rv_id r \<and> ap_projectId a = rv_projectId r
        \<and> rv_status r = decision_status (ap_decision a) \<and> rv_completedAt r = Some (ap_createdAt a))"
proof -
  have inv: "reviews_inv db' \<and> r \<in> set (gd_reviews db')" using assms(4)
    by (induction rule: rtranclp_induct)
      (use reviews_inv_reachable [OF assms(1)] assms(2,3) reviews_inv_step in blast)+
  then have "review_ok (gd_approvals db') r" by (simp add: reviews_inv_def)
  then obtain a where f: "find (\<lambda>a. ap_reviewId a = rv_id r) (gd_approvals db') = Some a"
    and a: "ap_projectId a = rv_projectId r" "rv_status r = decision_status (ap_decision a)"
      "rv_completedAt r = Some (ap_createdAt a)"
    using assms(3) by (auto simp: review_ok_def split: option.splits)
  have m: "a \<in> set (gd_approvals db')" "ap_reviewId a = rv_id r" using f by (auto simp: find_Some_iff)
  have "b = a" if "b \<in> set (gd_approvals db')" "ap_reviewId b = rv_id r" for b
    using inv that m unfolding reviews_inv_def distinct_map by (metis inj_onD)
  then show ?thesis using inv m a by blast
qed

theorem review_decision_final_witness:
  "\<exists>r. gd_reviews gov_four = [r] \<and> rv_status r = RvApproved
     \<and> (\<exists>a \<in> set (gd_approvals gov_four). ap_reviewId a = rv_id r \<and> ap_projectId a = rv_projectId r
        \<and> rv_status r = decision_status (ap_decision a) \<and> rv_completedAt r = Some (ap_createdAt a))"
proof -
  let ?r = "sample_review\<lparr>rv_status := RvApproved, rv_completedAt := Some (At 3)\<rparr>"
  have r: "gd_reviews gov_four = [?r]"
    unfolding gov_four_def gov_three_def gov_two_def gov_one_def by (simp add: gov_samples gov_eval_defs)
  then show ?thesis
    using review_decision_final [OF gov_four_reachable, of ?r gov_four] by auto
qed

text \<open>C25. Every operation of the governance service leaves the tables as they were, or returns
  after exactly one write of the relation the properties above are stated for; an operation
  that throws changed nothing.
\<close>

theorem governance_commands_refine_writes:
  assumes "\<forall>n. colon_free (sv_id sv n)" and "run_gov_command sv c w = (r, w')"
  shows "w_db w' = w_db w \<or> (\<exists>x. r = ok x) \<and> gov_step (w_db w) (w_db w')"
  using writes_run_gov_command [OF assms(1), of c] assms(2) unfolding writes_def by blast

theorem governance_commands_refine_writes_witness:
  "\<exists>w'. run_gov_command counted_services (GovSetStatus ''p1'' ''m1'' (MilestoneSt MsCompleted))
       \<lparr>w_db = gov_two, w_active = False, w_ids = 0, w_clock = 7\<rparr> = (ok None, w') \<and> gov_step gov_two (w_db w')"
proof -
  let ?w = "\<lparr>w_db = gov_two, w_active = False, w_ids = 0, w_clock = 7\<rparr>"
  let ?c = "GovSetStatus ''p1'' ''m1'' (MilestoneSt MsCompleted)"
  have cf: "\<forall>n. colon_free (sv_id counted_services n)" by (simp add: colon_free_def counted_services_def)
  obtain r w' where run: "run_gov_command counted_services ?c ?w = (r, w')" by (meson surj_pair)
  then have r: "r = ok None" and ne: "length (gd_events (w_db w')) = Suc (length (gd_events gov_two))"
    by (auto simp: gov_two_def gov_one_def gov_samples gov_eval_defs setStatus_def require_project_def bindM_def
        execDb_def isGovernanceTransitionAllowed_def counted_services_def)
  then have "w_db w' \<noteq> w_db ?w" by auto
  then show ?thesis using governance_commands_refine_writes [OF cf run] run r by auto
qed

end
