(* ===== verification/Task_Completion.thy ===== *)
theory Task_Completion
  imports Governance Canonical_Json
begin

text \<open>
  The relation between tasks and requirements and the historical completion record:
  \<open>packages/application/src/commands/manage-task-requirements.ts\<close>,
  \<open>task-requirement-progress.ts\<close>, \<open>record-task-completion.ts\<close> and the repository
  \<open>sqlite-task-requirement.repository.ts\<close>.

  The hash function of \<open>node:crypto\<close> is a parameter \<open>sha256\<close> from the hashed text to its
  hexadecimal digest, and the decimal text of a number is the parameter \<open>num_str\<close> of
  \<open>canonicalStringify\<close>. The properties assume of the hash only that the texts at hand do not
  collide. Counts of requirements are integers: they are exact far below \<open>2 ^ 53\<close>.
\<close>

section \<open>The model\<close>

subsection \<open>Progress across linked requirements\<close>

record requirement_progress =
  rp_total :: int
  rp_verified :: int
  rp_terminal :: int
  rp_open :: int

definition terminalRequirementStatuses :: "requirement_status list" where
  "terminalRequirementStatuses = [RqVerified, RqRejected]"

definition isTerminalRequirementStatus :: "requirement_status \<Rightarrow> bool" where
  "isTerminalRequirementStatus s \<longleftrightarrow> s \<in> set terminalRequirementStatuses"

definition requirementProgressFromCounts :: "(requirement_status \<times> int) list \<Rightarrow> requirement_progress" where
  "requirementProgressFromCounts counts =
     (let total = foldl (\<lambda>sum (s, n). sum + n) 0 counts;
          terminal = foldl (\<lambda>sum (s, n). sum + (if isTerminalRequirementStatus s then n else 0)) 0 counts
      in \<lparr>rp_total = total,
           rp_verified = foldl (\<lambda>sum (s, n). sum + (if s = RqVerified then n else 0)) 0 counts,
           rp_terminal = terminal, rp_open = total - terminal\<rparr>)"

definition requirementProgress :: "requirement_status list \<Rightarrow> requirement_progress" where
  "requirementProgress statuses = requirementProgressFromCounts (map (\<lambda>s. (s, 1)) statuses)"

subsection \<open>The repository of links\<close>

record linked_requirement =
  lr_requirementId :: string
  lr_key :: string
  lr_title :: string
  lr_status :: requirement_status

definition linked_row :: "requirement \<Rightarrow> linked_requirement" where
  "linked_row r = \<lparr>lr_requirementId = rq_id r, lr_key = rq_key r, lr_title = rq_title r, lr_status = rq_status r\<rparr>"

definition task_in_project :: "'z governance_db_scheme \<Rightarrow> string \<Rightarrow> string \<Rightarrow> bool" where
  "task_in_project db t p \<longleftrightarrow> (\<exists>v \<in> set (db_tasks db). task_id v = t \<and> task_projectId v = p)"

definition requirement_in_project :: "'z governance_db_scheme \<Rightarrow> string \<Rightarrow> string \<Rightarrow> bool" where
  "requirement_in_project db r p \<longleftrightarrow> (\<exists>v \<in> set (gd_requirements db). rq_id v = r \<and> rq_projectId v = p)"

definition requirement_link ::
  "string \<Rightarrow> string \<Rightarrow> string \<Rightarrow> js_date \<Rightarrow> 'z governance_db_scheme \<Rightarrow> (bool \<times> 'z governance_db_scheme) result" where
  "requirement_link p t r now db =
     bindR (iso_check now) (\<lambda>_.
       if task_in_project db t p \<and> requirement_in_project db r p \<and> (t, r) \<notin> set (gd_links db)
       then ok (True, db\<lparr>gd_links := gd_links db @ [(t, r)]\<rparr>)
       else ok (False, db))"

definition requirement_unlink ::
  "string \<Rightarrow> string \<Rightarrow> string \<Rightarrow> 'z governance_db_scheme \<Rightarrow> (bool \<times> 'z governance_db_scheme) result" where
  "requirement_unlink p t r db =
     (let hit = (\<lambda>l. l = (t, r) \<and> task_in_project db t p) in
      ok (length (filter hit (gd_links db)) = 1, db\<lparr>gd_links := filter (\<lambda>l. \<not> hit l) (gd_links db)\<rparr>))"

text \<open>The rows of the join of links, requirements and tasks.\<close>

definition joined_links :: "string \<Rightarrow> 'z governance_db_scheme \<Rightarrow> (string \<times> requirement) list" where
  "joined_links p db =
     concat (map (\<lambda>(t, i). map (\<lambda>r. (t, r)) (filter (\<lambda>r. rq_id r = i \<and> rq_projectId r = p \<and> task_in_project db t p)
       (gd_requirements db))) (gd_links db))"

definition listForTask :: "string \<Rightarrow> string \<Rightarrow> 'z governance_db_scheme \<Rightarrow> linked_requirement list" where
  "listForTask p t db =
     map (\<lambda>(_, r). linked_row r) (sort_key (\<lambda>(_, r). (rq_key r, rq_id r))
       (filter (\<lambda>(u, _). u = t) (joined_links p db)))"

text \<open>The rows of several tasks, grouped into a map in the order of the query.\<close>

definition group_add ::
  "(string \<rightharpoonup> linked_requirement list) \<Rightarrow> string \<times> requirement \<Rightarrow> (string \<rightharpoonup> linked_requirement list)" where
  "group_add grouped = (\<lambda>(t, r). grouped(t \<mapsto> (case grouped t of None \<Rightarrow> [] | Some l \<Rightarrow> l) @ [linked_row r]))"

definition listForTasks ::
  "string \<Rightarrow> string list \<Rightarrow> 'z governance_db_scheme \<Rightarrow> (string \<rightharpoonup> linked_requirement list)" where
  "listForTasks p ts db =
     (if ts = [] then Map.empty
      else foldl group_add Map.empty (sort_key (\<lambda>(t, r). (t, rq_key r, rq_id r))
        (filter (\<lambda>(u, _). u \<in> set ts) (joined_links p db))))"

subsection \<open>Linking tasks and requirements\<close>

definition requireBothEnds :: "string \<Rightarrow> string \<Rightarrow> string \<Rightarrow> ('z governance_db_scheme world, unit) command" where
  "requireBothEnds p t r =
     bindM (requireTask p t (TaskNotFoundError t)) (\<lambda>_.
     bindM (readDb (findStatus GRequirement r p)) (\<lambda>status.
     guardM (status \<noteq> None) (RequirementNotFoundError r)))"

definition requirements_link ::
  "services \<Rightarrow> string \<Rightarrow> string \<Rightarrow> string \<Rightarrow> string \<Rightarrow> ('z governance_db_scheme world, bool) command" where
  "requirements_link sv p t r actorId =
     bindM (requireBothEnds p t r) (\<lambda>_.
     transaction (
       bindM (clock_now sv) (\<lambda>now.
       bindM (execDb (requirement_link p t r now)) (\<lambda>created.
       if \<not> created then returnM False
       else bindM (audit_task sv ''task.requirement_linked'' actorId p t [(''requirementId'', JStr r)]) (\<lambda>_.
         returnM True)))))"

definition requirements_unlink ::
  "services \<Rightarrow> string \<Rightarrow> string \<Rightarrow> string \<Rightarrow> string \<Rightarrow> ('z governance_db_scheme world, bool) command" where
  "requirements_unlink sv p t r actorId =
     bindM (requireBothEnds p t r) (\<lambda>_.
     transaction (
       bindM (execDb (requirement_unlink p t r)) (\<lambda>removed.
       if \<not> removed then returnM False
       else bindM (audit_task sv ''task.requirement_unlinked'' actorId p t [(''requirementId'', JStr r)]) (\<lambda>_.
         returnM True))))"

definition requirements_listForTask ::
  "string \<Rightarrow> string \<Rightarrow> ('z governance_db_scheme world, linked_requirement list) command" where
  "requirements_listForTask p t =
     bindM (requireTask p t (TaskNotFoundError t)) (\<lambda>_. readDb (listForTask p t))"

subsection \<open>The historical completion record\<close>

datatype completion_kind = HistoricalCorrection | LifecycleTransition | NoCompletion

record completion_plan =
  cp_projectId :: string
  cp_taskId :: string
  cp_title :: string
  cp_status :: task_status
  cp_resultingStatus :: task_status
  cp_kind :: completion_kind
  cp_available :: bool
  cp_refusalReason :: "string option"
  cp_suggestedCommand :: "string option"
  cp_evidence :: requirement_progress
  cp_reason :: string
  cp_planHash :: "string option"

definition evidence_fields :: "requirement_progress \<Rightarrow> (string \<times> int) list" where
  "evidence_fields e = [(''total'', rp_total e), (''verified'', rp_verified e), (''terminal'', rp_terminal e),
     (''open'', rp_open e)]"

definition completion_value ::
  "string \<Rightarrow> string \<Rightarrow> task_status \<Rightarrow> string \<Rightarrow> requirement_progress \<Rightarrow> js_value" where
  "completion_value projectId taskId from reason evidence =
     JsObject True False
       [(''kind'', Data (JsString ''task_completion_record'')), (''to'', Data (JsString ''completed'')),
        (''projectId'', Data (JsString projectId)), (''taskId'', Data (JsString taskId)),
        (''from'', Data (JsString (task_status_str from))), (''reason'', Data (JsString reason)),
        (''evidence'', Data (JsObject True False
          (map (\<lambda>(k, n). (k, Data (JsNumber (of_int_num n)))) (evidence_fields evidence))))]"

definition completionPlanHash ::
  "(string \<Rightarrow> string) \<Rightarrow> (rat \<Rightarrow> string) \<Rightarrow> string \<Rightarrow> string \<Rightarrow> task_status \<Rightarrow> string
     \<Rightarrow> requirement_progress \<Rightarrow> string result" where
  "completionPlanHash sha256 num_str projectId taskId from reason evidence =
     bindR (canonicalStringify num_str (completion_value projectId taskId from reason evidence)) (\<lambda>s.
     ok (sha256 s))"

definition completion_kind_of :: "task_status \<Rightarrow> completion_kind" where
  "completion_kind_of s =
     (if historicalCompletionRefusal s = None then HistoricalCorrection
      else if isTaskTransitionAllowed s Completed then LifecycleTransition else NoCompletion)"

definition buildPlan ::
  "(string \<Rightarrow> string) \<Rightarrow> (rat \<Rightarrow> string) \<Rightarrow> string \<Rightarrow> string \<Rightarrow> string
     \<Rightarrow> ('z governance_db_scheme world, completion_plan \<times> task) command" where
  "buildPlan sha256 num_str projectId taskId reasonGiven =
     bindM (liftR (normalizeTaskReason reasonGiven ''completion record reason'')) (\<lambda>reason.
     bindM (requireTask projectId taskId (TaskNotFoundError taskId)) (\<lambda>task.
     bindM (readDb (\<lambda>db. requirementProgress (map lr_status (listForTask projectId taskId db)))) (\<lambda>evidence.
     let status = task_status task; refusalReason = historicalCompletionRefusal status;
         available = (refusalReason = None); kind = completion_kind_of status
     in bindM (if available
          then bindM (liftR (completionPlanHash sha256 num_str projectId (task_id task) status reason evidence))
                 (\<lambda>h. returnM (Some h))
          else returnM None) (\<lambda>hash.
        returnM (\<lparr>cp_projectId = projectId, cp_taskId = task_id task, cp_title = task_title task,
          cp_status = status, cp_resultingStatus = (if available then Completed else status),
          cp_kind = kind, cp_available = available, cp_refusalReason = refusalReason,
          cp_suggestedCommand = (if kind = LifecycleTransition then Some ''task:complete'' else None),
          cp_evidence = evidence, cp_reason = reason, cp_planHash = hash\<rparr>, task)))))"

definition completion_plan_command ::
  "(string \<Rightarrow> string) \<Rightarrow> (rat \<Rightarrow> string) \<Rightarrow> string \<Rightarrow> string \<Rightarrow> string
     \<Rightarrow> ('z governance_db_scheme world, completion_plan) command" where
  "completion_plan_command sha256 num_str projectId taskId reasonGiven =
     bindM (buildPlan sha256 num_str projectId taskId reasonGiven) (\<lambda>(plan, _). returnM plan)"

record completion_result =
  cr_taskId :: string
  cr_from :: task_status
  cr_to :: task_status
  cr_planHash :: string

definition completion_payload :: "completion_plan \<Rightarrow> string \<Rightarrow> (string \<times> json) list" where
  "completion_payload plan hash =
     [(''operation'', JStr ''record-completion''), (''from'', JStr (task_status_str (cp_status plan))),
      (''to'', JStr ''completed''), (''reason'', JStr (cp_reason plan)), (''correction'', JBool True),
      (''evidence'', JObj (map (\<lambda>(k, n). (k, JNum (of_int n))) (evidence_fields (cp_evidence plan)))),
      (''planHash'', JStr hash)]"

definition record_work ::
  "(string \<Rightarrow> string) \<Rightarrow> (rat \<Rightarrow> string) \<Rightarrow> services \<Rightarrow> string \<Rightarrow> string \<Rightarrow> string \<Rightarrow> string \<Rightarrow> string
     \<Rightarrow> ('z governance_db_scheme world, completion_result) command" where
  "record_work sha256 num_str sv projectId taskId actorId reasonGiven approvedPlanHash =
     bindM (buildPlan sha256 num_str projectId taskId reasonGiven) (\<lambda>(plan, task).
     bindM (guardM (cp_planHash plan = Some approvedPlanHash) TaskCompletionApprovalError) (\<lambda>_.
     bindM (clock_now sv) (\<lambda>now.
     bindM (liftR (Task_recordHistoricalCompletion now task)) (\<lambda>task'.
     bindM (execDb (task_save task')) (\<lambda>_.
     bindM (audit_task sv ''task.completion_recorded'' actorId (cp_projectId plan) (cp_taskId plan)
       (completion_payload plan approvedPlanHash)) (\<lambda>_.
     returnM \<lparr>cr_taskId = cp_taskId plan, cr_from = cp_status plan, cr_to = Completed,
       cr_planHash = approvedPlanHash\<rparr>))))))"

definition record_completion ::
  "(string \<Rightarrow> string) \<Rightarrow> (rat \<Rightarrow> string) \<Rightarrow> services \<Rightarrow> string \<Rightarrow> string \<Rightarrow> string \<Rightarrow> string \<Rightarrow> string
     \<Rightarrow> ('z governance_db_scheme world, completion_result) command" where
  "record_completion sha256 num_str sv projectId taskId actorId reasonGiven approvedPlanHash =
     transaction (record_work sha256 num_str sv projectId taskId actorId reasonGiven approvedPlanHash)"


section \<open>Lemmas: progress\<close>

lemma foldl_sum: "foldl (\<lambda>sum (s, n). sum + f s n) (a::int) xs = a + (\<Sum>(s, n)\<leftarrow>xs. f s n)"
  by (induction xs arbitrary: a) (auto simp: algebra_simps)

lemma progress_sums:
  "requirementProgressFromCounts counts =
     \<lparr>rp_total = (\<Sum>(s, n)\<leftarrow>counts. n), rp_verified = (\<Sum>(s, n)\<leftarrow>counts. if s = RqVerified then n else 0),
       rp_terminal = (\<Sum>(s, n)\<leftarrow>counts. if isTerminalRequirementStatus s then n else 0),
       rp_open = (\<Sum>(s, n)\<leftarrow>counts. n) - (\<Sum>(s, n)\<leftarrow>counts. if isTerminalRequirementStatus s then n else 0)\<rparr>"
  unfolding requirementProgressFromCounts_def Let_def foldl_sum by simp

lemma ones_sum: "(\<Sum>(s, n)\<leftarrow>map (\<lambda>s. (s, 1)) ss. if P s then n else 0) = int (length (filter P ss))"
  by (induction ss) auto

lemma single_sum:
  "distinct ds \<Longrightarrow> (\<Sum>s\<leftarrow>ds. if P s \<and> s = x then 1 else (0::int)) = (if x \<in> set ds \<and> P x then 1 else 0)"
  by (induction ds) auto

lemma pair_sum: "(\<Sum>(s, n)\<leftarrow>map (\<lambda>s. (s, f s)) ds. if P s then n else (0::int)) = (\<Sum>s\<leftarrow>ds. if P s then f s else 0)"
  by (induction ds) auto

lemma grouped_sum:
  assumes "distinct ds" and "set ss \<subseteq> set ds"
  shows "(\<Sum>(s, n)\<leftarrow>map (\<lambda>s. (s, int (count_list ss s))) ds. if P s then n else 0) = int (length (filter P ss))"
  unfolding pair_sum using assms(2)
proof (induction ss)
  case Nil
  then show ?case by (induction ds) auto
next
  case (Cons x ss)
  have "(\<Sum>s\<leftarrow>ds. if P s then int (count_list (x # ss) s) else 0) =
      (\<Sum>s\<leftarrow>ds. if P s then int (count_list ss s) else 0) + (\<Sum>s\<leftarrow>ds. if P s \<and> s = x then 1 else 0)"
    by (induction ds) auto
  then show ?case using Cons single_sum [OF assms(1), of P x] by (simp del: count_list.simps)
qed

text \<open>Grouped counts give the same progress as the statuses one by one.\<close>

lemma requirementProgress_grouped:
  assumes "distinct ds" and "set ss \<subseteq> set ds"
  shows "requirementProgressFromCounts (map (\<lambda>s. (s, int (count_list ss s))) ds) = requirementProgress ss"
  unfolding requirementProgress_def progress_sums
  using grouped_sum [OF assms, of "\<lambda>_. True"] ones_sum [of "\<lambda>_. True" ss] grouped_sum [OF assms]
    ones_sum [of "\<lambda>s. s = RqVerified" ss] ones_sum [of isTerminalRequirementStatus ss]
  by (simp only: if_True)

section \<open>Lemmas: the batched read\<close>

lemma insort_key_cong:
  "(\<And>y. y \<in> set ys \<Longrightarrow> f x \<le> f y \<longleftrightarrow> g x \<le> g y) \<Longrightarrow> insort_key f x ys = insort_key g x ys"
  by (induction ys) auto

lemma sort_key_cong_order:
  "(\<And>x y. x \<in> set xs \<Longrightarrow> y \<in> set xs \<Longrightarrow> f x \<le> f y \<longleftrightarrow> g x \<le> g y) \<Longrightarrow> sort_key f xs = sort_key g xs"
proof (induction xs)
  case (Cons x xs)
  then have "sort_key f xs = sort_key g xs" by simp
  moreover have "insort_key f x (sort_key g xs) = insort_key g x (sort_key g xs)"
    by (rule insort_key_cong) (use Cons.prems in simp)
  ultimately show ?case by (simp add: sort_key_def)
qed simp

lemma group_add_fold:
  "foldl group_add m rows t =
     (let ls = map (\<lambda>(_, r). linked_row r) (filter (\<lambda>(u, _). u = t) rows) in
      if ls = [] then m t else Some ((case m t of None \<Rightarrow> [] | Some l \<Rightarrow> l) @ ls))"
proof (induction rows arbitrary: m)
  case (Cons row rows)
  obtain u r where row: "row = (u, r)" by (cases row)
  show ?case
  proof (cases "u = t")
    case True
    then show ?thesis using Cons row by (simp add: Let_def group_add_def)
  next
    case False
    then have "group_add m (u, r) t = m t" by (simp add: group_add_def)
    then show ?thesis using Cons row False by simp
  qed
qed simp

lemma sorted_of_one_task:
  "filter (\<lambda>(u, _). u = t) (sort_key (\<lambda>(t, r). (t, rq_key r, rq_id r)) rows) =
   sort_key (\<lambda>(_, r). (rq_key r, rq_id r)) (filter (\<lambda>(u, _). u = t) rows)"
  unfolding filter_sort by (rule sort_key_cong_order) auto


section \<open>Lemmas: the plan hash\<close>

definition completion_json ::
  "string \<Rightarrow> string \<Rightarrow> task_status \<Rightarrow> string \<Rightarrow> requirement_progress \<Rightarrow> json" where
  "completion_json p t from reason e = JObj
     [(''evidence'', JObj [(''open'', JNum (of_int (rp_open e))), (''terminal'', JNum (of_int (rp_terminal e))),
        (''total'', JNum (of_int (rp_total e))), (''verified'', JNum (of_int (rp_verified e)))]),
      (''from'', JStr (task_status_str from)), (''kind'', JStr ''task_completion_record''),
      (''projectId'', JStr p), (''reason'', JStr reason), (''taskId'', JStr t), (''to'', JStr ''completed'')]"

text \<open>The text that is hashed.\<close>

definition completion_text :: "(rat \<Rightarrow> string) \<Rightarrow> completion_plan \<Rightarrow> string" where
  "completion_text num_str plan = JSON_stringify num_str
     (completion_json (cp_projectId plan) (cp_taskId plan) (cp_status plan) (cp_reason plan) (cp_evidence plan))"

lemma completion_value_normal: "normalizeCanonicalJson (completion_value p t from reason e) = ok (completion_json p t from reason e)"
  by (simp add: normalizeCanonicalJson_def completion_value_def completion_json_def sort_props_def
      forbiddenObjectKeys_def evidence_fields_def of_int_num_def)

lemma completionPlanHash_eq:
  "completionPlanHash sha256 num_str p t from reason e =
     ok (sha256 (JSON_stringify num_str (completion_json p t from reason e)))"
  by (simp add: completionPlanHash_def canonicalStringify_def completion_value_normal)

lemma wf_completion_value: "wf_js (completion_value p t from reason e)"
  by (simp add: completion_value_def evidence_fields_def)

lemma completion_canonical: "canonical_json (completion_json p t from reason e)"
  using normalize_canonical [OF wf_completion_value] completion_value_normal by (metis normalizeCanonicalJson_def)

lemma task_status_str_inj: "task_status_str s = task_status_str s' \<Longrightarrow> s = s'"
  by (cases s; cases s') simp_all

lemma completion_text_inj:
  assumes "number_printer num_str" and "completion_text num_str a = completion_text num_str b"
  shows "cp_projectId a = cp_projectId b \<and> cp_taskId a = cp_taskId b \<and> cp_status a = cp_status b
    \<and> cp_reason a = cp_reason b \<and> cp_evidence a = cp_evidence b"
  using JSON_stringify_inj [OF assms(1) completion_canonical completion_canonical
      assms(2) [unfolded completion_text_def]] task_status_str_inj
  by (auto simp: completion_json_def)

text \<open>A plan is a function of the state, and says everything about it that is hashed.\<close>

lemma buildPlan_ok:
  "buildPlan sha256 num_str p t given w = (ok (plan, v), w') \<Longrightarrow>
   w' = w \<and> project_exists (w_db w) p \<and> task_find (w_db w) t = Some v \<and> task_projectId v = p
   \<and> cp_projectId plan = p \<and> cp_taskId plan = task_id v \<and> cp_status plan = task_status v
   \<and> normalizeTaskReason given ''completion record reason'' = ok (cp_reason plan)
   \<and> cp_evidence plan = requirementProgress (map lr_status (listForTask p t (w_db w)))
   \<and> cp_available plan = (historicalCompletionRefusal (task_status v) = None)
   \<and> cp_planHash plan = (if cp_available plan then Some (sha256 (completion_text num_str plan)) else None)"
  by (auto simp: buildPlan_def result_simps Let_def completionPlanHash_eq completion_text_def split: if_splits)

lemma plan_command_ok:
  assumes "completion_plan_command sha256 num_str p t given w = (ok plan, w')"
  obtains v where "buildPlan sha256 num_str p t given w = (ok (plan, v), w)" "w' = w"
  using assms by (auto simp: completion_plan_command_def result_simps dest: buildPlan_ok)

text \<open>What a successful record did, inside its transaction.\<close>

lemma record_work_ok:
  assumes "record_work sha256 num_str sv p t a given h w = (ok res, w')"
  obtains plan v db1 where "buildPlan sha256 num_str p t given w = (ok (plan, v), w)" "cp_planHash plan = Some h"
    "historicalCompletionRefusal (task_status v) = None"
    "task_save (v\<lparr>task_status := Completed, task_updatedAt := sv_now sv (w_clock w)\<rparr>) (w_db w) = ok ((), db1)"
    "w_db w' = db1\<lparr>db_audit := db_audit db1 @ [task_audit_event sv (w\<lparr>w_clock := Suc (w_clock w)\<rparr>)
       ''task.completion_recorded'' a p (task_id v) (completion_payload plan h)]\<rparr>"
    "res = \<lparr>cr_taskId = task_id v, cr_from = task_status v, cr_to = Completed, cr_planHash = h\<rparr>"
proof -
  obtain plan v w1 where plan: "buildPlan sha256 num_str p t given w = (ok (plan, v), w1)"
    and rest: "bindM (guardM (cp_planHash plan = Some h) TaskCompletionApprovalError) (\<lambda>_.
       bindM (clock_now sv) (\<lambda>now. bindM (liftR (Task_recordHistoricalCompletion now v)) (\<lambda>task'.
       bindM (execDb (task_save task')) (\<lambda>_. bindM (audit_task sv ''task.completion_recorded'' a (cp_projectId plan)
         (cp_taskId plan) (completion_payload plan h)) (\<lambda>_.
       returnM \<lparr>cr_taskId = cp_taskId plan, cr_from = cp_status plan, cr_to = Completed, cr_planHash = h\<rparr>))))) w1 = (ok res, w')"
    using assms by (auto simp: record_work_def bindM_ok)
  note b = buildPlan_ok [OF plan]
  obtain db1 i where h: "cp_planHash plan = Some h"
    and nr: "historicalCompletionRefusal (task_status v) = None"
    and sv: "task_save (v\<lparr>task_status := Completed, task_updatedAt := sv_now sv (w_clock w)\<rparr>) (w_db w) = ok ((), db1)"
    and au: "audit_task sv ''task.completion_recorded'' a p (task_id v) (completion_payload plan h)
       (w\<lparr>w_clock := Suc (w_clock w), w_db := db1\<rparr>) = (ok i, w')"
    and res: "res = \<lparr>cr_taskId = task_id v, cr_from = task_status v, cr_to = Completed, cr_planHash = h\<rparr>"
    using rest b by (auto simp: result_simps Task_recordHistoricalCompletion_def split: option.splits if_splits)
  have "w_db w' = db1\<lparr>db_audit := db_audit db1 @ [task_audit_event sv (w\<lparr>w_clock := Suc (w_clock w)\<rparr>)
       ''task.completion_recorded'' a p (task_id v) (completion_payload plan h)]\<rparr>"
    using audit_task_ok(1) [OF au] by (simp add: task_audit_event_def)
  then show ?thesis using that plan b h nr sv res by blast
qed

lemma record_completion_ok:
  assumes "record_completion sha256 num_str sv p t a given h w = (ok res, w')"
  obtains plan v db1 where "buildPlan sha256 num_str p t given w = (ok (plan, v), w)" "cp_planHash plan = Some h"
    "historicalCompletionRefusal (task_status v) = None"
    "task_save (v\<lparr>task_status := Completed, task_updatedAt := sv_now sv (w_clock w)\<rparr>) (w_db w) = ok ((), db1)"
    "w_db w' = db1\<lparr>db_audit := db_audit db1 @ [task_audit_event sv (w\<lparr>w_clock := Suc (w_clock w)\<rparr>)
       ''task.completion_recorded'' a p (task_id v) (completion_payload plan h)]\<rparr>"
    "res = \<lparr>cr_taskId = task_id v, cr_from = task_status v, cr_to = Completed, cr_planHash = h\<rparr>"
proof -
  obtain w1 where w1: "record_work sha256 num_str sv p t a given h (w\<lparr>w_active := True\<rparr>) = (ok res, w1)" "w' = w1\<lparr>w_active := False\<rparr>"
    using assms by (auto simp: record_completion_def transaction_ok)
  have plan: "buildPlan sha256 num_str p t given (w\<lparr>w_active := True\<rparr>) = (r, w\<lparr>w_active := True\<rparr>) \<Longrightarrow>
      buildPlan sha256 num_str p t given w = (r, w)" for r :: "(completion_plan \<times> task) result"
    by (auto simp: buildPlan_def bindM_def requireTask_def readDb_def readM_def Let_def split: sum.splits option.splits if_splits)
  show ?thesis
    by (rule record_work_ok [OF w1(1)], rule that) (use plan w1(2) in \<open>auto simp: task_audit_event_def\<close>)
qed


section \<open>Lemmas: links\<close>

lemma requireBothEnds_ok:
  assumes "requireBothEnds p t r w = (ok u, w')"
  shows "w' = w" and "task_in_project (w_db w) t p" and "requirement_in_project (w_db w) r p"
proof -
  obtain v where v: "w' = w" "task_find (w_db w) t = Some v" "task_projectId v = p" "findStatus GRequirement r p (w_db w) \<noteq> None"
    using assms by (auto simp: requireBothEnds_def result_simps split: if_splits)
  then show "w' = w" by simp
  show "task_in_project (w_db w) t p"
    using v(2,3) by (auto simp: task_in_project_def task_find_def find_Some_iff)
  show "requirement_in_project (w_db w) r p" using v(4) by (auto simp: requirement_in_project_def find_Some_iff)
qed

lemma requirement_link_ok:
  assumes "requirement_link p t r now db = ok (c, db')" and "task_in_project db t p" "requirement_in_project db r p"
  shows "db' = (if c then db\<lparr>gd_links := gd_links db @ [(t, r)]\<rparr> else db)" and "c \<longleftrightarrow> (t, r) \<notin> set (gd_links db)"
  using assms by (auto simp: requirement_link_def result_simps split: if_splits)

lemma requirements_link_ok:
  assumes "requirements_link sv p t r a w = (ok c, w')"
  shows "c \<longleftrightarrow> (t, r) \<notin> set (gd_links (w_db w))" and "task_in_project (w_db w) t p" and "requirement_in_project (w_db w) r p"
    and "w_db w' = (if c then (w_db w)\<lparr>gd_links := gd_links (w_db w) @ [(t, r)], db_audit := db_audit (w_db w) @
      [task_audit_event sv (w\<lparr>w_clock := Suc (w_clock w)\<rparr>) ''task.requirement_linked'' a p t [(''requirementId'', JStr r)]]\<rparr>
      else w_db w)"
proof -
  let ?w = "w\<lparr>w_active := True\<rparr>" let ?now = "sv_now sv (w_clock w)"
  obtain w1 w2 where both: "requireBothEnds p t r w = (ok (), w1)"
    and work: "bindM (clock_now sv) (\<lambda>now. bindM (execDb (requirement_link p t r now)) (\<lambda>created.
       if \<not> created then returnM False
       else bindM (audit_task sv ''task.requirement_linked'' a p t [(''requirementId'', JStr r)]) (\<lambda>_.
         returnM True))) (w1\<lparr>w_active := True\<rparr>) = (ok c, w2)" "w' = w2\<lparr>w_active := False\<rparr>"
    using assms by (auto simp: requirements_link_def result_simps transaction_ok)
  note ends = requireBothEnds_ok [OF both]
  then show "task_in_project (w_db w) t p" "requirement_in_project (w_db w) r p" by simp_all
  obtain db' where l: "requirement_link p t r ?now (w_db w) = ok (c, db')"
    and rest: "if \<not> c then w2 = ?w\<lparr>w_clock := Suc (w_clock w), w_db := db'\<rparr>
       else \<exists>i. audit_task sv ''task.requirement_linked'' a p t [(''requirementId'', JStr r)]
         (?w\<lparr>w_clock := Suc (w_clock w), w_db := db'\<rparr>) = (ok i, w2)"
    using work(1) ends(1) by (auto simp: result_simps split: if_splits)
  note lk = requirement_link_ok [OF l ends(2,3)]
  show "c \<longleftrightarrow> (t, r) \<notin> set (gd_links (w_db w))" by (rule lk(2))
  show "w_db w' = (if c then (w_db w)\<lparr>gd_links := gd_links (w_db w) @ [(t, r)], db_audit := db_audit (w_db w) @
      [task_audit_event sv (w\<lparr>w_clock := Suc (w_clock w)\<rparr>) ''task.requirement_linked'' a p t [(''requirementId'', JStr r)]]\<rparr>
      else w_db w)"
    using rest lk(1) work(2) by (cases c) (auto dest!: audit_task_ok(1) simp: task_audit_event_def)
qed

lemma requirements_unlink_ok:
  assumes "requirements_unlink sv p t r a w = (ok d, w')"
  shows "gd_links (w_db w') = filter (\<lambda>l. l \<noteq> (t, r)) (gd_links (w_db w))"
    and "d \<longleftrightarrow> length (filter (\<lambda>l. l = (t, r)) (gd_links (w_db w))) = 1"
proof -
  obtain w1 w2 where both: "requireBothEnds p t r w = (ok (), w1)"
    and work: "bindM (execDb (requirement_unlink p t r)) (\<lambda>removed.
       if \<not> removed then returnM False
       else bindM (audit_task sv ''task.requirement_unlinked'' a p t [(''requirementId'', JStr r)]) (\<lambda>_.
         returnM True)) (w1\<lparr>w_active := True\<rparr>) = (ok d, w2)" "w' = w2\<lparr>w_active := False\<rparr>"
    using assms by (auto simp: requirements_unlink_def result_simps transaction_ok)
  note ends = requireBothEnds_ok [OF both]
  let ?db = "(w_db w)\<lparr>gd_links := filter (\<lambda>l. l \<noteq> (t, r)) (gd_links (w_db w))\<rparr>"
  have u: "requirement_unlink p t r (w_db w) = ok (length (filter (\<lambda>l. l = (t, r)) (gd_links (w_db w))) = 1, ?db)"
    using ends(2) by (simp add: requirement_unlink_def)
  show "d \<longleftrightarrow> length (filter (\<lambda>l. l = (t, r)) (gd_links (w_db w))) = 1"
    using work(1) ends(1) u by (auto simp: result_simps split: if_splits)
  show "gd_links (w_db w') = filter (\<lambda>l. l \<noteq> (t, r)) (gd_links (w_db w))"
    using work ends(1) u by (auto simp: result_simps dest!: audit_task_ok(1) split: if_splits)
qed

lemma listed_when_linked:
  assumes "(t, r) \<in> set (gd_links db)" and "task_in_project db t p" and "requirement_in_project db r p"
  shows "r \<in> lr_requirementId ` set (listForTask p t db)"
proof -
  obtain v where "v \<in> set (gd_requirements db)" "rq_id v = r" "rq_projectId v = p"
    using assms(3) by (auto simp: requirement_in_project_def)
  then have "(t, v) \<in> set (joined_links p db)"
    unfolding joined_links_def using assms(1,2) by (auto intro!: bexI [of _ "(t, r)"])
  then have "linked_row v \<in> set (listForTask p t db)" by (force simp: listForTask_def)
  then show ?thesis using \<open>rq_id v = r\<close> by (force simp: linked_row_def)
qed

section \<open>A sample project\<close>

definition sample_requirement :: requirement where
  "sample_requirement = \<lparr>rq_id = ''r1'', rq_projectId = ''p1'', rq_milestoneId = None, rq_key = ''K-1'',
     rq_title = ''login'', rq_description = ''d'', rq_status = RqVerified, rq_createdAt = At 0, rq_updatedAt = At 0\<rparr>"

definition sample_task :: task where
  "sample_task = \<lparr>task_id = ''t1'', task_projectId = ''p1'', task_title = ''work'', task_description = None,
     task_status = Pending, task_priority = Num 0, task_createdAt = At 0, task_updatedAt = At 0\<rparr>"

definition linked_world :: "governance_db world" where
  "linked_world = \<lparr>w_db = gov_empty\<lparr>db_tasks := [sample_task], gd_requirements := [sample_requirement],
     gd_links := [(''t1'', ''r1'')]\<rparr>, w_active = False, w_ids = 1, w_clock = 5\<rparr>"

definition unlinked_world :: "governance_db world" where
  "unlinked_world = linked_world\<lparr>w_db := (w_db linked_world)\<lparr>gd_links := []\<rparr>\<rparr>"

lemmas completion_samples = linked_world_def unlinked_world_def sample_task_def sample_requirement_def gov_empty_def


section \<open>Lemmas: an available plan can be recorded\<close>

definition plan_of ::
  "(string \<Rightarrow> string) \<Rightarrow> (rat \<Rightarrow> string) \<Rightarrow> string \<Rightarrow> string \<Rightarrow> task \<Rightarrow> 'z governance_db_scheme \<Rightarrow> completion_plan" where
  "plan_of sha256 num_str p reason v db =
     (let s = task_status v; evidence = requirementProgress (map lr_status (listForTask p (task_id v) db));
          free = (historicalCompletionRefusal s = None)
      in \<lparr>cp_projectId = p, cp_taskId = task_id v, cp_title = task_title v, cp_status = s,
          cp_resultingStatus = (if free then Completed else s), cp_kind = completion_kind_of s, cp_available = free,
          cp_refusalReason = historicalCompletionRefusal s,
          cp_suggestedCommand = (if completion_kind_of s = LifecycleTransition then Some ''task:complete'' else None),
          cp_evidence = evidence, cp_reason = reason,
          cp_planHash = (if free then Some (sha256 (JSON_stringify num_str
            (completion_json p (task_id v) s reason evidence))) else None)\<rparr>)"

lemma buildPlan_total:
  assumes "normalizeTaskReason given ''completion record reason'' = ok reason" and "project_exists (w_db w) p"
    and "task_find (w_db w) t = Some v" "task_projectId v = p" "task_id v = t"
  shows "buildPlan sha256 num_str p t given w = (ok (plan_of sha256 num_str p reason v (w_db w), v), w)"
  using assms by (simp add: buildPlan_def bindM_def requireTask_def Let_def completionPlanHash_eq plan_of_def)

lemma buildPlan_active:
  "buildPlan sha256 num_str p t given (w\<lparr>w_active := b\<rparr>) =
     (let (r, w') = buildPlan sha256 num_str p t given w in (r, w'\<lparr>w_active := b\<rparr>))"
  by (auto simp: buildPlan_def bindM_def requireTask_def Let_def split: sum.splits option.splits)

lemma task_save_correction:
  assumes "task_find db t = Some v" "task_id v = t" and "historicalCompletionRefusal (task_status v) = None"
    and "date_finite (task_createdAt v)" "date_finite now" "title_check (task_title v)"
  shows "\<exists>db'. task_save (v\<lparr>task_status := Completed, task_updatedAt := now\<rparr>) db = ok ((), db')
    \<and> db_projects db' = db_projects db \<and> db_audit db' = db_audit db"
  using assms by (auto simp: task_save_def iso_check_def task_update_def Let_def historicalCompletionRefusal_None)

lemma record_succeeds:
  assumes plan: "buildPlan sha256 num_str p t given w = (ok (plan, v), w)" "cp_planHash plan = Some h"
    and key: "task_id v = t" and idle: "\<not> w_active w"
    and dates: "date_finite (sv_now sv (w_clock w))" "date_finite (sv_now sv (Suc (w_clock w)))"
    and row: "date_finite (task_createdAt v)" "title_check (task_title v)"
    and fresh: "sv_id sv (w_ids w) \<notin> ae_id ` set (db_audit (w_db w))"
  shows "\<exists>res w'. record_completion sha256 num_str sv p t a given h w = (ok res, w')"
proof -
  note b = buildPlan_ok [OF plan(1)]
  have none: "historicalCompletionRefusal (task_status v) = None" using b plan(2) by (auto split: if_splits)
  obtain db' where s: "task_save (v\<lparr>task_status := Completed, task_updatedAt := sv_now sv (w_clock w)\<rparr>) (w_db w) = ok ((), db')"
      "db_projects db' = db_projects (w_db w)" "db_audit db' = db_audit (w_db w)"
    using task_save_correction [of "w_db w" t v] b key none dates(1) row by blast
  have pe: "project_exists db' p" using b s(2) by (simp add: project_exists_def)
  have fr: "\<forall>e \<in> set (db_audit (w_db w)). ae_id e \<noteq> sv_id sv (w_ids w)" using fresh by force
  have ty: "trim ''task.completion_recorded'' \<noteq> []"
    by (simp add: trim_def trimStart_def is_js_space_def js_whitespace_def)
  have "\<exists>res w'. record_work sha256 num_str sv p t a given h (w\<lparr>w_active := True\<rparr>) = (ok res, w')"
    using b plan none s pe dates(2) fr ty
    by (simp add: record_work_def bindM_def buildPlan_active Task_recordHistoricalCompletion_def execDb_def
        audit_task_def RecordAuditEvent_def AuditEvent_create_def audit_append_def iso_check_def)
  then show ?thesis using idle by (auto simp: record_completion_def transaction_def)
qed

lemma sample_plan:
  assumes "trim given = ''done''"
  shows "buildPlan id unary_num ''p1'' ''t1'' given linked_world =
    (ok (plan_of id unary_num ''p1'' ''done'' sample_task (w_db linked_world), sample_task), linked_world)"
  by (rule buildPlan_total) (use assms in \<open>simp_all add: normalizeTaskReason_def maximumTaskReasonLength_def
      project_exists_def task_find_def completion_samples\<close>)

lemma sample_given: "trim ''done'' = ''done''" "trim '' done '' = ''done''"
  by (simp_all add: trim_def trimStart_def is_js_space_def js_whitespace_def)

abbreviation sample_shown :: completion_plan where
  "sample_shown \<equiv> plan_of id unary_num ''p1'' ''done'' sample_task (w_db linked_world)"

lemma sample_hash: "cp_planHash sample_shown = Some (completion_text unary_num sample_shown)"
  by (simp add: plan_of_def completion_text_def Let_def sample_task_def historicalCompletionRefusal_None)

lemma sample_record:
  "\<exists>res w'. record_completion id unary_num counted_services ''p1'' ''t1'' ''op'' '' done '' (completion_text unary_num sample_shown)
     linked_world = (ok res, w')"
  by (rule record_succeeds [OF sample_plan [OF sample_given(2)] sample_hash])
    (simp_all add: completion_samples counted_services_def title_check_def)

section \<open>Properties\<close>

text \<open>C29. An approval binds what is recorded: when a completion is recorded against the hash of a plan
  that was shown earlier, in whatever state, then project, task, the status corrected from, the
  rationale and the requirement evidence of the recorded plan are those of the plan that was
  shown. The hash function is only assumed not to collide on the two hashed texts.\<close>

theorem completion_approval_binds_plan:
  assumes "number_printer num_str"
    and "completion_plan_command sha256 num_str p t given w0 = (ok shown, w1)" and "cp_planHash shown = Some h"
    and "record_completion sha256 num_str sv p' t' a given' h w = (ok res, w')"
    and "completion_plan_command sha256 num_str p' t' given' w = (ok recorded, w)"
    and "inj_on sha256 {completion_text num_str shown, completion_text num_str recorded}"
  shows "cp_projectId recorded = cp_projectId shown \<and> cp_taskId recorded = cp_taskId shown
    \<and> cp_status recorded = cp_status shown \<and> cp_reason recorded = cp_reason shown
    \<and> cp_evidence recorded = cp_evidence shown \<and> cr_taskId res = cp_taskId shown \<and> cr_from res = cp_status shown"
proof -
  obtain plan v where r: "buildPlan sha256 num_str p' t' given' w = (ok (plan, v), w)" "cp_planHash plan = Some h"
      "res = \<lparr>cr_taskId = task_id v, cr_from = task_status v, cr_to = Completed, cr_planHash = h\<rparr>"
    by (rule record_completion_ok [OF assms(4)])
  have plan: "plan = recorded" using assms(5) r(1) by (auto simp: completion_plan_command_def bindM_def)
  obtain v0 where s: "buildPlan sha256 num_str p t given w0 = (ok (shown, v0), w0)"
    by (rule plan_command_ok [OF assms(2)])
  have "sha256 (completion_text num_str recorded) = h" "sha256 (completion_text num_str shown) = h"
    using buildPlan_ok [OF r(1)] buildPlan_ok [OF s] r(2) assms(3) plan by (auto split: if_splits)
  then have "completion_text num_str recorded = completion_text num_str shown"
    using assms(6) by (metis inj_onD insertCI)
  from completion_text_inj [OF assms(1) this] show ?thesis using buildPlan_ok [OF r(1)] r(3) plan by auto
qed

theorem completion_approval_binds_plan_witness:
  "\<exists>shown res w'. completion_plan_command id unary_num ''p1'' ''t1'' ''done'' linked_world = (ok shown, linked_world)
     \<and> record_completion id unary_num counted_services ''p1'' ''t1'' ''op'' '' done '' (completion_text unary_num shown)
         linked_world = (ok res, w')
     \<and> cr_taskId res = cp_taskId shown \<and> cr_from res = cp_status shown"
proof -
  have p: "completion_plan_command id unary_num ''p1'' ''t1'' ''done'' linked_world = (ok sample_shown, linked_world)"
    and q: "completion_plan_command id unary_num ''p1'' ''t1'' '' done '' linked_world = (ok sample_shown, linked_world)"
    using sample_plan sample_given by (simp_all add: completion_plan_command_def bindM_def)
  obtain res w' where r: "record_completion id unary_num counted_services ''p1'' ''t1'' ''op'' '' done ''
     (completion_text unary_num sample_shown) linked_world = (ok res, w')" using sample_record by blast
  show ?thesis
    using completion_approval_binds_plan [OF number_printer_unary_num p sample_hash r q] p r by auto
qed

text \<open>The whole effect of a recorded completion: the task was pending, assigned or blocked, it is now
  completed, and nothing else of any task changed; the record writes exactly one audit event,
  of its own type, with the status corrected from, the rationale and the approved hash. No
  execution is recorded: the execution history, the dependencies and the links are as before.\<close>

theorem record_completion_effect:
  assumes "task_rows_ok (w_db w)" and "record_completion sha256 num_str sv p t a given h w = (ok res, w')"
  shows "\<exists>v event reason. task_find (w_db w) t = Some v \<and> task_projectId v = p
    \<and> task_status v \<in> {Pending, Assigned, Blocked} \<and> normalizeTaskReason given ''completion record reason'' = ok reason
    \<and> (\<forall>i. task_find (w_db w') i = (if i = t
         then Some (v\<lparr>task_status := Completed, task_updatedAt := sv_now sv (w_clock w)\<rparr>) else task_find (w_db w) i))
    \<and> db_executed (w_db w') = db_executed (w_db w) \<and> db_dependencies (w_db w') = db_dependencies (w_db w)
    \<and> gd_links (w_db w') = gd_links (w_db w)
    \<and> db_audit (w_db w') = db_audit (w_db w) @ [event] \<and> ae_eventType event = ''task.completion_recorded''
    \<and> ae_aggregateId event = Some t \<and> {(''from'', JStr (task_status_str (task_status v))), (''to'', JStr ''completed''),
        (''reason'', JStr reason), (''planHash'', JStr h)} \<subseteq> set (ae_payload event)"
proof (rule record_completion_ok [OF assms(2)])
  fix plan and v :: task and db1
  let ?v = "v\<lparr>task_status := Completed, task_updatedAt := sv_now sv (w_clock w)\<rparr>"
  let ?e = "task_audit_event sv (w\<lparr>w_clock := Suc (w_clock w)\<rparr>) ''task.completion_recorded'' a p (task_id v) (completion_payload plan h)"
  assume b: "buildPlan sha256 num_str p t given w = (ok (plan, v), w)"
    and none: "historicalCompletionRefusal (task_status v) = None" and save: "task_save ?v (w_db w) = ok ((), db1)"
    and db: "w_db w' = db1\<lparr>db_audit := db_audit db1 @ [?e]\<rparr>"
  note p = buildPlan_ok [OF b] and s = task_save_ok [OF save]
  have key: "task_id v = t" using sqlite_tasks.find_key [OF assms(1), of t v] p by simp
  have "merged_row (w_db w) ?v = ?v" using p key by (simp add: merged_row_def)
  then have rows: "\<forall>i. task_find (w_db w') i = (if i = t then Some ?v else task_find (w_db w) i)"
    using s(1) key db by simp
  have ex: "db_executed db1 = db_executed (w_db w)" "gd_links db1 = gd_links (w_db w)"
    using save p key none by (auto simp: task_save_def task_update_def Let_def result_simps
        historicalCompletionRefusal_None split: if_splits)
  have pay: "{(''from'', JStr (task_status_str (task_status v))), (''to'', JStr ''completed''),
        (''reason'', JStr (cp_reason plan)), (''planHash'', JStr h)} \<subseteq> set (ae_payload ?e)"
    using p by (simp add: task_audit_event_def completion_payload_def)
  have ty: "ae_eventType ?e = ''task.completion_recorded'' \<and> ae_aggregateId ?e = Some t"
    using key by (simp add: task_audit_event_def trim_def trimStart_def is_js_space_def js_whitespace_def)
  show ?thesis
    by (rule exI [of _ v], rule exI [of _ ?e], rule exI [of _ "cp_reason plan"])
      (use p none rows ex pay ty db s(4,5) in \<open>simp add: historicalCompletionRefusal_None\<close>)
qed

theorem record_completion_effect_witness:
  "\<exists>w'. (\<exists>res. record_completion id unary_num counted_services ''p1'' ''t1'' ''op'' '' done ''
       (completion_text unary_num sample_shown) linked_world = (ok res, w'))
     \<and> map_option task_status (task_find (w_db w') ''t1'') = Some Completed \<and> db_executed (w_db w') = []"
proof -
  obtain res w' where r: "record_completion id unary_num counted_services ''p1'' ''t1'' ''op'' '' done ''
     (completion_text unary_num sample_shown) linked_world = (ok res, w')" using sample_record by blast
  have rows: "task_rows_ok (w_db linked_world)" by (simp add: completion_samples task_rows_ok_def project_exists_def)
  have "db_executed (w_db linked_world) = []" by (simp add: completion_samples)
  then show ?thesis using record_completion_effect [OF rows r] r by auto
qed


text \<open>A plan that reports itself available can be recorded: approving its hash in the state it was
  computed from succeeds, so the preflight never promises a correction the transaction refuses.\<close>

theorem available_plan_is_recordable:
  assumes "completion_plan_command sha256 num_str p t given w = (ok plan, w)" and "cp_available plan"
    and "task_rows_ok (w_db w)" and "\<not> w_active w"
    and "\<forall>v \<in> set (db_tasks (w_db w)). date_finite (task_createdAt v) \<and> title_check (task_title v)"
    and "date_finite (sv_now sv (w_clock w))" and "date_finite (sv_now sv (Suc (w_clock w)))"
    and "sv_id sv (w_ids w) \<notin> ae_id ` set (db_audit (w_db w))"
  shows "\<exists>h res w'. cp_planHash plan = Some h \<and> record_completion sha256 num_str sv p t a given h w = (ok res, w')"
proof -
  obtain v where b: "buildPlan sha256 num_str p t given w = (ok (plan, v), w)" by (rule plan_command_ok [OF assms(1)])
  note p = buildPlan_ok [OF b]
  obtain h where h: "cp_planHash plan = Some h" using p assms(2) by auto
  have v: "v \<in> set (db_tasks (w_db w))" "task_id v = t"
    using p by (auto simp: task_find_def find_Some_iff)
  show ?thesis using record_succeeds [OF b h v(2) assms(4,6,7) _ _ assms(8)] assms(5) v(1) h by blast
qed

theorem available_plan_is_recordable_witness:
  "\<exists>h res w'. cp_planHash sample_shown = Some h
     \<and> record_completion id unary_num counted_services ''p1'' ''t1'' ''op'' ''done'' h linked_world = (ok res, w')"
proof -
  have p: "completion_plan_command id unary_num ''p1'' ''t1'' ''done'' linked_world = (ok sample_shown, linked_world)"
    using sample_plan sample_given by (simp add: completion_plan_command_def bindM_def)
  show ?thesis
    by (rule available_plan_is_recordable [OF p])
      (simp_all add: plan_of_def Let_def completion_samples historicalCompletionRefusal_None task_rows_ok_def
        project_exists_def title_check_def counted_services_def)
qed

text \<open>Reading the links of many tasks in one statement gives for each of them exactly what the read
  for that task alone gives, and no entry for a task without links.\<close>

theorem listForTasks_agrees:
  "listForTasks p ts db t =
     (if t \<in> set ts \<and> listForTask p t db \<noteq> [] then Some (listForTask p t db) else None)"
proof (cases "t \<in> set ts")
  case True
  let ?rows = "filter (\<lambda>(u, _). u \<in> set ts) (joined_links p db)"
  have "filter (\<lambda>(u, _). u = t) ?rows = filter (\<lambda>(u, _). u = t) (joined_links p db)"
    using True by (auto simp: filter_filter split_def intro: filter_cong)
  then have "map (\<lambda>(_, r). linked_row r) (filter (\<lambda>(u, _). u = t)
      (sort_key (\<lambda>(t, r). (t, rq_key r, rq_id r)) ?rows)) = listForTask p t db"
    by (simp add: sorted_of_one_task listForTask_def)
  then show ?thesis using True unfolding listForTasks_def group_add_fold by (auto simp: Let_def)
next
  case False
  then have "filter (\<lambda>(u, _). u = t) (filter (\<lambda>(u, _). u \<in> set ts) (joined_links p db)) = []"
    by (auto simp: filter_empty_conv)
  then show ?thesis using False unfolding listForTasks_def group_add_fold sorted_of_one_task by simp
qed

text \<open>Linking is idempotent and undone by unlinking: after a link both ends are in the named project
  and the requirement is listed for the task; the answer says whether the link is new; a link
  that already holds changes nothing; and unlinking a new link restores the relation.\<close>

theorem requirement_link_roundtrip:
  assumes "requirements_link sv p t r a w = (ok c, w')"
  shows "(t, r) \<in> set (gd_links (w_db w')) \<and> r \<in> lr_requirementId ` set (listForTask p t (w_db w'))
    \<and> (c \<longleftrightarrow> (t, r) \<notin> set (gd_links (w_db w))) \<and> (\<not> c \<longrightarrow> w_db w' = w_db w)
    \<and> (\<forall>b sv' d w''. requirements_link sv' p t r b w' = (ok d, w'') \<longrightarrow> \<not> d \<and> w_db w'' = w_db w')
    \<and> (\<forall>b sv' d w''. c \<longrightarrow> requirements_unlink sv' p t r b w' = (ok d, w'') \<longrightarrow>
         d \<and> gd_links (w_db w'') = gd_links (w_db w))"
proof (intro conjI allI impI)
  note l = requirements_link_ok [OF assms]
  show in': "(t, r) \<in> set (gd_links (w_db w'))" using l(1,4) by (cases c) auto
  have "task_in_project (w_db w') t p" "requirement_in_project (w_db w') r p"
    using l(2-4) by (cases c; simp add: task_in_project_def requirement_in_project_def)+
  then show "r \<in> lr_requirementId ` set (listForTask p t (w_db w'))" by (rule listed_when_linked [OF in'])
  show "c \<longleftrightarrow> (t, r) \<notin> set (gd_links (w_db w))" by (rule l(1))
  show "w_db w' = w_db w" if "\<not> c" using l(4) that by simp
  show "\<not> d" "w_db w'' = w_db w'" if "requirements_link sv' p t r b w' = (ok d, w'')" for b sv' d w''
    using requirements_link_ok(1,4) [OF that] in' by (simp_all split: if_splits)
  fix b sv' d w'' assume c and un: "requirements_unlink sv' p t r b w' = (ok d, w'')"
  have links: "gd_links (w_db w') = gd_links (w_db w) @ [(t, r)]" and new: "(t, r) \<notin> set (gd_links (w_db w))"
    using l(1,4) \<open>c\<close> by simp_all
  have f: "filter (\<lambda>l. l \<noteq> (t, r)) (gd_links (w_db w)) = gd_links (w_db w)"
      "filter (\<lambda>l. l = (t, r)) (gd_links (w_db w)) = []"
    using new by (auto simp: filter_id_conv filter_empty_conv)
  show d "gd_links (w_db w'') = gd_links (w_db w)"
    using requirements_unlink_ok [OF un] links f by simp_all
qed

theorem requirement_link_roundtrip_witness:
  "\<exists>w'. requirements_link counted_services ''p1'' ''t1'' ''r1'' ''op'' unlinked_world = (ok True, w')
     \<and> ''r1'' \<in> lr_requirementId ` set (listForTask ''p1'' ''t1'' (w_db w'))
     \<and> (\<exists>w''. requirements_unlink counted_services ''p1'' ''t1'' ''r1'' ''op'' w' = (ok True, w'')
         \<and> gd_links (w_db w'') = [])"
proof -
  note evals = requirements_link_def requirements_unlink_def requireBothEnds_def requireTask_def bindM_def
    transaction_def execDb_def requirement_link_def requirement_unlink_def iso_check_def task_in_project_def
    requirement_in_project_def audit_task_def RecordAuditEvent_def AuditEvent_create_def audit_append_def
    project_exists_def task_find_def trim_def trimStart_def is_js_space_def js_whitespace_def completion_samples
    counted_services_def
  obtain w' where l: "requirements_link counted_services ''p1'' ''t1'' ''r1'' ''op'' unlinked_world = (ok True, w')"
    and u: "\<exists>w''. requirements_unlink counted_services ''p1'' ''t1'' ''r1'' ''op'' w' = (ok True, w'')"
    by (simp add: evals)
  have "gd_links (w_db unlinked_world) = []" by (simp add: completion_samples)
  then show ?thesis using requirement_link_roundtrip [OF l] l u by auto
qed

end
