(* ===== verification/Task_Reachability.thy ===== *)
theory Task_Reachability
  imports Task_Completion
begin

text \<open>
  Sequences of the commands on tasks: the services of \<open>Task_Commands\<close> and the historical completion
  record of \<open>Task_Completion\<close>, in any order, with the pipelines that move their tasks and any other
  service that leaves the task tables alone in between. The properties are about every database that such a sequence reaches from a project without
  tasks. The service that stops the runs of a cancelled task (\<open>manage-agent-runs.ts\<close>) is a parameter.
\<close>

section \<open>Sequences of commands\<close>

record 'w task_deps =
  td_services :: services
  td_sha256 :: "string \<Rightarrow> string"
  td_num_str :: "rat \<Rightarrow> string"
  td_runCancellation :: "(string \<Rightarrow> string \<Rightarrow> string \<Rightarrow> string \<Rightarrow> ('w, unit) command) option"

datatype task_command =
    CmdCreate string string "string option" "js_num option"
  | CmdUpdate string string string "string option" "js_num option"
  | CmdLifecycle string string string lifecycle_operation "string option"
  | CmdLink string string string string
  | CmdUnlink string string string string
  | CmdRecord string string string string string

text \<open>A command run to its end, with whether it threw.\<close>

definition outcome :: "('s, 'a) command \<Rightarrow> ('s, unit) command" where
  "outcome m = bindM m (\<lambda>_. returnM ())"

text \<open>The operations of \<open>ManageTaskLifecycle\<close>: \<open>cancel\<close> is \<open>apply\<close> and then stops the runs.\<close>

definition run_lifecycle ::
  "'z governance_db_scheme world task_deps \<Rightarrow> string \<Rightarrow> string \<Rightarrow> string \<Rightarrow> lifecycle_operation \<Rightarrow> string option
     \<Rightarrow> ('z governance_db_scheme world, task_status) command" where
  "run_lifecycle td p t a oc r =
     (if oc = OpCancel then lifecycle_cancel (td_services td) True (td_runCancellation td) p t a r
      else lifecycle_apply (td_services td) True p t a oc r)"

fun run_command :: "'z governance_db_scheme world task_deps \<Rightarrow> task_command \<Rightarrow> ('z governance_db_scheme world, unit) command" where
  "run_command td (CmdCreate p title d prio) = outcome (CreateTask (td_services td) p title d prio)"
| "run_command td (CmdUpdate p t a d prio) = outcome (UpdateTask (td_services td) p t a d prio)"
| "run_command td (CmdLifecycle p t a oc r) = outcome (run_lifecycle td p t a oc r)"
| "run_command td (CmdLink p t d a) = outcome (dependencies_link (td_services td) p t d a)"
| "run_command td (CmdUnlink p t d a) = outcome (dependencies_unlink (td_services td) p t d a)"
| "run_command td (CmdRecord p t a given h) =
     outcome (record_completion (td_sha256 td) (td_num_str td) (td_services td) p t a given h)"

text \<open>
  What any other service does: it may add projects, audit events, rows of other tables, and execution
  history of the tasks it works on, as the triggers on runs and pipelines do.
\<close>

definition leaves_tasks :: "'z project_db_scheme world \<Rightarrow> 'z project_db_scheme world \<Rightarrow> bool" where
  "leaves_tasks w w' \<longleftrightarrow> set (db_projects (w_db w)) \<subseteq> set (db_projects (w_db w')) \<and> db_tasks (w_db w') = db_tasks (w_db w)
     \<and> db_dependencies (w_db w') = db_dependencies (w_db w) \<and> set (db_executed (w_db w)) \<subseteq> set (db_executed (w_db w'))
     \<and> (\<forall>i p. (i, p) \<in> set (db_executed (w_db w')) - set (db_executed (w_db w)) \<longrightarrow>
          (\<exists>v. task_find (w_db w) i = Some v \<and> task_projectId v = p))
     \<and> set (db_audit (w_db w)) \<subseteq> set (db_audit (w_db w')) \<and> w_ids w \<le> w_ids w'"

definition runs_apart :: "'z governance_db_scheme world task_deps \<Rightarrow> bool" where
  "runs_apart td \<longleftrightarrow> (\<forall>stop p t a r w. td_runCancellation td = Some stop \<longrightarrow> leaves_tasks w (snd (stop p t a r w)))"

definition empty_world :: "'z project_db_scheme world \<Rightarrow> bool" where
  "empty_world w \<longleftrightarrow> db_tasks (w_db w) = [] \<and> db_dependencies (w_db w) = []
     \<and> db_executed (w_db w) = [] \<and> \<not> w_active w"

text \<open>
  Besides the commands: the other services, and the pipelines (\<open>manage-pipeline-runs.ts\<close>), which start,
  complete and cancel the task of a run through the aggregate and save it. The restoring of a whole project
  from a snapshot is not among the steps.
\<close>

inductive task_reachable :: "'z governance_db_scheme world task_deps \<Rightarrow> 'z governance_db_scheme world \<Rightarrow> bool"
  for td :: "'z governance_db_scheme world task_deps" where
  start: "empty_world w \<Longrightarrow> task_reachable td w"
| step: "task_reachable td w \<Longrightarrow> run_command td c w = (r, w') \<Longrightarrow> task_reachable td w'"
| elsewhere: "task_reachable td w \<Longrightarrow> leaves_tasks w w' \<Longrightarrow> task_reachable td w'"
| saved: "task_reachable td w \<Longrightarrow> task_find (w_db w) (task_id v) = Some old \<Longrightarrow>
     isTaskTransitionAllowed (task_status old) (task_status v) \<Longrightarrow> task_save v (w_db w) = ok (u, db') \<Longrightarrow>
     task_reachable td (w\<lparr>w_db := db'\<rparr>)"

section \<open>Lemmas: one step\<close>

text \<open>What every step keeps: the invariant, the frozen prerequisites, identifiers below the counter.\<close>

definition step_ok :: "services \<Rightarrow> 'z project_db_scheme world \<Rightarrow> 'z project_db_scheme world \<Rightarrow> bool" where
  "step_ok sv w w' \<longleftrightarrow> tables_inv (w_db w') \<and> ids_bounded sv (w_ids w') (w_db w') \<and> frozen_step (w_db w) (w_db w')"

lemma step_ok_same_ids:
  assumes "ids_bounded sv (w_ids w) (w_db w)" and "w_ids w \<le> w_ids w'" and "tables_inv (w_db w')"
    and "task_ids (w_db w') = task_ids (w_db w)" and "frozen_step (w_db w) (w_db w')"
  shows "step_ok sv w w'"
  using assms unfolding step_ok_def ids_bounded_tasks task_ids_def by (metis order_less_le_trans)

lemma outcome_run: "outcome m w = (r, w') \<Longrightarrow> \<exists>r'. m w = (r', w')"
  by (auto simp: outcome_def bindM_def split: prod.splits sum.splits)

lemma leaves_step:
  assumes inv: "tables_inv (w_db w)" and ids: "ids_bounded sv (w_ids w) (w_db w)" and ex: "executed_ok (w_db w)"
    and l: "leaves_tasks w w'"
  shows "step_ok sv w w'"
proof -
  have same: "task_find (w_db w') i = task_find (w_db w) i" for i using l by (simp add: leaves_tasks_def task_find_def)
  have "same_project (w_db w') e = same_project (w_db w) e" for e using l by (simp add: leaves_tasks_def same_project_def)
  then have ok: "tables_ok (w_db w')"
    using inv l by (auto simp: tables_inv_def tables_ok_def task_rows_ok_def edges_ok_def leaves_tasks_def project_exists_def)
  have "{t. corrected (w_db w) t} \<subseteq> {t. corrected (w_db w') t}" using l by (auto simp: leaves_tasks_def corrected_def)
  then have "closed_except {t. corrected (w_db w') t} (w_db w)" by (rule closed_except_mono [OF tables_invD(3) [OF inv]])
  then have "tables_inv (w_db w')" using ok l same by (simp add: tables_inv_def closed_except_def leaves_tasks_def)
  moreover have "executed_ok (w_db w')" unfolding executed_ok_def same
  proof (intro allI impI)
    fix i q assume "(i, q) \<in> set (db_executed (w_db w'))"
    then show "\<exists>v. task_find (w_db w) i = Some v \<and> task_projectId v = q"
      using ex l by (cases "(i, q) \<in> set (db_executed (w_db w))") (auto simp: executed_ok_def leaves_tasks_def)
  qed
  then have "frozen_step (w_db w) (w_db w')" using l by (simp add: frozen_step_def leaves_tasks_def)
  ultimately show ?thesis using step_ok_same_ids [OF ids] l by (simp add: leaves_tasks_def task_ids_def)
qed

lemma saved_step:
  assumes inv: "tables_inv (w_db w)" and ids: "ids_bounded sv (w_ids w) (w_db w)" and ex: "executed_ok (w_db w)"
    and old: "task_find (w_db w) (task_id v) = Some old" and al: "isTaskTransitionAllowed (task_status old) (task_status v)"
    and save: "task_save v (w_db w) = ok (u, db')"
  shows "step_ok sv w (w\<lparr>w_db := db'\<rparr>)"
proof -
  have "tables_inv db'"
    by (rule task_save_inv [OF inv save]) (use old lifecycle_step_ok [OF tables_invD(4) [OF inv] save _ al] in auto)
  then show ?thesis
    using step_ok_same_ids [OF ids, of "w\<lparr>w_db := db'\<rparr>"] task_save_ids [OF save] old
      task_save_frozen [OF tables_invD(1) [OF inv] ex save] by simp
qed

text \<open>A historical correction completes a task whatever its prerequisites are, and says so in the audit trail.\<close>

lemma correction_inv:
  assumes inv: "tables_inv db" and v: "task_find db (task_id v) = Some v" "historicalCompletionRefusal (task_status v) = None"
    and save: "task_save (v\<lparr>task_status := Completed, task_updatedAt := now\<rparr>) db = ok (u, db1)"
    and ev: "ae_eventType ev = ''task.completion_recorded''" "ae_aggregateId ev = Some (task_id v)"
  shows "tables_inv (db1\<lparr>db_audit := db_audit db1 @ [ev]\<rparr>)"
proof -
  let ?X = "insert (task_id v) {t. corrected db t}"
  have "closed_except ?X db" by (rule closed_except_mono [OF tables_invD(3) [OF inv]]) auto
  then have "closed_except ?X db1"
    by (rule task_save_closed [OF tables_invD(4) [OF inv] _ save])
      (use v in \<open>auto simp: status_step_ok_def historicalCompletionRefusal_None\<close>)
  moreover have "?X \<subseteq> {t. corrected (db1\<lparr>db_audit := db_audit db1 @ [ev]\<rparr>) t}"
    using ev task_save_ok(5) [OF save] by (auto simp: corrected_def)
  ultimately show ?thesis
    using task_save_tables_ok [OF tables_invD(4) [OF inv] save] closed_except_mono
    unfolding tables_inv_def audit_tables_ok audit_closed by blast
qed

lemma forward_pair: "(\<And>x y. forward (f x y)) \<Longrightarrow> forward (case p of (x, y) \<Rightarrow> f x y)"
  by (cases p) simp

lemma forward_record: "forward (record_completion sha256 num_str sv p t a given h)"
  unfolding record_completion_def record_work_def buildPlan_def Let_def audit_task_def RecordAuditEvent_def requireTask_def
  by (intro forward_intros forward_pair)

lemma record_step:
  assumes inv: "tables_inv (w_db w)" and ids: "ids_bounded sv (w_ids w) (w_db w)" and ex: "executed_ok (w_db w)"
    and run: "record_completion sha256 num_str sv p t a given h w = (r, w')"
  shows "step_ok sv w w'"
proof -
  have le: "w_ids w \<le> w_ids w'" using forward_record run unfolding forward_def by blast
  show ?thesis
  proof (cases r)
    case (Inl e)
    then have "w_db w' = w_db w" using run clean_transaction unfolding record_completion_def clean_def by blast
    then show ?thesis using step_ok_same_ids [OF ids le] inv frozen_refl [OF ex] by simp
  next
    case (Inr res)
    with run have "record_completion sha256 num_str sv p t a given h w = (ok res, w')" by simp
    then show ?thesis
    proof (rule record_completion_ok)
      fix plan v db1
      assume b: "buildPlan sha256 num_str p t given w = (ok (plan, v), w)"
        and none: "historicalCompletionRefusal (task_status v) = None"
        and save: "task_save (v\<lparr>task_status := Completed, task_updatedAt := sv_now sv (w_clock w)\<rparr>) (w_db w) = ok ((), db1)"
        and w': "w_db w' = db1\<lparr>db_audit := db_audit db1 @ [task_audit_event sv (w\<lparr>w_clock := Suc (w_clock w)\<rparr>)
          ''task.completion_recorded'' a p (task_id v) (completion_payload plan h)]\<rparr>"
      have v: "task_find (w_db w) (task_id v) = Some v"
        using buildPlan_ok [OF b] sqlite_tasks.find_key [OF tables_invD(1) [OF inv]] by metis
      have "tables_inv (w_db w')"
        unfolding w' by (rule correction_inv [OF inv v none save])
          (simp_all add: task_audit_event_def trim_def trimStart_def is_js_space_def js_whitespace_def)
      moreover have "task_ids (w_db w') = task_ids (w_db w)" using task_save_ids [OF save] v w' by simp
      moreover have "frozen_step (w_db w) (w_db w')" using task_save_frozen [OF tables_invD(1) [OF inv] ex save] w' by simp
      ultimately show ?thesis by (intro step_ok_same_ids [OF ids le])
    qed
  qed
qed

lemma create_frozen:
  assumes inv: "tables_inv (w_db w)" and ex: "executed_ok (w_db w)" and run: "CreateTask sv p title d prio w = (r, w')"
  shows "frozen_step (w_db w) (w_db w')"
proof (cases r)
  case (Inl e)
  then have "w_db w' = w_db w" using run clean_CreateTask unfolding clean_def by blast
  then show ?thesis using frozen_refl [OF ex] by simp
next
  case (Inr i)
  then obtain v where "task_save v (w_db w) = ok ((), w_db w')"
    using run by (auto simp: CreateTask_def result_simps split: if_splits)
  then show ?thesis by (rule task_save_frozen [OF tables_invD(1) [OF inv] ex])
qed

lemma transactions_frozen:
  assumes inv: "tables_inv (w_db w)" and ex: "executed_ok (w_db w)"
  shows "UpdateTask sv p t a desc prio w = (r1, w') \<Longrightarrow> frozen_step (w_db w) (w_db w')"
    and "lifecycle_apply sv deps p t a oc reason w = (r2, w') \<Longrightarrow> frozen_step (w_db w) (w_db w')"
    and "dependencies_link sv p t d a w = (r3, w') \<Longrightarrow> frozen_step (w_db w) (w_db w')"
    and "dependencies_unlink sv p t d a w = (r4, w') \<Longrightarrow> frozen_step (w_db w) (w_db w')"
proof -
  note rows = tables_invD(1) [OF inv]
  let ?w = "w\<lparr>w_active := True\<rparr>"
  have s1: "frozen_step (w_db w) (w_db w1)" if "update_work sv p t a desc prio ?w = (ok x, w1)" for x w1
    using that by (rule update_work_ok) (use task_save_frozen [OF rows ex] in simp)
  show "UpdateTask sv p t a desc prio w = (r1, w') \<Longrightarrow> frozen_step (w_db w) (w_db w')"
    unfolding UpdateTask_def by (rule transaction_frozen [OF ex _ s1])
  have s2: "frozen_step (w_db w) (w_db w1)" if "lifecycle_perform sv deps p t a oc reason ?w = (ok x, w1)" for x w1
    using that by (rule lifecycle_perform_ok) (use task_save_frozen [OF rows ex] in simp)
  show "lifecycle_apply sv deps p t a oc reason w = (r2, w') \<Longrightarrow> frozen_step (w_db w) (w_db w')"
    unfolding lifecycle_apply_def by (rule transaction_frozen [OF ex _ s2])
  have s3: "frozen_step (w_db w) (w_db w1)" if "link_work sv p t d a ?w = (ok x, w1)" for x w1
    using that by (rule link_work_ok) (use dependency_link_frozen [OF ex, of "\<lparr>dep_projectId = p, dep_taskId = t,
      dep_dependsOn = d, dep_createdAt = sv_now sv (w_clock w)\<rparr>"] frozen_refl [OF ex] in auto)
  show "dependencies_link sv p t d a w = (r3, w') \<Longrightarrow> frozen_step (w_db w) (w_db w')"
    unfolding dependencies_link_def by (rule transaction_frozen [OF ex _ s3])
  have s4: "frozen_step (w_db w) (w_db w1)" if "unlink_work sv p t d a ?w = (ok x, w1)" for x w1
    using that by (rule unlink_work_ok) (use dependency_unlink_frozen [OF ex] in simp)
  show "dependencies_unlink sv p t d a w = (r4, w') \<Longrightarrow> frozen_step (w_db w) (w_db w')"
    unfolding dependencies_unlink_def by (rule transaction_frozen [OF ex _ s4])
qed

lemma step_ok_trans: "step_ok sv w w1 \<Longrightarrow> step_ok sv w1 w2 \<Longrightarrow> step_ok sv w w2"
  unfolding step_ok_def using frozen_trans by blast

lemma step_okD:
  assumes "step_ok sv w w'"
  shows "tables_inv (w_db w')" and "ids_bounded sv (w_ids w') (w_db w')" and "executed_ok (w_db w')"
  using assms by (simp_all add: step_ok_def frozen_step_def)

lemma apply_step:
  assumes inv: "tables_inv (w_db w)" and ids: "ids_bounded sv (w_ids w) (w_db w)" and ex: "executed_ok (w_db w)"
    and run: "lifecycle_apply sv deps p t a oc reason w = (r, w')"
  shows "step_ok sv w w'"
proof -
  have "w_ids w \<le> w_ids w'" using forward_commands(3) run unfolding forward_def by blast
  then show ?thesis
    using step_ok_same_ids [OF ids] lifecycle_apply_inv [OF inv run] transactions_frozen(2) [OF inv ex run] by blast
qed

lemma lifecycle_step:
  assumes inv: "tables_inv (w_db w)" and ids: "ids_bounded (td_services td) (w_ids w) (w_db w)" and ex: "executed_ok (w_db w)"
    and apart: "runs_apart td" and run: "run_lifecycle td p t a oc reason w = (r, w')"
  shows "step_ok (td_services td) w w'"
proof (cases "oc = OpCancel")
  case False
  then show ?thesis using apply_step [OF inv ids ex] run by (simp add: run_lifecycle_def)
next
  case True
  obtain s w1 where s: "lifecycle_apply (td_services td) True p t a OpCancel reason w = (s, w1)" by fastforce
  note one = apply_step [OF inv ids ex s]
  consider "w' = w1" | stop where "td_runCancellation td = Some stop"
      "w' = snd (stop p t a (case reason of None \<Rightarrow> ''Task cancelled'' | Some x \<Rightarrow> x) w1)"
    using run True s by (cases s; cases "td_runCancellation td")
      (auto simp: run_lifecycle_def lifecycle_cancel_def bindM_def split: prod.splits sum.splits)
  then show ?thesis
  proof cases
    case 2
    then have "leaves_tasks w1 w'" using apart by (simp add: runs_apart_def)
    then show ?thesis using step_ok_trans [OF one] leaves_step [OF step_okD [OF one]] by blast
  qed (use one in simp)
qed

lemma command_step:
  assumes inv: "tables_inv (w_db w)" and ids: "ids_bounded (td_services td) (w_ids w) (w_db w)" and ex: "executed_ok (w_db w)"
    and apart: "runs_apart td" and inj: "inj (sv_id (td_services td))" and run: "run_command td c w = (r, w')"
  shows "step_ok (td_services td) w w'"
proof -
  have le: "w_ids w \<le> w_ids w'" if "forward m" "m w = (x, w')" for m :: "('a governance_db_scheme world, 'b) command" and x
    using that unfolding forward_def by blast
  note same = step_ok_same_ids [OF ids]
  show ?thesis
  proof (cases c)
    case (CmdCreate p title d prio)
    then obtain x where x: "CreateTask (td_services td) p title d prio w = (x, w')" using run outcome_run by fastforce
    show ?thesis using CreateTask_inv [OF inv inj ids x] create_frozen [OF inv ex x] by (simp add: step_ok_def)
  next
    case (CmdUpdate p t a d prio)
    then obtain x where x: "UpdateTask (td_services td) p t a d prio w = (x, w')" using run outcome_run by fastforce
    show ?thesis using same [OF le [OF forward_commands(2) x]] UpdateTask_inv [OF inv x] transactions_frozen(1) [OF inv ex x] by blast
  next
    case (CmdLifecycle p t a oc reason)
    then show ?thesis using lifecycle_step [OF inv ids ex apart] run outcome_run by fastforce
  next
    case (CmdLink p t d a)
    then obtain x where x: "dependencies_link (td_services td) p t d a w = (x, w')" using run outcome_run by fastforce
    show ?thesis using same [OF le [OF forward_commands(4) x]] dependencies_link_inv [OF inv x] transactions_frozen(3) [OF inv ex x] by blast
  next
    case (CmdUnlink p t d a)
    then obtain x where x: "dependencies_unlink (td_services td) p t d a w = (x, w')" using run outcome_run by fastforce
    show ?thesis using same [OF le [OF forward_commands(5) x]] dependencies_unlink_inv [OF inv x] transactions_frozen(4) [OF inv ex x] by blast
  next
    case (CmdRecord p t a given h)
    then show ?thesis using record_step [OF inv ids ex] run outcome_run by fastforce
  qed
qed

section \<open>Lemmas: every reachable database\<close>

lemma task_reachable_inv:
  assumes inj: "inj (sv_id (td_services td))" and apart: "runs_apart td" and "task_reachable td w"
  shows "tables_inv (w_db w) \<and> ids_bounded (td_services td) (w_ids w) (w_db w) \<and> executed_ok (w_db w)"
  using assms(3)
proof (induction rule: task_reachable.induct)
  case (start w)
  then have "db_tasks (w_db w) = []" "db_dependencies (w_db w) = []" "db_executed (w_db w) = []" by (simp_all add: empty_world_def)
  then show ?case
    by (simp add: tables_inv_def tables_ok_def task_rows_ok_def edges_ok_def closed_except_def ids_bounded_def
        prerequisite_graph_def acyclic_def executed_ok_def)
next
  case (step w c r w')
  then show ?case using step_okD command_step [OF _ _ _ apart inj] by blast
next
  case (elsewhere w w')
  then show ?case using step_okD leaves_step by blast
next
  case (saved w v old u db')
  then show ?case using step_okD saved_step by blast
qed

text \<open>Completion propagates to every prerequisite, however far, up to a corrected task.\<close>

lemma completion_closed_trans:
  assumes inv: "tables_inv db" and "(d, t) \<in> (prerequisite_graph (db_dependencies db))\<^sup>+"
    and "task_find db t = Some v" and "task_status v = Completed"
  shows "(\<exists>u. task_find db d = Some u \<and> task_status u = Completed)
    \<or> (\<exists>c. corrected db c \<and> (d, c) \<in> (prerequisite_graph (db_dependencies db))\<^sup>+
          \<and> (c, t) \<in> (prerequisite_graph (db_dependencies db))\<^sup>*)"
  using assms(2-)
proof (induction arbitrary: v rule: trancl_induct)
  case (base y)
  then obtain e where "e \<in> set (db_dependencies db)" "dep_dependsOn e = d" "dep_taskId e = y"
    by (auto simp: prerequisite_graph_def)
  then have "(\<exists>u. task_find db d = Some u \<and> task_status u = Completed) \<or> corrected db y"
    using edge_tasks [OF tables_invD(4) [OF inv]] closed_exceptD [OF tables_invD(3) [OF inv]] base by (metis mem_Collect_eq)
  then show ?case using base.hyps by auto
next
  case (step y z)
  then obtain e where "e \<in> set (db_dependencies db)" "dep_dependsOn e = y" "dep_taskId e = z"
    by (auto simp: prerequisite_graph_def)
  then have "(\<exists>u. task_find db y = Some u \<and> task_status u = Completed) \<or> corrected db z"
    using edge_tasks [OF tables_invD(4) [OF inv]] closed_exceptD [OF tables_invD(3) [OF inv]] step.prems by (metis mem_Collect_eq)
  then show ?case
  proof
    assume "\<exists>u. task_find db y = Some u \<and> task_status u = Completed"
    then show ?thesis using step.IH step.hyps(2) by (meson rtrancl.rtrancl_into_rtrancl)
  next
    assume "corrected db z"
    then show ?thesis using step.hyps by (auto intro: trancl_into_trancl)
  qed
qed

text \<open>A command that throws leaves the database as it was, unless it is a cancellation: that is committed before the
  runs of the task are stopped, and stays when stopping them fails.\<close>

lemma failed_command:
  assumes "run_command td c w = (throw e, w')"
  shows "w_db w' = w_db w \<or> (\<exists>p t a r stop s w1. c = CmdLifecycle p t a OpCancel r \<and> td_runCancellation td = Some stop
    \<and> lifecycle_apply (td_services td) True p t a OpCancel r w = (ok s, w1)
    \<and> stop p t a (case r of None \<Rightarrow> ''Task cancelled'' | Some x \<Rightarrow> x) w1 = (throw e, w'))"
proof (cases "\<exists>p t a r. c = CmdLifecycle p t a OpCancel r")
  case True
  then obtain p t a r where c: "c = CmdLifecycle p t a OpCancel r" by blast
  then have "lifecycle_cancel (td_services td) True (td_runCancellation td) p t a r w = (throw e, w')"
    using assms by (auto simp: outcome_def run_lifecycle_def bindM_throw)
  moreover have "w_db w1 = w_db w" if "lifecycle_apply (td_services td) True p t a OpCancel r w = (throw x, w1)" for x w1
    using that clean_commands(2) unfolding clean_def by blast
  ultimately show ?thesis using c unfolding lifecycle_cancel_def
    by (cases "td_runCancellation td") (auto simp: bindM_throw)
next
  case False
  have rc: "clean (record_completion sha256 num_str sv p t a given h)" for sha256 num_str sv p t a given h
    unfolding record_completion_def by (rule clean_transaction)
  have "clean (run_command td c)"
    using False by (cases c) (auto simp: outcome_def run_lifecycle_def intro!: clean_last clean_CreateTask clean_commands rc)
  then show ?thesis using assms unfolding clean_def by blast
qed
section \<open>A sample project\<close>

text \<open>One project, counted identifiers, a clock that ticks; a task and its prerequisite.\<close>

definition sample_deps :: "governance_db world task_deps" where
  "sample_deps = \<lparr>td_services = counted_services, td_sha256 = id, td_num_str = unary_num, td_runCancellation = None\<rparr>"

definition fresh_world :: "governance_db world" where
  "fresh_world = \<lparr>w_db = gov_empty, w_active = False, w_ids = 1, w_clock = 0\<rparr>"

lemma sample_deps_ok: "inj (sv_id (td_services sample_deps))" "runs_apart sample_deps"
  using counted_inj by (simp_all add: sample_deps_def runs_apart_def)

lemma fresh_reachable: "task_reachable sample_deps fresh_world"
  by (rule task_reachable.start) (simp add: empty_world_def fresh_world_def gov_empty_def)

definition two_tasks :: "task_command list" where
  "two_tasks = [CmdCreate ''p1'' ''build'' None None, CmdCreate ''p1'' ''test'' None None,
     CmdLink ''p1'' ''xx'' ''x'' ''op'']"

fun run_commands :: "'z governance_db_scheme world task_deps \<Rightarrow> task_command list \<Rightarrow> 'z governance_db_scheme world \<Rightarrow> 'z governance_db_scheme world" where
  "run_commands td [] w = w"
| "run_commands td (c # cs) w = run_commands td cs (snd (run_command td c w))"

lemma run_commands_reachable: "task_reachable td w \<Longrightarrow> task_reachable td (run_commands td cs w)"
proof (induction cs arbitrary: w)
  case (Cons c cs)
  have "task_reachable td (snd (run_command td c w))"
    by (rule task_reachable.step [OF Cons.prems, of c "fst (run_command td c w)"]) simp
  then show ?case using Cons.IH by simp
qed simp

abbreviation two_world :: "governance_db world" where
  "two_world \<equiv> run_commands sample_deps two_tasks fresh_world"

text \<open>The dependent task is completed by a historical correction, against the hash of the plan shown for it.\<close>

definition shown_hash :: string where
  "shown_hash = (case fst (completion_plan_command id unary_num ''p1'' ''xx'' ''done'' two_world) of
     Inr plan \<Rightarrow> (case cp_planHash plan of Some h \<Rightarrow> h | None \<Rightarrow> []) | _ \<Rightarrow> [])"

abbreviation corrected_world :: "governance_db world" where
  "corrected_world \<equiv> run_commands sample_deps (two_tasks @ [CmdRecord ''p1'' ''xx'' ''op'' ''done'' shown_hash]) fresh_world"

lemma two_tasks_run:
  "map (\<lambda>t. (task_id t, task_status t)) (db_tasks (w_db corrected_world)) = [(''x'', Pending), (''xx'', Completed)]
   \<and> map (\<lambda>e. (dep_dependsOn e, dep_taskId e)) (db_dependencies (w_db corrected_world)) = [(''x'', ''xx'')]
   \<and> length (db_audit (w_db two_world)) = 1"
  by code_simp

lemma started_run:
  "fst (lifecycle_apply counted_services True ''p1'' ''x'' ''op'' OpStart None two_world) = ok Running"
  by code_simp

lemma nothing_executed: "db_executed (w_db two_world) = []"
  by code_simp

lemma trim_status_changed: "trim ''task.status_changed'' = ''task.status_changed''"
  by (simp add: trim_def trimStart_def is_js_space_def js_whitespace_def)

text \<open>The tables after a stored task is saved with another status in its own project.\<close>

lemma saved_task:
  assumes "task_save t db = ok (u, db')" and "task_find db (task_id t) = Some old"
    and "task_projectId t = task_projectId old" "task_createdAt t = task_createdAt old" "task_status old \<noteq> task_status t"
  shows "db' = (if task_status t \<in> {Running, WaitingReview} then mark_executed (task_id t) (task_projectId t) db else db)
      \<lparr>db_tasks := replace_task t (db_tasks db)\<rparr>"
proof -
  have "t\<lparr>task_projectId := task_projectId old, task_createdAt := task_createdAt old\<rparr> = t" using assms(3,4) by simp
  then show ?thesis
    using assms(1,2,5) by (auto simp: task_save_def task_update_def Let_def mark_executed_def result_simps split: if_splits)
qed

section \<open>Properties\<close>

text \<open>C26. In every database that the commands on tasks reach from a project without tasks, historical corrections included,
  whatever commands are accepted or refused, in whatever order, with pipelines that move their tasks and other services that
  leave the task and prerequisite tables alone in between (the restoring of a project snapshot apart): every prerequisite edge
  joins two tasks of one project, the prerequisite graph is acyclic, and completed work rests on completed work up to
  corrections: a direct or indirect prerequisite of a completed task is completed, unless the audit trail has a historical
  correction of the task or of a task between the two, which attests its completion without its prerequisites. The identifier
  generator is assumed not to repeat itself, and stopping the runs of a cancelled task to leave the task tables alone.\<close>

theorem task_tables_invariant:
  assumes "inj (sv_id (td_services td))" and "runs_apart td" and "task_reachable td w"
  shows "(\<forall>e \<in> set (db_dependencies (w_db w)). same_project (w_db w) e)
    \<and> acyclic (prerequisite_graph (db_dependencies (w_db w)))
    \<and> (\<forall>t d v. (d, t) \<in> (prerequisite_graph (db_dependencies (w_db w)))\<^sup>+ \<longrightarrow>
         task_find (w_db w) t = Some v \<longrightarrow> task_status v = Completed \<longrightarrow>
         (\<exists>u. task_find (w_db w) d = Some u \<and> task_status u = Completed)
         \<or> (\<exists>c. corrected (w_db w) c \<and> (d, c) \<in> (prerequisite_graph (db_dependencies (w_db w)))\<^sup>+
              \<and> (c, t) \<in> (prerequisite_graph (db_dependencies (w_db w)))\<^sup>*))"
proof -
  have inv: "tables_inv (w_db w)" using task_reachable_inv [OF assms] by blast
  show ?thesis using tables_invD(2) [OF inv] completion_closed_trans [OF inv]
    by (simp add: edges_ok_def)
qed

theorem task_tables_invariant_witness:
  "map (\<lambda>t. (task_id t, task_status t)) (db_tasks (w_db corrected_world)) = [(''x'', Pending), (''xx'', Completed)]
   \<and> acyclic (prerequisite_graph (db_dependencies (w_db corrected_world)))"
  using task_tables_invariant [OF sample_deps_ok run_commands_reachable [OF fresh_reachable,
      of "two_tasks @ [CmdRecord ''p1'' ''xx'' ''op'' ''done'' shown_hash]"]] two_tasks_run by blast

text \<open>C27. What an accepted lifecycle operation does, and all it does: the task exists in the project
  named, the transition is in the table, a start or completion has its prerequisites satisfied
  (for a start, reviewed work counts), and the database afterwards is the one before with the status and time of the
  task's row changed, with the task in the execution history if it is now running or in review, and with one more audit event, a
  status change of this task and project by this actor that says the operation, the two statuses and the
  reason. The rows and edges are assumed well formed, as they are in every reachable database.\<close>

theorem lifecycle_apply_effect:
  assumes "tables_ok (w_db w)" and "lifecycle_apply sv True p t a oc given w = (ok s, w')"
  shows "\<exists>v reason. project_exists (w_db w) p \<and> task_find (w_db w) t = Some v \<and> task_projectId v = p
    \<and> resolveReason oc given = ok reason
    \<and> isTaskTransitionAllowed (task_status v) s \<and> s = lifecycle_target oc
    \<and> (oc = OpStart \<longrightarrow> \<not> unmet_prerequisite [Completed, WaitingReview] (w_db w) p t)
    \<and> (oc = OpComplete \<longrightarrow> \<not> unmet_prerequisite [Completed] (w_db w) p t)
    \<and> w_db w' = (if s \<in> {Running, WaitingReview} then mark_executed t p (w_db w) else w_db w)
        \<lparr>db_tasks := replace_task (v\<lparr>task_status := s, task_updatedAt := sv_now sv (w_clock w)\<rparr>) (db_tasks (w_db w)),
         db_audit := db_audit (w_db w) @ [\<lparr>ae_id = sv_id sv (w_ids w), ae_eventType = ''task.status_changed'',
           ae_actorType = ActorCli, ae_actorId = Some a, ae_aggregateType = Some ''task'', ae_aggregateId = Some t,
           ae_projectId = Some p, ae_payload = status_payload oc (task_status v) reason,
           ae_occurredAt = sv_now sv (Suc (w_clock w))\<rparr>]\<rparr>"
proof -
  note rows = tables_okD(1) [OF assms(1)]
  let ?w = "w\<lparr>w_active := True\<rparr>"
  obtain w1 where w1: "lifecycle_perform sv True p t a oc given ?w = (ok s, w1)" "w' = w1\<lparr>w_active := False\<rparr>"
    using assms(2) by (auto simp: lifecycle_apply_def transaction_ok)
  show ?thesis using w1(1)
  proof (rule lifecycle_perform_ok)
    fix v :: task and reason db1
    let ?v = "v\<lparr>task_status := lifecycle_target oc, task_updatedAt := sv_now sv (w_clock ?w)\<rparr>"
    assume r: "resolveReason oc given = ok reason" and v: "project_exists (w_db ?w) p" "task_find (w_db ?w) t = Some v"
        "task_projectId v = p"
      and pre: "True \<longrightarrow> oc \<in> {OpStart, OpComplete} \<longrightarrow> blocked_by p t
        (if oc = OpStart then ForStart else ForCompletion) (w_db ?w) = ok []"
      and al: "isTaskTransitionAllowed (task_status v) (lifecycle_target oc)" "s = lifecycle_target oc"
      and save: "task_save ?v (w_db ?w) = ok ((), db1)"
      and db: "w_db w1 = db1\<lparr>db_audit := db_audit db1 @ [task_audit_event sv (?w\<lparr>w_clock := Suc (w_clock ?w)\<rparr>)
        ''task.status_changed'' a p (task_id v) (status_payload oc (task_status v) reason)]\<rparr>"
    have key: "task_id v = t" using sqlite_tasks.find_key [OF rows, of t v] v by simp
    have "task_status v \<noteq> s" using al by (cases "task_status v") (auto simp: isTaskTransitionAllowed_def)
    then have "db1 = (if s \<in> {Running, WaitingReview} then mark_executed t p (w_db w) else w_db w)
        \<lparr>db_tasks := replace_task ?v (db_tasks (w_db w))\<rparr>"
      using saved_task [OF save, of v] v key al(2) by auto
    moreover have "oc = OpStart \<longrightarrow> \<not> unmet_prerequisite [Completed, WaitingReview] (w_db w) p t"
      "oc = OpComplete \<longrightarrow> \<not> unmet_prerequisite [Completed] (w_db w) p t"
      using pre blocked_by_iff_trigger [OF assms(1), of p t] by auto
    ultimately show ?thesis using r v al key db w1(2)
      by (simp add: task_audit_event_def trim_status_changed)
  qed
qed

theorem lifecycle_apply_effect_witness:
  "\<exists>w'. fst (lifecycle_apply counted_services True ''p1'' ''x'' ''op'' OpStart None two_world) = ok Running
     \<and> w' = snd (lifecycle_apply counted_services True ''p1'' ''x'' ''op'' OpStart None two_world)
     \<and> length (db_audit (w_db w')) = 2 \<and> (''x'', ''p1'') \<in> set (db_executed (w_db w'))"
proof -
  let ?w' = "snd (lifecycle_apply counted_services True ''p1'' ''x'' ''op'' OpStart None two_world)"
  have ok: "tables_ok (w_db two_world)"
    using task_reachable_inv [OF sample_deps_ok run_commands_reachable [OF fresh_reachable]] tables_invD(4) by blast
  have run: "lifecycle_apply counted_services True ''p1'' ''x'' ''op'' OpStart None two_world = (ok Running, ?w')"
    using started_run by (metis prod.collapse)
  from lifecycle_apply_effect [OF ok run] two_tasks_run started_run show ?thesis
    by (auto simp: mark_executed_def nothing_executed)
qed

text \<open>C28. The checks the application makes before a write and the triggers of the storage agree: the
  prerequisite check refuses a start or a completion exactly when the trigger would abort it,
  and the cycle check, which reads the edges of one project, refuses an edge exactly when the
  trigger, which searches the whole table, or the check constraint would.\<close>

theorem application_checks_match_triggers:
  assumes "inj (sv_id (td_services td))" and "runs_apart td" and "task_reachable td w"
  shows "(blocked_by p t ForStart (w_db w) = ok [] \<longleftrightarrow>
            \<not> unmet_prerequisite [Completed, WaitingReview] (w_db w) p t)
    \<and> (blocked_by p t ForCompletion (w_db w) = ok [] \<longleftrightarrow> \<not> unmet_prerequisite [Completed] (w_db w) p t)
    \<and> (task_find (w_db w) t = Some v \<and> task_projectId v = p \<longrightarrow>
        (assertAcyclicDependency t d (dependency_listByProject (w_db w) p) = ok () \<longleftrightarrow>
           t \<noteq> d \<and> \<not> cycle_trigger (w_db w) t d))"
proof -
  have inv: "tables_ok (w_db w)" using task_reachable_inv [OF assms] tables_invD(4) by blast
  show ?thesis using blocked_by_iff_trigger [OF inv] acyclic_check_iff_trigger [OF inv] by blast
qed

theorem application_checks_match_triggers_witness:
  "blocked_by ''p1'' ''xx'' ForStart (w_db two_world) \<noteq> ok []
   \<longleftrightarrow> unmet_prerequisite [Completed, WaitingReview] (w_db two_world) ''p1'' ''xx''"
  using application_checks_match_triggers [OF sample_deps_ok run_commands_reachable [OF fresh_reachable,
      of two_tasks], of "''p1''" "''xx''"] by blast

text \<open>Once a task has an execution history, its prerequisites are frozen: no sequence of commands
  adds or removes an edge of the task or drops the history row.\<close>

theorem execution_freezes_prerequisites:
  assumes "inj (sv_id (td_services td))" and "runs_apart td" and "task_reachable td w" and "(t, p) \<in> set (db_executed (w_db w))"
  shows "filter (\<lambda>e. dep_taskId e = t) (db_dependencies (w_db (run_commands td cs w))) =
      filter (\<lambda>e. dep_taskId e = t) (db_dependencies (w_db w))
    \<and> (t, p) \<in> set (db_executed (w_db (run_commands td cs w)))"
proof -
  have "frozen_step (w_db w) (w_db (run_commands td cs w))" using assms(3)
  proof (induction cs arbitrary: w)
    case Nil
    then show ?case using frozen_refl task_reachable_inv [OF assms(1,2)] by fastforce
  next
    case (Cons c cs)
    let ?w = "snd (run_command td c w)"
    have run: "run_command td c w = (fst (run_command td c w), ?w)" by simp
    have "frozen_step (w_db w) (w_db ?w)"
      using command_step [OF _ _ _ assms(2,1) run] task_reachable_inv [OF assms(1,2) Cons.prems] by (simp add: step_ok_def)
    moreover have "frozen_step (w_db ?w) (w_db (run_commands td cs ?w))"
      using Cons.IH task_reachable.step [OF Cons.prems run] by blast
    ultimately show ?case using frozen_trans by auto
  qed
  then show ?thesis using assms(4) unfolding frozen_step_def by blast
qed

end
