(* ===== verification/Cost.thy ===== *)
theory Cost
  imports Governance
begin

text \<open>
  Cost accounting: the domain of \<open>packages/domain/src/cost/cost.ts\<close>, the prices of
  \<open>packages/llm-gateway/src/cost-calculator.ts\<close> and the repository
  \<open>sqlite-cost.repository.ts\<close> with the constraints and triggers of its tables. Every operation
  of the repository is one database transaction, so a sequence of operations is any interleaving
  of the processes that use it.

  Amounts are \<open>bigint\<close>s in millionths of a currency unit, modelled as integers; the table
  columns hold them as integers up to the largest safe number, and a sum that is larger is an
  error. Dates are stored as ISO texts, whose order is the order of the dates for the years 0 to
  9999.
\<close>

section \<open>The model\<close>

subsection \<open>Usage and prices\<close>

datatype currency = USD | EUR

record cost_amount =
  ca_micros :: int
  ca_currency :: currency

record model_usage =
  mu_inputTokens :: js_num
  mu_cachedInputTokens :: js_num
  mu_outputTokens :: js_num
  mu_reasoningTokens :: js_num

record usage_bound =
  ub_inputTokens :: js_num
  ub_outputTokens :: js_num

record billable_tokens =
  bt_uncachedInputTokens :: js_num
  bt_cachedInputTokens :: js_num
  bt_nonReasoningOutputTokens :: js_num
  bt_reasoningTokens :: js_num

datatype usage_field = FInput | FCached | FOutput | FReasoning

fun usage_field_str :: "usage_field \<Rightarrow> string" where
  "usage_field_str FInput = ''inputTokens''"
| "usage_field_str FCached = ''cachedInputTokens''"
| "usage_field_str FOutput = ''outputTokens''"
| "usage_field_str FReasoning = ''reasoningTokens''"

definition usageFields :: "usage_field list" where
  "usageFields = [FInput, FCached, FOutput, FReasoning]"

fun usage_get :: "model_usage \<Rightarrow> usage_field \<Rightarrow> js_num" where
  "usage_get u FInput = mu_inputTokens u"
| "usage_get u FCached = mu_cachedInputTokens u"
| "usage_get u FOutput = mu_outputTokens u"
| "usage_get u FReasoning = mu_reasoningTokens u"

text \<open>A count: \<open>Number.isSafeInteger(value) && !(value < 0)\<close>.\<close>

definition safe_count :: "js_num \<Rightarrow> bool" where
  "safe_count n \<longleftrightarrow> isSafeInteger n \<and> \<not> num_lt n (Num 0)"

text \<open>The difference of two finite numbers; only \<open>-0 - 0\<close> is the negative zero.\<close>

fun js_sub :: "js_num \<Rightarrow> js_num \<Rightarrow> js_num" where
  "js_sub NegZero (Num q) = (if q = 0 then NegZero else Num (- q))"
| "js_sub a b = Num (num_value a - num_value b)"

definition billableTokens :: "model_usage \<Rightarrow> billable_tokens result" where
  "billableTokens usage =
     bindR (forR (\<lambda>field. if safe_count (usage_get usage field) then ok ()
         else throw (InvalidModelUsageError (usage_field_str field))) usageFields) (\<lambda>_.
       if num_lt (mu_inputTokens usage) (mu_cachedInputTokens usage)
       then throw (InvalidModelUsageError ''cachedInputTokens'')
       else if num_lt (mu_outputTokens usage) (mu_reasoningTokens usage)
       then throw (InvalidModelUsageError ''reasoningTokens'')
       else ok \<lparr>bt_uncachedInputTokens = js_sub (mu_inputTokens usage) (mu_cachedInputTokens usage),
         bt_cachedInputTokens = mu_cachedInputTokens usage,
         bt_nonReasoningOutputTokens = js_sub (mu_outputTokens usage) (mu_reasoningTokens usage),
         bt_reasoningTokens = mu_reasoningTokens usage\<rparr>)"

record model_price =
  mp_currency :: currency
  mp_input :: int
  mp_cachedInput :: int
  mp_output :: int
  mp_reasoning :: int

text \<open>Division of \<open>bigint\<close>s by a positive number rounds towards zero.\<close>

definition bigint_div :: "int \<Rightarrow> int \<Rightarrow> int" where
  "bigint_div a b = (if 0 \<le> a then a div b else - ((- a) div b))"

definition million :: int where
  "million = 1000000"

definition calculateCost :: "model_usage \<Rightarrow> model_price \<Rightarrow> cost_amount result" where
  "calculateCost usage price =
     bindR (billableTokens usage) (\<lambda>tokens.
       ok \<lparr>ca_micros = bigint_div
           (toBigInt (bt_uncachedInputTokens tokens) * mp_input price
            + toBigInt (bt_cachedInputTokens tokens) * mp_cachedInput price
            + toBigInt (bt_nonReasoningOutputTokens tokens) * mp_output price
            + toBigInt (bt_reasoningTokens tokens) * mp_reasoning price) million,
         ca_currency = mp_currency price\<rparr>)"

definition larger :: "int \<Rightarrow> int \<Rightarrow> int" where
  "larger left right = (if left > right then left else right)"

definition calculateMaximumCost :: "usage_bound \<Rightarrow> model_price \<Rightarrow> cost_amount result" where
  "calculateMaximumCost bound price =
     bindR (forR (\<lambda>v. if safe_count v then ok ()
         else throw (RangeError ''Usage bounds must be non-negative safe integers''))
         [ub_inputTokens bound, ub_outputTokens bound]) (\<lambda>_.
       ok \<lparr>ca_micros = bigint_div
           (toBigInt (ub_inputTokens bound) * larger (mp_input price) (mp_cachedInput price)
            + toBigInt (ub_outputTokens bound) * larger (mp_output price) (mp_reasoning price)) million,
         ca_currency = mp_currency price\<rparr>)"

subsection \<open>The tables\<close>

record pricing_version =
  pv_id :: string
  pv_provider :: string
  pv_model :: string
  pv_currency :: currency
  pv_input :: int
  pv_cachedInput :: int
  pv_output :: int
  pv_reasoning :: int
  pv_effectiveFrom :: js_date
  pv_effectiveTo :: "js_date option"

datatype charge_basis = ReportedUsage | ReservedEnvelope
datatype budget_scope_type = ScopeProject | ScopeTask | ScopeAgent | ScopeAgentRun
datatype reservation_status = RsActive | RsConsumed | RsReleased

record budget_row =
  bg_id :: string
  bg_projectId :: string
  bg_scopeType :: budget_scope_type
  bg_scopeId :: string
  bg_currency :: currency
  bg_limit :: int

record budget_snapshot = budget_row +
  bs_spent :: int
  bs_reserved :: int

record reservation_row =
  rs_id :: string
  rs_budgetId :: string
  rs_agentRunId :: "string option"
  rs_amount :: int
  rs_status :: reservation_status
  rs_expiresAt :: js_date

record usage_context =
  uc_projectId :: string
  uc_taskId :: "string option"
  uc_agentId :: "string option"
  uc_agentRunId :: "string option"
  uc_purpose :: string

record usage_row =
  us_id :: string
  us_context :: usage_context
  us_provider :: string
  us_model :: string
  us_providerRequestId :: "string option"
  us_usage :: model_usage
  us_occurredAt :: js_date

record cost_event =
  ce_id :: string
  ce_projectId :: string
  ce_usageId :: string
  ce_pricingVersionId :: string
  ce_reservationId :: "string option"
  ce_estimated :: int
  ce_reserved :: int
  ce_actual :: int
  ce_overage :: int
  ce_currency :: currency
  ce_chargeBasis :: charge_basis
  ce_occurredAt :: js_date

text \<open>Of an agent only the identifier and the project are read.\<close>

record cost_db = governance_db +
  cd_agents :: "(string \<times> string) list"
  cd_pricing :: "pricing_version list"
  cd_budgets :: "budget_row list"
  cd_reservations :: "reservation_row list"
  cd_usage :: "usage_row list"
  cd_costs :: "cost_event list"


subsection \<open>Numbers at the border of the tables\<close>

definition maxSafe :: int where
  "maxSafe = 9007199254740991"

text \<open>\<open>safe\<close> and \<open>restoredInteger\<close>; a number that is read is an integer column or a sum of them.\<close>

definition safe :: "int \<Rightarrow> int result" where
  "safe v = (if v < 0 \<or> v > maxSafe then throw MonetaryOverflowError else ok v)"

definition restoredInteger :: "int \<Rightarrow> int result" where
  "restoredInteger v = (if v < 0 \<or> v > maxSafe then throw MonetaryOverflowError else ok v)"

definition safeCount :: "js_num \<Rightarrow> js_num result" where
  "safeCount n = (if safe_count n then ok n else throw MonetaryOverflowError)"

text \<open>\<open>SUM\<close> of an integer column, which aborts when it leaves 64 bits.\<close>

definition sql_sum :: "int list \<Rightarrow> int result" where
  "sql_sum xs = (if sum_list xs > 9223372036854775807 then throw (StorageConstraintError ''integer overflow'')
     else ok (sum_list xs))"

subsection \<open>Pricing\<close>

definition endOfTime :: int where
  "endOfTime = 253402300799999"

text \<open>\<open>COALESCE(effective_to, '9999-12-31T23:59:59.999Z')\<close>\<close>

definition pv_end :: "pricing_version \<Rightarrow> js_date" where
  "pv_end p = (case pv_effectiveTo p of None \<Rightarrow> At endOfTime | Some d \<Rightarrow> d)"

definition same_price_key :: "pricing_version \<Rightarrow> pricing_version \<Rightarrow> bool" where
  "same_price_key p q \<longleftrightarrow> pv_provider p = pv_provider q \<and> pv_model p = pv_model q \<and> pv_currency p = pv_currency q"

definition overlaps :: "pricing_version \<Rightarrow> pricing_version \<Rightarrow> bool" where
  "overlaps p new \<longleftrightarrow> same_price_key p new \<and> date_lt (pv_effectiveFrom new) (pv_end p)
     \<and> date_lt (pv_effectiveFrom p) (pv_end new)"

text \<open>The open versions that end when the new one starts, one row at a time with its trigger.\<close>

fun close_open :: "js_date \<Rightarrow> pricing_version list \<Rightarrow> pricing_version list \<Rightarrow> pricing_version list result" where
  "close_open d [] rows = ok rows"
| "close_open d (r # rs) rows =
     (let new = r\<lparr>pv_effectiveTo := Some d\<rparr> in
      if \<exists>p \<in> set rows. pv_id p \<noteq> pv_id new \<and> overlaps p new
      then throw (PricingOverlapError (pv_provider r) (pv_model r))
      else close_open d rs (map (\<lambda>p. if pv_id p = pv_id new then new else p) rows))"

definition price_columns :: "pricing_version \<Rightarrow> js_date \<Rightarrow> unit result" where
  "price_columns v createdAt =
     bindR (forR (\<lambda>rate. bindR (safe rate) (\<lambda>_. ok ()))
       [pv_input v, pv_cachedInput v, pv_output v, pv_reasoning v]) (\<lambda>_.
     bindR (case pv_effectiveTo v of None \<Rightarrow> ok () | Some e \<Rightarrow> iso_check e) (\<lambda>_. iso_check createdAt))"

definition savePricing ::
  "pricing_version \<Rightarrow> js_date \<Rightarrow> 'z cost_db_scheme \<Rightarrow> (unit \<times> 'z cost_db_scheme) result" where
  "savePricing v createdAt db =
     (if (case pv_effectiveTo v of None \<Rightarrow> False | Some e \<Rightarrow> date_le e (pv_effectiveFrom v))
      then throw (PricingOverlapError (pv_provider v) (pv_model v))
      else if list_ex (\<lambda>p. pv_id p = pv_id v) (cd_pricing db) then ok ((), db)
      else
        bindR (iso_check (pv_effectiveFrom v)) (\<lambda>_.
        bindR (close_open (pv_effectiveFrom v)
          (filter (\<lambda>p. same_price_key p v \<and> pv_effectiveTo p = None
             \<and> date_lt (pv_effectiveFrom p) (pv_effectiveFrom v)) (cd_pricing db)) (cd_pricing db)) (\<lambda>rows.
        bindR (price_columns v createdAt) (\<lambda>_.
          if list_ex (\<lambda>p. overlaps p v) rows then throw (PricingOverlapError (pv_provider v) (pv_model v))
          else if list_ex (\<lambda>p. pv_provider p = pv_provider v \<and> pv_model p = pv_model v
              \<and> pv_effectiveFrom p = pv_effectiveFrom v) rows
          then throw (StorageConstraintError ''UNIQUE constraint failed: pricing_version'')
          else ok ((), db\<lparr>cd_pricing := rows @ [v]\<rparr>)))))"

definition findPricing ::
  "string \<Rightarrow> string \<Rightarrow> js_date \<Rightarrow> 'z cost_db_scheme \<Rightarrow> pricing_version option result" where
  "findPricing provider model moment db =
     bindR (iso_check moment) (\<lambda>_.
       ok (case sort_key (\<lambda>p. - date_ms (pv_effectiveFrom p))
             (filter (\<lambda>p. pv_provider p = provider \<and> pv_model p = model \<and> date_le (pv_effectiveFrom p) moment
                \<and> (case pv_effectiveTo p of None \<Rightarrow> True | Some e \<Rightarrow> date_lt moment e)) (cd_pricing db)) of
           [] \<Rightarrow> None
         | p # _ \<Rightarrow> Some p))"

subsection \<open>Budgets and reservations\<close>

text \<open>The trigger \<open>budget_scope_valid_insert\<close>.\<close>

definition budget_scope_valid :: "budget_row \<Rightarrow> 'z cost_db_scheme \<Rightarrow> bool" where
  "budget_scope_valid b db =
     (case bg_scopeType b of
        ScopeProject \<Rightarrow> bg_scopeId b = bg_projectId b
      | ScopeTask \<Rightarrow> \<exists>t \<in> set (db_tasks db). task_id t = bg_scopeId b \<and> task_projectId t = bg_projectId b
      | ScopeAgent \<Rightarrow> (bg_scopeId b, bg_projectId b) \<in> set (cd_agents db)
      | ScopeAgentRun \<Rightarrow> (bg_scopeId b, bg_projectId b) \<in> set (gd_agentRuns db))"

definition same_budget_key :: "budget_row \<Rightarrow> string \<Rightarrow> budget_scope_type \<Rightarrow> string \<Rightarrow> currency \<Rightarrow> bool" where
  "same_budget_key b p ty i c \<longleftrightarrow> bg_projectId b = p \<and> bg_scopeType b = ty \<and> bg_scopeId b = i \<and> bg_currency b = c"

definition saveBudget :: "budget_row \<Rightarrow> js_date \<Rightarrow> 'z cost_db_scheme \<Rightarrow> (unit \<times> 'z cost_db_scheme) result" where
  "saveBudget v now db =
     bindR (safe (bg_limit v)) (\<lambda>_.
     bindR (iso_check now) (\<lambda>_.
       let same = (\<lambda>b. same_budget_key b (bg_projectId v) (bg_scopeType v) (bg_scopeId v) (bg_currency v)) in
       if \<not> budget_scope_valid v db
       then throw (StorageConstraintError ''invalid or cross-project budget scope'')
       else if \<exists>b \<in> set (cd_budgets db). same b
       then ok ((), db\<lparr>cd_budgets := map (\<lambda>b. if same b then b\<lparr>bg_limit := bg_limit v\<rparr> else b) (cd_budgets db)\<rparr>)
       else if bg_id v \<in> bg_id ` set (cd_budgets db)
       then throw (StorageConstraintError ''UNIQUE constraint failed: budget.id'')
       else if \<not> project_exists db (bg_projectId v) then throw (StorageConstraintError ''FOREIGN KEY constraint failed'')
       else ok ((), db\<lparr>cd_budgets := cd_budgets db @ [v]\<rparr>)))"

text \<open>The charges a budget counts: those of its project and currency, and of its scope.\<close>

definition usage_of :: "'z cost_db_scheme \<Rightarrow> cost_event \<Rightarrow> usage_row option" where
  "usage_of db c = find (\<lambda>u. us_id u = ce_usageId c) (cd_usage db)"

definition in_scope :: "budget_row \<Rightarrow> usage_context \<Rightarrow> bool" where
  "in_scope b ctxt = (case bg_scopeType b of
       ScopeProject \<Rightarrow> True
     | ScopeTask \<Rightarrow> uc_taskId ctxt = Some (bg_scopeId b)
     | ScopeAgent \<Rightarrow> uc_agentId ctxt = Some (bg_scopeId b)
     | ScopeAgentRun \<Rightarrow> uc_agentRunId ctxt = Some (bg_scopeId b))"

definition counted :: "'z cost_db_scheme \<Rightarrow> budget_row \<Rightarrow> cost_event \<Rightarrow> bool" where
  "counted db b c \<longleftrightarrow> ce_projectId c = bg_projectId b \<and> ce_currency c = bg_currency b
     \<and> (bg_scopeType b = ScopeProject
        \<or> (case usage_of db c of None \<Rightarrow> False | Some u \<Rightarrow> in_scope b (us_context u)))"

definition spentMicros :: "budget_row \<Rightarrow> 'z cost_db_scheme \<Rightarrow> int result" where
  "spentMicros b db = bindR (sql_sum (map ce_actual (filter (counted db b) (cd_costs db)))) restoredInteger"

definition holds :: "string \<Rightarrow> js_date \<Rightarrow> reservation_row \<Rightarrow> bool" where
  "holds budgetId now r \<longleftrightarrow> rs_budgetId r = budgetId \<and> rs_status r = RsActive \<and> date_lt now (rs_expiresAt r)"

definition reservedMicros :: "string \<Rightarrow> js_date \<Rightarrow> 'z cost_db_scheme \<Rightarrow> int result" where
  "reservedMicros budgetId now db =
     bindR (iso_check now) (\<lambda>_.
     bindR (sql_sum (map rs_amount (filter (holds budgetId now) (cd_reservations db)))) restoredInteger)"

definition budget_at ::
  "string \<Rightarrow> budget_scope_type \<Rightarrow> string \<Rightarrow> currency \<Rightarrow> 'z cost_db_scheme \<Rightarrow> budget_row option" where
  "budget_at p ty i c db = find (\<lambda>b. same_budget_key b p ty i c) (cd_budgets db)"

definition findBudget ::
  "string \<Rightarrow> budget_scope_type \<Rightarrow> string \<Rightarrow> currency \<Rightarrow> js_date \<Rightarrow> 'z cost_db_scheme
     \<Rightarrow> budget_snapshot option result" where
  "findBudget p ty i c now db =
     (case budget_at p ty i c db of
        None \<Rightarrow> ok None
      | Some b \<Rightarrow>
          bindR (restoredInteger (bg_limit b)) (\<lambda>limit.
          bindR (spentMicros b db) (\<lambda>spent.
          bindR (reservedMicros (bg_id b) now db) (\<lambda>reserved.
          ok (Some \<lparr>bg_id = bg_id b, bg_projectId = bg_projectId b, bg_scopeType = bg_scopeType b,
            bg_scopeId = bg_scopeId b, bg_currency = bg_currency b, bg_limit = limit,
            bs_spent = spent, bs_reserved = reserved\<rparr>)))))"

fun currency_str :: "currency \<Rightarrow> string" where
  "currency_str USD = ''USD''"
| "currency_str EUR = ''EUR''"

definition listBudgetCurrencies ::
  "string \<Rightarrow> budget_scope_type \<Rightarrow> string \<Rightarrow> 'z cost_db_scheme \<Rightarrow> currency list" where
  "listBudgetCurrencies p ty i db = sort_key currency_str (map bg_currency
     (filter (\<lambda>b. bg_projectId b = p \<and> bg_scopeType b = ty \<and> bg_scopeId b = i) (cd_budgets db)))"

record reservation_input =
  ri_id :: string
  ri_projectId :: string
  ri_scopeType :: budget_scope_type
  ri_scopeId :: string
  ri_currency :: currency
  ri_amountMicros :: int
  ri_agentRunId :: "string option"
  ri_now :: js_date
  ri_expiresAt :: js_date

text \<open>The check of one reservation: its budget and that the amount still fits.\<close>

definition authorize :: "reservation_input \<Rightarrow> 'z cost_db_scheme \<Rightarrow> budget_row result" where
  "authorize v db =
     (case budget_at (ri_projectId v) (ri_scopeType v) (ri_scopeId v) (ri_currency v) db of
        None \<Rightarrow> throw BudgetNotFoundError
      | Some b \<Rightarrow>
          bindR (safe (ri_amountMicros v)) (\<lambda>_.
          bindR (spentMicros b db) (\<lambda>spent.
          bindR (reservedMicros (bg_id b) (ri_now v) db) (\<lambda>reserved.
          bindR (restoredInteger (bg_limit b)) (\<lambda>limit.
            if spent + reserved + ri_amountMicros v > limit then throw BudgetExceededError else ok b)))))"

definition insert_reservation ::
  "reservation_input \<Rightarrow> budget_row \<Rightarrow> 'z cost_db_scheme \<Rightarrow> (unit \<times> 'z cost_db_scheme) result" where
  "insert_reservation v b db =
     bindR (iso_check (ri_now v)) (\<lambda>_.
     bindR (iso_check (ri_expiresAt v)) (\<lambda>_.
       if ri_id v \<in> rs_id ` set (cd_reservations db)
       then throw (StorageConstraintError ''UNIQUE constraint failed: budget_reservation.id'')
       else if (case ri_agentRunId v of None \<Rightarrow> False | Some r \<Rightarrow> r \<notin> fst ` set (gd_agentRuns db))
       then throw (StorageConstraintError ''FOREIGN KEY constraint failed'')
       else ok ((), db\<lparr>cd_reservations := cd_reservations db @
         [\<lparr>rs_id = ri_id v, rs_budgetId = bg_id b, rs_agentRunId = ri_agentRunId v,
            rs_amount = ri_amountMicros v, rs_status = RsActive, rs_expiresAt = ri_expiresAt v\<rparr>]\<rparr>)))"

record budget_reservation =
  br_id :: string
  br_budgetId :: string
  br_reservedMicros :: int
  br_currency :: currency
  br_expiresAt :: js_date

definition granted :: "reservation_input \<Rightarrow> budget_row \<Rightarrow> budget_reservation" where
  "granted v b = \<lparr>br_id = ri_id v, br_budgetId = bg_id b, br_reservedMicros = ri_amountMicros v,
     br_currency = ri_currency v, br_expiresAt = ri_expiresAt v\<rparr>"

definition authorizeAndReserve ::
  "reservation_input \<Rightarrow> 'z cost_db_scheme \<Rightarrow> (budget_reservation \<times> 'z cost_db_scheme) result" where
  "authorizeAndReserve v db =
     (if date_le (ri_expiresAt v) (ri_now v) then throw (ReservationExpiredError (ri_id v))
      else bindR (authorize v db) (\<lambda>b.
           bindR (insert_reservation v b db) (\<lambda>(_, db'). ok (granted v b, db'))))"

fun insert_all ::
  "(reservation_input \<times> budget_row) list \<Rightarrow> 'z cost_db_scheme \<Rightarrow> (unit \<times> 'z cost_db_scheme) result" where
  "insert_all [] db = ok ((), db)"
| "insert_all ((v, b) # rest) db =
     bindR (insert_reservation v b db) (\<lambda>(_, db'). insert_all rest db')"

definition authorizeAndReserveMany ::
  "reservation_input list \<Rightarrow> 'z cost_db_scheme \<Rightarrow> (budget_reservation list \<times> 'z cost_db_scheme) result" where
  "authorizeAndReserveMany vs db =
     (case find (\<lambda>v. date_le (ri_expiresAt v) (ri_now v)) vs of
        Some invalid \<Rightarrow> throw (ReservationExpiredError (ri_id invalid))
      | None \<Rightarrow>
          bindR (mapR (\<lambda>v. authorize v db) vs) (\<lambda>bs.
          bindR (insert_all (zip vs bs) db) (\<lambda>(_, db').
          ok (map (\<lambda>(v, b). granted v b) (zip vs bs), db'))))"


subsection \<open>Releasing and settling reservations\<close>

datatype release_result = Released | AlreadyReleased | WasConsumed

definition set_released :: "(reservation_row \<Rightarrow> bool) \<Rightarrow> 'z cost_db_scheme \<Rightarrow> 'z cost_db_scheme" where
  "set_released hit db = db\<lparr>cd_reservations := map (\<lambda>r. if hit r \<and> rs_status r = RsActive
     then r\<lparr>rs_status := RsReleased\<rparr> else r) (cd_reservations db)\<rparr>"

definition releaseReservation ::
  "string \<Rightarrow> js_date \<Rightarrow> 'z cost_db_scheme \<Rightarrow> (release_result \<times> 'z cost_db_scheme) result" where
  "releaseReservation i now db =
     (case find (\<lambda>r. rs_id r = i) (cd_reservations db) of
        None \<Rightarrow> ok (AlreadyReleased, db)
      | Some r \<Rightarrow>
          if rs_status r = RsConsumed then ok (WasConsumed, db)
          else if rs_status r = RsReleased then ok (AlreadyReleased, db)
          else bindR (iso_check now) (\<lambda>_. ok (Released, set_released (\<lambda>r. rs_id r = i) db)))"

definition releaseReservations ::
  "string list \<Rightarrow> js_date \<Rightarrow> 'z cost_db_scheme \<Rightarrow> (unit \<times> 'z cost_db_scheme) result" where
  "releaseReservations is now db =
     (if is = [] then ok ((), db)
      else bindR (iso_check now) (\<lambda>_. ok ((), set_released (\<lambda>r. rs_id r \<in> set is) db)))"

definition releaseExpiredReservations ::
  "js_date \<Rightarrow> 'z cost_db_scheme \<Rightarrow> (nat \<times> 'z cost_db_scheme) result" where
  "releaseExpiredReservations now db =
     bindR (iso_check now) (\<lambda>_.
       let hit = (\<lambda>r. date_le (rs_expiresAt r) now) in
       ok (length (filter (\<lambda>r. hit r \<and> rs_status r = RsActive) (cd_reservations db)), set_released hit db))"

record cost_input =
  ci_usageId :: string
  ci_costEventId :: string
  ci_context :: usage_context
  ci_provider :: string
  ci_model :: string
  ci_providerRequestId :: "string option"
  ci_usage :: model_usage
  ci_pricingVersionId :: string
  ci_reservationId :: "string option"
  ci_reservationIds :: "string list option"
  ci_estimated :: cost_amount
  ci_actual :: cost_amount
  ci_chargeBasis :: "charge_basis option"
  ci_occurredAt :: js_date

datatype recording = Recorded | DuplicateUsage

text \<open>\<open>v.reservationIds ?? (v.reservationId === undefined ? [] : [v.reservationId])\<close>\<close>

definition settled_ids :: "cost_input \<Rightarrow> string list" where
  "settled_ids v = (case ci_reservationIds v of Some is \<Rightarrow> is
     | None \<Rightarrow> (case ci_reservationId v of None \<Rightarrow> [] | Some i \<Rightarrow> [i]))"

text \<open>
  The loop over the reservations: an unknown, released or expired one aborts, a consumed one
  means the usage was already settled, and the first positive amount is what was reserved.
\<close>

fun check_reservations ::
  "js_date \<Rightarrow> reservation_row list \<Rightarrow> string list \<Rightarrow> int \<Rightarrow> int option result" where
  "check_reservations occurred rows [] reserved = ok (Some reserved)"
| "check_reservations occurred rows (i # is) reserved =
     (case find (\<lambda>r. rs_id r = i) rows of
        None \<Rightarrow> throw (ReservationExpiredError i)
      | Some r \<Rightarrow>
          if rs_status r = RsReleased then throw (ReservationExpiredError i)
          else bindR (iso_check occurred) (\<lambda>_.
            if date_le (rs_expiresAt r) occurred then throw (ReservationExpiredError i)
            else if rs_status r = RsConsumed then ok None
            else if reserved = 0
            then bindR (restoredInteger (rs_amount r)) (\<lambda>a. check_reservations occurred rows is a)
            else check_reservations occurred rows is reserved))"

text \<open>The triggers and keys of \<open>model_usage\<close>.\<close>

definition usage_owned :: "usage_context \<Rightarrow> 'z cost_db_scheme \<Rightarrow> bool" where
  "usage_owned c db \<longleftrightarrow>
     (case uc_taskId c of None \<Rightarrow> True
      | Some t \<Rightarrow> \<exists>v \<in> set (db_tasks db). task_id v = t \<and> task_projectId v = uc_projectId c)
     \<and> (case uc_agentId c of None \<Rightarrow> True | Some a \<Rightarrow> (a, uc_projectId c) \<in> set (cd_agents db))
     \<and> (case uc_agentRunId c of None \<Rightarrow> True | Some r \<Rightarrow> (r, uc_projectId c) \<in> set (gd_agentRuns db))"

definition insert_usage :: "cost_input \<Rightarrow> 'z cost_db_scheme \<Rightarrow> 'z cost_db_scheme result" where
  "insert_usage v db =
     bindR (forR (\<lambda>f. bindR (safeCount (usage_get (ci_usage v) f)) (\<lambda>_. ok ())) usageFields) (\<lambda>_.
     bindR (iso_check (ci_occurredAt v)) (\<lambda>_.
       if \<not> usage_owned (ci_context v) db
       then throw (StorageConstraintError ''model usage references must belong to the same project'')
       else if \<not> project_exists db (uc_projectId (ci_context v))
       then throw (StorageConstraintError ''FOREIGN KEY constraint failed'')
       else ok (db\<lparr>cd_usage := cd_usage db @ [\<lparr>us_id = ci_usageId v, us_context = ci_context v,
         us_provider = ci_provider v, us_model = ci_model v, us_providerRequestId = ci_providerRequestId v,
         us_usage = ci_usage v, us_occurredAt = ci_occurredAt v\<rparr>]\<rparr>)))"

definition insert_cost :: "cost_input \<Rightarrow> int \<Rightarrow> int \<Rightarrow> 'z cost_db_scheme \<Rightarrow> 'z cost_db_scheme result" where
  "insert_cost v reserved overage db =
     bindR (safe (ca_micros (ci_estimated v))) (\<lambda>_.
     bindR (safe reserved) (\<lambda>_.
     bindR (safe (ca_micros (ci_actual v))) (\<lambda>_.
     bindR (safe overage) (\<lambda>_.
       if ci_costEventId v \<in> ce_id ` set (cd_costs db) \<or> ci_usageId v \<in> ce_usageId ` set (cd_costs db)
       then throw (StorageConstraintError ''UNIQUE constraint failed: cost_event'')
       else if ci_pricingVersionId v \<notin> pv_id ` set (cd_pricing db)
           \<or> (case ci_reservationId v of None \<Rightarrow> False | Some i \<Rightarrow> i \<notin> rs_id ` set (cd_reservations db))
       then throw (StorageConstraintError ''FOREIGN KEY constraint failed'')
       else ok (db\<lparr>cd_costs := cd_costs db @ [\<lparr>ce_id = ci_costEventId v,
         ce_projectId = uc_projectId (ci_context v), ce_usageId = ci_usageId v,
         ce_pricingVersionId = ci_pricingVersionId v, ce_reservationId = ci_reservationId v,
         ce_estimated = ca_micros (ci_estimated v), ce_reserved = reserved,
         ce_actual = ca_micros (ci_actual v), ce_overage = overage, ce_currency = ca_currency (ci_actual v),
         ce_chargeBasis = (case ci_chargeBasis v of None \<Rightarrow> ReportedUsage | Some b \<Rightarrow> b),
         ce_occurredAt = ci_occurredAt v\<rparr>]\<rparr>)))))"

fun consume_reservations :: "string list \<Rightarrow> reservation_row list \<Rightarrow> reservation_row list result" where
  "consume_reservations [] rows = ok rows"
| "consume_reservations (i # is) rows =
     (if length (filter (\<lambda>r. rs_id r = i \<and> rs_status r = RsActive) rows) \<noteq> 1
      then throw (ReservationExpiredError i)
      else consume_reservations is (map (\<lambda>r. if rs_id r = i \<and> rs_status r = RsActive
        then r\<lparr>rs_status := RsConsumed\<rparr> else r) rows))"

definition recordUsageAndCost ::
  "cost_input \<Rightarrow> 'z cost_db_scheme \<Rightarrow> (recording \<times> 'z cost_db_scheme) result" where
  "recordUsageAndCost v db =
     (if ci_usageId v \<in> us_id ` set (cd_usage db) then ok (DuplicateUsage, db)
      else if (case ci_providerRequestId v of None \<Rightarrow> False
          | Some r \<Rightarrow> \<exists>u \<in> set (cd_usage db). us_provider u = ci_provider v \<and> us_providerRequestId u = Some r)
      then ok (DuplicateUsage, db)
      else
        bindR (check_reservations (ci_occurredAt v) (cd_reservations db) (settled_ids v) 0) (\<lambda>r.
        case r of None \<Rightarrow> ok (DuplicateUsage, db)
        | Some reserved \<Rightarrow>
            let overage = (if ci_reservationId v \<noteq> None \<and> ca_micros (ci_actual v) > reserved
                then ca_micros (ci_actual v) - reserved else 0) in
            bindR (insert_usage v db) (\<lambda>db1.
            bindR (insert_cost v reserved overage db1) (\<lambda>db2.
            bindR (consume_reservations (settled_ids v) (cd_reservations db2)) (\<lambda>rows.
            ok (Recorded, db2\<lparr>cd_reservations := rows\<rparr>))))))"


section \<open>Lemmas: prices\<close>

lemma safe_count_value: "safe_count n \<Longrightarrow> 0 \<le> num_value n \<and> of_int (toBigInt n) = num_value n"
  using toBigInt_value [of n] by (cases n) (auto simp: safe_count_def isSafeInteger_def)

lemma js_sub_value [simp]: "num_value (js_sub a b) = num_value a - num_value b"
  by (cases "(a, b)" rule: js_sub.cases) auto

lemma num_lt_value: "safe_count a \<Longrightarrow> safe_count b \<Longrightarrow> num_lt a b \<longleftrightarrow> num_value a < num_value b"
  by (cases a; cases b) (auto simp: safe_count_def isSafeInteger_def)

lemma toBigInt_sub: "safe_count a \<Longrightarrow> safe_count b \<Longrightarrow> toBigInt (js_sub a b) = toBigInt a - toBigInt b"
  using safe_count_value [of a] safe_count_value [of b] unfolding toBigInt_def js_sub_value
  by (metis floor_of_int of_int_diff)

lemma toBigInt_nonneg: "safe_count n \<Longrightarrow> 0 \<le> toBigInt n"
  using safe_count_value [of n] by (simp add: toBigInt_def)

lemma toBigInt_mono: "safe_count a \<Longrightarrow> safe_count b \<Longrightarrow> num_value a \<le> num_value b \<Longrightarrow> toBigInt a \<le> toBigInt b"
  by (simp add: toBigInt_def floor_mono)

text \<open>The usage the calculator accepts.\<close>

definition valid_usage :: "model_usage \<Rightarrow> bool" where
  "valid_usage u \<longleftrightarrow> (\<forall>f \<in> set usageFields. safe_count (usage_get u f))
     \<and> num_value (mu_cachedInputTokens u) \<le> num_value (mu_inputTokens u)
     \<and> num_value (mu_reasoningTokens u) \<le> num_value (mu_outputTokens u)"

lemma billableTokens_ok: "(\<exists>b. billableTokens u = ok b) \<longleftrightarrow> valid_usage u"
  by (auto simp: billableTokens_def valid_usage_def usageFields_def result_simps num_lt_value split: if_splits)

text \<open>The cost as a sum over the four exclusive buckets, in whole tokens.\<close>

definition priced :: "model_price \<Rightarrow> int \<Rightarrow> int \<Rightarrow> int \<Rightarrow> int \<Rightarrow> int" where
  "priced pr i c ou r = (i - c) * mp_input pr + c * mp_cachedInput pr + (ou - r) * mp_output pr + r * mp_reasoning pr"

lemma calculateCost_eq:
  assumes "valid_usage u"
  shows "calculateCost u pr = ok \<lparr>ca_micros = bigint_div (priced pr (toBigInt (mu_inputTokens u))
      (toBigInt (mu_cachedInputTokens u)) (toBigInt (mu_outputTokens u)) (toBigInt (mu_reasoningTokens u))) million,
    ca_currency = mp_currency pr\<rparr>"
proof -
  have s: "safe_count (mu_inputTokens u)" "safe_count (mu_cachedInputTokens u)" "safe_count (mu_outputTokens u)"
      "safe_count (mu_reasoningTokens u)"
    using assms by (simp_all add: valid_usage_def usageFields_def)
  then show ?thesis using assms
    by (simp add: calculateCost_def billableTokens_def valid_usage_def usageFields_def num_lt_value priced_def
        toBigInt_sub not_less)
qed

lemma priced_split:
  assumes "0 \<le> c" "c \<le> i" "i \<le> n" "0 \<le> a" "0 \<le> b"
  shows "(i - c) * a + c * b \<le> n * larger a b"
proof -
  have m: "a \<le> larger a b" "b \<le> larger a b" "0 \<le> larger a b" using assms(4,5) by (simp_all add: larger_def)
  have "(i - c) * a + c * b \<le> (i - c) * larger a b + c * larger a b"
    using m assms(1-3) by (intro add_mono mult_left_mono) simp_all
  also have "\<dots> = i * larger a b" by (simp add: algebra_simps)
  also have "\<dots> \<le> n * larger a b" using assms(3) m(3) by (intro mult_right_mono) simp_all
  finally show ?thesis .
qed

lemma bigint_div_mono:
  assumes "a \<le> b" and "0 < k"
  shows "bigint_div a k \<le> bigint_div b k"
proof -
  consider "0 \<le> a" | "a < 0" "0 \<le> b" | "b < 0" by linarith
  then show ?thesis
  proof cases
    case 1
    then show ?thesis using assms by (simp add: bigint_div_def zdiv_mono1)
  next
    case 2
    then have "0 \<le> (- a) div k" "0 \<le> b div k" using assms(2) by (simp_all add: pos_imp_zdiv_nonneg_iff)
    then show ?thesis using 2 by (simp add: bigint_div_def)
  next
    case 3
    then have "(- b) div k \<le> (- a) div k" using assms by (intro zdiv_mono1) simp_all
    then show ?thesis using 3 assms(1) by (simp add: bigint_div_def)
  qed
qed

definition within_bound :: "model_usage \<Rightarrow> usage_bound \<Rightarrow> bool" where
  "within_bound u bnd \<longleftrightarrow> num_value (mu_inputTokens u) \<le> num_value (ub_inputTokens bnd)
     \<and> num_value (mu_outputTokens u) \<le> num_value (ub_outputTokens bnd)"

definition nonnegative_price :: "model_price \<Rightarrow> bool" where
  "nonnegative_price pr \<longleftrightarrow> 0 \<le> mp_input pr \<and> 0 \<le> mp_cachedInput pr \<and> 0 \<le> mp_output pr \<and> 0 \<le> mp_reasoning pr"

lemma calculateMaximumCost_eq:
  assumes "safe_count (ub_inputTokens bnd)" "safe_count (ub_outputTokens bnd)"
  shows "calculateMaximumCost bnd pr = ok \<lparr>ca_micros = bigint_div
      (toBigInt (ub_inputTokens bnd) * larger (mp_input pr) (mp_cachedInput pr)
       + toBigInt (ub_outputTokens bnd) * larger (mp_output pr) (mp_reasoning pr)) million, ca_currency = mp_currency pr\<rparr>"
  using assms by (simp add: calculateMaximumCost_def)

lemma cost_le_maximum:
  assumes "valid_usage u" "within_bound u bnd" "nonnegative_price pr"
    and "safe_count (ub_inputTokens bnd)" "safe_count (ub_outputTokens bnd)"
    and "calculateCost u pr = ok c" and "calculateMaximumCost bnd pr = ok m"
  shows "ca_micros c \<le> ca_micros m"
proof -
  have s: "safe_count (mu_inputTokens u)" "safe_count (mu_cachedInputTokens u)" "safe_count (mu_outputTokens u)"
      "safe_count (mu_reasoningTokens u)"
    using assms(1) by (simp_all add: valid_usage_def usageFields_def)
  let ?i = "toBigInt (mu_inputTokens u)" and ?c = "toBigInt (mu_cachedInputTokens u)"
    and ?o = "toBigInt (mu_outputTokens u)" and ?r = "toBigInt (mu_reasoningTokens u)"
  have "(?i - ?c) * mp_input pr + ?c * mp_cachedInput pr
      \<le> toBigInt (ub_inputTokens bnd) * larger (mp_input pr) (mp_cachedInput pr)"
    by (rule priced_split) (use assms(1-5) s in \<open>auto simp: valid_usage_def within_bound_def nonnegative_price_def
        intro: toBigInt_nonneg toBigInt_mono\<close>)
  moreover have "(?o - ?r) * mp_output pr + ?r * mp_reasoning pr
      \<le> toBigInt (ub_outputTokens bnd) * larger (mp_output pr) (mp_reasoning pr)"
    by (rule priced_split) (use assms(1-5) s in \<open>auto simp: valid_usage_def within_bound_def nonnegative_price_def
        intro: toBigInt_nonneg toBigInt_mono\<close>)
  ultimately have "priced pr ?i ?c ?o ?r \<le> toBigInt (ub_inputTokens bnd) * larger (mp_input pr) (mp_cachedInput pr)
       + toBigInt (ub_outputTokens bnd) * larger (mp_output pr) (mp_reasoning pr)"
    by (simp add: priced_def)
  then show ?thesis
    using assms(6,7) calculateCost_eq [OF assms(1), of pr] calculateMaximumCost_eq [OF assms(4,5), of pr]
      bigint_div_mono [of _ _ million] by (simp add: million_def) auto
qed


section \<open>Budgets over time\<close>

text \<open>What a budget has spent, and what it holds in reservation at a time.\<close>

definition spent :: "budget_row \<Rightarrow> 'z cost_db_scheme \<Rightarrow> int" where
  "spent b db = sum_list (map ce_actual (filter (counted db b) (cd_costs db)))"

definition reserved_at :: "budget_row \<Rightarrow> int \<Rightarrow> 'z cost_db_scheme \<Rightarrow> int" where
  "reserved_at b t db = sum_list (map rs_amount (filter (holds (bg_id b) (At t)) (cd_reservations db)))"

definition within_limit :: "budget_row \<Rightarrow> int \<Rightarrow> 'z cost_db_scheme \<Rightarrow> bool" where
  "within_limit b t db \<longleftrightarrow> spent b db + reserved_at b t db \<le> bg_limit b"

text \<open>The keys of the tables, and that every charge has its usage.\<close>

definition cost_tables_ok :: "'z cost_db_scheme \<Rightarrow> bool" where
  "cost_tables_ok db \<longleftrightarrow> distinct (map bg_id (cd_budgets db)) \<and> distinct (map rs_id (cd_reservations db))
     \<and> (\<forall>r \<in> set (cd_reservations db). 0 \<le> rs_amount r \<and> date_finite (rs_expiresAt r))
     \<and> (\<forall>c \<in> set (cd_costs db). ce_usageId c \<in> us_id ` set (cd_usage db))"

text \<open>
  A settlement is covered when every budget that will count the charge holds one of the settled
  reservations, of at least the amount charged.
\<close>

definition charged :: "budget_row \<Rightarrow> cost_input \<Rightarrow> bool" where
  "charged b v \<longleftrightarrow> uc_projectId (ci_context v) = bg_projectId b \<and> ca_currency (ci_actual v) = bg_currency b
     \<and> in_scope b (ci_context v)"

definition covered :: "cost_input \<Rightarrow> 'z cost_db_scheme \<Rightarrow> bool" where
  "covered v db \<longleftrightarrow> (\<forall>b \<in> set (cd_budgets db). charged b v \<longrightarrow>
     (\<exists>r \<in> set (cd_reservations db). rs_id r \<in> set (settled_ids v) \<and> rs_budgetId r = bg_id b
        \<and> ca_micros (ci_actual v) \<le> rs_amount r))"

text \<open>The budget a reservation is for: \<open>authorize\<close> looks it up by its project, scope and currency.\<close>

definition budget_key :: "reservation_input \<Rightarrow> string \<times> budget_scope_type \<times> string \<times> currency" where
  "budget_key v = (ri_projectId v, ri_scopeType v, ri_scopeId v, ri_currency v)"

text \<open>
  One operation at time \<open>t\<close>, or the passing of time. The inputs of a joint reservation name
  different budgets: \<open>authorizeAndReserveMany\<close> authorizes each against the tables as they were, so
  two inputs for one budget are each granted what is left of it (\<open>reserve_many_same_budget_overcommits\<close>).
  The gateway reserves in different scopes.
\<close>

inductive cost_step :: "int \<times> 'z cost_db_scheme \<Rightarrow> int \<times> 'z cost_db_scheme \<Rightarrow> bool" where
  reserve: "authorizeAndReserve v db = ok (x, db') \<Longrightarrow> ri_now v = At t \<Longrightarrow> cost_step (t, db) (t, db')"
| reserve_many: "authorizeAndReserveMany vs db = ok (xs, db') \<Longrightarrow> \<forall>v \<in> set vs. ri_now v = At t \<Longrightarrow>
     distinct (map budget_key vs) \<Longrightarrow> cost_step (t, db) (t, db')"
| settle: "recordUsageAndCost v db = ok (r, db') \<Longrightarrow> ci_occurredAt v = At t \<Longrightarrow> covered v db \<Longrightarrow>
     cost_step (t, db) (t, db')"
| release: "releaseReservation i (At t) db = ok (rr, db') \<Longrightarrow> cost_step (t, db) (t, db')"
| release_many: "releaseReservations is (At t) db = ok (u, db') \<Longrightarrow> cost_step (t, db) (t, db')"
| release_expired: "releaseExpiredReservations (At t) db = ok (n, db') \<Longrightarrow> cost_step (t, db) (t, db')"
| tick: "t \<le> t' \<Longrightarrow> cost_step (t, db) (t', db)"

inductive_cases cost_stepE: "cost_step (t, db) (t', db')"

section \<open>Lemmas: sums over reservations\<close>

definition held :: "string \<Rightarrow> int \<Rightarrow> reservation_row list \<Rightarrow> int" where
  "held i t rows = sum_list (map rs_amount (filter (holds i (At t)) rows))"

lemma reserved_at_held: "reserved_at b t db = held (bg_id b) t (cd_reservations db)"
  by (simp add: reserved_at_def held_def)

lemma held_Nil [simp]: "held i t [] = 0"
  by (simp add: held_def)

lemma held_Cons [simp]: "held i t (r # rs) = (if holds i (At t) r then rs_amount r else 0) + held i t rs"
  by (simp add: held_def)

lemma held_append [simp]: "held i t (rs @ qs) = held i t rs + held i t qs"
  by (simp add: held_def)

text \<open>A change of rows that only ends reservations lowers what is held.\<close>

definition ends_only :: "(reservation_row \<Rightarrow> reservation_row) \<Rightarrow> bool" where
  "ends_only f \<longleftrightarrow> (\<forall>r. f r = r \<or> rs_status (f r) \<noteq> RsActive)"

lemma held_ends_only:
  assumes "ends_only f" and "\<forall>r \<in> set rows. 0 \<le> rs_amount r"
  shows "held i t (map f rows) \<le> held i t rows"
  using assms(2)
proof (induction rows)
  case (Cons r rows)
  have pos: "0 \<le> rs_amount r" and IH: "held i t (map f rows) \<le> held i t rows" using Cons by simp_all
  have "(if holds i (At t) (f r) then rs_amount (f r) else 0) \<le> (if holds i (At t) r then rs_amount r else 0)"
  proof (cases "f r = r")
    case True
    show ?thesis unfolding True by simp
  next
    case False
    then have "\<not> holds i (At t) (f r)" using assms(1) unfolding ends_only_def holds_def by blast
    then show ?thesis using pos by simp
  qed
  then show ?case using IH by simp
qed simp

lemma held_ends_one:
  assumes "ends_only f" and "\<forall>r \<in> set rows. 0 \<le> rs_amount r"
    and "q \<in> set rows" "holds i (At t) q" "rs_status (f q) \<noteq> RsActive"
  shows "held i t (map f rows) + rs_amount q \<le> held i t rows"
proof -
  obtain xs ys where rows: "rows = xs @ q # ys" using assms(3) by (auto dest: split_list)
  have "held i t (map f xs) \<le> held i t xs" "held i t (map f ys) \<le> held i t ys"
    using held_ends_only [OF assms(1)] assms(2) rows by auto
  moreover have "\<not> holds i (At t) (f q)" using assms(5) by (simp add: holds_def)
  ultimately show ?thesis using rows assms(4) by simp
qed

lemma held_later: "\<forall>r \<in> set rows. 0 \<le> rs_amount r \<Longrightarrow> t \<le> t' \<Longrightarrow> held i t' rows \<le> held i t rows"
proof (induction rows)
  case (Cons r rows)
  have "holds i (At t') r \<longrightarrow> holds i (At t) r" using Cons.prems(2)
    by (cases "rs_expiresAt r") (auto simp: holds_def)
  then show ?case using Cons by auto
qed simp

lemma reserved_later:
  "cost_tables_ok db \<Longrightarrow> t \<le> t' \<Longrightarrow> reserved_at b t' db \<le> reserved_at b t db"
  unfolding reserved_at_held by (rule held_later) (simp_all add: cost_tables_ok_def)

section \<open>Lemmas: the operations\<close>

lemma safe_ok [simp]: "safe v = ok w \<longleftrightarrow> w = v \<and> 0 \<le> v \<and> v \<le> maxSafe"
  by (auto simp: safe_def)

lemma restoredInteger_ok [simp]: "restoredInteger v = ok w \<longleftrightarrow> w = v \<and> 0 \<le> v \<and> v \<le> maxSafe"
  by (auto simp: restoredInteger_def)

lemma spentMicros_ok: "spentMicros b db = ok s \<Longrightarrow> s = spent b db"
  by (auto simp: spentMicros_def sql_sum_def spent_def result_simps split: if_splits)

lemma reservedMicros_ok: "reservedMicros i (At t) db = ok s \<Longrightarrow> s = held i t (cd_reservations db)"
  by (auto simp: reservedMicros_def sql_sum_def held_def result_simps split: if_splits)

lemma authorize_ok:
  assumes "authorize v db = ok b" and "ri_now v = At t"
  shows "b \<in> set (cd_budgets db)" and "0 \<le> ri_amountMicros v"
    and "spent b db + reserved_at b t db + ri_amountMicros v \<le> bg_limit b"
  using assms unfolding authorize_def budget_at_def reserved_at_held
  by (auto simp: result_simps find_Some_iff dest!: spentMicros_ok reservedMicros_ok split: option.splits if_splits)

lemma insert_reservation_ok:
  assumes "insert_reservation v b db = ok (u, db')" and "cost_tables_ok db" and "0 \<le> ri_amountMicros v"
  shows "db' = db\<lparr>cd_reservations := cd_reservations db @ [\<lparr>rs_id = ri_id v, rs_budgetId = bg_id b,
      rs_agentRunId = ri_agentRunId v, rs_amount = ri_amountMicros v, rs_status = RsActive,
      rs_expiresAt = ri_expiresAt v\<rparr>]\<rparr>"
    and "cost_tables_ok db'"
  using assms by (auto simp: insert_reservation_def result_simps cost_tables_ok_def iso_check_def split: if_splits)

lemma spent_reservations [simp]: "spent b (db\<lparr>cd_reservations := x\<rparr>) = spent b db"
  unfolding spent_def counted_def usage_of_def by (simp cong: option.case_cong)


text \<open>Several reservations inserted one after the other.\<close>

lemma insert_all_ok:
  assumes "insert_all ps db = ok (u, db')" and "cost_tables_ok db" and "\<forall>(v, b) \<in> set ps. 0 \<le> ri_amountMicros v"
  shows "cost_tables_ok db' \<and> cd_budgets db' = cd_budgets db \<and> spent c db' = spent c db
    \<and> reserved_at c t db' \<le> reserved_at c t db + (\<Sum>(v, b)\<leftarrow>ps. if bg_id b = bg_id c then ri_amountMicros v else 0)"
  using assms
proof (induction ps arbitrary: db)
  case Nil
  then show ?case by simp
next
  case (Cons p ps)
  obtain v b where p: "p = (v, b)" by (cases p)
  obtain db1 where i: "insert_reservation v b db = ok ((), db1)" and rest: "insert_all ps db1 = ok (u, db')"
    using Cons.prems(1) p by (auto simp: result_simps)
  have pos: "0 \<le> ri_amountMicros v" using Cons.prems(3) p by simp
  note s = insert_reservation_ok [OF i Cons.prems(2) pos]
  have "reserved_at c t db1 \<le> reserved_at c t db + (if bg_id b = bg_id c then ri_amountMicros v else 0)"
    unfolding reserved_at_held s(1) using pos by (simp add: holds_def)
  moreover have "cost_tables_ok db' \<and> cd_budgets db' = cd_budgets db1 \<and> spent c db' = spent c db1
    \<and> reserved_at c t db' \<le> reserved_at c t db1 + (\<Sum>(v, b)\<leftarrow>ps. if bg_id b = bg_id c then ri_amountMicros v else 0)"
    by (rule Cons.IH [OF rest s(2)]) (use Cons.prems(3) in simp)
  moreover have "cd_budgets db1 = cd_budgets db" "spent c db1 = spent c db" using s(1) by simp_all
  ultimately show ?case using p by simp
qed

lemma one_reservation_each:
  fixes ps :: "(reservation_input \<times> budget_row) list"
  assumes "distinct (map (bg_id \<circ> snd) ps)" and "(v, b) \<in> set ps"
  shows "(\<Sum>(w, c)\<leftarrow>ps. if bg_id c = bg_id b then ri_amountMicros w else 0) = ri_amountMicros v"
proof -
  obtain xs ys where ps: "ps = xs @ (v, b) # ys" using assms(2) by (auto dest: split_list)
  have zero: "(\<Sum>(w, c)\<leftarrow>qs. if bg_id c = bg_id b then ri_amountMicros w else 0) = 0"
    if "bg_id b \<notin> bg_id ` snd ` set qs" for qs :: "(reservation_input \<times> budget_row) list"
    using that by (induction qs) auto
  have "bg_id b \<notin> bg_id ` snd ` set xs" "bg_id b \<notin> bg_id ` snd ` set ys" using assms(1) unfolding ps by (simp_all add: image_image o_def)
  then show ?thesis using ps zero by simp
qed

lemma no_reservation:
  "bg_id b \<notin> bg_id ` snd ` set ps \<Longrightarrow> (\<Sum>(w, c)\<leftarrow>ps. if bg_id c = bg_id b then ri_amountMicros w else 0) = 0"
  by (induction ps) auto

lemma authorizeAndReserve_ok:
  assumes "authorizeAndReserve v db = ok (x, db')" and "ri_now v = At t" and "cost_tables_ok db"
  shows "cost_tables_ok db' \<and> cd_budgets db' = cd_budgets db"
    and "within_limit c t db \<Longrightarrow> c \<in> set (cd_budgets db) \<Longrightarrow> within_limit c t db'"
proof -
  obtain b where b: "authorize v db = ok b" and i: "insert_reservation v b db = ok ((), db')"
    using assms(1) by (auto simp: authorizeAndReserve_def result_simps split: if_splits)
  note a = authorize_ok [OF b assms(2)]
  note s = insert_reservation_ok [OF i assms(3) a(2)]
  show "cost_tables_ok db' \<and> cd_budgets db' = cd_budgets db" using s by simp
  assume w: "within_limit c t db" and c: "c \<in> set (cd_budgets db)"
  show "within_limit c t db'"
  proof (cases "bg_id b = bg_id c")
    case True
    then have "b = c" using a(1) c assms(3) unfolding cost_tables_ok_def distinct_map by (metis inj_onD)
    then show ?thesis using a(2,3) unfolding within_limit_def reserved_at_held s(1) by (simp add: holds_def)
  next
    case False
    then show ?thesis using w unfolding within_limit_def reserved_at_held s(1) by (simp add: holds_def)
  qed
qed

lemma budgets_of_distinct_keys:
  assumes "mapR (\<lambda>v. authorize v db) vs = ok bs" and tab: "cost_tables_ok db" and "distinct (map budget_key vs)"
  shows "distinct (map (bg_id \<circ> snd) (zip vs bs))"
proof -
  have l: "length bs = length vs" and a: "authorize (vs ! j) db = ok (bs ! j)" if "j < length vs" for j
    using assms(1) that by (auto simp: mapR_ok_list_all2 list_all2_conv_all_nth)
  have key: "bs ! j \<in> set (cd_budgets db)" "budget_key (vs ! j) = (bg_projectId (bs ! j), bg_scopeType (bs ! j),
      bg_scopeId (bs ! j), bg_currency (bs ! j))" if "j < length vs" for j
    using a [OF that] by (auto simp: authorize_def budget_at_def same_budget_key_def budget_key_def find_Some_iff result_simps
      split: option.splits if_splits) (metis nth_mem)
  have "bg_id (bs ! j) \<noteq> bg_id (bs ! k)" if jk: "j < length vs" "k < length vs" "j \<noteq> k" for j k
  proof
    assume "bg_id (bs ! j) = bg_id (bs ! k)"
    then have "bs ! j = bs ! k"
      using key(1) jk tab unfolding cost_tables_ok_def distinct_map by (metis inj_onD)
    then have "budget_key (vs ! j) = budget_key (vs ! k)" using key(2) jk by simp
    then show False using assms(3) jk by (simp add: distinct_conv_nth)
  qed
  moreover have "length bs = length vs" using assms(1) by (auto simp: mapR_ok_list_all2 list_all2_lengthD)
  ultimately show ?thesis by (simp add: distinct_conv_nth)
qed

lemma authorizeAndReserveMany_ok:
  assumes "authorizeAndReserveMany vs db = ok (xs, db')" and now: "\<forall>v \<in> set vs. ri_now v = At t"
    and tab: "cost_tables_ok db" and dist: "distinct (map budget_key vs)"
  shows "cost_tables_ok db' \<and> cd_budgets db' = cd_budgets db"
    and "within_limit c t db \<Longrightarrow> c \<in> set (cd_budgets db) \<Longrightarrow> within_limit c t db'"
proof -
  obtain bs where bs: "mapR (\<lambda>v. authorize v db) vs = ok bs" and ins: "insert_all (zip vs bs) db = ok ((), db')"
    using assms(1) by (auto simp: authorizeAndReserveMany_def result_simps split: option.splits)
  have each: "authorize v db = ok b" if "(v, b) \<in> set (zip vs bs)" for v b
    using bs that by (auto simp: mapR_ok_list_all2 list_all2_iff)
  have now': "ri_now v = At t" if "(v, b) \<in> set (zip vs bs)" for v b using now that by (auto dest: set_zip_leftD)
  have pos: "\<forall>(v, b) \<in> set (zip vs bs). 0 \<le> ri_amountMicros v" using authorize_ok(2) each now' by fast
  note s = insert_all_ok [OF ins tab pos]
  show "cost_tables_ok db' \<and> cd_budgets db' = cd_budgets db" using s by blast
  assume w: "within_limit c t db" and c: "c \<in> set (cd_budgets db)"
  have dist': "distinct (map (bg_id \<circ> snd) (zip vs bs))"
    by (rule budgets_of_distinct_keys [OF bs tab dist])
  have sum: "reserved_at c t db' \<le> reserved_at c t db
      + (\<Sum>(v, b)\<leftarrow>zip vs bs. if bg_id b = bg_id c then ri_amountMicros v else 0)" "spent c db' = spent c db"
    using s by blast+
  show "within_limit c t db'"
  proof (cases "bg_id c \<in> bg_id ` snd ` set (zip vs bs)")
    case True
    then obtain v b where vb: "(v, b) \<in> set (zip vs bs)" "bg_id b = bg_id c" by force
    note a = authorize_ok [OF each [OF vb(1)] now' [OF vb(1)]]
    have "b = c" using a(1) c vb(2) tab unfolding cost_tables_ok_def distinct_map by (metis inj_onD)
    then show ?thesis using a(3) sum one_reservation_each [OF dist' vb(1)] by (simp add: within_limit_def)
  next
    case False
    then show ?thesis using w sum no_reservation [OF False] by (simp add: within_limit_def)
  qed
qed


text \<open>Ending reservations, by release or by consumption.\<close>

definition keeps_rows :: "(reservation_row \<Rightarrow> reservation_row) \<Rightarrow> bool" where
  "keeps_rows f \<longleftrightarrow> (\<forall>r. rs_id (f r) = rs_id r \<and> rs_amount (f r) = rs_amount r \<and> rs_expiresAt (f r) = rs_expiresAt r)"

lemma ended_rows:
  assumes "ends_only f" "keeps_rows f" and tab: "cost_tables_ok db"
  shows "cost_tables_ok (db\<lparr>cd_reservations := map f (cd_reservations db)\<rparr>)"
    and "reserved_at b t (db\<lparr>cd_reservations := map f (cd_reservations db)\<rparr>) \<le> reserved_at b t db"
proof -
  have "rs_id \<circ> f = rs_id" using assms(2) by (auto simp: keeps_rows_def)
  then show "cost_tables_ok (db\<lparr>cd_reservations := map f (cd_reservations db)\<rparr>)"
    using tab assms(2) by (simp add: cost_tables_ok_def keeps_rows_def)
  show "reserved_at b t (db\<lparr>cd_reservations := map f (cd_reservations db)\<rparr>) \<le> reserved_at b t db"
    unfolding reserved_at_held using held_ends_only [OF assms(1)] tab by (simp add: cost_tables_ok_def)
qed

lemma set_released_map:
  obtains f where "ends_only f" "keeps_rows f"
    "set_released hit db = db\<lparr>cd_reservations := map f (cd_reservations db)\<rparr>"
proof
  let ?f = "\<lambda>r. if hit r \<and> rs_status r = RsActive then r\<lparr>rs_status := RsReleased\<rparr> else r"
  show "ends_only ?f" "keeps_rows ?f" by (simp_all add: ends_only_def keeps_rows_def)
  show "set_released hit db = db\<lparr>cd_reservations := map ?f (cd_reservations db)\<rparr>" by (simp add: set_released_def)
qed

lemma set_released_ok:
  assumes "cost_tables_ok db"
  shows "cost_tables_ok (set_released hit db)" and "cd_budgets (set_released hit db) = cd_budgets db"
    and "within_limit b t db \<Longrightarrow> within_limit b t (set_released hit db)"
proof -
  obtain f where f: "ends_only f" "keeps_rows f" "set_released hit db = db\<lparr>cd_reservations := map f (cd_reservations db)\<rparr>"
    by (rule set_released_map)
  show "cost_tables_ok (set_released hit db)" "cd_budgets (set_released hit db) = cd_budgets db"
    using ended_rows(1) [OF f(1,2) assms] f(3) by simp_all
  show "within_limit b t (set_released hit db)" if "within_limit b t db"
    using ended_rows(2) [OF f(1,2) assms, of b t] that unfolding within_limit_def f(3) by simp
qed

lemma ended_stays: "ends_only f \<Longrightarrow> rs_status r \<noteq> RsActive \<Longrightarrow> rs_status (f r) \<noteq> RsActive"
  unfolding ends_only_def by metis

lemma ends_only_comp:
  assumes "ends_only f" and "ends_only g"
  shows "ends_only (\<lambda>r. f (g r))"
  unfolding ends_only_def
proof
  fix r
  show "f (g r) = r \<or> rs_status (f (g r)) \<noteq> RsActive"
  proof (cases "g r = r")
    case True
    show ?thesis unfolding True using assms(1) by (simp add: ends_only_def)
  next
    case False
    then have "rs_status (g r) \<noteq> RsActive" using assms(2) unfolding ends_only_def by blast
    then show ?thesis using ended_stays [OF assms(1)] by blast
  qed
qed

lemma consume_reservations_ok:
  "consume_reservations is rows = ok rows' \<Longrightarrow> \<exists>f. rows' = map f rows \<and> ends_only f \<and> keeps_rows f
     \<and> (\<forall>r. rs_id r \<in> set is \<longrightarrow> rs_status (f r) \<noteq> RsActive)"
proof (induction "is" arbitrary: rows)
  case Nil
  then show ?case by (intro exI [of _ "\<lambda>r. r"]) (simp add: ends_only_def keeps_rows_def)
next
  case (Cons i "is")
  let ?g = "\<lambda>r::reservation_row. if rs_id r = i \<and> rs_status r = RsActive then r\<lparr>rs_status := RsConsumed\<rparr> else r"
  have "consume_reservations is (map ?g rows) = ok rows'" using Cons.prems by (simp split: if_splits)
  then obtain f where f: "rows' = map f (map ?g rows)" "ends_only f" "keeps_rows f"
      "\<forall>r. rs_id r \<in> set is \<longrightarrow> rs_status (f r) \<noteq> RsActive" using Cons.IH by blast
  have g: "ends_only ?g" by (simp add: ends_only_def)
  show ?case
  proof (intro exI [of _ "\<lambda>r. f (?g r)"] conjI allI impI)
    show "rows' = map (\<lambda>r. f (?g r)) rows" using f(1) by (simp add: o_def)
    show "ends_only (\<lambda>r. f (?g r))" by (rule ends_only_comp [OF f(2) g])
    show "keeps_rows (\<lambda>r. f (?g r))" using f(3) by (simp add: keeps_rows_def)
    fix r :: reservation_row assume r: "rs_id r \<in> set (i # is)"
    show "rs_status (f (?g r)) \<noteq> RsActive"
    proof (cases "rs_id r \<in> set is")
      case True
      then have "rs_id (?g r) \<in> set is" by auto
      then show ?thesis using f(4) by blast
    next
      case False
      then have "rs_status (?g r) \<noteq> RsActive" using r by simp
      then show ?thesis by (rule ended_stays [OF f(2)])
    qed
  qed
qed

lemma check_reservations_ok:
  "check_reservations (At t) rows is a = ok (Some x) \<Longrightarrow> i \<in> set is \<Longrightarrow>
   \<exists>r. find (\<lambda>r. rs_id r = i) rows = Some r \<and> rs_status r = RsActive \<and> \<not> date_le (rs_expiresAt r) (At t)"
proof (induction "At t" rows "is" a rule: check_reservations.induct)
  case (2 rows j "is" reserved)
  then obtain r where r: "find (\<lambda>r. rs_id r = j) rows = Some r" "rs_status r = RsActive" "\<not> date_le (rs_expiresAt r) (At t)"
    by (cases "find (\<lambda>r. rs_id r = j) rows"; cases "rs_status (the (find (\<lambda>r. rs_id r = j) rows))")
      (auto simp: result_simps split: if_splits)
  show ?case
  proof (cases "i = j")
    case True
    then show ?thesis using r by blast
  next
    case False
    then have i: "i \<in> set is" using 2 by simp
    show ?thesis
    proof (cases "reserved = 0")
      case True
      then show ?thesis using 2(1) [OF r(1)] 2(3) r i by (auto simp: result_simps iso_check_def split: if_splits)
    next
      case False
      then show ?thesis using 2(2) [OF r(1)] 2(3) r i by (auto simp: result_simps iso_check_def split: if_splits)
    qed
  qed
qed simp


text \<open>A recorded settlement: one usage, one charge, and the settled reservations consumed.\<close>

definition usage_entry :: "cost_input \<Rightarrow> usage_row" where
  "usage_entry v = \<lparr>us_id = ci_usageId v, us_context = ci_context v, us_provider = ci_provider v,
     us_model = ci_model v, us_providerRequestId = ci_providerRequestId v, us_usage = ci_usage v,
     us_occurredAt = ci_occurredAt v\<rparr>"

lemma recordUsageAndCost_ok:
  assumes "recordUsageAndCost v db = ok (Recorded, db')" and "ci_occurredAt v = At t"
  obtains c f x where "check_reservations (At t) (cd_reservations db) (settled_ids v) 0 = ok (Some x)"
    "ci_usageId v \<notin> us_id ` set (cd_usage db)" "0 \<le> ca_micros (ci_actual v)"
    "ce_usageId c = ci_usageId v" "ce_actual c = ca_micros (ci_actual v)" "ce_currency c = ca_currency (ci_actual v)"
    "ce_projectId c = uc_projectId (ci_context v)" "ce_reserved c = x"
    "ends_only f" "keeps_rows f" "\<forall>r. rs_id r \<in> set (settled_ids v) \<longrightarrow> rs_status (f r) \<noteq> RsActive"
    "db' = db\<lparr>cd_usage := cd_usage db @ [usage_entry v], cd_costs := cd_costs db @ [c],
       cd_reservations := map f (cd_reservations db)\<rparr>"
proof -
  have fresh: "ci_usageId v \<notin> us_id ` set (cd_usage db)"
    using assms(1) unfolding recordUsageAndCost_def by (auto split: if_splits)
  obtain x db1 db2 rows ov where c: "check_reservations (At t) (cd_reservations db) (settled_ids v) 0 = ok (Some x)"
    and u: "insert_usage v db = ok db1" and co: "insert_cost v x ov db1 = ok db2"
    and cons: "consume_reservations (settled_ids v) (cd_reservations db2) = ok rows"
    and db': "db' = db2\<lparr>cd_reservations := rows\<rparr>"
    using assms by (auto simp: recordUsageAndCost_def Let_def result_simps split: if_splits option.splits)
  have db1: "db1 = db\<lparr>cd_usage := cd_usage db @ [usage_entry v]\<rparr>"
    using u by (auto simp: insert_usage_def usage_entry_def result_simps split: if_splits)
  obtain e where e: "db2 = db1\<lparr>cd_costs := cd_costs db1 @ [e]\<rparr>" "0 \<le> ca_micros (ci_actual v)"
      "ce_usageId e = ci_usageId v" "ce_actual e = ca_micros (ci_actual v)" "ce_currency e = ca_currency (ci_actual v)"
      "ce_projectId e = uc_projectId (ci_context v)" "ce_reserved e = x"
    using co by (auto simp: insert_cost_def result_simps split: if_splits)
  have "cd_reservations db2 = cd_reservations db" using db1 e(1) by simp
  then obtain f where f: "rows = map f (cd_reservations db)" "ends_only f" "keeps_rows f"
      "\<forall>r. rs_id r \<in> set (settled_ids v) \<longrightarrow> rs_status (f r) \<noteq> RsActive"
    using consume_reservations_ok [OF cons] by auto
  show ?thesis by (rule that [OF c fresh e(2-7) f(2-4)]) (simp add: db' e(1) db1 f(1))
qed

lemma recordUsageAndCost_duplicate: "recordUsageAndCost v db = ok (DuplicateUsage, db') \<Longrightarrow> db' = db"
  by (auto simp: recordUsageAndCost_def Let_def result_simps split: if_splits option.splits)

lemma counted_new_usage:
  assumes "ce_usageId c \<in> us_id ` set (cd_usage db)"
  shows "counted (db\<lparr>cd_usage := cd_usage db @ [u], cd_costs := x, cd_reservations := y\<rparr>) b c = counted db b c"
proof -
  have "find (\<lambda>w. us_id w = ce_usageId c) (cd_usage db @ [u]) = find (\<lambda>w. us_id w = ce_usageId c) (cd_usage db)"
  proof -
    have "find P (xs @ ys) = find P xs" if "find P xs \<noteq> None" for P and xs ys :: "usage_row list"
      using that by (induction xs) auto
    moreover have "find (\<lambda>w. us_id w = ce_usageId c) (cd_usage db) \<noteq> None"
      using assms by (auto simp: find_None_iff)
    ultimately show ?thesis by blast
  qed
  then show ?thesis by (simp add: counted_def usage_of_def)
qed

lemma settle_ok:
  assumes rec: "recordUsageAndCost v db = ok (r, db')" and now: "ci_occurredAt v = At t" and tab: "cost_tables_ok db"
  shows "cost_tables_ok db' \<and> cd_budgets db' = cd_budgets db"
    and "covered v db \<Longrightarrow> c \<in> set (cd_budgets db) \<Longrightarrow> within_limit c t db \<Longrightarrow> within_limit c t db'"
proof -
  have both: "(cost_tables_ok db' \<and> cd_budgets db' = cd_budgets db)
    \<and> (covered v db \<longrightarrow> c \<in> set (cd_budgets db) \<longrightarrow> within_limit c t db \<longrightarrow> within_limit c t db')"
  proof (cases r)
    case DuplicateUsage
    then have "db' = db" using recordUsageAndCost_duplicate rec by simp
    then show ?thesis using tab by simp
  next
    case Recorded
    have rec': "recordUsageAndCost v db = ok (Recorded, db')" using rec Recorded by simp
    show ?thesis
    proof (rule recordUsageAndCost_ok [OF rec' now])
      fix e f x
      assume chk: "check_reservations (At t) (cd_reservations db) (settled_ids v) 0 = ok (Some x)"
        and fresh: "ci_usageId v \<notin> us_id ` set (cd_usage db)" and pos: "0 \<le> ca_micros (ci_actual v)"
        and e: "ce_usageId e = ci_usageId v" "ce_actual e = ca_micros (ci_actual v)"
          "ce_currency e = ca_currency (ci_actual v)" "ce_projectId e = uc_projectId (ci_context v)"
        and f: "ends_only f" "keeps_rows f" "\<forall>r. rs_id r \<in> set (settled_ids v) \<longrightarrow> rs_status (f r) \<noteq> RsActive"
        and db': "db' = db\<lparr>cd_usage := cd_usage db @ [usage_entry v], cd_costs := cd_costs db @ [e],
          cd_reservations := map f (cd_reservations db)\<rparr>"
      have res: "reserved_at c t db' \<le> reserved_at c t db"
        using ended_rows(2) [OF f(1,2) tab, of c t] unfolding reserved_at_held db' by simp
      have tab': "cost_tables_ok db'" using ended_rows(1) [OF f(1,2) tab] e(1) unfolding db'
        by (auto simp: cost_tables_ok_def usage_entry_def)
      have old: "filter (counted db' c) (cd_costs db) = filter (counted db c) (cd_costs db)"
      proof (rule filter_cong [OF refl])
        fix y assume "y \<in> set (cd_costs db)"
        then have "ce_usageId y \<in> us_id ` set (cd_usage db)" using tab by (simp add: cost_tables_ok_def)
        then show "counted db' c y = counted db c y" unfolding db' by (rule counted_new_usage)
      qed
      have new: "counted db' c e = charged c v"
      proof -
        have "find (\<lambda>w. us_id w = ci_usageId v) (cd_usage db @ [usage_entry v]) = Some (usage_entry v)"
          using fresh find_new_row [of us_id "usage_entry v" "cd_usage db" "ci_usageId v"] by (simp add: usage_entry_def)
        then show ?thesis unfolding db' using e
          by (auto simp: counted_def charged_def usage_of_def usage_entry_def in_scope_def split: budget_scope_type.splits)
      qed
      have sp: "spent c db' = spent c db + (if charged c v then ca_micros (ci_actual v) else 0)"
        using old new e(2) unfolding spent_def db' by simp
      have "within_limit c t db'" if cov: "covered v db" and c: "c \<in> set (cd_budgets db)" and w: "within_limit c t db"
      proof (cases "charged c v")
        case True
        then obtain q where q: "q \<in> set (cd_reservations db)" "rs_id q \<in> set (settled_ids v)" "rs_budgetId q = bg_id c"
            "ca_micros (ci_actual v) \<le> rs_amount q" using cov c unfolding covered_def by blast
        obtain q' where q': "find (\<lambda>r. rs_id r = rs_id q) (cd_reservations db) = Some q'" "rs_status q' = RsActive"
            "\<not> date_le (rs_expiresAt q') (At t)" using check_reservations_ok [OF chk q(2)] by blast
        have "q' = q" using q'(1) q(1) find_distinct [of rs_id "cd_reservations db" "rs_id q" q] tab
          by (simp add: cost_tables_ok_def)
        moreover have "date_finite (rs_expiresAt q)" using tab q(1) by (simp add: cost_tables_ok_def)
        ultimately have "holds (bg_id c) (At t) q" using q(3) q'(2,3) by (cases "rs_expiresAt q") (auto simp: holds_def)
        then have "held (bg_id c) t (map f (cd_reservations db)) + rs_amount q \<le> held (bg_id c) t (cd_reservations db)"
          using tab f(3) q(1,2) by (intro held_ends_one [OF f(1)]) (simp_all add: cost_tables_ok_def)
        then show ?thesis using w sp True q(4) unfolding within_limit_def reserved_at_held db' by simp
      next
        case False
        then show ?thesis using w sp res by (simp add: within_limit_def)
      qed
      then show ?thesis using tab' db' by simp
    qed
  qed
  then show "cost_tables_ok db' \<and> cd_budgets db' = cd_budgets db"
    and "covered v db \<Longrightarrow> c \<in> set (cd_budgets db) \<Longrightarrow> within_limit c t db \<Longrightarrow> within_limit c t db'" by blast+
qed

text \<open>One step of the accounting.\<close>

definition all_within :: "int \<Rightarrow> 'z cost_db_scheme \<Rightarrow> bool" where
  "all_within t db \<longleftrightarrow> cost_tables_ok db \<and> (\<forall>b \<in> set (cd_budgets db). within_limit b t db)"

lemma all_within_step:
  assumes "cost_step (t, db) (t', db')" and inv: "all_within t db"
  shows "all_within t' db' \<and> cd_budgets db' = cd_budgets db"
proof -
  have tab: "cost_tables_ok db" using inv by (simp add: all_within_def)
  show ?thesis using assms(1)
  proof (rule cost_stepE)
    fix v x assume "t' = t" "authorizeAndReserve v db = ok (x, db')" "ri_now v = At t"
    then show ?thesis using authorizeAndReserve_ok [of v db x db' t] inv by (auto simp: all_within_def)
  next
    fix vs xs assume "t' = t" "authorizeAndReserveMany vs db = ok (xs, db')" "\<forall>v \<in> set vs. ri_now v = At t"
      "distinct (map budget_key vs)"
    then show ?thesis using authorizeAndReserveMany_ok [of vs db xs db' t] inv by (auto simp: all_within_def)
  next
    fix v r assume "t' = t" "recordUsageAndCost v db = ok (r, db')" "ci_occurredAt v = At t" "covered v db"
    then show ?thesis using settle_ok [of v db r db' t] inv by (auto simp: all_within_def)
  next
    fix i rr assume "t' = t" "releaseReservation i (At t) db = ok (rr, db')"
    then have "t' = t \<and> (db' = db \<or> db' = set_released (\<lambda>r. rs_id r = i) db)"
      by (auto simp: releaseReservation_def result_simps split: option.splits if_splits)
    then show ?thesis using inv set_released_ok [OF tab] by (auto simp: all_within_def)
  next
    fix "is" u assume "t' = t" "releaseReservations is (At t) db = ok (u, db')"
    then have "t' = t \<and> (db' = db \<or> db' = set_released (\<lambda>r. rs_id r \<in> set is) db)"
      by (auto simp: releaseReservations_def result_simps split: if_splits)
    then show ?thesis using inv set_released_ok [OF tab] by (auto simp: all_within_def)
  next
    fix n assume "t' = t" "releaseExpiredReservations (At t) db = ok (n, db')"
    then have "t' = t \<and> db' = set_released (\<lambda>r. date_le (rs_expiresAt r) (At t)) db"
      by (auto simp: releaseExpiredReservations_def result_simps Let_def)
    then show ?thesis using inv set_released_ok [OF tab] by (auto simp: all_within_def)
  next
    assume t: "db' = db" "t \<le> t'"
    have "within_limit b t' db" if "within_limit b t db" for b
      using that reserved_later [OF tab t(2), of b] by (simp add: within_limit_def)
    then show ?thesis using inv t(1) by (simp add: all_within_def)
  qed
qed


section \<open>Lemmas: pricing versions\<close>

definition closed_or_same :: "js_date \<Rightarrow> pricing_version \<Rightarrow> pricing_version \<Rightarrow> bool" where
  "closed_or_same d p q \<longleftrightarrow> q = p
     \<or> pv_effectiveTo p = None \<and> date_lt (pv_effectiveFrom p) d \<and> q = p\<lparr>pv_effectiveTo := Some d\<rparr>"

lemma close_open_ok:
  assumes "close_open d rs rows = ok rows'" and "distinct (map pv_id rows)" and "set rs \<subseteq> set rows" "distinct rs"
    and "\<forall>r \<in> set rs. pv_effectiveTo r = None \<and> date_lt (pv_effectiveFrom r) d"
  shows "\<exists>g. rows' = map g rows \<and> (\<forall>p \<in> set rows. closed_or_same d p (g p))"
proof -
  have "\<exists>g. rows' = map g rows \<and> (\<forall>p \<in> set rows. if p \<in> set rs then g p = p\<lparr>pv_effectiveTo := Some d\<rparr> else g p = p)"
    using assms(1-4)
  proof (induction rs arbitrary: rows)
    case Nil
    then show ?case by (intro exI [of _ "\<lambda>p. p"]) simp
  next
    case (Cons r rs)
    let ?new = "r\<lparr>pv_effectiveTo := Some d\<rparr>"
    let ?h = "\<lambda>p. if pv_id p = pv_id ?new then ?new else p"
    have rest: "close_open d rs (map ?h rows) = ok rows'" using Cons.prems(1) by (auto simp: Let_def split: if_splits)
    have r: "r \<in> set rows" using Cons.prems(3) by simp
    have only: "p = r" if "p \<in> set rows" "pv_id p = pv_id r" for p
      using that r Cons.prems(2) by (metis distinct_map inj_onD)
    have ids: "map pv_id (map ?h rows) = map pv_id rows" by simp
    have sub: "set rs \<subseteq> set (map ?h rows)"
    proof
      fix p assume "p \<in> set rs"
      then have "p \<in> set rows" "p \<noteq> r" using Cons.prems(3,4) by auto
      then have "?h p = p" using only by auto
      then show "p \<in> set (map ?h rows)" using \<open>p \<in> set rows\<close> by force
    qed
    have "distinct (map pv_id (map ?h rows))" "distinct rs" unfolding ids using Cons.prems(2,4) by simp_all
    then obtain g where g: "rows' = map g (map ?h rows)"
        "\<forall>p \<in> set (map ?h rows). if p \<in> set rs then g p = p\<lparr>pv_effectiveTo := Some d\<rparr> else g p = p"
      using Cons.IH [OF rest _ sub] by blast
    have all: "if p \<in> set (r # rs) then g (?h p) = p\<lparr>pv_effectiveTo := Some d\<rparr> else g (?h p) = p" if p: "p \<in> set rows" for p
    proof (cases "p = r")
      case True
      have new: "?new \<in> set (map ?h rows)" using r by force
      have "g ?new = (if ?new \<in> set rs then ?new\<lparr>pv_effectiveTo := Some d\<rparr> else ?new)"
        using bspec [OF g(2) new] by (cases "?new \<in> set rs") simp_all
      then have gnew: "g ?new = ?new" by simp
      show ?thesis unfolding True using gnew by simp
    next
      case False
      then have hp: "?h p = p" using only p by auto
      then have "p \<in> set (map ?h rows)" using p by force
      then have "if p \<in> set rs then g p = p\<lparr>pv_effectiveTo := Some d\<rparr> else g p = p" using g(2) by blast
      then show ?thesis unfolding hp using False by simp
    qed
    show ?case
    proof (intro exI [of _ "\<lambda>p. g (?h p)"] conjI ballI)
      show "rows' = map (\<lambda>p. g (?h p)) rows" unfolding g(1) by (simp only: map_map o_def)
    qed (rule all)
  qed
  then obtain g where "rows' = map g rows"
      "\<forall>p \<in> set rows. if p \<in> set rs then g p = p\<lparr>pv_effectiveTo := Some d\<rparr> else g p = p" by blast
  then show ?thesis using assms(5) unfolding closed_or_same_def by metis
qed

text \<open>A version is effective at a moment.\<close>

definition effective :: "string \<Rightarrow> string \<Rightarrow> js_date \<Rightarrow> pricing_version \<Rightarrow> bool" where
  "effective provider model moment p \<longleftrightarrow> pv_provider p = provider \<and> pv_model p = model
     \<and> date_le (pv_effectiveFrom p) moment
     \<and> (case pv_effectiveTo p of None \<Rightarrow> True | Some e \<Rightarrow> date_lt moment e)"

lemma findPricing_effective:
  "findPricing provider model (At m) db = ok (case sort_key (\<lambda>p. - date_ms (pv_effectiveFrom p))
     (filter (effective provider model (At m)) (cd_pricing db)) of [] \<Rightarrow> None | p # _ \<Rightarrow> Some p)"
  by (simp add: findPricing_def iso_check_def effective_def [abs_def])

lemma closed_or_same_effective:
  "closed_or_same (At d) p q \<Longrightarrow> m < d \<Longrightarrow> effective provider model (At m) q = effective provider model (At m) p"
  by (auto simp: closed_or_same_def effective_def)

lemma insort_key_map: "\<forall>y \<in> set (x # xs). k (g y) = k y \<Longrightarrow> insort_key k (g x) (map g xs) = map g (insort_key k x xs)"
  by (induction xs) auto

lemma sort_key_map_stable: "\<forall>x \<in> set xs. k (g x) = k x \<Longrightarrow> sort_key k (map g xs) = map g (sort_key k xs)"
proof (induction xs)
  case (Cons x xs)
  then have "sort_key k (map g xs) = map g (sort_key k xs)" by simp
  moreover have "insort_key k (g x) (map g (sort_key k xs)) = map g (insort_key k x (sort_key k xs))"
    by (rule insort_key_map) (use Cons.prems in simp)
  ultimately show ?case by (simp add: sort_key_def)
qed simp

lemma bindR_okE: "bindR r f = ok y \<Longrightarrow> (\<And>x. r = ok x \<Longrightarrow> f x = ok y \<Longrightarrow> thesis) \<Longrightarrow> thesis"
  by (cases r) auto

lemma savePricing_ok:
  assumes save: "savePricing v c db = ok (u, db')" and "distinct (map pv_id (cd_pricing db))"
  obtains (Same) "db' = db"
  | (New) g d where "db' = db\<lparr>cd_pricing := map g (cd_pricing db) @ [v]\<rparr>" "pv_effectiveFrom v = At d"
      "\<forall>p \<in> set (cd_pricing db). closed_or_same (At d) p (g p)" "pv_id v \<notin> pv_id ` set (cd_pricing db)"
proof (cases "list_ex (\<lambda>p. pv_id p = pv_id v) (cd_pricing db)")
  case True
  then show ?thesis using save Same unfolding savePricing_def by (simp split: if_splits)
next
  case False
  let ?hits = "filter (\<lambda>p. same_price_key p v \<and> pv_effectiveTo p = None
     \<and> date_lt (pv_effectiveFrom p) (pv_effectiveFrom v)) (cd_pricing db)"
  have "\<not> (case pv_effectiveTo v of None \<Rightarrow> False | Some e \<Rightarrow> date_le e (pv_effectiveFrom v))"
    using save unfolding savePricing_def by (metis Inl_Inr_False)
  note save' = save [unfolded savePricing_def if_not_P [OF this] if_not_P [OF False]]
  have fresh: "pv_id v \<notin> pv_id ` set (cd_pricing db)" using False by (auto simp: list_ex_iff)
  have open_hits: "\<forall>p \<in> set ?hits. pv_effectiveTo p = None \<and> date_lt (pv_effectiveFrom p) (pv_effectiveFrom v)" by simp
  have rows_dist: "distinct (cd_pricing db)" using assms(2) by (simp add: distinct_map)
  show ?thesis using save'
  proof (elim bindR_okE)
    fix i rows j
    assume fin: "iso_check (pv_effectiveFrom v) = ok i" and cl: "close_open (pv_effectiveFrom v) ?hits (cd_pricing db) = ok rows"
      and ins: "(if list_ex (\<lambda>p. overlaps p v) rows then throw (PricingOverlapError (pv_provider v) (pv_model v))
          else if list_ex (\<lambda>p. pv_provider p = pv_provider v \<and> pv_model p = pv_model v
              \<and> pv_effectiveFrom p = pv_effectiveFrom v) rows
          then throw (StorageConstraintError ''UNIQUE constraint failed: pricing_version'')
          else ok ((), db\<lparr>cd_pricing := rows @ [v]\<rparr>)) = ok (u, db')"
    have db': "db' = db\<lparr>cd_pricing := rows @ [v]\<rparr>" using ins by (simp split: if_splits)
    obtain d where d: "pv_effectiveFrom v = At d" using fin by (cases "pv_effectiveFrom v") (auto simp: iso_check_def)
    obtain g where g: "rows = map g (cd_pricing db)" "\<forall>p \<in> set (cd_pricing db). closed_or_same (pv_effectiveFrom v) p (g p)"
      using close_open_ok [OF cl assms(2) filter_is_subset distinct_filter [OF rows_dist]] open_hits by blast
    show ?thesis using New [of g d] g d db' fresh by simp
  qed
qed


section \<open>Sample tables\<close>

definition sample_budget :: budget_row where
  "sample_budget = \<lparr>bg_id = ''b1'', bg_projectId = ''p1'', bg_scopeType = ScopeProject, bg_scopeId = ''p1'',
     bg_currency = USD, bg_limit = 10\<rparr>"

definition sample_pricing :: pricing_version where
  "sample_pricing = \<lparr>pv_id = ''v1'', pv_provider = ''acme'', pv_model = ''m'', pv_currency = USD, pv_input = 1000000,
     pv_cachedInput = 500000, pv_output = 2000000, pv_reasoning = 3000000, pv_effectiveFrom = At 0, pv_effectiveTo = None\<rparr>"

definition cost_sample :: cost_db where
  "cost_sample = governance_db.extend gov_empty (cost_db.fields [] [sample_pricing] [sample_budget] [] [] [])"

definition sample_reservation :: "string \<Rightarrow> int \<Rightarrow> reservation_input" where
  "sample_reservation i amount = \<lparr>ri_id = i, ri_projectId = ''p1'', ri_scopeType = ScopeProject, ri_scopeId = ''p1'',
     ri_currency = USD, ri_amountMicros = amount, ri_agentRunId = None, ri_now = At 1, ri_expiresAt = At 9\<rparr>"

definition sample_usage :: model_usage where
  "sample_usage = \<lparr>mu_inputTokens = Num 4, mu_cachedInputTokens = Num 1, mu_outputTokens = Num 2, mu_reasoningTokens = NegZero\<rparr>"

definition sample_settlement :: "string option \<Rightarrow> string list \<Rightarrow> int \<Rightarrow> cost_input" where
  "sample_settlement primary ids micros = \<lparr>ci_usageId = ''u1'', ci_costEventId = ''c1'',
     ci_context = \<lparr>uc_projectId = ''p1'', uc_taskId = None, uc_agentId = None, uc_agentRunId = None, uc_purpose = ''x''\<rparr>,
     ci_provider = ''acme'', ci_model = ''m'', ci_providerRequestId = None, ci_usage = sample_usage,
     ci_pricingVersionId = ''v1'', ci_reservationId = primary, ci_reservationIds = Some ids,
     ci_estimated = \<lparr>ca_micros = micros, ca_currency = USD\<rparr>, ci_actual = \<lparr>ca_micros = micros, ca_currency = USD\<rparr>,
     ci_chargeBasis = None, ci_occurredAt = At 2\<rparr>"

lemmas cost_samples = sample_budget_def sample_pricing_def cost_sample_def sample_reservation_def sample_usage_def
  sample_settlement_def gov_empty_def governance_db.defs cost_db.defs

lemmas cost_eval_defs = authorizeAndReserve_def authorizeAndReserveMany_def authorize_def insert_reservation_def
  budget_at_def same_budget_key_def spentMicros_def reservedMicros_def sql_sum_def counted_def usage_of_def holds_def
  safe_def restoredInteger_def maxSafe_def iso_check_def granted_def recordUsageAndCost_def settled_ids_def
  insert_usage_def insert_cost_def safeCount_def safe_count_def isSafeInteger_def usageFields_def usage_owned_def
  project_exists_def in_scope_def

text \<open>
  The reserved amount of a charge is that of the first co-reservation with a positive amount, and
  not that of the primary reservation the charge keeps.
\<close>

theorem settlement_reserved_is_first:
  "\<exists>db db'. authorizeAndReserveMany [sample_reservation ''r1'' 7, sample_reservation ''r2'' 2] cost_sample = ok (db, db')
     \<and> (\<exists>db''. recordUsageAndCost (sample_settlement (Some ''r2'') [''r1'', ''r2''] 6) db' = ok (Recorded, db'')
         \<and> map ce_reserved (cd_costs db'') = [7] \<and> map ce_overage (cd_costs db'') = [0])
     \<and> (\<exists>db''. recordUsageAndCost (sample_settlement (Some ''r2'') [''r2'', ''r1''] 6) db' = ok (Recorded, db'')
         \<and> map ce_reserved (cd_costs db'') = [2] \<and> map ce_overage (cd_costs db'') = [4])"
  by (simp add: cost_samples cost_eval_defs)

text \<open>
  \<open>authorizeAndReserveMany\<close> checks every reservation against the tables before it inserts the
  first, so two reservations on one budget are both granted although together they exceed it.
\<close>

theorem reserve_many_same_budget_overcommits:
  "\<exists>xs db'. authorizeAndReserveMany [sample_reservation ''r1'' 8, sample_reservation ''r2'' 8] cost_sample = ok (xs, db')
     \<and> cd_budgets db' = [sample_budget] \<and> reserved_at sample_budget 1 db' = 16 \<and> bg_limit sample_budget = 10"
  by (simp add: cost_samples cost_eval_defs reserved_at_def)

section \<open>Properties\<close>

text \<open>C30. The reserved envelope is exactly the worst case: the cost of any valid usage within the bound
  is at most the maximum cost, whatever part of it was cached or reasoning, and some valid usage
  within the bound costs that much.\<close>

theorem maximum_cost_is_tight:
  assumes "nonnegative_price pr" and "safe_count (ub_inputTokens bnd)" and "safe_count (ub_outputTokens bnd)"
  shows "\<exists>m. calculateMaximumCost bnd pr = ok m
    \<and> (\<forall>u c. valid_usage u \<longrightarrow> within_bound u bnd \<longrightarrow> calculateCost u pr = ok c \<longrightarrow> ca_micros c \<le> ca_micros m)
    \<and> (\<exists>u. valid_usage u \<and> within_bound u bnd \<and> calculateCost u pr = ok m)"
proof -
  obtain m where m: "calculateMaximumCost bnd pr = ok m" using calculateMaximumCost_eq [OF assms(2,3)] by simp
  let ?u = "\<lparr>mu_inputTokens = ub_inputTokens bnd,
      mu_cachedInputTokens = (if mp_input pr > mp_cachedInput pr then Num 0 else ub_inputTokens bnd),
      mu_outputTokens = ub_outputTokens bnd,
      mu_reasoningTokens = (if mp_output pr > mp_reasoning pr then Num 0 else ub_outputTokens bnd)\<rparr>"
  have zero: "safe_count (Num 0)" "toBigInt (Num 0) = 0" by (simp_all add: safe_count_def isSafeInteger_def toBigInt_def)
  have u: "valid_usage ?u" using assms(2,3) zero(1) safe_count_value by (simp add: valid_usage_def usageFields_def)
  have "within_bound ?u bnd" by (simp add: within_bound_def)
  moreover have "calculateCost ?u pr = ok m"
    using m calculateCost_eq [OF u, of pr] calculateMaximumCost_eq [OF assms(2,3), of pr] zero(2)
    by (auto simp: priced_def larger_def split: if_splits)
  ultimately show ?thesis using m u cost_le_maximum [OF _ _ assms(1-3)] by blast
qed

theorem maximum_cost_is_tight_witness:
  "\<exists>m. calculateMaximumCost \<lparr>ub_inputTokens = Num 5, ub_outputTokens = Num 3\<rparr>
      \<lparr>mp_currency = USD, mp_input = 1000000, mp_cachedInput = 500000, mp_output = 2000000, mp_reasoning = 3000000\<rparr> = ok m
    \<and> ca_micros m = 14 \<and> (\<forall>c. calculateCost sample_usage
      \<lparr>mp_currency = USD, mp_input = 1000000, mp_cachedInput = 500000, mp_output = 2000000, mp_reasoning = 3000000\<rparr> = ok c
      \<longrightarrow> ca_micros c \<le> 14)"
proof -
  let ?p = "\<lparr>mp_currency = USD, mp_input = 1000000, mp_cachedInput = 500000, mp_output = 2000000, mp_reasoning = 3000000\<rparr>"
  let ?b = "\<lparr>ub_inputTokens = Num 5, ub_outputTokens = Num 3\<rparr>"
  have s: "safe_count (Num 5)" "safe_count (Num 3)" by (simp_all add: safe_count_def isSafeInteger_def)
  have m: "calculateMaximumCost ?b ?p = ok \<lparr>ca_micros = 14, ca_currency = USD\<rparr>"
    using s by (simp add: calculateMaximumCost_def toBigInt_def larger_def bigint_div_def million_def)
  have u: "valid_usage sample_usage" "within_bound sample_usage ?b"
    by (simp_all add: valid_usage_def within_bound_def sample_usage_def usageFields_def safe_count_def isSafeInteger_def)
  show ?thesis using maximum_cost_is_tight [of ?p ?b] s m u by (auto simp: nonnegative_price_def)
qed

text \<open>C5. Budgets hold: from tables in which every budget covers what it has spent and holds in active
  reservations, no interleaving of grants, covered settlements, releases and expiry ever leaves
  a budget with more spent and reserved than its limit. A settlement is covered when each
  budget that counts the charge holds a settled reservation of at least the charge. The claim is for
  joint grants whose inputs name different budgets, as those of the gateway do (\<open>gateway_reserves\<close>):
  a joint grant that names one budget twice can exceed its limit.\<close>

theorem budget_limit_kept:
  assumes "cost_step\<^sup>*\<^sup>* (t, db) (t', db')" and "all_within t db"
  shows "cd_budgets db' = cd_budgets db
    \<and> (\<forall>b \<in> set (cd_budgets db'). spent b db' + reserved_at b t' db' \<le> bg_limit b)"
proof -
  have "all_within t' db' \<and> cd_budgets db' = cd_budgets db" using assms(1)
  proof (induction rule: rtranclp_induct2)
    case refl
    then show ?case using assms(2) by simp
  next
    case (step t1 db1 t2 db2)
    then show ?case using all_within_step by metis
  qed
  then show ?thesis by (simp add: all_within_def within_limit_def)
qed

theorem budget_limit_kept_witness:
  "\<exists>x db'. authorizeAndReserve (sample_reservation ''r1'' 8) cost_sample = ok (x, db')
     \<and> spent sample_budget db' + reserved_at sample_budget 5 db' \<le> 10 \<and> reserved_at sample_budget 5 db' = 8"
proof -
  obtain x db' where r: "authorizeAndReserve (sample_reservation ''r1'' 8) cost_sample = ok (x, db')"
    and h: "reserved_at sample_budget 5 db' = 8"
    by (simp add: cost_samples cost_eval_defs reserved_at_def)
  have "cost_step (1, cost_sample) (1, db')" by (rule cost_step.reserve [OF r]) (simp add: sample_reservation_def)
  moreover have "cost_step (1, db') (5, db')" by (rule cost_step.tick) simp
  ultimately have s: "cost_step\<^sup>*\<^sup>* (1, cost_sample) (5, db')" by (meson converse_rtranclp_into_rtranclp rtranclp.rtrancl_refl)
  have w: "all_within 1 cost_sample"
    by (simp add: all_within_def cost_tables_ok_def within_limit_def spent_def reserved_at_def cost_samples)
  have b: "cd_budgets cost_sample = [sample_budget]" "bg_limit sample_budget = 10" by (simp_all add: cost_samples)
  show ?thesis using budget_limit_kept [OF s w] r h b by auto
qed

text \<open>Prices already applied do not change: publishing a pricing version leaves the price found for
  every earlier moment as it was, version, currency and rates, also when it closes the version
  that was open.\<close>

theorem pricing_history_stable:
  assumes "savePricing v c db = ok (u, db')" and "distinct (map pv_id (cd_pricing db))"
    and "pv_effectiveFrom v = At d" and "m < d"
  shows "\<exists>p q. findPricing provider model (At m) db = ok p \<and> findPricing provider model (At m) db' = ok q
    \<and> map_option (\<lambda>r. (pv_id r, pv_currency r, pv_input r, pv_cachedInput r, pv_output r, pv_reasoning r)) p
      = map_option (\<lambda>r. (pv_id r, pv_currency r, pv_input r, pv_cachedInput r, pv_output r, pv_reasoning r)) q"
proof (rule savePricing_ok [OF assms(1,2)])
  assume "db' = db"
  then show ?thesis by (simp add: findPricing_effective)
next
  fix g e
  assume db': "db' = db\<lparr>cd_pricing := map g (cd_pricing db) @ [v]\<rparr>" and e: "pv_effectiveFrom v = At e"
    and g: "\<forall>p \<in> set (cd_pricing db). closed_or_same (At e) p (g p)"
  let ?eff = "effective provider model (At m)" and ?k = "\<lambda>p. - date_ms (pv_effectiveFrom p)"
  have "e = d" using e assms(3) by simp
  then have "\<forall>p \<in> set (cd_pricing db). ?eff (g p) = ?eff p" using g assms(4) closed_or_same_effective by blast
  then have "filter ?eff (map g (cd_pricing db)) = map g (filter ?eff (cd_pricing db))"
    unfolding filter_map o_def by (metis (no_types, lifting) filter_cong)
  moreover have "\<not> ?eff v" using assms(3,4) by (simp add: effective_def)
  ultimately have rows: "filter ?eff (cd_pricing db') = map g (filter ?eff (cd_pricing db))" using db' by simp
  have "sort_key ?k (map g (filter ?eff (cd_pricing db))) = map g (sort_key ?k (filter ?eff (cd_pricing db)))"
    by (rule sort_key_map_stable) (use g in \<open>auto simp: closed_or_same_def\<close>)
  then have found: "findPricing provider model (At m) db' = ok (case map g (sort_key ?k (filter ?eff (cd_pricing db))) of
      [] \<Rightarrow> None | p # _ \<Rightarrow> Some p)"
    unfolding findPricing_effective rows by simp
  show ?thesis
  proof (cases "sort_key ?k (filter ?eff (cd_pricing db))")
    case Nil
    then show ?thesis using found by (simp add: findPricing_effective)
  next
    case (Cons p ps)
    then have "p \<in> set (filter ?eff (cd_pricing db))" by (metis list.set_intros(1) set_sort)
    then have "closed_or_same (At e) p (g p)" using g by simp
    then show ?thesis using Cons found by (auto simp: findPricing_effective closed_or_same_def)
  qed
qed

theorem pricing_history_stable_witness:
  "\<exists>db'. savePricing (sample_pricing\<lparr>pv_id := ''v2'', pv_input := 7, pv_effectiveFrom := At 10\<rparr>) (At 1) cost_sample = ok ((), db')
     \<and> (\<exists>q. findPricing ''acme'' ''m'' (At 5) db' = ok (Some q) \<and> pv_id q = ''v1'' \<and> pv_input q = 1000000)"
proof -
  let ?v = "sample_pricing\<lparr>pv_id := ''v2'', pv_input := 7, pv_effectiveFrom := At 10\<rparr>"
  obtain db' where s: "savePricing ?v (At 1) cost_sample = ok ((), db')"
    by (simp add: savePricing_def price_columns_def same_price_key_def overlaps_def pv_end_def cost_samples
        iso_check_def safe_def maxSafe_def)
  have d: "distinct (map pv_id (cd_pricing cost_sample))" "pv_effectiveFrom ?v = At 10"
    and f: "findPricing ''acme'' ''m'' (At 5) cost_sample = ok (Some sample_pricing)"
    by (simp_all add: cost_samples findPricing_def iso_check_def)
  obtain q where "findPricing ''acme'' ''m'' (At 5) db' = ok q"
      "Some (''v1'', USD, 1000000, 500000, 2000000, 3000000) =
        map_option (\<lambda>r. (pv_id r, pv_currency r, pv_input r, pv_cachedInput r, pv_output r, pv_reasoning r)) q"
    using pricing_history_stable [OF s d, of 5 "''acme''" "''m''"] f by (auto simp: sample_pricing_def)
  then show ?thesis using s by (cases q) auto
qed

end
