(* ===== verification/Metered_Gateway.thy ===== *)
theory Metered_Gateway
  imports Cost Canonical_Json "HOL-Library.AList"
begin

text \<open>
  The metered gateway to language models: \<open>packages/llm-gateway/src/provider.ts\<close>,
  \<open>fallback-provider.ts\<close> and \<open>metered-gateway.ts\<close> on the cost repository of \<open>Cost\<close>. A
  provider is a parameter: the models it may bill and what a request returns or throws. While a
  request is at the provider the tables are taken as unchanged; interleaving with other
  processes is covered by the properties of \<open>Cost\<close>. The repository grants several
  reservations at once, so the path for a repository without that operation does not arise.
\<close>

section \<open>The model\<close>

subsection \<open>Providers\<close>

record model_request =
  rq_model :: string
  rq_parameters :: "(string \<times> js_value) list"

text \<open>A response as it arrives: nothing about the types of its properties is known.\<close>

record model_response =
  mr_providerId :: js_value
  mr_model :: js_value
  mr_text :: js_value
  mr_usage :: js_value
  mr_providerRequestId :: js_value
  mr_latencyMs :: js_value
  mr_providerMetadata :: js_value

datatype llm_error =
    LlmProviderError string bool string
  | InvalidProviderResponseError string string
  | ProviderCancelledError string
  | UnsupportedModelParameterError string string
  | ModelMismatchError string "model_response option"
  | HostError error

type_synonym 'a llm_result = "llm_error + 'a"

text \<open>\<open>retryable\<close> and \<open>code\<close> of the error classes; \<open>None\<close> for an error of another class.\<close>

fun llm_retryable :: "llm_error \<Rightarrow> bool" where
  "llm_retryable (LlmProviderError _ r _) = r"
| "llm_retryable _ = False"

fun llm_code :: "llm_error \<Rightarrow> string option" where
  "llm_code (LlmProviderError _ _ c) = Some c"
| "llm_code (InvalidProviderResponseError _ _) = Some ''INVALID_RESPONSE''"
| "llm_code (ProviderCancelledError _) = Some ''CANCELLED''"
| "llm_code (UnsupportedModelParameterError _ _) = Some ''UNSUPPORTED_PARAMETER''"
| "llm_code (ModelMismatchError _ _) = Some ''MODEL_MISMATCH''"
| "llm_code (HostError _) = None"

record llm_provider =
  lp_id :: string
  lp_pricingCandidates :: "model_request \<Rightarrow> (string \<times> string) list"
  lp_complete :: "model_request \<Rightarrow> model_response llm_result"

definition ExactModelProvider :: "llm_provider \<Rightarrow> string \<times> string \<Rightarrow> llm_provider" where
  "ExactModelProvider provider required =
     \<lparr>lp_id = lp_id provider, lp_pricingCandidates = lp_pricingCandidates provider,
       lp_complete = (\<lambda>request.
         if rq_model request \<noteq> snd required \<or> lp_id provider \<noteq> fst required
         then Inl (ModelMismatchError (lp_id provider) None)
         else case lp_complete provider request of
             Inl e \<Rightarrow> Inl e
           | Inr response \<Rightarrow>
               if mr_providerId response \<noteq> JsString (fst required) \<or> mr_model response \<noteq> JsString (snd required)
               then Inl (ModelMismatchError (lp_id provider) (Some response))
               else Inr response)\<rparr>"

text \<open>\<open>typeof value === 'string' && value.trim() !== ''\<close>\<close>

definition nonempty_text :: "js_value \<Rightarrow> string option" where
  "nonempty_text v = (case v of JsString s \<Rightarrow> if trim s \<noteq> [] then Some s else None | _ \<Rightarrow> None)"

fun is_js_object :: "js_value \<Rightarrow> bool" where
  "is_js_object (JsObject _ _ _) = True"
| "is_js_object (JsArray _ _ _) = True"
| "is_js_object JsAncestor = True"
| "is_js_object _ = False"

fun is_js_array :: "js_value \<Rightarrow> bool" where
  "is_js_array (JsArray _ _ _) = True"
| "is_js_array _ = False"

fun get_prop :: "js_value \<Rightarrow> string \<Rightarrow> js_value" where
  "get_prop (JsObject _ _ ps) k = (case map_of ps k of Some (Data v) \<Rightarrow> v | _ \<Rightarrow> JsUndefined)"
| "get_prop _ k = JsUndefined"

fun as_number :: "js_value \<Rightarrow> js_num" where
  "as_number (JsNumber n) = n"
| "as_number _ = NaN"

definition usage_value :: "js_value \<Rightarrow> usage_field \<Rightarrow> js_num" where
  "usage_value v f = as_number (get_prop v (usage_field_str f))"

definition response_usage :: "model_response \<Rightarrow> model_usage" where
  "response_usage r = \<lparr>mu_inputTokens = usage_value (mr_usage r) FInput,
     mu_cachedInputTokens = usage_value (mr_usage r) FCached, mu_outputTokens = usage_value (mr_usage r) FOutput,
     mu_reasoningTokens = usage_value (mr_usage r) FReasoning\<rparr>"

text \<open>The checks in their order; the first that fails is reported.\<close>

definition response_checks :: "model_response \<Rightarrow> (bool \<times> string) list" where
  "response_checks r =
     [(nonempty_text (mr_providerId r) \<noteq> None, ''providerId is required''),
      (nonempty_text (mr_model r) \<noteq> None, ''model is required''),
      (case mr_text r of JsString _ \<Rightarrow> True | _ \<Rightarrow> False, ''text must be a string''),
      (mr_providerRequestId r = JsUndefined \<or> nonempty_text (mr_providerRequestId r) \<noteq> None,
       ''providerRequestId must be a non-empty string''),
      (mr_latencyMs r = JsUndefined
        \<or> isFinite (as_number (mr_latencyMs r)) \<and> \<not> num_lt (as_number (mr_latencyMs r)) (Num 0),
       ''latencyMs must be a non-negative finite number''),
      (mr_providerMetadata r = JsUndefined
        \<or> is_js_object (mr_providerMetadata r) \<and> \<not> is_js_array (mr_providerMetadata r),
       ''providerMetadata must be an object''),
      (is_js_object (mr_usage r), ''usage is required'')]
     @ map (\<lambda>f. (safe_count (usage_value (mr_usage r) f),
          ''usage.'' @ usage_field_str f @ '' must be a non-negative safe integer'')) usageFields
     @ [(\<not> num_lt (mu_inputTokens (response_usage r)) (mu_cachedInputTokens (response_usage r)),
          ''usage.cachedInputTokens must not exceed usage.inputTokens''),
        (\<not> num_lt (mu_outputTokens (response_usage r)) (mu_reasoningTokens (response_usage r)),
          ''usage.reasoningTokens must not exceed usage.outputTokens'')]"

definition validateModelResponse :: "model_response \<Rightarrow> string \<Rightarrow> unit llm_result" where
  "validateModelResponse r fallbackProviderId =
     (let providerId = (case nonempty_text (mr_providerId r) of None \<Rightarrow> fallbackProviderId | Some s \<Rightarrow> s) in
      case find (\<lambda>(passed, _). \<not> passed) (response_checks r) of
        None \<Rightarrow> Inr ()
      | Some (_, message) \<Rightarrow> Inl (InvalidProviderResponseError providerId message))"

text \<open>\<open>None\<close>: no answer was received. \<open>Some None\<close>: answered, usage unknown.\<close>

fun rejectedProviderResponse :: "llm_error \<Rightarrow> model_response option option" where
  "rejectedProviderResponse (ModelMismatchError _ None) = None"
| "rejectedProviderResponse (ModelMismatchError _ (Some r)) = Some (Some r)"
| "rejectedProviderResponse (InvalidProviderResponseError _ _) = Some None"
| "rejectedProviderResponse _ = None"

text \<open>
  The fallback over several providers. \<open>aborted n\<close> is the answer of the abort signal when it is
  asked for the \<open>n\<close>-th time.
\<close>

fun fallback_loop ::
  "(nat \<Rightarrow> bool) \<Rightarrow> nat \<Rightarrow> llm_provider list \<Rightarrow> llm_error \<Rightarrow> model_request \<Rightarrow> model_response llm_result" where
  "fallback_loop aborted n [] last_error request = Inl last_error"
| "fallback_loop aborted n (p # ps) last_error request =
     (if aborted n then Inl (ProviderCancelledError (lp_id p))
      else case lp_complete p request of
          Inr response \<Rightarrow> Inr response
        | Inl e \<Rightarrow>
            if aborted (Suc n) then Inl (ProviderCancelledError (lp_id p))
            else if llm_code e = Some ''CANCELLED'' then Inl e
            else if llm_code e = None \<or> \<not> llm_retryable e then Inl e
            else fallback_loop aborted (Suc (Suc n)) ps e request)"

text \<open>The constructor refuses an empty list of providers.\<close>

definition FallbackLlmProvider :: "(nat \<Rightarrow> bool) \<Rightarrow> llm_provider list \<Rightarrow> llm_provider option" where
  "FallbackLlmProvider aborted ps =
     (if ps = [] then None
      else Some \<lparr>lp_id = ''fallback'', lp_pricingCandidates = (\<lambda>request. concat (map (\<lambda>p. lp_pricingCandidates p request) ps)),
        lp_complete = fallback_loop aborted 0 ps (HostError TypeError)\<rparr>)"


subsection \<open>The gateway: pricing and reserving\<close>

type_synonym budget_scope = "budget_scope_type \<times> string"

text \<open>The time to live is a whole number of milliseconds.\<close>

record metered_context = usage_context +
  mc_usageBound :: usage_bound
  mc_budgetScopeType :: "budget_scope_type option"
  mc_budgetScopeId :: "string option"
  mc_budgetScopes :: "budget_scope list option"
  mc_reservationTtlMs :: "int option"
  mc_useProjectBudgetIfConfigured :: bool

definition price :: "pricing_version \<Rightarrow> model_price" where
  "price p = \<lparr>mp_currency = pv_currency p, mp_input = pv_input p, mp_cachedInput = pv_cachedInput p,
     mp_output = pv_output p, mp_reasoning = pv_reasoning p\<rparr>"

text \<open>The key of a candidate: its provider and model around a NUL character.\<close>

definition price_key :: "string \<Rightarrow> string \<Rightarrow> string" where
  "price_key providerId model = providerId @ [CHR 0x00] @ model"

text \<open>The first occurrence of each candidate, in order.\<close>

definition distinct_candidates :: "(string \<times> string) list \<Rightarrow> (string \<times> string) list" where
  "distinct_candidates cs = rev (remdups (rev cs))"

text \<open>
  The map of prices in the order of its keys: setting a key that is present keeps its place.
\<close>

fun find_prices ::
  "js_date \<Rightarrow> (string \<times> string) list \<Rightarrow> (string \<times> pricing_version) list \<Rightarrow> 'z cost_db_scheme
     \<Rightarrow> (string \<times> pricing_version) list result" where
  "find_prices now [] prices db = ok prices"
| "find_prices now ((providerId, model) # cs) prices db =
     bindR (findPricing providerId model now db) (\<lambda>found.
       case found of None \<Rightarrow> throw (PricingNotFoundError providerId model)
       | Some v \<Rightarrow> find_prices now cs (AList.update (price_key providerId model) v prices) db)"

fun dearest :: "usage_bound \<Rightarrow> pricing_version \<times> int \<Rightarrow> pricing_version list \<Rightarrow> (pricing_version \<times> int) result" where
  "dearest bnd envelope [] = ok envelope"
| "dearest bnd envelope (p # ps) =
     bindR (calculateMaximumCost bnd (price p)) (\<lambda>c.
       dearest bnd (if ca_micros c > snd envelope then (p, ca_micros c) else envelope) ps)"

definition worst_case :: "usage_bound \<Rightarrow> pricing_version list \<Rightarrow> (pricing_version \<times> int) result" where
  "worst_case bnd prices = bindR (calculateMaximumCost bnd (price (hd prices))) (\<lambda>c.
     dearest bnd (hd prices, ca_micros c) (tl prices))"

text \<open>The scopes to reserve in, and the primary scope.\<close>

definition initial_scopes :: "'y metered_context_scheme \<Rightarrow> budget_scope list" where
  "initial_scopes ctxt = (case mc_budgetScopes ctxt of Some scopes \<Rightarrow> scopes
     | None \<Rightarrow> (case (mc_budgetScopeType ctxt, mc_budgetScopeId ctxt) of
         (Some ty, Some i) \<Rightarrow> [(ty, i)] | _ \<Rightarrow> []))"

definition chosen_scopes ::
  "'y metered_context_scheme \<Rightarrow> currency \<Rightarrow> 'z cost_db_scheme
     \<Rightarrow> (budget_scope list \<times> budget_scope_type option \<times> string option) result" where
  "chosen_scopes ctxt currency db =
     (let scopes = initial_scopes ctxt; project = uc_projectId ctxt;
          unchanged = (scopes, mc_budgetScopeType ctxt, mc_budgetScopeId ctxt) in
      if scopes = [] \<and> mc_useProjectBudgetIfConfigured ctxt
      then let currencies = listBudgetCurrencies project ScopeProject project db in
        if currencies \<noteq> [] \<and> currency \<notin> set currencies then throw PricingCurrencyMismatchError
        else if currency \<in> set currencies
        then ok ([(ScopeProject, project)], Some ScopeProject, Some project)
        else ok unchanged
      else ok unchanged)"

fun configured_scopes ::
  "string \<Rightarrow> currency \<Rightarrow> budget_scope list \<Rightarrow> 'z cost_db_scheme \<Rightarrow> budget_scope list result" where
  "configured_scopes project currency [] db = ok []"
| "configured_scopes project currency ((ty, i) # scopes) db =
     (let currencies = listBudgetCurrencies project ty i db in
      if currencies \<noteq> [] \<and> currency \<notin> set currencies then throw PricingCurrencyMismatchError
      else bindR (configured_scopes project currency scopes db) (\<lambda>rest.
        ok (if currency \<in> set currencies then (ty, i) # rest else rest)))"

definition reserved_scopes ::
  "'y metered_context_scheme \<Rightarrow> currency \<Rightarrow> budget_scope list \<Rightarrow> 'z cost_db_scheme \<Rightarrow> budget_scope list result" where
  "reserved_scopes ctxt currency scopes db =
     (if mc_budgetScopes ctxt = None then ok scopes
      else bindR (configured_scopes (uc_projectId ctxt) currency scopes db) (\<lambda>configured.
        ok (filter (\<lambda>scope. scope \<in> set configured \<or> fst scope = ScopeAgentRun) scopes)))"

text \<open>A date out of the range of time values is invalid.\<close>

definition date_after :: "js_date \<Rightarrow> int \<Rightarrow> js_date" where
  "date_after d ms = (case d of InvalidDate \<Rightarrow> InvalidDate
     | At t \<Rightarrow> if \<bar>t + ms\<bar> \<le> 8640000000000000 then At (t + ms) else InvalidDate)"

definition reservation_for ::
  "'y metered_context_scheme \<Rightarrow> currency \<Rightarrow> int \<Rightarrow> js_date \<Rightarrow> budget_scope \<Rightarrow> string \<Rightarrow> reservation_input" where
  "reservation_for ctxt currency micros now scope i =
     \<lparr>ri_id = i, ri_projectId = uc_projectId ctxt, ri_scopeType = fst scope, ri_scopeId = snd scope,
       ri_currency = currency, ri_amountMicros = micros, ri_agentRunId = uc_agentRunId ctxt, ri_now = now,
       ri_expiresAt = date_after now (case mc_reservationTtlMs ctxt of None \<Rightarrow> 15 * 60000 | Some ttl \<Rightarrow> ttl)\<rparr>"

fun generate_for :: "services \<Rightarrow> (string \<Rightarrow> 'a) list \<Rightarrow> ('db world, 'a list) command" where
  "generate_for sv [] = returnM []"
| "generate_for sv (f # fs) = bindM (generate sv) (\<lambda>i. bindM (generate_for sv fs) (\<lambda>xs. returnM (f i # xs)))"

definition primary_reservation ::
  "budget_scope_type option \<Rightarrow> string option \<Rightarrow> reservation_input list \<Rightarrow> string option" where
  "primary_reservation ty i inputs =
     (case (ty, i) of
        (Some t, Some s) \<Rightarrow> map_option ri_id (find (\<lambda>v. ri_scopeType v = t \<and> ri_scopeId v = s) inputs)
      | _ \<Rightarrow> None)"

text \<open>What is known before the provider is asked.\<close>

record prepared =
  pr_prices :: "(string \<times> pricing_version) list"
  pr_currency :: currency
  pr_envelope :: "pricing_version \<times> int"
  pr_scopeType :: "budget_scope_type option"
  pr_scopeId :: "string option"
  pr_reservationIds :: "string list"
  pr_primary :: "string option"

definition reserve ::
  "services \<Rightarrow> 'y metered_context_scheme \<Rightarrow> js_date \<Rightarrow> (string \<times> pricing_version) list \<Rightarrow> currency
     \<Rightarrow> pricing_version \<times> int \<Rightarrow> ('z cost_db_scheme world, prepared) command" where
  "reserve sv ctxt now prices currency envelope =
     bindM (guardM ((mc_budgetScopeType ctxt = None) = (mc_budgetScopeId ctxt = None)) BudgetNotFoundError) (\<lambda>_.
     bindM (readDb (chosen_scopes ctxt currency)) (\<lambda>chosen.
     bindM (liftR chosen) (\<lambda>(scopes, ty, i).
     bindM (readDb (reserved_scopes ctxt currency scopes)) (\<lambda>reserved.
     bindM (liftR reserved) (\<lambda>kept.
     bindM (generate_for sv (map (reservation_for ctxt currency (snd envelope) now) kept)) (\<lambda>inputs.
     bindM (guardM (inputs = [] \<or> primary_reservation ty i inputs \<noteq> None) BudgetNotFoundError) (\<lambda>_.
     bindM (if inputs = [] then returnM [] else execDb (authorizeAndReserveMany inputs)) (\<lambda>_.
     returnM \<lparr>pr_prices = prices, pr_currency = currency, pr_envelope = envelope, pr_scopeType = ty, pr_scopeId = i,
       pr_reservationIds = map ri_id inputs, pr_primary = primary_reservation ty i inputs\<rparr>))))))))"

definition prepare ::
  "services \<Rightarrow> llm_provider \<Rightarrow> model_request \<Rightarrow> 'y metered_context_scheme
     \<Rightarrow> ('z cost_db_scheme world, prepared) command" where
  "prepare sv provider request ctxt =
     bindM (clock_now sv) (\<lambda>now.
     bindM (readDb (find_prices now (distinct_candidates (lp_pricingCandidates provider request)) [])) (\<lambda>found.
     bindM (liftR found) (\<lambda>prices.
     bindM (guardM (prices \<noteq> []) (PricingNotFoundError (lp_id provider) (rq_model request))) (\<lambda>_.
     let currency = pv_currency (snd (hd prices)) in
     bindM (guardM (\<not> list_ex (\<lambda>p. pv_currency (snd p) \<noteq> currency) prices) PricingCurrencyMismatchError) (\<lambda>_.
     bindM (liftR (worst_case (mc_usageBound ctxt) (map snd prices))) (\<lambda>envelope.
     reserve sv ctxt now prices currency envelope))))))"

subsection \<open>The gateway: the answer\<close>

record metering =
  me_currency :: currency
  me_pricingVersionId :: string
  me_reservedMicros :: "int option"
  me_estimatedMicros :: int
  me_actualMicros :: int
  me_budgetScopeType :: "budget_scope_type option"
  me_budgetScopeId :: "string option"
  me_recording :: recording

text \<open>The reservation fields of a record: none without reservations.\<close>

definition reservation_fields :: "prepared \<Rightarrow> (string option \<times> string list option) result" where
  "reservation_fields p =
     (if pr_reservationIds p = [] then ok (None, None)
      else if pr_primary p = None then throw BudgetNotFoundError
      else ok (pr_primary p, Some (pr_reservationIds p)))"

definition release_prepared :: "services \<Rightarrow> prepared \<Rightarrow> ('z cost_db_scheme world, unit) command" where
  "release_prepared sv p =
     (if pr_reservationIds p = [] then returnM ()
      else bindM (clock_now sv) (\<lambda>now. execDb (releaseReservations (pr_reservationIds p) now)))"

definition known_text :: "js_value \<Rightarrow> string" where
  "known_text v = (case v of JsString s \<Rightarrow> s | _ \<Rightarrow> [])"

text \<open>A validated answer, priced by the version of the model that answered and recorded.\<close>

definition price_and_record ::
  "services \<Rightarrow> 'y metered_context_scheme \<Rightarrow> prepared \<Rightarrow> model_response
     \<Rightarrow> ('z cost_db_scheme world, metering) command" where
  "price_and_record sv ctxt p response =
     (let providerId = known_text (mr_providerId response); model = known_text (mr_model response) in
      case map_of (pr_prices p) (price_key providerId model) of
        None \<Rightarrow> throwM (PricingNotFoundError providerId model)
      | Some pricing \<Rightarrow>
          bindM (liftR (calculateCost (response_usage response) (price pricing))) (\<lambda>actual.
          bindM (liftR (calculateMaximumCost (mc_usageBound ctxt) (price pricing))) (\<lambda>estimated.
          bindM (generate sv) (\<lambda>usageId.
          bindM (generate sv) (\<lambda>costEventId.
          bindM (liftR (reservation_fields p)) (\<lambda>(primary, ids).
          bindM (clock_now sv) (\<lambda>now.
          bindM (execDb (recordUsageAndCost
            \<lparr>ci_usageId = usageId, ci_costEventId = costEventId, ci_context = usage_context.truncate ctxt,
              ci_provider = providerId, ci_model = model,
              ci_providerRequestId = nonempty_text (mr_providerRequestId response),
              ci_usage = response_usage response, ci_pricingVersionId = pv_id pricing,
              ci_reservationId = primary, ci_reservationIds = ids, ci_estimated = estimated, ci_actual = actual,
              ci_chargeBasis = Some ReportedUsage, ci_occurredAt = now\<rparr>)) (\<lambda>rec.
          returnM \<lparr>me_currency = ca_currency actual, me_pricingVersionId = pv_id pricing,
            me_reservedMicros = (if pr_reservationIds p = [] then None else Some (snd (pr_envelope p))),
            me_estimatedMicros = ca_micros estimated, me_actualMicros = ca_micros actual,
            me_budgetScopeType = pr_scopeType p, me_budgetScopeId = pr_scopeId p, me_recording = rec\<rparr>))))))))"

definition no_usage :: model_usage where
  "no_usage = \<lparr>mu_inputTokens = Num 0, mu_cachedInputTokens = Num 0, mu_outputTokens = Num 0, mu_reasoningTokens = Num 0\<rparr>"

text \<open>The charge of an answer that was rejected: the whole envelope.\<close>

definition or_text :: "string option \<Rightarrow> string \<Rightarrow> string" where
  "or_text v d = (case v of None \<Rightarrow> d | Some s \<Rightarrow> s)"

definition chargeRejectedResponse ::
  "services \<Rightarrow> llm_provider \<Rightarrow> model_request \<Rightarrow> 'y metered_context_scheme \<Rightarrow> prepared
     \<Rightarrow> model_response option \<Rightarrow> ('z cost_db_scheme world, unit) command" where
  "chargeRejectedResponse sv provider request ctxt p response =
     (let usage = (case response of None \<Rightarrow> no_usage
            | Some r \<Rightarrow> (case validateModelResponse r (lp_id provider) of Inl _ \<Rightarrow> no_usage | Inr _ \<Rightarrow> response_usage r));
          reported = (\<lambda>f. case response of None \<Rightarrow> None | Some r \<Rightarrow> nonempty_text (f r));
          charge = \<lparr>ca_micros = snd (pr_envelope p), ca_currency = pr_currency p\<rparr> in
      bindM (liftR (reservation_fields p)) (\<lambda>(primary, ids).
      bindM (generate sv) (\<lambda>usageId.
      bindM (generate sv) (\<lambda>costEventId.
      bindM (clock_now sv) (\<lambda>now.
      bindM (execDb (recordUsageAndCost
        \<lparr>ci_usageId = usageId, ci_costEventId = costEventId, ci_context = usage_context.truncate ctxt,
          ci_provider = or_text (reported mr_providerId) (lp_id provider),
          ci_model = or_text (reported mr_model) (rq_model request),
          ci_providerRequestId = reported mr_providerRequestId, ci_usage = usage,
          ci_pricingVersionId = pv_id (fst (pr_envelope p)), ci_reservationId = primary, ci_reservationIds = ids,
          ci_estimated = charge, ci_actual = charge, ci_chargeBasis = Some ReservedEnvelope,
          ci_occurredAt = now\<rparr>)) (\<lambda>rec.
      if rec = DuplicateUsage \<and> pr_reservationIds p \<noteq> [] then release_prepared sv p else returnM ()))))))"

text \<open>
  The \<open>catch\<close> of the request: \<open>received\<close> is \<open>None\<close> when nothing was answered. A release that
  throws replaces the error; a charge that throws does not.
\<close>

definition after_failure ::
  "services \<Rightarrow> llm_provider \<Rightarrow> model_request \<Rightarrow> 'y metered_context_scheme \<Rightarrow> prepared
     \<Rightarrow> model_response option option \<Rightarrow> llm_error \<Rightarrow> 'z cost_db_scheme world
     \<Rightarrow> 'a llm_result \<times> 'z cost_db_scheme world" where
  "after_failure sv provider request ctxt p received e w =
     (let released = (case release_prepared sv p w of
          (Inl e', w') \<Rightarrow> (Inl (HostError e'), w') | (Inr _, w') \<Rightarrow> (Inl e, w')) in
      case received of
        None \<Rightarrow> released
      | Some response \<Rightarrow>
          (case e of HostError (DuplicateProviderUsageError _ _) \<Rightarrow> released
           | _ \<Rightarrow> (Inl e, snd (chargeRejectedResponse sv provider request ctxt p response w))))"

definition completeMetered ::
  "services \<Rightarrow> llm_provider \<Rightarrow> model_request \<Rightarrow> 'y metered_context_scheme \<Rightarrow> 'z cost_db_scheme world
     \<Rightarrow> (model_response \<times> metering) llm_result \<times> 'z cost_db_scheme world" where
  "completeMetered sv provider request ctxt w =
     (case prepare sv provider request ctxt w of
        (Inl e, w1) \<Rightarrow> (Inl (HostError e), w1)
      | (Inr p, w1) \<Rightarrow>
          (case lp_complete provider request of
             Inl e \<Rightarrow> after_failure sv provider request ctxt p (rejectedProviderResponse e) e w1
           | Inr response \<Rightarrow>
               (case validateModelResponse response (lp_id provider) of
                  Inl e \<Rightarrow> after_failure sv provider request ctxt p (Some (Some response)) e w1
                | Inr _ \<Rightarrow>
                    (case price_and_record sv ctxt p response w1 of
                       (Inl e, w2) \<Rightarrow> after_failure sv provider request ctxt p (Some (Some response)) (HostError e) w2
                     | (Inr m, w2) \<Rightarrow>
                         if me_recording m = DuplicateUsage
                         then (case release_prepared sv p w2 of
                             (Inl e, w3) \<Rightarrow> after_failure sv provider request ctxt p None (HostError e) w3
                           | (Inr _, w3) \<Rightarrow> (Inr (response, m), w3))
                         else (Inr (response, m), w2)))))"


section \<open>Lemmas: reservations of a request\<close>

text \<open>Several reservations granted at once: their rows, under new identifiers, after the others.\<close>

definition reservation_of :: "reservation_input \<times> budget_row \<Rightarrow> reservation_row" where
  "reservation_of vb = \<lparr>rs_id = ri_id (fst vb), rs_budgetId = bg_id (snd vb), rs_agentRunId = ri_agentRunId (fst vb),
     rs_amount = ri_amountMicros (fst vb), rs_status = RsActive, rs_expiresAt = ri_expiresAt (fst vb)\<rparr>"

lemma insert_all_rows:
  "insert_all ps db = ok (u, db') \<Longrightarrow>
     db' = db\<lparr>cd_reservations := cd_reservations db @ map reservation_of ps\<rparr>
     \<and> (\<forall>vb \<in> set ps. ri_id (fst vb) \<notin> rs_id ` set (cd_reservations db))"
proof (induction ps arbitrary: db)
  case (Cons p ps)
  obtain db1 where i: "insert_reservation (fst p) (snd p) db = ok ((), db1)" and rest: "insert_all ps db1 = ok (u, db')"
    using Cons.prems by (cases p) (auto simp: result_simps)
  have db1: "db1 = db\<lparr>cd_reservations := cd_reservations db @ [reservation_of p]\<rparr>"
    "ri_id (fst p) \<notin> rs_id ` set (cd_reservations db)"
    using i by (auto simp: insert_reservation_def reservation_of_def result_simps split: if_splits)
  show ?case using Cons.IH [OF rest] db1 by auto
qed simp

lemma authorizeAndReserveMany_rows:
  assumes "authorizeAndReserveMany vs db = ok (xs, db')"
  obtains ps where "map fst ps = vs" "db' = db\<lparr>cd_reservations := cd_reservations db @ map reservation_of ps\<rparr>"
    "\<forall>vb \<in> set ps. ri_id (fst vb) \<notin> rs_id ` set (cd_reservations db)"
proof -
  obtain bs where bs: "mapR (\<lambda>v. authorize v db) vs = ok bs" and ins: "insert_all (zip vs bs) db = ok ((), db')"
    using assms by (auto simp: authorizeAndReserveMany_def result_simps split: option.splits)
  have "length bs = length vs" using bs by (auto simp: mapR_ok_list_all2 dest: list_all2_lengthD)
  then show ?thesis using that [of "zip vs bs"] insert_all_rows [OF ins] by simp
qed

text \<open>Each identifier of a consumed list had exactly one active row, which is now consumed.\<close>

lemma consume_reservations_rows:
  "consume_reservations is rows = ok rows' \<Longrightarrow>
   rows' = map (\<lambda>r. if rs_id r \<in> set is \<and> rs_status r = RsActive then r\<lparr>rs_status := RsConsumed\<rparr> else r) rows"
proof (induction "is" arbitrary: rows)
  case (Cons i "is")
  from Cons.prems have "consume_reservations is (map (\<lambda>r. if rs_id r = i \<and> rs_status r = RsActive
      then r\<lparr>rs_status := RsConsumed\<rparr> else r) rows) = ok rows'" by (simp split: if_splits)
  from Cons.IH [OF this] show ?case by (auto simp: o_def)
qed simp

definition reservations_open :: "string list \<Rightarrow> 'z cost_db_scheme \<Rightarrow> bool" where
  "reservations_open ids db \<longleftrightarrow> (\<forall>r \<in> set (cd_reservations db). rs_id r \<in> set ids \<longrightarrow> rs_status r = RsActive)"

lemma check_reservations_open:
  assumes "reservations_open ids db" and "set is \<subseteq> set ids"
  shows "check_reservations occurred (cd_reservations db) is a \<noteq> ok None"
  using assms(2)
proof (induction "is" arbitrary: a)
  case (Cons i "is")
  show ?case
  proof (cases "find (\<lambda>r. rs_id r = i) (cd_reservations db)")
    case (Some r)
    then have "r \<in> set (cd_reservations db)" "rs_id r = i" by (auto simp: find_Some_iff)
    then have "rs_status r = RsActive" using assms(1) Cons.prems by (auto simp: reservations_open_def)
    then show ?thesis using Some Cons by (auto simp: result_simps split: if_splits)
  qed simp
qed simp


section \<open>Lemmas: recording a charge\<close>

text \<open>One usage and its charge were added, and the reservations of the request consumed.\<close>

definition charged_once ::
  "string list \<Rightarrow> 'z cost_db_scheme \<Rightarrow> cost_event \<Rightarrow> 'z cost_db_scheme \<Rightarrow> bool" where
  "charged_once ids db c db' \<longleftrightarrow>
     (\<exists>u. us_id u = ce_usageId c \<and> us_id u \<notin> us_id ` set (cd_usage db) \<and>
        db' = db\<lparr>cd_usage := cd_usage db @ [u], cd_costs := cd_costs db @ [c],
          cd_reservations := map (\<lambda>r. if rs_id r \<in> set ids \<and> rs_status r = RsActive
            then r\<lparr>rs_status := RsConsumed\<rparr> else r) (cd_reservations db)\<rparr>)"

text \<open>The usage is known: its identifier, or its provider and the provider's request.\<close>

definition known_usage :: "cost_input \<Rightarrow> 'z cost_db_scheme \<Rightarrow> bool" where
  "known_usage v db \<longleftrightarrow> (\<exists>u \<in> set (cd_usage db). us_id u = ci_usageId v
     \<or> ci_providerRequestId v \<noteq> None \<and> us_provider u = ci_provider v \<and> us_providerRequestId u = ci_providerRequestId v)"

lemma recordUsageAndCost_charges:
  assumes "recordUsageAndCost v db = ok (Recorded, db')"
  obtains c where "charged_once (settled_ids v) db c db'" "ce_actual c = ca_micros (ci_actual v)"
    "Some (ce_chargeBasis c) = (if ci_chargeBasis v = None then Some ReportedUsage else ci_chargeBasis v)"
proof -
  have fresh: "ci_usageId v \<notin> us_id ` set (cd_usage db)"
    using assms unfolding recordUsageAndCost_def by (auto split: if_splits)
  obtain x db1 db2 rows ov where u: "insert_usage v db = ok db1" and co: "insert_cost v x ov db1 = ok db2"
    and cons: "consume_reservations (settled_ids v) (cd_reservations db2) = ok rows"
    and db': "db' = db2\<lparr>cd_reservations := rows\<rparr>"
    using assms by (auto simp: recordUsageAndCost_def Let_def result_simps split: if_splits option.splits)
  have db1: "db1 = db\<lparr>cd_usage := cd_usage db @ [usage_entry v]\<rparr>"
    using u by (auto simp: insert_usage_def usage_entry_def result_simps split: if_splits)
  obtain e where e: "db2 = db1\<lparr>cd_costs := cd_costs db1 @ [e]\<rparr>" "ce_usageId e = ci_usageId v"
      "ce_actual e = ca_micros (ci_actual v)"
      "Some (ce_chargeBasis e) = (if ci_chargeBasis v = None then Some ReportedUsage else ci_chargeBasis v)"
    using co by (auto simp: insert_cost_def result_simps split: if_splits option.splits)
  note rows = consume_reservations_rows [OF cons]
  show ?thesis
  proof (rule that [OF _ e(3,4)])
    show "charged_once (settled_ids v) db e db'"
      unfolding charged_once_def using db1 e(1,2) db' rows fresh
      by (intro exI [of _ "usage_entry v"]) (simp add: usage_entry_def)
  qed
qed

lemma recordUsageAndCost_known:
  assumes "recordUsageAndCost v db = ok (DuplicateUsage, db')" and "reservations_open (settled_ids v) db"
  shows "known_usage v db"
proof (rule ccontr)
  assume k: "\<not> known_usage v db"
  have "ci_usageId v \<notin> us_id ` set (cd_usage db)" using k by (auto simp: known_usage_def)
  moreover have "\<not> (case ci_providerRequestId v of None \<Rightarrow> False
      | Some r \<Rightarrow> \<exists>u \<in> set (cd_usage db). us_provider u = ci_provider v \<and> us_providerRequestId u = Some r)"
    using k by (auto simp: known_usage_def split: option.splits)
  ultimately obtain r where "check_reservations (ci_occurredAt v) (cd_reservations db) (settled_ids v) 0 = ok r"
      "r = None"
    using assms(1) unfolding recordUsageAndCost_def by (auto simp: Let_def result_simps split: option.splits)
  then show False using check_reservations_open [OF assms(2)] by blast
qed

text \<open>The repository reports a duplicate; it never throws one.\<close>

definition not_duplicate :: "'a result \<Rightarrow> bool" where
  "not_duplicate r \<longleftrightarrow> (\<forall>a b. r \<noteq> throw (DuplicateProviderUsageError a b))"

lemma not_duplicate_ok [simp]: "not_duplicate (ok x)"
  by (simp add: not_duplicate_def)

lemma not_duplicate_throw [simp]: "not_duplicate (throw e) \<longleftrightarrow> (\<forall>a b. e \<noteq> DuplicateProviderUsageError a b)"
  by (simp add: not_duplicate_def)

lemma not_duplicate_bind [intro!]:
  "not_duplicate r \<Longrightarrow> (\<And>x. r = ok x \<Longrightarrow> not_duplicate (f x)) \<Longrightarrow> not_duplicate (bindR r f)"
  by (cases r) (auto simp: not_duplicate_def)

lemma not_duplicate_forR [intro!]: "(\<And>x. not_duplicate (f x)) \<Longrightarrow> not_duplicate (forR f xs)"
  by (induction xs) auto

lemma not_duplicate_numbers [simp]:
  "not_duplicate (safe v)" "not_duplicate (restoredInteger v)" "not_duplicate (safeCount n)" "not_duplicate (iso_check d)"
  by (simp_all add: safe_def restoredInteger_def safeCount_def iso_check_def)

lemma not_duplicate_check: "not_duplicate (check_reservations d rows is a)"
  by (induction d rows "is" a rule: check_reservations.induct) (auto split: option.splits)

lemma not_duplicate_consume: "not_duplicate (consume_reservations is rows)"
  by (induction "is" rows rule: consume_reservations.induct) auto

lemma not_duplicate_insert: "not_duplicate (insert_usage v db)" "not_duplicate (insert_cost v r ov db')"
  by (auto simp: insert_usage_def insert_cost_def)

lemma not_duplicate_record: "not_duplicate (recordUsageAndCost v db)"
  unfolding recordUsageAndCost_def
  by (auto simp: Let_def split: option.splits intro!: not_duplicate_check not_duplicate_consume
      not_duplicate_insert)

lemma not_duplicate_calculate: "not_duplicate (calculateCost u pr)" "not_duplicate (calculateMaximumCost b pr)"
  by (auto simp: calculateCost_def calculateMaximumCost_def billableTokens_def)

lemma never_duplicate:
  "calculateCost u pr \<noteq> throw (DuplicateProviderUsageError a b)"
  "calculateMaximumCost bnd pr \<noteq> throw (DuplicateProviderUsageError a b)"
  "recordUsageAndCost v db \<noteq> throw (DuplicateProviderUsageError a b)"
  using not_duplicate_calculate(1) [of u pr] not_duplicate_calculate(2) [of bnd pr] not_duplicate_record [of v db]
  unfolding not_duplicate_def by metis+


section \<open>Lemmas: the steps of a request\<close>

lemma generate_for_db: "generate_for sv fs w = (ok xs, w') \<Longrightarrow> w_db w' = w_db w"
  by (induction fs arbitrary: xs w) (auto simp: result_simps)

text \<open>What a prepared request has done: it reserved what it says, in the tables it found.\<close>

lemma reserve_ok:
  assumes "reserve sv ctxt now prices currency envelope w = (ok p, w1)"
  obtains ps where "pr_reservationIds p = map (ri_id \<circ> fst) ps"
    "w_db w1 = (w_db w)\<lparr>cd_reservations := cd_reservations (w_db w) @ map reservation_of ps\<rparr>"
    "\<forall>vb \<in> set ps. ri_id (fst vb) \<notin> rs_id ` set (cd_reservations (w_db w))"
    "pr_prices p = prices" "pr_currency p = currency" "pr_envelope p = envelope"
    "pr_reservationIds p = [] \<or> pr_primary p \<noteq> None"
proof -
  obtain scopes ty i kept inputs wi x where
      gen: "generate_for sv (map (reservation_for ctxt currency (snd envelope) now) kept) w = (ok inputs, wi)"
    and primary: "inputs = [] \<or> primary_reservation ty i inputs \<noteq> None"
    and auth: "(if inputs = [] then returnM [] else execDb (authorizeAndReserveMany inputs)) wi = (ok x, w1)"
    and p: "p = \<lparr>pr_prices = prices, pr_currency = currency, pr_envelope = envelope, pr_scopeType = ty, pr_scopeId = i,
       pr_reservationIds = map ri_id inputs, pr_primary = primary_reservation ty i inputs\<rparr>"
    using assms unfolding reserve_def by (auto simp: bindM_ok split: prod.splits if_splits)
  have db: "w_db wi = w_db w" by (rule generate_for_db [OF gen])
  show ?thesis
  proof (cases "inputs = []")
    case True
    then show ?thesis using that [of "[]"] auth db p by simp
  next
    case False
    then obtain d where a: "authorizeAndReserveMany inputs (w_db w) = ok (x, d)" "w_db w1 = d"
      using auth db by (auto simp: result_simps)
    obtain ps where ps: "map fst ps = inputs"
        "d = (w_db w)\<lparr>cd_reservations := cd_reservations (w_db w) @ map reservation_of ps\<rparr>"
        "\<forall>vb \<in> set ps. ri_id (fst vb) \<notin> rs_id ` set (cd_reservations (w_db w))"
      by (rule authorizeAndReserveMany_rows [OF a(1)])
    show ?thesis by (rule that [of ps]) (use ps a(2) p primary False in \<open>auto simp: map_map [symmetric]\<close>)
  qed
qed

text \<open>
  The reservations the gateway makes are a step of the accounting: each is for another budget as long
  as the context names no scope twice, which holds of one scope and of the scopes of a worker run, a
  project, a task, an agent and a run.
\<close>

lemma generated_reservations:
  "generate_for sv (map (reservation_for ctxt currency micros now) scopes) w = (ok inputs, w') \<Longrightarrow>
   map budget_key inputs = map (\<lambda>s. (uc_projectId ctxt, fst s, snd s, currency)) scopes
     \<and> (\<forall>v \<in> set inputs. ri_now v = now)"
  by (induction scopes arbitrary: inputs w) (auto simp: bindM_ok reservation_for_def budget_key_def)

lemma reserved_scopes_distinct:
  assumes "chosen_scopes ctxt currency db = ok (scopes, ty, i)" and "reserved_scopes ctxt currency scopes db' = ok kept"
    and "distinct (initial_scopes ctxt)"
  shows "distinct kept"
proof -
  have "distinct scopes" using assms(1,3) by (auto simp: chosen_scopes_def Let_def split: if_splits)
  then show ?thesis using assms(2) by (auto simp: reserved_scopes_def result_simps split: if_splits)
qed

lemma gateway_reserves:
  assumes "reserve sv ctxt (At t) prices currency envelope w = (ok p, w1)" and "distinct (initial_scopes ctxt)"
  shows "cost_step\<^sup>*\<^sup>* (t, w_db w) (t, w_db w1)"
proof -
  obtain scopes ty i kept inputs wi x where
      chosen: "chosen_scopes ctxt currency (w_db w) = ok (scopes, ty, i)"
    and kept: "reserved_scopes ctxt currency scopes (w_db w) = ok kept"
    and gen: "generate_for sv (map (reservation_for ctxt currency (snd envelope) (At t)) kept) w = (ok inputs, wi)"
    and auth: "(if inputs = [] then returnM [] else execDb (authorizeAndReserveMany inputs)) wi = (ok x, w1)"
    using assms(1) unfolding reserve_def by (auto simp: bindM_ok split: prod.splits if_splits)
  have db: "w_db wi = w_db w" by (rule generate_for_db [OF gen])
  have "inj (\<lambda>s. (uc_projectId ctxt, fst s, snd s, currency))" by (auto simp: inj_on_def)
  then have keys: "distinct (map budget_key inputs)" "\<forall>v \<in> set inputs. ri_now v = At t"
    using generated_reservations [OF gen] reserved_scopes_distinct [OF chosen kept assms(2)]
    by (auto simp: distinct_map intro: inj_on_subset)
  show ?thesis
  proof (cases "inputs = []")
    case False
    then obtain d where "authorizeAndReserveMany inputs (w_db w) = ok (x, d)" "w_db w1 = d"
      using auth db by (auto simp: result_simps)
    then show ?thesis using cost_step.reserve_many keys by blast
  qed (use auth db in simp)
qed

lemma worker_scopes_distinct:
  "mc_budgetScopes ctxt = None \<Longrightarrow> distinct (initial_scopes ctxt)"
  "mc_budgetScopes ctxt = Some [(ScopeProject, p), (ScopeTask, k), (ScopeAgent, a), (ScopeAgentRun, r)]
     \<Longrightarrow> distinct (initial_scopes ctxt)"
  by (simp_all add: initial_scopes_def split: option.split)

lemma prepare_ok:
  assumes "prepare sv provider request ctxt w = (ok p, w1)"
  obtains w0 where "w_db w0 = w_db w" "pr_prices p \<noteq> []"
    "worst_case (mc_usageBound ctxt) (map snd (pr_prices p)) = ok (pr_envelope p)"
    "find_prices (sv_now sv (w_clock w)) (distinct_candidates (lp_pricingCandidates provider request)) [] (w_db w) = ok (pr_prices p)"
    "reserve sv ctxt (sv_now sv (w_clock w)) (pr_prices p) (pr_currency p) (pr_envelope p) w0 = (ok p, w1)"
proof -
  let ?w = "w\<lparr>w_clock := Suc (w_clock w)\<rparr>" and ?now = "sv_now sv (w_clock w)"
  obtain prices envelope where f: "find_prices ?now (distinct_candidates (lp_pricingCandidates provider request)) [] (w_db w) = ok prices"
    and ne: "prices \<noteq> []" and env: "worst_case (mc_usageBound ctxt) (map snd prices) = ok envelope"
    and r: "reserve sv ctxt ?now prices (pv_currency (snd (hd prices))) envelope ?w = (ok p, w1)"
    using assms unfolding prepare_def Let_def by (auto simp: bindM_ok split: if_splits)
  obtain ps :: "(reservation_input \<times> budget_row) list" where "pr_prices p = prices" "pr_currency p = pv_currency (snd (hd prices))" "pr_envelope p = envelope"
    by (rule reserve_ok [OF r])
  then show ?thesis by (intro that [of ?w]) (use f ne env r in simp_all)
qed

lemma prepared_open:
  assumes "prepare sv provider request ctxt w = (ok p, w1)"
  shows "reservations_open (pr_reservationIds p) (w_db w1)"
    and "pr_reservationIds p = [] \<or> pr_primary p \<noteq> None"
proof -
  obtain w0 where w0: "w_db w0 = w_db w"
    and r: "reserve sv ctxt (sv_now sv (w_clock w)) (pr_prices p) (pr_currency p) (pr_envelope p) w0 = (ok p, w1)"
    by (rule prepare_ok [OF assms])
  obtain ps where ps: "pr_reservationIds p = map (ri_id \<circ> fst) ps"
    "w_db w1 = (w_db w0)\<lparr>cd_reservations := cd_reservations (w_db w0) @ map reservation_of ps\<rparr>"
    "\<forall>vb \<in> set ps. ri_id (fst vb) \<notin> rs_id ` set (cd_reservations (w_db w0))"
    and prim: "pr_reservationIds p = [] \<or> pr_primary p \<noteq> None"
    by (rule reserve_ok [OF r])
  show "pr_reservationIds p = [] \<or> pr_primary p \<noteq> None" by (rule prim)
  show "reservations_open (pr_reservationIds p) (w_db w1)"
    unfolding reservations_open_def
  proof (intro ballI impI)
    fix r assume r: "r \<in> set (cd_reservations (w_db w1))" "rs_id r \<in> set (pr_reservationIds p)"
    then have "r \<notin> set (cd_reservations (w_db w0))" using ps(1,3) by force
    then show "rs_status r = RsActive" using r(1) ps(2) by (auto simp: reservation_of_def)
  qed
qed

lemma settled_ids_fields:
  assumes "reservation_fields p = ok (primary, ids)" and "ci_reservationId v = primary" and "ci_reservationIds v = ids"
  shows "settled_ids v = pr_reservationIds p"
  using assms(1) unfolding settled_ids_def assms(2,3) by (auto simp: reservation_fields_def split: if_splits)

lemma release_prepared_db:
  "snd (release_prepared sv p w) = w' \<Longrightarrow> cd_costs (w_db w') = cd_costs (w_db w) \<and> cd_usage (w_db w') = cd_usage (w_db w)"
  by (auto simp: release_prepared_def releaseReservations_def bindM_def execDb_def iso_check_def set_released_def)

text \<open>The usage of an answer is known when its provider's request was recorded before.\<close>

definition answer_known :: "string \<Rightarrow> model_response \<Rightarrow> 'z cost_db_scheme \<Rightarrow> bool" where
  "answer_known providerId r db \<longleftrightarrow> nonempty_text (mr_providerRequestId r) \<noteq> None
     \<and> (\<exists>u \<in> set (cd_usage db). us_provider u = or_text (nonempty_text (mr_providerId r)) providerId
        \<and> us_providerRequestId u = nonempty_text (mr_providerRequestId r))"

lemma known_text_nonempty: "nonempty_text v \<noteq> None \<Longrightarrow> known_text v = or_text (nonempty_text v) d"
  by (cases v) (auto simp: nonempty_text_def known_text_def or_text_def split: if_splits)

lemma price_and_record_ok:
  assumes "price_and_record sv ctxt p r w = (ok m, w2)" and "reservations_open (pr_reservationIds p) (w_db w)"
    and fresh: "\<forall>n. sv_id sv n \<notin> us_id ` set (cd_usage (w_db w))" and "nonempty_text (mr_providerId r) \<noteq> None"
  shows "me_recording m = DuplicateUsage \<and> w_db w2 = w_db w \<and> answer_known d r (w_db w)
    \<or> me_recording m = Recorded \<and> (\<exists>c. charged_once (pr_reservationIds p) (w_db w) c (w_db w2)
        \<and> ce_actual c = me_actualMicros m \<and> ce_chargeBasis c = ReportedUsage)"
proof -
  let ?v = "\<lambda>primary ids pricing estimated actual. \<lparr>ci_usageId = sv_id sv (w_ids w), ci_costEventId = sv_id sv (Suc (w_ids w)),
      ci_context = usage_context.truncate ctxt, ci_provider = known_text (mr_providerId r), ci_model = known_text (mr_model r),
      ci_providerRequestId = nonempty_text (mr_providerRequestId r), ci_usage = response_usage r,
      ci_pricingVersionId = pv_id pricing, ci_reservationId = primary, ci_reservationIds = ids,
      ci_estimated = estimated, ci_actual = actual, ci_chargeBasis = Some ReportedUsage,
      ci_occurredAt = sv_now sv (w_clock w)\<rparr>"
  note run = assms(1) [unfolded price_and_record_def Let_def]
  obtain pricing where pr: "map_of (pr_prices p) (price_key (known_text (mr_providerId r)) (known_text (mr_model r))) = Some pricing"
    using run by (cases "map_of (pr_prices p) (price_key (known_text (mr_providerId r)) (known_text (mr_model r)))") simp_all
  obtain actual where actual: "calculateCost (response_usage r) (price pricing) = ok actual"
    using run pr by (cases "calculateCost (response_usage r) (price pricing)") (simp_all add: bindM_def)
  obtain estimated where est: "calculateMaximumCost (mc_usageBound ctxt) (price pricing) = ok estimated"
    using run pr actual by (cases "calculateMaximumCost (mc_usageBound ctxt) (price pricing)") (simp_all add: bindM_def)
  obtain primary ids where fields: "reservation_fields p = ok (primary, ids)"
    using run pr actual est by (cases "reservation_fields p") (auto simp: bindM_def)
  obtain rec d1 where rec: "recordUsageAndCost (?v primary ids pricing estimated actual) (w_db w) = ok (rec, d1)"
    using run pr actual est fields
    by (cases "recordUsageAndCost (?v primary ids pricing estimated actual) (w_db w)") (auto simp: bindM_def execDb_def)
  have m: "me_recording m = rec" "me_actualMicros m = ca_micros actual" and w2: "w_db w2 = d1"
    using run pr actual est fields rec by (auto simp: bindM_def execDb_def)
  have ids: "settled_ids (?v primary ids pricing estimated actual) = pr_reservationIds p"
    by (rule settled_ids_fields [OF fields]) simp_all
  show ?thesis
  proof (cases rec)
    case Recorded
    obtain c where "charged_once (settled_ids (?v primary ids pricing estimated actual)) (w_db w) c d1"
        "ce_actual c = ca_micros (ci_actual (?v primary ids pricing estimated actual))"
        "Some (ce_chargeBasis c) = (if ci_chargeBasis (?v primary ids pricing estimated actual) = None then Some ReportedUsage
           else ci_chargeBasis (?v primary ids pricing estimated actual))"
      by (rule recordUsageAndCost_charges [OF rec [unfolded Recorded]])
    then show ?thesis using m w2 Recorded unfolding ids by auto
  next
    case DuplicateUsage
    have "known_usage (?v primary ids pricing estimated actual) (w_db w)"
      by (rule recordUsageAndCost_known [OF rec [unfolded DuplicateUsage]]) (simp add: ids assms(2))
    moreover have "\<forall>u \<in> set (cd_usage (w_db w)). us_id u \<noteq> sv_id sv (w_ids w)" using fresh by (metis image_eqI)
    ultimately have "answer_known d r (w_db w)"
      using known_text_nonempty [OF assms(4), of d] by (auto simp: known_usage_def answer_known_def)
    then show ?thesis using m w2 DuplicateUsage recordUsageAndCost_duplicate [OF rec [unfolded DuplicateUsage]] by simp
  qed
qed

lemma price_and_record_throws:
  assumes "price_and_record sv ctxt p r w = (throw e, w2)"
  shows "w_db w2 = w_db w \<and> (\<forall>a b. e \<noteq> DuplicateProviderUsageError a b)"
proof -
  show ?thesis using assms unfolding price_and_record_def Let_def
    by (auto simp: bindM_throw bindM_ok execDb_throw reservation_fields_def never_duplicate
        split: option.splits prod.splits if_splits)
qed


text \<open>The rejected answer is charged the envelope, unless that fails or the usage is known.\<close>

definition envelope_charged :: "prepared \<Rightarrow> 'z cost_db_scheme \<Rightarrow> 'z cost_db_scheme \<Rightarrow> bool" where
  "envelope_charged p db db' \<longleftrightarrow> (\<exists>c. charged_once (pr_reservationIds p) db c db'
     \<and> ce_actual c = snd (pr_envelope p) \<and> ce_chargeBasis c = ReservedEnvelope)"

lemma charge_rejected:
  assumes "snd (chargeRejectedResponse sv provider request ctxt p response w) = w2"
    and "reservations_open (pr_reservationIds p) (w_db w)"
    and fresh: "\<forall>n. sv_id sv n \<notin> us_id ` set (cd_usage (w_db w))"
  shows "w_db w2 = w_db w \<or> envelope_charged p (w_db w) (w_db w2)
    \<or> (\<exists>r. response = Some r \<and> answer_known (lp_id provider) r (w_db w)
        \<and> cd_costs (w_db w2) = cd_costs (w_db w) \<and> cd_usage (w_db w2) = cd_usage (w_db w))"
proof (cases "reservation_fields p")
  case (Inl e)
  then show ?thesis using assms(1) by (simp add: chargeRejectedResponse_def Let_def bindM_def)
next
  case (Inr pi)
  obtain primary ids where pi: "pi = (primary, ids)" by (cases pi)
  let ?reported = "\<lambda>f. case response of None \<Rightarrow> None | Some r \<Rightarrow> nonempty_text (f r)"
  let ?charge = "\<lparr>ca_micros = snd (pr_envelope p), ca_currency = pr_currency p\<rparr>"
  define v where "v = \<lparr>ci_usageId = sv_id sv (w_ids w), ci_costEventId = sv_id sv (Suc (w_ids w)),
    ci_context = usage_context.truncate ctxt, ci_provider = or_text (?reported mr_providerId) (lp_id provider),
    ci_model = or_text (?reported mr_model) (rq_model request), ci_providerRequestId = ?reported mr_providerRequestId,
    ci_usage = (case response of None \<Rightarrow> no_usage
      | Some r \<Rightarrow> (case validateModelResponse r (lp_id provider) of Inl _ \<Rightarrow> no_usage | Inr _ \<Rightarrow> response_usage r)),
    ci_pricingVersionId = pv_id (fst (pr_envelope p)), ci_reservationId = primary, ci_reservationIds = ids,
    ci_estimated = ?charge, ci_actual = ?charge, ci_chargeBasis = Some ReservedEnvelope,
    ci_occurredAt = sv_now sv (w_clock w)\<rparr>"
  have ids: "settled_ids v = pr_reservationIds p"
    by (rule settled_ids_fields [OF Inr [unfolded pi]]) (simp_all add: v_def)
  let ?w = "w\<lparr>w_ids := Suc (Suc (w_ids w)), w_clock := Suc (w_clock w)\<rparr>"
  have run: "chargeRejectedResponse sv provider request ctxt p response w =
      bindM (execDb (recordUsageAndCost v)) (\<lambda>rec. if rec = DuplicateUsage \<and> pr_reservationIds p \<noteq> []
        then release_prepared sv p else returnM ()) ?w"
    unfolding chargeRejectedResponse_def Let_def v_def using Inr pi by (simp add: bindM_def)
  show ?thesis
  proof (cases "recordUsageAndCost v (w_db w)")
    case (Inl e)
    then show ?thesis using assms(1) run by (auto simp: bindM_def execDb_def)
  next
    case (Inr x)
    obtain rec d where x: "x = (rec, d)" by (cases x)
    show ?thesis
    proof (cases rec)
      case Recorded
      obtain c where "charged_once (settled_ids v) (w_db w) c d" "ce_actual c = ca_micros (ci_actual v)"
          "Some (ce_chargeBasis c) = (if ci_chargeBasis v = None then Some ReportedUsage else ci_chargeBasis v)"
        by (rule recordUsageAndCost_charges [OF Inr [unfolded x Recorded]])
      moreover have "w_db w2 = d" using assms(1) run Inr x Recorded by (auto simp: bindM_def execDb_def)
      ultimately show ?thesis using ids by (auto simp: envelope_charged_def v_def)
    next
      case DuplicateUsage
      have same: "d = w_db w" by (rule recordUsageAndCost_duplicate [OF Inr [unfolded x DuplicateUsage]])
      have "known_usage v (w_db w)"
        by (rule recordUsageAndCost_known [OF Inr [unfolded x DuplicateUsage]]) (simp add: ids assms(2))
      moreover have "\<forall>u \<in> set (cd_usage (w_db w)). us_id u \<noteq> ci_usageId v"
        using fresh unfolding v_def by (metis cost_input.select_convs(1) image_eqI)
      ultimately have "\<exists>r. response = Some r \<and> answer_known (lp_id provider) r (w_db w)"
        by (cases response) (auto simp: known_usage_def answer_known_def v_def)
      moreover have "cd_costs (w_db w2) = cd_costs (w_db w) \<and> cd_usage (w_db w2) = cd_usage (w_db w)"
      proof (cases "pr_reservationIds p = []")
        case True
        then show ?thesis using assms(1) run Inr x DuplicateUsage same by (auto simp: bindM_def execDb_def)
      next
        case False
        then have "snd (release_prepared sv p (?w\<lparr>w_db := d\<rparr>)) = w2"
          using assms(1) run Inr x DuplicateUsage by (simp add: bindM_def execDb_def)
        from release_prepared_db [OF this] show ?thesis using same by simp
      qed
      ultimately show ?thesis by blast
    qed
  qed
qed

text \<open>What came back from the provider: \<open>None\<close> when it did not answer.\<close>

definition provider_answer :: "llm_provider \<Rightarrow> model_request \<Rightarrow> model_response option option" where
  "provider_answer provider request = (case lp_complete provider request of
     Inr r \<Rightarrow> Some (Some r) | Inl e \<Rightarrow> rejectedProviderResponse e)"

lemma rejected_not_duplicate: "rejectedProviderResponse (HostError e) = None"
  by simp

lemma after_failure_answered:
  assumes "\<forall>a b. e \<noteq> HostError (DuplicateProviderUsageError a b)"
  shows "after_failure sv provider request ctxt p (Some response) e w
    = (Inl e, snd (chargeRejectedResponse sv provider request ctxt p response w))"
proof (cases e)
  case (HostError x)
  then show ?thesis using assms by (cases x) (simp_all add: after_failure_def)
qed (simp_all add: after_failure_def)

lemma validated_provider: "validateModelResponse r d = Inr u \<Longrightarrow> nonempty_text (mr_providerId r) \<noteq> None"
  by (auto simp: validateModelResponse_def response_checks_def Let_def split: option.splits if_splits)


text \<open>The outcomes of an answered request: charged once, charged the envelope, held, or known.\<close>

definition accounted ::
  "string \<Rightarrow> prepared \<Rightarrow> model_response option \<Rightarrow> 'z cost_db_scheme \<Rightarrow> (model_response \<times> metering) llm_result
     \<Rightarrow> 'z cost_db_scheme \<Rightarrow> bool" where
  "accounted providerId p a db res db' \<longleftrightarrow>
     (\<exists>r m c. res = Inr (r, m) \<and> charged_once (pr_reservationIds p) db c db'
        \<and> ce_actual c = me_actualMicros m \<and> ce_chargeBasis c = ReportedUsage)
     \<or> isl res \<and> envelope_charged p db db'
     \<or> isl res \<and> db' = db
     \<or> (\<exists>r. a = Some r \<and> answer_known providerId r db \<and> cd_costs db' = cd_costs db \<and> cd_usage db' = cd_usage db)"

lemma rejected_accounted:
  assumes "(res, w2) = after_failure sv provider request ctxt p (Some a) e w" and "w_db w = db"
    and "\<forall>x y. e \<noteq> HostError (DuplicateProviderUsageError x y)" and "reservations_open (pr_reservationIds p) db"
    and "\<forall>n. sv_id sv n \<notin> us_id ` set (cd_usage db)"
  shows "accounted (lp_id provider) p a db res (w_db w2)"
proof -
  have af: "res = Inl e" "snd (chargeRejectedResponse sv provider request ctxt p a w) = w2"
    using assms(1) unfolding after_failure_answered [OF assms(3)] by auto
  show ?thesis using charge_rejected [OF af(2), unfolded assms(2), OF assms(4,5)] af(1) by (auto simp: accounted_def)
qed

lemma recorded_accounted:
  assumes "price_and_record sv ctxt p r w1 = (ok m, w3)" and "validateModelResponse r (lp_id provider) = Inr u"
    and "reservations_open (pr_reservationIds p) (w_db w1)" and "\<forall>n. sv_id sv n \<notin> us_id ` set (cd_usage (w_db w1))"
    and run: "(res, w2) = (if me_recording m = DuplicateUsage
            then (case release_prepared sv p w3 of
                (Inl e, w4) \<Rightarrow> after_failure sv provider request ctxt p None (HostError e) w4
              | (Inr _, w4) \<Rightarrow> (Inr (r, m), w4)) else (Inr (r, m), w3))"
  shows "accounted (lp_id provider) p (Some r) (w_db w1) res (w_db w2)"
proof -
  note rec = price_and_record_ok [OF assms(1,3,4) validated_provider [OF assms(2)], of "lp_id provider"]
  show ?thesis
  proof (cases "me_recording m")
    case Recorded
    then show ?thesis using rec run by (auto simp: accounted_def)
  next
    case DuplicateUsage
    have known: "answer_known (lp_id provider) r (w_db w1)" "w_db w3 = w_db w1" using rec DuplicateUsage by auto
    obtain q w4 where q: "release_prepared sv p w3 = (q, w4)" by (cases "release_prepared sv p w3")
    have "cd_costs (w_db w4) = cd_costs (w_db w1) \<and> cd_usage (w_db w4) = cd_usage (w_db w1)"
      using release_prepared_db [of sv p w3 w4] q known(2) by simp
    moreover have "cd_costs (w_db w2) = cd_costs (w_db w4) \<and> cd_usage (w_db w2) = cd_usage (w_db w4)"
      using run DuplicateUsage q release_prepared_db [of sv p w4 w2]
      by (auto simp: after_failure_def split: sum.splits prod.splits)
    ultimately show ?thesis using known(1) by (auto simp: accounted_def)
  qed
qed

section \<open>Lemmas: the envelope\<close>

lemma dearest_bounds:
  "dearest bnd env ps = ok env' \<Longrightarrow> snd env \<le> snd env'
   \<and> (\<forall>p \<in> set ps. \<forall>c. calculateMaximumCost bnd (price p) = ok c \<longrightarrow> ca_micros c \<le> snd env')"
proof (induction ps arbitrary: env)
  case (Cons p ps)
  obtain c where c: "calculateMaximumCost bnd (price p) = ok c"
    and rest: "dearest bnd (if ca_micros c > snd env then (p, ca_micros c) else env) ps = ok env'"
    using Cons.prems by (auto simp: result_simps)
  show ?case using Cons.IH [OF rest] c by (auto split: if_splits)
qed simp

lemma worst_case_bounds:
  assumes "worst_case bnd ps = ok env" and "p \<in> set ps" and "calculateMaximumCost bnd (price p) = ok c"
  shows "ca_micros c \<le> snd env"
proof -
  obtain q qs where ps: "ps = q # qs" using assms(2) by (cases ps) auto
  obtain d where d: "calculateMaximumCost bnd (price q) = ok d" and rest: "dearest bnd (q, ca_micros d) qs = ok env"
    using assms(1) ps by (auto simp: worst_case_def result_simps)
  show ?thesis using dearest_bounds [OF rest] d assms(2,3) ps by auto
qed

lemma find_prices_subset:
  "find_prices now cs prices db = ok prices' \<Longrightarrow> snd ` set prices \<subseteq> set (cd_pricing db)
     \<Longrightarrow> snd ` set prices' \<subseteq> set (cd_pricing db)"
proof (induction cs arbitrary: prices)
  case (Cons c cs)
  obtain providerId model where c: "c = (providerId, model)" by (cases c)
  obtain v where v: "findPricing providerId model now db = ok (Some v)"
    and rest: "find_prices now cs (AList.update (price_key providerId model) v prices) db = ok prices'"
    using Cons.prems(1) c by (auto simp: result_simps split: option.splits)
  have "v \<in> set (cd_pricing db)" using v
    by (auto simp: findPricing_def result_simps split: list.splits)
      (metis (no_types, lifting) filter_is_subset list.set_intros(1) set_sort subsetD)
  moreover have "set (AList.update (price_key providerId model) v prices) \<subseteq> insert (price_key providerId model, v) (set prices)"
    by (induction prices) auto
  ultimately have "snd ` set (AList.update (price_key providerId model) v prices) \<subseteq> set (cd_pricing db)"
    using Cons.prems(2) by fastforce
  then show ?case by (rule Cons.IH [OF rest])
qed simp

text \<open>An answer that returned was priced by one of the prepared versions.\<close>

lemma price_and_record_priced:
  assumes "price_and_record sv ctxt p r w = (ok m, w2)"
  obtains pricing actual estimated where "pricing \<in> set (map snd (pr_prices p))"
    "calculateCost (response_usage r) (price pricing) = ok actual" "me_actualMicros m = ca_micros actual"
    "calculateMaximumCost (mc_usageBound ctxt) (price pricing) = ok estimated" "me_estimatedMicros m = ca_micros estimated"
    "me_reservedMicros m = (if pr_reservationIds p = [] then None else Some (snd (pr_envelope p)))"
proof -
  note run = assms [unfolded price_and_record_def Let_def]
  obtain pricing where pr: "map_of (pr_prices p) (price_key (known_text (mr_providerId r)) (known_text (mr_model r))) = Some pricing"
    using run by (cases "map_of (pr_prices p) (price_key (known_text (mr_providerId r)) (known_text (mr_model r)))") simp_all
  obtain actual where actual: "calculateCost (response_usage r) (price pricing) = ok actual"
    using run pr by (cases "calculateCost (response_usage r) (price pricing)") (simp_all add: bindM_def)
  obtain estimated where est: "calculateMaximumCost (mc_usageBound ctxt) (price pricing) = ok estimated"
    using run pr actual by (cases "calculateMaximumCost (mc_usageBound ctxt) (price pricing)") (simp_all add: bindM_def)
  have m: "me_actualMicros m = ca_micros actual \<and> me_estimatedMicros m = ca_micros estimated
      \<and> me_reservedMicros m = (if pr_reservationIds p = [] then None else Some (snd (pr_envelope p)))"
    using run pr actual est by (auto simp: bindM_ok execDb_ok split: prod.splits)
  have "pricing \<in> set (map snd (pr_prices p))" using map_of_SomeD [OF pr] by force
  then show ?thesis using that actual est m by blast
qed

lemma after_failure_throws: "after_failure sv provider request ctxt p received e w \<noteq> (Inr x, w')"
  unfolding after_failure_def Let_def
  by (auto split: option.splits llm_error.splits error.splits sum.splits prod.splits)

lemma completeMetered_returns:
  assumes "completeMetered sv provider request ctxt w = (Inr (response, m), w2)"
  obtains p w1 w3 where "prepare sv provider request ctxt w = (ok p, w1)" "lp_complete provider request = Inr response"
    "price_and_record sv ctxt p response w1 = (ok m, w3)"
proof -
  show ?thesis using assms that unfolding completeMetered_def
    by (auto simp: after_failure_throws split: prod.splits sum.splits if_splits)
qed

section \<open>Lemmas: giving back what was reserved\<close>

lemma released_held:
  assumes "\<forall>vb \<in> set ps. ri_id (fst vb) \<notin> rs_id ` set rows"
  shows "held i t (map (\<lambda>r. if rs_id r \<in> set (map (ri_id \<circ> fst) ps) \<and> rs_status r = RsActive
      then r\<lparr>rs_status := RsReleased\<rparr> else r) (rows @ map reservation_of ps)) = held i t rows"
proof -
  have old: "map (\<lambda>r. if rs_id r \<in> set (map (ri_id \<circ> fst) ps) \<and> rs_status r = RsActive
      then r\<lparr>rs_status := RsReleased\<rparr> else r) rows = rows"
    by (rule map_idI) (use assms in \<open>force\<close>)
  have new: "held i t (map (\<lambda>r. if rs_id r \<in> S \<and> rs_status r = RsActive
      then r\<lparr>rs_status := RsReleased\<rparr> else r) (map reservation_of qs)) = 0"
    if "set (map (ri_id \<circ> fst) qs) \<subseteq> S" for qs S
    using that by (induction qs) (auto simp: reservation_of_def holds_def)
  show ?thesis unfolding map_append held_append old using new [of ps] by simp
qed


section \<open>A sample request\<close>

definition sample_services :: services where
  "sample_services = \<lparr>sv_id = (\<lambda>n. replicate (Suc n) CHR ''i''), sv_now = (\<lambda>_. At 1)\<rparr>"

definition sample_context :: metered_context where
  "sample_context = \<lparr>uc_projectId = ''p1'', uc_taskId = None, uc_agentId = None, uc_agentRunId = None, uc_purpose = ''x'',
     mc_usageBound = \<lparr>ub_inputTokens = Num 4, ub_outputTokens = Num 2\<rparr>, mc_budgetScopeType = Some ScopeProject,
     mc_budgetScopeId = Some ''p1'', mc_budgetScopes = None, mc_reservationTtlMs = None,
     mc_useProjectBudgetIfConfigured = False\<rparr>"

definition sample_response :: model_response where
  "sample_response = \<lparr>mr_providerId = JsString ''acme'', mr_model = JsString ''m'', mr_text = JsString [],
     mr_usage = JsObject True True [(''inputTokens'', Data (JsNumber (Num 4))), (''cachedInputTokens'', Data (JsNumber (Num 1))),
       (''outputTokens'', Data (JsNumber (Num 2))), (''reasoningTokens'', Data (JsNumber (Num 0)))],
     mr_providerRequestId = JsUndefined, mr_latencyMs = JsUndefined, mr_providerMetadata = JsUndefined\<rparr>"

definition sample_request :: model_request where
  "sample_request = \<lparr>rq_model = ''m'', rq_parameters = []\<rparr>"

definition sample_provider :: "model_response llm_result \<Rightarrow> llm_provider" where
  "sample_provider returned = \<lparr>lp_id = ''acme'', lp_pricingCandidates = (\<lambda>_. [(''acme'', ''m'')]), lp_complete = (\<lambda>_. returned)\<rparr>"

definition sample_world :: "cost_db world" where
  "sample_world = \<lparr>w_db = cost_sample, w_active = False, w_ids = 0, w_clock = 0\<rparr>"

lemmas gateway_samples = sample_services_def sample_context_def sample_request_def sample_provider_def
  sample_world_def cost_samples

lemmas gateway_eval = prepare_def reserve_def chosen_scopes_def initial_scopes_def reserved_scopes_def
  distinct_candidates_def price_key_def worst_case_def reservation_for_def date_after_def primary_reservation_def
  price_def findPricing_def calculateMaximumCost_def larger_def bigint_div_def million_def toBigInt_def
  bindM_def execDb_def cost_eval_defs

definition sample_prepared :: prepared where
  "sample_prepared = \<lparr>pr_prices = [(price_key ''acme'' ''m'', sample_pricing)], pr_currency = USD,
     pr_envelope = (sample_pricing, 10), pr_scopeType = Some ScopeProject, pr_scopeId = Some ''p1'',
     pr_reservationIds = [''i''], pr_primary = Some ''i''\<rparr>"

definition sample_reserved :: "cost_db world" where
  "sample_reserved = \<lparr>w_db = cost_sample\<lparr>cd_reservations := [\<lparr>rs_id = ''i'', rs_budgetId = ''b1'', rs_agentRunId = None,
     rs_amount = 10, rs_status = RsActive, rs_expiresAt = At 900001\<rparr>]\<rparr>, w_active = False, w_ids = 1, w_clock = 1\<rparr>"

lemma sample_prepare:
  "prepare sample_services (sample_provider returned) sample_request sample_context sample_world = (ok sample_prepared, sample_reserved)"
  by (simp add: gateway_samples gateway_eval sample_prepared_def sample_reserved_def)

lemma sample_valid: "validateModelResponse sample_response d = Inr ()"
  by (simp add: validateModelResponse_def response_checks_def sample_response_def nonempty_text_def usage_value_def
      response_usage_def usageFields_def safe_count_def isSafeInteger_def trim_def trimStart_def is_js_space_def
      js_whitespace_def)

lemma sample_usage_read: "response_usage sample_response = sample_usage\<lparr>mu_reasoningTokens := Num 0\<rparr>"
  by (simp add: response_usage_def sample_response_def usage_value_def sample_usage_def)

lemma sample_recorded:
  "\<exists>m w2. price_and_record sample_services sample_context sample_prepared sample_response sample_reserved = (ok m, w2)
     \<and> me_recording m = Recorded \<and> me_actualMicros m = 7 \<and> me_reservedMicros m = Some 10"
proof -
  have "known_text (mr_providerId sample_response) = ''acme''" "known_text (mr_model sample_response) = ''m''"
    "nonempty_text (mr_providerRequestId sample_response) = None"
    by (simp_all add: sample_response_def known_text_def nonempty_text_def)
  then show ?thesis
    by (simp add: price_and_record_def sample_usage_read sample_prepared_def sample_reserved_def Let_def
      reservation_fields_def calculateCost_def billableTokens_def gateway_samples gateway_eval usage_context.defs)
qed

lemma sample_provider_complete [simp]: "lp_complete (sample_provider returned) request = returned"
  by (simp add: sample_provider_def)

lemma sample_complete:
  "\<exists>m w2. completeMetered sample_services (sample_provider (Inr sample_response)) sample_request sample_context sample_world
     = (Inr (sample_response, m), w2) \<and> me_actualMicros m = 7 \<and> me_reservedMicros m = Some 10"
  using sample_recorded unfolding completeMetered_def sample_prepare prod.case sum.case sample_provider_complete sample_valid
  by auto

text \<open>
  The abort signal masks an answer. When the signal is set while a provider answers with a
  response that is rejected, the fallback throws the cancellation instead, and the gateway takes
  the request for unanswered: the reservation is given back, although asked directly the same
  provider's answer would have been charged.
\<close>

theorem fallback_cancellation_masks_answer:
  assumes "lp_complete provider request = Inl (ModelMismatchError i (Some response))"
    and "\<not> aborted 0" and "aborted (Suc 0)" and "FallbackLlmProvider aborted [provider] = Some fb"
  shows "provider_answer provider request = Some (Some response) \<and> provider_answer fb request = None"
  using assms by (auto simp: FallbackLlmProvider_def provider_answer_def)

section \<open>Properties\<close>

text \<open>C31. An answer is accounted for. When the provider answered, with a response or with an error that
  shows it did, then either the answer was recorded with exactly one charge, of its price, and
  the reservations are consumed; or it was rejected and the whole envelope was charged, again
  consuming the reservations; or it was rejected, charging failed and the tables are as they were
  after reserving, so that the reservations stay active; or the provider's request had been
  recorded before and nothing is charged again. The reservations are never given back for an
  answer that is new.\<close>

theorem answered_request_accounted:
  assumes prep: "prepare sv provider request ctxt w = (ok p, w1)"
    and ans: "provider_answer provider request = Some a"
    and fresh: "\<forall>n. sv_id sv n \<notin> us_id ` set (cd_usage (w_db w1))"
    and run: "completeMetered sv provider request ctxt w = (res, w2)"
  shows "(\<exists>r m c. res = Inr (r, m) \<and> charged_once (pr_reservationIds p) (w_db w1) c (w_db w2)
        \<and> ce_actual c = me_actualMicros m \<and> ce_chargeBasis c = ReportedUsage)
    \<or> isl res \<and> envelope_charged p (w_db w1) (w_db w2)
    \<or> isl res \<and> w_db w2 = w_db w1
    \<or> (\<exists>r. a = Some r \<and> answer_known (lp_id provider) r (w_db w1)
        \<and> cd_costs (w_db w2) = cd_costs (w_db w1) \<and> cd_usage (w_db w2) = cd_usage (w_db w1))"
proof -
  note open1 = prepared_open(1) [OF prep]
  have "accounted (lp_id provider) p a (w_db w1) res (w_db w2)"
  proof (cases "lp_complete provider request")
    case (Inl e)
    then have a: "rejectedProviderResponse e = Some a" using ans by (simp add: provider_answer_def)
    then have "\<forall>x y. e \<noteq> HostError (DuplicateProviderUsageError x y)" by auto
    moreover have "(res, w2) = after_failure sv provider request ctxt p (Some a) e w1"
      using run prep Inl a by (simp add: completeMetered_def)
    ultimately show ?thesis using rejected_accounted [OF _ refl _ open1 fresh] by blast
  next
    case answer: (Inr r)
    then have a: "a = Some r" using ans by (simp add: provider_answer_def)
    show ?thesis
    proof (cases "validateModelResponse r (lp_id provider)")
      case (Inl e)
      then have "\<forall>x y. e \<noteq> HostError (DuplicateProviderUsageError x y)"
        by (auto simp: validateModelResponse_def Let_def split: option.splits)
      moreover have "(res, w2) = after_failure sv provider request ctxt p (Some a) e w1"
        using run prep Inl answer a by (simp add: completeMetered_def)
      ultimately show ?thesis using rejected_accounted [OF _ refl _ open1 fresh] by blast
    next
      case valid: (Inr u)
      obtain rr w3 where priced: "price_and_record sv ctxt p r w1 = (rr, w3)" by (cases "price_and_record sv ctxt p r w1")
      show ?thesis
      proof (cases rr)
        case (Inl e)
        have "(res, w2) = after_failure sv provider request ctxt p (Some a) (HostError e) w3"
          using run prep answer a valid priced Inl by (simp add: completeMetered_def)
        then show ?thesis using rejected_accounted [OF _ _ _ open1 fresh] price_and_record_throws [OF priced [unfolded Inl]] by blast
      next
        case (Inr m)
        have "(res, w2) = (if me_recording m = DuplicateUsage
            then (case release_prepared sv p w3 of
                (Inl e, w4) \<Rightarrow> after_failure sv provider request ctxt p None (HostError e) w4
              | (Inr _, w4) \<Rightarrow> (Inr (r, m), w4)) else (Inr (r, m), w3))"
          using run prep answer valid priced Inr by (simp add: completeMetered_def)
        then show ?thesis unfolding a by (rule recorded_accounted [OF priced [unfolded Inr] valid open1 fresh])
      qed
    qed
  qed
  then show ?thesis by (simp add: accounted_def)
qed

theorem answered_request_accounted_witness:
  "\<exists>r m c w2. completeMetered sample_services (sample_provider (Inr sample_response)) sample_request sample_context sample_world
     = (Inr (r, m), w2) \<and> charged_once [''i''] (w_db sample_reserved) c (w_db w2) \<and> ce_actual c = 7"
proof -
  obtain m w2 where run: "completeMetered sample_services (sample_provider (Inr sample_response)) sample_request
      sample_context sample_world = (Inr (sample_response, m), w2)" and m: "me_actualMicros m = 7"
    using sample_complete by blast
  have ans: "provider_answer (sample_provider (Inr sample_response)) sample_request = Some (Some sample_response)"
    by (simp add: provider_answer_def)
  have fresh: "\<forall>n. sv_id sample_services n \<notin> us_id ` set (cd_usage (w_db sample_reserved))"
    and none: "\<not> answer_known d r (w_db sample_reserved)" for d r
    by (simp_all add: sample_reserved_def cost_samples answer_known_def)
  have ids: "pr_reservationIds sample_prepared = [''i'']" by (simp add: sample_prepared_def)
  show ?thesis using answered_request_accounted [OF sample_prepare ans fresh run, unfolded ids] none run m by auto
qed

text \<open>C32. A request that was not answered costs nothing: the provider's error is what the caller sees,
  no usage and no charge is recorded, and every budget has the same amount in reservation, at any
  time, as before the request.\<close>

theorem unanswered_request_released:
  assumes prep: "prepare sv provider request ctxt w = (ok p, w1)"
    and ans: "provider_answer provider request = None"
    and now: "date_finite (sv_now sv (w_clock w1))"
    and run: "completeMetered sv provider request ctxt w = (res, w2)"
  shows "(\<exists>e. lp_complete provider request = Inl e \<and> res = Inl e)
    \<and> cd_costs (w_db w2) = cd_costs (w_db w) \<and> cd_usage (w_db w2) = cd_usage (w_db w)
    \<and> cd_budgets (w_db w2) = cd_budgets (w_db w)
    \<and> spent b (w_db w2) = spent b (w_db w) \<and> reserved_at b t (w_db w2) = reserved_at b t (w_db w)"
proof -
  obtain w0 where w0: "w_db w0 = w_db w"
    and r: "reserve sv ctxt (sv_now sv (w_clock w)) (pr_prices p) (pr_currency p) (pr_envelope p) w0 = (ok p, w1)"
    by (rule prepare_ok [OF prep])
  obtain ps where ids: "pr_reservationIds p = map (ri_id \<circ> fst) ps"
    and w1: "w_db w1 = (w_db w0)\<lparr>cd_reservations := cd_reservations (w_db w0) @ map reservation_of ps\<rparr>"
    and new: "\<forall>vb \<in> set ps. ri_id (fst vb) \<notin> rs_id ` set (cd_reservations (w_db w0))"
    by (rule reserve_ok [OF r])
  obtain e where e: "lp_complete provider request = Inl e" "rejectedProviderResponse e = None"
    using ans by (auto simp: provider_answer_def split: sum.splits)
  have rel: "res = Inl e \<and> w_db w2 = set_released (\<lambda>r. rs_id r \<in> set (pr_reservationIds p)) (w_db w1)"
    using run prep e now
    by (auto simp: completeMetered_def after_failure_def release_prepared_def releaseReservations_def bindM_def
        execDb_def iso_check_def set_released_def split: if_splits)
  have "held (bg_id b) t (cd_reservations (w_db w2)) = held (bg_id b) t (cd_reservations (w_db w))"
    using rel w1 released_held [OF new, of "bg_id b" t] by (simp add: set_released_def ids w0)
  then show ?thesis using rel e(1) w1 w0 by (simp add: reserved_at_held set_released_def)
qed

theorem unanswered_request_released_witness:
  "\<exists>res w2. completeMetered sample_services (sample_provider (Inl (ProviderCancelledError ''acme''))) sample_request
       sample_context sample_world = (res, w2) \<and> res = Inl (ProviderCancelledError ''acme'')
     \<and> reserved_at sample_budget 5 (w_db sample_reserved) = 10 \<and> reserved_at sample_budget 5 (w_db w2) = 0"
proof -
  let ?p = "sample_provider (Inl (ProviderCancelledError ''acme''))"
  obtain res w2 where run: "completeMetered sample_services ?p sample_request sample_context sample_world = (res, w2)"
    by (cases "completeMetered sample_services ?p sample_request sample_context sample_world")
  have ans: "provider_answer ?p sample_request = None" by (simp add: provider_answer_def)
  have now: "date_finite (sv_now sample_services (w_clock sample_reserved))" by (simp add: sample_services_def)
  have "reserved_at sample_budget 5 (w_db sample_world) = 0" "reserved_at sample_budget 5 (w_db sample_reserved) = 10"
    by (simp_all add: sample_world_def sample_reserved_def reserved_at_def cost_samples holds_def)
  then show ?thesis
    using unanswered_request_released [OF sample_prepare ans now run, of sample_budget 5] run by auto
qed

text \<open>C33. The reservation covers the charge: with prices that are not negative, an answer whose usage is
  within the bound of the request costs at most its estimate, and the estimate is at most what
  was reserved, whichever of the candidates answered.\<close>

theorem metered_charge_within_reservation:
  assumes run: "completeMetered sv provider request ctxt w = (Inr (response, m), w2)"
    and prices: "\<forall>v \<in> set (cd_pricing (w_db w)). nonnegative_price (price v)"
    and usage: "within_bound (response_usage response) (mc_usageBound ctxt)"
  shows "me_actualMicros m \<le> me_estimatedMicros m
    \<and> (me_reservedMicros m = None \<or> (\<exists>r. me_reservedMicros m = Some r \<and> me_estimatedMicros m \<le> r))"
proof -
  obtain p w1 w3 where prep: "prepare sv provider request ctxt w = (ok p, w1)"
    and priced: "price_and_record sv ctxt p response w1 = (ok m, w3)"
    by (rule completeMetered_returns [OF run])
  obtain w0 where env: "worst_case (mc_usageBound ctxt) (map snd (pr_prices p)) = ok (pr_envelope p)"
    and found: "find_prices (sv_now sv (w_clock w)) (distinct_candidates (lp_pricingCandidates provider request)) [] (w_db w) = ok (pr_prices p)"
    by (rule prepare_ok [OF prep])
  obtain pricing actual estimated where pricing: "pricing \<in> set (map snd (pr_prices p))"
    and actual: "calculateCost (response_usage response) (price pricing) = ok actual" "me_actualMicros m = ca_micros actual"
    and est: "calculateMaximumCost (mc_usageBound ctxt) (price pricing) = ok estimated" "me_estimatedMicros m = ca_micros estimated"
    and res: "me_reservedMicros m = (if pr_reservationIds p = [] then None else Some (snd (pr_envelope p)))"
    by (rule price_and_record_priced [OF priced])
  have "nonnegative_price (price pricing)" using find_prices_subset [OF found] pricing prices by auto
  moreover have "valid_usage (response_usage response)"
    using actual(1) billableTokens_ok [of "response_usage response"] by (auto simp: calculateCost_def result_simps)
  moreover have "safe_count (ub_inputTokens (mc_usageBound ctxt))" "safe_count (ub_outputTokens (mc_usageBound ctxt))"
    using est(1) by (auto simp: calculateMaximumCost_def result_simps split: if_splits)
  ultimately have "ca_micros actual \<le> ca_micros estimated" by (intro cost_le_maximum) (use usage actual est in simp_all)
  moreover have "ca_micros estimated \<le> snd (pr_envelope p)" by (rule worst_case_bounds [OF env pricing est(1)])
  ultimately show ?thesis using actual(2) est(2) res by simp
qed

theorem metered_charge_within_reservation_witness:
  "\<exists>r m w2. completeMetered sample_services (sample_provider (Inr sample_response)) sample_request sample_context sample_world
     = (Inr (r, m), w2) \<and> me_actualMicros m = 7 \<and> 7 \<le> me_estimatedMicros m \<and> me_estimatedMicros m \<le> 10"
proof -
  obtain m w2 where run: "completeMetered sample_services (sample_provider (Inr sample_response)) sample_request
      sample_context sample_world = (Inr (sample_response, m), w2)" and m: "me_actualMicros m = 7" "me_reservedMicros m = Some 10"
    using sample_complete by blast
  have "\<forall>v \<in> set (cd_pricing (w_db sample_world)). nonnegative_price (price v)"
    by (simp add: sample_world_def cost_samples nonnegative_price_def price_def)
  moreover have "within_bound (response_usage sample_response) (mc_usageBound sample_context)"
    by (simp add: sample_usage_read sample_context_def within_bound_def sample_usage_def)
  ultimately show ?thesis using metered_charge_within_reservation [OF run] run m by auto
qed

end
