(* ===== verification/Agent_Run.thy ===== *)
theory Agent_Run
  imports Canonical_Json
begin

text \<open>
  The agent run of \<open>packages/domain/src/agent\<close>: the state machine of \<open>agent-run.ts\<close>, the
  execution provenance of \<open>agent-execution.ts\<close> and the frozen model routing of
  \<open>agent-run-model.ts\<close>. What arrives from outside is a JavaScript value of which nothing is
  known; its properties are plain data, as those of parsed JSON and of literals are.
\<close>

section \<open>The model\<close>

subsection \<open>Untyped values\<close>

text \<open>The properties of \<open>value as Record<string, unknown>\<close>; arrays and non-objects are refused.\<close>

definition record_props :: "js_value \<Rightarrow> (string \<times> js_value slot) list option" where
  "record_props v = (case v of JsObject _ _ ps \<Rightarrow> Some ps | _ \<Rightarrow> None)"

definition prop_of :: "(string \<times> js_value slot) list \<Rightarrow> string \<Rightarrow> js_value" where
  "prop_of ps k = (case map_of ps k of Some (Data v) \<Rightarrow> v | _ \<Rightarrow> JsUndefined)"

fun text_of :: "js_value \<Rightarrow> string option" where
  "text_of (JsString s) = Some s"
| "text_of _ = None"

text \<open>A pattern \<open>/^[first][rest]{0,n}$/\<close>.\<close>

definition matches :: "(char \<Rightarrow> bool) \<Rightarrow> (char \<Rightarrow> bool) \<Rightarrow> nat \<Rightarrow> string \<Rightarrow> bool" where
  "matches first rest n s = (case s of [] \<Rightarrow> False | c # cs \<Rightarrow> first c \<and> list_all rest cs \<and> length cs \<le> n)"

definition is_lower :: "char \<Rightarrow> bool" where
  "is_lower c \<longleftrightarrow> 97 \<le> (of_char c :: nat) \<and> (of_char c :: nat) \<le> 122"

definition is_alpha :: "char \<Rightarrow> bool" where
  "is_alpha c \<longleftrightarrow> is_lower c \<or> 65 \<le> (of_char c :: nat) \<and> (of_char c :: nat) \<le> 90"

definition is_alnum :: "char \<Rightarrow> bool" where
  "is_alnum c \<longleftrightarrow> is_alpha c \<or> is_digit c"

definition is_hex :: "char \<Rightarrow> bool" where
  "is_hex c \<longleftrightarrow> is_digit c \<or> 97 \<le> (of_char c :: nat) \<and> (of_char c :: nat) \<le> 102"

text \<open>\<open>/^[a-f0-9]{64}$/\<close>\<close>

definition sha256_text :: "string \<Rightarrow> bool" where
  "sha256_text s \<longleftrightarrow> length s = 64 \<and> list_all is_hex s"

subsection \<open>Execution provenance\<close>

datatype execution_kind = SimulationKind | ControlledActionKind | WorkerKind

fun execution_kind_str :: "execution_kind \<Rightarrow> string" where
  "execution_kind_str SimulationKind = ''simulation''"
| "execution_kind_str ControlledActionKind = ''controlled_action''"
| "execution_kind_str WorkerKind = ''worker''"

definition execution_kind_of :: "string \<Rightarrow> execution_kind option" where
  "execution_kind_of s = find (\<lambda>k. execution_kind_str k = s) [SimulationKind, ControlledActionKind, WorkerKind]"

record agent_execution =
  ax_kind :: execution_kind
  ax_adapterId :: string
  ax_adapterVersion :: string
  ax_inputHash :: "string option"

definition adapter_id :: "string \<Rightarrow> bool" where
  "adapter_id = matches (\<lambda>c. is_lower c \<or> is_digit c) (\<lambda>c. is_lower c \<or> is_digit c \<or> c \<in> set ''._-'') 127"

definition adapter_version :: "string \<Rightarrow> bool" where
  "adapter_version = matches is_alnum (\<lambda>c. is_alnum c \<or> c \<in> set ''._+-'') 63"

definition execution_keys :: "string list" where
  "execution_keys = [''kind'', ''adapterId'', ''adapterVersion'', ''inputHash'']"

definition parseAgentExecution :: "js_value \<Rightarrow> agent_execution result" where
  "parseAgentExecution v =
     (case record_props v of
        None \<Rightarrow> throw (DomainValidationError ''Invalid execution provenance'')
      | Some ps \<Rightarrow>
          (case (Option.bind (text_of (prop_of ps ''kind'')) execution_kind_of,
              text_of (prop_of ps ''adapterId''), text_of (prop_of ps ''adapterVersion'')) of
             (Some kind, Some adapterId, Some adapterVersion) \<Rightarrow>
               let hash = prop_of ps ''inputHash'' in
               if \<not> adapter_id adapterId \<or> \<not> adapter_version adapterVersion
                 \<or> hash \<noteq> JsUndefined \<and> (case text_of hash of None \<Rightarrow> True | Some h \<Rightarrow> \<not> sha256_text h)
                 \<or> kind = WorkerKind \<and> hash = JsUndefined
                 \<or> list_ex (\<lambda>(key, _). key \<notin> set execution_keys) ps
               then throw (DomainValidationError ''Invalid execution provenance'')
               else ok \<lparr>ax_kind = kind, ax_adapterId = adapterId, ax_adapterVersion = adapterVersion,
                 ax_inputHash = text_of hash\<rparr>
           | _ \<Rightarrow> throw (DomainValidationError ''Invalid execution provenance'')))"

subsection \<open>Model routing\<close>

datatype selection_source = ProjectAgentOverride | AgentOverride | RolePolicy | DefaultSource | LegacyDefault

fun source_str :: "selection_source \<Rightarrow> string" where
  "source_str ProjectAgentOverride = ''project_agent_override''"
| "source_str AgentOverride = ''agent_override''"
| "source_str RolePolicy = ''role_policy''"
| "source_str DefaultSource = ''default''"
| "source_str LegacyDefault = ''legacy_default''"

definition modelSelectionSources :: "selection_source list" where
  "modelSelectionSources = [ProjectAgentOverride, AgentOverride, RolePolicy, DefaultSource, LegacyDefault]"

definition source_of :: "string \<Rightarrow> selection_source option" where
  "source_of s = find (\<lambda>x. source_str x = s) modelSelectionSources"

record model_selection =
  ms_policy :: string
  ms_profile :: "string option"
  ms_modelRef :: string
  ms_providerId :: string
  ms_model :: string
  ms_reasoningEffort :: "string option"
  ms_maxOutputTokens :: "js_num option"
  ms_source :: selection_source

datatype model_routing = Unrouted | Resolved model_selection

definition modelTokenPattern :: "string \<Rightarrow> bool" where
  "modelTokenPattern = matches is_alnum (\<lambda>c. is_alnum c \<or> c \<in> set ''._-'') 63"

definition providerIdPattern :: "string \<Rightarrow> bool" where
  "providerIdPattern = matches is_lower (\<lambda>c. is_lower c \<or> is_digit c \<or> c \<in> set ''_-'') 31"

definition providerModelPattern :: "string \<Rightarrow> bool" where
  "providerModelPattern = matches is_alnum (\<lambda>c. is_alnum c \<or> c \<in> set ''._:/@+-'') 127"

definition reasoningEffortPattern :: "string \<Rightarrow> bool" where
  "reasoningEffortPattern = matches is_lower (\<lambda>c. is_lower c \<or> is_digit c \<or> c \<in> set ''_-'') 31"

definition maximumOutputTokens :: int where
  "maximumOutputTokens = 10000000"

definition selectionKeys :: "string list" where
  "selectionKeys = [''policy'', ''profile'', ''modelRef'', ''providerId'', ''model'', ''reasoningEffort'',
     ''maxOutputTokens'', ''source'']"

definition invalid_routing :: error where
  "invalid_routing = DomainValidationError ''Invalid agent run model routing''"

definition exactKeys :: "(string \<times> 'a) list \<Rightarrow> string list \<Rightarrow> bool" where
  "exactKeys ps keys \<longleftrightarrow> length ps = length keys \<and> list_all (\<lambda>(key, _). key \<in> set keys) ps"

text \<open>Printable: no control character.\<close>

definition is_control :: "char \<Rightarrow> bool" where
  "is_control c \<longleftrightarrow> (of_char c :: nat) < 32 \<or> 127 \<le> (of_char c :: nat) \<and> (of_char c :: nat) \<le> 159"

definition validPolicy :: "string \<Rightarrow> bool" where
  "validPolicy s \<longleftrightarrow> trim s = s \<and> 0 < length s \<and> length s \<le> 200 \<and> \<not> list_ex is_control s"

definition output_limit :: "js_num \<Rightarrow> bool" where
  "output_limit n \<longleftrightarrow> isSafeInteger n \<and> \<not> num_lt n (Num 1) \<and> \<not> num_lt (Num (of_int maximumOutputTokens)) n"

text \<open>A property that may be \<open>null\<close>: \<open>None\<close> when it is neither null nor acceptable.\<close>

definition nullable :: "(js_value \<Rightarrow> 'a option) \<Rightarrow> js_value \<Rightarrow> 'a option option" where
  "nullable f v = (if v = JsNull then Some None else map_option Some (f v))"

definition accepted_text :: "(string \<Rightarrow> bool) \<Rightarrow> js_value \<Rightarrow> string option" where
  "accepted_text p v = (case v of JsString s \<Rightarrow> if p s then Some s else None | _ \<Rightarrow> None)"

definition accepted_limit :: "js_value \<Rightarrow> js_num option" where
  "accepted_limit v = (case v of JsNumber n \<Rightarrow> if output_limit n then Some n else None | _ \<Rightarrow> None)"

text \<open>A profile is named exactly when the source is not a direct choice of a model.\<close>

definition source_agrees :: "string option \<Rightarrow> selection_source \<Rightarrow> bool" where
  "source_agrees profile src \<longleftrightarrow>
     \<not> (profile = None \<and> src \<noteq> ProjectAgentOverride \<and> src \<noteq> AgentOverride \<and> src \<noteq> LegacyDefault)
     \<and> \<not> (profile \<noteq> None \<and> src = LegacyDefault)"

definition parseSelection :: "js_value \<Rightarrow> model_selection result" where
  "parseSelection v =
     (case record_props v of
        None \<Rightarrow> throw invalid_routing
      | Some ps \<Rightarrow>
          if \<not> exactKeys ps selectionKeys then throw invalid_routing
          else (case (accepted_text validPolicy (prop_of ps ''policy''),
              nullable (accepted_text modelTokenPattern) (prop_of ps ''profile''),
              accepted_text providerIdPattern (prop_of ps ''providerId''),
              accepted_text providerModelPattern (prop_of ps ''model''),
              nullable (accepted_text reasoningEffortPattern) (prop_of ps ''reasoningEffort''),
              nullable accepted_limit (prop_of ps ''maxOutputTokens''),
              Option.bind (text_of (prop_of ps ''source'')) source_of) of
            (Some policy, Some profile, Some providerId, Some model, Some effort, Some maxTokens, Some src) \<Rightarrow>
              if prop_of ps ''modelRef'' = JsString (providerId @ '':'' @ model) \<and> source_agrees profile src
              then ok \<lparr>ms_policy = policy, ms_profile = profile, ms_modelRef = providerId @ '':'' @ model,
                ms_providerId = providerId, ms_model = model, ms_reasoningEffort = effort,
                ms_maxOutputTokens = maxTokens, ms_source = src\<rparr>
              else throw invalid_routing
          | _ \<Rightarrow> throw invalid_routing))"

definition parseAgentRunModelRouting :: "js_value \<Rightarrow> model_routing result" where
  "parseAgentRunModelRouting v =
     (case record_props v of
        None \<Rightarrow> throw invalid_routing
      | Some ps \<Rightarrow>
          if prop_of ps ''status'' = JsString ''unrouted''
          then if exactKeys ps [''status''] then ok Unrouted else throw invalid_routing
          else if prop_of ps ''status'' \<noteq> JsString ''resolved'' \<or> \<not> exactKeys ps [''status'', ''selection'']
          then throw invalid_routing
          else bindR (parseSelection (prop_of ps ''selection'')) (\<lambda>s. ok (Resolved s)))"


subsection \<open>The run\<close>

datatype agent_run_status = ArQueued | ArPreparing | ArRunning | ArReviewing | ArCompleted | ArFailed | ArCancelled

fun agent_status_str :: "agent_run_status \<Rightarrow> string" where
  "agent_status_str ArQueued = ''queued''"
| "agent_status_str ArPreparing = ''preparing''"
| "agent_status_str ArRunning = ''running''"
| "agent_status_str ArReviewing = ''reviewing''"
| "agent_status_str ArCompleted = ''completed''"
| "agent_status_str ArFailed = ''failed''"
| "agent_status_str ArCancelled = ''cancelled''"

fun agentRunTransitions :: "agent_run_status \<Rightarrow> agent_run_status list" where
  "agentRunTransitions ArQueued = [ArPreparing, ArCancelled]"
| "agentRunTransitions ArPreparing = [ArRunning, ArFailed, ArCancelled]"
| "agentRunTransitions ArRunning = [ArReviewing, ArCompleted, ArFailed, ArCancelled]"
| "agentRunTransitions ArReviewing = [ArCompleted, ArFailed, ArCancelled]"
| "agentRunTransitions ArCompleted = []"
| "agentRunTransitions ArFailed = []"
| "agentRunTransitions ArCancelled = []"

record role_guidance =
  rg_version :: js_num
  rg_text :: string

record action_intent_input =
  ii_resourceId :: string
  ii_operation :: string
  ii_arguments :: js_value

record action_intent =
  ai_resourceId :: string
  ai_operation :: string
  ai_arguments :: json

record persistence_token =
  tk_status :: agent_run_status
  tk_updatedAt :: js_date

record agent_run =
  ar_id :: string
  ar_projectId :: string
  ar_taskId :: string
  ar_agentId :: string
  ar_pipelineRunId :: "string option"
  ar_pipelineStageRunId :: "string option"
  ar_actionIntent :: "action_intent option"
  ar_roleGuidance :: "role_guidance option"
  ar_execution :: "agent_execution option"
  ar_modelRouting :: "model_routing option"
  ar_status :: agent_run_status
  ar_worktreePath :: "string option"
  ar_result :: "js_value option"
  ar_error :: "js_value option"
  ar_createdAt :: js_date
  ar_startedAt :: "js_date option"
  ar_completedAt :: "js_date option"
  ar_updatedAt :: js_date
  ar_persistenceToken :: "persistence_token option"

definition normalizeRoleGuidance :: "role_guidance \<Rightarrow> role_guidance result" where
  "normalizeRoleGuidance g =
     (if \<not> isSafeInteger (rg_version g) \<or> num_lt (rg_version g) (Num 1) \<or> trim (rg_text g) = []
         \<or> utf8_length (rg_text g) > 65536
      then throw (DomainValidationError ''Agent run role guidance is invalid'') else ok g)"

definition normalizeActionIntent :: "action_intent_input \<Rightarrow> action_intent result" where
  "normalizeActionIntent intent =
     (let resourceId = trim (ii_resourceId intent); operation = trim (ii_operation intent) in
      if resourceId = [] \<or> operation = []
      then throw (DomainValidationError ''Agent action resource and operation cannot be empty'')
      else bindR (normalizeCanonicalJson (ii_arguments intent)) (\<lambda>arguments.
        case arguments of
          JObj _ \<Rightarrow> bindR (assertNoSensitiveFields arguments ''Agent action arguments'') (\<lambda>_.
            ok \<lparr>ai_resourceId = resourceId, ai_operation = operation, ai_arguments = arguments\<rparr>)
        | _ \<Rightarrow> throw (DomainValidationError ''Agent action arguments must be an object'')))"

text \<open>A part that may be absent.\<close>

fun optionally :: "('a \<Rightarrow> 'b result) \<Rightarrow> 'a option \<Rightarrow> 'b option result" where
  "optionally f None = ok None"
| "optionally f (Some x) = bindR (f x) (\<lambda>y. ok (Some y))"

record agent_run_input =
  in_id :: string
  in_projectId :: string
  in_taskId :: string
  in_agentId :: string
  in_pipelineRunId :: "string option"
  in_pipelineStageRunId :: "string option"
  in_actionIntent :: "action_intent_input option"
  in_roleGuidance :: "role_guidance option"
  in_modelRouting :: "js_value option"
  in_now :: js_date

definition AgentRun_create :: "agent_run_input \<Rightarrow> agent_run result" where
  "AgentRun_create i =
     (if list_ex (\<lambda>value. trim value = []) [in_id i, in_projectId i, in_taskId i, in_agentId i]
      then throw (DomainValidationError ''Agent run identifiers cannot be empty'')
      else bindR (optionally normalizeActionIntent (in_actionIntent i)) (\<lambda>intent.
           bindR (optionally normalizeRoleGuidance (in_roleGuidance i)) (\<lambda>guidance.
           bindR (optionally parseAgentRunModelRouting (in_modelRouting i)) (\<lambda>routing.
           ok \<lparr>ar_id = in_id i, ar_projectId = in_projectId i, ar_taskId = in_taskId i, ar_agentId = in_agentId i,
             ar_pipelineRunId = in_pipelineRunId i, ar_pipelineStageRunId = in_pipelineStageRunId i,
             ar_actionIntent = intent, ar_roleGuidance = guidance, ar_execution = None, ar_modelRouting = routing,
             ar_status = ArQueued, ar_worktreePath = None, ar_result = None, ar_error = None,
             ar_createdAt = in_now i, ar_startedAt = None, ar_completedAt = None, ar_updatedAt = in_now i,
             ar_persistenceToken = None\<rparr>))))"

text \<open>The parsed parts as the values they are stored as and read back from.\<close>

definition execution_value :: "agent_execution \<Rightarrow> js_value" where
  "execution_value e = JsObject True False
     ([(''kind'', Data (JsString (execution_kind_str (ax_kind e)))), (''adapterId'', Data (JsString (ax_adapterId e))),
       (''adapterVersion'', Data (JsString (ax_adapterVersion e)))]
      @ (case ax_inputHash e of None \<Rightarrow> [] | Some h \<Rightarrow> [(''inputHash'', Data (JsString h))]))"

definition null_text :: "string option \<Rightarrow> js_value" where
  "null_text v = (case v of None \<Rightarrow> JsNull | Some s \<Rightarrow> JsString s)"

definition selection_value :: "model_selection \<Rightarrow> js_value" where
  "selection_value s = JsObject True False
     [(''policy'', Data (JsString (ms_policy s))), (''profile'', Data (null_text (ms_profile s))),
      (''modelRef'', Data (JsString (ms_modelRef s))), (''providerId'', Data (JsString (ms_providerId s))),
      (''model'', Data (JsString (ms_model s))), (''reasoningEffort'', Data (null_text (ms_reasoningEffort s))),
      (''maxOutputTokens'', Data (case ms_maxOutputTokens s of None \<Rightarrow> JsNull | Some n \<Rightarrow> JsNumber n)),
      (''source'', Data (JsString (source_str (ms_source s))))]"

fun routing_value :: "model_routing \<Rightarrow> js_value" where
  "routing_value Unrouted = JsObject True False [(''status'', Data (JsString ''unrouted''))]"
| "routing_value (Resolved s) = JsObject True False
     [(''status'', Data (JsString ''resolved'')), (''selection'', Data (selection_value s))]"

definition intent_input :: "action_intent \<Rightarrow> action_intent_input" where
  "intent_input i = \<lparr>ii_resourceId = ai_resourceId i, ii_operation = ai_operation i, ii_arguments = embed (ai_arguments i)\<rparr>"

definition AgentRun_restore :: "agent_run \<Rightarrow> agent_run result" where
  "AgentRun_restore r =
     bindR (optionally parseAgentExecution (map_option execution_value (ar_execution r))) (\<lambda>execution.
     bindR (optionally normalizeActionIntent (map_option intent_input (ar_actionIntent r))) (\<lambda>intent.
     bindR (optionally normalizeRoleGuidance (ar_roleGuidance r)) (\<lambda>guidance.
     bindR (optionally parseAgentRunModelRouting (map_option routing_value (ar_modelRouting r))) (\<lambda>routing.
     ok (r\<lparr>ar_execution := execution, ar_actionIntent := intent, ar_roleGuidance := guidance,
       ar_modelRouting := routing\<rparr>)))))"

definition AgentRun_markPersisted :: "agent_run \<Rightarrow> agent_run" where
  "AgentRun_markPersisted r =
     r\<lparr>ar_persistenceToken := Some \<lparr>tk_status = ar_status r, tk_updatedAt = ar_updatedAt r\<rparr>\<rparr>"

record transition_details =
  td_worktreePath :: "string option"
  td_result :: "js_value option"
  td_error :: "js_value option"
  td_execution :: "js_value option"

definition given :: "'a option \<Rightarrow> 'a option \<Rightarrow> 'a option" where
  "given new old = (case new of None \<Rightarrow> old | Some _ \<Rightarrow> new)"

text \<open>
  \<open>transition\<close>: the provenance is compared by the JSON text of two parsed records, which is the
  same exactly when the records are.
\<close>

definition AgentRun_transition ::
  "agent_run_status \<Rightarrow> js_date \<Rightarrow> transition_details \<Rightarrow> agent_run \<Rightarrow> agent_run result" where
  "AgentRun_transition status now details r =
     (if status \<notin> set (agentRunTransitions (ar_status r))
      then throw (DomainValidationError (''Cannot transition agent run from '' @ agent_status_str (ar_status r)
        @ '' to '' @ agent_status_str status))
      else bindR (case td_execution details of None \<Rightarrow> ok (ar_execution r)
          | Some v \<Rightarrow> bindR (parseAgentExecution v) (\<lambda>e. ok (Some e))) (\<lambda>execution.
        if ar_execution r \<noteq> None \<and> execution \<noteq> ar_execution r
        then throw (DomainValidationError ''Run execution provenance is immutable'')
        else ok (r\<lparr>ar_worktreePath := given (td_worktreePath details) (ar_worktreePath r),
          ar_result := given (td_result details) (ar_result r), ar_error := given (td_error details) (ar_error r),
          ar_execution := execution, ar_status := status,
          ar_startedAt := (if status = ArRunning \<and> ar_startedAt r = None then Some now else ar_startedAt r),
          ar_completedAt := (if status \<in> {ArCompleted, ArFailed, ArCancelled} then Some now else ar_completedAt r),
          ar_updatedAt := now\<rparr>)))"

text \<open>Dates are values, so the copies a snapshot makes are the fields themselves.\<close>

definition AgentRun_snapshot :: "agent_run \<Rightarrow> agent_run" where
  "AgentRun_snapshot r = r"


section \<open>The lifecycle of a run\<close>

definition agent_terminal :: "agent_run_status \<Rightarrow> bool" where
  "agent_terminal s \<longleftrightarrow> s = ArCompleted \<or> s = ArFailed \<or> s = ArCancelled"

fun agent_rank :: "agent_run_status \<Rightarrow> nat" where
  "agent_rank ArQueued = 0"
| "agent_rank ArPreparing = 1"
| "agent_rank ArRunning = 2"
| "agent_rank ArReviewing = 3"
| "agent_rank _ = 4"

interpretation run_lc: ranked_lifecycle agentRunTransitions agent_terminal agent_rank
proof unfold_locales
  show "agent_terminal s \<longleftrightarrow> agentRunTransitions s = []" for s by (cases s) (simp_all add: agent_terminal_def)
  show "t \<in> set (agentRunTransitions s) \<Longrightarrow> agent_rank s < agent_rank t" for s t by (cases s) auto
qed

text \<open>The history of a run: \<open>n\<close> accepted transitions, with any number of stores in between.\<close>

inductive run_history :: "nat \<Rightarrow> agent_run \<Rightarrow> agent_run \<Rightarrow> bool" where
  start: "run_history 0 r r"
| transition: "run_history n r q \<Longrightarrow> AgentRun_transition s now details q = ok q' \<Longrightarrow> run_history (Suc n) r q'"
| persisted: "run_history n r q \<Longrightarrow> run_history n r (AgentRun_markPersisted q)"


section \<open>Well-formed parts\<close>

definition execution_ok :: "agent_execution \<Rightarrow> bool" where
  "execution_ok e \<longleftrightarrow> adapter_id (ax_adapterId e) \<and> adapter_version (ax_adapterVersion e)
     \<and> (case ax_inputHash e of None \<Rightarrow> ax_kind e \<noteq> WorkerKind | Some h \<Rightarrow> sha256_text h)"

definition selection_ok :: "model_selection \<Rightarrow> bool" where
  "selection_ok s \<longleftrightarrow> validPolicy (ms_policy s) \<and> pred_option modelTokenPattern (ms_profile s)
     \<and> providerIdPattern (ms_providerId s) \<and> providerModelPattern (ms_model s)
     \<and> ms_modelRef s = ms_providerId s @ '':'' @ ms_model s \<and> pred_option reasoningEffortPattern (ms_reasoningEffort s)
     \<and> pred_option output_limit (ms_maxOutputTokens s) \<and> source_agrees (ms_profile s) (ms_source s)"

fun routing_ok :: "model_routing \<Rightarrow> bool" where
  "routing_ok Unrouted = True"
| "routing_ok (Resolved s) = selection_ok s"

definition guidance_ok :: "role_guidance \<Rightarrow> bool" where
  "guidance_ok g \<longleftrightarrow> isSafeInteger (rg_version g) \<and> \<not> num_lt (rg_version g) (Num 1) \<and> trim (rg_text g) \<noteq> []
     \<and> utf8_length (rg_text g) \<le> 65536"

definition intent_ok :: "action_intent \<Rightarrow> bool" where
  "intent_ok i \<longleftrightarrow> canonical_text (ai_resourceId i) \<and> canonical_text (ai_operation i)
     \<and> canonical_json (ai_arguments i) \<and> (\<exists>es. ai_arguments i = JObj es)
     \<and> (\<forall>k \<in> json_keys (ai_arguments i). \<not> isSensitiveFieldKey k)"

definition run_typed :: "agent_run \<Rightarrow> bool" where
  "run_typed r \<longleftrightarrow> pred_option execution_ok (ar_execution r) \<and> pred_option intent_ok (ar_actionIntent r)
     \<and> pred_option guidance_ok (ar_roleGuidance r) \<and> pred_option routing_ok (ar_modelRouting r)"

lemma execution_kind_of_str [simp]: "execution_kind_of (execution_kind_str k) = Some k"
  by (cases k) (simp_all add: execution_kind_of_def)

lemma source_of_str [simp]: "source_of (source_str s) = Some s"
  by (cases s) (simp_all add: source_of_def modelSelectionSources_def)

lemma parseAgentExecution_typed: "parseAgentExecution v = ok e \<Longrightarrow> execution_ok e"
  by (cases "text_of (prop_of (the (record_props v)) ''inputHash'')")
    (auto simp: parseAgentExecution_def execution_ok_def Let_def split: option.splits if_splits)

lemma parseAgentExecution_value: "execution_ok e \<Longrightarrow> parseAgentExecution (execution_value e) = ok e"
  by (cases "ax_inputHash e") (auto simp: parseAgentExecution_def execution_ok_def execution_value_def record_props_def
      prop_of_def execution_keys_def Let_def)

lemma accepted_text_Some [simp]: "accepted_text p v = Some s \<longleftrightarrow> v = JsString s \<and> p s"
  by (auto simp: accepted_text_def split: js_value.splits)

lemma accepted_limit_Some [simp]: "accepted_limit v = Some n \<longleftrightarrow> v = JsNumber n \<and> output_limit n"
  by (auto simp: accepted_limit_def split: js_value.splits)

lemma nullable_Some: "nullable f v = Some x \<longleftrightarrow> v = JsNull \<and> x = None \<or> v \<noteq> JsNull \<and> (\<exists>y. f v = Some y \<and> x = Some y)"
  by (auto simp: nullable_def)

lemma parseSelection_typed: "parseSelection v = ok s \<Longrightarrow> selection_ok s"
  by (auto simp: parseSelection_def selection_ok_def nullable_Some split: option.splits if_splits)

lemma parseSelection_value: "selection_ok s \<Longrightarrow> parseSelection (selection_value s) = ok s"
  by (cases "ms_profile s"; cases "ms_reasoningEffort s"; cases "ms_maxOutputTokens s")
    (simp_all add: parseSelection_def selection_ok_def selection_value_def record_props_def prop_of_def exactKeys_def
      selectionKeys_def accepted_text_def accepted_limit_def nullable_def null_text_def)

lemma parse_routing_typed: "parseAgentRunModelRouting v = ok r \<Longrightarrow> routing_ok r"
  by (auto simp: parseAgentRunModelRouting_def result_simps dest: parseSelection_typed split: option.splits if_splits)

lemma parse_routing_value: "routing_ok r \<Longrightarrow> parseAgentRunModelRouting (routing_value r) = ok r"
  by (cases r) (simp_all add: parseAgentRunModelRouting_def parseSelection_value record_props_def prop_of_def exactKeys_def)

lemma guidance_typed: "normalizeRoleGuidance g = ok g' \<longleftrightarrow> g' = g \<and> guidance_ok g"
  by (auto simp: normalizeRoleGuidance_def guidance_ok_def)

lemma intent_typed:
  assumes "normalizeActionIntent i = ok a" and "wf_js (ii_arguments i)"
  shows "intent_ok a"
proof -
  obtain j where j: "normalizeCanonicalJson (ii_arguments i) = ok j"
    and ne: "trim (ii_resourceId i) \<noteq> []" "trim (ii_operation i) \<noteq> []"
    using assms(1) by (auto simp: normalizeActionIntent_def Let_def result_simps split: if_splits)
  obtain es where "j = JObj es" using assms(1) j ne by (cases j) (auto simp: normalizeActionIntent_def)
  then have es: "normalizeCanonicalJson (ii_arguments i) = ok (JObj es)"
      "assertNoSensitiveFields (JObj es) ''Agent action arguments'' = ok ()"
      "a = \<lparr>ai_resourceId = trim (ii_resourceId i), ai_operation = trim (ii_operation i), ai_arguments = JObj es\<rparr>"
    using assms(1) j ne by (auto simp: normalizeActionIntent_def Let_def result_simps simp del: own_order.simps)
  have "canonical_json (JObj es)" by (rule normalize_canonical [OF assms(2) es(1) [unfolded normalizeCanonicalJson_def]])
  moreover have "\<forall>k \<in> json_keys (JObj es). \<not> isSensitiveFieldKey k"
    using es(2) unfolding assertNoSensitiveFields_def check_sensitive_ok json_keys_own_order .
  ultimately show ?thesis using es(3) ne by (simp add: intent_ok_def canonical_text_def)
qed

lemma intent_value:
  assumes "intent_ok a"
  shows "normalizeActionIntent (intent_input a) = ok a"
proof -
  obtain es where es: "ai_arguments a = JObj es" using assms by (auto simp: intent_ok_def)
  have "assertNoSensitiveFields (ai_arguments a) ''Agent action arguments'' = ok ()"
    "normalizeCanonicalJson (embed (ai_arguments a)) = ok (ai_arguments a)"
    using assms unfolding intent_ok_def assertNoSensitiveFields_def normalizeCanonicalJson_def check_sensitive_ok
      json_keys_own_order by (auto intro: normalize_embed)
  then show ?thesis using assms es
    by (simp add: normalizeActionIntent_def intent_input_def intent_ok_def canonical_text_def del: embed.simps)
qed

lemma optionally_value: "pred_option p x \<Longrightarrow> (\<And>y. p y \<Longrightarrow> f (g y) = ok y) \<Longrightarrow> optionally f (map_option g x) = ok x"
  by (cases x) simp_all

lemma optionally_typed: "optionally f x = ok y \<Longrightarrow> (\<And>a b. x = Some a \<Longrightarrow> f a = ok b \<Longrightarrow> p b) \<Longrightarrow> pred_option p y"
  by (cases x) (auto simp: result_simps)


section \<open>Lemmas: one operation\<close>

lemma agent_create_ok:
  assumes "AgentRun_create i = ok r"
  shows "ar_status r = ArQueued" "ar_execution r = None" "ar_startedAt r = None" "ar_completedAt r = None"
    and "(\<And>x. in_actionIntent i = Some x \<Longrightarrow> wf_js (ii_arguments x)) \<Longrightarrow> run_typed r"
proof -
  obtain intent guidance routing where parts: "optionally normalizeActionIntent (in_actionIntent i) = ok intent"
      "optionally normalizeRoleGuidance (in_roleGuidance i) = ok guidance"
      "optionally parseAgentRunModelRouting (in_modelRouting i) = ok routing"
    and r: "ar_status r = ArQueued" "ar_execution r = None" "ar_startedAt r = None" "ar_completedAt r = None"
      "ar_actionIntent r = intent" "ar_roleGuidance r = guidance" "ar_modelRouting r = routing"
    using assms by (auto simp: AgentRun_create_def result_simps split: if_splits)
  show "ar_status r = ArQueued" "ar_execution r = None" "ar_startedAt r = None" "ar_completedAt r = None" by (rule r)+
  assume wf: "\<And>x. in_actionIntent i = Some x \<Longrightarrow> wf_js (ii_arguments x)"
  have "pred_option intent_ok intent" by (rule optionally_typed [OF parts(1)]) (rule intent_typed, simp, rule wf)
  moreover have "pred_option guidance_ok guidance" by (rule optionally_typed [OF parts(2)]) (simp add: guidance_typed)
  moreover have "pred_option routing_ok routing" by (rule optionally_typed [OF parts(3)]) (rule parse_routing_typed)
  ultimately show "run_typed r" using r by (simp add: run_typed_def)
qed

lemma transition_ok:
  assumes "AgentRun_transition s now d r = ok q"
  shows "s \<in> set (agentRunTransitions (ar_status r))" "ar_status q = s"
    and "ar_startedAt q = (if s = ArRunning \<and> ar_startedAt r = None then Some now else ar_startedAt r)"
    and "ar_completedAt q = (if agent_terminal s then Some now else ar_completedAt r)"
    and "ar_execution r \<noteq> None \<Longrightarrow> ar_execution q = ar_execution r"
    and "run_typed r \<Longrightarrow> run_typed q"
    and "(ar_id q, ar_projectId q, ar_taskId q, ar_agentId q, ar_pipelineRunId q, ar_pipelineStageRunId q,
        ar_actionIntent q, ar_roleGuidance q, ar_modelRouting q, ar_createdAt q)
      = (ar_id r, ar_projectId r, ar_taskId r, ar_agentId r, ar_pipelineRunId r, ar_pipelineStageRunId r,
        ar_actionIntent r, ar_roleGuidance r, ar_modelRouting r, ar_createdAt r)"
proof -
  have s: "s \<in> set (agentRunTransitions (ar_status r))" using assms by (auto simp: AgentRun_transition_def split: if_splits)
  then obtain execution where e: "(case td_execution d of None \<Rightarrow> ok (ar_execution r)
        | Some v \<Rightarrow> bindR (parseAgentExecution v) (\<lambda>e. ok (Some e))) = ok execution"
    and same: "ar_execution r = None \<or> execution = ar_execution r"
    and q: "q = r\<lparr>ar_worktreePath := given (td_worktreePath d) (ar_worktreePath r),
          ar_result := given (td_result d) (ar_result r), ar_error := given (td_error d) (ar_error r),
          ar_execution := execution, ar_status := s,
          ar_startedAt := (if s = ArRunning \<and> ar_startedAt r = None then Some now else ar_startedAt r),
          ar_completedAt := (if s \<in> {ArCompleted, ArFailed, ArCancelled} then Some now else ar_completedAt r),
          ar_updatedAt := now\<rparr>"
    using assms unfolding AgentRun_transition_def by (auto simp: bindR_ok split: if_splits)
  show "s \<in> set (agentRunTransitions (ar_status r))" by (rule s)
  show "ar_status q = s" "ar_startedAt q = (if s = ArRunning \<and> ar_startedAt r = None then Some now else ar_startedAt r)"
    "ar_completedAt q = (if agent_terminal s then Some now else ar_completedAt r)"
    "(ar_id q, ar_projectId q, ar_taskId q, ar_agentId q, ar_pipelineRunId q, ar_pipelineStageRunId q,
        ar_actionIntent q, ar_roleGuidance q, ar_modelRouting q, ar_createdAt q)
      = (ar_id r, ar_projectId r, ar_taskId r, ar_agentId r, ar_pipelineRunId r, ar_pipelineStageRunId r,
        ar_actionIntent r, ar_roleGuidance r, ar_modelRouting r, ar_createdAt r)"
    using q by (simp_all add: agent_terminal_def)
  show "ar_execution q = ar_execution r" if "ar_execution r \<noteq> None" using q same that by simp
  assume r: "run_typed r"
  then have "pred_option execution_ok execution"
    using e by (auto simp: run_typed_def result_simps dest: parseAgentExecution_typed split: option.splits)
  then show "run_typed q" using q r by (simp add: run_typed_def)
qed

text \<open>What the status says of the dates of a run.\<close>

definition dates_agree :: "agent_run \<Rightarrow> bool" where
  "dates_agree r \<longleftrightarrow> (ar_completedAt r \<noteq> None) = agent_terminal (ar_status r)
     \<and> (ar_status r \<in> {ArRunning, ArReviewing, ArCompleted} \<longrightarrow> ar_startedAt r \<noteq> None)
     \<and> (ar_status r \<in> {ArQueued, ArPreparing} \<longrightarrow> ar_startedAt r = None)"

lemma dates_agree_transition: "AgentRun_transition s now d r = ok q \<Longrightarrow> dates_agree r \<Longrightarrow> dates_agree q"
  using transition_ok(1-4) [of s now d r q] by (cases "ar_status r") (auto simp: dates_agree_def agent_terminal_def)

lemma history_keeps:
  assumes "run_history n r q" and "dates_agree r"
  shows "dates_agree q \<and> agent_rank (ar_status r) + n \<le> agent_rank (ar_status q)
    \<and> (run_typed r \<longrightarrow> run_typed q)
    \<and> (ar_execution r \<noteq> None \<longrightarrow> ar_execution q = ar_execution r)
    \<and> (ar_startedAt r \<noteq> None \<longrightarrow> ar_startedAt q = ar_startedAt r)
    \<and> (ar_completedAt r \<noteq> None \<longrightarrow> n = 0 \<and> ar_completedAt q = ar_completedAt r)
    \<and> (ar_id q, ar_projectId q, ar_taskId q, ar_agentId q, ar_pipelineRunId q, ar_pipelineStageRunId q,
        ar_actionIntent q, ar_roleGuidance q, ar_modelRouting q, ar_createdAt q)
      = (ar_id r, ar_projectId r, ar_taskId r, ar_agentId r, ar_pipelineRunId r, ar_pipelineStageRunId r,
        ar_actionIntent r, ar_roleGuidance r, ar_modelRouting r, ar_createdAt r)"
  using assms
proof (induction rule: run_history.induct)
  case (transition n r q s now details q')
  note t = transition_ok [OF transition.hyps(2)]
  note ih = transition.IH [OF transition.prems]
  have d: "dates_agree q" using ih by blast
  have "ar_completedAt q = None" using d t(1) run_lc.terminal_iff [of "ar_status q"] by (auto simp: dates_agree_def)
  then have "ar_completedAt r = None" using ih by fastforce
  moreover have "agent_rank (ar_status q) < agent_rank (ar_status q')" using run_lc.rank_less [OF t(1)] t(2) by simp
  ultimately show ?case using ih t(3,5,6,7) dates_agree_transition [OF transition.hyps(2) d] by auto
next
  case (persisted n r q)
  then show ?case by (auto simp: AgentRun_markPersisted_def dates_agree_def run_typed_def)
qed auto

lemma restore_typed: "run_typed r \<Longrightarrow> AgentRun_restore r = ok r"
  unfolding AgentRun_restore_def run_typed_def
  using optionally_value [of execution_ok "ar_execution r" parseAgentExecution execution_value]
    optionally_value [of intent_ok "ar_actionIntent r" normalizeActionIntent intent_input]
    optionally_value [of guidance_ok "ar_roleGuidance r" normalizeRoleGuidance "\<lambda>g. g"]
    optionally_value [of routing_ok "ar_modelRouting r" parseAgentRunModelRouting routing_value]
  by (simp add: parseAgentExecution_value intent_value guidance_typed parse_routing_value option.map_ident)


section \<open>Properties\<close>

text \<open>The history of a run. From the moment it is created a run accepts at most four transitions; it
  has a completion date exactly when its status is terminal, and then accepts none; it has a
  start date once it ran, and not before. A start date, a completion date and an execution
  provenance that are set never change, and neither do the identifiers, the task and pipeline
  binding, the action intent, the role guidance and the model routing.\<close>

theorem agent_run_history:
  assumes "AgentRun_create i = ok r0" and "run_history n r0 r" and "run_history m r q"
  shows "n + m \<le> 4 \<and> dates_agree q \<and> (agent_terminal (ar_status r) \<longrightarrow> m = 0)
    \<and> (ar_execution r \<noteq> None \<longrightarrow> ar_execution q = ar_execution r)
    \<and> (ar_startedAt r \<noteq> None \<longrightarrow> ar_startedAt q = ar_startedAt r)
    \<and> (ar_completedAt r \<noteq> None \<longrightarrow> ar_completedAt q = ar_completedAt r)
    \<and> (ar_id q, ar_projectId q, ar_taskId q, ar_agentId q, ar_pipelineRunId q, ar_pipelineStageRunId q,
        ar_actionIntent q, ar_roleGuidance q, ar_modelRouting q, ar_createdAt q)
      = (ar_id r0, ar_projectId r0, ar_taskId r0, ar_agentId r0, ar_pipelineRunId r0, ar_pipelineStageRunId r0,
        ar_actionIntent r0, ar_roleGuidance r0, ar_modelRouting r0, ar_createdAt r0)"
proof -
  have d0: "dates_agree r0" using agent_create_ok(1-4) [OF assms(1)] by (simp add: dates_agree_def agent_terminal_def)
  note first = history_keeps [OF assms(2) d0]
  then have d: "dates_agree r" by blast
  note second = history_keeps [OF assms(3) d]
  have "agent_rank (ar_status q) \<le> 4" by (cases "ar_status q") simp_all
  then have "n + m \<le> 4" using first second by linarith
  then show ?thesis using first second d by (auto simp: dates_agree_def)
qed

definition sample_run_input :: agent_run_input where
  "sample_run_input = \<lparr>in_id = ''r1'', in_projectId = ''p1'', in_taskId = ''t1'', in_agentId = ''a1'',
     in_pipelineRunId = None, in_pipelineStageRunId = None, in_actionIntent = None, in_roleGuidance = None,
     in_modelRouting = None, in_now = At 1\<rparr>"

definition no_details :: transition_details where
  "no_details = \<lparr>td_worktreePath = None, td_result = None, td_error = None, td_execution = None\<rparr>"

theorem agent_run_history_witness:
  "\<exists>r0 r q. AgentRun_create sample_run_input = ok r0 \<and> run_history 2 r0 r \<and> run_history 1 r q
     \<and> ar_status q = ArCompleted \<and> ar_startedAt q = Some (At 3) \<and> ar_completedAt q = Some (At 4)"
proof -
  obtain r0 where r0: "AgentRun_create sample_run_input = ok r0"
    by (simp add: AgentRun_create_def sample_run_input_def trim_def trimStart_def is_js_space_def js_whitespace_def)
  note c = agent_create_ok [OF r0]
  obtain r1 where r1: "AgentRun_transition ArPreparing (At 2) no_details r0 = ok r1"
    using c by (simp add: AgentRun_transition_def no_details_def)
  obtain r where r: "AgentRun_transition ArRunning (At 3) no_details r1 = ok r"
    using c transition_ok(2) [OF r1] by (auto simp: AgentRun_transition_def no_details_def)
  obtain q where q: "AgentRun_transition ArCompleted (At 4) no_details r = ok q"
    using transition_ok(2) [OF r] by (auto simp: AgentRun_transition_def no_details_def)
  have hist: "run_history (Suc (Suc 0)) r0 r" "run_history (Suc 0) r q"
    using r1 r q by (auto intro: run_history.intros)
  have started: "ar_startedAt r = Some (At 3)"
    using c transition_ok(3) [OF r1] transition_ok(3) [OF r] by simp
  have "ar_startedAt q = ar_startedAt r" using agent_run_history [OF r0 hist] started by simp
  then show ?thesis using r0 hist started transition_ok(2,4) [OF q]
    by (auto simp: agent_terminal_def numeral_2_eq_2)
qed

text \<open>C34. Runs are well typed. The parsers of provenance and routing return exactly the records of their
  patterns, whatever value they are given; every run a history reaches is made of such parts, its
  action intent has canonical texts and a canonical argument object without sensitive fields, and
  restoring its snapshot gives back the run itself.\<close>

theorem agent_run_typed:
  "(\<exists>v. parseAgentExecution v = ok e) = execution_ok e
    \<and> (\<exists>v. parseAgentRunModelRouting v = ok routing) = routing_ok routing
    \<and> (AgentRun_create i = ok r0 \<longrightarrow> pred_option (\<lambda>x. wf_js (ii_arguments x)) (in_actionIntent i)
        \<longrightarrow> run_history n r0 r \<longrightarrow> run_typed r \<and> AgentRun_restore (AgentRun_snapshot r) = ok r)"
proof (intro conjI impI)
  show "(\<exists>v. parseAgentExecution v = ok e) = execution_ok e"
    using parseAgentExecution_typed parseAgentExecution_value by blast
  show "(\<exists>v. parseAgentRunModelRouting v = ok routing) = routing_ok routing"
    using parse_routing_typed parse_routing_value by blast
  assume r0: "AgentRun_create i = ok r0" and wf: "pred_option (\<lambda>x. wf_js (ii_arguments x)) (in_actionIntent i)"
    and h: "run_history n r0 r"
  have "run_typed r0" by (rule agent_create_ok(5) [OF r0]) (use wf in simp)
  moreover have "dates_agree r0" using agent_create_ok(1-4) [OF r0] by (simp add: dates_agree_def agent_terminal_def)
  ultimately show "run_typed r" using history_keeps [OF h] by blast
  then show "AgentRun_restore (AgentRun_snapshot r) = ok r" by (simp add: AgentRun_snapshot_def restore_typed)
qed

definition sample_intent :: action_intent_input where
  "sample_intent = \<lparr>ii_resourceId = '' repo '', ii_operation = ''push'',
     ii_arguments = JsObject True False [(''branch'', Data (JsString ''main''))]\<rparr>"

theorem agent_run_typed_witness:
  "\<exists>r. AgentRun_create (sample_run_input\<lparr>in_actionIntent := Some sample_intent\<rparr>) = ok r \<and> run_typed r
     \<and> map_option ai_resourceId (ar_actionIntent r) = Some ''repo''"
proof -
  let ?i = "sample_run_input\<lparr>in_actionIntent := Some sample_intent\<rparr>"
  have texts: "trim '' repo '' = ''repo''" "trim ''push'' = ''push''" "trim ''r1'' = ''r1''" "trim ''p1'' = ''p1''"
    "trim ''t1'' = ''t1''" "trim ''a1'' = ''a1''"
    by (simp_all add: trim_def trimStart_def is_js_space_def js_whitespace_def)
  have "normalizeCanonicalJson (ii_arguments sample_intent) = ok (JObj [(''branch'', JStr ''main'')])"
    by (simp add: sample_intent_def normalizeCanonicalJson_def sort_props_def forbiddenObjectKeys_def)
  moreover have "assertNoSensitiveFields (JObj [(''branch'', JStr ''main'')]) ''Agent action arguments'' = ok ()"
    unfolding assertNoSensitiveFields_def check_sensitive_ok json_keys_own_order
    by (simp add: isSensitiveFieldKey_def normalizeSensitiveFieldKey_def sensitiveFieldNames_def to_lower_def
        is_lower_alnum_def is_digit_def)
  ultimately have "normalizeActionIntent sample_intent
      = ok \<lparr>ai_resourceId = ''repo'', ai_operation = ''push'', ai_arguments = JObj [(''branch'', JStr ''main'')]\<rparr>"
    using texts by (simp add: normalizeActionIntent_def sample_intent_def del: own_order.simps)
  then obtain r where r: "AgentRun_create ?i = ok r" and intent: "map_option ai_resourceId (ar_actionIntent r) = Some ''repo''"
    using texts by (simp add: AgentRun_create_def sample_run_input_def)
  have "pred_option (\<lambda>x. wf_js (ii_arguments x)) (in_actionIntent ?i)" by (simp add: sample_intent_def)
  then have "run_typed r" using agent_run_typed [of _ _ ?i r 0 r] r run_history.start by blast
  then show ?thesis using r intent by blast
qed

end
