(* ===== verification/Action_Lifecycle.thy ===== *)
theory Action_Lifecycle
  imports Agent_Run
begin

text \<open>
  Controlled actions, \<open>packages/domain/src/capability\<close>: the vocabulary of decisions and risks of
  \<open>capability.ts\<close>, the state machine of an action request (\<open>action-request.ts\<close>), its
  simulation with the preconditions on files (\<open>action-simulation.ts\<close>), its approval
  (\<open>action-approval.ts\<close>) and its execution (\<open>action-execution.ts\<close>). Dates are values, so the
  copies that the classes make of them are the dates themselves.
\<close>

section \<open>The model\<close>

datatype risk_level = RiskLow | RiskMedium | RiskHigh | RiskCritical
datatype policy_decision_kind = PdAllow | PdDeny | PdAllowWithApproval | PdAllowSimulationOnly

text \<open>\<open>/^[0-9a-f]{64}$/u\<close>\<close>

definition validHash :: "string \<Rightarrow> bool" where
  "validHash s \<longleftrightarrow> length s = 64 \<and> list_all is_hex s"

subsection \<open>The action request\<close>

datatype action_status =
    AsRequested | AsAuthorized | AsDenied | AsSimulating | AsSimulated | AsApprovalPending | AsRejected
  | AsExecuting | AsCompleted | AsFailed | AsExecutionUnknown | AsCancelled | AsExpired

fun action_status_str :: "action_status \<Rightarrow> string" where
  "action_status_str AsRequested = ''requested''"
| "action_status_str AsAuthorized = ''authorized''"
| "action_status_str AsDenied = ''denied''"
| "action_status_str AsSimulating = ''simulating''"
| "action_status_str AsSimulated = ''simulated''"
| "action_status_str AsApprovalPending = ''approval_pending''"
| "action_status_str AsRejected = ''rejected''"
| "action_status_str AsExecuting = ''executing''"
| "action_status_str AsCompleted = ''completed''"
| "action_status_str AsFailed = ''failed''"
| "action_status_str AsExecutionUnknown = ''execution_unknown''"
| "action_status_str AsCancelled = ''cancelled''"
| "action_status_str AsExpired = ''expired''"

datatype operation_mode = ReadMode | MutationMode

text \<open>The arguments and constraints are of type \<open>'v\<close>: values as given, JSON once normalized.\<close>

record 'v action_base =
  aq_id :: string
  aq_projectId :: string
  aq_agentId :: string
  aq_resourceId :: string
  aq_connector :: string
  aq_connectorVersion :: string
  aq_operation :: string
  aq_normalizedArguments :: 'v
  aq_effectiveConstraints :: 'v
  aq_agentRunId :: "string option"
  aq_payloadHash :: string
  aq_decision :: policy_decision_kind
  aq_riskLevel :: risk_level
  aq_matchedGrantIds :: "string list"
  aq_reasons :: "string list"
  aq_pipelineRunId :: "string option"
  aq_pipelineStageRunId :: "string option"

record action_request = "json action_base" +
  aq_status :: action_status
  aq_createdAt :: js_date
  aq_updatedAt :: js_date

fun actionTransitions :: "action_status \<Rightarrow> action_status list" where
  "actionTransitions AsRequested = [AsAuthorized, AsDenied]"
| "actionTransitions AsAuthorized = [AsSimulating, AsExecuting]"
| "actionTransitions AsSimulating = [AsSimulated, AsFailed]"
| "actionTransitions AsSimulated = [AsApprovalPending]"
| "actionTransitions AsApprovalPending = [AsExecuting, AsRejected]"
| "actionTransitions AsExecuting = [AsCompleted, AsFailed, AsExecutionUnknown]"
| "actionTransitions _ = []"

definition isDecisionStatusCompatible :: "policy_decision_kind \<Rightarrow> action_status \<Rightarrow> bool" where
  "isDecisionStatusCompatible decision status =
     (if decision = PdDeny then status = AsRequested \<or> status = AsDenied
      else if status = AsDenied then False
      else if status = AsFailed then True
      else if status = AsExecuting \<or> status = AsCompleted \<or> status = AsExecutionUnknown
      then decision = PdAllow \<or> decision = PdAllowWithApproval
      else if status = AsSimulating \<or> status = AsSimulated
      then decision = PdAllowSimulationOnly \<or> decision = PdAllowWithApproval
      else if status = AsApprovalPending then decision = PdAllowWithApproval
      else True)"

definition ActionRequest_create :: "js_value action_base \<Rightarrow> js_date \<Rightarrow> action_request result" where
  "ActionRequest_create i now =
     (if list_ex (\<lambda>value. length (trim value) = 0)
         [aq_id i, aq_projectId i, aq_agentId i, aq_resourceId i, aq_operation i]
      then throw (CapabilityValidationError ''Action request identifiers and operation cannot be empty'')
      else if \<not> date_finite now then throw InvalidActionTimestampError
      else bindR (normalizeCanonicalJson (aq_normalizedArguments i)) (\<lambda>arguments.
           bindR (normalizeCanonicalJson (aq_effectiveConstraints i)) (\<lambda>constraints.
           ok \<lparr>aq_id = aq_id i, aq_projectId = aq_projectId i, aq_agentId = aq_agentId i,
             aq_resourceId = aq_resourceId i, aq_connector = aq_connector i,
             aq_connectorVersion = aq_connectorVersion i, aq_operation = aq_operation i,
             aq_normalizedArguments = arguments, aq_effectiveConstraints = constraints,
             aq_agentRunId = aq_agentRunId i, aq_payloadHash = aq_payloadHash i, aq_decision = aq_decision i,
             aq_riskLevel = aq_riskLevel i, aq_matchedGrantIds = aq_matchedGrantIds i, aq_reasons = aq_reasons i,
             aq_pipelineRunId = aq_pipelineRunId i, aq_pipelineStageRunId = aq_pipelineStageRunId i,
             aq_status = AsRequested, aq_createdAt = now, aq_updatedAt = now\<rparr>)))"

definition ActionRequest_restore :: "action_request \<Rightarrow> action_request result" where
  "ActionRequest_restore p =
     (if \<not> isDecisionStatusCompatible (aq_decision p) (aq_status p)
      then throw (InvalidActionTransitionError ''requested'' (action_status_str (aq_status p)))
      else bindR (normalizeCanonicalJson (embed (aq_normalizedArguments p))) (\<lambda>arguments.
           bindR (normalizeCanonicalJson (embed (aq_effectiveConstraints p))) (\<lambda>constraints.
           ok (p\<lparr>aq_normalizedArguments := arguments, aq_effectiveConstraints := constraints\<rparr>))))"

text \<open>The leases: what may be started from an authorized request, and decided on a pending one.\<close>

definition valid_from_authorized ::
  "policy_decision_kind \<Rightarrow> action_status \<Rightarrow> operation_mode option \<Rightarrow> bool \<Rightarrow> bool" where
  "valid_from_authorized decision status mode requiresApproval \<longleftrightarrow>
     (status = AsExecuting \<and> mode = Some ReadMode \<and> \<not> requiresApproval \<and> decision = PdAllow)
     \<or> (status = AsSimulating \<and> mode = Some MutationMode
        \<and> (if requiresApproval then decision = PdAllowWithApproval else decision = PdAllowSimulationOnly))"

definition valid_from_pending ::
  "policy_decision_kind \<Rightarrow> action_status \<Rightarrow> operation_mode option \<Rightarrow> bool \<Rightarrow> bool" where
  "valid_from_pending decision status mode requiresApproval \<longleftrightarrow>
     (status = AsExecuting \<or> status = AsRejected)
     \<and> mode = Some MutationMode \<and> requiresApproval \<and> decision = PdAllowWithApproval"

definition ActionRequest_transition ::
  "action_status \<Rightarrow> js_date \<Rightarrow> operation_mode option \<Rightarrow> bool \<Rightarrow> action_request \<Rightarrow> action_request result" where
  "ActionRequest_transition status now mode requiresApproval r =
     (let refused = throw (InvalidActionTransitionError (action_status_str (aq_status r)) (action_status_str status)) in
      if status \<notin> set (actionTransitions (aq_status r)) then refused
      else if \<not> isDecisionStatusCompatible (aq_decision r) status then refused
      else if aq_status r = AsAuthorized \<and> \<not> valid_from_authorized (aq_decision r) status mode requiresApproval
      then refused
      else if aq_status r = AsSimulated \<and> status = AsApprovalPending
          \<and> (aq_decision r \<noteq> PdAllowWithApproval \<or> \<not> requiresApproval)
      then refused
      else if aq_status r = AsApprovalPending \<and> \<not> valid_from_pending (aq_decision r) status mode requiresApproval
      then refused
      else if \<not> date_finite now \<or> date_lt now (aq_updatedAt r) then throw InvalidActionTimestampError
      else ok (r\<lparr>aq_status := status, aq_updatedAt := now\<rparr>))"

text \<open>The payload that is hashed and approved.\<close>

definition optional_entry :: "string \<Rightarrow> string option \<Rightarrow> (string \<times> js_value slot) list" where
  "optional_entry k v = (case v of None \<Rightarrow> [] | Some s \<Rightarrow> [(k, Data (JsString s))])"

definition canonicalPayload :: "action_request \<Rightarrow> js_value" where
  "canonicalPayload r = JsObject True False
     ([(''schemaVersion'', Data (JsNumber (Num 1))), (''projectId'', Data (JsString (aq_projectId r))),
       (''agentId'', Data (JsString (aq_agentId r))), (''resourceId'', Data (JsString (aq_resourceId r))),
       (''connector'', Data (JsString (aq_connector r))), (''connectorVersion'', Data (JsString (aq_connectorVersion r))),
       (''operation'', Data (JsString (aq_operation r))), (''normalizedArguments'', Data (embed (aq_normalizedArguments r))),
       (''effectiveConstraints'', Data (embed (aq_effectiveConstraints r)))]
      @ optional_entry ''agentRunId'' (aq_agentRunId r) @ optional_entry ''pipelineRunId'' (aq_pipelineRunId r)
      @ optional_entry ''pipelineStageRunId'' (aq_pipelineStageRunId r))"

subsection \<open>The simulation\<close>

datatype file_precondition = AbsentFile string | PresentFile string string js_num

fun precondition_path :: "file_precondition \<Rightarrow> string" where
  "precondition_path (AbsentFile p) = p"
| "precondition_path (PresentFile p _ _) = p"

text \<open>A candidate is normalized JSON, so its keys are sorted.\<close>

fun json_text :: "json option \<Rightarrow> string option" where
  "json_text (Some (JStr s)) = Some s"
| "json_text _ = None"

fun json_size :: "json option \<Rightarrow> js_num option" where
  "json_size (Some (JNum q)) = (if isSafeInteger (Num q) \<and> \<not> num_lt (Num q) (Num 0) then Some (Num q) else None)"
| "json_size _ = None"

definition invalid_precondition :: "string \<Rightarrow> error" where
  "invalid_precondition what = CapabilityValidationError (''Action simulation '' @ what @ '' is invalid'')"

definition parse_precondition :: "json \<Rightarrow> file_precondition result" where
  "parse_precondition candidate =
     (case candidate of
        JObj es \<Rightarrow>
          (case (json_text (map_of es ''path''), json_text (map_of es ''kind'')) of
             (Some path, Some kind) \<Rightarrow>
               if length path = 0 \<or> kind \<noteq> ''absent'' \<and> kind \<noteq> ''file'' then throw (invalid_precondition ''precondition'')
               else if kind = ''absent''
               then if map fst es \<noteq> [''kind'', ''path''] then throw (invalid_precondition ''absent precondition'')
                 else ok (AbsentFile path)
               else (case (json_text (map_of es ''sha256''), json_size (map_of es ''size'')) of
                   (Some sha256, Some n) \<Rightarrow>
                     if map fst es \<noteq> [''kind'', ''path'', ''sha256'', ''size''] \<or> \<not> validHash sha256
                     then throw (invalid_precondition ''file precondition'')
                     else ok (PresentFile path sha256 n)
                 | _ \<Rightarrow> throw (invalid_precondition ''file precondition''))
           | _ \<Rightarrow> throw (invalid_precondition ''precondition''))
      | _ \<Rightarrow> throw (invalid_precondition ''precondition''))"

text \<open>The loop over the candidates; \<open>seen\<close> are the paths accepted so far.\<close>

fun parse_preconditions :: "json list \<Rightarrow> string list \<Rightarrow> file_precondition list result" where
  "parse_preconditions [] seen = ok []"
| "parse_preconditions (c # cs) seen =
     bindR (parse_precondition c) (\<lambda>p.
       if precondition_path p \<in> set seen
       then throw (CapabilityValidationError ''Action simulation preconditions contradict for the same path'')
       else bindR (parse_preconditions cs (precondition_path p # seen)) (\<lambda>ps. ok (p # ps)))"

definition normalizeFilePreconditions :: "js_value \<Rightarrow> file_precondition list result" where
  "normalizeFilePreconditions v =
     bindR (normalizeCanonicalJson v) (\<lambda>normalized.
       case normalized of
         JArr cs \<Rightarrow> parse_preconditions cs []
       | _ \<Rightarrow> throw (CapabilityValidationError ''Action simulation preconditions must be an array''))"

fun precondition_value :: "file_precondition \<Rightarrow> js_value" where
  "precondition_value (AbsentFile p) = JsObject True False [(''kind'', Data (JsString ''absent'')), (''path'', Data (JsString p))]"
| "precondition_value (PresentFile p h n) = JsObject True False [(''kind'', Data (JsString ''file'')),
     (''path'', Data (JsString p)), (''sha256'', Data (JsString h)), (''size'', Data (JsNumber n))]"

definition preconditions_value :: "file_precondition list \<Rightarrow> js_value" where
  "preconditions_value ps = JsArray False [] (map (\<lambda>p. Data (precondition_value p)) ps)"

record action_simulation =
  sm_id :: string
  sm_projectId :: string
  sm_actionRequestId :: string
  sm_authorizationPayloadHash :: string
  sm_connector :: string
  sm_connectorVersion :: string
  sm_operation :: string
  sm_preconditions :: "file_precondition list"
  sm_diff :: string
  sm_diffSha256 :: string
  sm_artifactSha256 :: string
  sm_createdAt :: js_date

definition ActionSimulation_create :: "action_simulation \<Rightarrow> action_simulation result" where
  "ActionSimulation_create p =
     (if list_ex (\<lambda>value. length (trim value) = 0)
         [sm_id p, sm_projectId p, sm_actionRequestId p, sm_connector p, sm_connectorVersion p, sm_operation p]
      then throw (CapabilityValidationError ''Action simulation identifiers cannot be empty'')
      else if list_ex (\<lambda>h. \<not> validHash h) [sm_authorizationPayloadHash p, sm_diffSha256 p, sm_artifactSha256 p]
      then throw (CapabilityValidationError ''Action simulation hash is invalid'')
      else if \<not> date_finite (sm_createdAt p)
      then throw (CapabilityValidationError ''Action simulation timestamp is invalid'')
      else bindR (normalizeFilePreconditions (preconditions_value (sm_preconditions p))) (\<lambda>ps.
           ok (p\<lparr>sm_preconditions := ps\<rparr>)))"

subsection \<open>The approval\<close>

datatype approval_status = ApPending | ApApproved | ApRejected

record action_approval =
  ap_id :: string
  ap_projectId :: string
  ap_actionRequestId :: string
  ap_simulationId :: string
  ap_actionPayloadHash :: string
  ap_simulationArtifactHash :: string
  ap_connector :: string
  ap_connectorVersion :: string
  ap_operation :: string
  ap_status :: approval_status
  ap_requestedAt :: js_date
  ap_decidedAt :: "js_date option"
  ap_actor :: "string option"

definition normalize_approval :: "action_approval \<Rightarrow> action_approval result" where
  "normalize_approval p =
     (if list_ex (\<lambda>value. length (trim value) = 0 \<or> trim value \<noteq> value)
         [ap_id p, ap_projectId p, ap_actionRequestId p, ap_simulationId p, ap_connector p, ap_connectorVersion p,
          ap_operation p]
      then throw (CapabilityValidationError ''Action approval identifiers must be canonical and non-empty'')
      else if \<not> validHash (ap_actionPayloadHash p) \<or> \<not> validHash (ap_simulationArtifactHash p)
      then throw (CapabilityValidationError ''Action approval hash is invalid'')
      else if \<not> date_finite (ap_requestedAt p)
      then throw (CapabilityValidationError ''Action approval timestamp is invalid'')
      else if ap_status p = ApPending
      then if ap_decidedAt p \<noteq> None \<or> ap_actor p \<noteq> None
        then throw (CapabilityValidationError ''Pending action approval cannot have a decision'') else ok p
      else case (ap_decidedAt p, ap_actor p) of
          (Some decidedAt, Some actor) \<Rightarrow>
            if \<not> date_finite decidedAt \<or> date_lt decidedAt (ap_requestedAt p) \<or> length (trim actor) = 0
            then throw (CapabilityValidationError ''Decided action approval requires actor and monotonic timestamp'')
            else ok p
        | _ \<Rightarrow> throw (CapabilityValidationError ''Decided action approval requires actor and monotonic timestamp''))"

text \<open>The status, date and decision of what is requested are those of a new approval.\<close>

definition ActionApproval_request :: "action_approval \<Rightarrow> js_date \<Rightarrow> action_approval result" where
  "ActionApproval_request p now =
     normalize_approval (p\<lparr>ap_status := ApPending, ap_requestedAt := now, ap_decidedAt := None, ap_actor := None\<rparr>)"

definition ActionApproval_restore :: "action_approval \<Rightarrow> action_approval result" where
  "ActionApproval_restore = normalize_approval"

definition approval_decide :: "approval_status \<Rightarrow> string \<Rightarrow> js_date \<Rightarrow> action_approval \<Rightarrow> action_approval result" where
  "approval_decide status actor now p =
     (if ap_status p \<noteq> ApPending then throw (CapabilityValidationError ''Action approval is already decided'')
      else normalize_approval (p\<lparr>ap_status := status, ap_decidedAt := Some now, ap_actor := Some actor\<rparr>))"

definition ActionApproval_approve :: "string \<Rightarrow> js_date \<Rightarrow> action_approval \<Rightarrow> action_approval result" where
  "ActionApproval_approve = approval_decide ApApproved"

definition ActionApproval_reject :: "string \<Rightarrow> js_date \<Rightarrow> action_approval \<Rightarrow> action_approval result" where
  "ActionApproval_reject = approval_decide ApRejected"

subsection \<open>The execution\<close>

datatype execution_status = ExExecuting | ExCompleted | ExFailed | ExUnknown

record action_execution =
  ex_id :: string
  ex_projectId :: string
  ex_actionRequestId :: string
  ex_simulationId :: string
  ex_approvalId :: string
  ex_status :: execution_status
  ex_startedAt :: js_date
  ex_completedAt :: "js_date option"
  ex_failureCode :: "string option"
  ex_resultHash :: "string option"

definition normalize_execution :: "action_execution \<Rightarrow> action_execution result" where
  "normalize_execution p =
     (if list_ex (\<lambda>value. length (trim value) = 0 \<or> trim value \<noteq> value)
         [ex_id p, ex_projectId p, ex_actionRequestId p, ex_simulationId p, ex_approvalId p]
      then throw (CapabilityValidationError ''Action execution identifiers must be canonical and non-empty'')
      else if \<not> date_finite (ex_startedAt p)
      then throw (CapabilityValidationError ''Action execution timestamp is invalid'')
      else if ex_status p = ExExecuting
      then if ex_completedAt p \<noteq> None \<or> ex_failureCode p \<noteq> None \<or> ex_resultHash p \<noteq> None
        then throw (CapabilityValidationError ''Executing action cannot have a terminal outcome'') else ok p
      else if (case ex_completedAt p of None \<Rightarrow> True | Some d \<Rightarrow> \<not> date_finite d \<or> date_lt d (ex_startedAt p))
      then throw (CapabilityValidationError ''Terminal action execution requires a monotonic timestamp'')
      else if ex_status p = ExCompleted \<and> ex_failureCode p \<noteq> None
      then throw (CapabilityValidationError ''Completed action execution cannot have a failure code'')
      else if ex_status p \<noteq> ExCompleted \<and> (case ex_failureCode p of None \<Rightarrow> True | Some c \<Rightarrow> length (trim c) = 0)
      then throw (CapabilityValidationError ''Failed or unknown execution requires a failure code'')
      else if (case ex_resultHash p of None \<Rightarrow> False | Some h \<Rightarrow> \<not> validHash h)
      then throw (CapabilityValidationError ''Action execution result hash is invalid'')
      else ok p)"

definition ActionExecution_start :: "action_execution \<Rightarrow> js_date \<Rightarrow> action_execution result" where
  "ActionExecution_start p now =
     normalize_execution (p\<lparr>ex_status := ExExecuting, ex_startedAt := now, ex_completedAt := None,
       ex_failureCode := None, ex_resultHash := None\<rparr>)"

definition ActionExecution_restore :: "action_execution \<Rightarrow> action_execution result" where
  "ActionExecution_restore = normalize_execution"

definition execution_finish ::
  "execution_status \<Rightarrow> js_date \<Rightarrow> string option \<Rightarrow> string option \<Rightarrow> action_execution \<Rightarrow> action_execution result" where
  "execution_finish status now failureCode resultHash p =
     (if ex_status p \<noteq> ExExecuting then throw (CapabilityValidationError ''Action execution is already terminal'')
      else normalize_execution (p\<lparr>ex_status := status, ex_completedAt := Some now,
        ex_failureCode := given failureCode (ex_failureCode p), ex_resultHash := given resultHash (ex_resultHash p)\<rparr>))"

definition ActionExecution_complete :: "js_date \<Rightarrow> string option \<Rightarrow> action_execution \<Rightarrow> action_execution result" where
  "ActionExecution_complete now resultHash = execution_finish ExCompleted now None resultHash"

definition ActionExecution_fail :: "js_date \<Rightarrow> string \<Rightarrow> action_execution \<Rightarrow> action_execution result" where
  "ActionExecution_fail now failureCode = execution_finish ExFailed now (Some failureCode) None"

definition ActionExecution_markUnknown :: "js_date \<Rightarrow> string \<Rightarrow> action_execution \<Rightarrow> action_execution result" where
  "ActionExecution_markUnknown now failureCode = execution_finish ExUnknown now (Some failureCode) None"


section \<open>The lifecycle of a request\<close>

definition action_terminal :: "action_status \<Rightarrow> bool" where
  "action_terminal s \<longleftrightarrow> s \<in> {AsDenied, AsRejected, AsCompleted, AsFailed, AsExecutionUnknown, AsCancelled, AsExpired}"

fun action_rank :: "action_status \<Rightarrow> nat" where
  "action_rank AsRequested = 0"
| "action_rank AsAuthorized = 1"
| "action_rank AsSimulating = 2"
| "action_rank AsSimulated = 3"
| "action_rank AsApprovalPending = 4"
| "action_rank AsExecuting = 5"
| "action_rank _ = 6"

interpretation action_lc: ranked_lifecycle actionTransitions action_terminal action_rank
proof unfold_locales
  show "action_terminal s \<longleftrightarrow> actionTransitions s = []" for s by (cases s) (simp_all add: action_terminal_def)
  show "t \<in> set (actionTransitions s) \<Longrightarrow> action_rank s < action_rank t" for s t by (cases s) auto
qed

text \<open>The accepted transitions of a request, with the mode and the approval they were asked with.\<close>

type_synonym action_step = "action_status \<times> operation_mode option \<times> bool"

inductive action_history :: "action_step list \<Rightarrow> action_request \<Rightarrow> action_request \<Rightarrow> bool" where
  start: "action_history [] r r"
| step: "action_history steps r q \<Longrightarrow> ActionRequest_transition s now mode approval q = ok q' \<Longrightarrow>
     action_history (steps @ [(s, mode, approval)]) r q'"

lemma action_transition_ok:
  "ActionRequest_transition s now mode approval q = ok q' \<longleftrightarrow>
     s \<in> set (actionTransitions (aq_status q)) \<and> isDecisionStatusCompatible (aq_decision q) s
     \<and> (aq_status q = AsAuthorized \<longrightarrow> valid_from_authorized (aq_decision q) s mode approval)
     \<and> (aq_status q = AsSimulated \<longrightarrow> s = AsApprovalPending \<longrightarrow> aq_decision q = PdAllowWithApproval \<and> approval)
     \<and> (aq_status q = AsApprovalPending \<longrightarrow> valid_from_pending (aq_decision q) s mode approval)
     \<and> date_finite now \<and> \<not> date_lt now (aq_updatedAt q)
     \<and> q' = q\<lparr>aq_status := s, aq_updatedAt := now\<rparr>"
  by (auto simp: ActionRequest_transition_def Let_def)

text \<open>The two ways to an execution: a read that is allowed, or a simulated and approved mutation.\<close>

definition read_path :: "action_step list \<Rightarrow> bool" where
  "read_path steps \<longleftrightarrow> (\<exists>x. steps = [(AsAuthorized, x), (AsExecuting, Some ReadMode, False)])"

definition approved_path :: "action_step list \<Rightarrow> bool" where
  "approved_path steps \<longleftrightarrow> (\<exists>x y z. steps = [(AsAuthorized, x), (AsSimulating, Some MutationMode, True), (AsSimulated, y),
     (AsApprovalPending, z, True), (AsExecuting, Some MutationMode, True)])"

definition execution_path :: "policy_decision_kind \<Rightarrow> action_step list \<Rightarrow> bool" where
  "execution_path decision steps \<longleftrightarrow> decision = PdAllow \<and> read_path steps
     \<or> decision = PdAllowWithApproval \<and> approved_path steps"

definition simulation_path :: "policy_decision_kind \<Rightarrow> action_step list \<Rightarrow> bool" where
  "simulation_path decision steps \<longleftrightarrow> (\<exists>x approval. steps = [(AsAuthorized, x), (AsSimulating, Some MutationMode, approval)]
     \<and> decision = (if approval then PdAllowWithApproval else PdAllowSimulationOnly))"

text \<open>The steps a request in a given status has behind it.\<close>

fun path_to :: "action_status \<Rightarrow> policy_decision_kind \<Rightarrow> action_step list \<Rightarrow> bool" where
  "path_to AsRequested d steps = (steps = [])"
| "path_to AsAuthorized d steps = (d \<noteq> PdDeny \<and> (\<exists>x. steps = [(AsAuthorized, x)]))"
| "path_to AsDenied d steps = (d = PdDeny \<and> (\<exists>x. steps = [(AsDenied, x)]))"
| "path_to AsSimulating d steps = simulation_path d steps"
| "path_to AsSimulated d steps = (\<exists>front x. steps = front @ [(AsSimulated, x)] \<and> simulation_path d front)"
| "path_to AsApprovalPending d steps = (\<exists>x y z. d = PdAllowWithApproval \<and>
     steps = [(AsAuthorized, x), (AsSimulating, Some MutationMode, True), (AsSimulated, y), (AsApprovalPending, z, True)])"
| "path_to AsRejected d steps = (\<exists>x y z. d = PdAllowWithApproval \<and>
     steps = [(AsAuthorized, x), (AsSimulating, Some MutationMode, True), (AsSimulated, y), (AsApprovalPending, z, True),
       (AsRejected, Some MutationMode, True)])"
| "path_to AsExecuting d steps = execution_path d steps"
| "path_to AsCompleted d steps = (\<exists>front x. steps = front @ [(AsCompleted, x)] \<and> execution_path d front)"
| "path_to AsExecutionUnknown d steps = (\<exists>front x. steps = front @ [(AsExecutionUnknown, x)] \<and> execution_path d front)"
| "path_to AsFailed d steps = (\<exists>front x. steps = front @ [(AsFailed, x)] \<and> (execution_path d front \<or> simulation_path d front))"
| "path_to AsCancelled d steps = False"
| "path_to AsExpired d steps = False"

lemma path_step:
  assumes "path_to (aq_status q) (aq_decision q) steps" and "ActionRequest_transition s now mode approval q = ok q'"
  shows "path_to s (aq_decision q) (steps @ [(s, mode, approval)])"
proof (cases "aq_status q")
  case AsApprovalPending
  then show ?thesis using assms
    by (auto simp: action_transition_ok valid_from_pending_def execution_path_def approved_path_def)
next
  case AsAuthorized
  then show ?thesis using assms
    by (auto simp: action_transition_ok valid_from_authorized_def execution_path_def read_path_def simulation_path_def
        split: if_splits)
next
  case AsSimulated
  then show ?thesis using assms by (auto simp: action_transition_ok simulation_path_def split: if_splits)
next
  case AsRequested
  then show ?thesis using assms by (auto simp: action_transition_ok isDecisionStatusCompatible_def split: if_splits)
qed (use assms in \<open>auto simp: action_transition_ok\<close>)

text \<open>Everything of a request but its status and the date of its last change.\<close>

definition same_request :: "action_request \<Rightarrow> action_request \<Rightarrow> bool" where
  "same_request r q \<longleftrightarrow> action_base.truncate q = action_base.truncate r \<and> aq_createdAt q = aq_createdAt r"

lemma same_request_decision: "same_request r q \<Longrightarrow> aq_decision q = aq_decision r"
  unfolding same_request_def action_base.truncate_def by simp

lemma history_path:
  assumes "action_history steps r q" and "aq_status r = AsRequested" and "date_finite (aq_updatedAt r)"
  shows "path_to (aq_status q) (aq_decision q) steps" and "same_request r q"
    and "date_le (aq_updatedAt r) (aq_updatedAt q)"
proof -
  have "path_to (aq_status q) (aq_decision q) steps \<and> same_request r q \<and> date_le (aq_updatedAt r) (aq_updatedAt q)"
    using assms
  proof (induction rule: action_history.induct)
    case (start r)
    then show ?case by (simp add: same_request_def)
  next
    case (step steps r q s now mode approval q')
    have q': "q' = q\<lparr>aq_status := s, aq_updatedAt := now\<rparr>" "date_finite now" "\<not> date_lt now (aq_updatedAt q)"
      using step.hyps(2) unfolding action_transition_ok by blast+
    have ih: "path_to (aq_status q) (aq_decision q) steps" "same_request r q" "date_le (aq_updatedAt r) (aq_updatedAt q)"
      using step by blast+
    have "path_to s (aq_decision q) (steps @ [(s, mode, approval)])" by (rule path_step [OF ih(1) step.hyps(2)])
    moreover have "date_le (aq_updatedAt r) now"
      using ih(3) q'(2,3) by (cases "aq_updatedAt r"; cases "aq_updatedAt q"; cases now) auto
    ultimately show ?case using q'(1) ih(2) by (simp add: same_request_def action_base.defs)
  qed
  then show "path_to (aq_status q) (aq_decision q) steps" "same_request r q" "date_le (aq_updatedAt r) (aq_updatedAt q)"
    by blast+
qed


section \<open>Lemmas: simulations, approvals and executions\<close>

text \<open>A precondition that was accepted is accepted again as it is.\<close>

fun precondition_json :: "file_precondition \<Rightarrow> json" where
  "precondition_json (AbsentFile p) = JObj [(''kind'', JStr ''absent''), (''path'', JStr p)]"
| "precondition_json (PresentFile p h n) = JObj [(''kind'', JStr ''file''), (''path'', JStr p), (''sha256'', JStr h),
     (''size'', JNum (num_value n))]"

lemma json_text_Some [simp]: "json_text x = Some s \<longleftrightarrow> x = Some (JStr s)"
  by (cases x rule: json_text.cases) auto

lemma json_size_Some [simp]:
  "json_size x = Some n \<longleftrightarrow> (\<exists>q. x = Some (JNum q) \<and> n = Num q \<and> isSafeInteger (Num q) \<and> \<not> num_lt (Num q) (Num 0))"
  by (cases x rule: json_size.cases) auto

lemma parse_precondition_ok:
  assumes "parse_precondition c = ok p"
  shows "(\<exists>path. p = AbsentFile path \<and> path \<noteq> [])
    \<or> (\<exists>path h q. p = PresentFile path h (Num q) \<and> path \<noteq> [] \<and> validHash h \<and> isSafeInteger (Num q) \<and> \<not> num_lt (Num q) (Num 0))"
proof -
  obtain es where c: "c = JObj es" using assms by (cases c) (simp_all add: parse_precondition_def)
  obtain path kind where pk: "json_text (map_of es ''path'') = Some path" "json_text (map_of es ''kind'') = Some kind"
    using assms c by (cases "json_text (map_of es ''path'')"; cases "json_text (map_of es ''kind'')")
      (simp_all add: parse_precondition_def)
  note run = assms [unfolded parse_precondition_def c json.case pk option.case prod.case]
  show ?thesis
  proof (cases "kind = ''absent''")
    case True
    then show ?thesis using run by (auto split: if_splits)
  next
    case False
    obtain h n where hn: "json_text (map_of es ''sha256'') = Some h" "json_size (map_of es ''size'') = Some n"
      using run False by (cases "json_text (map_of es ''sha256'')"; cases "json_size (map_of es ''size'')") (simp_all split: if_splits)
    then show ?thesis using run [unfolded hn option.case prod.case] False by (auto split: if_splits)
  qed
qed

lemma parse_precondition_value: "parse_precondition c = ok p \<Longrightarrow> parse_precondition (precondition_json p) = ok p"
  using parse_precondition_ok [of c p] by (auto simp: parse_precondition_def)

lemma parse_preconditions_distinct:
  "parse_preconditions cs seen = ok ps \<Longrightarrow>
     distinct (map precondition_path ps) \<and> set (map precondition_path ps) \<inter> set seen = {}"
proof (induction cs seen arbitrary: ps rule: parse_preconditions.induct)
  case (2 c cs seen)
  then obtain p qs where p: "parse_precondition c = ok p" "precondition_path p \<notin> set seen"
      "parse_preconditions cs (precondition_path p # seen) = ok qs" "ps = p # qs"
    by (auto simp: result_simps split: if_splits)
  then show ?case using 2(1) [OF p(1,2,3)] by auto
qed simp

lemma parse_preconditions_each:
  "parse_preconditions cs seen = ok ps \<Longrightarrow> p \<in> set ps \<Longrightarrow> \<exists>c. parse_precondition c = ok p"
  by (induction cs seen arbitrary: ps rule: parse_preconditions.induct)
    (auto simp: result_simps split: if_splits)

lemma parse_preconditions_value:
  "parse_preconditions cs seen = ok ps \<Longrightarrow> parse_preconditions (map precondition_json ps) seen = ok ps"
proof (induction cs seen arbitrary: ps rule: parse_preconditions.induct)
  case (2 c cs seen)
  then obtain p qs where p: "parse_precondition c = ok p" "precondition_path p \<notin> set seen"
      "parse_preconditions cs (precondition_path p # seen) = ok qs" "ps = p # qs"
    by (auto simp: result_simps split: if_splits)
  then show ?case using 2(1) [OF p(1,2,3)] parse_precondition_value [OF p(1)] by simp
qed simp

text \<open>An approval or an execution that was accepted is accepted again, and is decided or finished once.\<close>

lemma normalize_approval_ok: "normalize_approval p = ok q \<Longrightarrow> q = p"
  by (auto simp: normalize_approval_def split: if_splits option.splits)

lemma normalize_execution_ok: "normalize_execution p = ok q \<Longrightarrow> q = p"
  by (auto simp: normalize_execution_def split: if_splits)

theorem approval_decided_once:
  assumes "approval_decide status actor now p = ok q" and "status \<noteq> ApPending"
  shows "ActionApproval_restore q = ok q \<and> ap_status q = status \<and> ap_decidedAt q = Some now \<and> ap_actor q = Some actor
    \<and> date_le (ap_requestedAt q) now
    \<and> (\<nexists>status' actor' now' q'. approval_decide status' actor' now' q = ok q')"
proof -
  let ?q = "p\<lparr>ap_status := status, ap_decidedAt := Some now, ap_actor := Some actor\<rparr>"
  have n: "normalize_approval ?q = ok q" using assms(1) by (simp add: approval_decide_def split: if_splits)
  have q: "q = ?q" by (rule normalize_approval_ok [OF n])
  have "date_finite now \<and> \<not> date_lt now (ap_requestedAt p) \<and> date_finite (ap_requestedAt p)"
    using n assms(2) by (auto simp: normalize_approval_def split: if_splits)
  then have "date_le (ap_requestedAt p) now" by (cases now; cases "ap_requestedAt p") auto
  then show ?thesis using n q assms(2) by (auto simp: ActionApproval_restore_def approval_decide_def)
qed

theorem execution_finished_once:
  assumes "execution_finish status now code hash p = ok q" and "status \<noteq> ExExecuting"
  shows "ActionExecution_restore q = ok q \<and> ex_status q = status \<and> ex_completedAt q = Some now
    \<and> (ex_status q = ExCompleted \<longleftrightarrow> ex_failureCode q = None)
    \<and> (\<nexists>status' now' code' hash' q'. execution_finish status' now' code' hash' q = ok q')"
proof -
  let ?q = "p\<lparr>ex_status := status, ex_completedAt := Some now, ex_failureCode := given code (ex_failureCode p),
    ex_resultHash := given hash (ex_resultHash p)\<rparr>"
  have n: "normalize_execution ?q = ok q" using assms(1) by (simp add: execution_finish_def split: if_splits)
  have q: "q = ?q" by (rule normalize_execution_ok [OF n])
  have "ex_status q = ExCompleted \<longleftrightarrow> ex_failureCode q = None"
    using n assms(2) unfolding normalize_execution_def q by (auto split: if_splits option.splits)
  then show ?thesis using n q assms(2) by (auto simp: ActionExecution_restore_def execution_finish_def)
qed

text \<open>The preconditions of a simulation name every path once, and normalizing them again keeps them.\<close>

theorem preconditions_once:
  assumes "normalizeFilePreconditions v = ok ps"
  shows "distinct (map precondition_path ps) \<and> normalizeFilePreconditions (preconditions_value ps) = ok ps"
proof -
  obtain j where j: "normalizeCanonicalJson v = ok j" using assms by (auto simp: normalizeFilePreconditions_def result_simps)
  obtain cs where cs: "j = JArr cs" using assms j by (cases j) (auto simp: normalizeFilePreconditions_def)
  have p: "parse_preconditions cs [] = ok ps" using assms j cs by (simp add: normalizeFilePreconditions_def)
  have shape: "\<forall>p \<in> set ps. precondition_value p = embed (precondition_json p) \<and> canonical_json (precondition_json p)"
  proof
    fix p assume "p \<in> set ps"
    then obtain c where "parse_precondition c = ok p" using parse_preconditions_each [OF p] by blast
    from parse_precondition_ok [OF this] show "precondition_value p = embed (precondition_json p) \<and> canonical_json (precondition_json p)"
      by (auto simp: forbiddenObjectKeys_def)
  qed
  have "preconditions_value ps = embed (JArr (map precondition_json ps))"
    using shape by (simp add: preconditions_value_def)
  moreover have "canonical_json (JArr (map precondition_json ps))" using shape by (simp add: list_all_iff)
  ultimately have "normalizeCanonicalJson (preconditions_value ps) = ok (JArr (map precondition_json ps))"
    by (simp only: normalizeCanonicalJson_def normalize_embed)
  then show ?thesis using parse_preconditions_distinct [OF p] parse_preconditions_value [OF p]
    by (simp add: normalizeFilePreconditions_def)
qed

section \<open>Properties\<close>

text \<open>C35. The statuses of a request follow the decision of the policy. A request that starts executing,
  with whatever transitions are tried on it in whatever order, was either allowed outright and is
  executed as a read, directly from the authorization; or it is a mutation whose decision demands
  approval, and it was simulated, simulated successfully, put up for approval and only then
  executed. This is the entity alone: whether the approval was given is a row of its own, and that
  an execution needs it is the claim on the tables and on leases in Action_Safety. A denied request never leaves the
  statuses requested and denied; no request accepts more than six transitions; and nothing of a
  request changes but its status and a date that only grows.\<close>

theorem action_executes_as_authorized:
  assumes "ActionRequest_create i now = ok r" and "action_history steps r q"
  shows "(AsExecuting \<in> fst ` set steps \<longrightarrow> (\<exists>front rest. steps = front @ rest \<and> execution_path (aq_decision i) front))
    \<and> (aq_decision i = PdDeny \<longrightarrow> aq_status q \<in> {AsRequested, AsDenied})
    \<and> length steps \<le> 6 \<and> same_request r q \<and> date_le now (aq_updatedAt q)"
proof -
  have r: "aq_status r = AsRequested" "aq_updatedAt r = now" "date_finite (aq_updatedAt r)" "aq_decision r = aq_decision i"
    using assms(1) by (auto simp: ActionRequest_create_def result_simps split: if_splits)
  note h = history_path [OF assms(2) r(1,3)]
  have d: "aq_decision q = aq_decision i" using same_request_decision [OF h(2)] r(4) by simp
  note path = h(1) [unfolded d]
  have "AsExecuting \<in> fst ` set steps \<longrightarrow> (\<exists>front rest. steps = front @ rest \<and> execution_path (aq_decision i) front)"
  proof (cases "aq_status q")
    case AsExecuting
    then show ?thesis using path by (metis append_Nil2 path_to.simps(8))
  qed (use path in \<open>auto simp: simulation_path_def\<close>)
  moreover have "aq_status q \<in> {AsRequested, AsDenied}" if "aq_decision i = PdDeny"
    using path that by (cases "aq_status q") (auto simp: execution_path_def simulation_path_def split: if_splits)
  moreover have "length steps \<le> 6"
    using path by (cases "aq_status q")
      (auto simp: execution_path_def simulation_path_def read_path_def approved_path_def)
  ultimately show ?thesis using h(2,3) r(2) by simp
qed

definition sample_action :: "policy_decision_kind \<Rightarrow> js_value action_base" where
  "sample_action d = \<lparr>aq_id = ''q1'', aq_projectId = ''p1'', aq_agentId = ''a1'', aq_resourceId = ''r1'', aq_connector = ''fake'',
     aq_connectorVersion = ''1'', aq_operation = ''fake.write'', aq_normalizedArguments = JsObject True False [],
     aq_effectiveConstraints = JsObject True False [], aq_agentRunId = None, aq_payloadHash = ''h'', aq_decision = d,
     aq_riskLevel = RiskHigh, aq_matchedGrantIds = [''g1''], aq_reasons = [], aq_pipelineRunId = None,
     aq_pipelineStageRunId = None\<rparr>"

theorem action_executes_as_authorized_witness:
  "\<exists>r q steps. ActionRequest_create (sample_action PdAllow) (At 1) = ok r \<and> action_history steps r q
     \<and> aq_status q = AsExecuting \<and> map fst steps = [AsAuthorized, AsExecuting] \<and> date_le (At 1) (aq_updatedAt q)"
proof -
  obtain r where r: "ActionRequest_create (sample_action PdAllow) (At 1) = ok r"
      and s: "aq_status r = AsRequested" "aq_decision r = PdAllow" "aq_updatedAt r = At 1"
    by (simp add: ActionRequest_create_def sample_action_def trim_def trimStart_def is_js_space_def js_whitespace_def
        normalizeCanonicalJson_def sort_props_def)
  let ?q1 = "r\<lparr>aq_status := AsAuthorized, aq_updatedAt := At 2\<rparr>" and ?q2 = "r\<lparr>aq_status := AsExecuting, aq_updatedAt := At 3\<rparr>"
  have "ActionRequest_transition AsAuthorized (At 2) None False r = ok ?q1"
    "ActionRequest_transition AsExecuting (At 3) (Some ReadMode) False ?q1 = ok ?q2"
    using s by (simp_all add: action_transition_ok isDecisionStatusCompatible_def valid_from_authorized_def)
  then have h: "action_history (([] @ [(AsAuthorized, None, False)]) @ [(AsExecuting, Some ReadMode, False)]) r ?q2"
    by (intro action_history.step [OF action_history.step [OF action_history.start]])
  then have "date_le (At 1) (aq_updatedAt ?q2)" using action_executes_as_authorized [OF r h] by blast
  then show ?thesis using r h by (intro exI conjI) (assumption | simp)+
qed

end
