(* ===== verification/Capability_Policy.thy ===== *)
theory Capability_Policy
  imports Action_Lifecycle
begin

text \<open>
  The authorization of controlled actions, \<open>packages/domain/src/capability\<close>: the vocabulary of
  \<open>capability.ts\<close>, the decision of \<open>policy-engine.ts\<close> and the constraints of the sample
  connector, \<open>fake-connector-policy.ts\<close>. The registry of connectors and their constraint handlers
  are parameters; the sample connector's handler is one of them. The values of constraints and
  arguments are plain data.
\<close>

section \<open>The model\<close>

subsection \<open>Vocabulary\<close>

datatype resource_type = FilesystemScope | GithubRepository | SqliteDatabase | ShellEnvironment
datatype resource_status = ResourceActive | ResourceDisabled
datatype principal_type = PrincipalUser | PrincipalAgent | PrincipalRole | PrincipalWorkflow | PrincipalApplication

fun resource_type_str :: "resource_type \<Rightarrow> string" where
  "resource_type_str FilesystemScope = ''filesystem_scope''"
| "resource_type_str GithubRepository = ''github_repository''"
| "resource_type_str SqliteDatabase = ''sqlite_database''"
| "resource_type_str ShellEnvironment = ''shell_environment''"

fun risk_str :: "risk_level \<Rightarrow> string" where
  "risk_str RiskLow = ''low''"
| "risk_str RiskMedium = ''medium''"
| "risk_str RiskHigh = ''high''"
| "risk_str RiskCritical = ''critical''"

record resource =
  rc_id :: string
  rc_projectId :: string
  rc_type :: resource_type
  rc_provider :: string
  rc_configuration :: js_value
  rc_status :: resource_status

record capability_grant =
  cg_id :: string
  cg_projectId :: string
  cg_principalType :: principal_type
  cg_principalId :: string
  cg_resourceId :: string
  cg_actions :: "string list"
  cg_constraints :: js_value
  cg_validFrom :: js_date
  cg_expiresAt :: "js_date option"
  cg_revokedAt :: "js_date option"

record policy_input =
  pi_projectId :: string
  pi_agentId :: string
  pi_roleIds :: "string list"
  pi_resource :: resource
  pi_operation :: string
  pi_arguments :: js_value
  pi_grants :: "capability_grant list"

record policy_decision =
  pd_decision :: policy_decision_kind
  pd_riskLevel :: risk_level
  pd_matchedGrantIds :: "string list"
  pd_effectiveConstraints :: js_value
  pd_reasons :: "string list"

record constraint_result =
  cr_ok :: bool
  cr_effectiveConstraints :: js_value
  cr_reasons :: "string list"

text \<open>Operation, arguments, the constraints of the matching grants and the resource's configuration.\<close>

type_synonym constraint_evaluator = "string \<Rightarrow> js_value \<Rightarrow> js_value list \<Rightarrow> js_value \<Rightarrow> constraint_result result"

record operation_descriptor =
  od_operation :: string
  od_mode :: operation_mode
  od_riskLevel :: risk_level
  od_supportsSimulation :: bool
  od_supportsExecution :: bool
  od_requiresApproval :: bool

record connector_descriptor =
  cn_id :: string
  cn_version :: string
  cn_supportedResourceTypes :: "resource_type list"
  cn_operations :: "operation_descriptor list"

record policy_definition =
  df_descriptor :: connector_descriptor
  df_combineAndValidate :: constraint_evaluator

subsection \<open>The policy engine\<close>

definition empty_object :: js_value where
  "empty_object = JsObject True False []"

definition denied :: "string \<Rightarrow> risk_level \<Rightarrow> policy_decision" where
  "denied reason riskLevel = \<lparr>pd_decision = PdDeny, pd_riskLevel = riskLevel, pd_matchedGrantIds = [],
     pd_effectiveConstraints = empty_object, pd_reasons = [reason]\<rparr>"

definition isPrincipalMatch :: "capability_grant \<Rightarrow> policy_input \<Rightarrow> bool" where
  "isPrincipalMatch grant i =
     (if cg_principalType grant = PrincipalAgent then cg_principalId grant = pi_agentId i
      else cg_principalType grant = PrincipalRole \<and> cg_principalId grant \<in> set (pi_roleIds i))"

definition actionMatches :: "string \<Rightarrow> string \<Rightarrow> risk_level \<Rightarrow> bool" where
  "actionMatches action operation risk =
     (if action = operation then True
      else if risk = RiskCritical then False
      else if \<not> endsWith action ''.*'' \<or> CHR ''*'' \<in> set (butlast action) then False
      else startsWith operation (butlast action) \<and> length operation > length action - 1)"

definition grant_matches :: "policy_input \<Rightarrow> js_date \<Rightarrow> risk_level \<Rightarrow> capability_grant \<Rightarrow> bool" where
  "grant_matches i evaluatedAt riskLevel grant =
     (if cg_projectId grant \<noteq> pi_projectId i \<or> cg_resourceId grant \<noteq> rc_id (pi_resource i) then False
      else if \<not> isPrincipalMatch grant i then False
      else if \<not> date_finite (cg_validFrom grant)
          \<or> (case cg_expiresAt grant of None \<Rightarrow> False | Some e \<Rightarrow> \<not> date_finite e) then False
      else if cg_revokedAt grant \<noteq> None \<or> date_lt evaluatedAt (cg_validFrom grant) then False
      else if (case cg_expiresAt grant of None \<Rightarrow> False | Some e \<Rightarrow> date_le e evaluatedAt) then False
      else list_ex (\<lambda>action. actionMatches action (pi_operation i) riskLevel) (cg_actions grant))"

text \<open>
  \<open>registry\<close> is \<open>getPolicyDefinition\<close> and \<open>num_str\<close> prints the numbers of the canonical text, which
  is only built to see that the arguments have one. A handler that throws makes the evaluation
  throw.
\<close>

definition evaluate ::
  "(rat \<Rightarrow> string) \<Rightarrow> (string \<Rightarrow> policy_definition option) \<Rightarrow> policy_input \<Rightarrow> js_date \<Rightarrow> policy_decision result" where
  "evaluate num_str registry i evaluatedAt =
     (if pi_projectId i \<noteq> rc_projectId (pi_resource i)
      then ok (denied ''resource belongs to a different project'' RiskCritical)
      else if rc_status (pi_resource i) = ResourceDisabled then ok (denied ''resource is disabled'' RiskCritical)
      else case registry (rc_provider (pi_resource i)) of
        None \<Rightarrow> ok (denied (''unsupported connector: '' @ rc_provider (pi_resource i)) RiskCritical)
      | Some definition \<Rightarrow>
          let connector = df_descriptor definition in
          if rc_type (pi_resource i) \<notin> set (cn_supportedResourceTypes connector)
          then ok (denied (''resource type '' @ resource_type_str (rc_type (pi_resource i))
            @ '' is not supported by connector '' @ cn_id connector) RiskCritical)
          else (case find (\<lambda>candidate. od_operation candidate = pi_operation i) (cn_operations connector) of
            None \<Rightarrow> ok (denied (''unsupported operation: '' @ pi_operation i) RiskCritical)
          | Some descriptor \<Rightarrow>
              let riskLevel = od_riskLevel descriptor in
              if \<not> date_finite evaluatedAt then ok (denied ''policy evaluation time is invalid'' riskLevel)
              else if isl (canonicalStringify num_str (pi_arguments i))
              then ok (denied ''action arguments are not canonically serializable'' riskLevel)
              else let matching = filter (grant_matches i evaluatedAt riskLevel) (pi_grants i) in
                if length matching = 0 then ok (denied ''no valid grant permits the operation'' riskLevel)
                else bindR (df_combineAndValidate definition (pi_operation i) (pi_arguments i)
                    (map cg_constraints matching) (rc_configuration (pi_resource i))) (\<lambda>constraintResult.
                  let matchedGrantIds = sort (map cg_id matching) in
                  if \<not> cr_ok constraintResult
                  then ok \<lparr>pd_decision = PdDeny, pd_riskLevel = riskLevel, pd_matchedGrantIds = matchedGrantIds,
                    pd_effectiveConstraints = cr_effectiveConstraints constraintResult,
                    pd_reasons = cr_reasons constraintResult\<rparr>
                  else
                    let decision = (if od_requiresApproval descriptor then PdAllowWithApproval
                      else if od_supportsSimulation descriptor \<and> od_mode descriptor = MutationMode
                      then PdAllowSimulationOnly else PdAllow) in
                    ok \<lparr>pd_decision = decision, pd_riskLevel = riskLevel, pd_matchedGrantIds = matchedGrantIds,
                      pd_effectiveConstraints = cr_effectiveConstraints constraintResult,
                      pd_reasons = [''operation risk is '' @ risk_str riskLevel]
                        @ (if decision = PdAllowSimulationOnly then [''simulation is required''] else [])
                        @ (if decision = PdAllowWithApproval then [''approval is required''] else [])\<rparr>)))"

subsection \<open>The constraints of the sample connector\<close>

record fake_constraints =
  fc_allowedTargets :: "string list option"
  fc_deniedTargets :: "string list option"
  fc_maxPayloadBytes :: "js_num option"
  fc_allowMutation :: "bool option"

definition fake_fields :: "string list" where
  "fake_fields = [''allowedTargets'', ''deniedTargets'', ''maxPayloadBytes'', ''allowMutation'']"

text \<open>An array of plain data has no holes.\<close>

fun slot_text :: "js_value slot \<Rightarrow> string option" where
  "slot_text (Data (JsString s)) = (if length s = 0 then None else Some s)"
| "slot_text _ = None"

definition parseStringList :: "js_value \<Rightarrow> string list option" where
  "parseStringList v = (case v of
     JsArray _ _ slots \<Rightarrow>
       if list_ex (\<lambda>s. slot_text s = None) slots then None
       else Some (sort (remdups (map (\<lambda>s. the (slot_text s)) slots)))
   | _ \<Rightarrow> None)"

text \<open>An optional field: absent, or a value that must be accepted.\<close>

definition optional_field :: "(js_value \<Rightarrow> 'a option) \<Rightarrow> js_value \<Rightarrow> 'a option option" where
  "optional_field f v = (if v = JsUndefined then Some None else map_option Some (f v))"

fun byte_count :: "js_value \<Rightarrow> js_num option" where
  "byte_count (JsNumber n) = (if isSafeInteger n \<and> \<not> num_lt n (Num 0) then Some n else None)"
| "byte_count _ = None"

fun js_bool :: "js_value \<Rightarrow> bool option" where
  "js_bool (JsBool b) = Some b"
| "js_bool _ = None"

text \<open>The record with its properties; \<open>Inl\<close> is the error text.\<close>

definition parseConstraint :: "js_value \<Rightarrow> string + fake_constraints" where
  "parseConstraint v =
     (let ps = (case record_props v of None \<Rightarrow> [] | Some ps \<Rightarrow> ps);
          unknown = filter (\<lambda>key. key \<notin> set fake_fields) (map fst ps) in
      if length unknown > 0
      then Inl (''unsupported fake constraint fields: '' @ join '', '' (sort unknown))
      else (case (optional_field parseStringList (prop_of ps ''allowedTargets''),
          optional_field parseStringList (prop_of ps ''deniedTargets'')) of
        (Some allowed, Some deny_list) \<Rightarrow>
          (case optional_field byte_count (prop_of ps ''maxPayloadBytes'') of
             None \<Rightarrow> Inl ''maxPayloadBytes must be a non-negative safe integer''
           | Some maxPayloadBytes \<Rightarrow>
               (case optional_field js_bool (prop_of ps ''allowMutation'') of
                  None \<Rightarrow> Inl ''allowMutation must be boolean''
                | Some allowMutation \<Rightarrow>
                    Inr \<lparr>fc_allowedTargets = allowed, fc_deniedTargets = deny_list,
                      fc_maxPayloadBytes = maxPayloadBytes, fc_allowMutation = allowMutation\<rparr>))
      | _ \<Rightarrow> Inl ''target constraints must be arrays of non-empty strings''))"

definition validateFakeConnectorConstraints :: "js_value \<Rightarrow> fake_constraints result" where
  "validateFakeConnectorConstraints v = (case parseConstraint v of
     Inl e \<Rightarrow> throw (InvalidCapabilityConstraintsError e) | Inr c \<Rightarrow> ok c)"

text \<open>The loop over the constraints, which returns at the first that does not parse.\<close>

fun parse_all :: "js_value list \<Rightarrow> string + fake_constraints list" where
  "parse_all [] = Inr []"
| "parse_all (v # vs) = (case parseConstraint v of Inl e \<Rightarrow> Inl e
     | Inr c \<Rightarrow> (case parse_all vs of Inl e \<Rightarrow> Inl e | Inr cs \<Rightarrow> Inr (c # cs)))"

definition present :: "('a \<Rightarrow> 'b option) \<Rightarrow> 'a list \<Rightarrow> 'b list" where
  "present f xs = map the (filter (\<lambda>x. x \<noteq> None) (map f xs))"

definition combined_allowed :: "fake_constraints list \<Rightarrow> string list option" where
  "combined_allowed cs = (case present fc_allowedTargets cs of
     [] \<Rightarrow> None
   | first # rest \<Rightarrow> Some (sort (foldl (\<lambda>intersection list. filter (\<lambda>target. target \<in> set list) intersection) first rest)))"

definition combined_denied :: "fake_constraints list \<Rightarrow> string list" where
  "combined_denied cs = sort (remdups (concat (present fc_deniedTargets cs)))"

text \<open>\<open>Math.min\<close>: the negative zero is below zero.\<close>

definition num_min :: "js_num \<Rightarrow> js_num \<Rightarrow> js_num" where
  "num_min a b = (if num_lt a b \<or> a = NegZero then a else if num_lt b a \<or> b = NegZero then b else a)"

definition combined_maximum :: "fake_constraints list \<Rightarrow> js_num option" where
  "combined_maximum cs = (case present fc_maxPayloadBytes cs of [] \<Rightarrow> None | n # ns \<Rightarrow> Some (foldl num_min n ns))"

definition combined_mutation :: "fake_constraints list \<Rightarrow> bool" where
  "combined_mutation cs = list_all (\<lambda>c. fc_allowMutation c = Some True) cs"

definition text_list :: "string list \<Rightarrow> js_value" where
  "text_list ss = JsArray False [] (map (\<lambda>s. Data (JsString s)) ss)"

definition effective_constraints :: "fake_constraints list \<Rightarrow> js_value" where
  "effective_constraints cs = JsObject True False
     ((case combined_allowed cs of None \<Rightarrow> [] | Some ts \<Rightarrow> [(''allowedTargets'', Data (text_list ts))])
      @ [(''deniedTargets'', Data (text_list (combined_denied cs)))]
      @ (case combined_maximum cs of None \<Rightarrow> [] | Some n \<Rightarrow> [(''maxPayloadBytes'', Data (JsNumber n))])
      @ [(''allowMutation'', Data (JsBool (combined_mutation cs)))])"

definition target_reasons :: "string list option \<Rightarrow> string list \<Rightarrow> js_value \<Rightarrow> string list" where
  "target_reasons allowed denied_targets target =
     (if (allowed \<noteq> None \<or> length denied_targets > 0) \<and> text_of target = None
      then [''fake constraints require a string target argument''] else [])
     @ (case text_of target of None \<Rightarrow> []
        | Some t \<Rightarrow>
            (case allowed of None \<Rightarrow> [] | Some ts \<Rightarrow> if t \<notin> set ts then [''target '' @ t @ '' is not allowed''] else [])
            @ (if t \<in> set denied_targets then [''target '' @ t @ '' is denied''] else []))"

definition size_reasons :: "(rat \<Rightarrow> string) \<Rightarrow> js_num option \<Rightarrow> js_value \<Rightarrow> string list result" where
  "size_reasons num_str maximum arguments = (case maximum of
     None \<Rightarrow> ok []
   | Some n \<Rightarrow> bindR (canonicalStringify num_str arguments) (\<lambda>s.
       let bytes = utf8_length s in
       ok (if num_lt n (of_int_num (int bytes))
         then [''canonical arguments exceed maxPayloadBytes ('' @ nat_str bytes @ '' > ''
           @ num_str (num_value n) @ '')''] else [])))"

definition combineAndValidate :: "(rat \<Rightarrow> string) \<Rightarrow> constraint_evaluator" where
  "combineAndValidate num_str operation arguments values resourceConfiguration =
     (case parse_all values of
        Inl e \<Rightarrow> ok \<lparr>cr_ok = False, cr_effectiveConstraints = empty_object, cr_reasons = [e]\<rparr>
      | Inr parsed \<Rightarrow>
          let target = (case record_props arguments of None \<Rightarrow> JsUndefined | Some ps \<Rightarrow> prop_of ps ''target'');
              reasons = target_reasons (combined_allowed parsed) (combined_denied parsed) target
                @ (if operation \<noteq> ''fake.read'' \<and> \<not> combined_mutation parsed
                   then [''mutation is not allowed by the effective constraints''] else []) in
          bindR (size_reasons num_str (combined_maximum parsed) arguments) (\<lambda>more.
            ok \<lparr>cr_ok = (length (reasons @ more) = 0), cr_effectiveConstraints = effective_constraints parsed,
              cr_reasons = reasons @ more\<rparr>))"


section \<open>Lemmas: combined constraints\<close>

lemma parse_all_ok: "parse_all vs = Inr cs \<longleftrightarrow> list_all2 (\<lambda>v c. parseConstraint v = Inr c) vs cs"
proof (induction vs arbitrary: cs)
  case (Cons v vs)
  then show ?case by (cases "parseConstraint v"; cases "parse_all vs") (auto simp: list_all2_Cons1)
qed auto

lemma set_present: "set (present f xs) = {y. \<exists>x \<in> set xs. f x = Some y}"
  by (force simp: present_def image_iff)

lemma present_Nil: "present f xs = [] \<longleftrightarrow> (\<forall>x \<in> set xs. f x = None)"
  by (auto simp: present_def filter_empty_conv)

lemma set_intersections: "set (foldl (\<lambda>acc list. filter (\<lambda>x. x \<in> set list) acc) first rest) = set first \<inter> (\<Inter>l \<in> set rest. set l)"
  by (induction rest arbitrary: first) auto

lemma combined_allowed_None: "combined_allowed cs = None \<longleftrightarrow> (\<forall>c \<in> set cs. fc_allowedTargets c = None)"
  using present_Nil [of fc_allowedTargets cs] by (auto simp: combined_allowed_def split: list.splits)

lemma combined_allowed_Some:
  "combined_allowed cs = Some ts \<Longrightarrow> t \<in> set ts \<longleftrightarrow> (\<forall>c \<in> set cs. \<forall>as. fc_allowedTargets c = Some as \<longrightarrow> t \<in> set as)"
proof -
  assume c: "combined_allowed cs = Some ts"
  then obtain first rest where fr: "present fc_allowedTargets cs = first # rest" by (auto simp: combined_allowed_def split: list.splits)
  then have "set ts = (\<Inter>l \<in> set (present fc_allowedTargets cs). set l)" using c by (auto simp: combined_allowed_def set_intersections)
  then show ?thesis by (auto simp: set_present)
qed

lemma set_combined_denied: "set (combined_denied cs) = (\<Union>c \<in> set cs. case fc_deniedTargets c of None \<Rightarrow> {} | Some ds \<Rightarrow> set ds)"
  by (force simp: combined_denied_def set_present split: option.splits)

text \<open>What one constraint asks of the target.\<close>

definition target_ok :: "string option \<Rightarrow> fake_constraints \<Rightarrow> bool" where
  "target_ok t c \<longleftrightarrow> (\<forall>as. fc_allowedTargets c = Some as \<longrightarrow> (\<exists>s. t = Some s \<and> s \<in> set as))
     \<and> (\<forall>ds. fc_deniedTargets c = Some ds \<longrightarrow> ds \<noteq> [] \<longrightarrow> (\<exists>s. t = Some s \<and> s \<notin> set ds))"

lemma target_reasons_Nil:
  "target_reasons (combined_allowed cs) (combined_denied cs) v = [] \<longleftrightarrow> (\<forall>c \<in> set cs. target_ok (text_of v) c)"
proof (cases "text_of v")
  case None
  have "target_reasons (combined_allowed cs) (combined_denied cs) v = [] \<longleftrightarrow>
      combined_allowed cs = None \<and> set (combined_denied cs) = {}"
    using None by (auto simp: target_reasons_def)
  then show ?thesis using None unfolding combined_allowed_None set_combined_denied
    by (fastforce simp: target_ok_def split: option.splits)
next
  case (Some s)
  have "target_reasons (combined_allowed cs) (combined_denied cs) v = [] \<longleftrightarrow>
      (\<forall>ts. combined_allowed cs = Some ts \<longrightarrow> s \<in> set ts) \<and> s \<notin> set (combined_denied cs)"
    using Some by (auto simp: target_reasons_def split: option.splits)
  moreover have "(\<forall>ts. combined_allowed cs = Some ts \<longrightarrow> s \<in> set ts) \<longleftrightarrow>
      (\<forall>c \<in> set cs. \<forall>as. fc_allowedTargets c = Some as \<longrightarrow> s \<in> set as)"
    using combined_allowed_None [of cs] combined_allowed_Some [of cs _ s] by (cases "combined_allowed cs") auto
  moreover have "s \<notin> set (combined_denied cs) \<longleftrightarrow>
      (\<forall>c \<in> set cs. \<forall>ds. fc_deniedTargets c = Some ds \<longrightarrow> s \<notin> set ds)"
    unfolding set_combined_denied by (auto split: option.splits)
  ultimately show ?thesis using Some by (fastforce simp: target_ok_def)
qed

lemma num_lt_finite: "isFinite a \<Longrightarrow> isFinite b \<Longrightarrow> num_lt a b \<longleftrightarrow> num_value a < num_value b"
  by (cases a; cases b) auto

lemma num_min_finite: "isFinite a \<Longrightarrow> isFinite b \<Longrightarrow> isFinite (num_min a b) \<and> (num_value (num_min a b) = min (num_value a) (num_value b))
   \<or> \<not> (0 \<le> num_value a \<and> 0 \<le> num_value b)"
  by (cases a; cases b) (auto simp: num_min_def num_lt_finite)

lemma fold_min_less:
  "\<forall>n \<in> set (a # ns). isFinite n \<and> 0 \<le> num_value n \<Longrightarrow> isFinite x \<Longrightarrow>
     num_lt (foldl num_min a ns) x \<longleftrightarrow> (\<exists>n \<in> set (a # ns). num_lt n x)"
proof (induction ns arbitrary: a)
  case (Cons b ns)
  have m: "isFinite (num_min a b)" "num_value (num_min a b) = min (num_value a) (num_value b)"
    using num_min_finite [of a b] Cons.prems(1) by auto
  have "num_lt (foldl num_min (num_min a b) ns) x \<longleftrightarrow> (\<exists>n \<in> set (num_min a b # ns). num_lt n x)"
    by (rule Cons.IH) (use Cons.prems m in auto)
  moreover have "num_lt (num_min a b) x \<longleftrightarrow> num_lt a x \<or> num_lt b x"
    using m Cons.prems by (auto simp: num_lt_finite)
  ultimately show ?case by auto
qed simp

lemma parseConstraint_maximum:
  assumes "parseConstraint v = Inr c" and "fc_maxPayloadBytes c = Some n"
  shows "isFinite n \<and> 0 \<le> num_value n"
proof -
  have "optional_field byte_count w = Some (Some n) \<Longrightarrow> isFinite n \<and> 0 \<le> num_value n" for w
    by (cases w; cases n) (auto simp: optional_field_def isSafeInteger_def split: if_splits)
  then show ?thesis using assms by (auto simp: parseConstraint_def Let_def split: option.splits if_splits)
qed

text \<open>What one constraint asks of the size.\<close>

definition size_ok :: "nat \<Rightarrow> fake_constraints \<Rightarrow> bool" where
  "size_ok bytes c \<longleftrightarrow> (\<forall>n. fc_maxPayloadBytes c = Some n \<longrightarrow> \<not> num_lt n (of_int_num (int bytes)))"

lemma parsed_each: "list_all2 (\<lambda>v c. parseConstraint v = Inr c) vs cs \<Longrightarrow> c \<in> set cs \<Longrightarrow> \<exists>v \<in> set vs. parseConstraint v = Inr c"
  by (induction rule: list_all2_induct) auto

lemma size_reasons_Nil:
  assumes "list_all2 (\<lambda>v c. parseConstraint v = Inr c) vs cs" and "canonicalStringify num_str arguments = ok s"
  shows "\<exists>more. size_reasons num_str (combined_maximum cs) arguments = ok more
    \<and> (more = [] \<longleftrightarrow> (\<forall>c \<in> set cs. size_ok (utf8_length s) c))"
proof -
  have fin: "\<forall>n \<in> set (present fc_maxPayloadBytes cs). isFinite n \<and> 0 \<le> num_value n"
  proof
    fix n assume "n \<in> set (present fc_maxPayloadBytes cs)"
    then obtain c where c: "c \<in> set cs" "fc_maxPayloadBytes c = Some n" by (auto simp: set_present)
    then obtain v where "parseConstraint v = Inr c" using parsed_each [OF assms(1)] by blast
    then show "isFinite n \<and> 0 \<le> num_value n" using parseConstraint_maximum c(2) by blast
  qed
  have ok_iff: "(\<forall>c \<in> set cs. size_ok (utf8_length s) c) \<longleftrightarrow>
      (\<forall>n \<in> set (present fc_maxPayloadBytes cs). \<not> num_lt n (of_int_num (int (utf8_length s))))"
    by (auto simp: size_ok_def set_present)
  show ?thesis
  proof (cases "present fc_maxPayloadBytes cs")
    case Nil
    then show ?thesis using ok_iff by (simp add: size_reasons_def combined_maximum_def)
  next
    case (Cons n ns)
    have "isFinite (of_int_num (int (utf8_length s)))" by (simp add: of_int_num_def)
    note l = fold_min_less [OF fin [unfolded Cons] this]
    show ?thesis unfolding ok_iff using Cons l assms(2)
      by (simp add: size_reasons_def combined_maximum_def Let_def)
  qed
qed


text \<open>The result of the handler on constraints that parse.\<close>

definition constraint_met :: "string \<Rightarrow> string option \<Rightarrow> nat \<Rightarrow> fake_constraints \<Rightarrow> bool" where
  "constraint_met operation target bytes c \<longleftrightarrow> target_ok target c \<and> size_ok bytes c
     \<and> (operation = ''fake.read'' \<or> fc_allowMutation c = Some True)"

definition argument_target :: "js_value \<Rightarrow> string option" where
  "argument_target arguments = text_of (case record_props arguments of None \<Rightarrow> JsUndefined | Some ps \<Rightarrow> prop_of ps ''target'')"

lemma combine_met:
  assumes "canonicalStringify num_str arguments = ok s"
  shows "\<exists>r. combineAndValidate num_str operation arguments vs conf = ok r
    \<and> (cr_ok r \<longleftrightarrow> (\<forall>v \<in> set vs. \<exists>c. parseConstraint v = Inr c
        \<and> constraint_met operation (argument_target arguments) (utf8_length s) c))"
proof (cases "parse_all vs")
  case (Inl e)
  then have "\<exists>v \<in> set vs. isl (parseConstraint v)"
    by (induction vs) (auto split: sum.splits)
  then have "\<not> (\<forall>v \<in> set vs. \<exists>c. parseConstraint v = Inr c \<and> constraint_met operation (argument_target arguments) (utf8_length s) c)"
    by (metis isl_def Inr_Inl_False)
  then show ?thesis using Inl by (simp add: combineAndValidate_def)
next
  case (Inr cs)
  then have cs: "list_all2 (\<lambda>v c. parseConstraint v = Inr c) vs cs" by (simp add: parse_all_ok)
  obtain more where more: "size_reasons num_str (combined_maximum cs) arguments = ok more"
      "more = [] \<longleftrightarrow> (\<forall>c \<in> set cs. size_ok (utf8_length s) c)"
    using size_reasons_Nil [OF cs assms] by blast
  let ?target = "case record_props arguments of None \<Rightarrow> JsUndefined | Some ps \<Rightarrow> prop_of ps ''target''"
  have "(\<forall>v \<in> set vs. \<exists>c. parseConstraint v = Inr c \<and> constraint_met operation (argument_target arguments) (utf8_length s) c)
      \<longleftrightarrow> (\<forall>c \<in> set cs. constraint_met operation (argument_target arguments) (utf8_length s) c)"
    using cs by (induction rule: list_all2_induct) auto
  also have "\<dots> \<longleftrightarrow> target_reasons (combined_allowed cs) (combined_denied cs) ?target = [] \<and> more = []
      \<and> (operation = ''fake.read'' \<or> combined_mutation cs)"
    unfolding target_reasons_Nil more(2) by (auto simp: constraint_met_def argument_target_def combined_mutation_def list_all_iff)
  finally show ?thesis using Inr more(1) by (simp add: combineAndValidate_def Let_def)
qed


section \<open>Properties\<close>

text \<open>What a grant has to say, in terms of its fields.\<close>

definition granted_by :: "policy_input \<Rightarrow> int \<Rightarrow> risk_level \<Rightarrow> capability_grant \<Rightarrow> bool" where
  "granted_by i t risk g \<longleftrightarrow> cg_projectId g = pi_projectId i \<and> cg_resourceId g = rc_id (pi_resource i)
     \<and> (cg_principalType g = PrincipalAgent \<and> cg_principalId g = pi_agentId i
        \<or> cg_principalType g = PrincipalRole \<and> cg_principalId g \<in> set (pi_roleIds i))
     \<and> (\<exists>f. cg_validFrom g = At f \<and> f \<le> t) \<and> cg_revokedAt g = None
     \<and> (cg_expiresAt g = None \<or> (\<exists>e. cg_expiresAt g = Some (At e) \<and> t < e))
     \<and> (\<exists>a \<in> set (cg_actions g). a = pi_operation i
        \<or> risk \<noteq> RiskCritical \<and> (\<exists>prefix rest. a = prefix @ ''.*'' \<and> CHR ''*'' \<notin> set prefix
            \<and> pi_operation i = prefix @ ''.'' @ rest \<and> rest \<noteq> []))"

lemma startsWith_append: "startsWith s p \<longleftrightarrow> (\<exists>rest. s = p @ rest)"
  unfolding startsWith_def by (metis append_eq_conv_conj)

lemma actionMatches_iff:
  "actionMatches a operation risk \<longleftrightarrow> a = operation \<or> risk \<noteq> RiskCritical \<and> (\<exists>prefix rest. a = prefix @ ''.*''
     \<and> CHR ''*'' \<notin> set prefix \<and> operation = prefix @ ''.'' @ rest \<and> rest \<noteq> [])"
proof (cases "endsWith a ''.*''")
  case True
  then obtain prefix where a: "a = prefix @ ''.*''"
    unfolding endsWith_def startsWith_append by (metis append_Cons append_Nil rev.simps rev_append rev_rev_ident)
  have "butlast a = prefix @ ''.''" using a by (simp add: butlast_append)
  moreover have "length a - 1 = length (prefix @ ''.'')" using a by simp
  ultimately show ?thesis using a True unfolding actionMatches_def startsWith_append by auto
next
  case False
  then have "a \<noteq> prefix @ ''.*''" for prefix unfolding endsWith_def startsWith_append by auto (metis rev_rev_ident)
  then show ?thesis using False by (simp add: actionMatches_def)
qed

lemma grant_matches_iff: "grant_matches i (At t) risk g \<longleftrightarrow> granted_by i t risk g"
  unfolding grant_matches_def granted_by_def isPrincipalMatch_def list_ex_iff actionMatches_iff
  by (cases "cg_validFrom g"; cases "cg_expiresAt g"; cases "the (cg_expiresAt g)") auto

text \<open>Once the operation is known to be supported, the matching grants and their constraints decide.\<close>

lemma evaluate_supported:
  assumes "pi_projectId i = rc_projectId (pi_resource i) \<and> rc_status (pi_resource i) \<noteq> ResourceDisabled"
    and "registry (rc_provider (pi_resource i)) = Some dfn"
    and "rc_type (pi_resource i) \<in> set (cn_supportedResourceTypes (df_descriptor dfn))"
    and "find (\<lambda>o'. od_operation o' = pi_operation i) (cn_operations (df_descriptor dfn)) = Some operation"
    and "canonicalStringify num_str (pi_arguments i) = ok s"
  shows "(\<exists>d. evaluate num_str registry i (At t) = ok d \<and> pd_decision d \<noteq> PdDeny) \<longleftrightarrow>
     (\<exists>g \<in> set (pi_grants i). granted_by i t (od_riskLevel operation) g)
     \<and> (\<exists>r. df_combineAndValidate dfn (pi_operation i) (pi_arguments i)
            (map cg_constraints (filter (granted_by i t (od_riskLevel operation)) (pi_grants i)))
            (rc_configuration (pi_resource i)) = ok r \<and> cr_ok r)"
proof -
  let ?grants = "filter (granted_by i t (od_riskLevel operation)) (pi_grants i)"
  let ?combine = "df_combineAndValidate dfn (pi_operation i) (pi_arguments i) (map cg_constraints ?grants)
      (rc_configuration (pi_resource i))"
  have matching: "filter (grant_matches i (At t) (od_riskLevel operation)) (pi_grants i) = ?grants"
    by (rule filter_cong) (simp_all add: grant_matches_iff)
  show ?thesis
  proof (cases "?grants = []")
    case True
    then have "\<not> (\<exists>d. evaluate num_str registry i (At t) = ok d \<and> pd_decision d \<noteq> PdDeny)"
      using assms by (simp add: evaluate_def denied_def Let_def matching)
    then show ?thesis using True by (auto simp: filter_empty_conv)
  next
    case False
    then have "\<exists>g \<in> set (pi_grants i). granted_by i t (od_riskLevel operation) g" by (auto simp: filter_empty_conv)
    moreover have "(\<exists>d. evaluate num_str registry i (At t) = ok d \<and> pd_decision d \<noteq> PdDeny) \<longleftrightarrow> (\<exists>r. ?combine = ok r \<and> cr_ok r)"
      using assms False by (cases ?combine) (simp_all add: evaluate_def denied_def Let_def matching)
    ultimately show ?thesis by blast
  qed
qed

text \<open>C36. Deny by default. The engine lets an operation pass, with or without conditions, exactly when the
  resource belongs to the project and is enabled, its connector supports its type and the
  operation, the time is valid, the arguments have a canonical form, at least one grant of the
  project on this resource, held by the agent or one of its roles, in force at that time and not
  revoked, names the operation (literally when the risk is critical), and the constraints of all
  these grants together accept the arguments.\<close>

theorem policy_denies_by_default:
  "(\<exists>d. evaluate num_str registry i now = ok d \<and> pd_decision d \<noteq> PdDeny) \<longleftrightarrow>
     rc_projectId (pi_resource i) = pi_projectId i \<and> rc_status (pi_resource i) \<noteq> ResourceDisabled
     \<and> (\<exists>definition operation t s r. registry (rc_provider (pi_resource i)) = Some definition
        \<and> rc_type (pi_resource i) \<in> set (cn_supportedResourceTypes (df_descriptor definition))
        \<and> find (\<lambda>o'. od_operation o' = pi_operation i) (cn_operations (df_descriptor definition)) = Some operation
        \<and> now = At t \<and> canonicalStringify num_str (pi_arguments i) = ok s
        \<and> (\<exists>g \<in> set (pi_grants i). granted_by i t (od_riskLevel operation) g)
        \<and> df_combineAndValidate definition (pi_operation i) (pi_arguments i)
            (map cg_constraints (filter (granted_by i t (od_riskLevel operation)) (pi_grants i)))
            (rc_configuration (pi_resource i)) = ok r \<and> cr_ok r)" (is "?pass \<longleftrightarrow> ?conditions")
proof (cases "pi_projectId i = rc_projectId (pi_resource i) \<and> rc_status (pi_resource i) \<noteq> ResourceDisabled")
  case False
  then show ?thesis by (auto simp: evaluate_def denied_def)
next
  case here: True
  show ?thesis
  proof (cases "registry (rc_provider (pi_resource i))")
    case None
    then show ?thesis using here by (simp add: evaluate_def denied_def)
  next
    case def: (Some dfn)
    let ?find = "find (\<lambda>o'. od_operation o' = pi_operation i) (cn_operations (df_descriptor dfn))"
    show ?thesis
    proof (cases "rc_type (pi_resource i) \<in> set (cn_supportedResourceTypes (df_descriptor dfn)) \<and> ?find \<noteq> None
        \<and> date_finite now \<and> \<not> isl (canonicalStringify num_str (pi_arguments i))")
      case False
      then have "\<not> ?conditions" using def by (auto simp: isl_def)
      moreover have "\<not> ?pass" using False here def
        by (cases ?find) (auto simp: evaluate_def denied_def Let_def)
      ultimately show ?thesis by blast
    next
      case supported: True
      then obtain operation t s where f: "?find = Some operation" "now = At t" "canonicalStringify num_str (pi_arguments i) = ok s"
        by (cases now; cases "canonicalStringify num_str (pi_arguments i)") auto
      note decides = evaluate_supported [of i registry dfn operation num_str s t, OF here def conjunct1 [OF supported] f(1,3)]
      show ?thesis unfolding f(2) decides using here def f supported by auto
    qed
  qed
qed

definition sample_arguments :: js_value where
  "sample_arguments = JsObject True False [(''target'', Data (JsString ''doc''))]"

lemma sample_arguments_text: "\<exists>s. canonicalStringify num_str sample_arguments = ok s"
  by (simp add: sample_arguments_def canonicalStringify_def normalizeCanonicalJson_def sort_props_def forbiddenObjectKeys_def)

definition sample_grant :: "string list \<Rightarrow> js_value \<Rightarrow> capability_grant" where
  "sample_grant actions constraints = \<lparr>cg_id = ''g1'', cg_projectId = ''p1'', cg_principalType = PrincipalRole,
     cg_principalId = ''writer'', cg_resourceId = ''r1'', cg_actions = actions, cg_constraints = constraints,
     cg_validFrom = At 1, cg_expiresAt = Some (At 9), cg_revokedAt = None\<rparr>"

definition sample_policy_input :: policy_input where
  "sample_policy_input = \<lparr>pi_projectId = ''p1'', pi_agentId = ''a1'', pi_roleIds = [''writer''],
     pi_resource = \<lparr>rc_id = ''r1'', rc_projectId = ''p1'', rc_type = FilesystemScope, rc_provider = ''fake'',
       rc_configuration = empty_object, rc_status = ResourceActive\<rparr>,
     pi_operation = ''fake.read'', pi_arguments = sample_arguments, pi_grants = [sample_grant [''fake.*''] empty_object]\<rparr>"

definition sample_registry :: "string \<Rightarrow> policy_definition option" where
  "sample_registry provider = (if provider = ''fake''
     then Some \<lparr>df_descriptor = \<lparr>cn_id = ''fake'', cn_version = ''1'', cn_supportedResourceTypes = [FilesystemScope],
       cn_operations = [\<lparr>od_operation = ''fake.read'', od_mode = ReadMode, od_riskLevel = RiskLow,
         od_supportsSimulation = False, od_supportsExecution = True, od_requiresApproval = False\<rparr>]\<rparr>,
       df_combineAndValidate = combineAndValidate unary_num\<rparr> else None)"

lemmas policy_samples = sample_policy_input_def sample_registry_def sample_grant_def empty_object_def

lemma sample_combine: "\<exists>r. combineAndValidate num_str ''fake.read'' sample_arguments [empty_object] conf = ok r \<and> cr_ok r"
proof -
  obtain s where s: "canonicalStringify num_str sample_arguments = ok s" using sample_arguments_text by blast
  have "\<exists>c. parseConstraint empty_object = Inr c \<and> constraint_met ''fake.read'' t n c" for t n
    by (simp add: parseConstraint_def empty_object_def record_props_def prop_of_def optional_field_def Let_def
        constraint_met_def target_ok_def size_ok_def)
  then show ?thesis using combine_met [OF s, of "''fake.read''" "[empty_object]" conf] by force
qed

theorem policy_denies_by_default_witness:
  "\<exists>d. evaluate unary_num sample_registry sample_policy_input (At 5) = ok d \<and> pd_decision d \<noteq> PdDeny"
proof -
  obtain s where s: "canonicalStringify unary_num sample_arguments = ok s" using sample_arguments_text by blast
  obtain r where r: "combineAndValidate unary_num ''fake.read'' sample_arguments [empty_object] empty_object = ok r" "cr_ok r"
    using sample_combine by blast
  have "''fake.*'' = ''fake'' @ ''.*'' \<and> CHR ''*'' \<notin> set ''fake'' \<and> ''fake.read'' = ''fake'' @ ''.'' @ ''read'' \<and> ''read'' \<noteq> []" by simp
  then have "granted_by sample_policy_input 5 RiskLow (sample_grant [''fake.*''] empty_object)"
    unfolding granted_by_def by (simp add: policy_samples)
  then show ?thesis unfolding policy_denies_by_default using s r
    by (simp add: sample_policy_input_def sample_registry_def sample_grant_def)
qed

text \<open>Constraints only restrict. The sample connector accepts the constraints of several grants
  together exactly when it accepts each of them alone: no grant widens what another one leaves.\<close>

theorem fake_constraints_conjunctive:
  assumes "canonicalStringify num_str arguments = ok s"
  shows "(\<exists>r. combineAndValidate num_str operation arguments values conf = ok r \<and> cr_ok r)
    \<longleftrightarrow> (\<forall>v \<in> set values. \<exists>r. combineAndValidate num_str operation arguments [v] conf = ok r \<and> cr_ok r)"
proof -
  let ?met = "\<lambda>v. \<exists>c. parseConstraint v = Inr c \<and> constraint_met operation (argument_target arguments) (utf8_length s) c"
  have "(\<exists>r. combineAndValidate num_str operation arguments vs conf = ok r \<and> cr_ok r) \<longleftrightarrow> (\<forall>v \<in> set vs. ?met v)" for vs
    using combine_met [OF assms, of operation vs conf] by fastforce
  then show ?thesis by auto
qed

theorem fake_constraints_conjunctive_witness:
  "\<exists>r. combineAndValidate unary_num ''fake.read'' sample_arguments [empty_object, empty_object] empty_object = ok r \<and> cr_ok r"
proof -
  obtain s where s: "canonicalStringify unary_num sample_arguments = ok s" using sample_arguments_text by blast
  show ?thesis using fake_constraints_conjunctive [OF s, of "''fake.read''" "[empty_object, empty_object]" empty_object]
      sample_combine [of unary_num empty_object] by auto
qed

end
