(* ===== verification/Connector_Registry.thy ===== *)
theory Connector_Registry
  imports Capability_Policy
begin

text \<open>
  Connectors, \<open>packages/connector-sdk/src\<close>: what a connector provides (\<open>connector.ts\<close>) and the
  registry that accepts or refuses connectors and answers lookups (\<open>connector-registry.ts\<close>). The
  asynchronous callbacks of a connector are commands on the world \<open>'w\<close>: while one runs, other
  services may run. Connectors return plain JSON data.
\<close>

section \<open>The model\<close>

record resource_scope =
  sc_id :: string
  sc_type :: resource_type
  sc_provider :: string
  sc_externalRef :: "string option"
  sc_configuration :: js_value

record connector_invocation =
  iv_resource :: resource_scope
  iv_operation :: string
  iv_arguments :: json
  iv_effectiveConstraints :: json

record connector_precondition =
  kp_absent :: bool
  kp_path :: string
  kp_sha256 :: "string option"
  kp_size :: "js_num option"

record read_audit =
  ra_relativePath :: "string option"
  ra_byteLength :: "rat option"
  ra_resultCount :: "rat option"
  ra_contentSha256 :: "string option"
  ra_truncated :: "bool option"

datatype invocation_result =
    ReadResult json read_audit
  | SimulationResult string "connector_precondition list"

datatype mutation_certainty = DefiniteNoMutation | MutationMayHaveOccurred

record mutation_result =
  mr_resultHash :: "string option"
  mr_relativePath :: "string option"
  mr_destinationPath :: "string option"
  mr_byteLength :: "rat option"

text \<open>
  A mutation returns, throws a \<open>ConnectorMutationExecutionError\<close> with its code and certainty, or
  throws something else.
\<close>

datatype mutation_outcome =
    MutationReturned mutation_result
  | MutationFailed string mutation_certainty
  | MutationThrew

record 'w connector_definition = policy_definition +
  df_handlerConnector :: string
  df_normalizeArguments :: "string \<Rightarrow> json \<Rightarrow> json result"
  df_normalizeConstraints :: "json \<Rightarrow> json result"
  df_prepareResource :: "resource_type \<Rightarrow> string option \<Rightarrow> json \<Rightarrow> ('w, string option \<times> json) command"
  df_invoke :: "(connector_invocation \<Rightarrow> 'w \<Rightarrow> (string + invocation_result) \<times> 'w) option"
  df_executeMutation :: "(connector_invocation \<Rightarrow> file_precondition list \<Rightarrow> 'w \<Rightarrow> mutation_outcome \<times> 'w) option"

subsection \<open>Accepting a connector\<close>

definition registry_error :: "string \<Rightarrow> error" where
  "registry_error s = ActionError (ConnectorRegistryError s)"

definition registry_required :: "string \<Rightarrow> string \<Rightarrow> string result" where
  "registry_required value field =
     (let normalized = trim value in
      if length normalized = 0 then throw (registry_error (field @ '' cannot be empty''))
      else if normalized \<noteq> value then throw (registry_error (field @ '' must be canonical''))
      else ok normalized)"

definition freezeOperation :: "operation_descriptor \<Rightarrow> operation_descriptor result" where
  "freezeOperation operation =
     bindR (registry_required (od_operation operation) ''connector operation'') (\<lambda>name.
       ok (operation\<lparr>od_operation := name\<rparr>))"

text \<open>The loop over the sorted operations; \<open>seen\<close> are the names passed.\<close>

fun check_operations :: "string \<Rightarrow> operation_descriptor list \<Rightarrow> string list \<Rightarrow> unit result" where
  "check_operations i [] seen = ok ()"
| "check_operations i (operation # rest) seen =
     (let name = od_operation operation in
      if name \<in> set seen then throw (registry_error (''Duplicate connector operation: '' @ name))
      else if \<not> startsWith name (i @ ''.'')
      then throw (registry_error (''Connector operation must use '' @ i @ ''. namespace: '' @ name))
      else if od_mode operation = ReadMode \<and> od_supportsSimulation operation
      then throw (registry_error (''Read operation cannot require simulation: '' @ name))
      else if od_mode operation = MutationMode \<and> od_supportsExecution operation \<and> \<not> od_requiresApproval operation
      then throw (registry_error (''Executable mutation operation must require approval: '' @ name))
      else if od_mode operation = MutationMode \<and> \<not> od_supportsSimulation operation
      then throw (registry_error (''M6B mutation operation must support simulation: '' @ name))
      else if od_mode operation = ReadMode \<and> od_requiresApproval operation
      then throw (registry_error (''Read operation cannot require approval: '' @ name))
      else check_operations i rest (name # seen))"

definition executable_mutation :: "operation_descriptor \<Rightarrow> bool" where
  "executable_mutation operation \<longleftrightarrow> od_mode operation = MutationMode \<and> od_supportsExecution operation"

definition freezeDefinition :: "'w connector_definition \<Rightarrow> 'w connector_definition result" where
  "freezeDefinition definition =
     bindR (registry_required (cn_id (df_descriptor definition)) ''connector id'') (\<lambda>i.
     bindR (registry_required (cn_version (df_descriptor definition)) ''connector version'') (\<lambda>version.
     if df_handlerConnector definition \<noteq> i
     then throw (registry_error (''Constraint handler '' @ df_handlerConnector definition
       @ '' does not match connector '' @ i))
     else bindR (mapR freezeOperation (cn_operations (df_descriptor definition))) (\<lambda>frozen.
       let operations = sort_key od_operation frozen in
       bindR (check_operations i operations []) (\<lambda>_.
       let hasExecutableMutation = list_ex executable_mutation operations;
           types = sort_key resource_type_str (remdups (cn_supportedResourceTypes (df_descriptor definition))) in
       if length operations = 0 then throw (registry_error (''Connector '' @ i @ '' has no operations''))
       else if hasExecutableMutation \<and> df_executeMutation definition = None
       then throw (registry_error (''Connector '' @ i @ '' has executable mutations without an execution boundary''))
       else if \<not> hasExecutableMutation \<and> df_executeMutation definition \<noteq> None
       then throw (registry_error (''Connector '' @ i @ '' exposes an unused mutation execution boundary''))
       else if length types = 0 then throw (registry_error (''Connector '' @ i @ '' has no resource types''))
       else ok (definition\<lparr>df_descriptor := \<lparr>cn_id = i, cn_version = version, cn_supportedResourceTypes = types,
              cn_operations = operations\<rparr>\<rparr>)))))"

subsection \<open>The registry\<close>

type_synonym 'w registry = "(string \<times> 'w connector_definition) list"

fun registry_entries :: "'w connector_definition list \<Rightarrow> string list \<Rightarrow> 'w registry result" where
  "registry_entries [] ids = ok []"
| "registry_entries (candidate # rest) ids =
     bindR (freezeDefinition candidate) (\<lambda>definition.
       let i = cn_id (df_descriptor definition) in
       if i \<in> set ids then throw (registry_error (''Duplicate connector descriptor: '' @ i))
       else bindR (registry_entries rest (i # ids)) (\<lambda>entries. ok ((i, definition) # entries)))"

definition ConnectorRegistry :: "'w connector_definition list \<Rightarrow> 'w registry result" where
  "ConnectorRegistry definitions = bindR (registry_entries definitions []) (\<lambda>entries. ok (sort_key fst entries))"

definition getDefinition :: "'w registry \<Rightarrow> string \<Rightarrow> 'w connector_definition option" where
  "getDefinition registry provider = map_of registry provider"

definition registry_get :: "'w registry \<Rightarrow> string \<Rightarrow> connector_descriptor option" where
  "registry_get registry provider = map_option df_descriptor (map_of registry provider)"

definition descriptors :: "'w registry \<Rightarrow> connector_descriptor list" where
  "descriptors registry = map (\<lambda>(_, definition). df_descriptor definition) registry"

definition getPolicyDefinition :: "'w registry \<Rightarrow> string \<Rightarrow> policy_definition option" where
  "getPolicyDefinition registry provider = map_option policy_definition.truncate (map_of registry provider)"

definition requireDefinition :: "'w registry \<Rightarrow> string \<Rightarrow> 'w connector_definition result" where
  "requireDefinition registry provider =
     (case getDefinition registry provider of
        None \<Rightarrow> throw (ActionError (UnsupportedConnectorError provider)) | Some definition \<Rightarrow> ok definition)"

definition requireOperation :: "'w registry \<Rightarrow> string \<Rightarrow> string \<Rightarrow> operation_descriptor result" where
  "requireOperation registry provider operation =
     bindR (requireDefinition registry provider) (\<lambda>definition.
       case find (\<lambda>candidate. od_operation candidate = operation) (cn_operations (df_descriptor definition)) of
         None \<Rightarrow> throw (ActionError (UnsupportedConnectorOperationError provider operation))
       | Some descriptor \<Rightarrow> ok descriptor)"

section \<open>What the registry guarantees\<close>

text \<open>The operations that pass the checks.\<close>

definition operation_ok :: "string \<Rightarrow> operation_descriptor \<Rightarrow> bool" where
  "operation_ok i operation \<longleftrightarrow> startsWith (od_operation operation) (i @ ''.'') \<and>
     (if od_mode operation = ReadMode then \<not> od_supportsSimulation operation \<and> \<not> od_requiresApproval operation
      else od_supportsSimulation operation \<and> (od_supportsExecution operation \<longrightarrow> od_requiresApproval operation))"

lemma mode_cases: "m = ReadMode \<or> m = MutationMode"
  by (cases m) auto

lemma check_operations_ok:
  "check_operations i ops seen = ok u \<longleftrightarrow> list_all (operation_ok i) ops \<and> distinct (map od_operation ops)
     \<and> set (map od_operation ops) \<inter> set seen = {}"
proof (induction i ops seen rule: check_operations.induct)
  case (2 i operation rest seen)
  show ?case using mode_cases [of "od_mode operation"] 2
    by (cases "od_mode operation") (auto simp: Let_def operation_ok_def)
qed simp

definition connector_ok :: "'w connector_definition \<Rightarrow> bool" where
  "connector_ok d \<longleftrightarrow>
     (let c = df_descriptor d in
      canonical_text (cn_id c) \<and> canonical_text (cn_version c) \<and> df_handlerConnector d = cn_id c
      \<and> cn_operations c \<noteq> [] \<and> list_all (operation_ok (cn_id c)) (cn_operations c)
      \<and> sorted (map od_operation (cn_operations c)) \<and> distinct (map od_operation (cn_operations c))
      \<and> cn_supportedResourceTypes c \<noteq> [] \<and> distinct (cn_supportedResourceTypes c)
      \<and> (df_executeMutation d = None \<longleftrightarrow> \<not> list_ex executable_mutation (cn_operations c)))"

lemma registry_required_ok [result_simps]: "registry_required v f = ok n \<longleftrightarrow> canonical_text v \<and> n = v"
  by (auto simp: registry_required_def Let_def canonical_text_def)

lemma distinct_map_sort [simp]: "distinct (map f (sort_key f xs)) \<longleftrightarrow> distinct (map f xs)"
  by (rule mset_eq_imp_distinct_iff) simp

lemma freezeDefinition_ok:
  assumes "freezeDefinition d = ok f"
  shows "connector_ok f" and "cn_id (df_descriptor f) = cn_id (df_descriptor d)"
  using assms
  by (auto simp: freezeDefinition_def result_simps Let_def check_operations_ok connector_ok_def split: if_splits)

lemma registry_entries_ok:
  "registry_entries ds ids = ok entries \<Longrightarrow> list_all (\<lambda>(i, d). connector_ok d \<and> cn_id (df_descriptor d) = i) entries
     \<and> distinct (map fst entries) \<and> set (map fst entries) \<inter> set ids = {}"
proof (induction ds ids arbitrary: entries rule: registry_entries.induct)
  case (2 candidate rest ids)
  then obtain d es where d: "freezeDefinition candidate = ok d" "cn_id (df_descriptor d) \<notin> set ids"
    and es: "registry_entries rest (cn_id (df_descriptor d) # ids) = ok es"
    and entries: "entries = (cn_id (df_descriptor d), d) # es"
    by (auto simp: result_simps Let_def split: if_splits)
  from "2.IH" [OF d(1) refl d(2) es] show ?case
    using d entries freezeDefinition_ok(1) [OF d(1)] by auto
qed simp

definition registry_ok :: "'w registry \<Rightarrow> bool" where
  "registry_ok r \<longleftrightarrow> list_all (\<lambda>(i, d). connector_ok d \<and> cn_id (df_descriptor d) = i) r
     \<and> sorted (map fst r) \<and> distinct (map fst r)"

lemma ConnectorRegistry_ok: "ConnectorRegistry ds = ok r \<Longrightarrow> registry_ok r"
  using registry_entries_ok [of ds "[]"]
  by (auto simp: ConnectorRegistry_def registry_ok_def result_simps list_all_iff)

lemma requireDefinition_ok:
  assumes "registry_ok r" and "requireDefinition r p = ok d"
  shows "connector_ok d" and "cn_id (df_descriptor d) = p"
  using assms by (auto simp: requireDefinition_def getDefinition_def registry_ok_def list_all_iff
      dest!: map_of_SomeD split: option.splits)

lemma requireOperation_ok:
  assumes "registry_ok r" and "requireOperation r p name = ok op"
  shows "od_operation op = name" and "operation_ok p op"
    and "\<exists>d. requireDefinition r p = ok d \<and> op \<in> set (cn_operations (df_descriptor d))"
proof -
  obtain d where d: "requireDefinition r p = ok d" "find (\<lambda>c. od_operation c = name) (cn_operations (df_descriptor d)) = Some op"
    using assms(2) by (auto simp: requireOperation_def result_simps split: option.splits)
  then have "op \<in> set (cn_operations (df_descriptor d))" "od_operation op = name"
    by (auto simp: find_Some_iff)
  then show "od_operation op = name" "operation_ok p op"
    "\<exists>d. requireDefinition r p = ok d \<and> op \<in> set (cn_operations (df_descriptor d))"
    using d requireDefinition_ok [OF assms(1) d(1)] by (auto simp: connector_ok_def Let_def list_all_iff)
qed

end
