(* ===== verification/Pipeline_Run.thy ===== *)
theory Pipeline_Run
  imports Prelude
begin

text \<open>
  The enforced pipeline run, \<open>packages/domain/src/pipeline/pipeline-run.ts\<close>, and the pipeline
  definitions of \<open>packages/domain/src/office/office-manifest.ts\<close> it freezes. The class keeps
  its properties in one immutable value that each method replaces; the methods are functions
  from that value to the new value or an error. The copies the class makes of dates and arrays
  (\<open>cloneStage\<close>, \<open>restore\<close>, \<open>snapshot\<close>) are the identity on values.
\<close>

section \<open>The model\<close>

datatype pipeline_enforcement = Guidance | Enforced

record office_pipeline_stage =
  os_id :: string
  os_name :: string
  os_roleId :: string
  os_objective :: string
  os_checks :: "string list"
  os_requiresApproval :: bool
  os_requiresIndependentApproval :: "bool option"
  os_capabilities :: "string list option"
  os_requiresDifferentAgentFrom :: "string list option"

record office_pipeline =
  op_id :: string
  op_name :: string
  op_description :: string
  op_defaultFor :: "string list"
  op_enforcement :: "pipeline_enforcement option"
  op_stages :: "office_pipeline_stage list"

datatype pipeline_run_status = RunActive | RunCompleted | RunCancelled

datatype stage_run_status = StPending | StActive | StAwaitingApproval | StCompleted | StCancelled

fun stage_status_str :: "stage_run_status \<Rightarrow> string" where
  "stage_status_str StPending = ''pending''"
| "stage_status_str StActive = ''active''"
| "stage_status_str StAwaitingApproval = ''awaiting_approval''"
| "stage_status_str StCompleted = ''completed''"
| "stage_status_str StCancelled = ''cancelled''"

datatype approval_decision = Approved | Rejected

record pack_identity =
  pk_id :: string
  pk_version :: string
  pk_manifestDigest :: string

record configuration_pin =
  pin_configurationDigest :: string
  pin_coreContractVersion :: int
  pin_bindingRevision :: int
  pin_definitionRevision :: int
  pin_selectedPacks :: "pack_identity list"
  pin_resolvedPacks :: "pack_identity list"

record stage_run =
  sr_id :: string
  sr_stageId :: string
  sr_stageIndex :: nat
  sr_roleId :: string
  sr_status :: stage_run_status
  sr_assignedAgentId :: "string option"
  sr_assignedAt :: "js_date option"
  sr_completedAt :: "js_date option"
  sr_approvedBy :: "string option"
  sr_approvalDecision :: "approval_decision option"
  sr_approvalRationale :: "string option"
  sr_approvedAt :: "js_date option"

record pipeline_run =
  pr_id :: string
  pr_projectId :: string
  pr_taskId :: string
  pr_manifestRevisionId :: string
  pr_manifestRevision :: int
  pr_definition :: office_pipeline
  pr_status :: pipeline_run_status
  pr_currentStageIndex :: nat
  pr_stages :: "stage_run list"
  pr_startedBy :: string
  pr_version :: nat
  pr_createdAt :: js_date
  pr_updatedAt :: js_date
  pr_completedAt :: "js_date option"
  pr_cancelledAt :: "js_date option"
  pr_configurationPin :: "configuration_pin option"

record pipeline_override =
  ov_id :: string
  ov_projectId :: string
  ov_pipelineRunId :: string
  ov_stageRunId :: string
  ov_actorId :: string
  ov_reason :: string
  ov_previousRule :: string
  ov_resultingAuthorization :: string
  ov_createdAt :: js_date

definition required :: "string \<Rightarrow> string \<Rightarrow> string result" where
  "required value name =
     (let normalized = trim value in
      if normalized = [] then throw (DomainValidationError (name @ '' cannot be empty''))
      else ok normalized)"

definition requiredConfigurationPin :: "configuration_pin \<Rightarrow> configuration_pin result" where
  "requiredConfigurationPin pin =
     bindR (required (pin_configurationDigest pin) ''Configuration digest'') (\<lambda>d.
       ok (pin\<lparr>pin_configurationDigest := d\<rparr>))"

definition cloneStage :: "stage_run \<Rightarrow> stage_run" where
  "cloneStage s = s"

text \<open>One stage run of a new pipeline run; only the first is active.\<close>

definition new_stage_run :: "nat \<Rightarrow> office_pipeline_stage \<Rightarrow> string \<Rightarrow> stage_run result" where
  "new_stage_run index stage stageRunId =
     bindR (required stageRunId ''Stage-run ID'') (\<lambda>i.
       ok \<lparr>sr_id = i, sr_stageId = os_id stage, sr_stageIndex = index,
           sr_roleId = os_roleId stage,
           sr_status = (if index = 0 then StActive else StPending),
           sr_assignedAgentId = None, sr_assignedAt = None, sr_completedAt = None,
           sr_approvedBy = None, sr_approvalDecision = None, sr_approvalRationale = None,
           sr_approvedAt = None\<rparr>)"

fun optional_pin :: "configuration_pin option \<Rightarrow> configuration_pin option result" where
  "optional_pin None = ok None"
| "optional_pin (Some pin) = bindR (requiredConfigurationPin pin) (\<lambda>p. ok (Some p))"

definition PipelineRun_create ::
  "string \<Rightarrow> string \<Rightarrow> string \<Rightarrow> string \<Rightarrow> int \<Rightarrow> office_pipeline \<Rightarrow> string \<Rightarrow> string list
     \<Rightarrow> configuration_pin option \<Rightarrow> js_date \<Rightarrow> pipeline_run result" where
  "PipelineRun_create i projectId taskId revisionId revision d startedBy stageRunIds pin now =
     (if op_enforcement d \<noteq> Some Enforced
      then throw (DomainValidationError ''Only an enforced pipeline can be started'')
      else if length (op_stages d) = 0
      then throw (DomainValidationError ''An enforced pipeline must contain a stage'')
      else if length stageRunIds \<noteq> length (op_stages d)
      then throw (DomainValidationError ''Every pipeline stage requires a stage-run ID'')
      else bindR (mapR (\<lambda>k. new_stage_run k (op_stages d ! k) (stageRunIds ! k))
             [0..<length (op_stages d)]) (\<lambda>stages.
        bindR (required i ''Pipeline-run ID'') (\<lambda>i'.
        bindR (required projectId ''Project ID'') (\<lambda>projectId'.
        bindR (required taskId ''Task ID'') (\<lambda>taskId'.
        bindR (required revisionId ''Manifest revision ID'') (\<lambda>revisionId'.
        bindR (required startedBy ''Pipeline actor'') (\<lambda>startedBy'.
        bindR (optional_pin pin) (\<lambda>pin'.
          ok \<lparr>pr_id = i', pr_projectId = projectId', pr_taskId = taskId',
              pr_manifestRevisionId = revisionId', pr_manifestRevision = revision,
              pr_definition = d, pr_status = RunActive, pr_currentStageIndex = 0,
              pr_stages = stages, pr_startedBy = startedBy', pr_version = 1,
              pr_createdAt = now, pr_updatedAt = now, pr_completedAt = None,
              pr_cancelledAt = None, pr_configurationPin = pin'\<rparr>))))))))"

definition PipelineRun_restore :: "pipeline_run \<Rightarrow> pipeline_run" where
  "PipelineRun_restore props = props\<lparr>pr_stages := map cloneStage (pr_stages props)\<rparr>"

definition PipelineRun_snapshot :: "pipeline_run \<Rightarrow> pipeline_run" where
  "PipelineRun_snapshot run = run\<lparr>pr_stages := map cloneStage (pr_stages run)\<rparr>"

definition currentStage :: "pipeline_run \<Rightarrow> stage_run option result" where
  "currentStage run =
     (if pr_status run \<noteq> RunActive then ok None
      else bindR (index_read (pr_stages run) (pr_currentStageIndex run)) (\<lambda>s.
        ok (Some (cloneStage s))))"

definition requireCurrent :: "stage_run_status \<Rightarrow> pipeline_run \<Rightarrow> stage_run result" where
  "requireCurrent status run =
     bindR (currentStage run) (\<lambda>s.
       case s of
         None \<Rightarrow> throw (PipelineTransitionError (''Current stage must be '' @ stage_status_str status))
       | Some stage \<Rightarrow>
           if sr_status stage \<noteq> status
           then throw (PipelineTransitionError (''Current stage must be '' @ stage_status_str status))
           else ok stage)"

definition replaceStage :: "nat \<Rightarrow> stage_run \<Rightarrow> pipeline_run \<Rightarrow> pipeline_run" where
  "replaceStage index value run =
     run\<lparr>pr_stages := map (\<lambda>(candidate, stage). if candidate = index then value else stage)
        (enumerate 0 (pr_stages run))\<rparr>"

definition changed :: "js_date \<Rightarrow> pipeline_run \<Rightarrow> pipeline_run" where
  "changed now run = run\<lparr>pr_version := pr_version run + 1, pr_updatedAt := now\<rparr>"

definition finishCurrent :: "js_date \<Rightarrow> pipeline_run \<Rightarrow> pipeline_run result" where
  "finishCurrent now run =
     bindR (currentStage run) (\<lambda>s.
       case s of
         None \<Rightarrow> throw (PipelineTransitionError ''Pipeline is not active'')
       | Some stage \<Rightarrow>
           let run1 = replaceStage (sr_stageIndex stage)
                 (stage\<lparr>sr_status := StCompleted, sr_completedAt := Some now\<rparr>) run;
               nextIndex = sr_stageIndex stage + 1
           in if nextIndex \<ge> length (pr_stages run1)
              then ok (run1\<lparr>pr_status := RunCompleted, pr_version := pr_version run1 + 1,
                     pr_updatedAt := now, pr_completedAt := Some now\<rparr>)
              else let next_stage = pr_stages run1 ! nextIndex;
                       run2 = replaceStage nextIndex (next_stage\<lparr>sr_status := StActive\<rparr>) run1
                   in ok (run2\<lparr>pr_currentStageIndex := nextIndex,
                        pr_version := pr_version run2 + 1, pr_updatedAt := now\<rparr>))"

text \<open>\<open>definition.requiresDifferentAgentFrom ?? []\<close>\<close>

definition differentAgentFrom :: "office_pipeline_stage \<Rightarrow> string list" where
  "differentAgentFrom d = (case os_requiresDifferentAgentFrom d of None \<Rightarrow> [] | Some ps \<Rightarrow> ps)"

text \<open>The check of \<open>requiresDifferentAgentFrom\<close>: the first stage run of each named stage.\<close>

definition separated_from :: "pipeline_run \<Rightarrow> string \<Rightarrow> stage_run \<Rightarrow> string \<Rightarrow> unit result" where
  "separated_from run agentId stage predecessorId =
     (case find (\<lambda>value. sr_stageId value = predecessorId) (pr_stages run) of
        None \<Rightarrow> ok ()
      | Some predecessor \<Rightarrow>
          if sr_assignedAgentId predecessor = Some agentId
          then throw (PipelineTransitionError (''Agent separation is required between '' @
                 predecessorId @ '' and '' @ sr_stageId stage))
          else ok ())"

definition PipelineRun_assign ::
  "string \<Rightarrow> string \<Rightarrow> js_date \<Rightarrow> pipeline_run \<Rightarrow> pipeline_run result" where
  "PipelineRun_assign agentId agentRoleId now run =
     bindR (requireCurrent StActive run) (\<lambda>stage.
       if sr_assignedAgentId stage \<noteq> None
       then throw (PipelineTransitionError ''The active stage is already assigned'')
       else if agentRoleId \<noteq> sr_roleId stage
       then throw (PipelineTransitionError
              (''Stage '' @ sr_stageId stage @ '' requires role '' @ sr_roleId stage))
       else bindR (index_read (op_stages (pr_definition run)) (sr_stageIndex stage)) (\<lambda>d.
         bindR (forR (separated_from run agentId stage) (differentAgentFrom d)) (\<lambda>_.
           bindR (required agentId ''Agent ID'') (\<lambda>agent.
             ok (changed now (replaceStage (sr_stageIndex stage)
               (stage\<lparr>sr_assignedAgentId := Some agent, sr_assignedAt := Some now\<rparr>) run))))))"

definition PipelineRun_completeStage ::
  "string \<Rightarrow> js_date \<Rightarrow> pipeline_run \<Rightarrow> pipeline_run result" where
  "PipelineRun_completeStage agentId now run =
     bindR (requireCurrent StActive run) (\<lambda>stage.
       if sr_assignedAgentId stage = None
       then throw (PipelineTransitionError ''The active stage has no assigned agent'')
       else if sr_assignedAgentId stage \<noteq> Some agentId
       then throw (PipelineTransitionError ''Only the assigned agent can complete the stage'')
       else bindR (index_read (op_stages (pr_definition run)) (sr_stageIndex stage)) (\<lambda>d.
         if os_requiresApproval d
         then ok (changed now (replaceStage (sr_stageIndex stage)
                (stage\<lparr>sr_status := StAwaitingApproval\<rparr>) run))
         else finishCurrent now run))"

fun optional_rationale :: "string option \<Rightarrow> stage_run \<Rightarrow> stage_run result" where
  "optional_rationale None stage = ok stage"
| "optional_rationale (Some rationale) stage =
     bindR (required rationale ''Approval rationale'') (\<lambda>r.
       ok (stage\<lparr>sr_approvalRationale := Some r\<rparr>))"

definition PipelineRun_approveStage ::
  "string \<Rightarrow> string option \<Rightarrow> js_date \<Rightarrow> pipeline_run \<Rightarrow> pipeline_run result" where
  "PipelineRun_approveStage actorId rationale now run =
     bindR (requireCurrent StAwaitingApproval run) (\<lambda>stage.
     bindR (required actorId ''Approval actor'') (\<lambda>actor.
     bindR (index_read (op_stages (pr_definition run)) (sr_stageIndex stage)) (\<lambda>d.
       if os_requiresIndependentApproval d = Some True \<and> sr_assignedAgentId stage = Some actor
       then throw (PipelineTransitionError ''An assigned agent cannot approve its own stage'')
       else bindR (optional_rationale rationale
              (stage\<lparr>sr_approvedBy := Some actor, sr_approvalDecision := Some Approved\<rparr>)) (\<lambda>stage'.
         finishCurrent now (replaceStage (sr_stageIndex stage)
           (stage'\<lparr>sr_approvedAt := Some now\<rparr>) run)))))"

definition PipelineRun_rejectStage ::
  "string \<Rightarrow> string \<Rightarrow> js_date \<Rightarrow> pipeline_run \<Rightarrow> pipeline_run result" where
  "PipelineRun_rejectStage actorId rationale now run =
     bindR (requireCurrent StAwaitingApproval run) (\<lambda>stage.
     bindR (required actorId ''Approval actor'') (\<lambda>actor.
     bindR (index_read (op_stages (pr_definition run)) (sr_stageIndex stage)) (\<lambda>d.
       if os_requiresIndependentApproval d = Some True \<and> sr_assignedAgentId stage = Some actor
       then throw (PipelineTransitionError ''An assigned agent cannot reject its own stage'')
       else bindR (required rationale ''Rejection rationale'') (\<lambda>r.
         let run1 = replaceStage (sr_stageIndex stage)
               (stage\<lparr>sr_status := StCancelled, sr_approvedBy := Some actor,
                  sr_approvalDecision := Some Rejected, sr_approvalRationale := Some r,
                  sr_approvedAt := Some now\<rparr>) run
         in ok (run1\<lparr>pr_status := RunCancelled,
              pr_stages := map (\<lambda>value. if sr_status value = StPending
                then value\<lparr>sr_status := StCancelled\<rparr> else value) (pr_stages run1),
              pr_version := pr_version run1 + 1, pr_updatedAt := now,
              pr_cancelledAt := Some now\<rparr>)))))"

definition override_rule :: "stage_run \<Rightarrow> string" where
  "override_rule stage =
     (if sr_status stage = StAwaitingApproval then ''pipeline_approval_required''
      else if sr_assignedAgentId stage = None then ''pipeline_agent_not_assigned''
      else ''pipeline_stage_incomplete'')"

definition PipelineRun_overrideCurrent ::
  "string \<Rightarrow> string \<Rightarrow> string \<Rightarrow> js_date \<Rightarrow> pipeline_run
     \<Rightarrow> (pipeline_run \<times> pipeline_override) result" where
  "PipelineRun_overrideCurrent i actorId reason now run =
     bindR (currentStage run) (\<lambda>s.
       case s of
         None \<Rightarrow> throw (PipelineTransitionError ''Pipeline is not active'')
       | Some stage \<Rightarrow>
           bindR (required i ''Override ID'') (\<lambda>i'.
           bindR (required actorId ''Override actor'') (\<lambda>actor.
           bindR (required reason ''Override reason'') (\<lambda>reason'.
           bindR (finishCurrent now run) (\<lambda>run'.
             ok (run', \<lparr>ov_id = i', ov_projectId = pr_projectId run, ov_pipelineRunId = pr_id run,
               ov_stageRunId = sr_id stage, ov_actorId = actor, ov_reason = reason',
               ov_previousRule = override_rule stage,
               ov_resultingAuthorization = ''stage_completed'', ov_createdAt = now\<rparr>))))))"

definition PipelineRun_cancel :: "string \<Rightarrow> js_date \<Rightarrow> pipeline_run \<Rightarrow> pipeline_run result" where
  "PipelineRun_cancel actorId now run =
     bindR (required actorId ''Cancellation actor'') (\<lambda>_.
       if pr_status run \<noteq> RunActive
       then throw (PipelineTransitionError ''Only an active pipeline can be cancelled'')
       else ok (run\<lparr>pr_status := RunCancelled,
              pr_stages := map (\<lambda>stage.
                if sr_status stage = StPending \<or> sr_status stage = StActive
                   \<or> sr_status stage = StAwaitingApproval
                then stage\<lparr>sr_status := StCancelled\<rparr> else stage) (pr_stages run),
              pr_version := pr_version run + 1, pr_updatedAt := now,
              pr_cancelledAt := Some now\<rparr>))"

section \<open>Runs of the state machine\<close>

text \<open>
  The mutating methods as operations, and the runs a sequence of accepted operations reaches
  from a created one. \<open>permitted\<close> restricts the operations, so that a property can be stated
  for the runs no override touched.
\<close>

datatype pipeline_op =
    Assign string string
  | CompleteStage string
  | ApproveStage string "string option"
  | RejectStage string string
  | OverrideCurrent string string string
  | CancelRun string

fun pipeline_apply :: "pipeline_op \<Rightarrow> js_date \<Rightarrow> pipeline_run \<Rightarrow> pipeline_run result" where
  "pipeline_apply (Assign agent role) now run = PipelineRun_assign agent role now run"
| "pipeline_apply (CompleteStage agent) now run = PipelineRun_completeStage agent now run"
| "pipeline_apply (ApproveStage actor rationale) now run =
     PipelineRun_approveStage actor rationale now run"
| "pipeline_apply (RejectStage actor rationale) now run =
     PipelineRun_rejectStage actor rationale now run"
| "pipeline_apply (OverrideCurrent i actor reason) now run =
     bindR (PipelineRun_overrideCurrent i actor reason now run) (\<lambda>p. ok (fst p))"
| "pipeline_apply (CancelRun actor) now run = PipelineRun_cancel actor now run"

inductive pipeline_reachable :: "(pipeline_op \<Rightarrow> bool) \<Rightarrow> nat \<Rightarrow> pipeline_run \<Rightarrow> bool"
  for permitted :: "pipeline_op \<Rightarrow> bool" where
  created: "PipelineRun_create i projectId taskId revisionId revision d startedBy ids pin now = ok run
     \<Longrightarrow> pipeline_reachable permitted 0 run"
| step: "pipeline_reachable permitted n run \<Longrightarrow> permitted oc \<Longrightarrow> pipeline_apply oc now run = ok run'
     \<Longrightarrow> pipeline_reachable permitted (Suc n) run'"

text \<open>
  The shape of a run: the stage runs mirror the definition in order, everything before the
  current stage is completed, and what follows is pending, completed or cancelled with the run.
\<close>

fun stage_status_ok :: "pipeline_run_status \<Rightarrow> nat \<Rightarrow> nat \<Rightarrow> stage_run_status \<Rightarrow> bool" where
  "stage_status_ok RunActive cur k s =
     (if k < cur then s = StCompleted
      else if k = cur then s \<in> {StActive, StAwaitingApproval} else s = StPending)"
| "stage_status_ok RunCompleted cur k s = (s = StCompleted)"
| "stage_status_ok RunCancelled cur k s = (if k < cur then s = StCompleted else s = StCancelled)"

definition mirrors :: "office_pipeline_stage \<Rightarrow> nat \<Rightarrow> stage_run \<Rightarrow> bool" where
  "mirrors d k s \<longleftrightarrow> sr_stageIndex s = k \<and> sr_stageId s = os_id d \<and> sr_roleId s = os_roleId d
     \<and> (sr_status s = StPending \<longrightarrow> sr_assignedAgentId s = None \<and> sr_approvalDecision s = None)
     \<and> (sr_status s = StAwaitingApproval \<longrightarrow>
          sr_assignedAgentId s \<noteq> None \<and> os_requiresApproval d)"

definition pipeline_inv :: "pipeline_run \<Rightarrow> bool" where
  "pipeline_inv run \<longleftrightarrow>
     length (pr_stages run) = length (op_stages (pr_definition run))
     \<and> pr_currentStageIndex run < length (pr_stages run)
     \<and> (pr_status run = RunCompleted \<longrightarrow> pr_currentStageIndex run = length (pr_stages run) - 1)
     \<and> (\<forall>k < length (pr_stages run). mirrors (op_stages (pr_definition run) ! k) k (pr_stages run ! k)
          \<and> stage_status_ok (pr_status run) (pr_currentStageIndex run) k (sr_status (pr_stages run ! k)))"


section \<open>Lemmas: the effect of each method\<close>

abbreviation cur_stage :: "pipeline_run \<Rightarrow> stage_run" where
  "cur_stage run \<equiv> pr_stages run ! pr_currentStageIndex run"

abbreviation cur_def :: "pipeline_run \<Rightarrow> office_pipeline_stage" where
  "cur_def run \<equiv> op_stages (pr_definition run) ! pr_currentStageIndex run"

definition set_cur :: "stage_run \<Rightarrow> pipeline_run \<Rightarrow> pipeline_run" where
  "set_cur s run = run\<lparr>pr_stages := (pr_stages run)[pr_currentStageIndex run := s]\<rparr>"

definition advance :: "js_date \<Rightarrow> pipeline_run \<Rightarrow> pipeline_run" where
  "advance now run =
     (let c = pr_currentStageIndex run;
          stages = (pr_stages run)[c := (cur_stage run)\<lparr>sr_status := StCompleted,
                      sr_completedAt := Some now\<rparr>]
      in if length stages \<le> Suc c
         then run\<lparr>pr_stages := stages, pr_status := RunCompleted,
                pr_version := Suc (pr_version run), pr_updatedAt := now,
                pr_completedAt := Some now\<rparr>
         else run\<lparr>pr_stages := stages[Suc c := (pr_stages run ! Suc c)\<lparr>sr_status := StActive\<rparr>],
                pr_currentStageIndex := Suc c, pr_version := Suc (pr_version run),
                pr_updatedAt := now\<rparr>)"

definition cancel_stages :: "(stage_run_status \<Rightarrow> bool) \<Rightarrow> js_date \<Rightarrow> pipeline_run \<Rightarrow> pipeline_run" where
  "cancel_stages P now run =
     run\<lparr>pr_status := RunCancelled,
       pr_stages := map (\<lambda>s. if P (sr_status s) then s\<lparr>sr_status := StCancelled\<rparr> else s)
         (pr_stages run),
       pr_version := Suc (pr_version run), pr_updatedAt := now, pr_cancelledAt := Some now\<rparr>"

lemma required_ok [result_simps]: "required v n = ok r \<longleftrightarrow> trim v \<noteq> [] \<and> r = trim v"
  by (auto simp: required_def Let_def)

lemma replaceStage_eq:
  "replaceStage k v run = run\<lparr>pr_stages := (pr_stages run)[k := v]\<rparr>"
proof -
  have "map (\<lambda>(c, s). if c = k then v else s) (enumerate 0 xs) = xs[k := v]" for xs :: "stage_run list"
    by (rule nth_equalityI) (auto simp: nth_enumerate_eq nth_list_update)
  then show ?thesis by (simp add: replaceStage_def)
qed

lemma pipeline_invD:
  assumes "pipeline_inv run"
  shows "pr_currentStageIndex run < length (pr_stages run)"
    and "pr_currentStageIndex run < length (op_stages (pr_definition run))"
    and "sr_stageIndex (cur_stage run) = pr_currentStageIndex run"
    and "pr_status run = RunActive \<Longrightarrow> sr_status (cur_stage run) \<in> {StActive, StAwaitingApproval}"
    and "mirrors (cur_def run) (pr_currentStageIndex run) (cur_stage run)"
  using assms by (auto simp: pipeline_inv_def mirrors_def)

lemma currentStage_eq:
  "pipeline_inv run \<Longrightarrow>
     currentStage run = ok (if pr_status run = RunActive then Some (cur_stage run) else None)"
  by (simp add: currentStage_def cloneStage_def index_read_def pipeline_invD)

lemma requireCurrent_ok:
  "pipeline_inv run \<Longrightarrow> requireCurrent st run = ok s \<longleftrightarrow>
     pr_status run = RunActive \<and> sr_status (cur_stage run) = st \<and> s = cur_stage run"
  by (auto simp: requireCurrent_def currentStage_eq)

lemma finishCurrent_eq:
  assumes "pipeline_inv run"
  shows "finishCurrent now run =
    (if pr_status run = RunActive then ok (advance now run)
     else throw (PipelineTransitionError ''Pipeline is not active''))"
  using pipeline_invD [OF assms]
  by (simp add: finishCurrent_def currentStage_eq [OF assms] replaceStage_eq advance_def Let_def)

lemma assign_ok:
  assumes "pipeline_inv run" and "PipelineRun_assign a r now run = ok run'"
  shows "pr_status run = RunActive" and "sr_status (cur_stage run) = StActive"
    and "sr_assignedAgentId (cur_stage run) = None" and "r = sr_roleId (cur_stage run)"
    and "trim a \<noteq> []"
    and "\<forall>p \<in> set (differentAgentFrom (cur_def run)).
           separated_from run a (cur_stage run) p = ok ()"
    and "run' = changed now (set_cur ((cur_stage run)\<lparr>sr_assignedAgentId := Some (trim a),
           sr_assignedAt := Some now\<rparr>) run)"
  using assms(2) pipeline_invD [OF assms(1)]
  by (auto simp: PipelineRun_assign_def requireCurrent_ok [OF assms(1)] result_simps
      replaceStage_eq set_cur_def split: if_splits)

lemma completeStage_ok:
  assumes "pipeline_inv run" and "PipelineRun_completeStage a now run = ok run'"
  shows "pr_status run = RunActive" and "sr_status (cur_stage run) = StActive"
    and "sr_assignedAgentId (cur_stage run) = Some a"
    and "run' = (if os_requiresApproval (cur_def run)
         then changed now (set_cur ((cur_stage run)\<lparr>sr_status := StAwaitingApproval\<rparr>) run)
         else advance now run)"
  using assms(2) pipeline_invD [OF assms(1)]
  by (auto simp: PipelineRun_completeStage_def requireCurrent_ok [OF assms(1)] result_simps
      replaceStage_eq set_cur_def finishCurrent_eq [OF assms(1)] split: if_splits)

lemma set_cur_inv:
  assumes "pipeline_inv run" and "pr_status run = RunActive"
    and "mirrors (cur_def run) (pr_currentStageIndex run) s"
    and "sr_status s \<in> {StActive, StAwaitingApproval}"
  shows "pipeline_inv (set_cur s run)"
  using assms by (auto simp: pipeline_inv_def set_cur_def nth_list_update)

lemma changed_inv [simp]: "pipeline_inv (changed now run) = pipeline_inv run"
  by (simp add: pipeline_inv_def changed_def)

lemma set_cur_simps [simp]:
  "pr_status (set_cur s run) = pr_status run"
  "pr_currentStageIndex (set_cur s run) = pr_currentStageIndex run"
  "pr_definition (set_cur s run) = pr_definition run"
  "pr_version (set_cur s run) = pr_version run"
  "pr_stages (set_cur s run) = (pr_stages run)[pr_currentStageIndex run := s]"
  by (simp_all add: set_cur_def)

text \<open>The stage an approval leaves before the stage is finished.\<close>

definition approved_stage :: "string \<Rightarrow> string option \<Rightarrow> js_date \<Rightarrow> stage_run \<Rightarrow> stage_run" where
  "approved_stage actor rationale now s =
     s\<lparr>sr_approvedBy := Some (trim actor), sr_approvalDecision := Some Approved,
       sr_approvalRationale := (case rationale of None \<Rightarrow> sr_approvalRationale s
         | Some r \<Rightarrow> Some (trim r)), sr_approvedAt := Some now\<rparr>"

lemma approveStage_ok:
  assumes inv: "pipeline_inv run" and acc: "PipelineRun_approveStage a ra now run = ok run'"
  shows "pr_status run = RunActive" and "sr_status (cur_stage run) = StAwaitingApproval"
    and "trim a \<noteq> []"
    and "os_requiresIndependentApproval (cur_def run) = Some True \<Longrightarrow>
           sr_assignedAgentId (cur_stage run) \<noteq> Some (trim a)"
    and "pipeline_inv (set_cur (approved_stage a ra now (cur_stage run)) run)"
    and "run' = advance now (set_cur (approved_stage a ra now (cur_stage run)) run)"
proof -
  let ?s = "approved_stage a ra now (cur_stage run)"
  note c = pipeline_invD [OF inv]
  show st: "pr_status run = RunActive" "sr_status (cur_stage run) = StAwaitingApproval"
    and "trim a \<noteq> []"
    and "os_requiresIndependentApproval (cur_def run) = Some True \<Longrightarrow>
           sr_assignedAgentId (cur_stage run) \<noteq> Some (trim a)"
    using acc c by (auto simp: PipelineRun_approveStage_def requireCurrent_ok [OF inv] result_simps
        split: if_splits)
  show inv': "pipeline_inv (set_cur ?s run)"
    using c(5) st by (intro set_cur_inv [OF inv]) (auto simp: mirrors_def approved_stage_def)
  have "finishCurrent now (replaceStage (sr_stageIndex (cur_stage run)) ?s run) = ok run'"
    using acc c by (cases ra) (auto simp: PipelineRun_approveStage_def requireCurrent_ok [OF inv]
        result_simps approved_stage_def split: if_splits)
  then show "run' = advance now (set_cur ?s run)"
    using c(3) st finishCurrent_eq [OF inv'] by (simp add: replaceStage_eq set_cur_def)
qed

lemma rejectStage_ok:
  assumes "pipeline_inv run" and "PipelineRun_rejectStage a ra now run = ok run'"
  shows "pr_status run = RunActive" and "sr_status (cur_stage run) = StAwaitingApproval"
    and "trim a \<noteq> []" and "trim ra \<noteq> []"
    and "run' = cancel_stages (\<lambda>st. st = StPending) now
           (set_cur ((cur_stage run)\<lparr>sr_status := StCancelled, sr_approvedBy := Some (trim a),
              sr_approvalDecision := Some Rejected, sr_approvalRationale := Some (trim ra),
              sr_approvedAt := Some now\<rparr>) run)"
  using assms(2) pipeline_invD [OF assms(1)]
  by (auto simp: PipelineRun_rejectStage_def requireCurrent_ok [OF assms(1)] result_simps
      replaceStage_eq set_cur_def cancel_stages_def Let_def split: if_splits)

lemma overrideCurrent_ok:
  assumes "pipeline_inv run" and "PipelineRun_overrideCurrent i a re now run = ok p"
  shows "pr_status run = RunActive" and "fst p = advance now run"
    and "snd p = \<lparr>ov_id = trim i, ov_projectId = pr_projectId run, ov_pipelineRunId = pr_id run,
      ov_stageRunId = sr_id (cur_stage run), ov_actorId = trim a, ov_reason = trim re,
      ov_previousRule = override_rule (cur_stage run),
      ov_resultingAuthorization = ''stage_completed'', ov_createdAt = now\<rparr>"
  using assms(2)
  by (auto simp: PipelineRun_overrideCurrent_def currentStage_eq [OF assms(1)] result_simps
      finishCurrent_eq [OF assms(1)] split: if_splits)

lemma cancel_ok:
  assumes "PipelineRun_cancel a now run = ok run'"
  shows "pr_status run = RunActive" and "trim a \<noteq> []"
    and "run' = cancel_stages (\<lambda>st. st = StPending \<or> st = StActive \<or> st = StAwaitingApproval) now run"
  using assms
  by (auto simp: PipelineRun_cancel_def cancel_stages_def result_simps split: if_splits)

section \<open>Lemmas: the shape invariant\<close>

lemma create_ok:
  assumes "PipelineRun_create i p t ri rv d sb ids pin now = ok run"
  shows "op_stages d \<noteq> []" and "pr_definition run = d" and "pr_status run = RunActive"
    and "pr_currentStageIndex run = 0" and "pr_version run = 1"
    and "length (pr_stages run) = length (op_stages d)"
    and "k < length (op_stages d) \<Longrightarrow>
      new_stage_run k (op_stages d ! k) (ids ! k) = ok (pr_stages run ! k)"
proof -
  have *: "op_stages d \<noteq> []" "pr_definition run = d" "pr_status run = RunActive"
    "pr_currentStageIndex run = 0" "pr_version run = 1"
    "mapR (\<lambda>k. new_stage_run k (op_stages d ! k) (ids ! k)) [0..<length (op_stages d)]
       = ok (pr_stages run)"
    using assms by (auto simp: PipelineRun_create_def result_simps split: if_splits)
  then show "op_stages d \<noteq> []" "pr_definition run = d" "pr_status run = RunActive"
    "pr_currentStageIndex run = 0" "pr_version run = 1" by simp_all
  show "length (pr_stages run) = length (op_stages d)"
    using mapR_ok_length [OF *(6)] by simp
  show "k < length (op_stages d) \<Longrightarrow>
      new_stage_run k (op_stages d ! k) (ids ! k) = ok (pr_stages run ! k)"
    using mapR_ok_nth [OF *(6), of k] by simp
qed

text \<open>The invariant slot by slot.\<close>

definition slot_ok :: "pipeline_run \<Rightarrow> nat \<Rightarrow> bool" where
  "slot_ok run k \<longleftrightarrow> mirrors (op_stages (pr_definition run) ! k) k (pr_stages run ! k)
     \<and> stage_status_ok (pr_status run) (pr_currentStageIndex run) k (sr_status (pr_stages run ! k))"

lemma pipeline_inv_slots:
  "pipeline_inv run \<longleftrightarrow>
     length (pr_stages run) = length (op_stages (pr_definition run))
     \<and> pr_currentStageIndex run < length (pr_stages run)
     \<and> (pr_status run = RunCompleted \<longrightarrow> pr_currentStageIndex run = length (pr_stages run) - 1)
     \<and> (\<forall>k < length (pr_stages run). slot_ok run k)"
  by (simp add: pipeline_inv_def slot_ok_def)

lemma new_stage_run_ok:
  "new_stage_run k d i = ok s \<Longrightarrow>
     mirrors d k s \<and> sr_status s = (if k = 0 then StActive else StPending)
     \<and> sr_assignedAgentId s = None"
  by (auto simp: new_stage_run_def mirrors_def result_simps)

lemma create_inv:
  assumes "PipelineRun_create i p t ri rv d sb ids pin now = ok run"
  shows "pipeline_inv run"
proof -
  note c = create_ok [OF assms]
  have "slot_ok run k" if "k < length (op_stages d)" for k
    using new_stage_run_ok [OF c(7) [OF that]] c(2,3,4) by (simp add: slot_ok_def)
  then show ?thesis using c(1-6) by (simp add: pipeline_inv_slots)
qed

lemma set_cur_self [simp]: "set_cur (cur_stage run) run = run"
  by (simp add: set_cur_def)

lemma advance_simps:
  "pr_definition (advance now run) = pr_definition run"
  "length (pr_stages (advance now run)) = length (pr_stages run)"
  "pr_version (advance now run) = Suc (pr_version run)"
  "pr_updatedAt (advance now run) = now"
  "pr_status (advance now run) =
     (if length (pr_stages run) \<le> Suc (pr_currentStageIndex run) then RunCompleted else pr_status run)"
  "pr_currentStageIndex (advance now run) =
     (if length (pr_stages run) \<le> Suc (pr_currentStageIndex run) then pr_currentStageIndex run
      else Suc (pr_currentStageIndex run))"
  by (simp_all add: advance_def Let_def)

lemma advance_nth:
  "k < length (pr_stages run) \<Longrightarrow> pr_stages (advance now run) ! k =
     (if k = pr_currentStageIndex run
      then (pr_stages run ! k)\<lparr>sr_status := StCompleted, sr_completedAt := Some now\<rparr>
      else if k = Suc (pr_currentStageIndex run)
      then (pr_stages run ! k)\<lparr>sr_status := StActive\<rparr> else pr_stages run ! k)"
  by (auto simp: advance_def Let_def nth_list_update)

lemma advance_inv:
  assumes "pipeline_inv run" and "pr_status run = RunActive"
  shows "pipeline_inv (advance now run)"
proof -
  let ?c = "pr_currentStageIndex run"
  have slot: "slot_ok run k" if "k < length (pr_stages run)" for k
    using assms(1) that by (simp add: pipeline_inv_slots)
  have "slot_ok (advance now run) k" if k: "k < length (pr_stages run)" for k
  proof -
    consider "k < ?c" | "k = ?c" | "k = Suc ?c" | "Suc ?c < k" by linarith
    then show ?thesis
      by cases (use slot [OF k] k assms(2) in
        \<open>simp_all add: slot_ok_def advance_simps advance_nth mirrors_def\<close>)
  qed
  then show ?thesis using assms by (auto simp: pipeline_inv_slots advance_simps)
qed

lemma cancel_stages_inv:
  assumes "pr_status run = RunActive"
    and "length (pr_stages run) = length (op_stages (pr_definition run))"
    and "pr_currentStageIndex run < length (pr_stages run)"
    and "\<And>k. k < length (pr_stages run) \<Longrightarrow>
      mirrors (op_stages (pr_definition run) ! k) k (pr_stages run ! k)"
    and "\<And>k. k < length (pr_stages run) \<Longrightarrow>
      (if k < pr_currentStageIndex run
       then sr_status (pr_stages run ! k) = StCompleted \<and> \<not> P StCompleted
       else P (sr_status (pr_stages run ! k)) \<or> sr_status (pr_stages run ! k) = StCancelled)"
  shows "pipeline_inv (cancel_stages P now run)"
proof -
  have "slot_ok (cancel_stages P now run) k" if k: "k < length (pr_stages run)" for k
    using assms(4) [OF k] assms(5) [OF k] k
    by (auto simp: slot_ok_def cancel_stages_def mirrors_def split: if_splits)
  then show ?thesis using assms(2,3) by (simp add: pipeline_inv_slots cancel_stages_def)
qed

section \<open>Lemmas: one step of the machine\<close>

definition stage_progress :: "stage_run \<Rightarrow> nat" where
  "stage_progress s =
     (if sr_status s = StAwaitingApproval then 2
      else if sr_assignedAgentId s \<noteq> None then 1 else 0)"

text \<open>Every accepted operation works on the current stage, finishes it, or stops the run.\<close>

lemma pipeline_apply_effect:
  assumes inv: "pipeline_inv run" and acc: "pipeline_apply oc now run = ok run'"
  obtains (Working) s where "pr_status run = RunActive" "pipeline_inv (set_cur s run)"
      "stage_progress (cur_stage run) < stage_progress s" "run' = changed now (set_cur s run)"
  | (Advanced) s where "pr_status run = RunActive" "pipeline_inv (set_cur s run)"
      "run' = advance now (set_cur s run)"
  | (Stopped) P s where "pr_status run = RunActive"
      "pipeline_inv (cancel_stages P now (set_cur s run))"
      "run' = cancel_stages P now (set_cur s run)"
proof (cases oc)
  case (Assign a r)
  note e = assign_ok [OF inv acc [unfolded Assign pipeline_apply.simps]]
  show ?thesis
    by (rule Working [OF e(1) _ _ e(7)])
      (use pipeline_invD(5) [OF inv] e(1-3) in
        \<open>auto intro!: set_cur_inv [OF inv] simp: mirrors_def stage_progress_def\<close>)
next
  case (CompleteStage a)
  note e = completeStage_ok [OF inv acc [unfolded CompleteStage pipeline_apply.simps]]
  show ?thesis
  proof (cases "os_requiresApproval (cur_def run)")
    case True
    show ?thesis
      by (rule Working [OF e(1), of "(cur_stage run)\<lparr>sr_status := StAwaitingApproval\<rparr>"])
        (use pipeline_invD(5) [OF inv] e True in
          \<open>auto intro!: set_cur_inv [OF inv] simp: mirrors_def stage_progress_def\<close>)
  next
    case False
    then show ?thesis using e inv by (intro Advanced [of "cur_stage run"]) simp_all
  qed
next
  case (ApproveStage a ra)
  note e = approveStage_ok [OF inv acc [unfolded ApproveStage pipeline_apply.simps]]
  show ?thesis by (rule Advanced [OF e(1) e(5) e(6)])
next
  case (RejectStage a ra)
  note e = rejectStage_ok [OF inv acc [unfolded RejectStage pipeline_apply.simps]]
  show ?thesis
    by (rule Stopped [OF e(1) _ e(5)], rule cancel_stages_inv)
      (use inv e(1,2) in \<open>auto simp: pipeline_inv_def nth_list_update mirrors_def\<close>)
next
  case (OverrideCurrent i a re)
  then obtain p where "PipelineRun_overrideCurrent i a re now run = ok p" "run' = fst p"
    using acc by (auto simp: result_simps)
  with overrideCurrent_ok [OF inv this(1)] inv show ?thesis
    by (intro Advanced [of "cur_stage run"]) simp_all
next
  case (CancelRun a)
  note e = cancel_ok [OF acc [unfolded CancelRun pipeline_apply.simps]]
  let ?P = "\<lambda>st. st = StPending \<or> st = StActive \<or> st = StAwaitingApproval"
  have "pipeline_inv (cancel_stages ?P now (set_cur (cur_stage run) run))"
    unfolding set_cur_self by (rule cancel_stages_inv)
      (use inv e(1) in \<open>auto simp: pipeline_inv_def split: if_splits\<close>)
  then show ?thesis using e by (intro Stopped [of ?P "cur_stage run"]) simp_all
qed

lemma pipeline_apply_inv:
  assumes "pipeline_inv run" and "pipeline_apply oc now run = ok run'"
  shows "pipeline_inv run'"
  using assms by (rule pipeline_apply_effect) (simp_all add: advance_inv)

text \<open>The fields an operation never changes.\<close>

definition same_identity :: "pipeline_run \<Rightarrow> pipeline_run \<Rightarrow> bool" where
  "same_identity r r' \<longleftrightarrow>
     pr_id r' = pr_id r \<and> pr_projectId r' = pr_projectId r \<and> pr_taskId r' = pr_taskId r
     \<and> pr_manifestRevisionId r' = pr_manifestRevisionId r
     \<and> pr_manifestRevision r' = pr_manifestRevision r \<and> pr_definition r' = pr_definition r
     \<and> pr_startedBy r' = pr_startedBy r \<and> pr_createdAt r' = pr_createdAt r
     \<and> pr_configurationPin r' = pr_configurationPin r
     \<and> length (pr_stages r') = length (pr_stages r)"

lemmas effect_defs = changed_def set_cur_def advance_def cancel_stages_def Let_def

lemma pipeline_apply_version:
  assumes "pipeline_inv run" and "pipeline_apply oc now run = ok run'"
  shows "pr_version run' = Suc (pr_version run) \<and> pr_updatedAt run' = now
    \<and> same_identity run run' \<and> pr_status run = RunActive"
  using assms by (rule pipeline_apply_effect) (simp_all add: same_identity_def effect_defs)

text \<open>A bound on the work left: three operations for each stage that is not finished.\<close>

definition work_left :: "pipeline_run \<Rightarrow> nat" where
  "work_left run =
     (if pr_status run = RunActive
      then 3 * (length (pr_stages run) - pr_currentStageIndex run) - stage_progress (cur_stage run)
      else 0)"

lemma stage_progress_le: "stage_progress s \<le> 2"
  by (simp add: stage_progress_def)

lemma advance_progress:
  assumes "pipeline_inv run" and "pr_status run = RunActive"
    and "Suc (pr_currentStageIndex run) < length (pr_stages run)"
  shows "stage_progress (cur_stage (advance now run)) = 0"
proof -
  let ?k = "Suc (pr_currentStageIndex run)"
  have "slot_ok run ?k" using assms by (simp add: pipeline_inv_slots)
  then have "sr_assignedAgentId (pr_stages run ! ?k) = None"
    using assms(2) by (auto simp: slot_ok_def mirrors_def)
  then show ?thesis using assms(3) by (simp add: stage_progress_def advance_simps advance_nth)
qed

lemma work_left_less:
  assumes "pipeline_inv run" and "pipeline_apply oc now run = ok run'"
  shows "work_left run' < work_left run"
  using assms
proof (rule pipeline_apply_effect)
  fix s
  assume "pr_status run = RunActive" "stage_progress (cur_stage run) < stage_progress s"
    "run' = changed now (set_cur s run)"
  then show ?thesis using stage_progress_le [of s] pipeline_invD(1) [OF assms(1)]
    by (simp add: work_left_def effect_defs)
next
  fix s
  assume s: "pr_status run = RunActive" "pipeline_inv (set_cur s run)"
    "run' = advance now (set_cur s run)"
  show ?thesis
    using advance_progress [OF s(2), of now] stage_progress_le [of "cur_stage run"] s
      pipeline_invD(1) [OF assms(1)]
    by (auto simp: work_left_def advance_simps)
next
  fix P s
  assume "pr_status run = RunActive" "run' = cancel_stages P now (set_cur s run)"
  then show ?thesis using stage_progress_le [of "cur_stage run"] pipeline_invD(1) [OF assms(1)]
    by (simp add: work_left_def cancel_stages_def)
qed

lemma reachable_inv:
  assumes "pipeline_reachable permitted n run"
  shows "pipeline_inv run \<and> pr_version run = Suc n
    \<and> n + work_left run \<le> 3 * length (pr_stages run)"
  using assms
proof (induction rule: pipeline_reachable.induct)
  case (created i p t ri rv d sb ids pin now run)
  then show ?case using create_inv [OF created] create_ok [OF created] by (simp add: work_left_def)
next
  case (step n run oc now run')
  then show ?case
    using pipeline_apply_inv [of run oc now run'] pipeline_apply_version [of run oc now run']
      work_left_less [of run oc now run'] by (simp add: same_identity_def)
qed

section \<open>Lemmas: approvals and separation of agents\<close>

definition legit_completion :: "office_pipeline_stage \<Rightarrow> stage_run \<Rightarrow> bool" where
  "legit_completion d s \<longleftrightarrow> sr_assignedAgentId s \<noteq> None
     \<and> (os_requiresApproval d \<longrightarrow> sr_approvalDecision s = Some Approved
          \<and> (\<exists>a. canonical_text a \<and> sr_approvedBy s = Some a
               \<and> (os_requiresIndependentApproval d = Some True \<longrightarrow> sr_assignedAgentId s \<noteq> Some a)))"

definition legit_inv :: "pipeline_run \<Rightarrow> bool" where
  "legit_inv run \<longleftrightarrow> (\<forall>k < length (pr_stages run).
     sr_status (pr_stages run ! k) = StCompleted \<longrightarrow>
       legit_completion (op_stages (pr_definition run) ! k) (pr_stages run ! k))"

lemma legit_set_cur:
  assumes "legit_inv run" and "sr_status s \<noteq> StCompleted"
  shows "legit_inv (set_cur s run)"
  unfolding legit_inv_def
proof (intro allI impI)
  fix k
  assume k: "k < length (pr_stages (set_cur s run))"
    and c: "sr_status (pr_stages (set_cur s run) ! k) = StCompleted"
  then have "k \<noteq> pr_currentStageIndex run" using assms(2) by auto
  then show "legit_completion (op_stages (pr_definition (set_cur s run)) ! k)
      (pr_stages (set_cur s run) ! k)"
    using assms(1) k c by (simp add: legit_inv_def)
qed

lemma legit_changed [simp]: "legit_inv (changed now run) = legit_inv run"
  by (simp add: legit_inv_def changed_def)

lemma legit_advance:
  "legit_inv run \<Longrightarrow> legit_completion (cur_def run) (cur_stage run) \<Longrightarrow> legit_inv (advance now run)"
  by (auto simp: legit_inv_def advance_simps advance_nth legit_completion_def)

lemma legit_cancel: "legit_inv run \<Longrightarrow> legit_inv (cancel_stages P now run)"
  by (auto simp: legit_inv_def cancel_stages_def)

fun is_override :: "pipeline_op \<Rightarrow> bool" where
  "is_override (OverrideCurrent _ _ _) = True"
| "is_override _ = False"

lemma pipeline_apply_legit:
  assumes inv: "pipeline_inv run" and acc: "pipeline_apply oc now run = ok run'"
    and no: "\<not> is_override oc" and legit: "legit_inv run"
  shows "legit_inv run'"
proof (cases oc)
  case (Assign a r)
  show ?thesis using assign_ok [OF inv acc [unfolded Assign pipeline_apply.simps]] legit
    by (simp add: legit_set_cur)
next
  case (CompleteStage a)
  note e = completeStage_ok [OF inv acc [unfolded CompleteStage pipeline_apply.simps]]
  show ?thesis
  proof (cases "os_requiresApproval (cur_def run)")
    case True
    then show ?thesis using e legit by (simp add: legit_set_cur)
  next
    case False
    then show ?thesis using e legit by (simp add: legit_advance legit_completion_def)
  qed
next
  case (ApproveStage a ra)
  note e = approveStage_ok [OF inv acc [unfolded ApproveStage pipeline_apply.simps]]
  let ?s = "approved_stage a ra now (cur_stage run)"
  have st: "sr_status ?s = StAwaitingApproval" using e(2) by (simp add: approved_stage_def)
  then have "legit_inv (set_cur ?s run)" using legit by (simp add: legit_set_cur)
  moreover have "legit_completion (cur_def run) ?s"
    using e(2-4) pipeline_invD(5) [OF inv] canonical_trim [of a]
    by (auto simp: legit_completion_def approved_stage_def mirrors_def)
  ultimately show ?thesis using e(6) pipeline_invD(1) [OF inv] by (simp add: legit_advance)
next
  case (RejectStage a ra)
  show ?thesis using rejectStage_ok [OF inv acc [unfolded RejectStage pipeline_apply.simps]] legit
    by (simp add: legit_cancel legit_set_cur)
next
  case (OverrideCurrent i a re)
  then show ?thesis using no by simp
next
  case (CancelRun a)
  show ?thesis using cancel_ok [OF acc [unfolded CancelRun pipeline_apply.simps]] legit
    by (simp add: legit_cancel)
qed

lemma reachable_legit:
  assumes "pipeline_reachable (\<lambda>oc. \<not> is_override oc) n run"
  shows "legit_inv run"
  using assms
proof (induction rule: pipeline_reachable.induct)
  case (created i p t ri rv d sb ids pin now run)
  have "sr_status (pr_stages run ! k) \<noteq> StCompleted" if "k < length (pr_stages run)" for k
    using new_stage_run_ok [OF create_ok(7) [OF created]] create_ok(6) [OF created] that by simp
  then show ?case by (simp add: legit_inv_def)
next
  case (step n run oc now run')
  then show ?case using reachable_inv pipeline_apply_legit by blast
qed

text \<open>
  Separation: an assigned stage that must differ from an earlier stage has another agent. The
  earlier stage is the first one with the named identifier, as the code looks it up.
\<close>

definition separates :: "office_pipeline \<Rightarrow> nat \<Rightarrow> nat \<Rightarrow> bool" where
  "separates d j k \<longleftrightarrow> j < k \<and> os_id (op_stages d ! j) \<in> set (differentAgentFrom (op_stages d ! k))
     \<and> (\<forall>i < j. os_id (op_stages d ! i) \<noteq> os_id (op_stages d ! j))"

definition separation_inv :: "pipeline_run \<Rightarrow> bool" where
  "separation_inv run \<longleftrightarrow> (\<forall>k < length (pr_stages run). \<forall>j.
     separates (pr_definition run) j k \<longrightarrow> sr_assignedAgentId (pr_stages run ! k) = None
       \<or> sr_assignedAgentId (pr_stages run ! k) \<noteq> sr_assignedAgentId (pr_stages run ! j))"

definition assignees :: "pipeline_run \<Rightarrow> string option list" where
  "assignees run = map sr_assignedAgentId (pr_stages run)"

lemma separation_inv_cong:
  assumes "separation_inv run" and "assignees run' = assignees run"
    and "pr_definition run' = pr_definition run"
  shows "separation_inv run'"
proof -
  have len: "length (pr_stages run') = length (pr_stages run)"
    using assms(2) by (metis assignees_def length_map)
  have eq: "sr_assignedAgentId (pr_stages run' ! k) = sr_assignedAgentId (pr_stages run ! k)"
    if "k < length (pr_stages run)" for k
    using assms(2) that len unfolding assignees_def by (metis nth_map)
  show ?thesis unfolding separation_inv_def assms(3) len
  proof (intro allI impI)
    fix k j
    assume k: "k < length (pr_stages run)" and s: "separates (pr_definition run) j k"
    then have "j < length (pr_stages run)" by (simp add: separates_def)
    then show "sr_assignedAgentId (pr_stages run' ! k) = None
        \<or> sr_assignedAgentId (pr_stages run' ! k) \<noteq> sr_assignedAgentId (pr_stages run' ! j)"
      using assms(1) k s unfolding separation_inv_def by (simp add: eq)
  qed
qed

lemma assignees_simps [simp]:
  "assignees (changed now run) = assignees run"
  "assignees (cancel_stages P now run) = assignees run"
  "assignees (set_cur s run) = (assignees run)[pr_currentStageIndex run := sr_assignedAgentId s]"
  by (simp_all add: assignees_def changed_def cancel_stages_def map_update o_def)

lemma assignees_advance:
  "pr_currentStageIndex run < length (pr_stages run) \<Longrightarrow> assignees (advance now run) = assignees run"
  by (rule nth_equalityI) (auto simp: assignees_def advance_simps advance_nth)

lemma assignees_cur:
  "pr_currentStageIndex run < length (pr_stages run) \<Longrightarrow>
     (assignees run)[pr_currentStageIndex run := sr_assignedAgentId (cur_stage run)] = assignees run"
  by (simp add: assignees_def flip: map_update)

lemma assign_separated:
  assumes inv: "pipeline_inv run" and acc: "PipelineRun_assign a r now run = ok run'"
    and sep: "separates (pr_definition run) j (pr_currentStageIndex run)"
  shows "sr_assignedAgentId (pr_stages run ! j) \<noteq> Some a"
proof -
  let ?p = "os_id (op_stages (pr_definition run) ! j)"
  have j: "j < pr_currentStageIndex run" using sep by (simp add: separates_def)
  have ids: "sr_stageId (pr_stages run ! i) = os_id (op_stages (pr_definition run) ! i)"
    if "i < length (pr_stages run)" for i using inv that by (auto simp: pipeline_inv_def mirrors_def)
  have "find (\<lambda>v. sr_stageId v = ?p) (pr_stages run) = Some (pr_stages run ! j)"
    unfolding find_Some_iff using j sep ids pipeline_invD(1) [OF inv]
    by (intro exI [of _ j]) (auto simp: separates_def)
  moreover have "separated_from run a (cur_stage run) ?p = ok ()"
    using assign_ok(6) [OF inv acc] sep by (simp add: separates_def)
  ultimately show ?thesis by (auto simp: separated_from_def split: if_splits)
qed

fun canonical_assign :: "pipeline_op \<Rightarrow> bool" where
  "canonical_assign (Assign agent role) = (trim agent = agent)"
| "canonical_assign _ = True"

lemma assign_separation:
  assumes inv: "pipeline_inv run" and acc: "PipelineRun_assign a r now run = ok run'"
    and canonical: "trim a = a" and sep: "separation_inv run"
  shows "separation_inv run'"
proof -
  let ?c = "pr_currentStageIndex run"
  note e = assign_ok [OF inv acc]
  have later: "sr_assignedAgentId (pr_stages run ! k) = None"
    if "?c < k" "k < length (pr_stages run)" for k
    using inv that e(1) by (auto simp: pipeline_inv_def mirrors_def)
  have "sr_assignedAgentId (pr_stages run' ! k) = None
      \<or> sr_assignedAgentId (pr_stages run' ! k) \<noteq> sr_assignedAgentId (pr_stages run' ! j)"
    if k: "k < length (pr_stages run)" and s: "separates (pr_definition run) j k" for k j
  proof -
    have "j < k" using s by (simp add: separates_def)
    consider "k < ?c" | "k = ?c" | "?c < k" by linarith
    then show ?thesis
    proof cases
      case 1
      then show ?thesis using e(7) sep k s \<open>j < k\<close>
        by (auto simp: separation_inv_def changed_def)
    next
      case 2
      have "sr_assignedAgentId (pr_stages run ! j) \<noteq> Some a"
        using assign_separated [OF inv acc] s 2 by simp
      then show ?thesis using e(7) k 2 \<open>j < k\<close> canonical by (simp add: changed_def)
    next
      case 3
      then show ?thesis using e(7) later [OF 3 k] by (simp add: changed_def)
    qed
  qed
  then show ?thesis using e(7) by (simp add: separation_inv_def changed_def)
qed

lemma pipeline_apply_separation:
  assumes inv: "pipeline_inv run" and acc: "pipeline_apply oc now run = ok run'"
    and can: "canonical_assign oc" and sep: "separation_inv run"
  shows "separation_inv run'"
proof (cases "\<exists>a r. oc = Assign a r")
  case True
  then show ?thesis using assign_separation [OF inv _ _ sep] acc can by auto
next
  case False
  note len = pipeline_invD(1) [OF inv]
  have "assignees run' = assignees run"
  proof (cases oc)
    case (Assign a r)
    then show ?thesis using False by simp
  next
    case (CompleteStage a)
    note e = completeStage_ok [OF inv acc [unfolded CompleteStage pipeline_apply.simps]]
    show ?thesis using e(4) assignees_cur [OF len] e(3) len by (simp add: assignees_advance)
  next
    case (ApproveStage a ra)
    show ?thesis using approveStage_ok [OF inv acc [unfolded ApproveStage pipeline_apply.simps]] len
      by (simp add: assignees_advance assignees_cur approved_stage_def)
  next
    case (RejectStage a ra)
    show ?thesis using rejectStage_ok [OF inv acc [unfolded RejectStage pipeline_apply.simps]] len
      by (simp add: assignees_cur)
  next
    case (OverrideCurrent i a re)
    then obtain p where "PipelineRun_overrideCurrent i a re now run = ok p" "run' = fst p"
      using acc by (auto simp: result_simps)
    with overrideCurrent_ok [OF inv this(1)] len show ?thesis by (simp add: assignees_advance)
  next
    case (CancelRun a)
    show ?thesis using cancel_ok [OF acc [unfolded CancelRun pipeline_apply.simps]] by simp
  qed
  then show ?thesis using separation_inv_cong [OF sep] pipeline_apply_version [OF inv acc]
    by (simp add: same_identity_def)
qed

lemma reachable_separation:
  assumes "pipeline_reachable canonical_assign n run"
  shows "separation_inv run"
  using assms
proof (induction rule: pipeline_reachable.induct)
  case (created i p t ri rv d sb ids pin now run)
  have "sr_assignedAgentId (pr_stages run ! k) = None" if "k < length (pr_stages run)" for k
    using new_stage_run_ok [OF create_ok(7) [OF created]] create_ok(6) [OF created] that by simp
  then show ?case by (simp add: separation_inv_def)
next
  case (step n run oc now run')
  then show ?case using reachable_inv pipeline_apply_separation by blast
qed


lemma pipeline_apply_refused:
  assumes "pipeline_inv run" and "pr_status run \<noteq> RunActive"
  shows "\<exists>e. pipeline_apply oc now run = throw e"
  using pipeline_apply_version [OF assms(1), of oc now] assms(2)
  by (cases "pipeline_apply oc now run") auto

section \<open>Executing operations in sequence\<close>

fun pipeline_exec :: "(pipeline_op \<times> js_date) list \<Rightarrow> pipeline_run \<Rightarrow> pipeline_run result" where
  "pipeline_exec [] run = ok run"
| "pipeline_exec ((oc, now) # ops) run = bindR (pipeline_apply oc now run) (pipeline_exec ops)"

lemma pipeline_exec_reachable:
  assumes "pipeline_reachable permitted n run" and "pipeline_exec ops run = ok run'"
    and "\<forall>(oc, _) \<in> set ops. permitted oc"
  shows "pipeline_reachable permitted (n + length ops) run'"
  using assms
proof (induction ops arbitrary: n run)
  case Nil
  then show ?case by simp
next
  case (Cons p ops)
  obtain oc now where p: "p = (oc, now)" by (cases p)
  then obtain r where r: "pipeline_apply oc now run = ok r" "pipeline_exec ops r = ok run'"
    using Cons.prems(2) by (auto simp: result_simps)
  have "pipeline_reachable permitted (Suc n) r"
    using pipeline_reachable.step [OF Cons.prems(1) _ r(1)] Cons.prems(3) p by simp
  from Cons.IH [OF this r(2)] Cons.prems(3) show ?case by simp
qed

lemmas pipeline_ops_defs = PipelineRun_create_def PipelineRun_assign_def PipelineRun_completeStage_def
  PipelineRun_approveStage_def PipelineRun_rejectStage_def PipelineRun_overrideCurrent_def
  PipelineRun_cancel_def requireCurrent_def currentStage_def finishCurrent_def changed_def
  replaceStage_def new_stage_run_def required_def cloneStage_def index_read_def
  separated_from_def differentAgentFrom_def override_rule_def
  trim_def trimStart_def is_js_space_def js_whitespace_def

text \<open>
  A pipeline of two stages, as the examples of the repository have them: the implementation, and
  a review by another agent, with an independent approval.
\<close>

definition build_stage :: office_pipeline_stage where
  "build_stage = \<lparr>os_id = ''build'', os_name = ''Build'', os_roleId = ''dev'',
     os_objective = ''implement'', os_checks = [], os_requiresApproval = False,
     os_requiresIndependentApproval = None, os_capabilities = None,
     os_requiresDifferentAgentFrom = None\<rparr>"

definition review_stage :: office_pipeline_stage where
  "review_stage = \<lparr>os_id = ''review'', os_name = ''Review'', os_roleId = ''qa'',
     os_objective = ''review'', os_checks = [], os_requiresApproval = True,
     os_requiresIndependentApproval = Some True, os_capabilities = None,
     os_requiresDifferentAgentFrom = Some [''build'']\<rparr>"

definition delivery :: office_pipeline where
  "delivery = \<lparr>op_id = ''delivery'', op_name = ''Delivery'', op_description = [], op_defaultFor = [],
     op_enforcement = Some Enforced, op_stages = [build_stage, review_stage]\<rparr>"

definition delivery_started :: "pipeline_run result" where
  "delivery_started =
     PipelineRun_create ''r1'' ''p1'' ''t1'' ''m1'' 1 delivery ''u1'' [''s1'', ''s2''] None (At 0)"

definition delivery_run :: pipeline_run where
  "delivery_run = (case delivery_started of Inr run \<Rightarrow> run)"

lemmas delivery_defs = delivery_run_def delivery_started_def delivery_def build_stage_def review_stage_def

lemma delivery_create:
  "PipelineRun_create ''r1'' ''p1'' ''t1'' ''m1'' 1 delivery ''u1'' [''s1'', ''s2''] None (At 0)
     = ok delivery_run"
  by (simp add: delivery_defs pipeline_ops_defs upt_rec Let_def)

lemma delivery_reachable: "pipeline_reachable permitted 0 delivery_run"
  by (rule pipeline_reachable.created [OF delivery_create])

lemma delivery_run_eq:
  "delivery_run = \<lparr>pr_id = ''r1'', pr_projectId = ''p1'', pr_taskId = ''t1'',
     pr_manifestRevisionId = ''m1'', pr_manifestRevision = 1, pr_definition = delivery,
     pr_status = RunActive, pr_currentStageIndex = 0,
     pr_stages =
       [\<lparr>sr_id = ''s1'', sr_stageId = ''build'', sr_stageIndex = 0, sr_roleId = ''dev'',
         sr_status = StActive, sr_assignedAgentId = None, sr_assignedAt = None,
         sr_completedAt = None, sr_approvedBy = None, sr_approvalDecision = None,
         sr_approvalRationale = None, sr_approvedAt = None\<rparr>,
        \<lparr>sr_id = ''s2'', sr_stageId = ''review'', sr_stageIndex = 1, sr_roleId = ''qa'',
         sr_status = StPending, sr_assignedAgentId = None, sr_assignedAt = None,
         sr_completedAt = None, sr_approvedBy = None, sr_approvalDecision = None,
         sr_approvalRationale = None, sr_approvedAt = None\<rparr>],
     pr_startedBy = ''u1'', pr_version = 1, pr_createdAt = At 0, pr_updatedAt = At 0,
     pr_completedAt = None, pr_cancelledAt = None, pr_configurationPin = None\<rparr>"
  by (simp add: delivery_defs pipeline_ops_defs upt_rec Let_def)

lemmas delivery_eval = delivery_run_eq delivery_def build_stage_def review_stage_def pipeline_ops_defs
  Let_def enumerate_simps

text \<open>The run of a delivery that two agents and an approver finish.\<close>

definition delivery_ops :: "(pipeline_op \<times> js_date) list" where
  "delivery_ops = [(Assign ''a1'' ''dev'', At 1), (CompleteStage ''a1'', At 2),
     (Assign ''a2'' ''qa'', At 3), (CompleteStage ''a2'', At 4),
     (ApproveStage ''boss'' None, At 5)]"

lemma delivery_exec:
  "\<exists>run. pipeline_exec delivery_ops delivery_run = ok run \<and> pr_status run = RunCompleted
     \<and> map sr_assignedAgentId (pr_stages run) = [Some ''a1'', Some ''a2'']"
  by (simp add: delivery_ops_def delivery_eval)

section \<open>Properties\<close>

text \<open>C14. Whatever operations are accepted, in whatever order, the run keeps its shape: one stage
  run for each stage of the frozen definition, in order and with its role, all stages before the
  current one completed, exactly the current one active or awaiting approval while the run is
  active, the rest pending; a completed run has every stage completed and a cancelled run
  every stage from the current one on cancelled. The version is one more than the number of
  accepted operations, which is what the optimistic locking of the repository relies on.\<close>

theorem pipeline_run_shape:
  assumes "pipeline_reachable permitted n run"
  shows "pipeline_inv run \<and> pr_version run = Suc n"
  using reachable_inv [OF assms] by blast

theorem pipeline_run_shape_witness:
  "pipeline_reachable (\<lambda>_. True) 0 delivery_run \<and> pipeline_inv delivery_run \<and> pr_version delivery_run = 1"
  using pipeline_run_shape [OF delivery_reachable [of "\<lambda>_. True"]] delivery_reachable by simp

text \<open>C4. In a run that no override touched, a completed stage had an agent, and where the stage
  requires an approval it was approved by a named actor, who is not the agent of the stage
  when the approval must be independent.\<close>

theorem pipeline_completion_approved:
  assumes "pipeline_reachable (\<lambda>oc. \<not> is_override oc) n run"
    and "k < length (pr_stages run)" and "sr_status (pr_stages run ! k) = StCompleted"
  shows "legit_completion (op_stages (pr_definition run) ! k) (pr_stages run ! k)"
  using reachable_legit [OF assms(1)] assms(2,3) by (simp add: legit_inv_def)

theorem pipeline_completion_approved_witness:
  "\<exists>run. pipeline_exec delivery_ops delivery_run = ok run
     \<and> legit_completion review_stage (pr_stages run ! 1)"
proof -
  obtain run where run: "pipeline_exec delivery_ops delivery_run = ok run"
    using delivery_exec by blast
  have "pipeline_reachable (\<lambda>oc. \<not> is_override oc) (0 + length delivery_ops) run"
    by (rule pipeline_exec_reachable [OF delivery_reachable run]) (simp add: delivery_ops_def)
  moreover have "1 < length (pr_stages run)" "sr_status (pr_stages run ! 1) = StCompleted"
    "op_stages (pr_definition run) ! 1 = review_stage"
    using run by (auto simp: delivery_ops_def delivery_eval)
  ultimately show ?thesis using pipeline_completion_approved [of _ run 1] run by metis
qed

text \<open>C17. As long as agents are assigned under identifiers without surrounding white space, a stage
  that requires another agent than an earlier stage never has the agent of that stage.\<close>

theorem pipeline_agents_separated:
  assumes "pipeline_reachable canonical_assign n run"
    and "k < length (pr_stages run)" and "separates (pr_definition run) j k"
    and "sr_assignedAgentId (pr_stages run ! k) = Some agent"
  shows "sr_assignedAgentId (pr_stages run ! j) \<noteq> Some agent"
  using reachable_separation [OF assms(1)] assms(2-4) unfolding separation_inv_def by (metis option.distinct(1))

theorem pipeline_agents_separated_witness:
  "\<exists>run. pipeline_exec delivery_ops delivery_run = ok run
     \<and> sr_assignedAgentId (pr_stages run ! 0) \<noteq> Some ''a2''"
proof -
  obtain run where run: "pipeline_exec delivery_ops delivery_run = ok run"
    using delivery_exec by blast
  have "pipeline_reachable canonical_assign (0 + length delivery_ops) run"
    by (rule pipeline_exec_reachable [OF delivery_reachable run])
      (simp add: delivery_ops_def trim_fixed is_js_space_def js_whitespace_def)
  moreover have "1 < length (pr_stages run)" "sr_assignedAgentId (pr_stages run ! 1) = Some ''a2''"
    "pr_definition run = delivery"
    using run by (auto simp: delivery_ops_def delivery_eval)
  moreover have "separates delivery 0 1"
    by (simp add: separates_def delivery_def build_stage_def review_stage_def differentAgentFrom_def)
  ultimately show ?thesis using pipeline_agents_separated [of _ run 1 0 "''a2''"] run by metis
qed

text \<open>The separation check compares the identifier as it was given, the stage keeps it trimmed:
  an identifier with a blank in front passes the check, and both stages that must have
  different agents end up with the same one.\<close>

theorem pipeline_padded_agent_passes:
  "\<exists>run. pipeline_exec [(Assign ''a1'' ''dev'', At 1), (CompleteStage ''a1'', At 2),
       (Assign '' a1'' ''qa'', At 3)] delivery_run = ok run
     \<and> separates (pr_definition run) 0 1
     \<and> sr_assignedAgentId (pr_stages run ! 0) = Some ''a1''
     \<and> sr_assignedAgentId (pr_stages run ! 1) = Some ''a1''"
  by (simp add: delivery_eval separates_def)

text \<open>C18. A run ends: at most three operations for each stage are ever accepted, and a run that
  is completed or cancelled accepts none.\<close>

theorem pipeline_run_terminates:
  assumes "pipeline_reachable permitted n run"
  shows "n \<le> 3 * length (pr_stages run)
    \<and> (pr_status run \<noteq> RunActive \<longrightarrow> (\<exists>e. pipeline_apply oc now run = throw e))"
  using reachable_inv [OF assms] pipeline_apply_refused [of run oc now] by auto

theorem pipeline_run_terminates_witness:
  "\<exists>run. pipeline_exec delivery_ops delivery_run = ok run \<and> 5 \<le> 3 * length (pr_stages run)
     \<and> (\<exists>e. pipeline_apply (CancelRun ''u1'') (At 9) run = throw e)"
proof -
  obtain run where run: "pipeline_exec delivery_ops delivery_run = ok run"
      "pr_status run = RunCompleted"
    using delivery_exec by blast
  have "pipeline_reachable (\<lambda>_. True) (0 + length delivery_ops) run"
    by (rule pipeline_exec_reachable [OF delivery_reachable run(1)]) simp
  from pipeline_run_terminates [OF this, of "CancelRun ''u1''" "At 9"] run show ?thesis
    by (auto simp: delivery_ops_def)
qed

text \<open>No run is stuck: while it is active, an override with an identifier, an actor and a reason
  is accepted; it finishes the current stage, records the rule it set aside, and activates
  the next stage or completes the run.\<close>

theorem pipeline_override_always_possible:
  assumes "pipeline_reachable permitted n run" and "pr_status run = RunActive"
    and "trim i \<noteq> []" and "trim actor \<noteq> []" and "trim reason \<noteq> []"
  shows "\<exists>run' ov. PipelineRun_overrideCurrent i actor reason now run = ok (run', ov)
    \<and> sr_status (pr_stages run' ! pr_currentStageIndex run) = StCompleted
    \<and> (if Suc (pr_currentStageIndex run) < length (pr_stages run)
       then pr_status run' = RunActive \<and> pr_currentStageIndex run' = Suc (pr_currentStageIndex run)
         \<and> sr_status (pr_stages run' ! Suc (pr_currentStageIndex run)) = StActive
       else pr_status run' = RunCompleted)
    \<and> ov_stageRunId ov = sr_id (pr_stages run ! pr_currentStageIndex run)
    \<and> ov_previousRule ov = override_rule (pr_stages run ! pr_currentStageIndex run)"
proof -
  have inv: "pipeline_inv run" using reachable_inv [OF assms(1)] by blast
  show ?thesis using assms(2-5) pipeline_invD(1) [OF inv]
    by (auto simp: PipelineRun_overrideCurrent_def currentStage_eq [OF inv] finishCurrent_eq [OF inv]
        required_def advance_simps advance_nth)
qed

theorem pipeline_override_always_possible_witness:
  "\<exists>run' ov. PipelineRun_overrideCurrent ''o1'' ''u1'' ''late'' (At 3) delivery_run = ok (run', ov)
    \<and> pr_currentStageIndex run' = 1 \<and> ov_previousRule ov = ''pipeline_agent_not_assigned''"
proof -
  have *: "trim ''o1'' \<noteq> []" "trim ''u1'' \<noteq> []" "trim ''late'' \<noteq> []"
    by (simp_all add: trim_def trimStart_def is_js_space_def js_whitespace_def)
  have **: "pr_status delivery_run = RunActive" "pr_currentStageIndex delivery_run = 0"
    "length (pr_stages delivery_run) = 2"
    "override_rule (pr_stages delivery_run ! 0) = ''pipeline_agent_not_assigned''"
    by (simp_all add: delivery_run_eq override_rule_def)
  from pipeline_override_always_possible [OF delivery_reachable [of "\<lambda>_. True"] **(1) *, of "At 3"] **
  show ?thesis by auto
qed

end
