(* ===== verification/Action_Storage.thy ===== *)
theory Action_Storage
  imports Connector_Registry Task_Commands Pipeline_Run
begin

text \<open>
  The tables of controlled actions and their SQLite repositories,
  \<open>sqlite-capability-policy.repository.ts\<close> and \<open>sqlite-controlled-execution.repository.ts\<close>, with
  the constraints and triggers of the migrations 0012 to 0014, 0020 and 0021. A row is the value it
  restores; its JSON columns hold plain JSON data. ISO texts order as the dates do, which they do
  for the years 0 to 9999. \<open>INSERT OR IGNORE\<close> passes over a row that breaks a uniqueness or check
  constraint and aborts on a trigger or a foreign key.
\<close>

section \<open>The tables\<close>

record agent =
  ag_id :: string
  ag_projectId :: string
  ag_roleId :: string
  ag_enabled :: bool

record registered_resource = resource +
  rs_externalRef :: "string option"
  rs_displayName :: string
  rs_createdAt :: js_date
  rs_updatedAt :: js_date

record registered_grant = capability_grant +
  gr_grantedBy :: string
  gr_reason :: string
  gr_createdAt :: js_date

text \<open>\<open>adb_roles\<close> are the roles' identifiers with their projects.\<close>

record action_db = project_db +
  adb_roles :: "(string \<times> string) list"
  adb_agents :: "agent list"
  adb_runs :: "agent_run list"
  adb_pipelines :: "pipeline_run list"
  adb_resources :: "registered_resource list"
  adb_grants :: "registered_grant list"
  adb_requests :: "action_request list"
  adb_simulations :: "action_simulation list"
  adb_approvals :: "action_approval list"
  adb_executions :: "action_execution list"

abbreviation constraint_error :: "string \<Rightarrow> error" where
  "constraint_error s \<equiv> StorageConstraintError s"

text \<open>\<open>length(trim(x)) > 0\<close>: SQLite trims spaces only and counts up to the first NUL.\<close>

definition sql_nonblank :: "string \<Rightarrow> bool" where
  "sql_nonblank s \<longleftrightarrow> (case dropWhile (\<lambda>c. c = CHR '' '') s of [] \<Rightarrow> False | c # _ \<Rightarrow> c \<noteq> CHR 0x00)"

definition iso_optional :: "js_date option \<Rightarrow> unit result" where
  "iso_optional d = (case d of None \<Rightarrow> ok () | Some x \<Rightarrow> iso_check x)"

definition sql_before :: "js_date \<Rightarrow> js_date \<Rightarrow> bool" where
  "sql_before a b \<longleftrightarrow> date_ms a < date_ms b"

subsection \<open>The rows of other components\<close>

definition findAgent :: "'z action_db_scheme \<Rightarrow> string \<Rightarrow> agent option" where
  "findAgent db i = find (\<lambda>a. ag_id a = i) (adb_agents db)"

definition findRole :: "'z action_db_scheme \<Rightarrow> string \<Rightarrow> string \<Rightarrow> string option" where
  "findRole db i p = (if (i, p) \<in> set (adb_roles db) then Some i else None)"

definition findRun :: "'z action_db_scheme \<Rightarrow> string \<Rightarrow> agent_run option" where
  "findRun db i = find (\<lambda>r. ar_id r = i) (adb_runs db)"

definition findPipeline :: "'z action_db_scheme \<Rightarrow> string \<Rightarrow> string \<Rightarrow> pipeline_run option" where
  "findPipeline db i p = find (\<lambda>r. pr_id r = i \<and> pr_projectId r = p) (adb_pipelines db)"

subsection \<open>Resources\<close>

text \<open>\<open>JSON.parse\<close> of a stored object and \<open>normalizeCanonicalJson\<close>.\<close>

definition parseRecord :: "js_value \<Rightarrow> js_value result" where
  "parseRecord v = bindR (normalizeCanonicalJson v) (\<lambda>j. case j of
     JObj _ \<Rightarrow> ok (embed j)
   | _ \<Rightarrow> throw (constraint_error ''Stored capability JSON is not an object''))"

fun is_object :: "js_value \<Rightarrow> bool" where
  "is_object (JsObject _ _ _) = True"
| "is_object _ = False"

text \<open>
  The triggers on stored JSON: no key, at any depth, is prototype-sensitive or the name of a
  credential. \<open>lower\<close> is that of SQLite, for ASCII letters only.
\<close>

fun value_keys :: "js_value \<Rightarrow> string set" where
  "value_keys (JsArray _ _ ss) = (\<Union>s \<in> set ss. case s of Data v \<Rightarrow> value_keys v | _ \<Rightarrow> {})"
| "value_keys (JsObject _ _ ps) = (\<Union>(k, s) \<in> set ps. insert k (case s of Data v \<Rightarrow> value_keys v | _ \<Rightarrow> {}))"
| "value_keys _ = {}"

definition sql_lower :: "char \<Rightarrow> char" where
  "sql_lower c = (let n = of_char c :: nat in if 65 \<le> n \<and> n \<le> 90 then char_of (n + 32) else c)"

definition credential_key :: "string \<Rightarrow> bool" where
  "credential_key k \<longleftrightarrow>
     map sql_lower (filter (\<lambda>c. c \<notin> set ''_- '') k) \<in> set sensitiveFieldNames"

definition json_safe :: "js_value \<Rightarrow> bool" where
  "json_safe v \<longleftrightarrow> (\<forall>k \<in> value_keys v. k \<notin> set forbiddenObjectKeys)"

definition configuration_safe :: "js_value \<Rightarrow> bool" where
  "configuration_safe v \<longleftrightarrow> json_safe v \<and> (\<forall>k \<in> value_keys v. \<not> credential_key k)"

definition resource_checks :: "registered_resource \<Rightarrow> bool" where
  "resource_checks r \<longleftrightarrow> sql_nonblank (rs_displayName r) \<and> is_object (rc_configuration r)
     \<and> (rc_provider r = ''fake'' \<and> rc_type r = FilesystemScope
        \<or> rc_provider r = ''filesystem'' \<and> rc_type r = FilesystemScope
          \<and> (case rs_externalRef r of None \<Rightarrow> False | Some e \<Rightarrow> sql_nonblank e))"

definition saveResource :: "registered_resource \<Rightarrow> 'z action_db_scheme \<Rightarrow> (unit \<times> 'z action_db_scheme) result" where
  "saveResource v db =
     bindR (iso_check (rs_createdAt v)) (\<lambda>_. bindR (iso_check (rs_updatedAt v)) (\<lambda>_.
       if \<not> configuration_safe (rc_configuration v)
       then throw (constraint_error ''resource configuration contains a forbidden field'')
       else if \<not> resource_checks v then throw (constraint_error ''CHECK constraint failed: resources'')
       else if \<exists>r \<in> set (adb_resources db). rc_id r = rc_id v
       then throw (constraint_error ''UNIQUE constraint failed: resources.id'')
       else if \<not> project_exists db (rc_projectId v)
       then throw (constraint_error ''FOREIGN KEY constraint failed'')
       else ok ((), db\<lparr>adb_resources := adb_resources db @ [v]\<rparr>)))"

definition restore_resource :: "registered_resource \<Rightarrow> registered_resource result" where
  "restore_resource row = bindR (parseRecord (rc_configuration row)) (\<lambda>c. ok (row\<lparr>rc_configuration := c\<rparr>))"

definition findResource :: "'z action_db_scheme \<Rightarrow> string \<Rightarrow> registered_resource option result" where
  "findResource db i = optionally restore_resource (find (\<lambda>r. rc_id r = i) (adb_resources db))"

definition listResources :: "'z action_db_scheme \<Rightarrow> string \<Rightarrow> registered_resource list result" where
  "listResources db p = mapR restore_resource
     (sort_key (\<lambda>r. (date_ms (rs_createdAt r), rc_id r)) (filter (\<lambda>r. rc_projectId r = p) (adb_resources db)))"

text \<open>A conditional update of one row by its key; the result says whether it hit.\<close>

definition update_hit :: "('r \<Rightarrow> bool) \<Rightarrow> ('r \<Rightarrow> 'r) \<Rightarrow> 'r list \<Rightarrow> 'r list" where
  "update_hit hit change rows = map (\<lambda>r. if hit r then change r else r) rows"

definition disableResource ::
  "string \<Rightarrow> string \<Rightarrow> js_date \<Rightarrow> 'z action_db_scheme \<Rightarrow> (bool \<times> 'z action_db_scheme) result" where
  "disableResource i p now db =
     bindR (iso_check now) (\<lambda>_.
       let hit = (\<lambda>r. rc_id r = i \<and> rc_projectId r = p \<and> rc_status r = ResourceActive) in
       ok (length (filter hit (adb_resources db)) = 1,
         db\<lparr>adb_resources := update_hit hit (\<lambda>r. r\<lparr>rc_status := ResourceDisabled, rs_updatedAt := now\<rparr>)
           (adb_resources db)\<rparr>))"

subsection \<open>Grants\<close>

definition principal_owned :: "'z action_db_scheme \<Rightarrow> registered_grant \<Rightarrow> bool" where
  "principal_owned db g \<longleftrightarrow>
     (cg_principalType g = PrincipalAgent \<longrightarrow>
        (\<exists>a \<in> set (adb_agents db). ag_id a = cg_principalId g \<and> ag_projectId a = cg_projectId g))
     \<and> (cg_principalType g = PrincipalRole \<longrightarrow> (cg_principalId g, cg_projectId g) \<in> set (adb_roles db))"

definition grant_checks :: "registered_grant \<Rightarrow> bool" where
  "grant_checks g \<longleftrightarrow> sql_nonblank (cg_principalId g) \<and> cg_actions g \<noteq> [] \<and> is_object (cg_constraints g)
     \<and> sql_nonblank (gr_grantedBy g) \<and> sql_nonblank (gr_reason g)
     \<and> (case cg_expiresAt g of None \<Rightarrow> True | Some e \<Rightarrow> sql_before (cg_validFrom g) e)
     \<and> (case cg_revokedAt g of None \<Rightarrow> True | Some r \<Rightarrow> \<not> sql_before r (gr_createdAt g))"

definition saveGrant :: "registered_grant \<Rightarrow> 'z action_db_scheme \<Rightarrow> (unit \<times> 'z action_db_scheme) result" where
  "saveGrant v db =
     bindR (iso_check (cg_validFrom v)) (\<lambda>_. bindR (iso_optional (cg_expiresAt v)) (\<lambda>_.
     bindR (iso_optional (cg_revokedAt v)) (\<lambda>_. bindR (iso_check (gr_createdAt v)) (\<lambda>_.
       if \<not> list_all sql_nonblank (cg_actions v)
       then throw (constraint_error ''capability actions must be non-empty strings'')
       else if \<not> json_safe (cg_constraints v)
       then throw (constraint_error ''capability constraints contain a forbidden field'')
       else if \<not> principal_owned db v
       then throw (constraint_error ''capability principal must belong to the same project'')
       else if \<not> grant_checks v then throw (constraint_error ''CHECK constraint failed: capability_grants'')
       else if \<exists>g \<in> set (adb_grants db). cg_id g = cg_id v
       then throw (constraint_error ''UNIQUE constraint failed: capability_grants.id'')
       else if \<not> project_exists db (cg_projectId v)
         \<or> \<not> (\<exists>r \<in> set (adb_resources db). rc_id r = cg_resourceId v \<and> rc_projectId r = cg_projectId v)
       then throw (constraint_error ''FOREIGN KEY constraint failed'')
       else ok ((), db\<lparr>adb_grants := adb_grants db @ [v]\<rparr>)))))"

definition restore_grant :: "registered_grant \<Rightarrow> registered_grant result" where
  "restore_grant row = bindR (parseRecord (cg_constraints row)) (\<lambda>c. ok (row\<lparr>cg_constraints := c\<rparr>))"

definition findGrant :: "'z action_db_scheme \<Rightarrow> string \<Rightarrow> registered_grant option result" where
  "findGrant db i = optionally restore_grant (find (\<lambda>g. cg_id g = i) (adb_grants db))"

definition listGrants ::
  "'z action_db_scheme \<Rightarrow> string \<Rightarrow> string option \<Rightarrow> registered_grant list result" where
  "listGrants db p resourceId = mapR restore_grant
     (sort_key (\<lambda>g. (date_ms (gr_createdAt g), cg_id g))
       (filter (\<lambda>g. cg_projectId g = p \<and> (case resourceId of None \<Rightarrow> True | Some r \<Rightarrow> cg_resourceId g = r)) (adb_grants db)))"

text \<open>Only a grant not yet revoked is hit, and the date of the revocation cannot precede the grant.\<close>

definition revokeGrant ::
  "string \<Rightarrow> string \<Rightarrow> js_date \<Rightarrow> 'z action_db_scheme \<Rightarrow> (bool \<times> 'z action_db_scheme) result" where
  "revokeGrant i p now db =
     bindR (iso_check now) (\<lambda>_.
       let hit = (\<lambda>g. cg_id g = i \<and> cg_projectId g = p \<and> cg_revokedAt g = None) in
       if list_ex (\<lambda>g. hit g \<and> sql_before now (gr_createdAt g)) (adb_grants db)
       then throw (constraint_error ''capability grant revocation is immutable'')
       else ok (length (filter hit (adb_grants db)) = 1,
         db\<lparr>adb_grants := update_hit hit (\<lambda>g. g\<lparr>cg_revokedAt := Some now\<rparr>) (adb_grants db)\<rparr>))"

subsection \<open>Action requests\<close>

definition filesystem_reads :: "string list" where
  "filesystem_reads = [''filesystem.list'', ''filesystem.read'', ''filesystem.search'']"

definition filesystem_mutations :: "string list" where
  "filesystem_mutations = [''filesystem.create'', ''filesystem.write'', ''filesystem.move'', ''filesystem.delete'']"

definition fake_mutations :: "string list" where
  "fake_mutations = [''fake.write'', ''fake.delete'', ''fake.admin'']"

definition made_by :: "string \<Rightarrow> string list \<Rightarrow> string list \<Rightarrow> action_request \<Rightarrow> bool" where
  "made_by connector versions operations r \<longleftrightarrow> aq_connector r = connector
     \<and> aq_connectorVersion r \<in> set versions \<and> aq_operation r \<in> set operations"

definition request_connector_ok :: "action_request \<Rightarrow> bool" where
  "request_connector_ok r \<longleftrightarrow> aq_connector r = ''fake'' \<and> aq_connectorVersion r = ''1''
     \<or> aq_connector r = ''filesystem'' \<and> aq_connectorVersion r \<in> {''1'', ''2''}"

definition of_request :: "action_request \<Rightarrow> string \<Rightarrow> string \<Rightarrow> bool" where
  "of_request r p i \<longleftrightarrow> p = aq_projectId r \<and> i = aq_id r"

definition has_approval :: "'z action_db_scheme \<Rightarrow> action_request \<Rightarrow> approval_status \<Rightarrow> bool" where
  "has_approval db r s \<longleftrightarrow>
     (\<exists>a \<in> set (adb_approvals db). of_request r (ap_projectId a) (ap_actionRequestId a) \<and> ap_status a = s)"

definition has_execution :: "'z action_db_scheme \<Rightarrow> action_request \<Rightarrow> execution_status \<Rightarrow> bool" where
  "has_execution db r s \<longleftrightarrow>
     (\<exists>e \<in> set (adb_executions db). of_request r (ex_projectId e) (ex_actionRequestId e) \<and> ex_status e = s)"

fun execution_of_status :: "action_status \<Rightarrow> execution_status option" where
  "execution_of_status AsExecuting = Some ExExecuting"
| "execution_of_status AsCompleted = Some ExCompleted"
| "execution_of_status AsFailed = Some ExFailed"
| "execution_of_status AsExecutionUnknown = Some ExUnknown"
| "execution_of_status _ = None"

text \<open>The transitions the trigger \<open>action_request_status_transition\<close> lets through, by the old status.\<close>

fun status_trigger :: "'z action_db_scheme \<Rightarrow> action_request \<Rightarrow> action_status \<Rightarrow> action_status \<Rightarrow> bool" where
  "status_trigger db r AsRequested s =
     (aq_decision r = PdDeny \<and> s = AsDenied \<or> aq_decision r \<noteq> PdDeny \<and> s = AsAuthorized)"
| "status_trigger db r AsAuthorized s =
     (s = AsExecuting \<and> aq_decision r = PdAllow \<and> made_by ''filesystem'' [''1'', ''2''] filesystem_reads r
      \<or> s = AsSimulating \<and>
        (made_by ''filesystem'' [''1''] [''filesystem.create'', ''filesystem.write'', ''filesystem.move''] r
           \<and> aq_decision r = PdAllowSimulationOnly
         \<or> made_by ''filesystem'' [''1''] [''filesystem.delete''] r \<and> aq_decision r = PdAllowWithApproval
         \<or> made_by ''filesystem'' [''2''] filesystem_mutations r \<and> aq_decision r = PdAllowWithApproval
         \<or> made_by ''fake'' [''1''] [''fake.write''] r \<and> aq_decision r = PdAllowSimulationOnly
         \<or> made_by ''fake'' [''1''] [''fake.delete'', ''fake.admin''] r \<and> aq_decision r = PdAllowWithApproval))"
| "status_trigger db r AsSimulating s =
     ((s = AsSimulated \<or> s = AsFailed) \<and>
        (made_by ''filesystem'' [''1'', ''2''] filesystem_mutations r \<or> made_by ''fake'' [''1''] fake_mutations r))"
| "status_trigger db r AsSimulated s =
     (s = AsApprovalPending \<and> aq_decision r = PdAllowWithApproval \<and>
        (made_by ''filesystem'' [''1''] [''filesystem.delete''] r
         \<or> made_by ''fake'' [''1''] [''fake.delete'', ''fake.admin''] r
         \<or> made_by ''filesystem'' [''2''] filesystem_mutations r \<and> has_approval db r ApPending))"
| "status_trigger db r AsApprovalPending s =
     (s = AsRejected \<and> aq_connector r = ''filesystem'' \<and> aq_connectorVersion r = ''2'' \<and> has_approval db r ApRejected
      \<or> s = AsExecuting \<and> made_by ''filesystem'' [''2''] filesystem_mutations r \<and> aq_decision r = PdAllowWithApproval
        \<and> has_approval db r ApApproved \<and> has_execution db r ExExecuting)"
| "status_trigger db r AsExecuting s =
     ((s = AsCompleted \<or> s = AsFailed) \<and> made_by ''filesystem'' [''1'', ''2''] filesystem_reads r
      \<or> (s = AsCompleted \<or> s = AsFailed \<or> s = AsExecutionUnknown) \<and> made_by ''filesystem'' [''2''] filesystem_mutations r
        \<and> has_execution db r (the (execution_of_status s)))"
| "status_trigger db r _ s = False"

text \<open>The artifact a simulated request must have.\<close>

definition has_artifact :: "'z action_db_scheme \<Rightarrow> action_request \<Rightarrow> bool" where
  "has_artifact db r \<longleftrightarrow> (\<exists>s \<in> set (adb_simulations db). of_request r (sm_projectId s) (sm_actionRequestId s)
     \<and> sm_authorizationPayloadHash s = aq_payloadHash r \<and> sm_connector s = aq_connector r
     \<and> sm_connectorVersion s = aq_connectorVersion r \<and> sm_operation s = aq_operation r)"

text \<open>
  The binding of a request to an active pipeline run and one of its open stages, and to the agent
  run it comes from.
\<close>

definition pipeline_binding :: "'z action_db_scheme \<Rightarrow> action_request \<Rightarrow> bool" where
  "pipeline_binding db r \<longleftrightarrow>
     (case (aq_pipelineRunId r, aq_pipelineStageRunId r) of
        (None, None) \<Rightarrow> True
      | (Some run, Some stage) \<Rightarrow>
          (\<exists>pr \<in> set (adb_pipelines db). pr_id pr = run \<and> pr_projectId pr = aq_projectId r \<and> pr_status pr = RunActive
             \<and> (\<exists>s \<in> set (pr_stages pr). sr_id s = stage \<and> (sr_status s = StActive \<or> sr_status s = StAwaitingApproval)))
      | _ \<Rightarrow> False)"

definition agent_run_binding :: "'z action_db_scheme \<Rightarrow> action_request \<Rightarrow> bool" where
  "agent_run_binding db r \<longleftrightarrow>
     (case aq_agentRunId r of
        None \<Rightarrow> True
      | Some i \<Rightarrow> \<exists>ar \<in> set (adb_runs db). ar_id ar = i \<and> ar_projectId ar = aq_projectId r
          \<and> ar_agentId ar = aq_agentId r \<and> ar_pipelineRunId ar = aq_pipelineRunId r)"

definition request_references :: "'z action_db_scheme \<Rightarrow> action_request \<Rightarrow> bool" where
  "request_references db r \<longleftrightarrow> project_exists db (aq_projectId r)
     \<and> (\<exists>a \<in> set (adb_agents db). ag_id a = aq_agentId r \<and> ag_projectId a = aq_projectId r)
     \<and> (\<exists>x \<in> set (adb_resources db). rc_id x = aq_resourceId r \<and> rc_projectId x = aq_projectId r)"

definition insertActionRequest :: "action_request \<Rightarrow> 'z action_db_scheme \<Rightarrow> (unit \<times> 'z action_db_scheme) result" where
  "insertActionRequest v db =
     bindR (iso_check (aq_createdAt v)) (\<lambda>_. bindR (iso_check (aq_updatedAt v)) (\<lambda>_.
       if \<not> configuration_safe (embed (aq_normalizedArguments v)) \<or> \<not> json_safe (embed (aq_effectiveConstraints v))
       then throw (constraint_error ''action request JSON contains a forbidden field'')
       else if aq_status v \<noteq> AsRequested then throw (constraint_error ''action request must start requested'')
       else if \<not> (\<exists>x \<in> set (adb_resources db). rc_id x = aq_resourceId v \<and> rc_projectId x = aq_projectId v
            \<and> rc_provider x = aq_connector v)
       then throw (constraint_error ''action connector must match resource provider'')
       else if \<not> pipeline_binding db v
       then throw (constraint_error ''action request pipeline binding is inconsistent'')
       else if \<not> agent_run_binding db v
       then throw (constraint_error ''action request agent-run binding is inconsistent'')
       else if \<not> sql_nonblank (aq_operation v) \<or> \<not> is_object (embed (aq_normalizedArguments v))
         \<or> \<not> is_object (embed (aq_effectiveConstraints v)) \<or> \<not> validHash (aq_payloadHash v) \<or> \<not> request_connector_ok v
       then throw (constraint_error ''CHECK constraint failed: action_requests'')
       else if \<exists>r \<in> set (adb_requests db). aq_id r = aq_id v
       then throw (constraint_error ''UNIQUE constraint failed: action_requests.id'')
       else if \<not> request_references db v then throw (constraint_error ''FOREIGN KEY constraint failed'')
       else ok ((), db\<lparr>adb_requests := adb_requests db @ [v]\<rparr>)))"

text \<open>The triggers on an update of the status and the date of one request.\<close>

definition request_update_error ::
  "'z action_db_scheme \<Rightarrow> action_request \<Rightarrow> action_status \<Rightarrow> js_date \<Rightarrow> string option" where
  "request_update_error db r s now =
     (if s \<noteq> aq_status r \<and> \<not> status_trigger db r (aq_status r) s then Some ''invalid action request status transition''
      else if aq_status r = AsSimulating \<and> s = AsSimulated \<and> \<not> has_artifact db r
      then Some ''simulated action requires a matching artifact''
      else if sql_before now (aq_updatedAt r) then Some ''action request timestamp cannot move backwards''
      else if s = aq_status r \<and> now \<noteq> aq_updatedAt r then Some ''action request timestamp requires a status transition''
      else None)"

definition transitionActionRequest ::
  "string \<Rightarrow> string \<Rightarrow> action_status \<Rightarrow> action_status \<Rightarrow> js_date \<Rightarrow> 'z action_db_scheme
     \<Rightarrow> (bool \<times> 'z action_db_scheme) result" where
  "transitionActionRequest i p expected s now db =
     bindR (iso_check now) (\<lambda>_.
       let hit = (\<lambda>r. aq_id r = i \<and> aq_projectId r = p \<and> aq_status r = expected) in
       case find hit (adb_requests db) of
         None \<Rightarrow> ok (False, db)
       | Some r \<Rightarrow>
           (case request_update_error db r s now of
              Some e \<Rightarrow> throw (constraint_error e)
            | None \<Rightarrow> ok (length (filter hit (adb_requests db)) = 1,
                db\<lparr>adb_requests := update_hit hit (\<lambda>r. r\<lparr>aq_status := s, aq_updatedAt := now\<rparr>) (adb_requests db)\<rparr>)))"

definition findActionRequest :: "'z action_db_scheme \<Rightarrow> string \<Rightarrow> action_request option result" where
  "findActionRequest db i = optionally ActionRequest_restore (find (\<lambda>r. aq_id r = i) (adb_requests db))"

definition listActionRequests :: "'z action_db_scheme \<Rightarrow> string \<Rightarrow> action_request list result" where
  "listActionRequests db p = mapR ActionRequest_restore
     (sort_key (\<lambda>r. (date_ms (aq_createdAt r), aq_id r)) (filter (\<lambda>r. aq_projectId r = p) (adb_requests db)))"

subsection \<open>Simulations\<close>

definition matches_request :: "action_simulation \<Rightarrow> action_request \<Rightarrow> bool" where
  "matches_request v r \<longleftrightarrow> of_request r (sm_projectId v) (sm_actionRequestId v)
     \<and> aq_payloadHash r = sm_authorizationPayloadHash v \<and> aq_connector r = sm_connector v
     \<and> aq_connectorVersion r = sm_connectorVersion v \<and> aq_operation r = sm_operation v"

fun precondition_safe :: "file_precondition \<Rightarrow> bool" where
  "precondition_safe (AbsentFile p) = (p \<noteq> [] \<and> hd p \<noteq> CHR 0x00)"
| "precondition_safe (PresentFile p h n) = (p \<noteq> [] \<and> hd p \<noteq> CHR 0x00 \<and> validHash h \<and> isSafeInteger n \<and> \<not> num_lt n (Num 0))"

definition insertActionSimulation ::
  "action_simulation \<Rightarrow> 'z action_db_scheme \<Rightarrow> (bool \<times> 'z action_db_scheme) result" where
  "insertActionSimulation v db =
     bindR (iso_check (sm_createdAt v)) (\<lambda>_.
       if \<not> (\<exists>r \<in> set (adb_requests db). matches_request v r \<and> aq_status r = AsSimulating)
       then throw (constraint_error ''simulation must match a simulating action request'')
       else if \<not> list_all precondition_safe (sm_preconditions v) \<or> \<not> distinct (map precondition_path (sm_preconditions v))
       then throw (constraint_error ''simulation preconditions contain a forbidden field'')
       else if \<not> list_all validHash [sm_authorizationPayloadHash v, sm_diffSha256 v, sm_artifactSha256 v]
         \<or> \<not> sql_nonblank (sm_operation v)
         \<or> (\<exists>s \<in> set (adb_simulations db). sm_id s = sm_id v
              \<or> sm_projectId s = sm_projectId v \<and> sm_actionRequestId s = sm_actionRequestId v)
       then ok (False, db)
       else if \<not> project_exists db (sm_projectId v) then throw (constraint_error ''FOREIGN KEY constraint failed'')
       else ok (True, db\<lparr>adb_simulations := adb_simulations db @ [v]\<rparr>))"

definition findActionSimulationByAction :: "'z action_db_scheme \<Rightarrow> string \<Rightarrow> string \<Rightarrow> action_simulation option result" where
  "findActionSimulationByAction db i p = optionally ActionSimulation_create
     (find (\<lambda>s. sm_actionRequestId s = i \<and> sm_projectId s = p) (adb_simulations db))"

subsection \<open>Approvals\<close>

definition approval_matches :: "'z action_db_scheme \<Rightarrow> action_approval \<Rightarrow> bool" where
  "approval_matches db v \<longleftrightarrow> (\<exists>r \<in> set (adb_requests db). \<exists>s \<in> set (adb_simulations db).
     of_request r (sm_projectId s) (sm_actionRequestId s) \<and> of_request r (ap_projectId v) (ap_actionRequestId v)
     \<and> aq_status r = AsSimulated \<and> aq_decision r = PdAllowWithApproval \<and> aq_payloadHash r = ap_actionPayloadHash v
     \<and> aq_connector r = ap_connector v \<and> aq_connectorVersion r = ap_connectorVersion v \<and> aq_operation r = ap_operation v
     \<and> sm_id s = ap_simulationId v \<and> sm_artifactSha256 s = ap_simulationArtifactHash v)"

definition approval_checks :: "action_approval \<Rightarrow> bool" where
  "approval_checks v \<longleftrightarrow> validHash (ap_actionPayloadHash v) \<and> validHash (ap_simulationArtifactHash v)
     \<and> ap_connector v = ''filesystem'' \<and> ap_connectorVersion v = ''2'' \<and> ap_operation v \<in> set filesystem_mutations
     \<and> (case (ap_status v, ap_decidedAt v, ap_actor v) of
          (ApPending, None, None) \<Rightarrow> True
        | (ApPending, _, _) \<Rightarrow> False
        | (_, Some d, Some actor) \<Rightarrow> sql_nonblank actor \<and> \<not> sql_before d (ap_requestedAt v)
        | _ \<Rightarrow> False)"

definition insertApproval :: "action_approval \<Rightarrow> 'z action_db_scheme \<Rightarrow> (bool \<times> 'z action_db_scheme) result" where
  "insertApproval v db =
     bindR (iso_check (ap_requestedAt v)) (\<lambda>_. bindR (iso_optional (ap_decidedAt v)) (\<lambda>_.
       if \<not> approval_matches db v then throw (constraint_error ''approval must match a simulated action artifact'')
       else if \<not> approval_checks v
         \<or> (\<exists>a \<in> set (adb_approvals db). ap_id a = ap_id v
              \<or> ap_projectId a = ap_projectId v \<and> ap_actionRequestId a = ap_actionRequestId v)
       then ok (False, db)
       else if \<not> project_exists db (ap_projectId v) then throw (constraint_error ''FOREIGN KEY constraint failed'')
       else ok (True, db\<lparr>adb_approvals := adb_approvals db @ [v]\<rparr>)))"

definition findApprovalByAction :: "'z action_db_scheme \<Rightarrow> string \<Rightarrow> string \<Rightarrow> action_approval option result" where
  "findApprovalByAction db i p = optionally ActionApproval_restore
     (find (\<lambda>a. ap_actionRequestId a = i \<and> ap_projectId a = p) (adb_approvals db))"

text \<open>Only a pending approval can be decided, by somebody and not before it was asked for.\<close>

definition transitionApproval ::
  "string \<Rightarrow> string \<Rightarrow> approval_status \<Rightarrow> approval_status \<Rightarrow> js_date \<Rightarrow> string \<Rightarrow> 'z action_db_scheme
     \<Rightarrow> (bool \<times> 'z action_db_scheme) result" where
  "transitionApproval i p expected s decidedAt actor db =
     bindR (iso_check decidedAt) (\<lambda>_.
       let hit = (\<lambda>a. ap_id a = i \<and> ap_projectId a = p \<and> ap_status a = expected) in
       if list_ex (\<lambda>a. hit a \<and> \<not> (ap_status a = ApPending \<and> s \<noteq> ApPending
            \<and> \<not> sql_before decidedAt (ap_requestedAt a) \<and> sql_nonblank actor)) (adb_approvals db)
       then throw (constraint_error ''invalid action approval transition'')
       else ok (length (filter hit (adb_approvals db)) = 1,
         db\<lparr>adb_approvals := update_hit hit (\<lambda>a. a\<lparr>ap_status := s, ap_decidedAt := Some decidedAt, ap_actor := Some actor\<rparr>)
           (adb_approvals db)\<rparr>))"

subsection \<open>Executions\<close>

definition execution_matches :: "'z action_db_scheme \<Rightarrow> action_execution \<Rightarrow> bool" where
  "execution_matches db v \<longleftrightarrow> (\<exists>r \<in> set (adb_requests db). \<exists>a \<in> set (adb_approvals db).
     of_request r (ap_projectId a) (ap_actionRequestId a) \<and> of_request r (ex_projectId v) (ex_actionRequestId v)
     \<and> aq_status r = AsApprovalPending \<and> made_by ''filesystem'' [''2''] filesystem_mutations r
     \<and> ap_id a = ex_approvalId v \<and> ap_status a = ApApproved \<and> ap_simulationId a = ex_simulationId v)"

definition outcome_checks :: "action_execution \<Rightarrow> bool" where
  "outcome_checks v \<longleftrightarrow> (case ex_status v of
     ExExecuting \<Rightarrow> ex_completedAt v = None \<and> ex_failureCode v = None \<and> ex_resultHash v = None
   | ExCompleted \<Rightarrow> ex_completedAt v \<noteq> None \<and> ex_failureCode v = None
   | _ \<Rightarrow> ex_completedAt v \<noteq> None \<and> (case ex_failureCode v of None \<Rightarrow> False | Some c \<Rightarrow> sql_nonblank c))"

definition result_hash_check :: "action_execution \<Rightarrow> bool" where
  "result_hash_check v \<longleftrightarrow> (case ex_resultHash v of None \<Rightarrow> True | Some h \<Rightarrow> validHash h)"

definition insertExecution :: "action_execution \<Rightarrow> 'z action_db_scheme \<Rightarrow> (bool \<times> 'z action_db_scheme) result" where
  "insertExecution v db =
     bindR (iso_check (ex_startedAt v)) (\<lambda>_. bindR (iso_optional (ex_completedAt v)) (\<lambda>_.
       if \<not> execution_matches db v then throw (constraint_error ''execution must match an approved action'')
       else if \<not> outcome_checks v \<or> \<not> result_hash_check v
         \<or> (\<exists>e \<in> set (adb_executions db). ex_id e = ex_id v
              \<or> ex_projectId e = ex_projectId v \<and> ex_actionRequestId e = ex_actionRequestId v)
       then ok (False, db)
       else if \<not> project_exists db (ex_projectId v)
         \<or> \<not> (\<exists>s \<in> set (adb_simulations db). sm_id s = ex_simulationId v \<and> sm_projectId s = ex_projectId v)
       then throw (constraint_error ''FOREIGN KEY constraint failed'')
       else ok (True, db\<lparr>adb_executions := adb_executions db @ [v]\<rparr>)))"

definition findExecutionByAction :: "'z action_db_scheme \<Rightarrow> string \<Rightarrow> string \<Rightarrow> action_execution option result" where
  "findExecutionByAction db i p = optionally ActionExecution_restore
     (find (\<lambda>e. ex_actionRequestId e = i \<and> ex_projectId e = p) (adb_executions db))"

definition outcome_change ::
  "execution_status \<Rightarrow> js_date \<Rightarrow> string option \<Rightarrow> string option \<Rightarrow> action_execution \<Rightarrow> action_execution" where
  "outcome_change s completedAt failureCode resultHash e =
     e\<lparr>ex_status := s, ex_completedAt := Some completedAt, ex_failureCode := failureCode, ex_resultHash := resultHash\<rparr>"

definition transitionExecution ::
  "string \<Rightarrow> string \<Rightarrow> execution_status \<Rightarrow> execution_status \<Rightarrow> js_date \<Rightarrow> string option \<Rightarrow> string option
     \<Rightarrow> 'z action_db_scheme \<Rightarrow> (bool \<times> 'z action_db_scheme) result" where
  "transitionExecution i p expected s completedAt failureCode resultHash db =
     bindR (iso_check completedAt) (\<lambda>_.
       let hit = (\<lambda>e. ex_id e = i \<and> ex_projectId e = p \<and> ex_status e = expected);
           new = outcome_change s completedAt failureCode resultHash in
       if list_ex (\<lambda>e. hit e \<and> \<not> (ex_status e = ExExecuting \<and> s \<noteq> ExExecuting \<and> \<not> sql_before completedAt (ex_startedAt e)
            \<and> outcome_checks (new e))) (adb_executions db)
       then throw (constraint_error ''invalid action execution transition'')
       else if list_ex (\<lambda>e. hit e \<and> \<not> result_hash_check (new e)) (adb_executions db)
       then throw (constraint_error ''CHECK constraint failed: action_executions'')
       else ok (length (filter hit (adb_executions db)) = 1,
         db\<lparr>adb_executions := update_hit hit new (adb_executions db)\<rparr>))"

section \<open>What every statement keeps\<close>

text \<open>
  One accepted statement on the tables of requests, simulations, approvals and executions, or any
  change of the other tables.
\<close>

inductive action_step :: "'z action_db_scheme \<Rightarrow> 'z action_db_scheme \<Rightarrow> bool" where
  insert_request: "insertActionRequest v db = ok (u, db') \<Longrightarrow> action_step db db'"
| move_request: "transitionActionRequest i p expected s now db = ok (b, db') \<Longrightarrow> action_step db db'"
| insert_simulation: "insertActionSimulation m db = ok (b, db') \<Longrightarrow> action_step db db'"
| insert_approval: "insertApproval a db = ok (b, db') \<Longrightarrow> action_step db db'"
| decide_approval: "transitionApproval i p expected_approval sa now actor db = ok (b, db') \<Longrightarrow> action_step db db'"
| insert_execution: "insertExecution e db = ok (b, db') \<Longrightarrow> action_step db db'"
| finish_execution: "transitionExecution i p expected_execution se now code hash db = ok (b, db') \<Longrightarrow> action_step db db'"
| elsewhere: "adb_requests db' = adb_requests db \<Longrightarrow> adb_simulations db' = adb_simulations db \<Longrightarrow>
     adb_approvals db' = adb_approvals db \<Longrightarrow> adb_executions db' = adb_executions db \<Longrightarrow> action_step db db'"

definition no_actions :: "'z action_db_scheme \<Rightarrow> bool" where
  "no_actions db \<longleftrightarrow> adb_requests db = [] \<and> adb_simulations db = [] \<and> adb_approvals db = [] \<and> adb_executions db = []"

inductive action_reachable :: "'z action_db_scheme \<Rightarrow> bool" where
  empty: "no_actions db \<Longrightarrow> action_reachable db"
| step: "action_reachable db \<Longrightarrow> action_step db db' \<Longrightarrow> action_reachable db'"

text \<open>The statuses of a request that go with its simulation, its approval and its execution.\<close>

definition simulation_phase :: "action_status \<Rightarrow> bool" where
  "simulation_phase s \<longleftrightarrow> s \<notin> {AsRequested, AsAuthorized, AsDenied}"

fun approval_phase :: "approval_status \<Rightarrow> action_status \<Rightarrow> bool" where
  "approval_phase ApPending s = (s \<in> {AsSimulated, AsApprovalPending})"
| "approval_phase ApApproved s = (s \<in> {AsSimulated, AsApprovalPending, AsExecuting, AsCompleted, AsFailed, AsExecutionUnknown})"
| "approval_phase ApRejected s = (s \<in> {AsSimulated, AsApprovalPending, AsRejected})"

definition execution_phase :: "execution_status \<Rightarrow> action_status \<Rightarrow> bool" where
  "execution_phase e s \<longleftrightarrow> s \<in> {AsApprovalPending, AsExecuting} \<or> execution_of_status s = Some e"

definition simulation_ok :: "'z action_db_scheme \<Rightarrow> action_simulation \<Rightarrow> bool" where
  "simulation_ok db s \<longleftrightarrow> (\<exists>r \<in> set (adb_requests db). matches_request s r \<and> simulation_phase (aq_status r))"

text \<open>An approval is bound to the payload of its request and the artifact of its simulation.\<close>

definition approval_bound :: "action_request \<Rightarrow> action_simulation \<Rightarrow> action_approval \<Rightarrow> bool" where
  "approval_bound r s a \<longleftrightarrow> of_request r (sm_projectId s) (sm_actionRequestId s)
     \<and> of_request r (ap_projectId a) (ap_actionRequestId a) \<and> aq_payloadHash r = ap_actionPayloadHash a
     \<and> aq_connector r = ap_connector a \<and> aq_connectorVersion r = ap_connectorVersion a \<and> aq_operation r = ap_operation a
     \<and> sm_id s = ap_simulationId a \<and> sm_artifactSha256 s = ap_simulationArtifactHash a \<and> aq_decision r = PdAllowWithApproval"

definition approval_ok :: "'z action_db_scheme \<Rightarrow> action_approval \<Rightarrow> bool" where
  "approval_ok db a \<longleftrightarrow> approval_checks a \<and> (\<exists>r \<in> set (adb_requests db). \<exists>s \<in> set (adb_simulations db).
     approval_bound r s a \<and> approval_phase (ap_status a) (aq_status r))"

definition execution_bound :: "action_request \<Rightarrow> action_approval \<Rightarrow> action_execution \<Rightarrow> bool" where
  "execution_bound r a e \<longleftrightarrow> of_request r (ap_projectId a) (ap_actionRequestId a)
     \<and> of_request r (ex_projectId e) (ex_actionRequestId e) \<and> made_by ''filesystem'' [''2''] filesystem_mutations r
     \<and> ap_id a = ex_approvalId e \<and> ap_simulationId a = ex_simulationId e"

definition execution_ok :: "'z action_db_scheme \<Rightarrow> action_execution \<Rightarrow> bool" where
  "execution_ok db e \<longleftrightarrow> (\<exists>r \<in> set (adb_requests db). \<exists>a \<in> set (adb_approvals db).
     execution_bound r a e \<and> ap_status a = ApApproved \<and> execution_phase (ex_status e) (aq_status r))"

text \<open>A request that runs or ran is an allowed read, or a mutation with its execution.\<close>

definition request_ok :: "'z action_db_scheme \<Rightarrow> action_request \<Rightarrow> bool" where
  "request_ok db r \<longleftrightarrow> (aq_status r \<in> {AsExecuting, AsCompleted, AsExecutionUnknown} \<longrightarrow>
     (aq_decision r = PdAllow \<and> made_by ''filesystem'' [''1'', ''2''] filesystem_reads r \<and> aq_status r \<noteq> AsExecutionUnknown)
     \<or> (aq_decision r = PdAllowWithApproval \<and> made_by ''filesystem'' [''2''] filesystem_mutations r
        \<and> (\<exists>e \<in> set (adb_executions db). of_request r (ex_projectId e) (ex_actionRequestId e)
             \<and> (aq_status r \<noteq> AsExecuting \<longrightarrow> execution_of_status (aq_status r) = Some (ex_status e)))))"

definition action_keys :: "'z action_db_scheme \<Rightarrow> bool" where
  "action_keys db \<longleftrightarrow> distinct (map aq_id (adb_requests db))
     \<and> distinct (map sm_id (adb_simulations db)) \<and> distinct (map (\<lambda>s. (sm_projectId s, sm_actionRequestId s)) (adb_simulations db))
     \<and> distinct (map ap_id (adb_approvals db)) \<and> distinct (map (\<lambda>a. (ap_projectId a, ap_actionRequestId a)) (adb_approvals db))
     \<and> distinct (map ex_id (adb_executions db)) \<and> distinct (map (\<lambda>e. (ex_projectId e, ex_actionRequestId e)) (adb_executions db))"

definition action_inv :: "'z action_db_scheme \<Rightarrow> bool" where
  "action_inv db \<longleftrightarrow> action_keys db
     \<and> list_all (simulation_ok db) (adb_simulations db) \<and> list_all (approval_ok db) (adb_approvals db)
     \<and> list_all (execution_ok db) (adb_executions db) \<and> list_all (request_ok db) (adb_requests db)"

lemma set_update_hit: "set (update_hit h c rows) = (\<lambda>r. if h r then c r else r) ` set rows"
  by (simp add: update_hit_def)

lemma update_hit_in: "r \<in> set rows \<Longrightarrow> (if h r then c r else r) \<in> set (update_hit h c rows)"
  unfolding set_update_hit by (rule imageI)

lemma update_hit_all: "list_all P (update_hit h c rows) \<longleftrightarrow> (\<forall>r \<in> set rows. P (if h r then c r else r))"
  unfolding list_all_iff set_update_hit by blast

lemma update_hit_keep: "r \<in> set rows \<Longrightarrow> \<not> h r \<Longrightarrow> r \<in> set (update_hit h c rows)"
  using update_hit_in [of r rows h c] by simp

lemma map_update_hit: "(\<And>r. h r \<Longrightarrow> f (c r) = f r) \<Longrightarrow> map f (update_hit h c rows) = map f rows"
  by (simp add: update_hit_def)

lemma distinct_key: "distinct (map f xs) \<Longrightarrow> x \<in> set xs \<Longrightarrow> y \<in> set xs \<Longrightarrow> f x = f y \<Longrightarrow> x = y"
  by (auto simp: distinct_map inj_on_def)

lemma simulation_ok_cong: "adb_requests db' = adb_requests db \<Longrightarrow> simulation_ok db' s = simulation_ok db s"
  by (simp add: simulation_ok_def)

lemma approval_ok_mono:
  "adb_requests db' = adb_requests db \<Longrightarrow> set (adb_simulations db) \<subseteq> set (adb_simulations db') \<Longrightarrow>
     approval_ok db a \<Longrightarrow> approval_ok db' a"
  unfolding approval_ok_def by auto

lemma execution_ok_mono:
  "adb_requests db' = adb_requests db \<Longrightarrow> set (adb_approvals db) \<subseteq> set (adb_approvals db') \<Longrightarrow>
     execution_ok db e \<Longrightarrow> execution_ok db' e"
  unfolding execution_ok_def by auto

lemma request_ok_mono:
  "set (adb_executions db) \<subseteq> set (adb_executions db') \<Longrightarrow> request_ok db r \<Longrightarrow> request_ok db' r"
  unfolding request_ok_def by blast

subsection \<open>Insertions\<close>

lemma insertActionRequest_ok:
  assumes "insertActionRequest v db = ok (u, db')"
  shows "db' = db\<lparr>adb_requests := adb_requests db @ [v]\<rparr>" and "aq_status v = AsRequested"
    and "aq_id v \<notin> aq_id ` set (adb_requests db)" and "validHash (aq_payloadHash v)" and "request_connector_ok v"
  using assms by (auto simp: insertActionRequest_def result_simps split: if_splits)

lemma insertActionRequest_inv:
  assumes inv: "action_inv db" and "insertActionRequest v db = ok (u, db')"
  shows "action_inv db'"
proof -
  note v = insertActionRequest_ok [OF assms(2)]
  have "simulation_ok db' s" if "simulation_ok db s" for s using that v(1) by (auto simp: simulation_ok_def)
  moreover have "approval_ok db' a" if "approval_ok db a" for a
    using that v(1) unfolding approval_ok_def by auto
  moreover have "execution_ok db' e" if "execution_ok db e" for e
    using that v(1) unfolding execution_ok_def by auto
  moreover have "request_ok db' r" if "request_ok db r" for r using that v(1) by (simp add: request_ok_def)
  moreover have "request_ok db' v" using v(2) by (simp add: request_ok_def)
  ultimately show ?thesis using inv v(1,3)
    by (auto simp: action_inv_def action_keys_def list_all_iff)
qed

lemma insertActionSimulation_inv:
  assumes inv: "action_inv db" and "insertActionSimulation v db = ok (b, db')"
  shows "action_inv db'"
proof (cases b)
  case True
  then have db': "db' = db\<lparr>adb_simulations := adb_simulations db @ [v]\<rparr>"
    and fresh: "sm_id v \<notin> sm_id ` set (adb_simulations db)"
      "(sm_projectId v, sm_actionRequestId v) \<notin> (\<lambda>s. (sm_projectId s, sm_actionRequestId s)) ` set (adb_simulations db)"
    and "\<exists>r \<in> set (adb_requests db). matches_request v r \<and> aq_status r = AsSimulating"
    using assms(2) by (auto simp: insertActionSimulation_def result_simps split: if_splits)
  then have "simulation_ok db' v" by (auto simp: simulation_ok_def simulation_phase_def)
  moreover have "approval_ok db' a" if "approval_ok db a" for a
    using approval_ok_mono [OF _ _ that, of db'] db' by auto
  moreover have "simulation_ok db' s = simulation_ok db s" "execution_ok db' e = execution_ok db e"
    "request_ok db' r = request_ok db r" for s e r
    using db' by (simp_all add: simulation_ok_def execution_ok_def request_ok_def)
  ultimately show ?thesis using inv fresh db'
    by (auto simp: action_inv_def action_keys_def list_all_iff)
next
  case False
  then have "db' = db" using assms(2) by (auto simp: insertActionSimulation_def result_simps split: if_splits)
  then show ?thesis using inv by simp
qed

lemma insertApproval_inv:
  assumes inv: "action_inv db" and "insertApproval v db = ok (b, db')"
  shows "action_inv db'"
proof (cases b)
  case True
  then have db': "db' = db\<lparr>adb_approvals := adb_approvals db @ [v]\<rparr>" and checks: "approval_checks v"
    and fresh: "ap_id v \<notin> ap_id ` set (adb_approvals db)"
      "(ap_projectId v, ap_actionRequestId v) \<notin> (\<lambda>a. (ap_projectId a, ap_actionRequestId a)) ` set (adb_approvals db)"
    and "approval_matches db v"
    using assms(2) by (auto simp: insertApproval_def result_simps split: if_splits)
  then have "approval_ok db' v"
    by (cases "ap_status v") (auto simp: approval_ok_def approval_matches_def approval_bound_def)
  moreover have "execution_ok db' e" if "execution_ok db e" for e
    using execution_ok_mono [OF _ _ that, of db'] db' by auto
  moreover have "simulation_ok db' s = simulation_ok db s" "approval_ok db' a = approval_ok db a"
    "request_ok db' r = request_ok db r" for s a r
    using db' by (simp_all add: simulation_ok_def approval_ok_def request_ok_def)
  ultimately show ?thesis using inv fresh db'
    by (auto simp: action_inv_def action_keys_def list_all_iff)
next
  case False
  then have "db' = db" using assms(2) by (auto simp: insertApproval_def result_simps split: if_splits)
  then show ?thesis using inv by simp
qed

lemma insertExecution_inv:
  assumes inv: "action_inv db" and "insertExecution v db = ok (b, db')"
  shows "action_inv db'"
proof (cases b)
  case True
  then have db': "db' = db\<lparr>adb_executions := adb_executions db @ [v]\<rparr>"
    and fresh: "ex_id v \<notin> ex_id ` set (adb_executions db)"
      "(ex_projectId v, ex_actionRequestId v) \<notin> (\<lambda>e. (ex_projectId e, ex_actionRequestId e)) ` set (adb_executions db)"
    and "execution_matches db v"
    using assms(2) by (auto simp: insertExecution_def result_simps split: if_splits)
  then have "execution_ok db' v"
    by (auto simp: execution_ok_def execution_matches_def execution_bound_def execution_phase_def)
  moreover have "request_ok db' r" if "request_ok db r" for r
    using request_ok_mono [OF _ that, of db'] db' by auto
  moreover have "simulation_ok db' s = simulation_ok db s" "approval_ok db' a = approval_ok db a"
    "execution_ok db' e = execution_ok db e" for s a e
    using db' by (simp_all add: simulation_ok_def approval_ok_def execution_ok_def)
  ultimately show ?thesis using inv fresh db'
    by (auto simp: action_inv_def action_keys_def list_all_iff)
next
  case False
  then have "db' = db" using assms(2) by (auto simp: insertExecution_def result_simps split: if_splits)
  then show ?thesis using inv by simp
qed

subsection \<open>Updates\<close>

lemma approval_ok_update:
  assumes "approval_ok db a" and "adb_requests db' = adb_requests db" and "adb_simulations db' = adb_simulations db"
    and "approval_checks a'" and "\<And>r s. approval_bound r s a' = approval_bound r s a"
    and "\<And>x. approval_phase (ap_status a) x \<Longrightarrow> approval_phase (ap_status a') x"
  shows "approval_ok db' a'"
  using assms unfolding approval_ok_def by metis

lemma execution_ok_update:
  assumes "execution_ok db e" and "adb_requests db' = adb_requests db" and "adb_approvals db' = adb_approvals db"
    and "\<And>r a. execution_bound r a e' = execution_bound r a e"
    and "\<And>x. execution_phase (ex_status e) x \<Longrightarrow> execution_phase (ex_status e') x"
  shows "execution_ok db' e'"
  using assms unfolding execution_ok_def by metis

lemma transitionApproval_inv:
  assumes inv: "action_inv db" and run: "transitionApproval i p expected s now actor db = ok (b, db')"
  shows "action_inv db'"
proof -
  let ?hit = "\<lambda>a. ap_id a = i \<and> ap_projectId a = p \<and> ap_status a = expected"
  let ?new = "\<lambda>a. if ?hit a then a\<lparr>ap_status := s, ap_decidedAt := Some now, ap_actor := Some actor\<rparr> else a"
  have db': "db' = db\<lparr>adb_approvals := update_hit ?hit (\<lambda>a. a\<lparr>ap_status := s, ap_decidedAt := Some now, ap_actor := Some actor\<rparr>)
      (adb_approvals db)\<rparr>"
    using run by (auto simp: transitionApproval_def result_simps Let_def split: if_splits)
  have pending: "ap_status a = ApPending \<and> s \<noteq> ApPending \<and> \<not> sql_before now (ap_requestedAt a) \<and> sql_nonblank actor"
      if "a \<in> set (adb_approvals db)" "?hit a" for a
    using run that by (auto simp: transitionApproval_def result_simps Let_def list_ex_iff split: if_splits)
  have rows: "adb_approvals db' = update_hit ?hit (\<lambda>a. a\<lparr>ap_status := s, ap_decidedAt := Some now, ap_actor := Some actor\<rparr>)
      (adb_approvals db)" using db' by simp
  have new: "approval_ok db' (?new a)" if a: "a \<in> set (adb_approvals db)" "approval_ok db a" for a
  proof (cases "?hit a")
    case True
    have "approval_checks (?new a)" using a(2) pending [OF a(1) True] True
      by (cases s) (auto simp: approval_ok_def approval_checks_def)
    moreover have "approval_phase (ap_status (?new a)) x" if "approval_phase (ap_status a) x" for x
      using that pending [OF a(1) True] True by (cases s) auto
    ultimately show ?thesis by (intro approval_ok_update [OF a(2)]) (simp_all add: db' approval_bound_def)
  next
    case False
    then show ?thesis using a(2) db' by (auto simp: approval_ok_def)
  qed
  have approvals: "list_all (approval_ok db') (adb_approvals db')"
    unfolding rows update_hit_all
  proof (intro ballI new)
  qed (use inv in \<open>auto simp: action_inv_def list_all_iff\<close>)
  moreover have "execution_ok db' e" if e: "execution_ok db e" for e
  proof -
    obtain r a where ra: "r \<in> set (adb_requests db)" "a \<in> set (adb_approvals db)" "execution_bound r a e"
        "ap_status a = ApApproved" "execution_phase (ex_status e) (aq_status r)"
      using e by (auto simp: execution_ok_def)
    then have "\<not> ?hit a" using pending by auto
    then have "a \<in> set (adb_approvals db')" using ra(2) db' by (simp add: update_hit_keep)
    moreover have "r \<in> set (adb_requests db')" using ra(1) db' by simp
    ultimately show ?thesis using ra(3-5) unfolding execution_ok_def by blast
  qed
  moreover have "simulation_ok db' m = simulation_ok db m" "request_ok db' r = request_ok db r" for m r
    using db' by (simp_all add: simulation_ok_def request_ok_def)
  moreover have "action_keys db'" using inv db' by (simp add: action_inv_def action_keys_def map_update_hit)
  ultimately show ?thesis using inv db' by (simp add: action_inv_def list_all_iff)
qed

lemma transitionExecution_inv:
  assumes inv: "action_inv db" and run: "transitionExecution i p expected s now code hash db = ok (b, db')"
  shows "action_inv db'"
proof -
  let ?hit = "\<lambda>e. ex_id e = i \<and> ex_projectId e = p \<and> ex_status e = expected"
  let ?new = "outcome_change s now code hash"
  have db': "db' = db\<lparr>adb_executions := update_hit ?hit ?new (adb_executions db)\<rparr>"
    using run by (auto simp: transitionExecution_def result_simps Let_def split: if_splits)
  have rows: "adb_executions db' = update_hit ?hit ?new (adb_executions db)" using db' by simp
  have running: "ex_status e = ExExecuting" if "e \<in> set (adb_executions db)" "?hit e" for e
    using run that by (auto simp: transitionExecution_def result_simps Let_def list_ex_iff split: if_splits)
  have same [simp]: "ex_projectId (?new e) = ex_projectId e" "ex_actionRequestId (?new e) = ex_actionRequestId e"
    "ex_id (?new e) = ex_id e" "ex_status (?new e) = s" "ex_approvalId (?new e) = ex_approvalId e"
    "ex_simulationId (?new e) = ex_simulationId e" for e
    by (simp_all add: outcome_change_def)
  have new: "execution_ok db' (if ?hit e then ?new e else e)"
    if e: "e \<in> set (adb_executions db)" "execution_ok db e" for e
  proof (cases "?hit e")
    case True
    have "execution_phase s x" if "execution_phase ExExecuting x" for x
      using that by (cases x) (auto simp: execution_phase_def)
    then have "execution_phase (ex_status (?new e)) x" if "execution_phase (ex_status e) x" for x
      using that running [OF e(1) True] by simp
    then have "execution_ok db' (?new e)"
      by (rule execution_ok_update [OF e(2), rotated 3]) (simp_all add: db' execution_bound_def)
    then show ?thesis using True by simp
  next
    case False
    then show ?thesis using e(2) db' by (auto simp: execution_ok_def)
  qed
  have "list_all (execution_ok db') (adb_executions db')"
    unfolding rows update_hit_all
  proof (intro ballI new)
  qed (use inv in \<open>auto simp: action_inv_def list_all_iff\<close>)
  moreover have "request_ok db' r" if r: "request_ok db r" for r
  proof -
    have "\<exists>e' \<in> set (adb_executions db'). of_request r (ex_projectId e') (ex_actionRequestId e')
        \<and> (aq_status r \<noteq> AsExecuting \<longrightarrow> execution_of_status (aq_status r) = Some (ex_status e'))"
      if e: "e \<in> set (adb_executions db)" "of_request r (ex_projectId e) (ex_actionRequestId e)"
        "aq_status r \<noteq> AsExecuting \<longrightarrow> execution_of_status (aq_status r) = Some (ex_status e)" for e
    proof (rule bexI)
      show "(if ?hit e then ?new e else e) \<in> set (adb_executions db')"
        unfolding rows by (rule update_hit_in [OF e(1)])
      have "\<not> ?hit e" if "aq_status r \<noteq> AsExecuting" using running [OF e(1)] e(3) that by (cases "aq_status r") auto
      then show "of_request r (ex_projectId (if ?hit e then ?new e else e)) (ex_actionRequestId (if ?hit e then ?new e else e))
          \<and> (aq_status r \<noteq> AsExecuting \<longrightarrow> execution_of_status (aq_status r) = Some (ex_status (if ?hit e then ?new e else e)))"
        using e(2,3) by auto
    qed
    then show ?thesis using r unfolding request_ok_def by blast
  qed
  moreover have "simulation_ok db' m = simulation_ok db m" "approval_ok db' a = approval_ok db a" for m a
    using db' by (simp_all add: simulation_ok_def approval_ok_def)
  moreover have "action_keys db'" using inv db' by (simp add: action_inv_def action_keys_def map_update_hit)
  ultimately show ?thesis using inv db' by (simp add: action_inv_def list_all_iff)
qed

text \<open>A status change the triggers accept keeps the phases of what belongs to the request.\<close>

lemma unique_approval:
  assumes "action_keys db" and "a \<in> set (adb_approvals db)" and "of_request r (ap_projectId a) (ap_actionRequestId a)"
    and "has_approval db r s"
  shows "ap_status a = s"
proof -
  obtain a' where a': "a' \<in> set (adb_approvals db)" "of_request r (ap_projectId a') (ap_actionRequestId a')" "ap_status a' = s"
    using assms(4) by (auto simp: has_approval_def)
  have "distinct (map (\<lambda>a. (ap_projectId a, ap_actionRequestId a)) (adb_approvals db))"
    using assms(1) by (simp add: action_keys_def)
  then have "a' = a" using a'(1) assms(2) by (rule distinct_key) (use a'(2) assms(3) in \<open>simp add: of_request_def\<close>)
  then show ?thesis using a'(3) by simp
qed

lemma unique_execution:
  assumes "action_keys db" and "e \<in> set (adb_executions db)" and "of_request r (ex_projectId e) (ex_actionRequestId e)"
    and "has_execution db r s"
  shows "ex_status e = s"
proof -
  obtain e' where e': "e' \<in> set (adb_executions db)" "of_request r (ex_projectId e') (ex_actionRequestId e')" "ex_status e' = s"
    using assms(4) by (auto simp: has_execution_def)
  have "distinct (map (\<lambda>e. (ex_projectId e, ex_actionRequestId e)) (adb_executions db))"
    using assms(1) by (simp add: action_keys_def)
  then have "e' = e" using e'(1) assms(2) by (rule distinct_key) (use e'(2) assms(3) in \<open>simp add: of_request_def\<close>)
  then show ?thesis using e'(3) by simp
qed

lemma trigger_simulation:
  "status_trigger db r (aq_status r) s \<Longrightarrow> simulation_phase (aq_status r) \<Longrightarrow> simulation_phase s"
  by (cases "aq_status r") (auto simp: simulation_phase_def)

lemma trigger_approval:
  assumes "status_trigger db r (aq_status r) s" and "approval_phase (ap_status a) (aq_status r)" and "action_keys db"
    and "a \<in> set (adb_approvals db)" and "of_request r (ap_projectId a) (ap_actionRequestId a)"
  shows "approval_phase (ap_status a) s"
proof (cases "aq_status r")
  case AsApprovalPending
  then show ?thesis using assms(1) unique_approval [OF assms(3-5)] by auto
next
  case AsSimulated
  then show ?thesis using assms(1) by (cases "ap_status a") auto
next
  case AsExecuting
  then show ?thesis using assms(1,2) by (cases "ap_status a") auto
qed (use assms(1,2) in \<open>cases "ap_status a"; auto\<close>)+

lemma reads_not_mutations: "made_by c vs filesystem_reads r \<Longrightarrow> \<not> made_by d ws filesystem_mutations r"
  by (auto simp: made_by_def filesystem_reads_def filesystem_mutations_def)

lemma trigger_execution:
  assumes "status_trigger db r (aq_status r) s" and "execution_phase (ex_status e) (aq_status r)" and "action_keys db"
    and "e \<in> set (adb_executions db)" and "a \<in> set (adb_approvals db)" and "execution_bound r a e" and "ap_status a = ApApproved"
  shows "execution_phase (ex_status e) s"
proof -
  have bound: "of_request r (ap_projectId a) (ap_actionRequestId a)" "of_request r (ex_projectId e) (ex_actionRequestId e)"
    "made_by ''filesystem'' [''2''] filesystem_mutations r"
    using assms(6) by (auto simp: execution_bound_def)
  note ua = unique_approval [OF assms(3,5) bound(1)] and ue = unique_execution [OF assms(3,4) bound(2)]
  show ?thesis
  proof (cases "aq_status r")
    case AsApprovalPending
    then show ?thesis using assms(1,7) ua by (auto simp: execution_phase_def)
  next
    case AsExecuting
    then have "has_execution db r (the (execution_of_status s))" "execution_of_status s \<noteq> None"
      using assms(1) bound(3) reads_not_mutations by auto
    then show ?thesis using ue by (auto simp: execution_phase_def)
  qed (use assms(1,2) in \<open>auto simp: execution_phase_def\<close>)
qed

lemma trigger_request:
  assumes "status_trigger db r (aq_status r) s" and "request_ok db r"
  shows "request_ok db (r\<lparr>aq_status := s, aq_updatedAt := now\<rparr>)"
proof (cases "aq_status r")
  case AsAuthorized
  then show ?thesis using assms(1) by (auto simp: request_ok_def made_by_def)
next
  case AsApprovalPending
  then show ?thesis using assms(1)
    by (auto simp: request_ok_def made_by_def has_execution_def of_request_def)
next
  case AsExecuting
  then show ?thesis using assms reads_not_mutations [of _ _ r]
    by (auto simp: request_ok_def made_by_def has_execution_def of_request_def filesystem_reads_def filesystem_mutations_def)
qed (use assms(1) in \<open>auto simp: request_ok_def\<close>)

lemma length_filter_same: "distinct xs \<Longrightarrow> x \<in> set xs \<Longrightarrow> length (filter (\<lambda>y. y = x) xs) = 1"
  by (induction xs) (auto simp: filter_empty_conv)

lemma transitionActionRequest_ok:
  assumes "transitionActionRequest i p expected s now db = ok (b, db')" and "distinct (map aq_id (adb_requests db))"
  shows "db' = db \<and> \<not> b \<or> (\<exists>r \<in> set (adb_requests db). b \<and> aq_id r = i \<and> aq_projectId r = p \<and> aq_status r = expected
     \<and> request_update_error db r s now = None \<and> date_finite now
     \<and> db' = db\<lparr>adb_requests := update_hit (\<lambda>x. x = r) (\<lambda>x. x\<lparr>aq_status := s, aq_updatedAt := now\<rparr>) (adb_requests db)\<rparr>)"
proof (cases "find (\<lambda>r. aq_id r = i \<and> aq_projectId r = p \<and> aq_status r = expected) (adb_requests db)")
  case None
  then show ?thesis using assms(1) by (auto simp: transitionActionRequest_def result_simps Let_def)
next
  case (Some r)
  then have r: "r \<in> set (adb_requests db)" "aq_id r = i" "aq_projectId r = p" "aq_status r = expected"
    by (auto simp: find_Some_iff)
  have only: "x \<in> set (adb_requests db) \<Longrightarrow> aq_id x = i \<and> aq_projectId x = p \<and> aq_status x = expected \<longleftrightarrow> x = r" for x
    using r distinct_key [OF assms(2)] by blast
  have "filter (\<lambda>x. aq_id x = i \<and> aq_projectId x = p \<and> aq_status x = expected) (adb_requests db)
      = filter (\<lambda>x. x = r) (adb_requests db)" using only by (intro filter_cong) auto
  moreover have "length (filter (\<lambda>x. x = r) (adb_requests db)) = 1"
    using r(1) assms(2) by (simp add: length_filter_same distinct_map)
  ultimately have one: "length (filter (\<lambda>x. aq_id x = i \<and> aq_projectId x = p \<and> aq_status x = expected) (adb_requests db)) = 1"
    by simp
  have "update_hit (\<lambda>x. aq_id x = i \<and> aq_projectId x = p \<and> aq_status x = expected) c (adb_requests db)
      = update_hit (\<lambda>x. x = r) c (adb_requests db)" for c
    using only by (simp add: update_hit_def)
  then show ?thesis using assms(1) Some r one
    by (auto simp: transitionActionRequest_def iso_check_def result_simps Let_def split: option.splits if_splits)
qed

lemma moved_request:
  assumes "aq_status r = s \<or> status_trigger db r (aq_status r) s" and "request_ok db r"
  shows "request_ok db (r\<lparr>aq_status := s, aq_updatedAt := now\<rparr>)"
proof (cases "aq_status r = s")
  case True
  then have "r\<lparr>aq_status := s, aq_updatedAt := now\<rparr> = r\<lparr>aq_updatedAt := now\<rparr>" by (cases r) simp
  then show ?thesis using assms(2) by (simp add: request_ok_def made_by_def of_request_def)
next
  case False
  then show ?thesis using trigger_request assms by blast
qed

lemma transitionActionRequest_inv:
  assumes inv: "action_inv db" and run: "transitionActionRequest i p expected s now db = ok (b, db')"
  shows "action_inv db'"
proof -
  have keys: "action_keys db" "distinct (map aq_id (adb_requests db))" using inv by (auto simp: action_inv_def action_keys_def)
  consider "db' = db" | r where "r \<in> set (adb_requests db)" "request_update_error db r s now = None"
    "db' = db\<lparr>adb_requests := update_hit (\<lambda>x. x = r) (\<lambda>x. x\<lparr>aq_status := s, aq_updatedAt := now\<rparr>) (adb_requests db)\<rparr>"
    using transitionActionRequest_ok [OF run keys(2)] by blast
  then show ?thesis
  proof cases
    case 1
    then show ?thesis using inv by simp
  next
    case (2 r)
    let ?f = "\<lambda>x. if x = r then x\<lparr>aq_status := s, aq_updatedAt := now\<rparr> else x"
    have rows: "adb_requests db' = update_hit (\<lambda>x. x = r) (\<lambda>x. x\<lparr>aq_status := s, aq_updatedAt := now\<rparr>) (adb_requests db)"
      and same: "adb_simulations db' = adb_simulations db" "adb_approvals db' = adb_approvals db" "adb_executions db' = adb_executions db"
      using 2(3) by simp_all
    have moved: "?f x \<in> set (adb_requests db')" if "x \<in> set (adb_requests db)" for x
      unfolding rows by (rule update_hit_in [OF that])
    have trigger: "aq_status r = s \<or> status_trigger db r (aq_status r) s"
      using 2(2) by (auto simp: request_update_error_def split: if_splits)
    have kept: "matches_request m (?f x) = matches_request m x" "approval_bound (?f x) m a = approval_bound x m a"
      "execution_bound (?f x) a e = execution_bound x a e" for m x a e
      by (auto simp: matches_request_def approval_bound_def execution_bound_def of_request_def made_by_def)
    have "simulation_ok db' m" if m: "simulation_ok db m" for m
    proof -
      obtain x where x: "x \<in> set (adb_requests db)" "matches_request m x" "simulation_phase (aq_status x)"
        using m by (auto simp: simulation_ok_def)
      then have "simulation_phase (aq_status (?f x))" using trigger trigger_simulation by auto
      then show ?thesis using moved [OF x(1)] x(2) kept unfolding simulation_ok_def by blast
    qed
    moreover have "approval_ok db' a" if a: "a \<in> set (adb_approvals db)" "approval_ok db a" for a
    proof -
      obtain x m where x: "x \<in> set (adb_requests db)" "m \<in> set (adb_simulations db)" "approval_bound x m a"
          "approval_phase (ap_status a) (aq_status x)" and checks: "approval_checks a"
        using a(2) by (auto simp: approval_ok_def)
      then have "approval_phase (ap_status a) (aq_status (?f x))"
        using trigger trigger_approval [OF _ x(4) keys(1) a(1)] by (auto simp: approval_bound_def)
      moreover have "approval_bound (?f x) m a" using x(3) kept by simp
      moreover have "m \<in> set (adb_simulations db')" using x(2) same by simp
      ultimately show ?thesis using moved [OF x(1)] checks unfolding approval_ok_def by blast
    qed
    moreover have "execution_ok db' e" if e: "e \<in> set (adb_executions db)" "execution_ok db e" for e
    proof -
      obtain x a where x: "x \<in> set (adb_requests db)" "a \<in> set (adb_approvals db)" "execution_bound x a e"
          "ap_status a = ApApproved" "execution_phase (ex_status e) (aq_status x)"
        using e(2) by (auto simp: execution_ok_def)
      then have "execution_phase (ex_status e) (aq_status (?f x))"
        using trigger trigger_execution [OF _ x(5) keys(1) e(1) x(2,3,4)] by auto
      moreover have "execution_bound (?f x) a e" using x(3) kept by simp
      moreover have "a \<in> set (adb_approvals db')" using x(2) same by simp
      ultimately show ?thesis using moved [OF x(1)] x(4) unfolding execution_ok_def by blast
    qed
    moreover have "list_all (request_ok db') (adb_requests db')"
      unfolding rows update_hit_all
    proof
      fix x assume "x \<in> set (adb_requests db)"
      then have x: "request_ok db x" using inv by (auto simp: action_inv_def list_all_iff)
      have "request_ok db (?f x)" using moved_request [OF trigger, of now] x by (cases "x = r") simp_all
      then show "request_ok db' (?f x)" using same by (simp add: request_ok_def)
    qed
    moreover have "action_keys db'" using keys(1) same by (simp add: action_keys_def rows map_update_hit)
    ultimately show ?thesis using inv same by (simp add: action_inv_def list_all_iff)
  qed
qed

lemma action_step_inv:
  assumes inv: "action_inv db" and "action_step db db'"
  shows "action_inv db'"
  using assms(2)
proof cases
  case elsewhere
  then show ?thesis using inv
    by (simp add: action_inv_def action_keys_def simulation_ok_def approval_ok_def execution_ok_def request_ok_def list_all_iff)
qed (use inv in \<open>auto intro: insertActionRequest_inv transitionActionRequest_inv insertActionSimulation_inv insertApproval_inv
    transitionApproval_inv insertExecution_inv transitionExecution_inv\<close>)

lemma action_reachable_inv: "action_reachable db \<Longrightarrow> action_inv db"
proof (induction rule: action_reachable.induct)
  case (empty db)
  then show ?case by (simp add: action_inv_def action_keys_def no_actions_def)
next
  case (step db db')
  then show ?case using action_step_inv by blast
qed

section \<open>What no statement undoes\<close>

text \<open>The rows stay, with their bindings: only statuses, dates and outcomes change.\<close>

definition request_identity :: "action_request \<Rightarrow> json action_base" where
  "request_identity r = action_base.truncate r"

definition execution_identity :: "action_execution \<Rightarrow> string list" where
  "execution_identity e = [ex_id e, ex_projectId e, ex_actionRequestId e, ex_simulationId e, ex_approvalId e]"

definition rows_kept :: "'z action_db_scheme \<Rightarrow> 'z action_db_scheme \<Rightarrow> bool" where
  "rows_kept db db' \<longleftrightarrow> request_identity ` set (adb_requests db) \<subseteq> request_identity ` set (adb_requests db')
     \<and> set (adb_simulations db) \<subseteq> set (adb_simulations db')
     \<and> execution_identity ` set (adb_executions db) \<subseteq> execution_identity ` set (adb_executions db')"

lemma image_update_hit:
  "(\<And>x. h x \<Longrightarrow> f (c x) = f x) \<Longrightarrow> f ` set rows \<subseteq> f ` set (update_hit h c rows)"
proof
  fix y assume keeps: "\<And>x. h x \<Longrightarrow> f (c x) = f x" and "y \<in> f ` set rows"
  then obtain x where x: "x \<in> set rows" "y = f x" by auto
  then have "y = f (if h x then c x else x)" using keeps by simp
  then show "y \<in> f ` set (update_hit h c rows)" using update_hit_in [OF x(1)] by (rule image_eqI)
qed

lemma action_step_rows:
  assumes "action_step db db'"
  shows "rows_kept db db'"
  using assms
proof cases
  case (move_request i p expected s now b)
  then show ?thesis
    by (auto simp: transitionActionRequest_def rows_kept_def result_simps Let_def request_identity_def action_base.defs
        split: option.splits intro!: image_update_hit [THEN subsetD])
next
  case (finish_execution i p expected se now code hash b)
  then show ?thesis
    by (auto simp: transitionExecution_def rows_kept_def result_simps Let_def execution_identity_def outcome_change_def
        split: if_splits intro!: image_update_hit [THEN subsetD])
qed (auto simp: rows_kept_def insertActionRequest_def insertActionSimulation_def insertApproval_def
    transitionApproval_def insertExecution_def result_simps Let_def split: if_splits)

end
