(* ===== verification/Action_Request.thy ===== *)
theory Action_Request
  imports Action_Storage
begin

text \<open>
  The services of \<open>packages/application/src/capability\<close> that register resources and grants and take
  action requests: \<open>validation.ts\<close>, \<open>register-resource.ts\<close>, \<open>create-capability-grant.ts\<close>,
  \<open>disable-resource.ts\<close>, \<open>revoke-capability-grant.ts\<close>, \<open>list-capability-records.ts\<close>,
  \<open>evaluate-action-policy.ts\<close> with \<open>pipeline/evaluate-pipeline-authorization.ts\<close>,
  \<open>canonical-action.ts\<close> and \<open>request-controlled-action.ts\<close>, on the repositories of
  \<open>Action_Storage\<close>.
\<close>

section \<open>The model\<close>

text \<open>
  What the services are constructed with: clock and identifiers, the digest and the printer of
  numbers, the registry of connectors, and whether the pipeline authorization and the repository of
  agent runs were given.
\<close>

record 'w action_config =
  ac_services :: services
  ac_sha256 :: "string \<Rightarrow> string"
  ac_num_str :: "rat \<Rightarrow> string"
  ac_registry :: "'w registry"
  ac_pipeline :: bool
  ac_runtime :: bool

text \<open>A query that restores rows, and can throw.\<close>

definition queryDb :: "('db \<Rightarrow> 'a result) \<Rightarrow> ('db world, 'a) command" where
  "queryDb f = bindM (readDb f) liftR"

definition expect :: "'a option \<Rightarrow> error \<Rightarrow> ('s, 'a) command" where
  "expect v e = (case v of None \<Rightarrow> throwM e | Some x \<Rightarrow> returnM x)"

text \<open>The operator \<open>??\<close>.\<close>

definition or_else :: "'a option \<Rightarrow> 'a \<Rightarrow> 'a" where
  "or_else v d = (case v of None \<Rightarrow> d | Some x \<Rightarrow> x)"

subsection \<open>Validation\<close>

definition requiredText :: "string \<Rightarrow> string \<Rightarrow> string result" where
  "requiredText value field =
     (let normalized = trim value in
      if length normalized = 0 then throw (CapabilityValidationError (field @ '' cannot be empty'')) else ok normalized)"

definition canonicalRecord :: "js_value \<Rightarrow> string \<Rightarrow> json result" where
  "canonicalRecord value field =
     bindR (normalizeCanonicalJson value) (\<lambda>normalized. case normalized of
       JObj es \<Rightarrow> bindR (assertNoSensitiveFields normalized field) (\<lambda>_. ok normalized)
     | _ \<Rightarrow> throw (CapabilityValidationError (field @ '' must be an object'')))"

definition validateResource :: "registered_resource \<Rightarrow> connector_descriptor \<Rightarrow> unit result" where
  "validateResource r descriptor =
     bindR (forR (\<lambda>(value, field). bindR (requiredText value field) (\<lambda>_. ok ()))
       [(rc_id r, ''resource id''), (rc_projectId r, ''project id''), (rc_provider r, ''provider''),
        (rs_displayName r, ''display name'')]) (\<lambda>_.
     if rc_type r \<notin> set (cn_supportedResourceTypes descriptor)
     then throw (ActionError (UnsupportedConnectorResourceTypeError (cn_id descriptor) (resource_type_str (rc_type r))))
     else bindR (canonicalRecord (rc_configuration r) ''resource configuration'') (\<lambda>_. ok ()))"

definition validateGrant :: "registered_grant \<Rightarrow> connector_descriptor \<Rightarrow> unit result" where
  "validateGrant g descriptor =
     bindR (forR (\<lambda>(value, field). bindR (requiredText value field) (\<lambda>_. ok ()))
       [(cg_id g, ''grant id''), (cg_projectId g, ''project id''), (cg_principalId g, ''principal id''),
        (cg_resourceId g, ''resource id''), (gr_grantedBy g, ''granted by''), (gr_reason g, ''reason'')]) (\<lambda>_.
     if length (cg_actions g) = 0 then throw (CapabilityValidationError ''at least one action is required'')
     else if \<not> date_finite (cg_validFrom g)
     then throw (CapabilityValidationError ''grant validFrom must be a valid date'')
     else if (case cg_expiresAt g of None \<Rightarrow> False | Some e \<Rightarrow> \<not> date_finite e)
     then throw (CapabilityValidationError ''grant expiresAt must be a valid date'')
     else bindR (forR (\<lambda>action.
         if action \<noteq> cn_id descriptor @ ''.*'' \<and> action \<notin> set (map od_operation (cn_operations descriptor))
         then throw (CapabilityValidationError (''unsupported or unsafe action pattern: '' @ action)) else ok ())
         (cg_actions g)) (\<lambda>_.
       if (case cg_expiresAt g of None \<Rightarrow> False | Some e \<Rightarrow> date_le e (cg_validFrom g))
       then throw (CapabilityValidationError ''grant expiry must be after validFrom'') else ok ()))"

subsection \<open>Resources and grants\<close>

fun principal_str :: "principal_type \<Rightarrow> string" where
  "principal_str PrincipalUser = ''user''"
| "principal_str PrincipalAgent = ''agent''"
| "principal_str PrincipalRole = ''role''"
| "principal_str PrincipalWorkflow = ''workflow''"
| "principal_str PrincipalApplication = ''application''"

definition RegisterResource ::
  "'z action_db_scheme world action_config \<Rightarrow> string \<Rightarrow> resource_type \<Rightarrow> string \<Rightarrow> string option \<Rightarrow> string \<Rightarrow> js_value option
     \<Rightarrow> ('z action_db_scheme world, registered_resource) command" where
  "RegisterResource cfg projectId type providerGiven externalRef displayName configuration =
     bindM (readDb (\<lambda>db. project_exists db projectId)) (\<lambda>found.
     bindM (guardM found (ProjectNotFoundError projectId)) (\<lambda>_.
     bindM (liftR (requiredText providerGiven ''provider'')) (\<lambda>provider.
     bindM (liftR (requireDefinition (ac_registry cfg) provider)) (\<lambda>connector.
     bindM (liftR (optionally (\<lambda>e. requiredText e ''external ref'') externalRef)) (\<lambda>ref.
     bindM (liftR (canonicalRecord (or_else configuration empty_object) ''resource configuration'')) (\<lambda>conf.
     bindM (df_prepareResource connector type ref conf) (\<lambda>(preparedRef, prepared).
     bindM (clock_now (ac_services cfg)) (\<lambda>now.
     bindM (generate (ac_services cfg)) (\<lambda>i.
     bindM (liftR (requiredText projectId ''project id'')) (\<lambda>project.
     bindM (liftR (requiredText displayName ''display name'')) (\<lambda>name.
     let registered = \<lparr>rc_id = i, rc_projectId = project, rc_type = type,
           rc_provider = cn_id (df_descriptor connector), rc_configuration = embed prepared, rc_status = ResourceActive,
           rs_externalRef = preparedRef, rs_displayName = name, rs_createdAt = now, rs_updatedAt = now\<rparr> in
     bindM (liftR (validateResource registered (df_descriptor connector))) (\<lambda>_.
     bindM (transaction (bindM (execDb (saveResource registered)) (\<lambda>_.
       RecordAuditEvent (ac_services cfg) ''resource.registered'' ActorCli (Some ''local-cli'') (Some ''resource'')
         (Some i) (Some project) [(''type'', JStr (resource_type_str type)), (''provider'', JStr (rc_provider registered))]))) (\<lambda>_.
     returnM registered)))))))))))))"

definition check_principal ::
  "principal_type \<Rightarrow> string \<Rightarrow> string \<Rightarrow> 'z action_db_scheme \<Rightarrow> unit result" where
  "check_principal principalType principalId projectId db =
     (if principalType = PrincipalAgent
      then case findAgent db principalId of
          None \<Rightarrow> throw (ActionError (CapabilityPrincipalNotFoundError ''agent'' principalId))
        | Some a \<Rightarrow> if ag_projectId a \<noteq> projectId
            then throw (ActionError (CapabilityPrincipalNotFoundError ''agent'' principalId)) else ok ()
      else if principalType = PrincipalRole \<and> findRole db principalId projectId = None
      then throw (ActionError (CapabilityPrincipalNotFoundError ''role'' principalId))
      else ok ())"

record grant_input =
  gi_projectId :: string
  gi_principalType :: principal_type
  gi_principalId :: string
  gi_resourceId :: string
  gi_actions :: "string list"
  gi_constraints :: "js_value option"
  gi_validFrom :: "js_date option"
  gi_expiresAt :: "js_date option"
  gi_grantedBy :: string
  gi_reason :: string

definition granted_actions :: "string list \<Rightarrow> string list" where
  "granted_actions actions = sort (remdups (map trim actions))"

text \<open>The grant that is saved, once its parts are checked in the order the code reads them.\<close>

definition build_grant ::
  "'w connector_definition \<Rightarrow> grant_input \<Rightarrow> string \<Rightarrow> string \<Rightarrow> js_date \<Rightarrow> registered_grant result" where
  "build_grant connector gi resourceId i now =
     bindR (requiredText (gi_principalId gi) ''principal id'') (\<lambda>principal.
     bindR (canonicalRecord (or_else (gi_constraints gi) empty_object) ''grant constraints'') (\<lambda>record.
     bindR (df_normalizeConstraints connector record) (\<lambda>constraints.
     bindR (requiredText (gi_grantedBy gi) ''granted by'') (\<lambda>grantedBy.
     bindR (requiredText (gi_reason gi) ''reason'') (\<lambda>reason.
     ok \<lparr>cg_id = i, cg_projectId = gi_projectId gi, cg_principalType = gi_principalType gi, cg_principalId = principal,
       cg_resourceId = resourceId, cg_actions = granted_actions (gi_actions gi), cg_constraints = embed constraints,
       cg_validFrom = or_else (gi_validFrom gi) now, cg_expiresAt = gi_expiresAt gi, cg_revokedAt = None,
       gr_grantedBy = grantedBy, gr_reason = reason, gr_createdAt = now\<rparr>)))))"

definition CreateCapabilityGrant ::
  "'z action_db_scheme world action_config \<Rightarrow> grant_input \<Rightarrow> ('z action_db_scheme world, registered_grant) command" where
  "CreateCapabilityGrant cfg gi =
     bindM (readDb (\<lambda>db. project_exists db (gi_projectId gi))) (\<lambda>found.
     bindM (guardM found (ProjectNotFoundError (gi_projectId gi))) (\<lambda>_.
     bindM (queryDb (\<lambda>db. findResource db (gi_resourceId gi))) (\<lambda>row.
     bindM (expect row (ActionError (ResourceNotFoundError (gi_resourceId gi)))) (\<lambda>rsc.
     bindM (guardM (rc_projectId rsc = gi_projectId gi) (ActionError CapabilityProjectMismatchError)) (\<lambda>_.
     bindM (liftR (requireDefinition (ac_registry cfg) (rc_provider rsc))) (\<lambda>connector.
     bindM (queryDb (check_principal (gi_principalType gi) (gi_principalId gi) (gi_projectId gi))) (\<lambda>_.
     bindM (clock_now (ac_services cfg)) (\<lambda>now.
     bindM (generate (ac_services cfg)) (\<lambda>i.
     bindM (liftR (build_grant connector gi (rc_id rsc) i now)) (\<lambda>grant.
     bindM (liftR (validateGrant grant (df_descriptor connector))) (\<lambda>_.
     bindM (transaction (bindM (execDb (saveGrant grant)) (\<lambda>_.
       RecordAuditEvent (ac_services cfg) ''capability.granted'' ActorCli (Some (gr_grantedBy grant))
         (Some ''capability_grant'') (Some i) (Some (cg_projectId grant))
         [(''principalType'', JStr (principal_str (cg_principalType grant))), (''principalId'', JStr (cg_principalId grant)),
          (''resourceId'', JStr (cg_resourceId grant)), (''actions'', JArr (map JStr (cg_actions grant)))]))) (\<lambda>_.
     returnM grant))))))))))))"

definition DisableResource ::
  "'z action_db_scheme world action_config \<Rightarrow> string \<Rightarrow> string \<Rightarrow> ('z action_db_scheme world, unit) command" where
  "DisableResource cfg projectId resourceId =
     bindM (queryDb (\<lambda>db. findResource db resourceId)) (\<lambda>row.
     bindM (expect row (ActionError (ResourceNotFoundError resourceId))) (\<lambda>rsc.
     bindM (guardM (rc_projectId rsc = projectId) (ActionError CapabilityProjectMismatchError)) (\<lambda>_.
     bindM (guardM (rc_status rsc \<noteq> ResourceDisabled) (ActionError (ResourceDisabledError (rc_id rsc)))) (\<lambda>_.
     transaction (bindM (clock_now (ac_services cfg)) (\<lambda>now.
       bindM (execDb (disableResource (rc_id rsc) projectId now)) (\<lambda>disabled.
       bindM (guardM disabled (ActionError (ResourceDisabledError (rc_id rsc)))) (\<lambda>_.
       bindM (RecordAuditEvent (ac_services cfg) ''resource.disabled'' ActorCli (Some ''local-cli'') (Some ''resource'')
         (Some (rc_id rsc)) (Some projectId) []) (\<lambda>_. returnM ())))))))))"

definition RevokeCapabilityGrant ::
  "'z action_db_scheme world action_config \<Rightarrow> string \<Rightarrow> string \<Rightarrow> string \<Rightarrow> ('z action_db_scheme world, unit) command" where
  "RevokeCapabilityGrant cfg projectId grantId revokedBy =
     bindM (queryDb (\<lambda>db. findGrant db grantId)) (\<lambda>row.
     bindM (expect row (ActionError (CapabilityGrantNotFoundError grantId))) (\<lambda>grant.
     bindM (guardM (cg_projectId grant = projectId) (ActionError CapabilityProjectMismatchError)) (\<lambda>_.
     bindM (guardM (cg_revokedAt grant = None) (ActionError (CapabilityGrantRevokedError (cg_id grant)))) (\<lambda>_.
     transaction (bindM (clock_now (ac_services cfg)) (\<lambda>now.
       bindM (execDb (revokeGrant (cg_id grant) (cg_projectId grant) now)) (\<lambda>revoked.
       bindM (guardM revoked (ActionError (CapabilityGrantRevokedError (cg_id grant)))) (\<lambda>_.
       bindM (RecordAuditEvent (ac_services cfg) ''capability.revoked'' ActorCli (Some revokedBy) (Some ''capability_grant'')
         (Some (cg_id grant)) (Some (cg_projectId grant)) [(''resourceId'', JStr (cg_resourceId grant))]) (\<lambda>_.
       returnM ())))))))))"

definition showAction ::
  "string \<Rightarrow> string \<Rightarrow> ('z action_db_scheme world, action_request) command" where
  "showAction i projectId =
     bindM (queryDb (\<lambda>db. findActionRequest db i)) (\<lambda>row.
     bindM (expect row (ActionError (ActionRequestNotFoundError i))) (\<lambda>request.
     bindM (guardM (aq_projectId request = projectId) (ActionError CapabilityProjectMismatchError)) (\<lambda>_.
     returnM request)))"

subsection \<open>The authorization by a pipeline run\<close>

record pipeline_authorization =
  pa_allowed :: bool
  pa_reasons :: "string list"
  pa_pipelineRunId :: "string option"
  pa_pipelineStageRunId :: "string option"
  pa_pipelineStageId :: "string option"

definition pipeline_free :: pipeline_authorization where
  "pipeline_free = \<lparr>pa_allowed = True, pa_reasons = [], pa_pipelineRunId = None, pa_pipelineStageRunId = None,
     pa_pipelineStageId = None\<rparr>"

definition pipeline_denied :: "string \<Rightarrow> string option \<Rightarrow> stage_run option \<Rightarrow> pipeline_authorization" where
  "pipeline_denied reason run stage = \<lparr>pa_allowed = False, pa_reasons = [reason], pa_pipelineRunId = run,
     pa_pipelineStageRunId = map_option sr_id stage, pa_pipelineStageId = map_option sr_stageId stage\<rparr>"

definition stage_allows :: "office_pipeline_stage \<Rightarrow> string \<Rightarrow> bool" where
  "stage_allows stage operation \<longleftrightarrow> operation \<in> set (or_else (os_capabilities stage) [])"

text \<open>
  The decision on the current stage: assigned to the agent, and granting the operation. The
  \<open>definition\<close> of the stage is read by its index.
\<close>

definition stage_authorization ::
  "pipeline_run \<Rightarrow> stage_run \<Rightarrow> string \<Rightarrow> string \<Rightarrow> pipeline_authorization result" where
  "stage_authorization run stage agentId operation =
     (if sr_status stage = StAwaitingApproval
      then ok (pipeline_denied ''pipeline_approval_required'' (Some (pr_id run)) (Some stage))
      else if sr_status stage \<noteq> StActive
      then ok (pipeline_denied ''pipeline_stage_not_active'' (Some (pr_id run)) (Some stage))
      else if sr_assignedAgentId stage \<noteq> Some agentId
      then ok (pipeline_denied ''pipeline_agent_not_assigned'' (Some (pr_id run)) (Some stage))
      else bindR (index_read (op_stages (pr_definition run)) (sr_stageIndex stage)) (\<lambda>stage_def.
        if \<not> stage_allows stage_def operation
        then ok (pipeline_denied
          (if list_ex (\<lambda>candidate. stage_allows candidate operation) (drop (sr_stageIndex stage + 1) (op_stages (pr_definition run)))
           then ''pipeline_prerequisite_incomplete'' else ''pipeline_capability_denied'') (Some (pr_id run)) (Some stage))
        else ok \<lparr>pa_allowed = True, pa_reasons = [], pa_pipelineRunId = Some (pr_id run),
          pa_pipelineStageRunId = Some (sr_id stage), pa_pipelineStageId = Some (sr_stageId stage)\<rparr>))"

definition EvaluatePipelineAuthorization ::
  "string \<Rightarrow> string \<Rightarrow> string \<Rightarrow> string option \<Rightarrow> 'z action_db_scheme \<Rightarrow> pipeline_authorization result" where
  "EvaluatePipelineAuthorization projectId agentId operation pipelineRunId db =
     (case pipelineRunId of
        None \<Rightarrow> ok pipeline_free
      | Some i \<Rightarrow>
          (case findPipeline db i projectId of
             None \<Rightarrow> ok (pipeline_denied ''pipeline_stage_not_active'' None None)
           | Some run \<Rightarrow>
               if pr_status run \<noteq> RunActive then ok (pipeline_denied ''pipeline_stage_not_active'' (Some i) None)
               else bindR (currentStage run) (\<lambda>current. case current of
                   None \<Rightarrow> ok (pipeline_denied ''pipeline_stage_not_active'' (Some (pr_id run)) None)
                 | Some stage \<Rightarrow> stage_authorization run stage agentId operation)))"

subsection \<open>The policy of an action\<close>

record action_input =
  in_projectId :: string
  in_agentId :: string
  in_resourceId :: string
  in_operation :: string
  in_arguments :: js_value
  in_agentRunId :: "string option"
  in_pipelineRunId :: "string option"

record evaluated_policy =
  ev_decision :: policy_decision
  ev_pipeline :: pipeline_authorization
  ev_resource :: registered_resource
  ev_arguments :: json
  ev_connector :: connector_descriptor

definition policy_of ::
  "'w action_config \<Rightarrow> action_input \<Rightarrow> agent \<Rightarrow> string \<Rightarrow> registered_resource \<Rightarrow> string \<Rightarrow> json
     \<Rightarrow> registered_grant list \<Rightarrow> policy_input" where
  "policy_of cfg i agent roleId rsc operation arguments grants =
     \<lparr>pi_projectId = in_projectId i, pi_agentId = ag_id agent, pi_roleIds = [roleId], pi_resource = resource.truncate rsc,
      pi_operation = operation, pi_arguments = embed arguments, pi_grants = map capability_grant.truncate grants\<rparr>"

definition principal_missing :: "string \<Rightarrow> string \<Rightarrow> error" where
  "principal_missing kind i = ActionError (CapabilityPrincipalNotFoundError kind i)"

text \<open>A pipeline that denies turns any decision into a denial and adds its reasons.\<close>

definition combined_decision :: "policy_decision \<Rightarrow> pipeline_authorization \<Rightarrow> policy_decision" where
  "combined_decision base pipeline =
     (if pa_allowed pipeline then base
      else base\<lparr>pd_decision := PdDeny, pd_reasons := pd_reasons base @ pa_reasons pipeline\<rparr>)"

definition EvaluateActionPolicy ::
  "'z action_db_scheme world action_config \<Rightarrow> action_input \<Rightarrow> js_date option
     \<Rightarrow> ('z action_db_scheme world, evaluated_policy) command" where
  "EvaluateActionPolicy cfg i evaluatedAt =
     bindM (queryDb (\<lambda>db. findResource db (in_resourceId i))) (\<lambda>row.
     bindM (expect row (ActionError (ResourceNotFoundError (in_resourceId i)))) (\<lambda>rsc.
     bindM (guardM (rc_projectId rsc = in_projectId i) (ActionError CapabilityProjectMismatchError)) (\<lambda>_.
     bindM (readDb (\<lambda>db. findAgent db (in_agentId i))) (\<lambda>found.
     bindM (expect found (principal_missing ''agent'' (in_agentId i))) (\<lambda>agent.
     bindM (guardM (ag_projectId agent = in_projectId i \<and> ag_enabled agent) (principal_missing ''agent'' (in_agentId i))) (\<lambda>_.
     bindM (readDb (\<lambda>db. findRole db (ag_roleId agent) (in_projectId i))) (\<lambda>foundRole.
     bindM (expect foundRole (principal_missing ''role'' (ag_roleId agent))) (\<lambda>roleId.
     bindM (liftR (requireDefinition (ac_registry cfg) (rc_provider rsc))) (\<lambda>connector.
     bindM (liftR (requiredText (in_operation i) ''operation'')) (\<lambda>operation.
     bindM (liftR (canonicalRecord (in_arguments i) ''action arguments'')) (\<lambda>record.
     bindM (liftR (df_normalizeArguments connector operation record)) (\<lambda>normalizedArguments.
     bindM (queryDb (\<lambda>db. listGrants db (in_projectId i) (Some (rc_id rsc)))) (\<lambda>grants.
     bindM (case evaluatedAt of None \<Rightarrow> clock_now (ac_services cfg) | Some d \<Rightarrow> returnM d) (\<lambda>now.
     bindM (liftR (evaluate (ac_num_str cfg) (getPolicyDefinition (ac_registry cfg))
       (policy_of cfg i agent roleId rsc operation normalizedArguments grants) now)) (\<lambda>baseDecision.
     bindM (if \<not> ac_pipeline cfg then returnM pipeline_free
       else queryDb (EvaluatePipelineAuthorization (in_projectId i) (in_agentId i) operation (in_pipelineRunId i))) (\<lambda>pipeline.
     returnM \<lparr>ev_decision = combined_decision baseDecision pipeline, ev_pipeline = pipeline, ev_resource = rsc,
       ev_arguments = normalizedArguments, ev_connector = df_descriptor connector\<rparr>))))))))))))))))"

subsection \<open>Requesting an action\<close>

datatype action_outcome = OutcomeAllowed | OutcomeDenied | OutcomeSimulationRequired | OutcomeApprovalRequired

fun outcomes :: "policy_decision_kind \<Rightarrow> action_outcome" where
  "outcomes PdAllow = OutcomeAllowed"
| "outcomes PdDeny = OutcomeDenied"
| "outcomes PdAllowSimulationOnly = OutcomeSimulationRequired"
| "outcomes PdAllowWithApproval = OutcomeApprovalRequired"

fun decision_kind_str :: "policy_decision_kind \<Rightarrow> string" where
  "decision_kind_str PdAllow = ''allow''"
| "decision_kind_str PdDeny = ''deny''"
| "decision_kind_str PdAllowSimulationOnly = ''allow_simulation_only''"
| "decision_kind_str PdAllowWithApproval = ''allow_with_approval''"

text \<open>The payload of an action as evaluated now, and its hash.\<close>

definition evaluated_payload ::
  "string \<Rightarrow> string \<Rightarrow> string \<Rightarrow> string option \<Rightarrow> evaluated_policy \<Rightarrow> js_value" where
  "evaluated_payload projectId agentId operation agentRunId ev = JsObject True False
     ([(''schemaVersion'', Data (JsNumber (Num 1))), (''projectId'', Data (JsString projectId)),
       (''agentId'', Data (JsString agentId)), (''resourceId'', Data (JsString (rc_id (ev_resource ev)))),
       (''connector'', Data (JsString (cn_id (ev_connector ev)))),
       (''connectorVersion'', Data (JsString (cn_version (ev_connector ev)))), (''operation'', Data (JsString operation)),
       (''normalizedArguments'', Data (embed (ev_arguments ev))),
       (''effectiveConstraints'', Data (pd_effectiveConstraints (ev_decision ev)))]
      @ optional_entry ''agentRunId'' agentRunId @ optional_entry ''pipelineRunId'' (pa_pipelineRunId (ev_pipeline ev))
      @ optional_entry ''pipelineStageRunId'' (pa_pipelineStageRunId (ev_pipeline ev)))"

definition hashCanonicalActionPayload :: "'w action_config \<Rightarrow> js_value \<Rightarrow> string result" where
  "hashCanonicalActionPayload cfg payload =
     bindR (canonicalStringify (ac_num_str cfg) payload) (\<lambda>canonical. ok (ac_sha256 cfg canonical))"

definition optional_str :: "string \<Rightarrow> string option \<Rightarrow> (string \<times> json) list" where
  "optional_str k v = (case v of None \<Rightarrow> [] | Some s \<Rightarrow> [(k, JStr s)])"

definition str_array :: "string list \<Rightarrow> json" where
  "str_array xs = JArr (map JStr xs)"

text \<open>An audit record of a controlled action, made by the system for an agent.\<close>

definition audit_action ::
  "'w action_config \<Rightarrow> string \<Rightarrow> string option \<Rightarrow> string \<Rightarrow> string \<Rightarrow> string \<Rightarrow> (string \<times> json) list
     \<Rightarrow> ('z action_db_scheme world, string) command" where
  "audit_action cfg eventType actorId projectId aggregateType aggregateId payload =
     RecordAuditEvent (ac_services cfg) eventType ActorSystem actorId (Some aggregateType) (Some aggregateId)
       (Some projectId) payload"

text \<open>The persisted run whose intent the input must repeat.\<close>

definition matches_intent :: "'w action_config \<Rightarrow> agent_run \<Rightarrow> action_input \<Rightarrow> bool result" where
  "matches_intent cfg run i =
     (if ar_projectId run \<noteq> in_projectId i \<or> ar_agentId run \<noteq> in_agentId i then ok False
      else case ar_actionIntent run of None \<Rightarrow> ok False
      | Some intent \<Rightarrow>
          if ai_resourceId intent \<noteq> trim (in_resourceId i) \<or> ai_operation intent \<noteq> trim (in_operation i) then ok False
          else bindR (canonicalStringify (ac_num_str cfg) (embed (ai_arguments intent))) (\<lambda>a.
               bindR (canonicalStringify (ac_num_str cfg) (in_arguments i)) (\<lambda>b. ok (a = b))))"

definition provenance_error :: "string \<Rightarrow> error" where
  "provenance_error s = ActionError (AgentRunProvenanceError s)"

definition default_provenance :: string where
  "default_provenance = ''Agent-run provenance is invalid''"

definition resolveProvenance ::
  "'z action_db_scheme world action_config \<Rightarrow> action_input \<Rightarrow> ('z action_db_scheme world, action_input) command" where
  "resolveProvenance cfg i =
     (case in_agentRunId i of
        None \<Rightarrow> if in_pipelineRunId i \<noteq> None
          then throwM (provenance_error ''Pipeline context must come from an AgentRun'') else returnM i
      | Some runId \<Rightarrow>
          bindM (guardM (ac_runtime cfg) (provenance_error ''Agent-run gateway is unavailable'')) (\<lambda>_.
          bindM (readDb (\<lambda>db. findRun db runId)) (\<lambda>found.
          bindM (expect found (provenance_error default_provenance)) (\<lambda>run.
          bindM (liftR (matches_intent cfg run i)) (\<lambda>matches.
          bindM (guardM matches (provenance_error ''Action input does not match the persisted AgentRun intent'')) (\<lambda>_.
          bindM (guardM (in_pipelineRunId i = None \<or> in_pipelineRunId i = ar_pipelineRunId run)
            (provenance_error ''Pipeline context does not match the persisted AgentRun'')) (\<lambda>_.
          returnM (i\<lparr>in_pipelineRunId := given (ar_pipelineRunId run) (in_pipelineRunId i)\<rparr>))))))))"

definition requested_payload :: "evaluated_policy \<Rightarrow> string \<Rightarrow> string \<Rightarrow> action_input \<Rightarrow> (string \<times> json) list" where
  "requested_payload ev operation payloadHash resolved =
     [(''resourceId'', JStr (rc_id (ev_resource ev))), (''operation'', JStr operation),
      (''riskLevel'', JStr (risk_str (pd_riskLevel (ev_decision ev)))), (''payloadHash'', JStr payloadHash),
      (''reasons'', str_array (pd_reasons (ev_decision ev)))]
     @ optional_str ''agentRunId'' (in_agentRunId resolved)
     @ optional_str ''pipelineRunId'' (pa_pipelineRunId (ev_pipeline ev))
     @ optional_str ''pipelineStageId'' (pa_pipelineStageId (ev_pipeline ev))"

definition decided_payload :: "evaluated_policy \<Rightarrow> string \<Rightarrow> action_input \<Rightarrow> (string \<times> json) list" where
  "decided_payload ev payloadHash resolved =
     [(''decision'', JStr (decision_kind_str (pd_decision (ev_decision ev)))),
      (''riskLevel'', JStr (risk_str (pd_riskLevel (ev_decision ev)))),
      (''matchedGrantIds'', str_array (pd_matchedGrantIds (ev_decision ev))), (''payloadHash'', JStr payloadHash),
      (''reasons'', str_array (pd_reasons (ev_decision ev)))]
     @ optional_str ''agentRunId'' (in_agentRunId resolved)
     @ optional_str ''pipelineRunId'' (pa_pipelineRunId (ev_pipeline ev))
     @ optional_str ''pipelineStageId'' (pa_pipelineStageId (ev_pipeline ev))"

definition pipeline_denied_payload :: "evaluated_policy \<Rightarrow> string \<Rightarrow> string \<Rightarrow> action_input \<Rightarrow> (string \<times> json) list" where
  "pipeline_denied_payload ev requestId operation resolved =
     [(''actionRequestId'', JStr requestId), (''operation'', JStr operation),
      (''reasons'', str_array (pa_reasons (ev_pipeline ev)))]
     @ optional_str ''agentRunId'' (in_agentRunId resolved)
     @ optional_str ''stageId'' (pa_pipelineStageId (ev_pipeline ev))"

text \<open>The request that is stored, before its identifier and date are normalized by the class.\<close>

definition requested_action ::
  "string \<Rightarrow> action_input \<Rightarrow> evaluated_policy \<Rightarrow> string \<Rightarrow> string \<Rightarrow> js_value action_base" where
  "requested_action i resolved ev operation payloadHash =
     \<lparr>aq_id = i, aq_projectId = in_projectId resolved, aq_agentId = in_agentId resolved,
      aq_resourceId = rc_id (ev_resource ev), aq_connector = cn_id (ev_connector ev),
      aq_connectorVersion = cn_version (ev_connector ev), aq_operation = operation,
      aq_normalizedArguments = embed (ev_arguments ev), aq_effectiveConstraints = pd_effectiveConstraints (ev_decision ev),
      aq_agentRunId = in_agentRunId resolved, aq_payloadHash = payloadHash, aq_decision = pd_decision (ev_decision ev),
      aq_riskLevel = pd_riskLevel (ev_decision ev), aq_matchedGrantIds = pd_matchedGrantIds (ev_decision ev),
      aq_reasons = pd_reasons (ev_decision ev), aq_pipelineRunId = pa_pipelineRunId (ev_pipeline ev),
      aq_pipelineStageRunId = pa_pipelineStageRunId (ev_pipeline ev)\<rparr>"

definition transition_or_conflict ::
  "string \<Rightarrow> string \<Rightarrow> action_status \<Rightarrow> action_status \<Rightarrow> js_date \<Rightarrow> ('z action_db_scheme world, unit) command" where
  "transition_or_conflict i projectId expected s now =
     bindM (execDb (transitionActionRequest i projectId expected s now)) (\<lambda>transitioned.
       guardM transitioned (ActionError (ConcurrentActionTransitionError i (action_status_str expected) (action_status_str s))))"

definition request_work ::
  "'z action_db_scheme world action_config \<Rightarrow> action_input
     \<Rightarrow> ('z action_db_scheme world, action_request \<times> action_outcome) command" where
  "request_work cfg resolved =
     bindM (EvaluateActionPolicy cfg resolved None) (\<lambda>ev.
     let operation = trim (in_operation resolved); decision = ev_decision ev; project = in_projectId resolved;
         actor = Some (in_agentId resolved) in
     bindM (liftR (hashCanonicalActionPayload cfg
       (evaluated_payload project (in_agentId resolved) operation (in_agentRunId resolved) ev))) (\<lambda>payloadHash.
     bindM (clock_now (ac_services cfg)) (\<lambda>requestedAt.
     bindM (generate (ac_services cfg)) (\<lambda>i.
     bindM (liftR (ActionRequest_create (requested_action i resolved ev operation payloadHash) requestedAt)) (\<lambda>request.
     bindM (execDb (insertActionRequest request)) (\<lambda>_.
     bindM (audit_action cfg ''action.requested'' actor project ''action_request'' i
       (requested_payload ev operation payloadHash resolved)) (\<lambda>_.
     let nextStatus = (if pd_decision decision = PdDeny then AsDenied else AsAuthorized) in
     bindM (clock_now (ac_services cfg)) (\<lambda>transitionedAt.
     bindM (transition_or_conflict i project AsRequested nextStatus transitionedAt) (\<lambda>_.
     bindM (liftR (ActionRequest_transition nextStatus transitionedAt None False request)) (\<lambda>request2.
     bindM (audit_action cfg (if nextStatus = AsDenied then ''action.denied'' else ''action.authorized'') actor project
       ''action_request'' i (decided_payload ev payloadHash resolved)) (\<lambda>_.
     bindM (if nextStatus = AsDenied \<and> \<not> pa_allowed (ev_pipeline ev)
         then when_some (pa_pipelineRunId (ev_pipeline ev)) (\<lambda>run.
           audit_action cfg ''pipeline.action_denied'' actor project ''pipeline_run'' run
             (pipeline_denied_payload ev i operation resolved))
         else returnM ()) (\<lambda>_.
     returnM (request2, outcomes (pd_decision decision))))))))))))))"

definition RequestControlledAction ::
  "'z action_db_scheme world action_config \<Rightarrow> action_input
     \<Rightarrow> ('z action_db_scheme world, action_request \<times> action_outcome) command" where
  "RequestControlledAction cfg i = bindM (resolveProvenance cfg i) (\<lambda>resolved. transaction (request_work cfg resolved))"

definition executeFromAgentRun ::
  "'z action_db_scheme world action_config \<Rightarrow> string
     \<Rightarrow> ('z action_db_scheme world, action_request \<times> action_outcome) command" where
  "executeFromAgentRun cfg agentRunId =
     bindM (guardM (ac_runtime cfg) (provenance_error ''Agent-run gateway is unavailable'')) (\<lambda>_.
     bindM (readDb (\<lambda>db. findRun db agentRunId)) (\<lambda>found.
     bindM (expect found (provenance_error default_provenance)) (\<lambda>run.
     case ar_actionIntent run of
       None \<Rightarrow> throwM (provenance_error ''Agent run is not executing an action intent'')
     | Some intent \<Rightarrow>
         bindM (guardM (ar_status run \<in> {ArRunning, ArReviewing, ArCompleted})
           (provenance_error ''Agent run is not executing an action intent'')) (\<lambda>_.
         RequestControlledAction cfg \<lparr>in_projectId = ar_projectId run, in_agentId = ar_agentId run,
           in_resourceId = ai_resourceId intent, in_operation = ai_operation intent,
           in_arguments = embed (ai_arguments intent), in_agentRunId = Some (ar_id run), in_pipelineRunId = None\<rparr>))))"

end
