(* ===== verification/Action_Execution.thy ===== *)
theory Action_Execution
  imports Action_Request
begin

text \<open>
  The services of \<open>packages/application/src/capability\<close> that carry a controlled action out:
  \<open>action-simulation-hash.ts\<close>, \<open>action-approval-binding.ts\<close>,
  \<open>invoke-controlled-connector-action.ts\<close> (reads and simulations), \<open>decide-controlled-action.ts\<close> and
  \<open>execute-controlled-action.ts\<close> (approved mutations). The connector is called between two
  transactions, and other services may run meanwhile. The hooks of the classes are for tests and
  left out.
\<close>

section \<open>The model\<close>

text \<open>\<open>try\<close> and \<open>catch\<close>: what the work changed stays.\<close>

definition catchM :: "('s, 'a) command \<Rightarrow> (error \<Rightarrow> ('s, 'a) command) \<Rightarrow> ('s, 'a) command" where
  "catchM work handler = (\<lambda>s. case work s of (Inl e, s') \<Rightarrow> handler e s' | (Inr x, s') \<Rightarrow> (Inr x, s'))"

text \<open>\<open>error.name\<close>: every class sets it to its own name. The driver's is \<open>SQLiteError\<close>.\<close>

fun action_error_name :: "action_error \<Rightarrow> string" where
  "action_error_name (UnsupportedConnectorError _) = ''UnsupportedConnectorError''"
| "action_error_name (UnsupportedConnectorOperationError _ _) = ''UnsupportedConnectorOperationError''"
| "action_error_name (UnsupportedConnectorResourceTypeError _ _) = ''UnsupportedConnectorResourceTypeError''"
| "action_error_name (ConnectorRegistryError _) = ''ConnectorRegistryError''"
| "action_error_name (ConnectorExecutionUnavailableError _) = ''ConnectorExecutionUnavailableError''"
| "action_error_name (ConnectorFailure name) = name"
| "action_error_name (ResourceNotFoundError _) = ''ResourceNotFoundError''"
| "action_error_name (ResourceDisabledError _) = ''ResourceDisabledError''"
| "action_error_name (CapabilityGrantNotFoundError _) = ''CapabilityGrantNotFoundError''"
| "action_error_name (CapabilityGrantRevokedError _) = ''CapabilityGrantRevokedError''"
| "action_error_name (CapabilityPrincipalNotFoundError _ _) = ''CapabilityPrincipalNotFoundError''"
| "action_error_name CapabilityProjectMismatchError = ''CapabilityProjectMismatchError''"
| "action_error_name (ActionRequestNotFoundError _) = ''ActionRequestNotFoundError''"
| "action_error_name (ConcurrentActionTransitionError _ _ _) = ''ConcurrentActionTransitionError''"
| "action_error_name (ActionSimulationConflictError _) = ''ActionSimulationConflictError''"
| "action_error_name (InvalidConnectorInvocationStateError _) = ''InvalidConnectorInvocationStateError''"
| "action_error_name StaleActionAuthorizationError = ''StaleActionAuthorizationError''"
| "action_error_name (ActionApprovalNotFoundError _) = ''ActionApprovalNotFoundError''"
| "action_error_name (ActionApprovalConflictError _) = ''ActionApprovalConflictError''"
| "action_error_name (InvalidActionApprovalStateError _) = ''InvalidActionApprovalStateError''"
| "action_error_name (ActionExecutionConflictError _) = ''ActionExecutionConflictError''"
| "action_error_name (InvalidActionExecutionStateError _) = ''InvalidActionExecutionStateError''"
| "action_error_name StaleActionSimulationError = ''StaleActionSimulationError''"
| "action_error_name (AgentRunProvenanceError _) = ''AgentRunProvenanceError''"

fun error_name :: "error \<Rightarrow> string" where
  "error_name (DomainValidationError _) = ''DomainValidationError''"
| "error_name (InvalidTaskTransitionError _ _ _) = ''InvalidTaskTransitionError''"
| "error_name (InvalidTaskCorrectionError _ _ _) = ''InvalidTaskCorrectionError''"
| "error_name (TaskDependencyError _) = ''TaskDependencyError''"
| "error_name (TaskPrerequisiteIncompleteError _ _ _) = ''TaskPrerequisiteIncompleteError''"
| "error_name TaskNotRunnableError = ''TaskNotRunnableError''"
| "error_name (PipelineTransitionError _) = ''PipelineTransitionError''"
| "error_name (CapabilityValidationError _) = ''CapabilityValidationError''"
| "error_name (InvalidCapabilityConstraintsError _) = ''InvalidCapabilityConstraintsError''"
| "error_name (CanonicalSerializationError _ _) = ''CanonicalSerializationError''"
| "error_name (InvalidActionTransitionError _ _) = ''InvalidActionTransitionError''"
| "error_name InvalidActionTimestampError = ''InvalidActionTimestampError''"
| "error_name (InvalidModelUsageError _) = ''InvalidModelUsageError''"
| "error_name (RangeError _) = ''RangeError''"
| "error_name TypeError = ''TypeError''"
| "error_name TransactionAlreadyActiveError = ''TransactionAlreadyActiveError''"
| "error_name (ProjectNotFoundError _) = ''ProjectNotFoundError''"
| "error_name (TaskNotFoundError _) = ''TaskNotFoundError''"
| "error_name (AgentNotFoundError _) = ''AgentNotFoundError''"
| "error_name TaskCompletionApprovalError = ''TaskCompletionApprovalError''"
| "error_name (OfficeManifestNotFoundError _) = ''OfficeManifestNotFoundError''"
| "error_name (OfficePipelineNotFoundError _ _) = ''OfficePipelineNotFoundError''"
| "error_name (PipelineRunNotFoundError _) = ''PipelineRunNotFoundError''"
| "error_name (ActivePipelineRunExistsError _) = ''ActivePipelineRunExistsError''"
| "error_name (PipelineDefinitionNotEnforcedError _) = ''PipelineDefinitionNotEnforcedError''"
| "error_name (PipelineDefinitionAmbiguousError _) = ''PipelineDefinitionAmbiguousError''"
| "error_name (PipelineRoleUnavailableError _ _) = ''PipelineRoleUnavailableError''"
| "error_name (PackPipelineUnsupportedError _ _) = ''PackPipelineUnsupportedError''"
| "error_name (ConcurrentPipelineTransitionError _) = ''ConcurrentPipelineTransitionError''"
| "error_name (PipelineActorUnauthorizedError _) = ''PipelineActorUnauthorizedError''"
| "error_name (GovernanceSubjectNotFoundError _ _) = ''GovernanceSubjectNotFoundError''"
| "error_name (GovernanceCrossProjectReferenceError _) = ''GovernanceCrossProjectReferenceError''"
| "error_name (RequirementNotEditableError _ _) = ''RequirementNotEditableError''"
| "error_name (ReviewNotFoundError _) = ''ReviewNotFoundError''"
| "error_name (ReviewAlreadyFinalizedError _) = ''ReviewAlreadyFinalizedError''"
| "error_name (DuplicateRequirementKeyError _) = ''DuplicateRequirementKeyError''"
| "error_name (RequirementNotFoundError _) = ''RequirementNotFoundError''"
| "error_name BudgetNotFoundError = ''BudgetNotFoundError''"
| "error_name BudgetExceededError = ''BudgetExceededError''"
| "error_name MonetaryOverflowError = ''MonetaryOverflowError''"
| "error_name (ReservationExpiredError _) = ''ReservationExpiredError''"
| "error_name (PricingOverlapError _ _) = ''PricingOverlapError''"
| "error_name (DuplicateProviderUsageError _ _) = ''DuplicateProviderUsageError''"
| "error_name (PricingNotFoundError _ _) = ''PricingNotFoundError''"
| "error_name PricingCurrencyMismatchError = ''PricingCurrencyMismatchError''"
| "error_name AtomicReservationUnavailableError = ''AtomicReservationUnavailableError''"
| "error_name (StorageConstraintError _) = ''SQLiteError''"
| "error_name (ActionError e) = action_error_name e"
| "error_name (ClassError name _) = name"
| "error_name (SystemError _) = ''Error''"
| "error_name (MutationError _ _) = ''ConnectorMutationExecutionError''"

subsection \<open>The binding of an approval\<close>

definition hashActionSimulationArtifact ::
  "'w action_config \<Rightarrow> action_request \<Rightarrow> file_precondition list \<Rightarrow> string \<Rightarrow> string result" where
  "hashActionSimulationArtifact cfg r preconditions diffSha256 =
     bindR (canonicalStringify (ac_num_str cfg) (JsObject True False
       [(''schemaVersion'', Data (JsNumber (Num 1))), (''actionRequestId'', Data (JsString (aq_id r))),
        (''authorizationPayloadHash'', Data (JsString (aq_payloadHash r))), (''connector'', Data (JsString (aq_connector r))),
        (''connectorVersion'', Data (JsString (aq_connectorVersion r))), (''operation'', Data (JsString (aq_operation r))),
        (''preconditions'', Data (preconditions_value preconditions)), (''diffSha256'', Data (JsString diffSha256))])) (\<lambda>s.
     ok (ac_sha256 cfg s))"

definition assertSimulationIntegrity :: "'w action_config \<Rightarrow> action_request \<Rightarrow> action_simulation \<Rightarrow> unit result" where
  "assertSimulationIntegrity cfg r s =
     (let diffSha256 = ac_sha256 cfg (sm_diff s) in
      bindR (hashActionSimulationArtifact cfg r (sm_preconditions s) diffSha256) (\<lambda>artifactSha256.
      if sm_projectId s \<noteq> aq_projectId r \<or> sm_actionRequestId s \<noteq> aq_id r
         \<or> sm_authorizationPayloadHash s \<noteq> aq_payloadHash r \<or> sm_connector s \<noteq> aq_connector r
         \<or> sm_connectorVersion s \<noteq> aq_connectorVersion r \<or> sm_operation s \<noteq> aq_operation r
         \<or> sm_diffSha256 s \<noteq> diffSha256 \<or> sm_artifactSha256 s \<noteq> artifactSha256
      then throw (ActionError StaleActionSimulationError) else ok ()))"

definition approval_state_error :: "string \<Rightarrow> error" where
  "approval_state_error s = ActionError (InvalidActionApprovalStateError s)"

definition invalid_approval :: error where
  "invalid_approval = approval_state_error ''Action approval is not valid for this operation''"

definition assertApprovalBinding ::
  "'w action_config \<Rightarrow> action_request \<Rightarrow> action_simulation \<Rightarrow> action_approval \<Rightarrow> unit result" where
  "assertApprovalBinding cfg r s a =
     bindR (assertSimulationIntegrity cfg r s) (\<lambda>_.
     if ap_projectId a \<noteq> aq_projectId r \<or> ap_actionRequestId a \<noteq> aq_id r \<or> ap_simulationId a \<noteq> sm_id s
        \<or> ap_actionPayloadHash a \<noteq> aq_payloadHash r \<or> ap_simulationArtifactHash a \<noteq> sm_artifactSha256 s
        \<or> ap_connector a \<noteq> aq_connector r \<or> ap_connectorVersion a \<noteq> aq_connectorVersion r
        \<or> ap_operation a \<noteq> aq_operation r
     then throw invalid_approval else ok ())"

subsection \<open>Fresh authorization\<close>

definition stale :: error where
  "stale = ActionError StaleActionAuthorizationError"

definition validateAgentRunBinding ::
  "'w action_config \<Rightarrow> action_request \<Rightarrow> ('z action_db_scheme world, unit) command" where
  "validateAgentRunBinding cfg r =
     (case aq_agentRunId r of None \<Rightarrow> returnM ()
      | Some runId \<Rightarrow>
          bindM (guardM (ac_runtime cfg) stale) (\<lambda>_.
          bindM (readDb (\<lambda>db. findRun db runId)) (\<lambda>found.
          bindM (expect found stale) (\<lambda>run.
          guardM (ar_projectId run = aq_projectId r \<and> ar_agentId run = aq_agentId r
            \<and> ar_pipelineRunId run = aq_pipelineRunId r) stale))))"

definition input_of_request :: "action_request \<Rightarrow> action_input" where
  "input_of_request r = \<lparr>in_projectId = aq_projectId r, in_agentId = aq_agentId r, in_resourceId = aq_resourceId r,
     in_operation = aq_operation r, in_arguments = embed (aq_normalizedArguments r), in_agentRunId = None,
     in_pipelineRunId = aq_pipelineRunId r\<rparr>"

text \<open>The current policy gives the same answer on the same terms.\<close>

definition same_authorization :: "'w connector_definition \<Rightarrow> action_request \<Rightarrow> evaluated_policy \<Rightarrow> bool" where
  "same_authorization connector r ev \<longleftrightarrow>
     rc_status (ev_resource ev) = ResourceActive \<and> rc_projectId (ev_resource ev) = aq_projectId r
     \<and> rc_provider (ev_resource ev) = cn_id (df_descriptor connector)
     \<and> rc_type (ev_resource ev) \<in> set (cn_supportedResourceTypes (df_descriptor connector))
     \<and> cn_id (ev_connector ev) = aq_connector r \<and> cn_version (ev_connector ev) = aq_connectorVersion r
     \<and> pd_decision (ev_decision ev) = aq_decision r \<and> pd_riskLevel (ev_decision ev) = aq_riskLevel r
     \<and> pa_pipelineRunId (ev_pipeline ev) = aq_pipelineRunId r
     \<and> pa_pipelineStageRunId (ev_pipeline ev) = aq_pipelineStageRunId r
     \<and> pd_matchedGrantIds (ev_decision ev) = aq_matchedGrantIds r"

text \<open>
  Both hashes of the payload, of the action as evaluated now and of the stored request, are the
  authorized one; the second is only computed when all else agrees.
\<close>

definition confirm_authorization ::
  "'w action_config \<Rightarrow> action_request \<Rightarrow> evaluated_policy \<Rightarrow> bool \<Rightarrow> unit result" where
  "confirm_authorization cfg r ev same =
     bindR (hashCanonicalActionPayload cfg
       (evaluated_payload (aq_projectId r) (aq_agentId r) (aq_operation r) (aq_agentRunId r) ev)) (\<lambda>currentHash.
     if \<not> same \<or> currentHash \<noteq> aq_payloadHash r then throw stale
     else bindR (hashCanonicalActionPayload cfg (canonicalPayload r)) (\<lambda>storedHash.
       if storedHash \<noteq> aq_payloadHash r then throw stale else ok ()))"

record 'w fresh_authorization =
  fa_connector :: "'w connector_definition"
  fa_operation :: operation_descriptor
  fa_resource :: registered_resource
  fa_outcome :: action_outcome

definition invocation_state_error :: "string \<Rightarrow> error" where
  "invocation_state_error s = ActionError (InvalidConnectorInvocationStateError s)"

definition requireFreshAuthorization ::
  "'z action_db_scheme world action_config \<Rightarrow> action_request \<Rightarrow> js_date
     \<Rightarrow> ('z action_db_scheme world, 'z action_db_scheme world fresh_authorization) command" where
  "requireFreshAuthorization cfg r evaluatedAt =
     bindM (validateAgentRunBinding cfg r) (\<lambda>_.
     bindM (guardM (aq_status r = AsAuthorized) (invocation_state_error
       (''Action request must be authorized before invocation: '' @ action_status_str (aq_status r)))) (\<lambda>_.
     bindM (liftR (requireDefinition (ac_registry cfg) (aq_connector r))) (\<lambda>connector.
     bindM (liftR (requireOperation (ac_registry cfg) (aq_connector r) (aq_operation r))) (\<lambda>operation.
     bindM (guardM (cn_version (df_descriptor connector) = aq_connectorVersion r) stale) (\<lambda>_.
     bindM (EvaluateActionPolicy cfg (input_of_request r) (Some evaluatedAt)) (\<lambda>ev.
     bindM (liftR (confirm_authorization cfg r ev
       (same_authorization connector r ev \<and> pd_decision (ev_decision ev) \<noteq> PdDeny))) (\<lambda>_.
     returnM \<lparr>fa_connector = connector, fa_operation = operation, fa_resource = ev_resource ev,
       fa_outcome = outcomes (pd_decision (ev_decision ev))\<rparr>)))))))"

subsection \<open>The lease of an invocation\<close>

definition scope_of :: "registered_resource \<Rightarrow> resource_scope" where
  "scope_of r = \<lparr>sc_id = rc_id r, sc_type = rc_type r, sc_provider = rc_provider r, sc_externalRef = rs_externalRef r,
     sc_configuration = rc_configuration r\<rparr>"

definition invocation_of :: "registered_resource \<Rightarrow> action_request \<Rightarrow> connector_invocation" where
  "invocation_of rsc r = \<lparr>iv_resource = scope_of rsc, iv_operation = aq_operation r,
     iv_arguments = aq_normalizedArguments r, iv_effectiveConstraints = aq_effectiveConstraints r\<rparr>"

definition unavailable :: "string \<Rightarrow> error" where
  "unavailable connector = ActionError (ConnectorExecutionUnavailableError connector)"

definition lease_work ::
  "'z action_db_scheme world action_config \<Rightarrow> string \<Rightarrow> string
     \<Rightarrow> ('z action_db_scheme world, action_request \<times> 'z action_db_scheme world fresh_authorization) command" where
  "lease_work cfg actionRequestId projectId =
     bindM (queryDb (\<lambda>db. findActionRequest db actionRequestId)) (\<lambda>row.
     bindM (expect row (ActionError (ActionRequestNotFoundError actionRequestId))) (\<lambda>request.
     bindM (guardM (aq_projectId request = projectId) (ActionError CapabilityProjectMismatchError)) (\<lambda>_.
     bindM (clock_now (ac_services cfg)) (\<lambda>leaseAt.
     bindM (requireFreshAuthorization cfg request leaseAt) (\<lambda>fresh.
     bindM (guardM (df_invoke (fa_connector fresh) \<noteq> None) (unavailable (aq_connector request))) (\<lambda>_.
     let operation = fa_operation fresh; targetStatus = (if od_mode operation = ReadMode then AsExecuting else AsSimulating) in
     bindM (guardM (\<not> (od_mode operation = ReadMode \<and> (\<not> od_supportsExecution operation \<or> fa_outcome fresh \<noteq> OutcomeAllowed)
         \<or> od_mode operation = MutationMode \<and> \<not> od_supportsSimulation operation))
       (invocation_state_error ''Action is not invocable in its current policy state'')) (\<lambda>_.
     bindM (liftR (ActionRequest_transition targetStatus leaseAt (Some (od_mode operation)) (od_requiresApproval operation) request)) (\<lambda>leased.
     bindM (transition_or_conflict (aq_id request) (aq_projectId request) AsAuthorized targetStatus leaseAt) (\<lambda>_.
     bindM (audit_action cfg (if targetStatus = AsExecuting then ''action.executing'' else ''action.simulating'')
       (Some (aq_agentId request)) (aq_projectId request) ''action_request'' (aq_id request) []) (\<lambda>_.
     returnM (leased, fresh)))))))))))"

definition acquireAuthorizationLease ::
  "'z action_db_scheme world action_config \<Rightarrow> string \<Rightarrow> string
     \<Rightarrow> ('z action_db_scheme world, action_request \<times> 'z action_db_scheme world fresh_authorization) command" where
  "acquireAuthorizationLease cfg actionRequestId projectId = transaction (lease_work cfg actionRequestId projectId)"

text \<open>The private \<open>transition\<close>: committed first, then made in the object.\<close>

definition invoke_transition ::
  "'w action_config \<Rightarrow> action_request \<Rightarrow> action_status \<Rightarrow> operation_mode \<Rightarrow> string \<Rightarrow> (string \<times> json) list
     \<Rightarrow> ('z action_db_scheme world, action_request) command" where
  "invoke_transition cfg r s mode eventType payload =
     bindM (clock_now (ac_services cfg)) (\<lambda>updatedAt.
     bindM (transaction (bindM (transition_or_conflict (aq_id r) (aq_projectId r) (aq_status r) s updatedAt) (\<lambda>_.
       audit_action cfg eventType (Some (aq_agentId r)) (aq_projectId r) ''action_request'' (aq_id r) payload))) (\<lambda>_.
     liftR (ActionRequest_transition s updatedAt (Some mode) False r)))"

subsection \<open>Reads\<close>

definition optional_num :: "string \<Rightarrow> rat option \<Rightarrow> (string \<times> json) list" where
  "optional_num k v = (case v of None \<Rightarrow> [] | Some n \<Rightarrow> [(k, JNum n)])"

definition readAudit :: "read_audit \<Rightarrow> (string \<times> json) list" where
  "readAudit a = optional_str ''path'' (ra_relativePath a) @ optional_num ''byteLength'' (ra_byteLength a)
     @ optional_num ''resultCount'' (ra_resultCount a) @ optional_str ''contentSha256'' (ra_contentSha256 a)
     @ (case ra_truncated a of None \<Rightarrow> [] | Some b \<Rightarrow> [(''truncated'', JBool b)])"

record invoked_action =
  iw_requestId :: string
  iw_outcome :: action_outcome
  iw_status :: action_status
  iw_result :: "json option"
  iw_simulation :: "action_simulation option"

text \<open>The call of the connector: what it throws is an error of the command.\<close>

definition call_connector ::
  "('w connector_definition) \<Rightarrow> connector_invocation \<Rightarrow> ('w, invocation_result) command" where
  "call_connector connector invocation = (\<lambda>w.
     case df_invoke connector of
       None \<Rightarrow> (throw (unavailable (cn_id (df_descriptor connector))), w)
     | Some invoke \<Rightarrow> (case invoke invocation w of
         (Inl name, w') \<Rightarrow> (throw (ActionError (ConnectorFailure name)), w')
       | (Inr result, w') \<Rightarrow> (ok result, w')))"

definition invoke_read ::
  "'z action_db_scheme world action_config \<Rightarrow> action_request \<Rightarrow> 'z action_db_scheme world fresh_authorization
     \<Rightarrow> ('z action_db_scheme world, invoked_action) command" where
  "invoke_read cfg request fresh =
     catchM
       (bindM (call_connector (fa_connector fresh) (invocation_of (fa_resource fresh) request)) (\<lambda>result.
        case result of
          SimulationResult _ _ \<Rightarrow> throwM (invocation_state_error ''Read connector returned a simulation result'')
        | ReadResult value audit \<Rightarrow>
            bindM (invoke_transition cfg request AsCompleted ReadMode ''action.completed'' (readAudit audit)) (\<lambda>done.
            returnM \<lparr>iw_requestId = aq_id done, iw_outcome = fa_outcome fresh, iw_status = aq_status done,
              iw_result = Some value, iw_simulation = None\<rparr>)))
       (\<lambda>e. bindM (invoke_transition cfg request AsFailed ReadMode ''action.failed'' [(''errorCode'', JStr (error_name e))]) (\<lambda>_.
            throwM e))"

subsection \<open>Simulations\<close>

definition file_precondition_of :: "connector_precondition \<Rightarrow> file_precondition result" where
  "file_precondition_of v =
     (if kp_absent v then ok (AbsentFile (kp_path v))
      else case (kp_sha256 v, kp_size v) of
          (Some h, Some n) \<Rightarrow> ok (PresentFile (kp_path v) h n)
        | _ \<Rightarrow> throw (invocation_state_error ''Connector returned an incomplete file precondition''))"

definition createSimulation ::
  "'w action_config \<Rightarrow> action_request \<Rightarrow> string \<Rightarrow> connector_precondition list
     \<Rightarrow> ('z action_db_scheme world, action_simulation) command" where
  "createSimulation cfg r diff given_preconditions =
     bindM (liftR (mapR file_precondition_of given_preconditions)) (\<lambda>preconditions.
     let diffSha256 = ac_sha256 cfg diff in
     bindM (liftR (hashActionSimulationArtifact cfg r preconditions diffSha256)) (\<lambda>artifactSha256.
     bindM (generate (ac_services cfg)) (\<lambda>i.
     bindM (clock_now (ac_services cfg)) (\<lambda>now.
     liftR (ActionSimulation_create \<lparr>sm_id = i, sm_projectId = aq_projectId r, sm_actionRequestId = aq_id r,
       sm_authorizationPayloadHash = aq_payloadHash r, sm_connector = aq_connector r,
       sm_connectorVersion = aq_connectorVersion r, sm_operation = aq_operation r, sm_preconditions = preconditions,
       sm_diff = diff, sm_diffSha256 = diffSha256, sm_artifactSha256 = artifactSha256, sm_createdAt = now\<rparr>)))))"

definition approval_input :: "string \<Rightarrow> action_request \<Rightarrow> action_simulation \<Rightarrow> action_approval" where
  "approval_input i r s = \<lparr>ap_id = i, ap_projectId = aq_projectId r, ap_actionRequestId = aq_id r, ap_simulationId = sm_id s,
     ap_actionPayloadHash = aq_payloadHash r, ap_simulationArtifactHash = sm_artifactSha256 s, ap_connector = aq_connector r,
     ap_connectorVersion = aq_connectorVersion r, ap_operation = aq_operation r, ap_status = ApPending,
     ap_requestedAt = InvalidDate, ap_decidedAt = None, ap_actor = None\<rparr>"

text \<open>The approval that is asked for with the simulation, when the operation requires one.\<close>

definition request_approval_work ::
  "'w action_config \<Rightarrow> action_request \<Rightarrow> action_simulation \<Rightarrow> action_approval \<Rightarrow> js_date
     \<Rightarrow> ('z action_db_scheme world, unit) command" where
  "request_approval_work cfg r s approval approvalPendingAt =
     bindM (execDb (insertApproval approval)) (\<lambda>inserted.
     bindM (guardM inserted (ActionError (ActionApprovalConflictError (aq_id r)))) (\<lambda>_.
     bindM (audit_action cfg ''action_approval_requested'' (Some (aq_agentId r)) (aq_projectId r) ''action_approval''
       (ap_id approval) [(''actionRequestId'', JStr (aq_id r)), (''simulationId'', JStr (sm_id s)),
         (''artifactSha256'', JStr (sm_artifactSha256 s))]) (\<lambda>_.
     bindM (transition_or_conflict (aq_id r) (aq_projectId r) AsSimulated AsApprovalPending approvalPendingAt) (\<lambda>_.
     bindM (audit_action cfg ''action.approval_pending'' (Some (aq_agentId r)) (aq_projectId r) ''action_request'' (aq_id r)
       [(''simulationId'', JStr (sm_id s))]) (\<lambda>_. returnM ())))))"

definition simulation_work ::
  "'w action_config \<Rightarrow> action_request \<Rightarrow> action_simulation \<Rightarrow> js_date \<Rightarrow> action_approval option \<Rightarrow> js_date
     \<Rightarrow> ('z action_db_scheme world, unit) command" where
  "simulation_work cfg r s simulatedAt approval approvalPendingAt =
     bindM (execDb (insertActionSimulation s)) (\<lambda>inserted.
     bindM (guardM inserted (ActionError (ActionSimulationConflictError (aq_id r)))) (\<lambda>_.
     bindM (transition_or_conflict (aq_id r) (aq_projectId r) AsSimulating AsSimulated simulatedAt) (\<lambda>_.
     bindM (audit_action cfg ''action.simulated'' (Some (aq_agentId r)) (aq_projectId r) ''action_request'' (aq_id r)
       [(''simulationId'', JStr (sm_id s)), (''diffSha256'', JStr (sm_diffSha256 s)),
        (''artifactSha256'', JStr (sm_artifactSha256 s))]) (\<lambda>_.
     case approval of None \<Rightarrow> returnM ()
     | Some a \<Rightarrow> request_approval_work cfg r s a approvalPendingAt))))"

definition fail_simulation ::
  "'z action_db_scheme world action_config \<Rightarrow> action_request \<Rightarrow> error \<Rightarrow> ('z action_db_scheme world, 'a) command" where
  "fail_simulation cfg r e =
     bindM (queryDb (\<lambda>db. findActionRequest db (aq_id r))) (\<lambda>row.
     bindM (case row of
         None \<Rightarrow> returnM ()
       | Some persisted \<Rightarrow>
           if aq_status persisted = AsSimulating
           then bindM (invoke_transition cfg persisted AsFailed MutationMode ''action.failed''
             [(''errorCode'', JStr (error_name e))]) (\<lambda>_. returnM ())
           else returnM ()) (\<lambda>_.
     throwM e))"

definition invoke_simulation ::
  "'z action_db_scheme world action_config \<Rightarrow> action_request \<Rightarrow> 'z action_db_scheme world fresh_authorization
     \<Rightarrow> ('z action_db_scheme world, invoked_action) command" where
  "invoke_simulation cfg request fresh =
     (let requiresApproval = od_requiresApproval (fa_operation fresh) in
      catchM
       (bindM (call_connector (fa_connector fresh) (invocation_of (fa_resource fresh) request)) (\<lambda>result.
        case result of
          ReadResult _ _ \<Rightarrow> throwM (invocation_state_error ''Mutation connector returned a read result'')
        | SimulationResult diff preconditions \<Rightarrow>
            bindM (createSimulation cfg request diff preconditions) (\<lambda>s.
            bindM (clock_now (ac_services cfg)) (\<lambda>simulatedAt.
            bindM (clock_now (ac_services cfg)) (\<lambda>approvalPendingAt.
            bindM (if requiresApproval
                then bindM (generate (ac_services cfg)) (\<lambda>i.
                  bindM (liftR (ActionApproval_request (approval_input i request s) approvalPendingAt)) (\<lambda>a. returnM (Some a)))
                else returnM None) (\<lambda>approval.
            bindM (transaction (simulation_work cfg request s simulatedAt approval approvalPendingAt)) (\<lambda>_.
            bindM (liftR (ActionRequest_transition AsSimulated simulatedAt (Some MutationMode) False request)) (\<lambda>simulated.
            bindM (if requiresApproval
                then liftR (ActionRequest_transition AsApprovalPending approvalPendingAt (Some MutationMode) True simulated)
                else returnM simulated) (\<lambda>final.
            returnM \<lparr>iw_requestId = aq_id final, iw_outcome = fa_outcome fresh, iw_status = aq_status final,
              iw_result = None, iw_simulation = Some s\<rparr>)))))))))
       (fail_simulation cfg request))"

definition invokeRequest ::
  "'z action_db_scheme world action_config \<Rightarrow> string \<Rightarrow> string \<Rightarrow> ('z action_db_scheme world, invoked_action) command" where
  "invokeRequest cfg actionRequestId projectId =
     bindM (acquireAuthorizationLease cfg actionRequestId projectId) (\<lambda>(request, fresh).
     bindM (guardM (df_invoke (fa_connector fresh) \<noteq> None) (unavailable (aq_connector request))) (\<lambda>_.
     if od_mode (fa_operation fresh) = ReadMode then invoke_read cfg request fresh else invoke_simulation cfg request fresh))"

text \<open>A denied request is only reported; every other one is invoked.\<close>

definition invoke_requested ::
  "'z action_db_scheme world action_config \<Rightarrow> action_request \<times> action_outcome
     \<Rightarrow> ('z action_db_scheme world, invoked_action) command" where
  "invoke_requested cfg requested = (case requested of (request, result) \<Rightarrow>
     if result = OutcomeDenied
     then returnM \<lparr>iw_requestId = aq_id request, iw_outcome = result, iw_status = aq_status request, iw_result = None,
       iw_simulation = None\<rparr>
     else invokeRequest cfg (aq_id request) (aq_projectId request))"

definition InvokeControlledConnectorAction ::
  "'z action_db_scheme world action_config \<Rightarrow> string + action_input \<Rightarrow> ('z action_db_scheme world, invoked_action) command" where
  "InvokeControlledConnectorAction cfg i =
     bindM (case i of Inl agentRunId \<Rightarrow> executeFromAgentRun cfg agentRunId | Inr x \<Rightarrow> RequestControlledAction cfg x)
       (invoke_requested cfg)"

subsection \<open>Decisions\<close>

definition decide_work ::
  "'z action_db_scheme world action_config \<Rightarrow> string \<Rightarrow> string \<Rightarrow> string \<Rightarrow> bool
     \<Rightarrow> ('z action_db_scheme world, action_approval \<times> action_status) command" where
  "decide_work cfg projectId actionRequestId actor approving =
     bindM (queryDb (\<lambda>db. findActionRequest db actionRequestId)) (\<lambda>row.
     bindM (expect row (ActionError (ActionRequestNotFoundError actionRequestId))) (\<lambda>request.
     bindM (guardM (aq_projectId request = projectId) (ActionError CapabilityProjectMismatchError)) (\<lambda>_.
     bindM (guardM (aq_status request = AsApprovalPending) invalid_approval) (\<lambda>_.
     bindM (queryDb (\<lambda>db. findActionSimulationByAction db actionRequestId projectId)) (\<lambda>foundSimulation.
     bindM (queryDb (\<lambda>db. findApprovalByAction db actionRequestId projectId)) (\<lambda>foundApproval.
     bindM (expect foundApproval (ActionError (ActionApprovalNotFoundError actionRequestId))) (\<lambda>approval.
     bindM (expect foundSimulation invalid_approval) (\<lambda>s.
     bindM (liftR (assertApprovalBinding cfg request s approval)) (\<lambda>_.
     bindM (guardM (ap_status approval = ApPending) (approval_state_error ''Action approval is already decided'')) (\<lambda>_.
     bindM (clock_now (ac_services cfg)) (\<lambda>decidedAt.
     bindM (liftR ((if approving then ActionApproval_approve else ActionApproval_reject) actor decidedAt approval)) (\<lambda>decided.
     bindM (execDb (transitionApproval (ap_id decided) projectId ApPending (if approving then ApApproved else ApRejected)
       decidedAt actor)) (\<lambda>changed.
     bindM (guardM changed (approval_state_error ''Action approval changed concurrently'')) (\<lambda>_.
     bindM (if approving then returnM AsApprovalPending
       else bindM (liftR (ActionRequest_transition AsRejected decidedAt (Some MutationMode) True request)) (\<lambda>_.
            bindM (transition_or_conflict actionRequestId projectId AsApprovalPending AsRejected decidedAt) (\<lambda>_.
            returnM AsRejected))) (\<lambda>actionStatus.
     bindM (RecordAuditEvent (ac_services cfg) (if approving then ''action_approved'' else ''action_rejected'') ActorCli
       (Some actor) (Some ''action_approval'') (Some (ap_id decided)) (Some projectId)
       [(''actionRequestId'', JStr actionRequestId), (''simulationId'', JStr (sm_id s)),
        (''artifactSha256'', JStr (sm_artifactSha256 s))]) (\<lambda>_.
     returnM (decided, actionStatus)))))))))))))))))"

definition DecideControlledAction ::
  "'z action_db_scheme world action_config \<Rightarrow> string \<Rightarrow> string \<Rightarrow> string \<Rightarrow> bool
     \<Rightarrow> ('z action_db_scheme world, action_approval \<times> action_status) command" where
  "DecideControlledAction cfg projectId actionRequestId actorGiven approving =
     bindM (liftR (requiredText actorGiven ''approval actor'')) (\<lambda>actor.
     transaction (decide_work cfg projectId actionRequestId actor approving))"

subsection \<open>Executions\<close>

definition execution_state_error :: "string \<Rightarrow> error" where
  "execution_state_error s = ActionError (InvalidActionExecutionStateError s)"

definition not_executable :: error where
  "not_executable = execution_state_error ''Action request is not executable''"

record 'w execution_lease =
  el_request :: action_request
  el_simulation :: action_simulation
  el_execution :: action_execution
  el_connector :: "'w connector_definition"
  el_resource :: registered_resource

text \<open>The fresh authorization of an approved mutation.\<close>

definition requireFreshApproval ::
  "'z action_db_scheme world action_config \<Rightarrow> action_request \<Rightarrow> 'z action_db_scheme world connector_definition
     \<Rightarrow> operation_descriptor \<Rightarrow> ('z action_db_scheme world, unit) command" where
  "requireFreshApproval cfg r connector operation =
     bindM (validateAgentRunBinding cfg r) (\<lambda>_.
     bindM (clock_now (ac_services cfg)) (\<lambda>evaluatedAt.
     bindM (EvaluateActionPolicy cfg (input_of_request r) (Some evaluatedAt)) (\<lambda>ev.
     liftR (confirm_authorization cfg r ev (same_authorization connector r ev \<and> od_operation operation = aq_operation r
       \<and> pd_decision (ev_decision ev) = PdAllowWithApproval)))))"

definition executable_connector ::
  "'w connector_definition \<Rightarrow> operation_descriptor \<Rightarrow> action_request \<Rightarrow> bool" where
  "executable_connector connector operation r \<longleftrightarrow>
     cn_version (df_descriptor connector) = aq_connectorVersion r \<and> aq_connector r = ''filesystem''
     \<and> aq_connectorVersion r = ''2'' \<and> od_mode operation = MutationMode \<and> od_supportsExecution operation
     \<and> od_requiresApproval operation \<and> df_executeMutation connector \<noteq> None"

definition execution_input :: "string \<Rightarrow> action_request \<Rightarrow> action_simulation \<Rightarrow> action_approval \<Rightarrow> action_execution" where
  "execution_input i r s a = \<lparr>ex_id = i, ex_projectId = aq_projectId r, ex_actionRequestId = aq_id r,
     ex_simulationId = sm_id s, ex_approvalId = ap_id a, ex_status = ExExecuting, ex_startedAt = InvalidDate,
     ex_completedAt = None, ex_failureCode = None, ex_resultHash = None\<rparr>"

definition requireCurrentResource ::
  "string \<Rightarrow> ('z action_db_scheme world, registered_resource) command" where
  "requireCurrentResource resourceId =
     bindM (queryDb (\<lambda>db. findResource db resourceId)) (\<lambda>row. expect row not_executable)"

text \<open>The part of \<open>acquireLease\<close> that checks, and the part that takes the lease.\<close>

definition approved_action ::
  "'z action_db_scheme world action_config \<Rightarrow> string \<Rightarrow> string
     \<Rightarrow> ('z action_db_scheme world, action_request \<times> 'z action_db_scheme world connector_definition
          \<times> action_simulation \<times> action_approval) command" where
  "approved_action cfg projectId actionRequestId =
     bindM (queryDb (\<lambda>db. findActionRequest db actionRequestId)) (\<lambda>row.
     bindM (expect row (ActionError (ActionRequestNotFoundError actionRequestId))) (\<lambda>request.
     bindM (guardM (aq_projectId request = projectId) (ActionError CapabilityProjectMismatchError)) (\<lambda>_.
     bindM (guardM (aq_status request = AsApprovalPending) not_executable) (\<lambda>_.
     bindM (liftR (requireDefinition (ac_registry cfg) (aq_connector request))) (\<lambda>connector.
     bindM (liftR (requireOperation (ac_registry cfg) (aq_connector request) (aq_operation request))) (\<lambda>operation.
     bindM (guardM (executable_connector connector operation request) (unavailable (aq_connector request))) (\<lambda>_.
     bindM (queryDb (\<lambda>db. findActionSimulationByAction db (aq_id request) (aq_projectId request))) (\<lambda>foundSimulation.
     bindM (queryDb (\<lambda>db. findApprovalByAction db (aq_id request) (aq_projectId request))) (\<lambda>foundApproval.
     bindM (expect foundSimulation (execution_state_error ''Action simulation is unavailable'')) (\<lambda>s.
     bindM (expect foundApproval (ActionError (ActionApprovalNotFoundError (aq_id request)))) (\<lambda>approval.
     bindM (liftR (assertApprovalBinding cfg request s approval)) (\<lambda>_.
     bindM (guardM (ap_status approval = ApApproved) (approval_state_error ''Action is not approved'')) (\<lambda>_.
     bindM (requireFreshApproval cfg request connector operation) (\<lambda>_.
     returnM (request, connector, s, approval)))))))))))))))"

definition start_execution ::
  "'z action_db_scheme world action_config \<Rightarrow> action_request \<times> 'z action_db_scheme world connector_definition
     \<times> action_simulation \<times> action_approval
     \<Rightarrow> ('z action_db_scheme world, 'z action_db_scheme world execution_lease) command" where
  "start_execution cfg approved = (case approved of (request, connector, s, approval) \<Rightarrow>
     bindM (queryDb (\<lambda>db. findExecutionByAction db (aq_id request) (aq_projectId request))) (\<lambda>existing.
     bindM (guardM (existing = None) (ActionError (ActionExecutionConflictError (aq_id request)))) (\<lambda>_.
     bindM (clock_now (ac_services cfg)) (\<lambda>startedAt.
     bindM (generate (ac_services cfg)) (\<lambda>i.
     bindM (liftR (ActionExecution_start (execution_input i request s approval) startedAt)) (\<lambda>execution.
     bindM (execDb (insertExecution execution)) (\<lambda>inserted.
     bindM (guardM inserted (ActionError (ActionExecutionConflictError (aq_id request)))) (\<lambda>_.
     bindM (liftR (ActionRequest_transition AsExecuting startedAt (Some MutationMode) True request)) (\<lambda>executing.
     bindM (transition_or_conflict (aq_id request) (aq_projectId request) AsApprovalPending AsExecuting startedAt) (\<lambda>_.
     bindM (audit_action cfg ''action_execution_started'' (ap_actor approval) (aq_projectId request) ''action_execution''
       (ex_id execution) [(''actionRequestId'', JStr (aq_id request)), (''simulationId'', JStr (sm_id s)),
         (''approvalId'', JStr (ap_id approval))]) (\<lambda>_.
     bindM (requireCurrentResource (aq_resourceId request)) (\<lambda>rsc.
     returnM \<lparr>el_request = executing, el_simulation = s, el_execution = execution, el_connector = connector,
       el_resource = rsc\<rparr>))))))))))))"

definition acquireLease ::
  "'z action_db_scheme world action_config \<Rightarrow> string \<Rightarrow> string
     \<Rightarrow> ('z action_db_scheme world, 'z action_db_scheme world execution_lease) command" where
  "acquireLease cfg projectId actionRequestId =
     transaction (bindM (approved_action cfg projectId actionRequestId) (start_execution cfg))"

subsection \<open>The outcome of an execution\<close>

fun request_status :: "execution_status \<Rightarrow> action_status" where
  "request_status ExCompleted = AsCompleted"
| "request_status ExFailed = AsFailed"
| "request_status ExUnknown = AsExecutionUnknown"
| "request_status ExExecuting = AsExecuting"

fun outcome_event :: "execution_status \<Rightarrow> string" where
  "outcome_event ExCompleted = ''action_execution_completed''"
| "outcome_event ExFailed = ''action_execution_failed''"
| "outcome_event _ = ''action_execution_unknown''"

fun finished_execution ::
  "execution_status \<Rightarrow> js_date \<Rightarrow> string option \<Rightarrow> string option \<Rightarrow> action_execution \<Rightarrow> action_execution result" where
  "finished_execution ExCompleted finishedAt failureCode resultHash e = ActionExecution_complete finishedAt resultHash e"
| "finished_execution ExFailed finishedAt failureCode resultHash e = ActionExecution_fail finishedAt (or_else failureCode []) e"
| "finished_execution _ finishedAt failureCode resultHash e = ActionExecution_markUnknown finishedAt (or_else failureCode []) e"

definition result_audit :: "mutation_result option \<Rightarrow> (string \<times> json) list" where
  "result_audit result = (case result of None \<Rightarrow> [] | Some r \<Rightarrow>
     optional_str ''resultHash'' (mr_resultHash r) @ optional_str ''path'' (mr_relativePath r)
     @ optional_str ''destinationPath'' (mr_destinationPath r) @ optional_num ''byteLength'' (mr_byteLength r))"

text \<open>Both rows change together, with the audit record of the outcome.\<close>

definition outcome_work ::
  "'w action_config \<Rightarrow> action_request \<Rightarrow> action_execution \<Rightarrow> execution_status \<Rightarrow> js_date \<Rightarrow> string option
     \<Rightarrow> string option \<Rightarrow> (string \<times> json) list \<Rightarrow> ('z action_db_scheme world, unit) command" where
  "outcome_work cfg r e status finishedAt failureCode resultHash payload =
     bindM (execDb (transitionExecution (ex_id e) (aq_projectId r) ExExecuting status finishedAt failureCode resultHash)) (\<lambda>changed.
     bindM (guardM changed (execution_state_error ''Execution outcome changed concurrently'')) (\<lambda>_.
     bindM (transition_or_conflict (aq_id r) (aq_projectId r) AsExecuting (request_status status) finishedAt) (\<lambda>_.
     bindM (audit_action cfg (outcome_event status) None (aq_projectId r) ''action_execution'' (ex_id e)
       ((''actionRequestId'', JStr (aq_id r)) # payload)) (\<lambda>_. returnM ()))))"

definition finish ::
  "'z action_db_scheme world action_config \<Rightarrow> 'z action_db_scheme world execution_lease \<Rightarrow> execution_status
     \<Rightarrow> string option \<Rightarrow> mutation_result option \<Rightarrow> ('z action_db_scheme world, unit) command" where
  "finish cfg lease status failureCode result =
     bindM (clock_now (ac_services cfg)) (\<lambda>finishedAt.
     bindM (liftR (ActionExecution_restore (el_execution lease))) (\<lambda>execution.
     bindM (liftR (ActionRequest_restore (el_request lease))) (\<lambda>request.
     let resultHash = (case result of None \<Rightarrow> None | Some r \<Rightarrow> mr_resultHash r) in
     bindM (liftR (finished_execution status finishedAt failureCode resultHash execution)) (\<lambda>finished.
     bindM (liftR (ActionRequest_transition (request_status status) finishedAt (Some MutationMode) True request)) (\<lambda>_.
     transaction (outcome_work cfg (el_request lease) finished status finishedAt failureCode resultHash
       (optional_str ''failureCode'' failureCode @ result_audit result)))))))"

definition outcomePersistenceFailureCode :: string where
  "outcomePersistenceFailureCode = ''OutcomePersistenceFailed''"

definition cannot_recover :: error where
  "cannot_recover = execution_state_error ''Execution outcome cannot be recovered''"

definition unknown_work ::
  "'z action_db_scheme world action_config \<Rightarrow> action_request \<Rightarrow> ('z action_db_scheme world, unit) command" where
  "unknown_work cfg leased =
     bindM (queryDb (\<lambda>db. findActionRequest db (aq_id leased))) (\<lambda>foundRequest.
     bindM (queryDb (\<lambda>db. findExecutionByAction db (aq_id leased) (aq_projectId leased))) (\<lambda>foundExecution.
     bindM (expect foundRequest cannot_recover) (\<lambda>request.
     bindM (expect foundExecution cannot_recover) (\<lambda>execution.
     bindM (guardM (aq_projectId request = aq_projectId leased \<and> aq_status request = AsExecuting
       \<and> ex_status execution = ExExecuting) cannot_recover) (\<lambda>_.
     bindM (clock_now (ac_services cfg)) (\<lambda>finishedAt.
     bindM (liftR (ActionExecution_markUnknown finishedAt outcomePersistenceFailureCode execution)) (\<lambda>_.
     bindM (liftR (ActionRequest_transition AsExecutionUnknown finishedAt (Some MutationMode) True request)) (\<lambda>_.
     outcome_work cfg request execution ExUnknown finishedAt (Some outcomePersistenceFailureCode) None
       [(''failureCode'', JStr outcomePersistenceFailureCode)]))))))))"

definition persistOutcomeFailureAsUnknown ::
  "'z action_db_scheme world action_config \<Rightarrow> 'z action_db_scheme world execution_lease
     \<Rightarrow> ('z action_db_scheme world, unit) command" where
  "persistOutcomeFailureAsUnknown cfg lease = transaction (unknown_work cfg (el_request lease))"

text \<open>
  An outcome that cannot be recorded becomes unknown, but for a mutation that certainly did not
  happen; if that cannot be recorded either, the first error is thrown.
\<close>

definition finishWithFallback ::
  "'z action_db_scheme world action_config \<Rightarrow> 'z action_db_scheme world execution_lease \<Rightarrow> execution_status
     \<Rightarrow> string option \<Rightarrow> mutation_result option
     \<Rightarrow> ('z action_db_scheme world, execution_status \<times> string option) command" where
  "finishWithFallback cfg lease status failureCode result =
     catchM (bindM (finish cfg lease status failureCode result) (\<lambda>_. returnM (status, failureCode)))
       (\<lambda>e. if status = ExFailed then throwM e
         else catchM (bindM (persistOutcomeFailureAsUnknown cfg lease) (\<lambda>_.
             returnM (ExUnknown, Some outcomePersistenceFailureCode))) (\<lambda>_. throwM e))"

record executed_action =
  xa_actionRequestId :: string
  xa_executionId :: string
  xa_status :: execution_status
  xa_resultHash :: "string option"
  xa_failureCode :: "string option"

text \<open>What a connector's outcome is recorded as.\<close>

fun outcome_status :: "mutation_outcome \<Rightarrow> execution_status \<times> string option \<times> mutation_result option" where
  "outcome_status (MutationReturned r) = (ExCompleted, None, Some r)"
| "outcome_status (MutationFailed code DefiniteNoMutation) = (ExFailed, Some code, None)"
| "outcome_status (MutationFailed code MutationMayHaveOccurred) = (ExUnknown, Some code, None)"
| "outcome_status MutationThrew = (ExUnknown, Some ''UnexpectedConnectorError'', None)"

definition call_mutation ::
  "'z action_db_scheme world execution_lease \<Rightarrow> ('z action_db_scheme world, mutation_outcome) command" where
  "call_mutation lease = (\<lambda>w.
     case df_executeMutation (el_connector lease) of
       None \<Rightarrow> (ok MutationThrew, w)
     | Some run \<Rightarrow> (case run (invocation_of (el_resource lease) (el_request lease)) (sm_preconditions (el_simulation lease)) w of
         (r, w') \<Rightarrow> (ok r, w')))"

definition record_outcome ::
  "'z action_db_scheme world action_config \<Rightarrow> string \<Rightarrow> 'z action_db_scheme world execution_lease \<Rightarrow> mutation_outcome
     \<Rightarrow> ('z action_db_scheme world, executed_action) command" where
  "record_outcome cfg actionRequestId lease reported = (case outcome_status reported of (status, failureCode, result) \<Rightarrow>
     bindM (finishWithFallback cfg lease status failureCode result) (\<lambda>(persisted, code).
     returnM \<lparr>xa_actionRequestId = actionRequestId, xa_executionId = ex_id (el_execution lease), xa_status = persisted,
       xa_resultHash = (if persisted \<noteq> ExCompleted then None else case result of None \<Rightarrow> None | Some r \<Rightarrow> mr_resultHash r),
       xa_failureCode = code\<rparr>))"

definition ExecuteControlledAction ::
  "'z action_db_scheme world action_config \<Rightarrow> string \<Rightarrow> string \<Rightarrow> ('z action_db_scheme world, executed_action) command" where
  "ExecuteControlledAction cfg projectId actionRequestId =
     bindM (acquireLease cfg projectId actionRequestId) (\<lambda>lease.
     bindM (call_mutation lease) (record_outcome cfg actionRequestId lease))"

end
