(* ===== verification/Action_Safety.thy ===== *)
theory Action_Safety
  imports Action_Execution
begin

text \<open>
  What the services of controlled actions guarantee together. Between two transactions of one
  service any other service may run, so every claim is about the statements accepted by the
  database: a service guarantees that what it does is a sequence of \<open>action_step\<close>s, and relies on
  the others doing the same (\<open>connectors_guarded\<close> says it of the callbacks of connectors).
\<close>

section \<open>Commands that guarantee a relation on the database\<close>

named_theorems keeps_rules \<open>a combinator keeps a relation when its parts do\<close>

definition keeps :: "('db \<Rightarrow> 'db \<Rightarrow> bool) \<Rightarrow> ('db world, 'a) command \<Rightarrow> bool" where
  "keeps R m \<longleftrightarrow> (\<forall>w. R (w_db w) (w_db (snd (m w))))"

lemma keepsD: "keeps R m \<Longrightarrow> m w = (r, w') \<Longrightarrow> R (w_db w) (w_db w')"
  unfolding keeps_def by (metis snd_conv)

locale guarantee =
  fixes R :: "'db \<Rightarrow> 'db \<Rightarrow> bool"
  assumes idle: "R d d"
    and compose: "R d e \<Longrightarrow> R e f \<Longrightarrow> R d f"
begin

lemma keeps_same: "(\<And>w. w_db (snd (m w)) = w_db w) \<Longrightarrow> keeps R m"
  by (simp add: keeps_def idle)

lemma keeps_return [keeps_rules]: "keeps R (returnM x)"
  by (rule keeps_same) simp

lemma keeps_throw [keeps_rules]: "keeps R (throwM e)"
  by (rule keeps_same) simp

lemma keeps_lift [keeps_rules]: "keeps R (liftR r)"
  by (rule keeps_same) simp

lemma keeps_guard [keeps_rules]: "keeps R (guardM b e)"
  by (rule keeps_same) simp

lemma keeps_read [keeps_rules]: "keeps R (readDb f)"
  by (rule keeps_same) simp

lemma keeps_generate [keeps_rules]: "keeps R (generate sv)"
  by (rule keeps_same) simp

lemma keeps_clock [keeps_rules]: "keeps R (clock_now sv)"
  by (rule keeps_same) simp

lemma keeps_expect [keeps_rules]: "keeps R (expect v e)"
  by (rule keeps_same) (simp add: expect_def split: option.splits)

lemma keeps_bind_post:
  assumes "keeps R m" and "\<And>w x w'. m w = (ok x, w') \<Longrightarrow> keeps R (f x)"
  shows "keeps R (bindM m f)"
  unfolding keeps_def
proof
  fix w
  obtain r w' where m: "m w = (r, w')" by fastforce
  show "R (w_db w) (w_db (snd (bindM m f w)))"
  proof (cases r)
    case (Inl e)
    then show ?thesis using m keepsD [OF assms(1) m] by (simp add: bindM_def)
  next
    case (Inr x)
    then have "R (w_db w') (w_db (snd (f x w')))" using assms(2) [of w x w'] m by (simp add: keeps_def)
    then show ?thesis using m Inr keepsD [OF assms(1) m] compose by (fastforce simp: bindM_def)
  qed
qed

lemma keeps_bind [keeps_rules]: "keeps R m \<Longrightarrow> (\<And>x. keeps R (f x)) \<Longrightarrow> keeps R (bindM m f)"
  by (rule keeps_bind_post)

lemma keeps_bind_lift: "(\<And>x. r = ok x \<Longrightarrow> keeps R (f x)) \<Longrightarrow> keeps R (bindM (liftR r) f)"
  by (rule keeps_bind_post) (auto intro: keeps_rules)

lemma keeps_query [keeps_rules]: "keeps R (queryDb f)"
  unfolding queryDb_def by (intro keeps_rules)

lemma keeps_exec:
  assumes "\<And>d x d'. f d = ok (x, d') \<Longrightarrow> R d d'"
  shows "keeps R (execDb f)"
  using assms by (auto simp: keeps_def execDb_def idle split: sum.splits)

lemma keeps_transaction [keeps_rules]:
  assumes "keeps R work"
  shows "keeps R (transaction work)"
  unfolding keeps_def
proof
  fix w
  obtain r w' where t: "transaction work w = (r, w')" by fastforce
  have "R (w_db w) (w_db w')"
  proof (rule transaction_keeps [where P = "R (w_db w)", OF idle t])
    fix x w1 assume "work (w\<lparr>w_active := True\<rparr>) = (ok x, w1)"
    from keepsD [OF assms this] show "R (w_db w) (w_db w1)" by simp
  qed
  then show "R (w_db w) (w_db (snd (transaction work w)))" using t by simp
qed

lemma keeps_catch [keeps_rules]:
  assumes "keeps R m" and "\<And>e. keeps R (h e)"
  shows "keeps R (catchM m h)"
  unfolding keeps_def
proof
  fix w
  obtain r w' where m: "m w = (r, w')" by fastforce
  show "R (w_db w) (w_db (snd (catchM m h w)))"
    using keepsD [OF assms(1) m] assms(2) m compose
    by (cases r) (auto simp: catchM_def keeps_def)
qed

lemma keeps_option [keeps_rules]:
  "(v = None \<Longrightarrow> keeps R a) \<Longrightarrow> (\<And>x. v = Some x \<Longrightarrow> keeps R (b x)) \<Longrightarrow> keeps R (case v of None \<Rightarrow> a | Some x \<Rightarrow> b x)"
  by (cases v) auto

lemma keeps_sum [keeps_rules]:
  "(\<And>x. v = Inl x \<Longrightarrow> keeps R (a x)) \<Longrightarrow> (\<And>x. v = Inr x \<Longrightarrow> keeps R (b x)) \<Longrightarrow> keeps R (case v of Inl x \<Rightarrow> a x | Inr x \<Rightarrow> b x)"
  by (cases v) auto

lemma keeps_if [keeps_rules]: "(b \<Longrightarrow> keeps R m) \<Longrightarrow> (\<not> b \<Longrightarrow> keeps R n) \<Longrightarrow> keeps R (if b then m else n)"
  by simp

lemma keeps_pair [keeps_rules]: "(\<And>x y. p = (x, y) \<Longrightarrow> keeps R (f x y)) \<Longrightarrow> keeps R (case p of (x, y) \<Rightarrow> f x y)"
  by (cases p) auto

lemma keeps_invocation [keeps_rules]:
  "(\<And>v a. p = ReadResult v a \<Longrightarrow> keeps R (f v a)) \<Longrightarrow> (\<And>d ps. p = SimulationResult d ps \<Longrightarrow> keeps R (g d ps))
    \<Longrightarrow> keeps R (case p of ReadResult v a \<Rightarrow> f v a | SimulationResult d ps \<Rightarrow> g d ps)"
  by (cases p) auto

end

section \<open>The services take accepted steps only\<close>

abbreviation action_steps :: "'z action_db_scheme \<Rightarrow> 'z action_db_scheme \<Rightarrow> bool" where
  "action_steps \<equiv> action_step\<^sup>*\<^sup>*"

interpretation act: guarantee "action_steps"
  by unfold_locales auto

lemma elsewhere_steps:
  "adb_requests db' = adb_requests db \<Longrightarrow> adb_simulations db' = adb_simulations db \<Longrightarrow>
    adb_approvals db' = adb_approvals db \<Longrightarrow> adb_executions db' = adb_executions db \<Longrightarrow> action_steps db db'"
  by (rule r_into_rtranclp) (rule action_step.elsewhere)

lemma keeps_append [keeps_rules]: "keeps action_steps (execDb (audit_append e))"
  by (rule act.keeps_exec) (auto simp: audit_append_def result_simps intro!: elsewhere_steps split: if_splits)

lemma keeps_audit [keeps_rules]: "keeps action_steps (RecordAuditEvent sv a b c d e f g)"
  unfolding RecordAuditEvent_def by (intro keeps_rules)

lemma keeps_action_audit [keeps_rules]: "keeps action_steps (audit_action cfg a b c d e f)"
  unfolding audit_action_def by (intro keeps_rules)

lemma keeps_save_resource [keeps_rules]: "keeps action_steps (execDb (saveResource v))"
  by (rule act.keeps_exec) (auto simp: saveResource_def result_simps intro!: elsewhere_steps split: if_splits)

lemma keeps_disable [keeps_rules]: "keeps action_steps (execDb (disableResource i p now))"
  by (rule act.keeps_exec) (auto simp: disableResource_def result_simps Let_def intro!: elsewhere_steps)

lemma keeps_save_grant [keeps_rules]: "keeps action_steps (execDb (saveGrant v))"
  by (rule act.keeps_exec) (auto simp: saveGrant_def result_simps intro!: elsewhere_steps split: if_splits)

lemma keeps_revoke [keeps_rules]: "keeps action_steps (execDb (revokeGrant i p now))"
  by (rule act.keeps_exec) (auto simp: revokeGrant_def result_simps Let_def intro!: elsewhere_steps split: if_splits)

lemma keeps_statements [keeps_rules]:
  "keeps action_steps (execDb (insertActionRequest r))"
  "keeps action_steps (execDb (transitionActionRequest i p expected s now))"
  "keeps action_steps (execDb (insertActionSimulation m))"
  "keeps action_steps (execDb (insertApproval a))"
  "keeps action_steps (execDb (transitionApproval i p from sa now actor))"
  "keeps action_steps (execDb (insertExecution e))"
  "keeps action_steps (execDb (transitionExecution i p running se now code hash))"
  by (rule act.keeps_exec; rule r_into_rtranclp;
      erule action_step.intros(1) action_step.intros(2) action_step.intros(3) action_step.intros(4)
        action_step.intros(5) action_step.intros(6) action_step.intros(7))+

lemma keeps_transition [keeps_rules]: "keeps action_steps (transition_or_conflict i p expected s now)"
  unfolding transition_or_conflict_def by (intro keeps_rules)

lemma keeps_policy [keeps_rules]: "keeps action_steps (EvaluateActionPolicy cfg i d)"
  unfolding EvaluateActionPolicy_def by (intro keeps_rules)

lemma keeps_when_some [keeps_rules]: "(\<And>x. keeps action_steps (f x)) \<Longrightarrow> keeps action_steps (when_some v f)"
  unfolding when_some_def by (intro keeps_rules)

lemma keeps_request [keeps_rules]: "keeps action_steps (RequestControlledAction cfg i)"
  unfolding RequestControlledAction_def resolveProvenance_def request_work_def Let_def by (intro keeps_rules)

lemma keeps_from_run [keeps_rules]: "keeps action_steps (executeFromAgentRun cfg i)"
  unfolding executeFromAgentRun_def by (intro keeps_rules)

lemma keeps_decide: "keeps action_steps (DecideControlledAction cfg p i actor approving)"
  unfolding DecideControlledAction_def decide_work_def by (intro keeps_rules)

lemma keeps_lease [keeps_rules]: "keeps action_steps (acquireLease cfg p i)"
  unfolding acquireLease_def approved_action_def requireFreshApproval_def validateAgentRunBinding_def start_execution_def
    requireCurrentResource_def
  by (intro keeps_rules)

subsection \<open>The callbacks of connectors\<close>

text \<open>
  What the services rely on: while a callback of a registered connector runs, only statements of
  the repositories are executed on the tables of controlled actions.
\<close>

definition connector_guarded :: "'z action_db_scheme world connector_definition \<Rightarrow> bool" where
  "connector_guarded c \<longleftrightarrow> (\<forall>t ref j. keeps action_steps (df_prepareResource c t ref j))
     \<and> (\<forall>run iv w. df_invoke c = Some run \<longrightarrow> action_steps (w_db w) (w_db (snd (run iv w))))
     \<and> (\<forall>run iv ps w. df_executeMutation c = Some run \<longrightarrow> action_steps (w_db w) (w_db (snd (run iv ps w))))"

definition connectors_guarded :: "'z action_db_scheme world registry \<Rightarrow> bool" where
  "connectors_guarded registry \<longleftrightarrow> (\<forall>(i, c) \<in> set registry. connector_guarded c)"

lemma registered_guarded: "connectors_guarded reg \<Longrightarrow> requireDefinition reg i = ok c \<Longrightarrow> connector_guarded c"
  by (auto simp: connectors_guarded_def requireDefinition_def getDefinition_def split: option.splits dest: map_of_SomeD)

lemma keeps_prepare: "connector_guarded c \<Longrightarrow> keeps action_steps (df_prepareResource c t ref j)"
  by (simp add: connector_guarded_def)

lemma keeps_call: "connector_guarded c \<Longrightarrow> keeps action_steps (call_connector c iv)"
  by (auto simp: keeps_def call_connector_def connector_guarded_def split: option.splits prod.splits sum.splits)
    (metis snd_conv)+

lemma keeps_mutation: "connector_guarded (el_connector lease) \<Longrightarrow> keeps action_steps (call_mutation lease)"
  by (auto simp: keeps_def call_mutation_def connector_guarded_def split: option.splits prod.splits) (metis snd_conv)

lemma keeps_register:
  assumes "connectors_guarded (ac_registry cfg)"
  shows "keeps action_steps (RegisterResource cfg p t provider ref name conf)"
  unfolding RegisterResource_def Let_def
  by (rule act.keeps_bind_lift keeps_prepare registered_guarded [OF assms] keeps_rules | assumption)+

lemma keeps_invoke_transition [keeps_rules]: "keeps action_steps (invoke_transition cfg r s mode e p)"
  unfolding invoke_transition_def by (intro keeps_rules)

lemma keeps_read_action:
  "connector_guarded (fa_connector f) \<Longrightarrow> keeps action_steps (invoke_read cfg r f)"
  unfolding invoke_read_def by (intro keeps_rules keeps_call)

lemma keeps_fail_simulation [keeps_rules]: "keeps action_steps (fail_simulation cfg r e)"
  unfolding fail_simulation_def by (intro keeps_rules)

lemma keeps_simulation:
  "connector_guarded (fa_connector f) \<Longrightarrow> keeps action_steps (invoke_simulation cfg r f)"
  unfolding invoke_simulation_def createSimulation_def simulation_work_def request_approval_work_def Let_def
  by (intro keeps_rules keeps_call)

lemma keeps_authorization [keeps_rules]: "keeps action_steps (acquireAuthorizationLease cfg i p)"
  unfolding acquireAuthorizationLease_def lease_work_def requireFreshAuthorization_def validateAgentRunBinding_def Let_def
  by (intro keeps_rules)

lemma authorized_connector:
  "acquireAuthorizationLease cfg i p w = (ok (r, f), w') \<Longrightarrow> \<exists>k. requireDefinition (ac_registry cfg) k = ok (fa_connector f)"
  by (auto simp: acquireAuthorizationLease_def transaction_ok lease_work_def requireFreshAuthorization_def Let_def result_simps)

lemma leased_connector:
  "acquireLease cfg p i w = (ok lease, w') \<Longrightarrow> \<exists>k. requireDefinition (ac_registry cfg) k = ok (el_connector lease)"
  by (auto simp: acquireLease_def transaction_ok approved_action_def start_execution_def result_simps)

lemma keeps_invoke_request:
  assumes "connectors_guarded (ac_registry cfg)"
  shows "keeps action_steps (invokeRequest cfg i p)"
  unfolding invokeRequest_def
proof (rule act.keeps_bind_post)
  fix w x w' assume "acquireAuthorizationLease cfg i p w = (ok x, w')"
  then have "connector_guarded (fa_connector (snd x))"
    using authorized_connector registered_guarded [OF assms] by (metis prod.collapse)
  then show "keeps action_steps (case x of (r, f) \<Rightarrow>
      bindM (guardM (df_invoke (fa_connector f) \<noteq> None) (unavailable (aq_connector r))) (\<lambda>_.
      if od_mode (fa_operation f) = ReadMode then invoke_read cfg r f else invoke_simulation cfg r f))"
    by (cases x) (auto intro!: keeps_rules keeps_read_action keeps_simulation)
qed (rule keeps_rules)

lemma keeps_invoke:
  assumes "connectors_guarded (ac_registry cfg)"
  shows "keeps action_steps (InvokeControlledConnectorAction cfg i)"
  unfolding InvokeControlledConnectorAction_def invoke_requested_def by (intro keeps_rules keeps_invoke_request [OF assms])

lemma keeps_record_outcome [keeps_rules]: "keeps action_steps (record_outcome cfg i lease reported)"
  unfolding record_outcome_def finishWithFallback_def finish_def persistOutcomeFailureAsUnknown_def unknown_work_def
    outcome_work_def Let_def
  by (intro keeps_rules)

lemma keeps_execute:
  assumes "connectors_guarded (ac_registry cfg)"
  shows "keeps action_steps (ExecuteControlledAction cfg p i)"
  unfolding ExecuteControlledAction_def
proof (rule act.keeps_bind_post)
  fix w lease w' assume "acquireLease cfg p i w = (ok lease, w')"
  then have "connector_guarded (el_connector lease)"
    using leased_connector registered_guarded [OF assms] by blast
  then show "keeps action_steps (bindM (call_mutation lease) (record_outcome cfg i lease))"
    by (intro keeps_rules keeps_mutation)
qed (rule keeps_rules)

section \<open>What a lease needs\<close>

lemma expect_ok [result_simps]: "expect v e w = (ok x, w') \<longleftrightarrow> v = Some x \<and> w' = w"
  by (auto simp: expect_def split: option.splits)

lemma if_ok [result_simps]: "(if b then ok x else throw e) = ok y \<longleftrightarrow> b \<and> x = y"
  by simp

lemma queryDb_ok [result_simps]: "queryDb f w = (ok x, w') \<longleftrightarrow> f (w_db w) = ok x \<and> w' = w"
  by (auto simp: queryDb_def result_simps)

lemma optionally_none [result_simps]: "optionally f v = ok None \<longleftrightarrow> v = None"
  by (cases v) (auto simp: result_simps)

lemma optionally_some [result_simps]: "optionally f v = ok (Some y) \<longleftrightarrow> (\<exists>x. v = Some x \<and> f x = ok y)"
  by (cases v) (auto simp: result_simps)

text \<open>The evaluation of the policy reads only.\<close>

interpretation same: guarantee "(=)"
  by unfold_locales auto

lemma same_policy: "keeps (=) (EvaluateActionPolicy cfg i d)"
  unfolding EvaluateActionPolicy_def by (intro keeps_rules)

lemma same_binding: "keeps (=) (validateAgentRunBinding cfg r)"
  unfolding validateAgentRunBinding_def by (intro keeps_rules)

text \<open>A grant of the resource that is in force at the time \<open>now\<close>: neither revoked, nor expired, nor in the future.\<close>

definition current_grant :: "action_request \<Rightarrow> js_date \<Rightarrow> 'g capability_grant_scheme \<Rightarrow> bool" where
  "current_grant r now g \<longleftrightarrow> cg_projectId g = aq_projectId r \<and> cg_resourceId g = aq_resourceId r \<and> cg_revokedAt g = None
     \<and> \<not> date_lt now (cg_validFrom g) \<and> (\<forall>e. cg_expiresAt g = Some e \<longrightarrow> \<not> date_le e now)"

text \<open>The policy, evaluated on the rows of \<open>db\<close> at the time \<open>now\<close>, gives an approval on the terms of the request.\<close>

definition freshly_authorized ::
  "'z action_db_scheme world action_config \<Rightarrow> 'z action_db_scheme world connector_definition \<Rightarrow> action_request
     \<Rightarrow> 'z action_db_scheme \<Rightarrow> js_date \<Rightarrow> bool" where
  "freshly_authorized cfg c r db now \<longleftrightarrow> (\<exists>w w' ev. w_db w = db
     \<and> EvaluateActionPolicy cfg (input_of_request r) (Some now) w = (ok ev, w') \<and> same_authorization c r ev
     \<and> pd_decision (ev_decision ev) = PdAllowWithApproval
     \<and> hashCanonicalActionPayload cfg (evaluated_payload (aq_projectId r) (aq_agentId r) (aq_operation r) (aq_agentRunId r) ev)
         = ok (aq_payloadHash r)
     \<and> hashCanonicalActionPayload cfg (canonicalPayload r) = ok (aq_payloadHash r))"

lemma evaluate_grant:
  assumes "evaluate num_str registry i now = ok d" and "pd_decision d \<noteq> PdDeny"
  shows "\<exists>risk. \<exists>g \<in> set (pi_grants i). grant_matches i now risk g"
proof (rule ccontr)
  assume "\<not> ?thesis"
  then have none: "filter (grant_matches i now risk) (pi_grants i) = []" for risk by (auto simp: filter_empty_conv)
  have "\<exists>reason risk. evaluate num_str registry i now = ok (denied reason risk)"
    unfolding evaluate_def Let_def none by (simp split: option.split) blast
  then show False using assms by (auto simp: denied_def)
qed

lemma listed_grant:
  assumes "listGrants db p (Some k) = ok gs" and "g \<in> set gs"
  shows "\<exists>x \<in> set (adb_grants db). cg_projectId x = p \<and> cg_resourceId x = k \<and> cg_revokedAt x = cg_revokedAt g
    \<and> cg_validFrom x = cg_validFrom g \<and> cg_expiresAt x = cg_expiresAt g"
proof -
  let ?rows = "sort_key (\<lambda>g. (date_ms (gr_createdAt g), cg_id g))
    (filter (\<lambda>g. cg_projectId g = p \<and> cg_resourceId g = k) (adb_grants db))"
  have "list_all2 (\<lambda>x y. restore_grant x = ok y) ?rows gs" using assms(1) by (simp add: listGrants_def mapR_ok_list_all2)
  then obtain x where "x \<in> set ?rows" "restore_grant x = ok g" using assms(2)
    unfolding list_all2_conv_all_nth in_set_conv_nth by force
  moreover from this(2) obtain c where "g = x\<lparr>cg_constraints := c\<rparr>" by (auto simp: restore_grant_def bindR_ok)
  ultimately show ?thesis by (intro bexI [of _ x]) simp_all
qed


text \<open>What one reading step of a command leaves to the rest of it.\<close>

lemma then_ok:
  "bindM (queryDb f) k w = (ok y, w') \<longleftrightarrow> (\<exists>x. f (w_db w) = ok x \<and> k x w = (ok y, w'))"
  "bindM (expect v e) k w = (ok y, w') \<longleftrightarrow> (\<exists>x. v = Some x \<and> k x w = (ok y, w'))"
  "bindM (guardM b e) k' w = (ok y, w') \<longleftrightarrow> b \<and> k' () w = (ok y, w')"
  "bindM (readDb g) k w = (ok y, w') \<longleftrightarrow> k (g (w_db w)) w = (ok y, w')"
  "bindM (liftR r) k w = (ok y, w') \<longleftrightarrow> (\<exists>x. r = ok x \<and> k x w = (ok y, w'))"
  "bindM (returnM z) k w = (ok y, w') \<longleftrightarrow> k z w = (ok y, w')"
  by (auto simp: bindM_ok queryDb_ok expect_ok)

lemma evaluated_policy_ok:
  assumes "EvaluateActionPolicy cfg i (Some now) w = (ok ev, w')"
  shows "\<exists>rsc agent roleId operation arguments grants base pipeline. findResource (w_db w) (in_resourceId i) = ok (Some rsc)
    \<and> listGrants (w_db w) (in_projectId i) (Some (rc_id rsc)) = ok grants
    \<and> evaluate (ac_num_str cfg) (getPolicyDefinition (ac_registry cfg))
        (policy_of cfg i agent roleId rsc operation arguments grants) now = ok base
    \<and> ev_decision ev = combined_decision base pipeline"
proof -
  have last: "\<exists>pl. ev = k pl" if "bindM (if b then returnM z else queryDb q) (\<lambda>pl. returnM (k pl)) w = (ok ev, w')"
    for b z q and k :: "pipeline_authorization \<Rightarrow> evaluated_policy"
    using that by (cases b) (auto simp: then_ok)
  show ?thesis
    using assms unfolding EvaluateActionPolicy_def then_ok option.case
    apply (elim exE conjE)
    apply (drule last)
    apply (elim exE)
    apply simp
    apply blast
    done
qed

lemma freshly_authorized_grant:
  assumes "freshly_authorized cfg c r db now"
  shows "\<exists>g \<in> set (adb_grants db). current_grant r now g"
proof -
  obtain w w' ev where w: "w_db w = db" and ev: "EvaluateActionPolicy cfg (input_of_request r) (Some now) w = (ok ev, w')"
    and d: "pd_decision (ev_decision ev) = PdAllowWithApproval"
    using assms unfolding freshly_authorized_def by blast
  obtain rsc agent roleId operation arguments grants base pipeline where
    rsc: "findResource db (aq_resourceId r) = ok (Some rsc)" and gs: "listGrants db (aq_projectId r) (Some (rc_id rsc)) = ok grants"
    and base: "evaluate (ac_num_str cfg) (getPolicyDefinition (ac_registry cfg))
       (policy_of cfg (input_of_request r) agent roleId rsc operation arguments grants) now = ok base"
    and dec: "ev_decision ev = combined_decision base pipeline"
    using evaluated_policy_ok [OF ev] w by (auto simp: input_of_request_def)
  have id: "rc_id rsc = aq_resourceId r"
    using rsc by (auto simp: findResource_def restore_resource_def result_simps find_Some_iff split: option.splits)
  have "pd_decision base \<noteq> PdDeny" using d dec by (auto simp: combined_decision_def split: if_splits)
  from evaluate_grant [OF base this] obtain risk g where g: "g \<in> set grants"
    "grant_matches (policy_of cfg (input_of_request r) agent roleId rsc operation arguments grants) now risk (capability_grant.truncate g)"
    by (auto simp: policy_of_def)
  have "current_grant r now x" if "cg_projectId x = aq_projectId r" "cg_resourceId x = aq_resourceId r" "cg_revokedAt x = cg_revokedAt g"
    "cg_validFrom x = cg_validFrom g" "cg_expiresAt x = cg_expiresAt g" for x :: registered_grant
    using g(2) that by (auto simp: grant_matches_def current_grant_def capability_grant.truncate_def split: if_splits)
  then show ?thesis using listed_grant [OF gs g(1)] id by metis
qed

lemma confirm_authorization_ok:
  "confirm_authorization cfg r ev same = ok u \<longleftrightarrow> same
     \<and> hashCanonicalActionPayload cfg (evaluated_payload (aq_projectId r) (aq_agentId r) (aq_operation r) (aq_agentRunId r) ev)
         = ok (aq_payloadHash r)
     \<and> hashCanonicalActionPayload cfg (canonicalPayload r) = ok (aq_payloadHash r)"
  by (auto simp: confirm_authorization_def result_simps)

lemma validateAgentRunBinding_world: "validateAgentRunBinding cfg r w = (ok u, w') \<Longrightarrow> w' = w"
  by (auto simp: validateAgentRunBinding_def expect_def result_simps split: option.splits)

lemma requireFreshApproval_ok:
  assumes "requireFreshApproval cfg r c operation w = (ok u, w')"
  shows "freshly_authorized cfg c r (w_db w) (sv_now (ac_services cfg) (w_clock w))" and "w_db w' = w_db w"
proof -
  obtain w1 now w2 ev w3 where b: "validateAgentRunBinding cfg r w = (ok (), w1)"
    and c: "clock_now (ac_services cfg) w1 = (ok now, w2)"
    and ev: "EvaluateActionPolicy cfg (input_of_request r) (Some now) w2 = (ok ev, w3)"
    and f: "confirm_authorization cfg r ev (same_authorization c r ev \<and> od_operation operation = aq_operation r
       \<and> pd_decision (ev_decision ev) = PdAllowWithApproval) = ok ()" and w': "w' = w3"
    using assms by (auto simp: requireFreshApproval_def result_simps)
  have now: "now = sv_now (ac_services cfg) (w_clock w)" "w_db w2 = w_db w"
    using validateAgentRunBinding_world [OF b] c by auto
  then show "w_db w' = w_db w" using w' keepsD [OF same_policy ev] by simp
  show "freshly_authorized cfg c r (w_db w) (sv_now (ac_services cfg) (w_clock w))"
    unfolding freshly_authorized_def using now ev f by (auto simp: confirm_authorization_ok)
qed

text \<open>All that has been checked when an approved action is about to run.\<close>

definition approved_for ::
  "'z action_db_scheme world action_config \<Rightarrow> string \<Rightarrow> string \<Rightarrow> 'z action_db_scheme \<Rightarrow> js_date
     \<Rightarrow> 'z action_db_scheme world connector_definition \<Rightarrow> action_request \<Rightarrow> action_simulation \<Rightarrow> action_approval \<Rightarrow> bool" where
  "approved_for cfg p i db now c r s a \<longleftrightarrow>
     findActionRequest db i = ok (Some r) \<and> aq_projectId r = p \<and> aq_status r = AsApprovalPending
     \<and> requireDefinition (ac_registry cfg) (aq_connector r) = ok c \<and> df_executeMutation c \<noteq> None
     \<and> findActionSimulationByAction db (aq_id r) p = ok (Some s) \<and> findApprovalByAction db (aq_id r) p = ok (Some a)
     \<and> ap_status a = ApApproved \<and> assertApprovalBinding cfg r s a = ok ()
     \<and> freshly_authorized cfg c r db now"

lemma approved_action_ok:
  assumes "approved_action cfg p i w = (ok (r, c, s, a), w')"
  shows "approved_for cfg p i (w_db w) (sv_now (ac_services cfg) (w_clock w)) c r s a" and "w_db w' = w_db w"
  using assms requireFreshApproval_ok
  by (auto simp: approved_action_def approved_for_def executable_connector_def result_simps)

lemma start_execution_ok:
  assumes "start_execution cfg (r, c, s, a) w = (ok lease, w')"
  shows "findExecutionByAction (w_db w) (aq_id r) (aq_projectId r) = ok None"
    and "el_connector lease = c" and "el_simulation lease = s"
    and "aq_id (el_request lease) = aq_id r" and "aq_projectId (el_request lease) = aq_projectId r"
    and "\<exists>e d. insertExecution e (w_db w) = ok (True, d) \<and> el_execution lease = e \<and> ex_projectId e = aq_projectId r
           \<and> ex_actionRequestId e = aq_id r \<and> ex_simulationId e = sm_id s \<and> ex_approvalId e = ap_id a
           \<and> action_steps d (w_db w')"
proof -
  obtain w1 startedAt w2 j w3 e w4 w5 u w6 where
    none: "findExecutionByAction (w_db w) (aq_id r) (aq_projectId r) = ok None"
    and c1: "clock_now (ac_services cfg) w = (ok startedAt, w1)" and g: "generate (ac_services cfg) w1 = (ok j, w2)"
    and e: "ActionExecution_start (execution_input j r s a) startedAt = ok e"
    and ins: "execDb (insertExecution e) w2 = (ok True, w3)"
    and tr: "transition_or_conflict (aq_id r) (aq_projectId r) AsApprovalPending AsExecuting startedAt w3 = (ok (), w4)"
    and au: "audit_action cfg ''action_execution_started'' (ap_actor a) (aq_projectId r) ''action_execution''
       (ex_id e) [(''actionRequestId'', JStr (aq_id r)), (''simulationId'', JStr (sm_id s)),
         (''approvalId'', JStr (ap_id a))] w4 = (ok u, w')"
    and lease: "el_connector lease = c" "el_simulation lease = s" "el_execution lease = e"
    and q: "ActionRequest_transition AsExecuting startedAt (Some MutationMode) True r = ok (el_request lease)"
    using assms by (auto simp: start_execution_def requireCurrentResource_def result_simps)
  show "findExecutionByAction (w_db w) (aq_id r) (aq_projectId r) = ok None" "el_connector lease = c" "el_simulation lease = s"
    "aq_id (el_request lease) = aq_id r" "aq_projectId (el_request lease) = aq_projectId r"
    using none lease q by (auto simp: action_transition_ok)
  have "w_db w2 = w_db w" using c1 g by auto
  then have "insertExecution e (w_db w) = ok (True, w_db w3)" using ins by (auto simp: result_simps)
  moreover have "action_steps (w_db w3) (w_db w')"
    using keepsD [OF keeps_transition tr] keepsD [OF keeps_action_audit au] by simp
  moreover have "ex_projectId e = aq_projectId r \<and> ex_actionRequestId e = aq_id r \<and> ex_simulationId e = sm_id s \<and> ex_approvalId e = ap_id a"
    using e by (auto simp: ActionExecution_start_def normalize_execution_def execution_input_def split: if_splits option.splits)
  ultimately show "\<exists>e d. insertExecution e (w_db w) = ok (True, d) \<and> el_execution lease = e \<and> ex_projectId e = aq_projectId r
           \<and> ex_actionRequestId e = aq_id r \<and> ex_simulationId e = sm_id s \<and> ex_approvalId e = ap_id a
           \<and> action_steps d (w_db w')"
    using lease by blast
qed

lemma findActionRequest_id: "findActionRequest db i = ok (Some r) \<Longrightarrow> aq_id r = i"
  by (auto simp: findActionRequest_def ActionRequest_restore_def result_simps find_Some_iff
      split: option.splits if_splits)

text \<open>A lease: an approved action without an execution, and the execution row that is inserted.\<close>

definition leased_as ::
  "'z action_db_scheme world action_config \<Rightarrow> string \<Rightarrow> string \<Rightarrow> 'z action_db_scheme \<Rightarrow> js_date
     \<Rightarrow> 'z action_db_scheme world execution_lease \<Rightarrow> 'z action_db_scheme \<Rightarrow> bool" where
  "leased_as cfg p i db now lease d \<longleftrightarrow> (\<exists>r a.
     approved_for cfg p i db now (el_connector lease) r (el_simulation lease) a \<and> findExecutionByAction db i p = ok None
     \<and> insertExecution (el_execution lease) db = ok (True, d)
     \<and> aq_id (el_request lease) = i \<and> aq_projectId (el_request lease) = p
     \<and> ex_projectId (el_execution lease) = p \<and> ex_actionRequestId (el_execution lease) = i
     \<and> ex_simulationId (el_execution lease) = sm_id (el_simulation lease) \<and> ex_approvalId (el_execution lease) = ap_id a)"

lemma leasedD:
  assumes "leased_as cfg p i db now lease d"
  shows "insertExecution (el_execution lease) db = ok (True, d)"
    and "ex_projectId (el_execution lease) = p" and "ex_actionRequestId (el_execution lease) = i"
    and "aq_id (el_request lease) = i" and "aq_projectId (el_request lease) = p"
  using assms unfolding leased_as_def by blast+

lemma acquireLease_ok:
  assumes "acquireLease cfg p i w = (ok lease, w')"
  shows "\<exists>d. leased_as cfg p i (w_db w) (sv_now (ac_services cfg) (w_clock w)) lease d \<and> action_steps d (w_db w')"
proof -
  obtain r c s a w1 w2 where a: "approved_action cfg p i (w\<lparr>w_active := True\<rparr>) = (ok (r, c, s, a), w1)"
    and st: "start_execution cfg (r, c, s, a) w1 = (ok lease, w2)" and w': "w' = w2\<lparr>w_active := False\<rparr>"
    using assms by (auto simp: acquireLease_def transaction_ok bindM_ok split_paired_Ex)
  have db: "approved_for cfg p i (w_db w) (sv_now (ac_services cfg) (w_clock w)) c r s a" "w_db w1 = w_db w"
    using approved_action_ok [OF a] by auto
  then have ids: "aq_id r = i" "aq_projectId r = p"
    using findActionRequest_id by (auto simp: approved_for_def)
  show ?thesis using start_execution_ok [OF st] db ids w' by (auto simp: leased_as_def)
qed

section \<open>An action runs at most once\<close>

lemma rows_kept_trans: "rows_kept a b \<Longrightarrow> rows_kept b c \<Longrightarrow> rows_kept a c"
  unfolding rows_kept_def by (elim conjE, intro conjI; erule (1) subset_trans)

lemma rows_kept_steps: "action_steps db db' \<Longrightarrow> rows_kept db db'"
proof (induction rule: rtranclp_induct)
  case (step d e)
  show ?case by (rule rows_kept_trans [OF step(3) action_step_rows [OF step(2)]])
qed (simp add: rows_kept_def)

lemma inserted_execution: "insertExecution e db = ok (True, d) \<Longrightarrow> e \<in> set (adb_executions d)"
  by (auto simp: insertExecution_def result_simps split: if_splits)

lemma execution_found:
  assumes "e \<in> set (adb_executions db)" and "rows_kept db db'"
  shows "findExecutionByAction db' (ex_actionRequestId e) (ex_projectId e) \<noteq> ok None"
proof -
  have "execution_identity e \<in> execution_identity ` set (adb_executions db')"
    using assms by (auto simp: rows_kept_def)
  then obtain e' where "e' \<in> set (adb_executions db')" "ex_actionRequestId e' = ex_actionRequestId e"
    "ex_projectId e' = ex_projectId e"
    by (auto simp: execution_identity_def)
  then show ?thesis
    by (auto simp: findExecutionByAction_def result_simps find_None_iff)
qed

text \<open>C6. An approved mutation is leased at most once. After a lease of an action has been taken, no
  later \<open>acquireLease\<close> for the same action succeeds, whatever accepted statements other services have
  executed on the database meanwhile.\<close>

theorem action_leased_once:
  assumes "acquireLease cfg p i w = (ok lease, w1)" and "action_steps (w_db w1) (w_db w2)"
  shows "acquireLease cfg p i w2 \<noteq> (ok lease', w3)"
proof
  assume again: "acquireLease cfg p i w2 = (ok lease', w3)"
  obtain now d where l: "leased_as cfg p i (w_db w) now lease d" "action_steps d (w_db w1)"
    using acquireLease_ok [OF assms(1)] by blast
  then have "rows_kept d (w_db w2)" using assms(2) rows_kept_steps by (meson rtranclp_trans)
  then have "findExecutionByAction (w_db w2) i p \<noteq> ok None"
    using execution_found [OF inserted_execution] leasedD [OF l(1)] by metis
  then show False using acquireLease_ok [OF again] by (auto simp: leased_as_def)
qed

section \<open>What is recorded of an outcome\<close>

definition recorded :: "'z action_db_scheme \<Rightarrow> action_request \<Rightarrow> action_execution \<Rightarrow> execution_status \<Rightarrow> bool" where
  "recorded db r e status \<longleftrightarrow>
     (\<exists>x \<in> set (adb_executions db). ex_id x = ex_id e \<and> ex_projectId x = aq_projectId r \<and> ex_status x = status)
     \<and> (\<exists>y \<in> set (adb_requests db). aq_id y = aq_id r \<and> aq_projectId y = aq_projectId r \<and> aq_status y = request_status status)"

lemma hit_one: "length (filter h xs) = 1 \<Longrightarrow> \<exists>x \<in> set xs. h x"
  by (cases "filter h xs") (auto simp: filter_eq_Cons_iff)

lemma transitionExecution_row:
  assumes "transitionExecution i p from status now code hash db = ok (True, d)"
  shows "\<exists>x \<in> set (adb_executions d). ex_id x = i \<and> ex_projectId x = p \<and> ex_status x = status"
proof -
  let ?h = "\<lambda>e. ex_id e = i \<and> ex_projectId e = p \<and> ex_status e = from"
  let ?c = "outcome_change status now code hash"
  have "length (filter ?h (adb_executions db)) = 1" and d: "adb_executions d = update_hit ?h ?c (adb_executions db)"
    using assms by (auto simp: transitionExecution_def Let_def result_simps split: if_splits)
  then obtain e where e: "e \<in> set (adb_executions db)" "?h e" using hit_one by blast
  then have "?c e \<in> set (adb_executions d)" using update_hit_in [OF e(1), of ?h ?c] d by simp
  then show ?thesis using e(2) by (auto simp: outcome_change_def intro!: bexI [of _ "?c e"])
qed

lemma transitionActionRequest_row:
  assumes "transitionActionRequest i p from status now db = ok (True, d)"
  shows "\<exists>y \<in> set (adb_requests d). aq_id y = i \<and> aq_projectId y = p \<and> aq_status y = status"
    and "adb_executions d = adb_executions db"
proof -
  let ?h = "\<lambda>r. aq_id r = i \<and> aq_projectId r = p \<and> aq_status r = from"
  let ?c = "\<lambda>r. r\<lparr>aq_status := status, aq_updatedAt := now\<rparr>"
  have "length (filter ?h (adb_requests db)) = 1" and d: "adb_requests d = update_hit ?h ?c (adb_requests db)"
    and "adb_executions d = adb_executions db"
    using assms by (auto simp: transitionActionRequest_def Let_def result_simps split: if_splits option.splits)
  then show "adb_executions d = adb_executions db" by simp
  obtain r where r: "r \<in> set (adb_requests db)" "?h r" using hit_one \<open>length _ = 1\<close> by blast
  then have "?c r \<in> set (adb_requests d)" using update_hit_in [OF r(1), of ?h ?c] d by simp
  then show "\<exists>y \<in> set (adb_requests d). aq_id y = i \<and> aq_projectId y = p \<and> aq_status y = status"
    using r(2) by (auto intro!: bexI [of _ "?c r"])
qed

lemma audit_frame:
  assumes "audit_action cfg a b c d e f w = (ok u, w')"
  shows "adb_executions (w_db w') = adb_executions (w_db w)" and "adb_requests (w_db w') = adb_requests (w_db w)"
  using assms by (auto simp: audit_action_def RecordAuditEvent_def audit_append_def result_simps split: if_splits)

lemma outcome_work_ok:
  assumes "outcome_work cfg r e status now code hash payload w = (ok u, w')"
  shows "recorded (w_db w') r e status"
proof -
  obtain w1 w2 where t: "execDb (transitionExecution (ex_id e) (aq_projectId r) ExExecuting status now code hash) w = (ok True, w1)"
    and q: "transition_or_conflict (aq_id r) (aq_projectId r) AsExecuting (request_status status) now w1 = (ok (), w2)"
    and "\<exists>v. audit_action cfg (outcome_event status) None (aq_projectId r) ''action_execution'' (ex_id e)
       ((''actionRequestId'', JStr (aq_id r)) # payload) w2 = (ok v, w')"
    using assms by (auto simp: outcome_work_def result_simps)
  then obtain v where a: "audit_action cfg (outcome_event status) None (aq_projectId r) ''action_execution'' (ex_id e)
       ((''actionRequestId'', JStr (aq_id r)) # payload) w2 = (ok v, w')" by blast
  have e: "\<exists>x \<in> set (adb_executions (w_db w1)). ex_id x = ex_id e \<and> ex_projectId x = aq_projectId r \<and> ex_status x = status"
    using t transitionExecution_row by (fastforce simp: result_simps)
  obtain d where d: "transitionActionRequest (aq_id r) (aq_projectId r) AsExecuting (request_status status) now (w_db w1) = ok (True, d)"
    and w2: "w_db w2 = d"
    using q by (auto simp: transition_or_conflict_def result_simps)
  show ?thesis using e transitionActionRequest_row [OF d] by (simp add: recorded_def audit_frame [OF a] w2)
qed

lemma transaction_pair:
  "transaction work w = (ok x, w') \<Longrightarrow> \<exists>w1. work (w\<lparr>w_active := True\<rparr>) = (ok x, w1) \<and> w_db w' = w_db w1"
  by (auto simp: transaction_ok)

text \<open>A command that changes nothing when it throws.\<close>

lemma finish_throw: "finish cfg lease status code res w = (throw e, w') \<Longrightarrow> w_db w' = w_db w"
  by (auto simp: finish_def Let_def result_simps dest: transaction_throw_db)

lemma restored_execution: "ActionExecution_restore e = ok e' \<Longrightarrow> e' = e"
  by (auto simp: ActionExecution_restore_def normalize_execution_def split: if_splits option.splits)

lemma finished_execution_ok:
  "finished_execution status now code hash e = ok f \<Longrightarrow> ex_id f = ex_id e \<and> ex_projectId f = ex_projectId e"
  by (cases status) (auto simp: ActionExecution_complete_def ActionExecution_fail_def ActionExecution_markUnknown_def
      execution_finish_def normalize_execution_def split: if_splits option.splits)

lemma finish_ok:
  assumes "finish cfg lease status code res w = (ok u, w')"
  shows "recorded (w_db w') (el_request lease) (el_execution lease) status"
proof -
  obtain now e f w1 hash payload where e: "ActionExecution_restore (el_execution lease) = ok e"
    and f: "finished_execution status now code hash e = ok f"
    and t: "transaction (outcome_work cfg (el_request lease) f status now code hash payload) w1 = (ok (), w')"
    using assms by (auto simp: finish_def Let_def result_simps)
  have "ex_id f = ex_id (el_execution lease)" using restored_execution [OF e] finished_execution_ok [OF f] by simp
  then show ?thesis using transaction_pair [OF t] outcome_work_ok by (fastforce simp: recorded_def)
qed

lemma persist_ok:
  assumes "persistOutcomeFailureAsUnknown cfg lease w = (ok u, w')"
  shows "\<exists>r e. findExecutionByAction (w_db w) (aq_id (el_request lease)) (aq_projectId (el_request lease)) = ok (Some e)
    \<and> aq_id r = aq_id (el_request lease) \<and> aq_projectId r = aq_projectId (el_request lease) \<and> recorded (w_db w') r e ExUnknown"
proof -
  obtain w1 where u: "unknown_work cfg (el_request lease) (w\<lparr>w_active := True\<rparr>) = (ok (), w1)" "w_db w' = w_db w1"
    using assms transaction_pair unfolding persistOutcomeFailureAsUnknown_def by fastforce
  then obtain r e now w2 where
    r: "findActionRequest (w_db w) (aq_id (el_request lease)) = ok (Some r)" "aq_projectId r = aq_projectId (el_request lease)"
    and e: "findExecutionByAction (w_db w) (aq_id (el_request lease)) (aq_projectId (el_request lease)) = ok (Some e)"
    and o: "outcome_work cfg r e ExUnknown now (Some outcomePersistenceFailureCode) None
       [(''failureCode'', JStr outcomePersistenceFailureCode)] w2 = (ok (), w1)"
    by (auto simp: unknown_work_def result_simps)
  show ?thesis using r e outcome_work_ok [OF o] findActionRequest_id [OF r(1)] u(2) by (auto intro!: exI [of _ r])
qed

lemma finishWithFallback_ok:
  assumes "finishWithFallback cfg lease status code res w = (ok (s, c), w')"
  shows "s = status \<and> recorded (w_db w') (el_request lease) (el_execution lease) s
    \<or> s = ExUnknown \<and> status \<noteq> ExFailed \<and> (\<exists>r e.
        findExecutionByAction (w_db w) (aq_id (el_request lease)) (aq_projectId (el_request lease)) = ok (Some e)
        \<and> aq_id r = aq_id (el_request lease) \<and> aq_projectId r = aq_projectId (el_request lease) \<and> recorded (w_db w') r e s)"
proof (cases "fst (finish cfg lease status code res w)")
  case (Inr u)
  then have "finish cfg lease status code res w = (ok (), w') \<and> s = status"
    using assms by (auto simp: finishWithFallback_def catchM_def bindM_def split: prod.splits sum.splits)
  then show ?thesis using finish_ok by blast
next
  case (Inl e)
  then obtain w1 where f: "finish cfg lease status code res w = (throw e, w1)" by (metis prod.collapse)
  have "status \<noteq> ExFailed \<and> s = ExUnknown \<and> persistOutcomeFailureAsUnknown cfg lease w1 = (ok (), w')"
    using assms f by (auto simp: finishWithFallback_def catchM_def bindM_def split: prod.splits sum.splits if_splits)
  then show ?thesis using persist_ok finish_throw [OF f] by metis
qed

lemma finishWithFallback_throw:
  assumes "finishWithFallback cfg lease status code res w = (throw e, w')"
  shows "w_db w' = w_db w"
proof -
  obtain e1 w1 where f: "finish cfg lease status code res w = (throw e1, w1)"
    using assms by (cases "finish cfg lease status code res w"; cases "fst (finish cfg lease status code res w)")
      (auto simp: finishWithFallback_def catchM_def bindM_def)
  have "w' = w1 \<or> (\<exists>e2. persistOutcomeFailureAsUnknown cfg lease w1 = (throw e2, w'))"
    using assms f by (auto simp: finishWithFallback_def catchM_def bindM_def split: prod.splits sum.splits if_splits)
  then show ?thesis using finish_throw [OF f] transaction_throw_db
    unfolding persistOutcomeFailureAsUnknown_def by metis
qed

text \<open>What may be recorded of an outcome: only a mutation that certainly did not happen has failed.\<close>

fun outcome_fits :: "mutation_outcome \<Rightarrow> execution_status \<Rightarrow> bool" where
  "outcome_fits (MutationReturned r) s = (s = ExCompleted \<or> s = ExUnknown)"
| "outcome_fits (MutationFailed code DefiniteNoMutation) s = (s = ExFailed)"
| "outcome_fits _ s = (s = ExUnknown)"

lemma outcome_status_fits:
  "outcome_status reported = (status, code, res) \<Longrightarrow> s = status \<or> s = ExUnknown \<and> status \<noteq> ExFailed \<Longrightarrow> outcome_fits reported s"
  by (cases reported rule: outcome_status.cases) auto

lemma unique_execution_row:
  assumes inv: "action_inv db" and "findExecutionByAction db (ex_actionRequestId e0) (ex_projectId e0) = ok (Some e)"
    and "execution_identity e0 \<in> execution_identity ` set (adb_executions db)"
  shows "ex_id e = ex_id e0"
proof -
  obtain x where x: "x \<in> set (adb_executions db)" "ex_actionRequestId x = ex_actionRequestId e0" "ex_projectId x = ex_projectId e0"
    "ex_id e = ex_id x"
  proof -
    obtain x where x: "find (\<lambda>e. ex_actionRequestId e = ex_actionRequestId e0 \<and> ex_projectId e = ex_projectId e0) (adb_executions db) = Some x"
      "ActionExecution_restore x = ok e"
      using assms(2) by (auto simp: findExecutionByAction_def result_simps)
    moreover have "e = x" using restored_execution [OF x(2)] .
    ultimately show thesis using that [of x] by (auto simp: find_Some_iff)
  qed
  obtain y where y: "y \<in> set (adb_executions db)" "execution_identity y = execution_identity e0"
    using assms(3) by auto
  have "distinct (map (\<lambda>e. (ex_projectId e, ex_actionRequestId e)) (adb_executions db))"
    using inv by (simp add: action_inv_def action_keys_def)
  then have "x = y" using distinct_key x y by (fastforce simp: execution_identity_def)
  then show ?thesis using x y by (simp add: execution_identity_def)
qed

lemma action_steps_inv: "action_steps db db' \<Longrightarrow> action_inv db \<Longrightarrow> action_inv db'"
  by (induction rule: rtranclp_induct) (auto intro: action_step_inv)

text \<open>C7. The recorded outcome of an executed action is true to what its connector reported. When
  \<open>ExecuteControlledAction\<close> returns, the connector has been called under a lease; \<open>completed\<close> was
  recorded only if the mutation returned and \<open>failed\<close> only if the connector said that it certainly did
  not happen, and the execution and the request are both stored in the reported status.\<close>

theorem execution_outcome_truthful:
  assumes "connectors_guarded (ac_registry cfg)" and "action_reachable (w_db w)"
    and "ExecuteControlledAction cfg p i w = (ok x, w')"
  shows "\<exists>lease w1 reported w2. acquireLease cfg p i w = (ok lease, w1) \<and> call_mutation lease w1 = (ok reported, w2)
    \<and> outcome_fits reported (xa_status x)
    \<and> (\<exists>e \<in> set (adb_executions (w_db w')). ex_id e = ex_id (el_execution lease) \<and> ex_status e = xa_status x)
    \<and> (\<exists>r \<in> set (adb_requests (w_db w')). aq_id r = i \<and> aq_projectId r = p \<and> aq_status r = request_status (xa_status x))"
proof -
  obtain lease w1 reported w2 where l: "acquireLease cfg p i w = (ok lease, w1)"
    and m: "call_mutation lease w1 = (ok reported, w2)" and "record_outcome cfg i lease reported w2 = (ok x, w')"
    using assms(3) by (auto simp: ExecuteControlledAction_def result_simps)
  then obtain status code res c where st: "outcome_status reported = (status, code, res)"
    and f: "finishWithFallback cfg lease status code res w2 = (ok (xa_status x, c), w')"
    by (auto simp: record_outcome_def result_simps split: prod.splits)
  obtain now d where d: "leased_as cfg p i (w_db w) now lease d" "action_steps d (w_db w1)" using acquireLease_ok [OF l] by blast
  have "connector_guarded (el_connector lease)" using leased_connector [OF l] registered_guarded [OF assms(1)] by blast
  then have m2: "action_steps (w_db w1) (w_db w2)" using keepsD [OF keeps_mutation m] by blast
  then have "rows_kept d (w_db w2)" using d(2) rows_kept_steps by (meson rtranclp_trans)
  then have row: "execution_identity (el_execution lease) \<in> execution_identity ` set (adb_executions (w_db w2))"
    using inserted_execution [OF leasedD(1) [OF d(1)]] unfolding rows_kept_def by blast
  have "action_inv (w_db w2)"
    using action_steps_inv [OF m2] action_steps_inv [OF keepsD [OF keeps_lease l]] action_reachable_inv [OF assms(2)] by blast
  then have same: "ex_id e = ex_id (el_execution lease)"
    if "findExecutionByAction (w_db w2) (aq_id (el_request lease)) (aq_projectId (el_request lease)) = ok (Some e)" for e
    using unique_execution_row [OF _ _ row] that leasedD [OF d(1)] by metis
  have "\<exists>r e. aq_id r = i \<and> aq_projectId r = p \<and> ex_id e = ex_id (el_execution lease) \<and> recorded (w_db w') r e (xa_status x)"
    using finishWithFallback_ok [OF f] same leasedD [OF d(1)] by metis
  moreover have "outcome_fits reported (xa_status x)" using outcome_status_fits [OF st] finishWithFallback_ok [OF f] by blast
  ultimately show ?thesis using l m unfolding recorded_def by metis
qed

section \<open>What runs was authorized\<close>

text \<open>C3. A lease needs an approval that still holds. If \<open>acquireLease\<close> succeeds, the action was pending
  with an approved approval that is bound to its payload and to the recomputed hash of its simulation, the
  policy, evaluated again on the current rows and at the time the clock shows when the lease is acquired, gave an approval with the
  payload hash that was approved, so that some grant of the resource is in force at that time, neither revoked nor expired, no
  execution existed, and the inserted execution is bound to that simulation and that approval.\<close>

theorem lease_needs_approval:
  assumes "acquireLease cfg p i w = (ok lease, w')"
  shows "\<exists>r s a. findActionRequest (w_db w) i = ok (Some r) \<and> aq_status r = AsApprovalPending
    \<and> findActionSimulationByAction (w_db w) i p = ok (Some s) \<and> findApprovalByAction (w_db w) i p = ok (Some a)
    \<and> ap_status a = ApApproved \<and> ap_simulationId a = sm_id s \<and> ap_actionPayloadHash a = aq_payloadHash r
    \<and> hashActionSimulationArtifact cfg r (sm_preconditions s) (ac_sha256 cfg (sm_diff s)) = ok (ap_simulationArtifactHash a)
    \<and> freshly_authorized cfg (el_connector lease) r (w_db w) (sv_now (ac_services cfg) (w_clock w))
    \<and> (\<exists>g \<in> set (adb_grants (w_db w)). current_grant r (sv_now (ac_services cfg) (w_clock w)) g)
    \<and> findExecutionByAction (w_db w) i p = ok None
    \<and> ex_simulationId (el_execution lease) = sm_id s \<and> ex_approvalId (el_execution lease) = ap_id a"
proof -
  let ?now = "sv_now (ac_services cfg) (w_clock w)"
  obtain r a where a: "approved_for cfg p i (w_db w) ?now (el_connector lease) r (el_simulation lease) a"
    "ex_simulationId (el_execution lease) = sm_id (el_simulation lease)" "ex_approvalId (el_execution lease) = ap_id a"
    "findExecutionByAction (w_db w) i p = ok None"
    using acquireLease_ok [OF assms] unfolding leased_as_def by blast
  have "aq_id r = i" using a(1) findActionRequest_id by (auto simp: approved_for_def)
  moreover have "assertApprovalBinding cfg r (el_simulation lease) a = ok ()" using a(1) by (simp add: approved_for_def)
  then have "ap_simulationId a = sm_id (el_simulation lease) \<and> ap_actionPayloadHash a = aq_payloadHash r
    \<and> hashActionSimulationArtifact cfg r (sm_preconditions (el_simulation lease)) (ac_sha256 cfg (sm_diff (el_simulation lease)))
        = ok (ap_simulationArtifactHash a)"
    by (auto simp: assertApprovalBinding_def assertSimulationIntegrity_def Let_def result_simps split: if_splits)
  moreover have "\<exists>g \<in> set (adb_grants (w_db w)). current_grant r ?now g"
    using a(1) freshly_authorized_grant unfolding approved_for_def by blast
  ultimately show ?thesis using a unfolding approved_for_def by metis
qed

text \<open>Any sequence of the services, from any clients.\<close>

datatype action_call =
    CallRegister string resource_type string "string option" string "js_value option"
  | CallGrant grant_input
  | CallDisable string string
  | CallRevoke string string string
  | CallRequest action_input
  | CallInvoke "string + action_input"
  | CallInvokeAuthorized string string
  | CallDecide string string string bool
  | CallExecute string string

fun run_action_call :: "'z action_db_scheme world action_config \<Rightarrow> action_call \<Rightarrow> 'z action_db_scheme world \<Rightarrow> 'z action_db_scheme world" where
  "run_action_call cfg (CallRegister p t provider ref name conf) w = snd (RegisterResource cfg p t provider ref name conf w)"
| "run_action_call cfg (CallGrant gi) w = snd (CreateCapabilityGrant cfg gi w)"
| "run_action_call cfg (CallDisable p i) w = snd (DisableResource cfg p i w)"
| "run_action_call cfg (CallRevoke p i revokedBy) w = snd (RevokeCapabilityGrant cfg p i revokedBy w)"
| "run_action_call cfg (CallRequest i) w = snd (RequestControlledAction cfg i w)"
| "run_action_call cfg (CallInvoke i) w = snd (InvokeControlledConnectorAction cfg i w)"
| "run_action_call cfg (CallInvokeAuthorized p i) w = snd (invokeRequest cfg i p w)"
| "run_action_call cfg (CallDecide p i actor approving) w = snd (DecideControlledAction cfg p i actor approving w)"
| "run_action_call cfg (CallExecute p i) w = snd (ExecuteControlledAction cfg p i w)"

definition run_action_calls ::
  "'z action_db_scheme world action_config \<Rightarrow> action_call list \<Rightarrow> 'z action_db_scheme world \<Rightarrow> 'z action_db_scheme world" where
  "run_action_calls cfg calls w = fold (run_action_call cfg) calls w"

lemma keeps_grants:
  "keeps action_steps (CreateCapabilityGrant cfg gi)" "keeps action_steps (DisableResource cfg p i)"
  "keeps action_steps (RevokeCapabilityGrant cfg p i revokedBy)"
  unfolding CreateCapabilityGrant_def DisableResource_def RevokeCapabilityGrant_def by (intro keeps_rules)+

lemma keeps_snd: "keeps R m \<Longrightarrow> R (w_db w) (w_db (snd (m w)))"
  by (simp add: keeps_def)

lemma run_action_call_steps:
  "connectors_guarded (ac_registry cfg) \<Longrightarrow> action_steps (w_db w) (w_db (run_action_call cfg call w))"
  by (cases call)
    (simp_all add: keeps_snd keeps_register keeps_grants keeps_request keeps_invoke keeps_invoke_request keeps_decide keeps_execute)

lemma run_action_calls_steps:
  "connectors_guarded (ac_registry cfg) \<Longrightarrow> action_steps (w_db w) (w_db (run_action_calls cfg calls w))"
  unfolding run_action_calls_def
proof (induction calls arbitrary: w)
  case (Cons call calls)
  show ?case using run_action_call_steps [OF Cons.prems, of w call] Cons.IH [OF Cons.prems, of "run_action_call cfg call w"] by simp
qed simp

lemma action_steps_reachable: "action_steps db db' \<Longrightarrow> action_reachable db \<Longrightarrow> action_reachable db'"
  by (induction rule: rtranclp_induct) (auto intro: action_reachable.step)

text \<open>A mutation with its approved approval, bound to its payload and its simulation, and its only execution.\<close>

definition approved_mutation :: "'z action_db_scheme \<Rightarrow> action_request \<Rightarrow> bool" where
  "approved_mutation db r \<longleftrightarrow> made_by ''filesystem'' [''2''] filesystem_mutations r
     \<and> (\<exists>s \<in> set (adb_simulations db). \<exists>a \<in> set (adb_approvals db). \<exists>e \<in> set (adb_executions db).
          approval_bound r s a \<and> ap_status a = ApApproved \<and> execution_bound r a e
          \<and> filter (\<lambda>x. of_request r (ex_projectId x) (ex_actionRequestId x)) (adb_executions db) = [e])"

definition allowed_read :: "action_request \<Rightarrow> bool" where
  "allowed_read r \<longleftrightarrow> aq_decision r = PdAllow \<and> made_by ''filesystem'' [''1'', ''2''] filesystem_reads r"

lemma same_request:
  assumes "action_keys db" and "r \<in> set (adb_requests db)" and "r' \<in> set (adb_requests db)"
    and "of_request r p i" and "of_request r' p i"
  shows "r' = r"
proof (rule distinct_key)
  show "distinct (map aq_id (adb_requests db))" using assms(1) by (simp add: action_keys_def)
  show "aq_id r' = aq_id r" using assms(4,5) unfolding of_request_def by metis
qed (rule assms)+

lemma executed_request:
  assumes inv: "action_inv db" and r: "r \<in> set (adb_requests db)"
    and "aq_status r \<in> {AsExecuting, AsCompleted, AsExecutionUnknown}"
  shows "allowed_read r \<or> approved_mutation db r"
proof (cases "allowed_read r")
  case False
  have keys: "action_keys db" and ok: "request_ok db r" "list_all (execution_ok db) (adb_executions db)"
    "list_all (approval_ok db) (adb_approvals db)"
    using inv r by (auto simp: action_inv_def list_all_iff)
  then obtain e where m: "made_by ''filesystem'' [''2''] filesystem_mutations r"
    and e: "e \<in> set (adb_executions db)" "of_request r (ex_projectId e) (ex_actionRequestId e)"
    using assms(3) False unfolding request_ok_def allowed_read_def by blast
  then obtain r1 a where r1: "r1 \<in> set (adb_requests db)" and a: "a \<in> set (adb_approvals db)" "execution_bound r1 a e" "ap_status a = ApApproved"
    using ok(2) unfolding list_all_iff execution_ok_def by blast
  then have "r1 = r" using same_request [OF keys r r1 e(2)] by (simp add: execution_bound_def)
  obtain r2 s where r2: "r2 \<in> set (adb_requests db)" "s \<in> set (adb_simulations db)" "approval_bound r2 s a"
    using ok(3) a(1) unfolding list_all_iff approval_ok_def by blast
  have "of_request r (ap_projectId a) (ap_actionRequestId a)" using a(2) \<open>r1 = r\<close> by (simp add: execution_bound_def)
  then have "r2 = r" using same_request [OF keys r r2(1)] r2(3) by (simp add: approval_bound_def)
  have "distinct (map (\<lambda>e. (ex_projectId e, ex_actionRequestId e)) (adb_executions db))"
    using keys by (simp add: action_keys_def)
  then have "filter (\<lambda>x. of_request r (ex_projectId x) (ex_actionRequestId x)) (adb_executions db) = [e]"
    using e by (intro filter_key [where f = "\<lambda>e. (ex_projectId e, ex_actionRequestId e)"]) (auto simp: of_request_def)
  then show ?thesis unfolding approved_mutation_def using m e(1) a r2 \<open>r1 = r\<close> \<open>r2 = r\<close> by blast
qed simp

text \<open>C1. Nothing runs without authority. Whatever sequence of services is called, starting from a
  database without actions, every request that is executing, completed or of unknown outcome is a read
  of the filesystem that the policy allowed, or a mutation whose approval was given for exactly its
  payload and its simulated artifact, with exactly one execution bound to that approval. Relied on:
  callbacks of connectors reach the tables of actions through the repositories only.\<close>

theorem executed_only_as_authorized:
  assumes "no_actions (w_db w)" and "connectors_guarded (ac_registry cfg)"
    and "r \<in> set (adb_requests (w_db (run_action_calls cfg calls w)))"
    and "aq_status r \<in> {AsExecuting, AsCompleted, AsExecutionUnknown}"
  shows "allowed_read r \<or> approved_mutation (w_db (run_action_calls cfg calls w)) r"
proof -
  have "action_reachable (w_db (run_action_calls cfg calls w))"
    using action_steps_reachable [OF run_action_calls_steps [OF assms(2)]] action_reachable.empty [OF assms(1)] by blast
  then show ?thesis using executed_request [OF action_reachable_inv] assms(3,4) by blast
qed

section \<open>A sample run\<close>

text \<open>
  A filesystem connector of version 2 with one mutation, that simulates and then carries it out; an
  agent, its role, a resource and a grant for them.
\<close>

definition sample_write :: operation_descriptor where
  "sample_write = \<lparr>od_operation = ''filesystem.write'', od_mode = MutationMode, od_riskLevel = RiskHigh,
     od_supportsSimulation = True, od_supportsExecution = True, od_requiresApproval = True\<rparr>"

definition sample_connector :: "mutation_outcome \<Rightarrow> 'w connector_definition" where
  "sample_connector reported = \<lparr>
     df_descriptor = \<lparr>cn_id = ''filesystem'', cn_version = ''2'', cn_supportedResourceTypes = [FilesystemScope],
       cn_operations = [sample_write]\<rparr>,
     df_combineAndValidate = (\<lambda>operation arguments constraints conf.
       ok \<lparr>cr_ok = True, cr_effectiveConstraints = empty_object, cr_reasons = []\<rparr>),
     df_handlerConnector = ''filesystem'', df_normalizeArguments = (\<lambda>operation j. ok j), df_normalizeConstraints = ok,
     df_prepareResource = (\<lambda>t ref j. returnM (ref, j)),
     df_invoke = Some (\<lambda>iv w. (Inr (SimulationResult ''-a +b'' []), w)),
     df_executeMutation = Some (\<lambda>iv ps w. (reported, w))\<rparr>"

definition sample_config :: "mutation_outcome \<Rightarrow> 'w action_config" where
  "sample_config reported = \<lparr>
     ac_services = \<lparr>sv_id = (\<lambda>n. ''id'' @ replicate n CHR ''x''), sv_now = (\<lambda>n. At (5 + int n))\<rparr>,
     ac_sha256 = (\<lambda>s. replicate 64 CHR ''a''), ac_num_str = (\<lambda>q. ''1''),
     ac_registry = [(''filesystem'', sample_connector reported)], ac_pipeline = False, ac_runtime = False\<rparr>"

definition sample_db :: action_db where
  "sample_db = \<lparr>db_projects = [''p''], db_tasks = [], db_dependencies = [], db_executed = [], db_audit = [],
     adb_roles = [(''writer'', ''p'')],
     adb_agents = [\<lparr>ag_id = ''agent'', ag_projectId = ''p'', ag_roleId = ''writer'', ag_enabled = True\<rparr>],
     adb_runs = [], adb_pipelines = [],
     adb_resources = [\<lparr>rc_id = ''r'', rc_projectId = ''p'', rc_type = FilesystemScope, rc_provider = ''filesystem'',
       rc_configuration = empty_object, rc_status = ResourceActive, rs_externalRef = Some ''/w'', rs_displayName = ''w'',
       rs_createdAt = At 1, rs_updatedAt = At 1\<rparr>],
     adb_grants = [\<lparr>cg_id = ''g'', cg_projectId = ''p'', cg_principalType = PrincipalRole, cg_principalId = ''writer'',
       cg_resourceId = ''r'', cg_actions = [''filesystem.write''], cg_constraints = empty_object, cg_validFrom = At 1,
       cg_expiresAt = None, cg_revokedAt = None, gr_grantedBy = ''user'', gr_reason = ''work'', gr_createdAt = At 1\<rparr>],
     adb_requests = [], adb_simulations = [], adb_approvals = [], adb_executions = []\<rparr>"

definition sample_input :: action_input where
  "sample_input = \<lparr>in_projectId = ''p'', in_agentId = ''agent'', in_resourceId = ''r'', in_operation = ''filesystem.write'',
     in_arguments = empty_object, in_agentRunId = None, in_pipelineRunId = None\<rparr>"

definition sample_world :: "action_db world" where
  "sample_world = \<lparr>w_db = sample_db, w_active = False, w_ids = 0, w_clock = 0\<rparr>"

definition sample_calls :: "action_call list" where
  "sample_calls = [CallInvoke (Inr sample_input), CallDecide ''p'' ''id'' ''user'' True]"

text \<open>The action is requested, simulated and approved; then it is executed.\<close>

definition sample_config_ok :: "'w action_config" where
  "sample_config_ok = sample_config (MutationReturned \<lparr>mr_resultHash = None, mr_relativePath = Some ''f'',
     mr_destinationPath = None, mr_byteLength = Some 2\<rparr>)"

definition sample_run :: bool where
  "sample_run \<longleftrightarrow> (case ExecuteControlledAction sample_config_ok ''p'' ''id'' (run_action_calls sample_config_ok sample_calls sample_world) of
     (Inr x, w) \<Rightarrow> xa_status x = ExCompleted \<and> map aq_status (adb_requests (w_db w)) = [AsCompleted]
   | _ \<Rightarrow> False)"

lemma sample_run_ok: sample_run
  by code_simp

lemma sample_guarded: "connectors_guarded (ac_registry sample_config_ok)"
  by (auto simp: connectors_guarded_def connector_guarded_def sample_config_ok_def sample_config_def sample_connector_def
      intro: keeps_rules)

lemma sample_executed:
  obtains x w where "ExecuteControlledAction sample_config_ok ''p'' ''id'' (run_action_calls sample_config_ok sample_calls sample_world) = (ok x, w)"
    and "xa_status x = ExCompleted" and "map aq_status (adb_requests (w_db w)) = [AsCompleted]"
  using sample_run_ok unfolding sample_run_def by (auto split: prod.splits sum.splits)

lemma sample_leased:
  obtains lease w1 where "acquireLease sample_config_ok ''p'' ''id'' (run_action_calls sample_config_ok sample_calls sample_world) = (ok lease, w1)"
proof -
  obtain x w where "ExecuteControlledAction sample_config_ok ''p'' ''id'' (run_action_calls sample_config_ok sample_calls sample_world) = (ok x, w)"
    by (rule sample_executed)
  then show thesis using that by (auto simp: ExecuteControlledAction_def result_simps)
qed

lemma sample_start: "no_actions (w_db sample_world)"
  by (simp add: no_actions_def sample_world_def sample_db_def)

lemma sample_reachable: "action_reachable (w_db (run_action_calls sample_config_ok sample_calls sample_world))"
  using action_steps_reachable [OF run_action_calls_steps [OF sample_guarded]] action_reachable.empty [OF sample_start] by blast

abbreviation sample_approved :: "action_db world" where
  "sample_approved \<equiv> run_action_calls sample_config_ok sample_calls sample_world"

theorem action_leased_once_witness:
  "\<exists>lease w1. acquireLease sample_config_ok ''p'' ''id'' sample_approved = (ok lease, w1)
     \<and> acquireLease sample_config_ok ''p'' ''id'' w1 \<noteq> (ok lease, w1)"
proof -
  obtain lease w1 where l: "acquireLease sample_config_ok ''p'' ''id'' sample_approved = (ok lease, w1)"
    by (rule sample_leased)
  with action_leased_once [OF l rtranclp.rtrancl_refl] show ?thesis by blast
qed

theorem execution_outcome_truthful_witness:
  "\<exists>x w'. ExecuteControlledAction sample_config_ok ''p'' ''id'' sample_approved = (ok x, w') \<and> xa_status x = ExCompleted
     \<and> (\<exists>r \<in> set (adb_requests (w_db w')). aq_id r = ''id'' \<and> aq_status r = AsCompleted)"
proof -
  obtain x w where x: "ExecuteControlledAction sample_config_ok ''p'' ''id'' sample_approved = (ok x, w)" "xa_status x = ExCompleted"
    by (rule sample_executed)
  show ?thesis using execution_outcome_truthful [OF sample_guarded sample_reachable x(1)] x by auto
qed

theorem lease_needs_approval_witness:
  "\<exists>a. findApprovalByAction (w_db sample_approved) ''id'' ''p'' = ok (Some a) \<and> ap_status a = ApApproved"
proof -
  obtain lease w1 where l: "acquireLease sample_config_ok ''p'' ''id'' sample_approved = (ok lease, w1)"
    by (rule sample_leased)
  from lease_needs_approval [OF l] show ?thesis by blast
qed

theorem executed_only_as_authorized_witness:
  "\<exists>r. aq_status r = AsCompleted \<and> (allowed_read r
     \<or> approved_mutation (w_db (run_action_calls sample_config_ok (sample_calls @ [CallExecute ''p'' ''id'']) sample_world)) r)"
proof -
  let ?w = "run_action_calls sample_config_ok (sample_calls @ [CallExecute ''p'' ''id'']) sample_world"
  obtain x w where x: "ExecuteControlledAction sample_config_ok ''p'' ''id'' sample_approved = (ok x, w)"
    and w: "map aq_status (adb_requests (w_db w)) = [AsCompleted]"
    by (rule sample_executed)
  have "?w = w" using x by (simp add: run_action_calls_def)
  then obtain r where r: "r \<in> set (adb_requests (w_db ?w))" "aq_status r = AsCompleted" using w by auto
  then show ?thesis using executed_only_as_authorized [OF sample_start sample_guarded r(1)] by blast
qed

end
