(* ===== verification/Project_Handover.thy ===== *)
theory Project_Handover
  imports Canonical_Json "HOL-Library.Sublist"
begin

text \<open>
  The assessment of a project handover, \<open>packages/domain/src/project/project-handover.ts\<close>: six
  dimensions with coarse states, the overall state, the recommended actions and the suggested
  prompts, and the fingerprint of the repository facts that a confirmed review refers to. The
  function is pure; counts are natural numbers. Project profiles, \<open>project-profile.ts\<close>, give the
  facts (\<open>project-lifecycle/repository-understanding.ts\<close>).
\<close>

section \<open>The model\<close>

datatype dimension_id =
    ProjectConnection | RepositoryUnderstanding | AgentClients | ProductDirection | DeliveryPlan | WorkingAgreement

datatype dimension_state = DsUnknown | DsNotStarted | DsDiscovered | DsNeedsInput | DsReady

datatype handover_state = HsUnknown | HsNotConnected | HsNotImported | HsNeedsHandover | HsInProgress | HsReady

datatype repository_maturity = MaturityNew | MaturityExisting | MaturityUnknown

datatype review_state = NotReviewed | ReviewStale | ReviewCurrent

datatype action_kind = Conversational | CommandAction

datatype action_priority = HighPriority | MediumPriority | LowPriority

record recommended_action =
  ra_id :: string
  ra_kind :: action_kind
  ra_priority :: action_priority
  ra_title :: string
  ra_reason :: string
  ra_command :: "string option"
  ra_prompt :: "string option"

record handover_dimension =
  hd_id :: dimension_id
  hd_title :: string
  hd_state :: dimension_state
  hd_detail :: string

record repository_signals =
  sg_languageCount :: nat
  sg_frameworkCount :: nat
  sg_documentationCount :: nat
  sg_sourceFileCount :: "nat option"
  sg_hasCommitHistory :: "bool option"

record repository_facts =
  rf_languages :: "string list"
  rf_frameworks :: "string list"
  rf_databases :: "string list"
  rf_testing :: "string list"
  rf_documentation :: "string list"
  rf_packageManager :: "string option"
  rf_remoteUrl :: "string option"
  rf_sourceFileCount :: "nat option"
  rf_hasCommitHistory :: "bool option"

record open_questions =
  oq_blocking :: nat
  oq_advisory :: nat

record handover_knowledge =
  hk_repositoryScanned :: bool
  hk_repositorySignals :: repository_signals
  hk_repositoryReview :: review_state
  hk_officeConfigured :: bool
  hk_goalCount :: nat
  hk_constraintCount :: nat
  hk_preferenceCount :: nat
  hk_milestoneTotal :: nat
  hk_activeMilestones :: nat
  hk_requirementTotal :: nat
  hk_tasksOpen :: nat
  hk_tasksInProgress :: nat
  hk_openQuestions :: open_questions

record handover_client =
  hc_detected :: bool
  hc_configured :: bool

datatype identity_state = IdentityMissing | IdentityInvalid | IdentityLegacy | IdentityValid

datatype association_state =
    AssociationMissing | AssociationUnverified | AssociationConflicting | AssociationProjectMissing | AssociationValid

fun association_str :: "association_state \<Rightarrow> string" where
  "association_str AssociationMissing = ''missing''"
| "association_str AssociationUnverified = ''unverified''"
| "association_str AssociationConflicting = ''conflicting''"
| "association_str AssociationProjectMissing = ''project_missing''"
| "association_str AssociationValid = ''valid''"

record handover_connection =
  cx_daemonReachable :: bool
  cx_repositoryIdentity :: identity_state
  cx_runtimeAssociation :: association_state
  cx_authoritativeStateAvailable :: bool
  cx_officeManifestPresent :: bool
  cx_blockingIssueCount :: nat
  cx_clients :: "handover_client list"

record handover_assessment =
  ha_state :: handover_state
  ha_repository :: repository_maturity
  ha_openQuestions :: open_questions
  ha_dimensions :: "handover_dimension list"
  ha_recommendedActions :: "recommended_action list"
  ha_suggestedPrompts :: "string list"

definition maximumRecommendedActions :: nat where
  "maximumRecommendedActions = 4"

definition maximumSuggestedPrompts :: nat where
  "maximumSuggestedPrompts = 4"

definition noOpenQuestions :: open_questions where
  "noOpenQuestions = \<lparr>oq_blocking = 0, oq_advisory = 0\<rparr>"

fun priorityOrder :: "action_priority \<Rightarrow> nat" where
  "priorityOrder HighPriority = 0"
| "priorityOrder MediumPriority = 1"
| "priorityOrder LowPriority = 2"

definition handoverPrompt :: string where
  "handoverPrompt = ''Take this project in charge. Review the repository and the current AI Office state, then help me complete the project handover.''"

definition reviewPrompt :: string where
  "reviewPrompt = ''Review this repository against what AI Office already knows, show me the result, and record the confirmed handover review.''"

subsection \<open>The fingerprint of the repository facts\<close>

definition repositoryScaleBucket :: "nat option \<Rightarrow> string" where
  "repositoryScaleBucket number = (case number of
     None \<Rightarrow> ''unrecorded''
   | Some n \<Rightarrow>
       if n = 0 then ''none''
       else if n < 10 then ''tiny''
       else if n < 25 then ''small''
       else if n < 100 then ''medium''
       else if n < 500 then ''large''
       else ''very_large'')"

definition officeManagedDocumentationFiles :: "string list" where
  "officeManagedDocumentationFiles = [''AI-OFFICE.md'', ''AGENTS.md'', ''CLAUDE.md'', ''CODEX.md'']"

definition repositoryDocumentation :: "string list \<Rightarrow> string list" where
  "repositoryDocumentation files = filter (\<lambda>f. f \<notin> set officeManagedDocumentationFiles) files"

definition factList :: "string list \<Rightarrow> string" where
  "factList values = join '','' (sort values)"

definition nullable :: "string option \<Rightarrow> string" where
  "nullable v = (case v of None \<Rightarrow> [] | Some s \<Rightarrow> s)"

definition repositoryUnderstandingFingerprintSource :: "repository_facts \<Rightarrow> string" where
  "repositoryUnderstandingFingerprintSource facts = join [CHR 0x0A]
     [''repository-understanding-v1'',
      ''languages='' @ factList (rf_languages facts),
      ''frameworks='' @ factList (rf_frameworks facts),
      ''databases='' @ factList (rf_databases facts),
      ''testing='' @ factList (rf_testing facts),
      ''documentation='' @ factList (rf_documentation facts),
      ''packageManager='' @ nullable (rf_packageManager facts),
      ''remote='' @ nullable (rf_remoteUrl facts),
      ''scale='' @ repositoryScaleBucket (rf_sourceFileCount facts),
      ''history='' @ (case rf_hasCommitHistory facts of None \<Rightarrow> ''unrecorded''
        | Some b \<Rightarrow> if b then ''true'' else ''false'')]"

definition classifyRepositoryMaturity :: "repository_signals \<Rightarrow> repository_maturity" where
  "classifyRepositoryMaturity signals = (case sg_sourceFileCount signals of
     None \<Rightarrow> MaturityUnknown
   | Some sourceFiles \<Rightarrow>
       if 25 \<le> sourceFiles then MaturityExisting
       else if 8 \<le> sourceFiles \<and> sg_hasCommitHistory signals = Some True \<and> 2 \<le> sg_documentationCount signals
       then MaturityExisting else MaturityNew)"

subsection \<open>The dimensions\<close>

definition dimension :: "dimension_id \<Rightarrow> string \<Rightarrow> dimension_state \<Rightarrow> string \<Rightarrow> handover_dimension" where
  "dimension i title state detail = \<lparr>hd_id = i, hd_title = title, hd_state = state, hd_detail = detail\<rparr>"

definition unknownDimensions :: "string \<Rightarrow> handover_dimension list" where
  "unknownDimensions detail =
     [dimension ProjectConnection ''Project connection'' DsUnknown detail,
      dimension RepositoryUnderstanding ''Repository understanding'' DsUnknown detail,
      dimension AgentClients ''Agent clients'' DsUnknown detail,
      dimension ProductDirection ''Product direction'' DsUnknown detail,
      dimension DeliveryPlan ''Delivery plan'' DsUnknown detail,
      dimension WorkingAgreement ''Working agreement'' DsUnknown detail]"

definition connectionDimension :: "handover_connection \<Rightarrow> handover_dimension" where
  "connectionDimension connection =
     (if cx_repositoryIdentity connection = IdentityInvalid
      then dimension ProjectConnection ''Project connection'' DsNeedsInput
        ''The repository identity file is invalid and must be repaired explicitly''
      else if cx_repositoryIdentity connection = IdentityMissing
      then dimension ProjectConnection ''Project connection'' DsNotStarted
        ''This repository is not connected to an AI Office project''
      else if cx_runtimeAssociation connection \<noteq> AssociationValid
      then dimension ProjectConnection ''Project connection'' DsNeedsInput
        (''The runtime association is '' @ association_str (cx_runtimeAssociation connection))
      else if \<not> cx_officeManifestPresent connection
      then dimension ProjectConnection ''Project connection'' DsDiscovered
        ''The project is connected but no office manifest is configured''
      else dimension ProjectConnection ''Project connection'' DsReady
        (if cx_repositoryIdentity connection = IdentityLegacy
         then ''Connected through a legacy repository identity''
         else ''Repository identity and runtime association are valid''))"

definition clientsDimension :: "handover_connection \<Rightarrow> handover_dimension" where
  "clientsDimension connection =
     (let configured = length (filter hc_configured (cx_clients connection));
          detected = length (filter hc_detected (cx_clients connection)) in
      if length (cx_clients connection) = 0
      then dimension AgentClients ''Agent clients'' DsUnknown ''Agent client integration was not inspected''
      else if configured > 0
      then dimension AgentClients ''Agent clients'' DsReady
        (nat_str configured @ '' configured agent client'' @ (if configured = 1 then [] else ''s''))
      else if detected > 0
      then dimension AgentClients ''Agent clients'' DsNeedsInput
        ''A supported agent client is installed but not configured for this repository''
      else dimension AgentClients ''Agent clients'' DsNotStarted ''No supported agent client was detected'')"

definition discoveredEvidence :: "repository_signals \<Rightarrow> string" where
  "discoveredEvidence signals =
     nat_str (sg_languageCount signals) @ '' language(s), '' @ nat_str (sg_frameworkCount signals) @ '' framework(s), ''
     @ nat_str (sg_documentationCount signals) @ '' documentation file(s), ''
     @ (case sg_sourceFileCount signals of None \<Rightarrow> ''source files not recorded'' | Some n \<Rightarrow> nat_str n @ '' source file(s)'')"

definition understandingDimension :: "handover_knowledge \<Rightarrow> handover_dimension" where
  "understandingDimension knowledge =
     (let evidence = discoveredEvidence (hk_repositorySignals knowledge);
          result = dimension RepositoryUnderstanding ''Repository understanding'' in
      if \<not> hk_repositoryScanned knowledge
      then result DsNotStarted ''This repository has not been scanned into the project profile''
      else if hk_repositoryReview knowledge = NotReviewed
      then result DsDiscovered (''Discovered '' @ evidence @ ''; no confirmed handover repository review is recorded'')
      else if hk_repositoryReview knowledge = ReviewStale
      then result DsNeedsInput (''Discovered '' @ evidence @ ''; the repository changed materially since the confirmed review'')
      else result DsReady (''Reviewed and confirmed against the current repository evidence: '' @ evidence))"

definition directionDimension :: "handover_knowledge \<Rightarrow> handover_dimension" where
  "directionDimension knowledge =
     (let result = dimension ProductDirection ''Product direction'' in
      if \<not> hk_repositoryScanned knowledge then result DsNotStarted ''No project evidence has been collected yet''
      else if \<not> hk_officeConfigured knowledge
      then result DsNeedsInput ''The office still uses the default baseline; its mission and goals are not yours yet''
      else if hk_goalCount knowledge = 0 then result DsNeedsInput ''The approved office records no product goal''
      else result DsReady (''The approved office records '' @ nat_str (hk_goalCount knowledge) @ '' goal''
        @ (if hk_goalCount knowledge = 1 then [] else ''s'')))"

definition deliveryDimension :: "handover_knowledge \<Rightarrow> handover_dimension" where
  "deliveryDimension knowledge =
     (let result = dimension DeliveryPlan ''Delivery plan'' in
      if hk_activeMilestones knowledge > 0
      then result DsReady (nat_str (hk_activeMilestones knowledge) @ '' active milestone''
        @ (if hk_activeMilestones knowledge = 1 then [] else ''s'') @ '', ''
        @ nat_str (hk_requirementTotal knowledge) @ '' requirement(s)'')
      else if hk_milestoneTotal knowledge > 0
      then result DsDiscovered (nat_str (hk_milestoneTotal knowledge) @ '' milestone(s) recorded, none active'')
      else if hk_officeConfigured knowledge
      then result DsNeedsInput ''No milestone has been proposed for this project''
      else result DsNotStarted ''Delivery planning starts after the office is configured'')"

definition agreementDimension :: "handover_knowledge \<Rightarrow> handover_dimension" where
  "agreementDimension knowledge =
     (let result = dimension WorkingAgreement ''Working agreement'';
          detail = ''The approved office records '' @ nat_str (hk_constraintCount knowledge) @ '' constraint(s) and ''
            @ nat_str (hk_preferenceCount knowledge) @ '' preference(s)'' in
      if \<not> hk_officeConfigured knowledge
      then result DsNotStarted ''Constraints and preferences still come from the default baseline''
      else if hk_constraintCount knowledge + hk_preferenceCount knowledge = 0 then result DsNeedsInput detail
      else result DsReady detail)"

text \<open>\<open>new Map(dimensions.map(...)).get(id)\<close>\<close>

definition dimension_of :: "handover_dimension list \<Rightarrow> dimension_id \<Rightarrow> handover_dimension option" where
  "dimension_of dimensions = js_map (map (\<lambda>item. (hd_id item, item)) dimensions)"

definition state_of :: "handover_dimension list \<Rightarrow> dimension_id \<Rightarrow> dimension_state option" where
  "state_of dimensions i = map_option hd_state (dimension_of dimensions i)"

definition overallState :: "handover_dimension list \<Rightarrow> handover_knowledge \<Rightarrow> handover_state" where
  "overallState dimensions knowledge =
     (if state_of dimensions ProjectConnection \<in> {Some DsNotStarted, Some DsNeedsInput} then HsNotConnected
      else if state_of dimensions RepositoryUnderstanding = Some DsNotStarted then HsNotImported
      else if state_of dimensions ProductDirection \<noteq> Some DsReady then HsNeedsHandover
      else if list_ex (\<lambda>item. hd_state item \<noteq> DsReady) dimensions \<or> oq_blocking (hk_openQuestions knowledge) > 0
      then HsInProgress else HsReady)"

subsection \<open>Recommended actions\<close>

text \<open>The loop that keeps the first action of each identifier, and the stable sort by priority.\<close>

fun unique_actions :: "string list \<Rightarrow> recommended_action list \<Rightarrow> recommended_action list" where
  "unique_actions seen [] = []"
| "unique_actions seen (a # rest) =
     (if ra_id a \<in> set seen then unique_actions seen rest else a # unique_actions (ra_id a # seen) rest)"

definition orderedActions :: "recommended_action list \<Rightarrow> recommended_action list" where
  "orderedActions actions =
     take maximumRecommendedActions (sort_key (\<lambda>a. priorityOrder (ra_priority a)) (unique_actions [] actions))"

definition command_action :: "string \<Rightarrow> action_priority \<Rightarrow> string \<Rightarrow> string \<Rightarrow> string \<Rightarrow> recommended_action" where
  "command_action i priority title reason command_text = \<lparr>ra_id = i, ra_kind = CommandAction, ra_priority = priority,
     ra_title = title, ra_reason = reason, ra_command = Some command_text, ra_prompt = None\<rparr>"

definition conversation :: "string \<Rightarrow> action_priority \<Rightarrow> string \<Rightarrow> string \<Rightarrow> string \<Rightarrow> recommended_action" where
  "conversation i priority title reason prompt = \<lparr>ra_id = i, ra_kind = Conversational, ra_priority = priority,
     ra_title = title, ra_reason = reason, ra_command = None, ra_prompt = Some prompt\<rparr>"

definition unavailableAssessment :: handover_assessment where
  "unavailableAssessment =
     (let detail = ''The AI Office runtime is unreachable, so the handover state cannot be read'' in
      \<lparr>ha_state = HsUnknown, ha_repository = MaturityUnknown, ha_openQuestions = noOpenQuestions,
       ha_dimensions = unknownDimensions detail,
       ha_recommendedActions = [command_action ''start_runtime'' HighPriority ''Start the AI Office runtime'' detail
         ''ai-office daemon''],
       ha_suggestedPrompts = [''Start the AI Office runtime and tell me what this project still needs.'']\<rparr>)"

definition notConnectedAssessment :: "handover_connection \<Rightarrow> handover_dimension \<Rightarrow> handover_assessment" where
  "notConnectedAssessment connection connectionState =
     (let invalid = cx_repositoryIdentity connection = IdentityInvalid;
          nothing = ''AI Office holds no management state for this repository'' in
      \<lparr>ha_state = HsNotConnected, ha_repository = MaturityUnknown, ha_openQuestions = noOpenQuestions,
       ha_dimensions =
         [connectionState,
          dimension RepositoryUnderstanding ''Repository understanding'' DsNotStarted ''AI Office has not scanned this repository'',
          clientsDimension connection,
          dimension ProductDirection ''Product direction'' DsNotStarted nothing,
          dimension DeliveryPlan ''Delivery plan'' DsNotStarted nothing,
          dimension WorkingAgreement ''Working agreement'' DsNotStarted nothing],
       ha_recommendedActions =
         [command_action (if invalid then ''repair_project_connection'' else ''install_project'') HighPriority
            (if invalid then ''Repair the repository identity'' else ''Connect this repository to AI Office'')
            (hd_detail connectionState) (if invalid then ''ai-office status'' else ''ai-office install .'')],
       ha_suggestedPrompts = [''Set up AI Office for this repository and explain what it will manage.'']\<rparr>)"

definition when_action :: "bool \<Rightarrow> recommended_action \<Rightarrow> recommended_action list" where
  "when_action condition a = (if condition then [a] else [])"

definition detail_of :: "handover_dimension list \<Rightarrow> dimension_id \<Rightarrow> string" where
  "detail_of dimensions i = hd_detail (the (dimension_of dimensions i))"

text \<open>The one action that the stage of the handover asks for.\<close>

definition handover_step ::
  "handover_knowledge \<Rightarrow> handover_dimension list \<Rightarrow> handover_state \<Rightarrow> repository_maturity \<Rightarrow> recommended_action list" where
  "handover_step knowledge dimensions state repository =
     (if state = HsNotImported
      then [command_action ''import_repository'' HighPriority ''Import this repository into AI Office''
        ''No repository scan has been recorded for this project'' ''ai-office project:import .'']
      else if state = HsNeedsHandover
      then [conversation ''complete_project_handover'' HighPriority ''Hand this project over to your virtual office''
        (if repository = MaturityExisting
         then ''AI Office scanned an existing codebase but has neither a confirmed repository review nor approved product context for it''
         else ''AI Office has no approved product context for this project'') handoverPrompt]
      else if hk_repositoryReview knowledge = NotReviewed
      then [conversation ''confirm_repository_review'' HighPriority ''Confirm the handover repository review''
        ''The office holds an approved organizational model but no confirmed review of this repository'' reviewPrompt]
      else if hk_repositoryReview knowledge = ReviewStale
      then [conversation ''review_repository_changes'' HighPriority ''Review the repository changes since the last handover''
        (detail_of dimensions RepositoryUnderstanding)
        ''The repository changed since the last handover review. Compare it with the AI Office state and confirm the updated review.'']
      else [])"

text \<open>The actions in the order the code pushes them.\<close>

definition candidate_actions ::
  "handover_connection \<Rightarrow> handover_knowledge \<Rightarrow> handover_dimension list \<Rightarrow> handover_state \<Rightarrow> repository_maturity
     \<Rightarrow> recommended_action list" where
  "candidate_actions connection knowledge dimensions state repository =
     (let blocking = oq_blocking (hk_openQuestions knowledge) in
      when_action (cx_blockingIssueCount connection > 0)
        (command_action ''resolve_lifecycle_issues'' HighPriority ''Resolve the reported lifecycle issues''
          (nat_str (cx_blockingIssueCount connection) @ '' blocking issue(s) are reported by status'') ''ai-office status'')
      @ handover_step knowledge dimensions state repository
      @ when_action (blocking > 0)
        (conversation ''answer_open_questions'' HighPriority
          (''Complete '' @ nat_str blocking @ '' remaining project question(s)'')
          ''Open goal or constraint questions describe context the handover still needs''
          ''Show me the open AI Office project questions and help me answer the ones that matter.'')
      @ when_action (hk_tasksOpen knowledge > 0)
        (command_action ''review_active_work'' (if state = HsReady then HighPriority else MediumPriority)
          (if hk_tasksInProgress knowledge > 0 then ''Review '' @ nat_str (hk_tasksInProgress knowledge) @ '' task(s) in progress''
           else ''Review '' @ nat_str (hk_tasksOpen knowledge) @ '' open task(s)'')
          ''Work the office already tracks should be reviewed before new work starts'' ''ai-office task:list'')
      @ when_action (state_of dimensions DeliveryPlan = Some DsNeedsInput)
        (conversation ''plan_next_milestone'' MediumPriority ''Propose the next milestone'' (detail_of dimensions DeliveryPlan)
          ''Assess this project with AI Office and propose the next milestone and its requirements before we start work.'')
      @ when_action (state_of dimensions DeliveryPlan = Some DsDiscovered)
        (conversation ''activate_milestone'' MediumPriority ''Activate a milestone'' (detail_of dimensions DeliveryPlan)
          ''Show me the recorded milestones and help me decide which one the office should work on next.'')
      @ when_action (state_of dimensions WorkingAgreement = Some DsNeedsInput)
        (conversation ''record_working_agreement'' MediumPriority ''Record how the office should work on this project''
          (detail_of dimensions WorkingAgreement)
          ''Help me record the constraints and working preferences the office must respect in this project.'')
      @ when_action (state = HsReady)
        (conversation ''start_next_work'' MediumPriority ''Describe what you want to achieve next''
          ''The office is ready to assess and plan new work''
          ''Here is what I want to build next. Let the office assess it against the current roadmap before we start.'')
      @ when_action (state_of dimensions AgentClients = Some DsNeedsInput)
        (command_action ''reconcile_agent_clients'' LowPriority ''Configure the detected agent client''
          (detail_of dimensions AgentClients) ''ai-office install .''))"

definition recommendedActions ::
  "handover_connection \<Rightarrow> handover_knowledge \<Rightarrow> handover_dimension list \<Rightarrow> handover_state \<Rightarrow> repository_maturity
     \<Rightarrow> recommended_action list" where
  "recommendedActions connection knowledge dimensions state repository =
     orderedActions (candidate_actions connection knowledge dimensions state repository)"

definition suggestedPrompts :: "handover_state \<Rightarrow> handover_knowledge \<Rightarrow> string list" where
  "suggestedPrompts state knowledge = take maximumSuggestedPrompts
     ((if state = HsNotImported \<or> state = HsNeedsHandover then [handoverPrompt] else [])
      @ (if state = HsInProgress then [''Continue the project handover: tell me what AI Office still needs from me.''] else [])
      @ [''Review the current project and tell me what the office thinks we should do next.'',
         ''Show me the current roadmap, milestones and active work.'']
      @ (if hk_tasksOpen knowledge > 0
         then [''Summarize the work already tracked by the office and whether it still matches the roadmap.'']
         else [''I want to implement a new capability. Let the office assess it before starting.'']))"

definition management_dimensions :: "handover_connection \<Rightarrow> handover_knowledge \<Rightarrow> handover_dimension list" where
  "management_dimensions connection knowledge =
     [connectionDimension connection, understandingDimension knowledge, clientsDimension connection,
      directionDimension knowledge, deliveryDimension knowledge, agreementDimension knowledge]"

definition assessProjectHandover :: "handover_connection \<Rightarrow> handover_knowledge option \<Rightarrow> handover_assessment" where
  "assessProjectHandover connection known =
     (let connectionState = connectionDimension connection in
      if cx_repositoryIdentity connection = IdentityMissing \<or> cx_repositoryIdentity connection = IdentityInvalid
      then notConnectedAssessment connection connectionState
      else if \<not> cx_daemonReachable connection then unavailableAssessment
      else case (cx_authoritativeStateAvailable connection, known) of
        (True, Some knowledge) \<Rightarrow>
          let dimensions = management_dimensions connection knowledge;
              state = overallState dimensions knowledge;
              repository = (if hk_repositoryScanned knowledge
                then classifyRepositoryMaturity (hk_repositorySignals knowledge) else MaturityUnknown);
              actions = recommendedActions connection knowledge dimensions state repository;
              shown = List.map_filter ra_prompt actions in
          \<lparr>ha_state = state, ha_repository = repository, ha_openQuestions = hk_openQuestions knowledge,
           ha_dimensions = dimensions, ha_recommendedActions = actions,
           ha_suggestedPrompts = filter (\<lambda>prompt. prompt \<notin> set shown) (suggestedPrompts state knowledge)\<rparr>
      | _ \<Rightarrow> notConnectedAssessment connection connectionState)"

section \<open>Lemmas: the dimensions\<close>

lemma hd_dimension [simp]:
  "hd_id (dimension i t s d) = i" "hd_state (dimension i t s d) = s" "hd_detail (dimension i t s d) = d"
  by (simp_all add: dimension_def)

lemma dimension_ids [simp]:
  "hd_id (connectionDimension c) = ProjectConnection" "hd_id (clientsDimension c) = AgentClients"
  "hd_id (understandingDimension k) = RepositoryUnderstanding" "hd_id (directionDimension k) = ProductDirection"
  "hd_id (deliveryDimension k) = DeliveryPlan" "hd_id (agreementDimension k) = WorkingAgreement"
  by (simp_all add: connectionDimension_def clientsDimension_def understandingDimension_def directionDimension_def
      deliveryDimension_def agreementDimension_def Let_def)

lemma dimension_of_management:
  "dimension_of (management_dimensions c k) i = Some (case i of
     ProjectConnection \<Rightarrow> connectionDimension c | RepositoryUnderstanding \<Rightarrow> understandingDimension k
   | AgentClients \<Rightarrow> clientsDimension c | ProductDirection \<Rightarrow> directionDimension k
   | DeliveryPlan \<Rightarrow> deliveryDimension k | WorkingAgreement \<Rightarrow> agreementDimension k)"
  by (cases i) (simp_all add: dimension_of_def js_map_def management_dimensions_def)

lemma management_set: "set (management_dimensions c k) = {connectionDimension c, understandingDimension k, clientsDimension c,
    directionDimension k, deliveryDimension k, agreementDimension k}"
  by (simp add: management_dimensions_def)

lemma connection_ready: "hd_state (connectionDimension c) = DsReady \<longleftrightarrow>
    cx_repositoryIdentity c \<in> {IdentityValid, IdentityLegacy} \<and> cx_runtimeAssociation c = AssociationValid \<and> cx_officeManifestPresent c"
  by (cases "cx_repositoryIdentity c") (auto simp: connectionDimension_def)

lemma understanding_ready: "hd_state (understandingDimension k) = DsReady \<longleftrightarrow>
    hk_repositoryScanned k \<and> hk_repositoryReview k = ReviewCurrent"
  by (cases "hk_repositoryReview k") (auto simp: understandingDimension_def Let_def)

lemma clients_ready: "hd_state (clientsDimension c) = DsReady \<longleftrightarrow> (\<exists>x \<in> set (cx_clients c). hc_configured x)"
  by (auto simp: clientsDimension_def Let_def filter_empty_conv)

lemma direction_ready: "hd_state (directionDimension k) = DsReady \<longleftrightarrow>
    hk_repositoryScanned k \<and> hk_officeConfigured k \<and> hk_goalCount k > 0"
  by (auto simp: directionDimension_def Let_def)

lemma delivery_ready: "hd_state (deliveryDimension k) = DsReady \<longleftrightarrow> hk_activeMilestones k > 0"
  by (auto simp: deliveryDimension_def Let_def)

lemma agreement_ready: "hd_state (agreementDimension k) = DsReady \<longleftrightarrow>
    hk_officeConfigured k \<and> hk_constraintCount k + hk_preferenceCount k > 0"
  by (auto simp: agreementDimension_def Let_def)

lemmas dimension_ready = connection_ready understanding_ready clients_ready direction_ready delivery_ready agreement_ready

lemma overall_ready: "overallState (management_dimensions c k) k = HsReady \<longleftrightarrow>
    (\<forall>d \<in> set (management_dimensions c k). hd_state d = DsReady) \<and> oq_blocking (hk_openQuestions k) = 0"
proof
  assume r: "overallState (management_dimensions c k) k = HsReady"
  then show "(\<forall>d \<in> set (management_dimensions c k). hd_state d = DsReady) \<and> oq_blocking (hk_openQuestions k) = 0"
    by (auto simp: overallState_def list_ex_iff split: if_splits)
next
  assume "(\<forall>d \<in> set (management_dimensions c k). hd_state d = DsReady) \<and> oq_blocking (hk_openQuestions k) = 0"
  moreover have "state_of (management_dimensions c k) i = Some DsReady" if "\<forall>d \<in> set (management_dimensions c k). hd_state d = DsReady" for i
    using that unfolding state_of_def dimension_of_management management_set by (cases i) simp_all
  ultimately show "overallState (management_dimensions c k) k = HsReady"
    by (auto simp: overallState_def list_ex_iff)
qed

text \<open>C37. Readiness is exact. A project is reported ready if and only if its repository identity and
  runtime association are valid, the runtime answered with authoritative state, an office is configured
  with at least one goal and a constraint or preference, the repository was scanned and its current
  evidence reviewed, a milestone is active, an agent client is configured and no question on goals or
  constraints is open.\<close>

theorem handover_ready_exact:
  "ha_state (assessProjectHandover c known) = HsReady \<longleftrightarrow>
     cx_repositoryIdentity c \<in> {IdentityValid, IdentityLegacy} \<and> cx_runtimeAssociation c = AssociationValid
     \<and> cx_daemonReachable c \<and> cx_authoritativeStateAvailable c \<and> cx_officeManifestPresent c
     \<and> (\<exists>x \<in> set (cx_clients c). hc_configured x)
     \<and> (\<exists>k. known = Some k \<and> hk_repositoryScanned k \<and> hk_repositoryReview k = ReviewCurrent \<and> hk_officeConfigured k
          \<and> hk_goalCount k > 0 \<and> hk_activeMilestones k > 0 \<and> hk_constraintCount k + hk_preferenceCount k > 0
          \<and> oq_blocking (hk_openQuestions k) = 0)"
proof (cases "cx_repositoryIdentity c \<in> {IdentityValid, IdentityLegacy} \<and> cx_daemonReachable c \<and> cx_authoritativeStateAvailable c \<and> known \<noteq> None")
  case True
  then obtain k where k: "known = Some k" by auto
  have "ha_state (assessProjectHandover c known) = overallState (management_dimensions c k) k"
    using True k by (auto simp: assessProjectHandover_def Let_def)
  then show ?thesis using True k by (auto simp: overall_ready management_set dimension_ready)
next
  case False
  have "ha_state (assessProjectHandover c known) \<noteq> HsReady"
    using False by (cases "cx_repositoryIdentity c"; cases known)
      (auto simp: assessProjectHandover_def Let_def notConnectedAssessment_def unavailableAssessment_def split: bool.splits)
  then show ?thesis using False by auto
qed

section \<open>Lemmas: the recommended actions\<close>

lemma unique_actions_id:
  "distinct (map ra_id as) \<Longrightarrow> set (map ra_id as) \<inter> set seen = {} \<Longrightarrow> unique_actions seen as = as"
  by (induction as arbitrary: seen) auto

lemma unique_actions_distinct: "distinct (map ra_id (unique_actions seen as)) \<and> set (map ra_id (unique_actions seen as)) \<inter> set seen = {}"
  by (induction seen as rule: unique_actions.induct) auto

text \<open>A stable sort puts what has the least key first, in its own order.\<close>

lemma sort_key_least:
  assumes "\<And>x. x \<in> set xs \<Longrightarrow> k \<le> f x"
  shows "sort_key f xs = filter (\<lambda>x. f x = k) xs @ sort_key f (filter (\<lambda>x. f x \<noteq> k) xs)"
  using assms
proof (induction xs)
  case (Cons x xs)
  have front: "insort_key f y (as @ bs) = as @ insort_key f y bs" if "\<forall>a \<in> set as. f a = k" "f y \<noteq> k" "k \<le> f y" for y as bs
    using that by (induction as) auto
  have first: "insort_key f y zs = y # zs" if "f y = k" "\<forall>z \<in> set zs. k \<le> f z" for y zs
    using that by (cases zs) auto
  show ?case
  proof (cases "f x = k")
    case True
    then show ?thesis using Cons first [of x "filter (\<lambda>x. f x = k) xs @ sort_key f (filter (\<lambda>x. f x \<noteq> k) xs)"] by auto
  next
    case False
    then show ?thesis using Cons front [of "filter (\<lambda>x. f x = k) xs" x] by auto
  qed
qed simp

definition is_high :: "recommended_action \<Rightarrow> bool" where
  "is_high a \<longleftrightarrow> ra_priority a = HighPriority"

lemma priority_zero: "priorityOrder p = 0 \<longleftrightarrow> p = HighPriority"
  by (cases p) auto

lemma when_high: "is_high a \<Longrightarrow> length (filter is_high (when_action b a)) \<le> 1"
  by (simp add: when_action_def)

lemma when_not_high: "\<not> is_high a \<Longrightarrow> length (filter is_high (when_action b a)) \<le> 0"
  by (simp add: when_action_def)

lemma when_any: "length (filter is_high (when_action b a)) \<le> 1"
  by (simp add: when_action_def)

lemma step_high: "length (filter is_high (handover_step k ds s r)) \<le> 1"
  by (simp add: handover_step_def)

lemma made_high [simp]:
  "is_high (command_action i p t x y) \<longleftrightarrow> p = HighPriority" "is_high (conversation i p t x y) \<longleftrightarrow> p = HighPriority"
  by (simp_all add: is_high_def command_action_def conversation_def)

lemma few_high: "length (filter is_high (candidate_actions c k ds s r)) \<le> 4"
proof -
  have "length (filter is_high (candidate_actions c k ds s r)) \<le> 1 + (1 + (1 + (1 + (0 + (0 + (0 + (0 + 0)))))))"
    unfolding candidate_actions_def Let_def filter_append length_append
    by (intro add_mono when_any step_high when_not_high) simp_all
  then show ?thesis by simp
qed

text \<open>The identifiers are those of a fixed list without repetitions, some left out.\<close>

lemma subseq_distinct: "subseq xs ys \<Longrightarrow> distinct ys \<Longrightarrow> distinct xs"
  by (induction rule: list_emb.induct) (auto dest: list_emb_set)

lemma subseq_when: "ra_id a = i \<Longrightarrow> subseq (map ra_id (when_action b a)) [i]"
  by (simp add: when_action_def)

lemma made_id [simp]: "ra_id (command_action i p t x y) = i" "ra_id (conversation i p t x y) = i"
  by (simp_all add: command_action_def conversation_def)

lemma subseq_step: "subseq (map ra_id (handover_step k ds s r))
    [''import_repository'', ''complete_project_handover'', ''confirm_repository_review'', ''review_repository_changes'']"
  by (simp add: handover_step_def)

lemma candidate_ids: "distinct (map ra_id (candidate_actions c k ds s r))"
proof -
  have "subseq (map ra_id (candidate_actions c k ds s r))
     ([''resolve_lifecycle_issues''] @ [''import_repository'', ''complete_project_handover'', ''confirm_repository_review'',
       ''review_repository_changes''] @ [''answer_open_questions''] @ [''review_active_work''] @ [''plan_next_milestone'']
       @ [''activate_milestone''] @ [''record_working_agreement''] @ [''start_next_work''] @ [''reconcile_agent_clients''])"
    unfolding candidate_actions_def Let_def map_append
    by (intro list_emb_append_mono subseq_step subseq_when) simp_all
  then show ?thesis by (rule subseq_distinct) simp
qed

lemma blocking_first:
  assumes "cx_blockingIssueCount c > 0"
  shows "\<exists>a rest. candidate_actions c k ds s r = a # rest \<and> is_high a \<and> ra_id a = ''resolve_lifecycle_issues''"
  using assms
  by (simp only: candidate_actions_def Let_def when_action_def if_True append_Cons) (simp add: is_high_def command_action_def)

text \<open>The recommendations are the most urgent ones. At most four actions are recommended, each once, in the
  order of their priority; no action of high priority that the assessment asks for is cut off, and
  blocking issues of the lifecycle come first.\<close>

theorem recommended_actions_urgent_first:
  "length (recommendedActions c k ds s r) \<le> maximumRecommendedActions
   \<and> distinct (map ra_id (recommendedActions c k ds s r))
   \<and> sorted (map (priorityOrder \<circ> ra_priority) (recommendedActions c k ds s r))
   \<and> set (filter is_high (candidate_actions c k ds s r)) \<subseteq> set (recommendedActions c k ds s r)
   \<and> (cx_blockingIssueCount c = 0 \<or> map ra_id (take 1 (recommendedActions c k ds s r)) = [''resolve_lifecycle_issues''])"
proof -
  let ?as = "candidate_actions c k ds s r"
  let ?f = "\<lambda>a. priorityOrder (ra_priority a)"
  let ?high = "filter is_high ?as"
  let ?rest = "sort_key ?f (filter (\<lambda>x. ?f x \<noteq> 0) ?as)"
  have u: "unique_actions [] ?as = ?as" using candidate_ids by (intro unique_actions_id) auto
  have sorted: "sort_key ?f ?as = ?high @ ?rest"
    using sort_key_least [of ?as 0 ?f] by (simp add: is_high_def [abs_def] priority_zero)
  then have as: "recommendedActions c k ds s r = take 4 (?high @ ?rest)"
    by (simp add: recommendedActions_def orderedActions_def u maximumRecommendedActions_def)
  have "distinct (map ra_id (sort_key ?f ?as))" using candidate_ids [of c k ds s r]
    by (metis mset_map mset_sort mset_eq_imp_distinct_iff)
  then have d: "distinct (map ra_id (recommendedActions c k ds s r))"
    unfolding as sorted [symmetric] by (simp add: take_map [symmetric] distinct_take)
  have "sorted (map ?f (sort_key ?f ?as))" by simp
  then have so: "sorted (map (priorityOrder \<circ> ra_priority) (recommendedActions c k ds s r))"
    unfolding as sorted [symmetric] by (simp add: take_map [symmetric] sorted_wrt_take comp_def)
  have h: "set ?high \<subseteq> set (recommendedActions c k ds s r)"
    using few_high [of c k ds s r] by (auto simp: as)
  have "cx_blockingIssueCount c = 0 \<or> map ra_id (take 1 (recommendedActions c k ds s r)) = [''resolve_lifecycle_issues'']"
    using blocking_first [of c k ds s r] unfolding as by (cases "cx_blockingIssueCount c = 0") auto
  then show ?thesis using d so h by (simp add: as maximumRecommendedActions_def)
qed

section \<open>Lemmas: the fingerprint\<close>

lemma join_cons: "xs \<noteq> [] \<Longrightarrow> join s (x # xs) = x @ s @ join s xs"
  by (cases xs) auto

lemma join_inj:
  "xs \<noteq> [] \<Longrightarrow> ys \<noteq> [] \<Longrightarrow> (\<And>x. x \<in> set xs \<union> set ys \<Longrightarrow> c \<notin> set x) \<Longrightarrow> join [c] xs = join [c] ys \<Longrightarrow> xs = ys"
proof (induction xs arbitrary: ys)
  case (Cons x xs)
  obtain y ys' where ys: "ys = y # ys'" using Cons.prems(2) by (cases ys) auto
  have tw: "takeWhile ((\<noteq>) c) (z @ c # rest) = z" "takeWhile ((\<noteq>) c) z = z" "dropWhile ((\<noteq>) c) (z @ c # rest) = c # rest"
    "dropWhile ((\<noteq>) c) z = []" if "c \<notin> set z" for z rest
    using that by (induction z) auto
  have c: "c \<notin> set x" "c \<notin> set y" using Cons.prems(3) ys by auto
  have mem: "zs = [] \<or> c \<in> set (join [c] (z # zs))" for z zs by (cases zs) auto
  show ?case
  proof (cases "xs = [] \<or> ys' = []")
    case True
    then have "xs = [] \<and> ys' = []" using mem [of xs x] mem [of ys' y] c Cons.prems(4) ys by auto
    then show ?thesis using Cons.prems(4) ys by simp
  next
    case False
    then have e: "x @ c # join [c] xs = y @ c # join [c] ys'" using Cons.prems(4) ys by (simp add: join_cons)
    then have "x = y" using tw(1) [OF c(1)] tw(1) [OF c(2)] by metis
    moreover have "xs = ys'" using Cons.IH [of ys'] Cons.prems(3) e False ys \<open>x = y\<close> by simp
    ultimately show ?thesis using ys by simp
  qed
qed simp

text \<open>Lists of texts as the scanner records them: non-empty and without the separators.\<close>

definition fact_items :: "string list \<Rightarrow> bool" where
  "fact_items xs \<longleftrightarrow> (\<forall>x \<in> set xs. x \<noteq> [] \<and> CHR '','' \<notin> set x \<and> CHR 0x0A \<notin> set x)"

definition plain_text :: "string option \<Rightarrow> bool" where
  "plain_text v \<longleftrightarrow> v \<noteq> Some [] \<and> CHR 0x0A \<notin> set (nullable v)"

definition plain_facts :: "repository_facts \<Rightarrow> bool" where
  "plain_facts f \<longleftrightarrow> fact_items (rf_languages f) \<and> fact_items (rf_frameworks f) \<and> fact_items (rf_databases f)
     \<and> fact_items (rf_testing f) \<and> fact_items (rf_documentation f)
     \<and> plain_text (rf_packageManager f) \<and> plain_text (rf_remoteUrl f)"

text \<open>The same facts, up to the order of each list and the size within one bucket.\<close>

definition same_facts :: "repository_facts \<Rightarrow> repository_facts \<Rightarrow> bool" where
  "same_facts f g \<longleftrightarrow> mset (rf_languages f) = mset (rf_languages g) \<and> mset (rf_frameworks f) = mset (rf_frameworks g)
     \<and> mset (rf_databases f) = mset (rf_databases g) \<and> mset (rf_testing f) = mset (rf_testing g)
     \<and> mset (rf_documentation f) = mset (rf_documentation g) \<and> rf_packageManager f = rf_packageManager g
     \<and> rf_remoteUrl f = rf_remoteUrl g
     \<and> repositoryScaleBucket (rf_sourceFileCount f) = repositoryScaleBucket (rf_sourceFileCount g)
     \<and> rf_hasCommitHistory f = rf_hasCommitHistory g"

lemma join_Nil: "join s xs = [] \<Longrightarrow> (\<And>x. x \<in> set xs \<Longrightarrow> x \<noteq> []) \<Longrightarrow> xs = []"
  by (cases "(s, xs)" rule: join.cases) auto

lemma factList_inj:
  assumes "fact_items xs" and "fact_items ys" and "factList xs = factList ys"
  shows "mset xs = mset ys"
proof (cases "xs = [] \<or> ys = []")
  case True
  then show ?thesis using assms join_Nil [of "'',''" "sort xs"] join_Nil [of "'',''" "sort ys"]
    by (auto simp: factList_def fact_items_def)
next
  case False
  then have "sort xs = sort ys" using assms by (intro join_inj [of _ _ "CHR '',''"]) (auto simp: factList_def fact_items_def)
  then show ?thesis by (metis mset_sort)
qed

lemma factList_mset: "mset xs = mset ys \<Longrightarrow> factList xs = factList ys"
  by (metis factList_def sorted_list_of_multiset_mset)

lemma join_chars: "c \<in> set (join s xs) \<Longrightarrow> c \<in> set s \<or> (\<exists>x \<in> set xs. c \<in> set x)"
  by (induction s xs rule: join.induct) auto

lemma factList_line: "fact_items xs \<Longrightarrow> CHR 0x0A \<notin> set (factList xs)"
  unfolding factList_def fact_items_def by (auto dest!: join_chars)

lemma bucket_line: "CHR 0x0A \<notin> set (repositoryScaleBucket n)"
  by (auto simp: repositoryScaleBucket_def split: option.splits)

lemma nullable_inj: "plain_text v \<Longrightarrow> plain_text u \<Longrightarrow> nullable v = nullable u \<Longrightarrow> v = u"
  by (auto simp: plain_text_def nullable_def split: option.splits)

definition history_text :: "bool option \<Rightarrow> string" where
  "history_text v = (case v of None \<Rightarrow> ''unrecorded'' | Some b \<Rightarrow> if b then ''true'' else ''false'')"

lemma history_inj: "history_text v = history_text u \<longleftrightarrow> v = u"
  by (auto simp: history_text_def split: option.splits if_splits)

definition fingerprint_lines :: "repository_facts \<Rightarrow> string list" where
  "fingerprint_lines f = [''repository-understanding-v1'', ''languages='' @ factList (rf_languages f),
     ''frameworks='' @ factList (rf_frameworks f), ''databases='' @ factList (rf_databases f),
     ''testing='' @ factList (rf_testing f), ''documentation='' @ factList (rf_documentation f),
     ''packageManager='' @ nullable (rf_packageManager f), ''remote='' @ nullable (rf_remoteUrl f),
     ''scale='' @ repositoryScaleBucket (rf_sourceFileCount f), ''history='' @ history_text (rf_hasCommitHistory f)]"

lemma fingerprint_join: "repositoryUnderstandingFingerprintSource f = join [CHR 0x0A] (fingerprint_lines f)"
  by (simp add: repositoryUnderstandingFingerprintSource_def fingerprint_lines_def history_text_def)

lemma lines_plain: "plain_facts f \<Longrightarrow> x \<in> set (fingerprint_lines f) \<Longrightarrow> CHR 0x0A \<notin> set x"
  by (auto simp: fingerprint_lines_def plain_facts_def plain_text_def factList_line bucket_line history_text_def
      split: option.splits if_splits)

text \<open>C38. The fingerprint of a repository identifies its facts: two recorded scans have the same fingerprint
  exactly when they agree on every list up to its order, on package manager, remote and history, and on
  the bucket of the number of source files. So a confirmed review turns stale on structural change only.\<close>

theorem fingerprint_identifies_facts:
  assumes "plain_facts f" and "plain_facts g"
  shows "repositoryUnderstandingFingerprintSource f = repositoryUnderstandingFingerprintSource g \<longleftrightarrow> same_facts f g"
proof
  assume "repositoryUnderstandingFingerprintSource f = repositoryUnderstandingFingerprintSource g"
  then have "fingerprint_lines f = fingerprint_lines g"
    unfolding fingerprint_join using assms lines_plain
    by (intro join_inj [of _ _ "CHR 0x0A"]) (auto simp: fingerprint_lines_def)
  then show "same_facts f g"
    using assms by (auto simp: fingerprint_lines_def same_facts_def plain_facts_def history_inj
        intro: factList_inj nullable_inj)
next
  assume "same_facts f g"
  then show "repositoryUnderstandingFingerprintSource f = repositoryUnderstandingFingerprintSource g"
    unfolding fingerprint_join fingerprint_lines_def same_facts_def by (metis factList_mset)
qed

definition sample_facts :: "string list \<Rightarrow> nat \<Rightarrow> repository_facts" where
  "sample_facts ls n = \<lparr>rf_languages = ls, rf_frameworks = [], rf_databases = [], rf_testing = [''bun''],
     rf_documentation = [], rf_packageManager = None, rf_remoteUrl = None, rf_sourceFileCount = Some n,
     rf_hasCommitHistory = Some True\<rparr>"

theorem fingerprint_identifies_facts_witness:
  "repositoryUnderstandingFingerprintSource (sample_facts [''ts'', ''sql''] 30)
   = repositoryUnderstandingFingerprintSource (sample_facts [''sql'', ''ts''] 99)"
  by (subst fingerprint_identifies_facts)
    (simp_all add: sample_facts_def plain_facts_def fact_items_def plain_text_def nullable_def same_facts_def
      repositoryScaleBucket_def)

end
