(* ===== verification/Project_Profile.thy ===== *)
theory Project_Profile
  imports Governance Project_Handover
begin

text \<open>
  Projects, their checkouts and their profiles: \<open>project.ts\<close>, \<open>project-profile.ts\<close>, the
  repositories \<open>sqlite-project.repository.ts\<close>, \<open>sqlite-repository-identity.repository.ts\<close> and
  \<open>sqlite-project-profile.repository.ts\<close>, and the services that create and import projects, answer
  their questions, confirm a repository review and assess the handover. The scanner of repositories
  (\<open>ProjectScanner\<close>) is a parameter. The tables extend those of \<open>Governance\<close>; \<open>db_projects\<close> holds the
  identifiers of the rows of \<open>pf_projects\<close>. The date of a detachment is never read and left out.
\<close>

section \<open>The model\<close>

subsection \<open>Projects\<close>

record project =
  pj_id :: string
  pj_name :: string
  pj_description :: "string option"
  pj_createdAt :: js_date
  pj_updatedAt :: js_date

definition Project_create :: "string \<Rightarrow> string \<Rightarrow> string option \<Rightarrow> js_date \<Rightarrow> project result" where
  "Project_create i given_name description now =
     (let name = trim given_name in
      if length name = 0 then throw (DomainValidationError ''Project name cannot be empty'')
      else ok \<lparr>pj_id = i, pj_name = name, pj_description = description, pj_createdAt = now, pj_updatedAt = now\<rparr>)"

subsection \<open>Profile data\<close>

datatype profile_origin = OriginDetected | OriginInferred | OriginUser
datatype answer_category = GoalAnswer | PreferenceAnswer | ConstraintAnswer | PermissionAnswer
datatype answer_type = TextAnswer | BooleanAnswer | SingleSelect | MultiSelect
datatype question_source = DeterministicSource | LlmSource

fun category_str :: "answer_category \<Rightarrow> string" where
  "category_str GoalAnswer = ''goal''"
| "category_str PreferenceAnswer = ''preference''"
| "category_str ConstraintAnswer = ''constraint''"
| "category_str PermissionAnswer = ''permission''"

definition agentOperations :: "string list" where
  "agentOperations = [''read_files'', ''modify_files'', ''run_tests'', ''run_shell'', ''install_dependencies'',
     ''create_branches'', ''create_commits'', ''network_access'']"

record profile_entry =
  pe_id :: string
  pe_projectId :: string
  pe_category :: string
  pe_key :: string
  pe_value :: json
  pe_origin :: profile_origin
  pe_confidence :: rat
  pe_sourceReference :: "string option"
  pe_confirmedAt :: "js_date option"
  pe_createdAt :: js_date

record profile_row = profile_entry +
  pe_supersededAt :: "js_date option"

record project_answer =
  an_category :: answer_category
  an_value :: json

record project_question =
  qu_id :: string
  qu_projectId :: string
  qu_scanId :: "string option"
  qu_key :: string
  qu_question :: string
  qu_reason :: string
  qu_answerCategory :: answer_category
  qu_answerType :: answer_type
  qu_options :: "string list option"
  qu_priority :: int
  qu_source :: question_source
  qu_generationId :: "string option"
  qu_answer :: "project_answer option"
  qu_answeredAt :: "js_date option"

record question_row = project_question +
  qu_normalizedQuestion :: string

record project_scan_summary =
  ps_rootPath :: string
  ps_projectName :: string
  ps_remoteUrl :: "string option"
  ps_currentBranch :: "string option"
  ps_defaultBranch :: "string option"
  ps_hasCommitHistory :: "bool option"
  ps_packageManager :: "string option"
  ps_languages :: "string list"
  ps_frameworks :: "string list"
  ps_databases :: "string list"
  ps_testing :: "string list"
  ps_documentation :: "string list"
  ps_detectedFiles :: "string list"

record project_source =
  so_id :: string
  so_projectId :: string
  so_localPath :: string
  so_remoteUrl :: "string option"
  so_defaultBranch :: "string option"
  so_createdAt :: js_date

record project_scan =
  sc_id :: string
  sc_projectId :: string
  sc_startedAt :: js_date
  sc_completedAt :: js_date
  sc_sourceRevision :: "string option"
  sc_summary :: project_scan_summary

definition sourceFileExtensions :: "string list" where
  "sourceFileExtensions = [''.c'', ''.cc'', ''.cpp'', ''.cs'', ''.ex'', ''.exs'', ''.go'', ''.h'', ''.hpp'', ''.java'', ''.js'',
     ''.jsx'', ''.kt'', ''.mjs'', ''.php'', ''.py'', ''.rb'', ''.rs'', ''.scala'', ''.sh'', ''.sql'', ''.svelte'', ''.swift'',
     ''.ts'', ''.tsx'', ''.vue'']"

definition countSourceFiles :: "string list \<Rightarrow> nat" where
  "countSourceFiles files = length (filter (\<lambda>f. list_ex (endsWith f) sourceFileExtensions) files)"

section \<open>The repositories\<close>

text \<open>
  \<open>pf_identities\<close> pairs repositories with projects, \<open>pf_detached\<close> maps detached paths to projects,
  \<open>pf_generations\<close> are the completed onboarding generations with their projects.
\<close>

record profile_db = governance_db +
  pf_projects :: "project list"
  pf_identities :: "(string \<times> string) list"
  pf_sources :: "project_source list"
  pf_detached :: "(string \<times> string) list"
  pf_scans :: "project_scan list"
  pf_entries :: "profile_row list"
  pf_generations :: "(string \<times> string) list"
  pf_questions :: "question_row list"

definition not_null_text :: "string \<Rightarrow> bool" where
  "not_null_text s \<longleftrightarrow> (case dropWhile (\<lambda>c. c = CHR '' '') s of [] \<Rightarrow> False | c # _ \<Rightarrow> c \<noteq> CHR 0x00)"

definition check_error :: "string \<Rightarrow> error" where
  "check_error s = StorageConstraintError s"

subsection \<open>Projects and identities\<close>

definition findById :: "'z profile_db_scheme \<Rightarrow> string \<Rightarrow> project option" where
  "findById db i = find (\<lambda>r. pj_id r = i) (pf_projects db)"

text \<open>An upsert: a known project keeps its date of creation.\<close>

definition saveProject :: "project \<Rightarrow> 'z profile_db_scheme \<Rightarrow> (unit \<times> 'z profile_db_scheme) result" where
  "saveProject v db =
     bindR (iso_check (pj_createdAt v)) (\<lambda>_. bindR (iso_check (pj_updatedAt v)) (\<lambda>_.
       if \<not> not_null_text (pj_name v) then throw (check_error ''CHECK constraint failed: project'')
       else if findById db (pj_id v) \<noteq> None
       then ok ((), db\<lparr>pf_projects := map (\<lambda>r. if pj_id r = pj_id v
              then r\<lparr>pj_name := pj_name v, pj_description := pj_description v, pj_updatedAt := pj_updatedAt v\<rparr> else r)
            (pf_projects db)\<rparr>)
       else ok ((), db\<lparr>pf_projects := pf_projects db @ [v], db_projects := db_projects db @ [pj_id v]\<rparr>)))"

definition findProjectId :: "'z profile_db_scheme \<Rightarrow> string \<Rightarrow> string option" where
  "findProjectId db repositoryId = map_option snd (find (\<lambda>(r, p). r = repositoryId) (pf_identities db))"

definition findRepositoryId :: "'z profile_db_scheme \<Rightarrow> string \<Rightarrow> string option" where
  "findRepositoryId db projectId = map_option fst (find (\<lambda>(r, p). p = projectId) (pf_identities db))"

datatype association = AssociationCreated | AssociationExisting | AssociationConflict

definition associate ::
  "string \<Rightarrow> string \<Rightarrow> js_date \<Rightarrow> 'z profile_db_scheme \<Rightarrow> (association \<times> 'z profile_db_scheme) result" where
  "associate repositoryId projectId createdAt db =
     bindR (iso_check createdAt) (\<lambda>_.
       if \<not> not_null_text repositoryId then throw (check_error ''CHECK constraint failed: project_repository_identity'')
       else if findProjectId db repositoryId = None \<and> findRepositoryId db projectId = None
       then if \<not> project_exists db projectId then throw (check_error ''FOREIGN KEY constraint failed'')
         else ok (AssociationCreated, db\<lparr>pf_identities := pf_identities db @ [(repositoryId, projectId)]\<rparr>)
       else ok (if findProjectId db repositoryId = Some projectId \<and> findRepositoryId db projectId = Some repositoryId
         then AssociationExisting else AssociationConflict, db))"

subsection \<open>Checkouts\<close>

text \<open>The paths a project was imported under before sources were recorded.\<close>

definition legacy_root :: "string \<Rightarrow> profile_row \<Rightarrow> bool" where
  "legacy_root path e \<longleftrightarrow> pe_category e = ''repository'' \<and> pe_key e = ''root_path'' \<and> pe_value e = JStr path"

definition findProjectIdByLocalPath :: "'z profile_db_scheme \<Rightarrow> string \<Rightarrow> string option" where
  "findProjectIdByLocalPath db path =
     (if \<exists>d \<in> set (pf_detached db). fst d = path then None
      else case sort_key (\<lambda>s. (date_ms (so_createdAt s), so_id s)) (filter (\<lambda>s. so_localPath s = path) (pf_sources db)) of
        source # _ \<Rightarrow> Some (so_projectId source)
      | [] \<Rightarrow> (case sort_key (\<lambda>e. (date_ms (pe_createdAt e), pe_id e)) (filter (legacy_root path) (pf_entries db)) of
            e # _ \<Rightarrow> Some (pe_projectId e)
          | [] \<Rightarrow> (case sort_key (\<lambda>r. (date_ms (pj_createdAt r), pj_id r))
                (filter (\<lambda>r. pj_description r = Some (''Imported from '' @ path)) (pf_projects db)) of
                r # _ \<Rightarrow> Some (pj_id r) | [] \<Rightarrow> None)))"

definition listSources :: "'z profile_db_scheme \<Rightarrow> string \<Rightarrow> project_source list" where
  "listSources db projectId =
     sort_key (\<lambda>s. (date_ms (so_createdAt s), so_id s)) (filter (\<lambda>s. so_projectId s = projectId) (pf_sources db))"

text \<open>A known path only gets the new remote and branch: it stays with its project.\<close>

definition saveSource :: "project_source \<Rightarrow> 'z profile_db_scheme \<Rightarrow> (unit \<times> 'z profile_db_scheme) result" where
  "saveSource v db =
     bindR (iso_check (so_createdAt v)) (\<lambda>_.
       let attached = db\<lparr>pf_detached := filter (\<lambda>d. fst d \<noteq> so_localPath v) (pf_detached db)\<rparr> in
       if \<exists>s \<in> set (pf_sources db). so_localPath s = so_localPath v
       then ok ((), attached\<lparr>pf_sources := map (\<lambda>s. if so_localPath s = so_localPath v
              then s\<lparr>so_remoteUrl := so_remoteUrl v, so_defaultBranch := so_defaultBranch v\<rparr> else s) (pf_sources db)\<rparr>)
       else if \<exists>s \<in> set (pf_sources db). so_id s = so_id v
       then throw (check_error ''UNIQUE constraint failed: project_source.id'')
       else if \<not> project_exists db (so_projectId v) then throw (check_error ''FOREIGN KEY constraint failed'')
       else ok ((), attached\<lparr>pf_sources := pf_sources db @ [v]\<rparr>))"

definition detected_root :: "string \<Rightarrow> string \<Rightarrow> profile_row \<Rightarrow> bool" where
  "detected_root projectId path e \<longleftrightarrow> pe_projectId e = projectId \<and> legacy_root path e \<and> pe_origin e = OriginDetected"

definition removeSource ::
  "string \<Rightarrow> string \<Rightarrow> 'z profile_db_scheme \<Rightarrow> (bool \<times> 'z profile_db_scheme) result" where
  "removeSource projectId path db =
     (let hit = (\<lambda>s. so_projectId s = projectId \<and> so_localPath s = path) in
      if length (filter hit (pf_sources db)) \<noteq> 1 then ok (False, db\<lparr>pf_sources := filter (Not \<circ> hit) (pf_sources db)\<rparr>)
      else if \<not> not_null_text path then throw (check_error ''CHECK constraint failed: project_checkout_detachment'')
      else if \<not> project_exists db projectId then throw (check_error ''FOREIGN KEY constraint failed'')
      else ok (True, db\<lparr>pf_sources := filter (Not \<circ> hit) (pf_sources db),
          pf_entries := filter (\<lambda>e. \<not> detected_root projectId path e) (pf_entries db),
          pf_detached := filter (\<lambda>d. fst d \<noteq> path) (pf_detached db) @ [(path, projectId)]\<rparr>))"

subsection \<open>Scans and profile entries\<close>

definition saveScan :: "project_scan \<Rightarrow> 'z profile_db_scheme \<Rightarrow> (unit \<times> 'z profile_db_scheme) result" where
  "saveScan v db =
     bindR (iso_check (sc_startedAt v)) (\<lambda>_. bindR (iso_check (sc_completedAt v)) (\<lambda>_.
       if \<exists>s \<in> set (pf_scans db). sc_id s = sc_id v then throw (check_error ''UNIQUE constraint failed: project_scan.id'')
       else if \<not> project_exists db (sc_projectId v) then throw (check_error ''FOREIGN KEY constraint failed'')
       else ok ((), db\<lparr>pf_scans := pf_scans db @ [v]\<rparr>)))"

text \<open>\<open>ORDER BY completed_at DESC, id DESC LIMIT 1\<close>\<close>

definition findLatestScan :: "'z profile_db_scheme \<Rightarrow> string \<Rightarrow> project_scan option" where
  "findLatestScan db projectId =
     (case rev (sort_key (\<lambda>s. (date_ms (sc_completedAt s), sc_id s)) (filter (\<lambda>s. sc_projectId s = projectId) (pf_scans db))) of
        [] \<Rightarrow> None | s # _ \<Rightarrow> Some s)"

definition stored_entry :: "profile_entry \<Rightarrow> profile_row" where
  "stored_entry e = profile_entry.extend e (profile_row.fields None)"

definition saveProfileEntry :: "profile_entry \<Rightarrow> 'z profile_db_scheme \<Rightarrow> (unit \<times> 'z profile_db_scheme) result" where
  "saveProfileEntry v db =
     bindR (case pe_confirmedAt v of None \<Rightarrow> ok () | Some d \<Rightarrow> iso_check d) (\<lambda>_. bindR (iso_check (pe_createdAt v)) (\<lambda>_.
       if pe_confidence v < 0 \<or> 1 < pe_confidence v then throw (check_error ''CHECK constraint failed: project_profile_entry'')
       else if \<exists>e \<in> set (pf_entries db). pe_id e = pe_id v
       then throw (check_error ''UNIQUE constraint failed: project_profile_entry.id'')
       else if \<not> project_exists db (pe_projectId v) then throw (check_error ''FOREIGN KEY constraint failed'')
       else ok ((), db\<lparr>pf_entries := pf_entries db @ [stored_entry v]\<rparr>)))"

fun saveProfileEntries :: "profile_entry list \<Rightarrow> 'z profile_db_scheme \<Rightarrow> (unit \<times> 'z profile_db_scheme) result" where
  "saveProfileEntries [] db = ok ((), db)"
| "saveProfileEntries (e # es) db = bindR (saveProfileEntry e db) (\<lambda>(_, db'). saveProfileEntries es db')"

text \<open>The detected entries of the project of the first entry are replaced. Run inside a transaction.\<close>

definition replaceDetected :: "profile_entry list \<Rightarrow> 'z profile_db_scheme \<Rightarrow> (unit \<times> 'z profile_db_scheme) result" where
  "replaceDetected entries db = (case entries of [] \<Rightarrow> ok ((), db)
     | first # _ \<Rightarrow> saveProfileEntries entries
         (db\<lparr>pf_entries := filter (\<lambda>e. \<not> (pe_projectId e = pe_projectId first \<and> pe_origin e = OriginDetected)) (pf_entries db)\<rparr>))"

definition supersedeProfileEntries ::
  "string \<Rightarrow> string \<Rightarrow> string \<Rightarrow> js_date \<Rightarrow> 'z profile_db_scheme \<Rightarrow> (unit \<times> 'z profile_db_scheme) result" where
  "supersedeProfileEntries projectId category key supersededAt db =
     bindR (iso_check supersededAt) (\<lambda>_.
       ok ((), db\<lparr>pf_entries := map (\<lambda>e. if pe_projectId e = projectId \<and> pe_category e = category \<and> pe_key e = key
            \<and> pe_supersededAt e = None then e\<lparr>pe_supersededAt := Some supersededAt\<rparr> else e) (pf_entries db)\<rparr>))"

definition listActiveProfileEntries :: "'z profile_db_scheme \<Rightarrow> string \<Rightarrow> profile_entry list" where
  "listActiveProfileEntries db projectId = map profile_entry.truncate
     (sort_key (\<lambda>e. (pe_category e, pe_key e, date_ms (pe_createdAt e), pe_id e))
       (filter (\<lambda>e. pe_projectId e = projectId \<and> pe_supersededAt e = None) (pf_entries db)))"

subsection \<open>Questions\<close>

definition generation_matches :: "'z profile_db_scheme \<Rightarrow> question_row \<Rightarrow> bool" where
  "generation_matches db q \<longleftrightarrow> (case qu_source q of
     DeterministicSource \<Rightarrow> qu_generationId q = None
   | LlmSource \<Rightarrow> (case qu_generationId q of None \<Rightarrow> False | Some g \<Rightarrow> (g, qu_projectId q) \<in> set (pf_generations db)))"

definition insertQuestion :: "question_row \<Rightarrow> 'z profile_db_scheme \<Rightarrow> (unit \<times> 'z profile_db_scheme) result" where
  "insertQuestion q db =
     (if \<not> generation_matches db q then throw (check_error ''question source and generation do not match'')
      else if qu_priority q < 1 \<or> 100 < qu_priority q then throw (check_error ''CHECK constraint failed: project_question'')
      else if \<exists>r \<in> set (pf_questions db). qu_id r = qu_id q
        \<or> qu_projectId r = qu_projectId q \<and> (qu_key r = qu_key q \<and> qu_answer r = None \<or> qu_normalizedQuestion r = qu_normalizedQuestion q)
      then throw (check_error ''UNIQUE constraint failed: project_question'')
      else if \<not> project_exists db (qu_projectId q)
        \<or> (case qu_scanId q of None \<Rightarrow> False | Some s \<Rightarrow> s \<notin> sc_id ` set (pf_scans db))
      then throw (check_error ''FOREIGN KEY constraint failed'')
      else ok ((), db\<lparr>pf_questions := pf_questions db @ [q\<lparr>qu_answer := None, qu_answeredAt := None\<rparr>]\<rparr>))"

fun ensureQuestions :: "question_row list \<Rightarrow> 'z profile_db_scheme \<Rightarrow> (unit \<times> 'z profile_db_scheme) result" where
  "ensureQuestions [] db = ok ((), db)"
| "ensureQuestions (q # qs) db = bindR (insertQuestion q db) (\<lambda>(_, db'). ensureQuestions qs db')"

definition findQuestion :: "'z profile_db_scheme \<Rightarrow> string \<Rightarrow> string \<Rightarrow> project_question option" where
  "findQuestion db projectId questionId = map_option project_question.truncate
     (find (\<lambda>q. qu_projectId q = projectId \<and> qu_id q = questionId) (pf_questions db))"

definition listOpenQuestions :: "'z profile_db_scheme \<Rightarrow> string \<Rightarrow> project_question list" where
  "listOpenQuestions db projectId = map project_question.truncate
     (sort_key (\<lambda>q. (- qu_priority q, qu_key q, qu_id q))
       (filter (\<lambda>q. qu_projectId q = projectId \<and> qu_answer q = None) (pf_questions db)))"

definition listQuestions :: "'z profile_db_scheme \<Rightarrow> string \<Rightarrow> project_question list" where
  "listQuestions db projectId = map project_question.truncate
     (sort_key (\<lambda>q. (qu_answeredAt q \<noteq> None, - qu_priority q, qu_key q, qu_id q))
       (filter (\<lambda>q. qu_projectId q = projectId) (pf_questions db)))"

text \<open>Only an open question is answered; the count of changed rows is not looked at.\<close>

definition answerQuestion ::
  "string \<Rightarrow> project_answer \<Rightarrow> js_date \<Rightarrow> 'z profile_db_scheme \<Rightarrow> (unit \<times> 'z profile_db_scheme) result" where
  "answerQuestion questionId answer answeredAt db =
     bindR (iso_check answeredAt) (\<lambda>_.
       ok ((), db\<lparr>pf_questions := map (\<lambda>q. if qu_id q = questionId \<and> qu_answer q = None
            then q\<lparr>qu_answer := Some answer, qu_answeredAt := Some answeredAt\<rparr> else q) (pf_questions db)\<rparr>))"

section \<open>Answering a question\<close>

definition invalid_answer :: "string \<Rightarrow> error" where
  "invalid_answer s = ClassError ''InvalidProjectAnswerError'' s"

definition quoted :: "string \<Rightarrow> string" where
  "quoted s = [CHR 0x22] @ s @ [CHR 0x22]"

definition parsePermissionAnswer :: "string \<Rightarrow> string list \<Rightarrow> string list result" where
  "parsePermissionAnswer value allowed =
     (let normalized = js_lower (trim value) in
      if normalized = ''all'' then ok allowed
      else if normalized = ''none'' then ok []
      else
        let operations = js_unique (filter (\<lambda>operation. length operation > 0) (map trim (js_split (CHR '','') normalized)));
            unsupported = filter (\<lambda>operation. operation \<notin> set agentOperations \<or> operation \<notin> set allowed) operations in
        if length operations = 0 \<or> length unsupported > 0
        then throw (invalid_answer (''Agent permissions must be '' @ quoted ''all'' @ '', '' @ quoted ''none'' @ '', or a comma-separated list of: ''
          @ join '', '' agentOperations))
        else ok (filter (\<lambda>operation. operation \<in> set operations) agentOperations))"

definition selectValues :: "project_question \<Rightarrow> string \<Rightarrow> string list result" where
  "selectValues question value =
     (let options = (case qu_options question of None \<Rightarrow> [] | Some os \<Rightarrow> os);
          byNormalized = js_map (map (\<lambda>option. (js_lower (trim option), option)) options);
          values = js_unique (filter (\<lambda>entry. length entry > 0) (map (\<lambda>entry. js_lower (trim entry)) (js_split (CHR '','') value))) in
      if length values = 0 \<or> list_ex (\<lambda>entry. byNormalized entry = None) values
      then throw (invalid_answer (''Answer must use '' @ (if qu_answerType question = SingleSelect then ''one option''
        else ''a comma-separated list'') @ '' from: '' @ join '', '' options))
      else if qu_answerType question = SingleSelect \<and> length values \<noteq> 1
      then throw (invalid_answer ''Single-select questions accept exactly one option'')
      else ok (map (\<lambda>entry. the (byNormalized entry)) values))"

definition structuredAnswer :: "project_question \<Rightarrow> string \<Rightarrow> project_answer result" where
  "structuredAnswer question value =
     (let answer = (\<lambda>v. \<lparr>an_category = qu_answerCategory question, an_value = v\<rparr>) in
      if qu_answerCategory question = PermissionAnswer
      then let allowed = filter (\<lambda>operation. operation \<in> set agentOperations)
               (case qu_options question of None \<Rightarrow> agentOperations | Some os \<Rightarrow> os) in
           bindR (parsePermissionAnswer value allowed) (\<lambda>operations.
           ok (answer (JObj [(''operations'', JArr (map JStr operations))])))
      else
        let normalized = trim value in
        if length normalized = 0 then throw (invalid_answer ''Project answers cannot be empty'')
        else (case qu_answerType question of
          BooleanAnswer \<Rightarrow>
            if js_lower normalized \<in> {''true'', ''yes'', ''y''} then ok (answer (JBool True))
            else if js_lower normalized \<in> {''false'', ''no'', ''n''} then ok (answer (JBool False))
            else throw (invalid_answer ''Boolean answers must be true/false or yes/no'')
        | SingleSelect \<Rightarrow> bindR (selectValues question normalized) (\<lambda>selected. ok (answer (JStr (hd selected))))
        | MultiSelect \<Rightarrow> bindR (selectValues question normalized) (\<lambda>selected. ok (answer (JArr (map JStr selected))))
        | TextAnswer \<Rightarrow> ok (answer (JStr normalized))))"

definition answer_entry :: "string \<Rightarrow> string \<Rightarrow> project_question \<Rightarrow> project_answer \<Rightarrow> js_date \<Rightarrow> profile_entry" where
  "answer_entry i projectId question answer now = \<lparr>pe_id = i, pe_projectId = projectId,
     pe_category = category_str (an_category answer), pe_key = qu_key question, pe_value = an_value answer,
     pe_origin = OriginUser, pe_confidence = 1, pe_sourceReference = Some (''project_question:'' @ qu_id question),
     pe_confirmedAt = Some now, pe_createdAt = now\<rparr>"

definition answer_work :: "services \<Rightarrow> string \<Rightarrow> string \<Rightarrow> string \<Rightarrow> ('z profile_db_scheme world, project_answer) command" where
  "answer_work sv projectId questionId value =
     bindM (readDb (\<lambda>db. findQuestion db projectId questionId)) (\<lambda>found.
     case found of
       None \<Rightarrow> throwM (ClassError ''ProjectQuestionNotFoundError''
         (''Question '' @ questionId @ '' was not found for project '' @ projectId))
     | Some question \<Rightarrow>
         bindM (guardM (qu_answer question = None) (ClassError ''ProjectQuestionAlreadyAnsweredError''
           (''Question '' @ questionId @ '' has already been answered''))) (\<lambda>_.
         bindM (liftR (structuredAnswer question value)) (\<lambda>answer.
         bindM (clock_now sv) (\<lambda>now.
         bindM (execDb (answerQuestion (qu_id question) answer now)) (\<lambda>_.
         bindM (generate sv) (\<lambda>i.
         bindM (execDb (saveProfileEntry (answer_entry i projectId question answer now))) (\<lambda>_.
         returnM answer)))))))"

definition AnswerProjectQuestion ::
  "services \<Rightarrow> string \<Rightarrow> string \<Rightarrow> string \<Rightarrow> ('z profile_db_scheme world, project_answer) command" where
  "AnswerProjectQuestion sv projectId questionId value = transaction (answer_work sv projectId questionId value)"

section \<open>Creating and importing projects\<close>

definition CreateProject :: "services \<Rightarrow> string \<Rightarrow> string option \<Rightarrow> ('z profile_db_scheme world, string) command" where
  "CreateProject sv name description =
     bindM (generate sv) (\<lambda>i.
     bindM (clock_now sv) (\<lambda>now.
     bindM (liftR (Project_create i name description now)) (\<lambda>project.
     bindM (transaction (
       bindM (execDb (saveProject project)) (\<lambda>_.
       bindM (execDb (associate (''repo_'' @ pj_id project) (pj_id project) (pj_createdAt project))) (\<lambda>association.
       guardM (association = AssociationCreated)
         (ClassError ''Error'' (''Portable identity for project '' @ pj_id project @ '' conflicts'')))))) (\<lambda>_.
     returnM (pj_id project)))))"

definition drop_suffix :: "string \<Rightarrow> string \<Rightarrow> string" where
  "drop_suffix ending s = (if endsWith s ending then take (length s - length ending) s else s)"

definition normalizedRemote :: "string \<Rightarrow> string" where
  "normalizedRemote value =
     (let trimmed = trim value;
          bare = (if endsWith trimmed ''/.git'' then drop_suffix ''/.git'' trimmed else drop_suffix ''.git'' trimmed) in
      drop_suffix ''/'' bare)"

definition text_json :: "string option \<Rightarrow> json option" where
  "text_json v = map_option JStr v"

definition texts_json :: "string list \<Rightarrow> json" where
  "texts_json xs = JArr (map JStr xs)"

definition count_json :: "nat \<Rightarrow> json" where
  "count_json n = JNum (of_nat n)"

text \<open>What a scan detected: category, key, value and where it was found.\<close>

definition detected_facts :: "project_scan_summary \<Rightarrow> (string \<times> string \<times> json option \<times> string) list" where
  "detected_facts scan =
     [(''repository'', ''root_path'', Some (JStr (ps_rootPath scan)), ps_rootPath scan),
      (''repository'', ''remote_url'', text_json (ps_remoteUrl scan), ''.git/config''),
      (''repository'', ''current_branch'', text_json (ps_currentBranch scan), ''.git/HEAD''),
      (''repository'', ''has_commit_history'', map_option JBool (ps_hasCommitHistory scan), ''.git/refs/heads''),
      (''repository'', ''file_count'', Some (count_json (length (ps_detectedFiles scan))), ''repository scan''),
      (''repository'', ''source_file_count'', Some (count_json (countSourceFiles (ps_detectedFiles scan))), ''repository scan''),
      (''tooling'', ''package_manager'', text_json (ps_packageManager scan), ''lockfile''),
      (''stack'', ''languages'', Some (texts_json (ps_languages scan)), ''file extensions''),
      (''stack'', ''frameworks'', Some (texts_json (ps_frameworks scan)), ''manifest files''),
      (''stack'', ''databases'', Some (texts_json (ps_databases scan)), ''configuration files''),
      (''quality'', ''testing'', Some (texts_json (ps_testing scan)), ''manifest files''),
      (''documentation'', ''files'', Some (texts_json (ps_documentation scan)), ''repository scan'')]"

fun build_entries ::
  "services \<Rightarrow> string \<Rightarrow> js_date \<Rightarrow> (string \<times> string \<times> json option \<times> string) list
     \<Rightarrow> ('db world, profile_entry list) command" where
  "build_entries sv projectId now [] = returnM []"
| "build_entries sv projectId now ((category, key, None, reference) # rest) = build_entries sv projectId now rest"
| "build_entries sv projectId now ((category, key, Some value, reference) # rest) =
     bindM (generate sv) (\<lambda>i.
     bindM (build_entries sv projectId now rest) (\<lambda>entries.
     returnM (\<lparr>pe_id = i, pe_projectId = projectId, pe_category = category, pe_key = key, pe_value = value,
       pe_origin = OriginDetected, pe_confidence = 1, pe_sourceReference = Some reference, pe_confirmedAt = Some now,
       pe_createdAt = now\<rparr> # entries)))"

definition profileEntries ::
  "services \<Rightarrow> string \<Rightarrow> project_scan_summary \<Rightarrow> js_date \<Rightarrow> ('db world, profile_entry list) command" where
  "profileEntries sv projectId scan now = build_entries sv projectId now (detected_facts scan)"

record import_result =
  im_projectId :: string
  im_created :: bool
  im_scan :: project_scan_summary

definition source_error :: "string \<Rightarrow> error" where
  "source_error s = ClassError ''ProjectSourceAssociationError'' s"

text \<open>A checkout joins a project that already has sources only under a remote that is known.\<close>

definition known_remote :: "project_source list \<Rightarrow> project_scan_summary \<Rightarrow> bool" where
  "known_remote sources scan \<longleftrightarrow>
     (let knownRemotes = map normalizedRemote (List.map_filter so_remoteUrl sources) in
      case ps_remoteUrl scan of None \<Rightarrow> False
      | Some remote \<Rightarrow> length knownRemotes \<noteq> 0 \<and> normalizedRemote remote \<in> set knownRemotes)"

definition check_association ::
  "string \<Rightarrow> project_scan_summary \<Rightarrow> 'z profile_db_scheme \<Rightarrow> unit result" where
  "check_association projectId scan db =
     (if findById db projectId = None
      then throw (source_error (''Project '' @ projectId @ '' does not exist for repository association''))
      else let sources = listSources db projectId in
        if length sources > 0 \<and> \<not> known_remote sources scan
        then throw (source_error (''Repository identity is already associated with project '' @ projectId
          @ '', but this checkout cannot be verified as the same Git remote. Use a distinct repository identity or resolve the copied binding explicitly.''))
        else ok ())"

text \<open>A project without an identifier is created, with its portable identity.\<close>

definition import_target ::
  "services \<Rightarrow> string option \<Rightarrow> string option \<Rightarrow> string option \<Rightarrow> project_scan_summary \<Rightarrow> js_date
     \<Rightarrow> ('z profile_db_scheme world, string \<times> bool) command" where
  "import_target sv target name repositoryId scan completedAt = (case target of
     Some projectId \<Rightarrow> returnM (projectId, False)
   | None \<Rightarrow>
       bindM (generate sv) (\<lambda>i.
       bindM (liftR (Project_create i (case name of None \<Rightarrow> ps_projectName scan | Some n \<Rightarrow> n) None completedAt)) (\<lambda>project.
       bindM (execDb (saveProject project)) (\<lambda>_.
       bindM (execDb (associate (case repositoryId of None \<Rightarrow> ''repo_'' @ pj_id project | Some r \<Rightarrow> r) (pj_id project) completedAt)) (\<lambda>association.
       bindM (guardM (association = AssociationCreated)
         (source_error (''Portable identity for imported project '' @ pj_id project @ '' conflicts''))) (\<lambda>_.
       returnM (pj_id project, True)))))))"

definition import_work ::
  "services \<Rightarrow> string option \<Rightarrow> string option \<Rightarrow> string option \<Rightarrow> project_scan_summary \<Rightarrow> js_date \<Rightarrow> js_date
     \<Rightarrow> ('z profile_db_scheme world, import_result) command" where
  "import_work sv name given_project repositoryId scan startedAt completedAt =
     bindM (readDb (\<lambda>db. findProjectIdByLocalPath db (ps_rootPath scan))) (\<lambda>existing.
     bindM (guardM (given_project = None \<or> existing = None \<or> existing = given_project)
       (source_error (''Canonical path '' @ ps_rootPath scan @ '' is already associated with project '' @ the existing))) (\<lambda>_.
     bindM (import_target sv (case given_project of None \<Rightarrow> existing | Some i \<Rightarrow> Some i) name repositoryId scan completedAt) (\<lambda>(projectId, created).
     bindM (generate sv) (\<lambda>scanId.
     bindM (generate sv) (\<lambda>sourceId.
     bindM (execDb (saveSource \<lparr>so_id = sourceId, so_projectId = projectId, so_localPath = ps_rootPath scan,
       so_remoteUrl = ps_remoteUrl scan, so_defaultBranch = ps_defaultBranch scan, so_createdAt = completedAt\<rparr>)) (\<lambda>_.
     bindM (execDb (saveScan \<lparr>sc_id = scanId, sc_projectId = projectId, sc_startedAt = startedAt, sc_completedAt = completedAt,
       sc_sourceRevision = ps_currentBranch scan, sc_summary = scan\<rparr>)) (\<lambda>_.
     bindM (profileEntries sv projectId scan completedAt) (\<lambda>entries.
     bindM (execDb (replaceDetected entries)) (\<lambda>_.
     returnM \<lparr>im_projectId = projectId, im_created = created, im_scan = scan\<rparr>)))))))))"

definition ImportProject ::
  "services \<Rightarrow> (string \<Rightarrow> ('z profile_db_scheme world, project_scan_summary) command) \<Rightarrow> string \<Rightarrow> string option
     \<Rightarrow> string option \<Rightarrow> string option \<Rightarrow> ('z profile_db_scheme world, import_result) command" where
  "ImportProject sv scanner rootPath name given_project repositoryId =
     bindM (clock_now sv) (\<lambda>startedAt.
     bindM (scanner rootPath) (\<lambda>scan.
     bindM (clock_now sv) (\<lambda>completedAt.
     bindM (case given_project of None \<Rightarrow> returnM ()
       | Some projectId \<Rightarrow> bindM (readDb (check_association projectId scan)) liftR) (\<lambda>_.
     transaction (import_work sv name given_project repositoryId scan startedAt completedAt)))))"

section \<open>The review of a repository\<close>

definition handoverReviewCategory :: string where
  "handoverReviewCategory = ''handover''"

definition handoverReviewKey :: string where
  "handoverReviewKey = ''repository_review''"

record recorded_review =
  rr_fingerprint :: string
  rr_scanId :: "string option"
  rr_summary :: string

definition detectedValue :: "profile_entry list \<Rightarrow> string \<Rightarrow> string \<Rightarrow> json option" where
  "detectedValue entries category key = map_option pe_value
     (find (\<lambda>e. pe_origin e = OriginDetected \<and> pe_category e = category \<and> pe_key e = key) entries)"

fun json_text_of :: "json \<Rightarrow> string option" where
  "json_text_of (JStr s) = Some s"
| "json_text_of _ = None"

definition fact_texts :: "json option \<Rightarrow> string list" where
  "fact_texts v = (case v of Some (JArr xs) \<Rightarrow> List.map_filter json_text_of xs | _ \<Rightarrow> [])"

definition fact_text :: "json option \<Rightarrow> string option" where
  "fact_text v = (case v of Some (JStr s) \<Rightarrow> if trim s \<noteq> [] then Some s else None | _ \<Rightarrow> None)"

definition fact_count :: "json option \<Rightarrow> nat option" where
  "fact_count v = (case v of Some (JNum q) \<Rightarrow> if isInteger (Num q) \<and> 0 \<le> q then Some (nat \<lfloor>q\<rfloor>) else None | _ \<Rightarrow> None)"

definition fact_flag :: "json option \<Rightarrow> bool option" where
  "fact_flag v = (case v of Some (JBool b) \<Rightarrow> Some b | _ \<Rightarrow> None)"

definition repositoryFactsFromProfile :: "profile_entry list \<Rightarrow> repository_facts option" where
  "repositoryFactsFromProfile entries =
     (if \<not> list_ex (\<lambda>e. pe_origin e = OriginDetected) entries then None
      else let value = detectedValue entries in
        Some \<lparr>rf_languages = fact_texts (value ''stack'' ''languages''), rf_frameworks = fact_texts (value ''stack'' ''frameworks''),
          rf_databases = fact_texts (value ''stack'' ''databases''), rf_testing = fact_texts (value ''quality'' ''testing''),
          rf_documentation = repositoryDocumentation (fact_texts (value ''documentation'' ''files'')),
          rf_packageManager = fact_text (value ''tooling'' ''package_manager''),
          rf_remoteUrl = fact_text (value ''repository'' ''remote_url''),
          rf_sourceFileCount = fact_count (value ''repository'' ''source_file_count''),
          rf_hasCommitHistory = fact_flag (value ''repository'' ''has_commit_history'')\<rparr>)"

definition repositorySignalsFromFacts :: "repository_facts \<Rightarrow> repository_signals" where
  "repositorySignalsFromFacts facts = \<lparr>sg_languageCount = length (rf_languages facts),
     sg_frameworkCount = length (rf_frameworks facts), sg_documentationCount = length (rf_documentation facts),
     sg_sourceFileCount = rf_sourceFileCount facts, sg_hasCommitHistory = rf_hasCommitHistory facts\<rparr>"

definition repositoryUnderstandingFingerprint :: "(string \<Rightarrow> string) \<Rightarrow> repository_facts \<Rightarrow> string" where
  "repositoryUnderstandingFingerprint sha256 facts = sha256 (repositoryUnderstandingFingerprintSource facts)"

definition review_json :: "recorded_review \<Rightarrow> json" where
  "review_json r = JObj [(''contractVersion'', JNum 1), (''fingerprint'', JStr (rr_fingerprint r)),
     (''scanId'', (case rr_scanId r of None \<Rightarrow> JNull | Some i \<Rightarrow> JStr i)), (''summary'', JStr (rr_summary r))]"

text \<open>\<open>isRecordedReview\<close> and the value it admits.\<close>

definition recorded_review_of :: "json \<Rightarrow> recorded_review option" where
  "recorded_review_of v = (case v of
     JObj es \<Rightarrow>
       (case (map_of es ''contractVersion'', map_of es ''fingerprint'', map_of es ''scanId'', map_of es ''summary'') of
          (Some (JNum n), Some (JStr fingerprint), Some scan, Some (JStr summary)) \<Rightarrow>
            if n = 1 \<and> fingerprint \<noteq> [] \<and> (scan = JNull \<or> json_text_of scan \<noteq> None)
            then Some \<lparr>rr_fingerprint = fingerprint, rr_scanId = json_text_of scan, rr_summary = summary\<rparr> else None
        | _ \<Rightarrow> None)
   | _ \<Rightarrow> None)"

definition is_review_entry :: "profile_entry \<Rightarrow> bool" where
  "is_review_entry e \<longleftrightarrow> pe_category e = handoverReviewCategory \<and> pe_key e = handoverReviewKey
     \<and> pe_origin e = OriginUser \<and> recorded_review_of (pe_value e) \<noteq> None"

text \<open>The latest confirmation; identifiers compare as strings.\<close>

definition readRecordedRepositoryReview :: "profile_entry list \<Rightarrow> recorded_review option" where
  "readRecordedRepositoryReview entries =
     (case rev (sort_key (\<lambda>e. (date_ms (pe_createdAt e), pe_id e)) (filter is_review_entry entries)) of
        [] \<Rightarrow> None | latest # _ \<Rightarrow> recorded_review_of (pe_value latest))"

definition understanding_error :: "string \<Rightarrow> error" where
  "understanding_error s = ClassError ''RepositoryUnderstandingError'' s"

definition maximumRepositoryReviewSummaryLength :: nat where
  "maximumRepositoryReviewSummaryLength = 4000"

record confirmation =
  cf_confirmationId :: string
  cf_fingerprint :: string
  cf_scanId :: "string option"
  cf_summary :: string

definition review_entry :: "string \<Rightarrow> string \<Rightarrow> recorded_review \<Rightarrow> js_date \<Rightarrow> profile_entry" where
  "review_entry i projectId review now = \<lparr>pe_id = i, pe_projectId = projectId, pe_category = handoverReviewCategory,
     pe_key = handoverReviewKey, pe_value = review_json review, pe_origin = OriginUser, pe_confidence = 1,
     pe_sourceReference = rr_scanId review, pe_confirmedAt = Some now, pe_createdAt = now\<rparr>"

definition ConfirmRepositoryUnderstanding ::
  "services \<Rightarrow> (string \<Rightarrow> string) \<Rightarrow> string \<Rightarrow> string \<Rightarrow> ('z profile_db_scheme world, confirmation) command" where
  "ConfirmRepositoryUnderstanding sv sha256 projectId given_summary =
     bindM (readDb (\<lambda>db. findById db projectId)) (\<lambda>project.
     bindM (guardM (project \<noteq> None) (ProjectNotFoundError projectId)) (\<lambda>_.
     let summary = trim given_summary in
     bindM (guardM (summary \<noteq> []) (understanding_error
       ''A repository review summary is required: record what the office understood'')) (\<lambda>_.
     bindM (guardM (length summary \<le> maximumRepositoryReviewSummaryLength) (understanding_error
       (''A repository review summary must not exceed '' @ nat_str maximumRepositoryReviewSummaryLength @ '' characters''))) (\<lambda>_.
     bindM (readDb (\<lambda>db. listActiveProfileEntries db projectId)) (\<lambda>entries.
     bindM (readDb (\<lambda>db. findLatestScan db projectId)) (\<lambda>scan.
     case repositoryFactsFromProfile entries of
       None \<Rightarrow> throwM (understanding_error
         ''This repository has not been scanned yet. Run ai-office project:import . before confirming a review.'')
     | Some facts \<Rightarrow>
         bindM (clock_now sv) (\<lambda>now.
         let review = \<lparr>rr_fingerprint = repositoryUnderstandingFingerprint sha256 facts, rr_scanId = map_option sc_id scan,
               rr_summary = summary\<rparr> in
         bindM (generate sv) (\<lambda>i.
         bindM (transaction (
           bindM (execDb (supersedeProfileEntries projectId handoverReviewCategory handoverReviewKey now)) (\<lambda>_.
           execDb (saveProfileEntry (review_entry i projectId review now))))) (\<lambda>_.
         returnM \<lparr>cf_confirmationId = i, cf_fingerprint = rr_fingerprint review, cf_scanId = rr_scanId review,
           cf_summary = summary\<rparr>)))))))))"

section \<open>The assessment of a project\<close>

datatype daemon_state = DaemonReachable | DaemonUnreachable | DaemonNotChecked
datatype authoritative_state = AuthAvailable | AuthUnavailable | AuthProjectMissing | AuthRepositoryUnassociated | AuthNotChecked
datatype office_state = OfficeDefaultBaseline | OfficeConfigured | OfficeMissing | OfficeUnavailable
datatype client_detection = ClientDetected | ClientNotDetected
datatype client_configuration =
    ClientConfigured | ClientUnmanaged | ClientDrifted | ClientUnverified | ClientMissing | ClientConflict | ClientNotConfigured
datatype issue_severity = IssueWarning | IssueError

fun configuration_str :: "client_configuration \<Rightarrow> string" where
  "configuration_str ClientConfigured = ''configured''"
| "configuration_str ClientUnmanaged = ''unmanaged''"
| "configuration_str ClientDrifted = ''drifted''"
| "configuration_str ClientUnverified = ''unverified''"
| "configuration_str ClientMissing = ''missing''"
| "configuration_str ClientConflict = ''conflict''"
| "configuration_str ClientNotConfigured = ''not_configured''"

record lifecycle_issue =
  li_severity :: issue_severity
  li_code :: string
  li_message :: string
  li_recovery :: "string option"

record client_status =
  cl_clientId :: string
  cl_displayName :: string
  cl_detection :: client_detection
  cl_configuration :: client_configuration

text \<open>The part of \<open>ProjectLifecycleStatus\<close> that the handover reads.\<close>

record lifecycle_status =
  ls_projectId :: "string option"
  ls_daemon :: daemon_state
  ls_authoritative :: authoritative_state
  ls_identity :: identity_state
  ls_association :: association_state
  ls_office :: office_state
  ls_clients :: "client_status list"
  ls_issues :: "lifecycle_issue list"

record office_project_model =
  om_goals :: "string list"
  om_constraints :: "string list"
  om_preferences :: "string list"

definition handoverConnectionFromStatus :: "lifecycle_status \<Rightarrow> handover_connection" where
  "handoverConnectionFromStatus status = \<lparr>
     cx_daemonReachable = (ls_daemon status = DaemonReachable), cx_repositoryIdentity = ls_identity status,
     cx_runtimeAssociation = ls_association status,
     cx_authoritativeStateAvailable = (ls_authoritative status = AuthAvailable),
     cx_officeManifestPresent = (ls_office status \<in> {OfficeDefaultBaseline, OfficeConfigured}),
     cx_blockingIssueCount = length (filter (\<lambda>issue. li_severity issue = IssueError) (ls_issues status)),
     cx_clients = map (\<lambda>c. \<lparr>hc_detected = (cl_detection c = ClientDetected),
       hc_configured = (cl_configuration c = ClientConfigured)\<rparr>) (ls_clients status)\<rparr>"

definition degradedHandover :: "lifecycle_status \<Rightarrow> handover_assessment" where
  "degradedHandover status = assessProjectHandover (handoverConnectionFromStatus status) None"

definition openQuestionCounts :: "project_question list \<Rightarrow> open_questions" where
  "openQuestionCounts questions =
     (let blocking = length (filter (\<lambda>q. qu_answerCategory q \<in> {GoalAnswer, ConstraintAnswer}) questions) in
      \<lparr>oq_blocking = blocking, oq_advisory = length questions - blocking\<rparr>)"

definition review_of_facts :: "(string \<Rightarrow> string) \<Rightarrow> repository_facts option \<Rightarrow> recorded_review option \<Rightarrow> review_state" where
  "review_of_facts sha256 facts recorded = (case (facts, recorded) of
     (Some f, Some r) \<Rightarrow> if rr_fingerprint r = repositoryUnderstandingFingerprint sha256 f then ReviewCurrent else ReviewStale
   | _ \<Rightarrow> NotReviewed)"

definition no_signals :: repository_signals where
  "no_signals = \<lparr>sg_languageCount = 0, sg_frameworkCount = 0, sg_documentationCount = 0, sg_sourceFileCount = None,
     sg_hasCommitHistory = None\<rparr>"

definition handoverKnowledge ::
  "(string \<Rightarrow> string) \<Rightarrow> office_project_model option \<Rightarrow> string \<Rightarrow> lifecycle_status \<Rightarrow> 'z profile_db_scheme
     \<Rightarrow> handover_knowledge" where
  "handoverKnowledge sha256 office projectId status db =
     (let entries = listActiveProfileEntries db projectId;
          facts = repositoryFactsFromProfile entries;
          milestones = snapshot_milestones projectId db;
          statuses = map task_status (task_listByProject db projectId) in
      \<lparr>hk_repositoryScanned = (facts \<noteq> None),
       hk_repositorySignals = (case facts of None \<Rightarrow> no_signals | Some f \<Rightarrow> repositorySignalsFromFacts f),
       hk_repositoryReview = review_of_facts sha256 facts (readRecordedRepositoryReview entries),
       hk_officeConfigured = (ls_office status = OfficeConfigured),
       hk_goalCount = (case office of None \<Rightarrow> 0 | Some p \<Rightarrow> length (om_goals p)),
       hk_constraintCount = (case office of None \<Rightarrow> 0 | Some p \<Rightarrow> length (om_constraints p)),
       hk_preferenceCount = (case office of None \<Rightarrow> 0 | Some p \<Rightarrow> length (om_preferences p)),
       hk_milestoneTotal = length milestones,
       hk_activeMilestones = length (filter (\<lambda>m. ms_status m = MsActive) milestones),
       hk_requirementTotal = length (snapshot_requirements projectId db),
       hk_tasksOpen = length (filter (\<lambda>s. s \<notin> {Completed, Failed, Cancelled}) statuses),
       hk_tasksInProgress = length (filter (\<lambda>s. s \<in> {Assigned, Running, Blocked, WaitingReview}) statuses),
       hk_openQuestions = openQuestionCounts (listOpenQuestions db projectId)\<rparr>)"

definition AssessProjectHandover ::
  "(string \<Rightarrow> string) \<Rightarrow> office_project_model option \<Rightarrow> lifecycle_status \<Rightarrow> 'z profile_db_scheme \<Rightarrow> handover_assessment" where
  "AssessProjectHandover sha256 office status db =
     (let connection = handoverConnectionFromStatus status in
      assessProjectHandover connection (case ls_projectId status of
        None \<Rightarrow> None
      | Some projectId \<Rightarrow> if \<not> cx_authoritativeStateAvailable connection then None
          else Some (handoverKnowledge sha256 office projectId status db)))"

text \<open>Which client problems need attention.\<close>

definition client_attention :: "client_status \<Rightarrow> bool" where
  "client_attention c \<longleftrightarrow>
     (cl_detection c = ClientDetected \<and> cl_configuration c \<noteq> ClientConfigured \<and> cl_configuration c \<noteq> ClientUnverified)
     \<or> (cl_detection c = ClientNotDetected \<and> cl_configuration c \<in> {ClientDrifted, ClientConflict})"

definition clientIssues :: "client_status list \<Rightarrow> lifecycle_issue list" where
  "clientIssues clients = map (\<lambda>c. \<lparr>
       li_severity = (if cl_configuration c = ClientConflict then IssueError else IssueWarning),
       li_code = ''client_'' @ cl_clientId c @ ''_'' @ configuration_str (cl_configuration c),
       li_message = cl_displayName c @ '' integration is '' @ configuration_str (cl_configuration c),
       li_recovery = Some ''Inspect the user-owned files, resolve conflicts, and rerun ai-office install .''\<rparr>)
     (filter client_attention clients)"

section \<open>A confirmed review\<close>

lemma truncate_stored [simp]: "profile_entry.truncate (stored_entry e) = e"
  by (simp add: stored_entry_def profile_entry.defs profile_row.defs)

lemma review_json_value [simp]:
  "recorded_review_of (review_json r) = (if rr_fingerprint r = [] then None else Some r)"
  by (cases "rr_scanId r") (auto simp: recorded_review_of_def review_json_def)

lemma find_filter: "(\<And>x. P x \<Longrightarrow> Q x) \<Longrightarrow> find P (filter Q xs) = find P xs"
  by (induction xs) auto

definition detected_entries :: "profile_entry list \<Rightarrow> profile_entry list" where
  "detected_entries entries = filter (\<lambda>e. pe_origin e = OriginDetected) entries"

lemma facts_of_detected: "repositoryFactsFromProfile (detected_entries entries) = repositoryFactsFromProfile entries"
proof -
  have "detectedValue (detected_entries entries) = detectedValue entries"
    unfolding detectedValue_def detected_entries_def by (intro ext) (subst find_filter, auto)
  then show ?thesis by (auto simp: repositoryFactsFromProfile_def list_ex_iff detected_entries_def)
qed

definition active_of :: "string \<Rightarrow> profile_row \<Rightarrow> bool" where
  "active_of p e \<longleftrightarrow> pe_projectId e = p \<and> pe_supersededAt e = None"

definition review_slot :: "profile_row \<Rightarrow> bool" where
  "review_slot e \<longleftrightarrow> pe_category e = handoverReviewCategory \<and> pe_key e = handoverReviewKey"

text \<open>The active rows after a confirmation: the old ones outside the slot of reviews, and the new one.\<close>

lemma confirmed_rows:
  assumes "supersedeProfileEntries p handoverReviewCategory handoverReviewKey now db = ok (u, db1)"
    and "saveProfileEntry e db1 = ok (v, db2)" and "pe_projectId e = p"
  shows "filter (active_of p) (pf_entries db2) = filter (\<lambda>x. active_of p x \<and> \<not> review_slot x) (pf_entries db) @ [stored_entry e]"
proof -
  let ?f = "\<lambda>x. if pe_projectId x = p \<and> pe_category x = handoverReviewCategory \<and> pe_key x = handoverReviewKey
    \<and> pe_supersededAt x = None then x\<lparr>pe_supersededAt := Some now\<rparr> else x"
  have rows: "pf_entries db2 = map ?f (pf_entries db) @ [stored_entry e]"
    using assms(1,2) by (auto simp: supersedeProfileEntries_def saveProfileEntry_def result_simps split: if_splits)
  have "filter (active_of p) (map ?f xs) = filter (\<lambda>x. active_of p x \<and> \<not> review_slot x) xs" for xs :: "profile_row list"
    by (induction xs) (auto simp: active_of_def review_slot_def)
  moreover have "active_of p (stored_entry e)"
    using assms(3) by (simp add: active_of_def stored_entry_def profile_entry.defs profile_row.defs)
  ultimately show ?thesis by (simp add: rows)
qed

lemma listActive_filter:
  "listActiveProfileEntries db p = map profile_entry.truncate
     (sort_key (\<lambda>e. (pe_category e, pe_key e, date_ms (pe_createdAt e), pe_id e)) (filter (active_of p) (pf_entries db)))"
  by (simp add: listActiveProfileEntries_def active_of_def [abs_def])

lemma truncate_fields [simp]:
  "pe_origin (profile_entry.truncate e) = pe_origin e" "pe_category (profile_entry.truncate e) = pe_category e"
  "pe_key (profile_entry.truncate e) = pe_key e" "pe_value (profile_entry.truncate e) = pe_value e"
  "pe_createdAt (profile_entry.truncate e) = pe_createdAt e" "pe_id (profile_entry.truncate e) = pe_id e"
  by (simp_all add: profile_entry.defs)

text \<open>Filters on the active entries are filters on the rows.\<close>

lemma filter_active:
  assumes "\<And>e. P (profile_entry.truncate e) = Q e"
  shows "filter P (listActiveProfileEntries db p) = map profile_entry.truncate
     (sort_key (\<lambda>e. (pe_category e, pe_key e, date_ms (pe_createdAt e), pe_id e)) (filter (\<lambda>e. active_of p e \<and> Q e) (pf_entries db)))"
  unfolding listActive_filter filter_map filter_sort by (simp add: comp_def assms conj_commute)

definition review_row :: "profile_row \<Rightarrow> bool" where
  "review_row e \<longleftrightarrow> review_slot e \<and> pe_origin e = OriginUser \<and> recorded_review_of (pe_value e) \<noteq> None"

lemma is_review_truncate: "is_review_entry (profile_entry.truncate e) = review_row e"
  by (auto simp: is_review_entry_def review_row_def review_slot_def)

lemma sole_review:
  assumes "filter (\<lambda>e. active_of p e \<and> review_row e) (pf_entries db) = [x]"
  shows "readRecordedRepositoryReview (listActiveProfileEntries db p) = recorded_review_of (pe_value x)"
proof -
  have "filter is_review_entry (listActiveProfileEntries db p) = [profile_entry.truncate x]"
    unfolding filter_active [of is_review_entry review_row, OF is_review_truncate] assms by simp
  then show ?thesis by (simp add: readRecordedRepositoryReview_def)
qed

definition facts_of :: "'z profile_db_scheme \<Rightarrow> string \<Rightarrow> repository_facts option" where
  "facts_of db p = repositoryFactsFromProfile (listActiveProfileEntries db p)"

lemma facts_of_rows:
  assumes "filter (\<lambda>e. active_of p e \<and> pe_origin e = OriginDetected) (pf_entries db)
    = filter (\<lambda>e. active_of p e \<and> pe_origin e = OriginDetected) (pf_entries db')"
  shows "facts_of db p = facts_of db' p"
proof -
  have "detected_entries (listActiveProfileEntries db p) = detected_entries (listActiveProfileEntries db' p)"
    unfolding detected_entries_def
    by (subst (1 2) filter_active [of _ "\<lambda>e. pe_origin e = OriginDetected"]) (simp_all add: assms)
  then show ?thesis unfolding facts_of_def using facts_of_detected by metis
qed

lemma stored_entry_fields [simp]:
  "pe_origin (stored_entry e) = pe_origin e" "pe_category (stored_entry e) = pe_category e" "pe_key (stored_entry e) = pe_key e"
  "pe_value (stored_entry e) = pe_value e" "pe_projectId (stored_entry e) = pe_projectId e" "pe_supersededAt (stored_entry e) = None"
  "pe_id (stored_entry e) = pe_id e" "pe_createdAt (stored_entry e) = pe_createdAt e"
  by (simp_all add: stored_entry_def profile_entry.defs profile_row.defs)

text \<open>The state after a confirmation, as rows.\<close>

lemma confirm_rows:
  assumes "ConfirmRepositoryUnderstanding sv sha256 p s w = (ok c, w')"
    and slots: "\<forall>e \<in> set (pf_entries (w_db w)). review_slot e \<longrightarrow> pe_origin e \<noteq> OriginDetected"
    and sha: "\<And>x. sha256 x \<noteq> []"
  shows "\<exists>f x. facts_of (w_db w) p = Some f \<and> cf_fingerprint c = repositoryUnderstandingFingerprint sha256 f
    \<and> facts_of (w_db w') p = Some f
    \<and> filter (\<lambda>e. active_of p e \<and> review_row e) (pf_entries (w_db w')) = [x] \<and> pe_origin x = OriginUser
    \<and> map_option rr_fingerprint (recorded_review_of (pe_value x)) = Some (cf_fingerprint c)"
proof -
  obtain f now i db1 r where f: "facts_of (w_db w) p = Some f"
    and sup: "supersedeProfileEntries p handoverReviewCategory handoverReviewKey now (w_db w) = ok ((), db1)"
    and sav: "saveProfileEntry (review_entry i p r now) db1 = ok ((), w_db w')"
    and c: "cf_fingerprint c = rr_fingerprint r" "rr_fingerprint r = repositoryUnderstandingFingerprint sha256 f"
    using assms(1)
    by (auto simp: ConfirmRepositoryUnderstanding_def Let_def result_simps transaction_ok facts_of_def split: option.splits if_splits)
  let ?x = "stored_entry (review_entry i p r now)"
  have rows: "filter (active_of p) (pf_entries (w_db w')) = filter (\<lambda>x. active_of p x \<and> \<not> review_slot x) (pf_entries (w_db w)) @ [?x]"
    by (rule confirmed_rows [OF sup sav]) (simp add: review_entry_def)
  have split: "filter (\<lambda>e. active_of p e \<and> Q e) (pf_entries (w_db w'))
      = filter (\<lambda>e. active_of p e \<and> \<not> review_slot e \<and> Q e) (pf_entries (w_db w)) @ filter Q [?x]" for Q
    using arg_cong [OF rows, of "filter Q"] by (simp add: conj_ac)
  have "filter (\<lambda>e. active_of p e \<and> pe_origin e = OriginDetected) (pf_entries (w_db w'))
      = filter (\<lambda>e. active_of p e \<and> pe_origin e = OriginDetected) (pf_entries (w_db w))"
    unfolding split using slots by (auto simp: review_entry_def intro: filter_cong)
  then have "facts_of (w_db w') p = Some f" using facts_of_rows f by metis
  moreover have "rr_fingerprint r \<noteq> []" using sha by (simp add: c(2) repositoryUnderstandingFingerprint_def)
  then have "filter (\<lambda>e. active_of p e \<and> review_row e) (pf_entries (w_db w')) = [?x]"
    "recorded_review_of (pe_value ?x) = Some r"
    unfolding split by (auto simp: review_row_def review_slot_def review_entry_def filter_empty_conv)
  ultimately show ?thesis using f c by (auto simp: review_entry_def intro!: exI [of _ ?x])
qed

lemma saveProfileEntries_rows: "saveProfileEntries es db = ok (u, d) \<Longrightarrow> pf_entries d = pf_entries db @ map stored_entry es"
  by (induction es arbitrary: db) (auto simp: saveProfileEntry_def result_simps split: if_splits)

lemma replaceDetected_rows:
  assumes "replaceDetected es db = ok (u, d)" and "\<forall>e \<in> set es. pe_origin e = OriginDetected"
  shows "filter (\<lambda>e. active_of p e \<and> review_row e) (pf_entries d) = filter (\<lambda>e. active_of p e \<and> review_row e) (pf_entries db)"
proof (cases es)
  case Nil
  then show ?thesis using assms(1) by (simp add: replaceDetected_def)
next
  case (Cons first rest)
  have "filter (\<lambda>e. active_of p e \<and> review_row e) (map stored_entry es) = []"
    using assms(2) by (auto simp: filter_empty_conv review_row_def)
  moreover have "pf_entries d = filter (\<lambda>e. \<not> (pe_projectId e = pe_projectId first \<and> pe_origin e = OriginDetected)) (pf_entries db)
      @ map stored_entry es"
    using assms(1) Cons saveProfileEntries_rows [of es "db\<lparr>pf_entries := filter (\<lambda>e. \<not> (pe_projectId e = pe_projectId first
      \<and> pe_origin e = OriginDetected)) (pf_entries db)\<rparr>" u d] by (simp add: replaceDetected_def)
  ultimately show ?thesis by (auto simp: review_row_def intro: filter_cong)
qed

lemma review_of_sole:
  assumes "filter (\<lambda>e. active_of p e \<and> review_row e) (pf_entries d) = [x]"
    and "map_option rr_fingerprint (recorded_review_of (pe_value x)) = Some h"
  shows "hk_repositoryReview (handoverKnowledge sha256 office p status d) = (case facts_of d p of None \<Rightarrow> NotReviewed
    | Some f \<Rightarrow> if repositoryUnderstandingFingerprint sha256 f = h then ReviewCurrent else ReviewStale)"
  using assms(2) sole_review [OF assms(1)]
  by (auto simp: handoverKnowledge_def Let_def review_of_facts_def facts_of_def split: option.splits)

text \<open>C8. A confirmation holds until the facts change. After \<open>ConfirmRepositoryUnderstanding\<close> the review of the
  repository is current; when a later import replaces the detected evidence, it is current or stale exactly
  as the fingerprint of the new facts is the confirmed one. Earlier confirmations have no say.\<close>

theorem confirmed_review_until_facts_change:
  assumes "ConfirmRepositoryUnderstanding sv sha256 p s w = (ok c, w')"
    and "\<forall>e \<in> set (pf_entries (w_db w)). review_slot e \<longrightarrow> pe_origin e \<noteq> OriginDetected"
    and "\<And>x. sha256 x \<noteq> []"
    and "replaceDetected es (w_db w') = ok (u, d)" and "\<forall>e \<in> set es. pe_origin e = OriginDetected"
  shows "hk_repositoryReview (handoverKnowledge sha256 office p status (w_db w')) = ReviewCurrent
    \<and> hk_repositoryReview (handoverKnowledge sha256 office p status d) = (case facts_of d p of None \<Rightarrow> NotReviewed
        | Some f \<Rightarrow> if repositoryUnderstandingFingerprint sha256 f = cf_fingerprint c then ReviewCurrent else ReviewStale)"
proof -
  obtain f x where f: "cf_fingerprint c = repositoryUnderstandingFingerprint sha256 f" "facts_of (w_db w') p = Some f"
    and x: "filter (\<lambda>e. active_of p e \<and> review_row e) (pf_entries (w_db w')) = [x]"
    "map_option rr_fingerprint (recorded_review_of (pe_value x)) = Some (cf_fingerprint c)"
    using confirm_rows [OF assms(1,2,3)] by blast
  have "filter (\<lambda>e. active_of p e \<and> review_row e) (pf_entries d) = [x]"
    using replaceDetected_rows [OF assms(4,5)] x(1) by simp
  then show ?thesis using review_of_sole [OF x, of sha256 office status] review_of_sole [OF _ x(2), of p d sha256 office status] f
    by simp
qed

section \<open>Answers\<close>

text \<open>The operations an answer to a permission question grants.\<close>

definition granted_operations :: "json \<Rightarrow> string list" where
  "granted_operations v = (case v of JObj es \<Rightarrow> fact_texts (map_of es ''operations'') | _ \<Rightarrow> [])"

lemma texts_of_map: "List.map_filter json_text_of (map JStr xs) = xs"
  by (induction xs) (auto simp: List.map_filter_def)

lemma parsePermissionAnswer_within: "parsePermissionAnswer v allowed = ok ops \<Longrightarrow> set ops \<subseteq> set allowed"
  by (auto simp: parsePermissionAnswer_def Let_def js_unique_def filter_empty_conv split: if_splits)

lemma structuredAnswer_category: "structuredAnswer q v = ok a \<Longrightarrow> an_category a = qu_answerCategory q"
  by (auto simp: structuredAnswer_def Let_def result_simps split: if_splits answer_type.splits)

lemma structuredAnswer_permission:
  assumes "structuredAnswer q v = ok a" and "qu_answerCategory q = PermissionAnswer"
  shows "set (granted_operations (an_value a)) \<subseteq> set agentOperations"
    and "qu_options q = Some os \<Longrightarrow> set (granted_operations (an_value a)) \<subseteq> set os"
proof -
  let ?allowed = "filter (\<lambda>operation. operation \<in> set agentOperations) (case qu_options q of None \<Rightarrow> agentOperations | Some os \<Rightarrow> os)"
  obtain ops where ops: "parsePermissionAnswer v ?allowed = ok ops" "a = \<lparr>an_category = PermissionAnswer, an_value = JObj [(''operations'', JArr (map JStr ops))]\<rparr>"
    using assms by (auto simp: structuredAnswer_def Let_def result_simps)
  have "granted_operations (an_value a) = ops" using ops(2) by (simp add: granted_operations_def fact_texts_def texts_of_map)
  then show "set (granted_operations (an_value a)) \<subseteq> set agentOperations"
    and "qu_options q = Some os \<Longrightarrow> set (granted_operations (an_value a)) \<subseteq> set os"
    using parsePermissionAnswer_within [OF ops(1)] by auto
qed

lemma saveProfileEntry_ok: "saveProfileEntry e db = ok (u, d) \<Longrightarrow> d = db\<lparr>pf_entries := pf_entries db @ [stored_entry e]\<rparr>"
  by (auto simp: saveProfileEntry_def result_simps split: if_splits)

lemma find_map: "(\<And>x. P (f x) = P x) \<Longrightarrow> find P (map f xs) = map_option f (find P xs)"
  by (induction xs) auto

text \<open>What an answer changes: the question and one entry of the profile.\<close>

lemma answer_work_ok:
  assumes "answer_work sv p q v w = (ok a, w')"
  shows "\<exists>x e now. findQuestion (w_db w) p q = Some x \<and> qu_answer x = None \<and> structuredAnswer x v = ok a
    \<and> map_option qu_answer (findQuestion (w_db w') p q) = Some (Some a)
    \<and> pf_entries (w_db w') = pf_entries (w_db w) @ [stored_entry e] \<and> pe_projectId e = p
    \<and> pe_category e = category_str (an_category a) \<and> pe_key e = qu_key x \<and> pe_value e = an_value a \<and> pe_origin e = OriginUser"
proof -
  obtain x now i d where x: "findQuestion (w_db w) p q = Some x" "qu_answer x = None" "structuredAnswer x v = ok a"
    and ans: "answerQuestion (qu_id x) a now (w_db w) = ok ((), d)"
    and sav: "saveProfileEntry (answer_entry i p x a now) d = ok ((), w_db w')"
    using assms by (auto simp: answer_work_def result_simps split: option.splits if_splits)
  let ?f = "\<lambda>r. if qu_id r = qu_id x \<and> qu_answer r = None then r\<lparr>qu_answer := Some a, qu_answeredAt := Some now\<rparr> else r"
  have d: "pf_questions d = map ?f (pf_questions (w_db w))" "pf_entries d = pf_entries (w_db w)"
    using ans by (auto simp: answerQuestion_def result_simps)
  obtain r where r: "find (\<lambda>r. qu_projectId r = p \<and> qu_id r = q) (pf_questions (w_db w)) = Some r" "x = project_question.truncate r"
    using x(1) by (auto simp: findQuestion_def)
  then have "qu_answer r = None" "qu_id x = qu_id r" using x(2) by (auto simp: project_question.defs)
  have w': "pf_questions (w_db w') = pf_questions d"
    "pf_entries (w_db w') = pf_entries d @ [stored_entry (answer_entry i p x a now)]"
    using saveProfileEntry_ok [OF sav] by simp_all
  have "find (\<lambda>r. qu_projectId r = p \<and> qu_id r = q) (pf_questions (w_db w')) = Some (?f r)"
    unfolding w'(1) d(1) by (subst find_map) (auto simp: r(1))
  then have "map_option qu_answer (findQuestion (w_db w') p q) = Some (Some a)"
    using \<open>qu_answer r = None\<close> \<open>qu_id x = qu_id r\<close> by (simp add: findQuestion_def project_question.defs)
  then show ?thesis using x w'(2) d(2) by (auto simp: answer_entry_def intro!: exI [of _ "answer_entry i p x a now"])
qed

definition already_answered :: "string \<Rightarrow> error" where
  "already_answered q = ClassError ''ProjectQuestionAlreadyAnsweredError'' (''Question '' @ q @ '' has already been answered'')"

text \<open>A question is answered once, within what it offers. An accepted answer is stored with the question and as
  a user entry of the profile under the question's key; for a permission question the granted operations are
  agent operations that the question offered. Any further answer is refused.\<close>

theorem question_answered_once:
  assumes "AnswerProjectQuestion sv p q v w = (ok a, w')"
  shows "(\<exists>x e. findQuestion (w_db w) p q = Some x \<and> qu_answer x = None \<and> an_category a = qu_answerCategory x
      \<and> (an_category a \<noteq> PermissionAnswer \<or> set (granted_operations (an_value a)) \<subseteq> set agentOperations
           \<inter> (case qu_options x of None \<Rightarrow> UNIV | Some os \<Rightarrow> set os))
      \<and> pf_entries (w_db w') = pf_entries (w_db w) @ [stored_entry e] \<and> pe_key e = qu_key x \<and> pe_value e = an_value a
      \<and> pe_origin e = OriginUser)
    \<and> map_option qu_answer (findQuestion (w_db w') p q) = Some (Some a)
    \<and> (\<forall>v'. fst (AnswerProjectQuestion sv p q v' w') = throw (already_answered q))"
proof -
  obtain w1 where w1: "answer_work sv p q v (w\<lparr>w_active := True\<rparr>) = (ok a, w1)" "w' = w1\<lparr>w_active := False\<rparr>"
    using assms by (auto simp: AnswerProjectQuestion_def transaction_ok)
  from answer_work_ok [OF w1(1)] obtain x e where
    x: "findQuestion (w_db w) p q = Some x" "qu_answer x = None" "structuredAnswer x v = ok a"
    and after: "map_option qu_answer (findQuestion (w_db w') p q) = Some (Some a)"
    and e: "pf_entries (w_db w') = pf_entries (w_db w) @ [stored_entry e]" "pe_key e = qu_key x" "pe_value e = an_value a"
      "pe_origin e = OriginUser"
    using w1(2) by auto
  obtain y where y: "findQuestion (w_db w') p q = Some y" "qu_answer y = Some a" using after by auto
  have again: "fst (AnswerProjectQuestion sv p q v' w') = throw (already_answered q)" for v'
    using y w1(2) by (simp add: AnswerProjectQuestion_def transaction_def answer_work_def bindM_def already_answered_def)
  have "an_category a \<noteq> PermissionAnswer \<or> set (granted_operations (an_value a)) \<subseteq> set agentOperations
           \<inter> (case qu_options x of None \<Rightarrow> UNIV | Some os \<Rightarrow> set os)"
    using structuredAnswer_permission [OF x(3)] structuredAnswer_category [OF x(3)] by (auto split: option.splits)
  then show ?thesis using x e after again structuredAnswer_category [OF x(3)] by blast
qed

section \<open>Checkouts\<close>

text \<open>A path is recorded once, and is attached or detached but not both.\<close>

definition checkouts_ok :: "'z profile_db_scheme \<Rightarrow> bool" where
  "checkouts_ok db \<longleftrightarrow> distinct (map so_localPath (pf_sources db)) \<and> fst ` set (pf_detached db) \<inter> so_localPath ` set (pf_sources db) = {}"

lemma map_path:
  "(\<And>s. so_localPath (f s) = so_localPath s) \<Longrightarrow> map so_localPath (map f xs) = map so_localPath xs"
  by (simp add: comp_def)

lemma saveSource_ok:
  assumes "saveSource v db = ok (u, d)"
  obtains f where "pf_sources d = map f (pf_sources db)" "so_localPath v \<in> so_localPath ` set (pf_sources db)"
      "\<And>s. so_localPath (f s) = so_localPath s \<and> so_projectId (f s) = so_projectId s"
      "pf_detached d = filter (\<lambda>x. fst x \<noteq> so_localPath v) (pf_detached db)"
  | "pf_sources d = pf_sources db @ [v]" "so_localPath v \<notin> so_localPath ` set (pf_sources db)"
      "pf_detached d = filter (\<lambda>x. fst x \<noteq> so_localPath v) (pf_detached db)"
proof (cases "so_localPath v \<in> so_localPath ` set (pf_sources db)")
  case True
  then have "\<exists>s \<in> set (pf_sources db). so_localPath s = so_localPath v" by (metis imageE)
  then show thesis using assms True
    by (intro that(1) [of "\<lambda>s. if so_localPath s = so_localPath v
      then s\<lparr>so_remoteUrl := so_remoteUrl v, so_defaultBranch := so_defaultBranch v\<rparr> else s"])
      (auto simp: saveSource_def result_simps Let_def)
next
  case False
  then have "\<not> (\<exists>s \<in> set (pf_sources db). so_localPath s = so_localPath v)" by (metis image_eqI)
  then show thesis using assms False by (intro that(2)) (auto simp: saveSource_def result_simps Let_def split: if_splits)
qed

lemma saveSource_checkouts:
  assumes "saveSource v db = ok (u, d)" and "checkouts_ok db"
  shows "checkouts_ok d" and "so_localPath v \<notin> fst ` set (pf_detached d)"
    and "\<And>s. s \<in> set (pf_sources db) \<Longrightarrow> \<exists>s' \<in> set (pf_sources d). so_localPath s' = so_localPath s \<and> so_projectId s' = so_projectId s"
    and "\<exists>s \<in> set (pf_sources d). so_localPath s = so_localPath v"
    and "so_localPath v \<notin> so_localPath ` set (pf_sources db) \<Longrightarrow> v \<in> set (pf_sources d)"
proof -
  have "checkouts_ok d \<and> so_localPath v \<notin> fst ` set (pf_detached d)
    \<and> (\<forall>s \<in> set (pf_sources db). \<exists>s' \<in> set (pf_sources d). so_localPath s' = so_localPath s \<and> so_projectId s' = so_projectId s)
    \<and> (\<exists>s \<in> set (pf_sources d). so_localPath s = so_localPath v)
    \<and> (so_localPath v \<notin> so_localPath ` set (pf_sources db) \<longrightarrow> v \<in> set (pf_sources d))"
  proof (cases rule: saveSource_ok [OF assms(1)])
    case (1 f)
    have m: "map so_localPath (pf_sources d) = map so_localPath (pf_sources db)" using 1(1,3) by simp
    then have "so_localPath ` set (pf_sources d) = so_localPath ` set (pf_sources db)" by (metis set_map)
    moreover have "fst ` set (pf_detached d) \<subseteq> fst ` set (pf_detached db)" using 1(4) by auto
    ultimately have "checkouts_ok d" using assms(2) m unfolding checkouts_ok_def by auto
    moreover have "so_localPath v \<notin> fst ` set (pf_detached d)" using 1(4) by auto
    ultimately show ?thesis using 1(1,2,3) by (auto simp: image_iff)
  next
    case 2
    then show ?thesis using assms(2) by (auto simp: checkouts_ok_def)
  qed
  then show "checkouts_ok d" and "so_localPath v \<notin> fst ` set (pf_detached d)"
    and "\<And>s. s \<in> set (pf_sources db) \<Longrightarrow> \<exists>s' \<in> set (pf_sources d). so_localPath s' = so_localPath s \<and> so_projectId s' = so_projectId s"
    and "\<exists>s \<in> set (pf_sources d). so_localPath s = so_localPath v"
    and "so_localPath v \<notin> so_localPath ` set (pf_sources db) \<Longrightarrow> v \<in> set (pf_sources d)" by blast+
qed

lemma found_attached:
  assumes "checkouts_ok db" and s: "s \<in> set (pf_sources db)"
  shows "findProjectIdByLocalPath db (so_localPath s) = Some (so_projectId s)"
proof -
  have "so_localPath s \<notin> fst ` set (pf_detached db)" using assms by (auto simp: checkouts_ok_def)
  then have "\<not> (\<exists>d \<in> set (pf_detached db). fst d = so_localPath s)" by (metis image_eqI)
  moreover have "filter (\<lambda>x. so_localPath x = so_localPath s) (pf_sources db) = [s]"
    using assms by (intro filter_key [of so_localPath]) (auto simp: checkouts_ok_def)
  ultimately show ?thesis by (simp add: findProjectIdByLocalPath_def sort_key_def)
qed

lemma saveProject_sources: "saveProject v db = ok (u, d) \<Longrightarrow> pf_sources d = pf_sources db \<and> pf_detached d = pf_detached db"
  by (auto simp: saveProject_def result_simps split: if_splits)

lemma associate_sources: "associate r p t db = ok (u, d) \<Longrightarrow> pf_sources d = pf_sources db \<and> pf_detached d = pf_detached db"
  by (auto simp: associate_def result_simps split: if_splits)

lemma saveScan_sources: "saveScan v db = ok (u, d) \<Longrightarrow> pf_sources d = pf_sources db \<and> pf_detached d = pf_detached db"
  by (auto simp: saveScan_def result_simps split: if_splits)

lemma saveProfileEntries_sources:
  "saveProfileEntries es db = ok (u, d) \<Longrightarrow> pf_sources d = pf_sources db \<and> pf_detached d = pf_detached db"
  by (induction es arbitrary: db) (auto simp: saveProfileEntry_def result_simps split: if_splits)

lemma replaceDetected_sources: "replaceDetected es db = ok (u, d) \<Longrightarrow> pf_sources d = pf_sources db \<and> pf_detached d = pf_detached db"
  by (cases es) (auto simp: replaceDetected_def simp del: saveProfileEntries.simps dest!: saveProfileEntries_sources)

lemma build_entries_db: "build_entries sv p now fs w = (ok es, w') \<Longrightarrow> w_db w' = w_db w"
  by (induction sv p now fs arbitrary: w es w' rule: build_entries.induct) (auto simp: result_simps)

lemma import_target_ok:
  assumes "import_target sv target name repo scan t w = (ok (p, c), w')"
  shows "pf_sources (w_db w') = pf_sources (w_db w) \<and> pf_detached (w_db w') = pf_detached (w_db w) \<and> (c \<longleftrightarrow> target = None)"
    and "target = Some q \<Longrightarrow> p = q"
  using assms by (auto simp: import_target_def result_simps dest!: saveProject_sources associate_sources split: option.splits if_splits)

lemma import_work_ok:
  assumes "import_work sv name given_project repositoryId scan t0 t1 w = (ok r, w')"
  obtains existing w1 c v d where "existing = findProjectIdByLocalPath (w_db w) (ps_rootPath scan)"
    "given_project = None \<or> existing = None \<or> existing = given_project"
    "import_target sv (case given_project of None \<Rightarrow> existing | Some i \<Rightarrow> Some i) name repositoryId scan t1 w = (ok (im_projectId r, c), w1)"
    "saveSource v (w_db w1) = ok ((), d)" "so_projectId v = im_projectId r" "so_localPath v = ps_rootPath scan"
    "pf_sources (w_db w') = pf_sources d" "pf_detached (w_db w') = pf_detached d" "im_scan r = scan"
  using assms
  by (auto simp: import_work_def profileEntries_def result_simps split: if_splits dest!: build_entries_db saveScan_sources
      replaceDetected_sources intro!: that [OF refl])

lemma import_project_ok:
  assumes "ImportProject sv scanner rootPath name given_project repositoryId w = (ok r, w')"
    and "\<And>v x v'. scanner rootPath v = (x, v') \<Longrightarrow> w_db v' = w_db v"
  obtains v t0 t1 scan where "w_db v = w_db w" "transaction (import_work sv name given_project repositoryId scan t0 t1) v = (ok r, w')"
proof -
  obtain scan v1 where s: "scanner rootPath (w\<lparr>w_clock := Suc (w_clock w)\<rparr>) = (ok scan, v1)"
    and work: "transaction (import_work sv name given_project repositoryId scan (sv_now sv (w_clock w)) (sv_now sv (w_clock v1)))
      (v1\<lparr>w_clock := Suc (w_clock v1)\<rparr>) = (ok r, w')"
    using assms(1) by (cases given_project) (auto simp: ImportProject_def result_simps)
  show thesis by (rule that [OF _ work]) (use assms(2) [OF s] in simp)
qed

text \<open>C9. An import binds its checkout to one project. The imported path then finds the project of the result,
  which is the given one if one was given; no path is recorded twice or both attached and detached,
  and every checkout that was attached stays with its project.\<close>

theorem import_binds_checkout:
  assumes "ImportProject sv scanner rootPath name given_project repositoryId w = (ok r, w')"
    and "\<And>v x v'. scanner rootPath v = (x, v') \<Longrightarrow> w_db v' = w_db v"
    and "checkouts_ok (w_db w)"
  shows "checkouts_ok (w_db w') \<and> findProjectIdByLocalPath (w_db w') (ps_rootPath (im_scan r)) = Some (im_projectId r)
    \<and> (given_project = None \<or> given_project = Some (im_projectId r))
    \<and> (\<forall>s \<in> set (pf_sources (w_db w)). findProjectIdByLocalPath (w_db w') (so_localPath s) = Some (so_projectId s))"
proof -
  obtain v1 v2 t0 t1 scan where db: "w_db v1 = w_db w"
    and work: "transaction (import_work sv name given_project repositoryId scan t0 t1) v1 = (ok r, w')"
    by (rule import_project_ok [OF assms(1)]) (use assms(2) in blast)+
  let ?path = "ps_rootPath scan"
  obtain w2 where run: "import_work sv name given_project repositoryId scan t0 t1 (v1\<lparr>w_active := True\<rparr>) = (ok r, w2)"
    "w_db w' = w_db w2" using work by (auto simp: transaction_ok)
  obtain existing w1 c v d where 1: "existing = findProjectIdByLocalPath (w_db w) ?path"
    "given_project = None \<or> existing = None \<or> existing = given_project"
    "import_target sv (case given_project of None \<Rightarrow> existing | Some i \<Rightarrow> Some i) name repositoryId scan t1 (v1\<lparr>w_active := True\<rparr>)
       = (ok (im_projectId r, c), w1)"
    "saveSource v (w_db w1) = ok ((), d)" "so_projectId v = im_projectId r" "so_localPath v = ?path"
    "pf_sources (w_db w') = pf_sources d" "pf_detached (w_db w') = pf_detached d" "im_scan r = scan"
    by (rule import_work_ok [OF run(1)]) (rule that, simp_all add: db run(2))
  have w1: "pf_sources (w_db w1) = pf_sources (w_db w)" "pf_detached (w_db w1) = pf_detached (w_db w)"
    using import_target_ok(1) [OF 1(3)] db by simp_all
  then have before: "checkouts_ok (w_db w1)" using assms(3) by (simp add: checkouts_ok_def)
  note saved = saveSource_checkouts [OF 1(4) before]
  have after: "checkouts_ok (w_db w')" using saved(1) 1(7,8) by (simp add: checkouts_ok_def)
  have keep: "findProjectIdByLocalPath (w_db w') (so_localPath s) = Some (so_projectId s)" if "s \<in> set (pf_sources (w_db w))" for s
    using saved(3) [of s] that w1(1) 1(7) found_attached [OF after] by metis
  have "findProjectIdByLocalPath (w_db w') ?path = Some (im_projectId r)"
  proof (cases "?path \<in> so_localPath ` set (pf_sources (w_db w))")
    case True
    then obtain s where s: "s \<in> set (pf_sources (w_db w))" "?path = so_localPath s" by blast
    then have e: "existing = Some (so_projectId s)" using found_attached [OF assms(3) s(1)] 1(1) by simp
    then have "im_projectId r = so_projectId s" using 1(2) import_target_ok(2) [OF 1(3)] by (cases given_project) auto
    then show ?thesis using keep [OF s(1)] s(2) by simp
  next
    case False
    then have "v \<in> set (pf_sources (w_db w'))" using saved(5) 1(6,7) w1(1) by simp
    then show ?thesis using found_attached [OF after] 1(5,6) by metis
  qed
  moreover have "given_project = None \<or> given_project = Some (im_projectId r)"
    using import_target_ok(2) [OF 1(3)] by (cases given_project) auto
  ultimately show ?thesis using after keep 1(9) by simp
qed

section \<open>A project, step by step\<close>

text \<open>A repository is imported, a question about it answered and its review confirmed; then other facts are detected.\<close>

definition sample_profile_services :: services where
  "sample_profile_services = \<lparr>sv_id = (\<lambda>n. replicate n (CHR ''i'')), sv_now = (\<lambda>n. At (int n))\<rparr>"

definition sample_scan :: "string list \<Rightarrow> project_scan_summary" where
  "sample_scan ls = \<lparr>ps_rootPath = ''/r'', ps_projectName = ''r'', ps_remoteUrl = None, ps_currentBranch = None,
     ps_defaultBranch = None, ps_hasCommitHistory = Some True, ps_packageManager = None, ps_languages = ls, ps_frameworks = [],
     ps_databases = [], ps_testing = [], ps_documentation = [], ps_detectedFiles = [''a.ts'']\<rparr>"

definition sample_question :: question_row where
  "sample_question = \<lparr>qu_id = ''q'', qu_projectId = ''i'', qu_scanId = None, qu_key = ''permissions'', qu_question = ''?'',
     qu_reason = '''', qu_answerCategory = PermissionAnswer, qu_answerType = TextAnswer, qu_options = Some [''read_files'', ''run_tests''],
     qu_priority = 1, qu_source = DeterministicSource, qu_generationId = None, qu_answer = None, qu_answeredAt = None,
     qu_normalizedQuestion = ''?''\<rparr>"

definition sample_profile :: "profile_db world" where
  "sample_profile = \<lparr>w_db = \<lparr>db_projects = [], db_tasks = [], db_dependencies = [], db_executed = [], db_audit = [],
     gd_milestones = [], gd_requirements = [], gd_adrs = [], gd_reviews = [], gd_approvals = [], gd_events = [], gd_agentRuns = [],
     gd_links = [], pf_projects = [], pf_identities = [], pf_sources = [], pf_detached = [], pf_scans = [], pf_entries = [],
     pf_generations = [], pf_questions = [sample_question]\<rparr>, w_active = False, w_ids = 1, w_clock = 0\<rparr>"

definition sample_import :: "profile_db world \<Rightarrow> import_result result \<times> profile_db world" where
  "sample_import = ImportProject sample_profile_services (\<lambda>_. returnM (sample_scan [''ts''])) ''.'' None None None"

lemma sample_import_ok:
  "case sample_import sample_profile of (r, w) \<Rightarrow> r = ok \<lparr>im_projectId = ''i'', im_created = True, im_scan = sample_scan [''ts'']\<rparr>
     \<and> length (pf_sources (w_db w)) = 1 \<and> \<not> w_active w"
  by code_simp

theorem import_binds_checkout_witness:
  "findProjectIdByLocalPath (w_db (snd (sample_import sample_profile))) ''/r'' = Some ''i''"
proof -
  obtain w where w: "sample_import sample_profile = (ok \<lparr>im_projectId = ''i'', im_created = True, im_scan = sample_scan [''ts'']\<rparr>, w)"
    using sample_import_ok by (auto split: prod.splits)
  have "checkouts_ok (w_db sample_profile)" by (simp add: sample_profile_def checkouts_ok_def)
  from import_binds_checkout [OF w [unfolded sample_import_def] _ this] show ?thesis
    using w by (simp add: sample_scan_def)
qed

definition sample_answer :: "profile_db world \<Rightarrow> project_answer result \<times> profile_db world" where
  "sample_answer = AnswerProjectQuestion sample_profile_services ''i'' ''q'' '' Run_tests,''"

lemma sample_answer_ok:
  "fst (sample_answer (snd (sample_import sample_profile)))
     = ok \<lparr>an_category = PermissionAnswer, an_value = JObj [(''operations'', JArr [JStr ''run_tests''])]\<rparr>"
  by code_simp

theorem question_answered_once_witness:
  "fst (sample_answer (snd (sample_answer (snd (sample_import sample_profile))))) = throw (already_answered ''q'')"
proof -
  obtain w where w: "sample_answer (snd (sample_import sample_profile))
      = (ok \<lparr>an_category = PermissionAnswer, an_value = JObj [(''operations'', JArr [JStr ''run_tests''])]\<rparr>, w)"
    using sample_answer_ok by (metis prod.collapse)
  from question_answered_once [OF w [unfolded sample_answer_def]] show ?thesis using w by (simp add: sample_answer_def)
qed

definition sample_confirm :: "profile_db world \<Rightarrow> confirmation result \<times> profile_db world" where
  "sample_confirm = ConfirmRepositoryUnderstanding sample_profile_services (Cons CHR ''h'') ''i'' ''seen''"

definition sample_rescan :: "profile_entry list" where
  "sample_rescan = [\<lparr>pe_id = ''z'', pe_projectId = ''i'', pe_category = ''stack'', pe_key = ''languages'', pe_value = JArr [JStr ''go''],
     pe_origin = OriginDetected, pe_confidence = 1, pe_sourceReference = None, pe_confirmedAt = None, pe_createdAt = At 9\<rparr>]"

definition sample_reviewed :: bool where
  "sample_reviewed \<longleftrightarrow> (case sample_confirm (snd (sample_import sample_profile)) of
     (Inr c, w) \<Rightarrow> (case replaceDetected sample_rescan (w_db w) of
        Inr (u, d) \<Rightarrow> (case facts_of d ''i'' of None \<Rightarrow> False
          | Some f \<Rightarrow> repositoryUnderstandingFingerprint (Cons CHR ''h'') f \<noteq> cf_fingerprint c)
      | Inl e \<Rightarrow> False)
   | (Inl e, w) \<Rightarrow> False)"

lemma sample_reviewed_ok: sample_reviewed
  by code_simp

lemma sample_reviewed_cases:
  obtains c w d f where "sample_confirm (snd (sample_import sample_profile)) = (ok c, w)"
    and "replaceDetected sample_rescan (w_db w) = ok ((), d)"
    and "facts_of d ''i'' = Some f" and "repositoryUnderstandingFingerprint (Cons CHR ''h'') f \<noteq> cf_fingerprint c"
proof -
  obtain r w where w: "sample_confirm (snd (sample_import sample_profile)) = (r, w)" by (cases "sample_confirm (snd (sample_import sample_profile))")
  then obtain c where c: "r = ok c" using sample_reviewed_ok by (cases r) (simp_all add: sample_reviewed_def)
  then obtain d where d: "replaceDetected sample_rescan (w_db w) = ok ((), d)"
    using sample_reviewed_ok w by (cases "replaceDetected sample_rescan (w_db w)") (auto simp: sample_reviewed_def)
  then obtain f where "facts_of d ''i'' = Some f" "repositoryUnderstandingFingerprint (Cons CHR ''h'') f \<noteq> cf_fingerprint c"
    using sample_reviewed_ok w c by (cases "facts_of d ''i''") (simp_all add: sample_reviewed_def)
  then show thesis using that w c d by simp
qed

lemma sample_slots: "list_all (\<lambda>e. review_slot e \<longrightarrow> pe_origin e \<noteq> OriginDetected) (pf_entries (w_db (snd (sample_import sample_profile))))"
  by code_simp

theorem confirmed_review_until_facts_change_witness:
  "\<exists>(w :: profile_db world) d. replaceDetected sample_rescan (w_db w) = ok ((), d) \<and> (\<forall>status.
     hk_repositoryReview (handoverKnowledge (Cons CHR ''h'') None ''i'' status (w_db w)) = ReviewCurrent
     \<and> hk_repositoryReview (handoverKnowledge (Cons CHR ''h'') None ''i'' status d) = ReviewStale)"
proof -
  obtain c w d f where w: "sample_confirm (snd (sample_import sample_profile)) = (ok c, w)"
    and d: "replaceDetected sample_rescan (w_db w) = ok ((), d)"
    and f: "facts_of d ''i'' = Some f" "repositoryUnderstandingFingerprint (Cons CHR ''h'') f \<noteq> cf_fingerprint c"
    by (rule sample_reviewed_cases)
  have "\<forall>e \<in> set (pf_entries (w_db (snd (sample_import sample_profile)))). review_slot e \<longrightarrow> pe_origin e \<noteq> OriginDetected"
    using sample_slots by (simp add: list_all_iff)
  note after = confirmed_review_until_facts_change [OF w [unfolded sample_confirm_def] this _ d]
  have "hk_repositoryReview (handoverKnowledge (Cons CHR ''h'') None ''i'' status (w_db w)) = ReviewCurrent
     \<and> hk_repositoryReview (handoverKnowledge (Cons CHR ''h'') None ''i'' status d) = ReviewStale" for status
    using after [of None status] f by (simp add: sample_rescan_def)
  then show ?thesis using d by (intro exI [of _ w] exI [of _ d]) simp
qed

end
