(* ===== verification/Filesystem_Policy.thy ===== *)
theory Filesystem_Policy
  imports Connector_Registry "HOL-Library.Sublist"
begin

text \<open>
  What the filesystem connector permits, \<open>packages/filesystem-connector/src\<close>: the syntax of relative
  paths (\<open>filesystem-path.ts\<close>), the paths nobody may touch (\<open>sensitive-paths.ts\<close>), arguments
  (\<open>filesystem-arguments.ts\<close>), the constraints of grants and resources and how they combine
  (\<open>filesystem-constraints.ts\<close>), the text of a simulated change (\<open>unified-diff.ts\<close>), and the
  descriptors of the two connectors. Constraints and arguments are plain data.
  A limit is a safe integer of at least zero, kept as a natural number. Absolute paths are POSIX paths,
  as the lists of their segments.
\<close>

section \<open>The model\<close>

subsection \<open>Paths\<close>

abbreviation slash :: char where
  "slash \<equiv> CHR ''/''"

record path_limits =
  maxPathBytes :: nat
  maxPathSegments :: nat

definition fs_error :: "string \<Rightarrow> string \<Rightarrow> error" where
  "fs_error name message = ClassError name message"

definition invalid_path :: error where
  "invalid_path = fs_error ''InvalidRelativePathError'' ''Invalid relative filesystem path''"

definition path_outside_root :: error where
  "path_outside_root = fs_error ''PathOutsideRootError'' ''Filesystem path is outside the registered root''"

text \<open>\<open>win32.isAbsolute\<close>: a separator, or a drive letter with a separator.\<close>

definition win32_separator :: "char \<Rightarrow> bool" where
  "win32_separator c \<longleftrightarrow> c = slash \<or> c = CHR 0x5C"

definition drive_letter :: "char \<Rightarrow> bool" where
  "drive_letter c \<longleftrightarrow> 97 \<le> (of_char (to_lower c) :: nat) \<and> (of_char (to_lower c) :: nat) \<le> 122"

fun win32_absolute :: "string \<Rightarrow> bool" where
  "win32_absolute [] = False"
| "win32_absolute (c # cs) = (win32_separator c \<or> (case cs of
     d # e # _ \<Rightarrow> drive_letter c \<and> d = CHR '':'' \<and> win32_separator e | _ \<Rightarrow> False))"

definition unsafe_control :: "char \<Rightarrow> bool" where
  "unsafe_control c \<longleftrightarrow> (of_char c :: nat) < 32 \<or> (of_char c :: nat) = 127"

text \<open>\<open>/%(?:2e|2f|5c)/iu\<close>\<close>

fun encodedSeparatorOrDot :: "string \<Rightarrow> bool" where
  "encodedSeparatorOrDot (c # cs) =
     (c = CHR ''%'' \<and> take 2 (js_lower cs) \<in> {''2e'', ''2f'', ''5c''} \<or> encodedSeparatorOrDot cs)"
| "encodedSeparatorOrDot [] = False"

text \<open>A device name, alone or before the first dot.\<close>

definition windowsReservedNames :: "string list" where
  "windowsReservedNames = [''con'', ''prn'', ''aux'', ''nul'', ''com1'', ''com2'', ''com3'', ''com4'', ''com5'', ''com6'', ''com7'',
     ''com8'', ''com9'', ''lpt1'', ''lpt2'', ''lpt3'', ''lpt4'', ''lpt5'', ''lpt6'', ''lpt7'', ''lpt8'', ''lpt9'']"

definition windowsReservedName :: "string \<Rightarrow> bool" where
  "windowsReservedName segment \<longleftrightarrow> takeWhile (\<lambda>c. c \<noteq> CHR ''.'') (js_lower segment) \<in> set windowsReservedNames"

definition unsafe_segment :: "string \<Rightarrow> bool" where
  "unsafe_segment segment \<longleftrightarrow> length segment = 0 \<or> segment = ''.'' \<or> segment = ''..'' \<or> CHR '':'' \<in> set segment
     \<or> endsWith segment ''.'' \<or> endsWith segment '' '' \<or> windowsReservedName segment"

definition unsafe_path :: "string \<Rightarrow> bool" where
  "unsafe_path value \<longleftrightarrow> length value = 0 \<or> startsWith value ''/'' \<or> win32_absolute value \<or> endsWith value ''/''
     \<or> CHR 0x5C \<in> set value \<or> list_ex unsafe_control value \<or> encodedSeparatorOrDot value"

definition normalizeRelativePath :: "string \<Rightarrow> path_limits \<Rightarrow> bool \<Rightarrow> string result" where
  "normalizeRelativePath value limits allowRoot =
     (if allowRoot \<and> value = '''' then ok ''''
      else if unsafe_path value then throw invalid_path
      else
        let segments = js_split slash value in
        if length segments > maxPathSegments limits \<or> list_ex unsafe_segment segments
          \<or> utf8_length value > maxPathBytes limits
        then throw invalid_path else ok (join ''/'' segments))"

text \<open>\<open>resolve(root, ...segments)\<close> of the absolute path \<open>root\<close>.\<close>

definition resolve_segment :: "string list \<Rightarrow> string \<Rightarrow> string list" where
  "resolve_segment path s = (if s = '''' \<or> s = ''.'' then path else if s = ''..'' then butlast path else path @ [s])"

definition resolve_path :: "string list \<Rightarrow> string list \<Rightarrow> string list" where
  "resolve_path base segments = foldl resolve_segment base segments"

text \<open>The relation to the base climbs unless the candidate extends the root.\<close>

definition extends :: "string list \<Rightarrow> string list \<Rightarrow> bool" where
  "extends base candidate \<longleftrightarrow> take (length base) candidate = base"

definition resolveContainedPath :: "string list \<Rightarrow> string \<Rightarrow> string list result" where
  "resolveContainedPath base path =
     (let candidate = (if path = '''' then base else resolve_path base (js_split slash path)) in
      if extends base candidate then ok candidate else throw path_outside_root)"

definition pathMatchesPrefix :: "string \<Rightarrow> string \<Rightarrow> bool" where
  "pathMatchesPrefix path stem \<longleftrightarrow> path = stem \<or> startsWith path (stem @ ''/'')"

definition pathCanContainPrefix :: "string \<Rightarrow> string \<Rightarrow> bool" where
  "pathCanContainPrefix path stem \<longleftrightarrow> path = '''' \<or> pathMatchesPrefix stem path"

datatype path_classification = InsideAllowed | AncestorOfAllowed | PathDenied

definition classifyAllowedPath :: "string \<Rightarrow> string list option \<Rightarrow> path_classification" where
  "classifyAllowedPath path allowedPrefixes = (case allowedPrefixes of
     None \<Rightarrow> InsideAllowed
   | Some stems \<Rightarrow> if list_ex (pathMatchesPrefix path) stems then InsideAllowed
       else if list_ex (pathCanContainPrefix path) stems then AncestorOfAllowed else PathDenied)"

subsection \<open>Sensitive paths\<close>

definition sensitiveSegments :: "string list" where
  "sensitiveSegments = [''.ai-office'', ''.git'', ''.ssh'', ''.aws'', ''.kube'']"

definition sensitiveBasenames :: "string list" where
  "sensitiveBasenames = [''.npmrc'', ''.pypirc'', ''.netrc'', ''credentials'', ''credentials.json'', ''secrets'', ''secrets.json'',
     ''id_rsa'', ''id_ed25519'', ''.git-credentials'', ''git-credentials'']"

definition sensitiveExtensions :: "string list" where
  "sensitiveExtensions = [''.pem'', ''.key'', ''.p12'', ''.pfx'']"

definition isSensitiveFilesystemSegment :: "string \<Rightarrow> bool" where
  "isSensitiveFilesystemSegment segment =
     (let lower = js_lower segment in
      startsWith lower ''.ai-office-txn-'' \<or> lower \<in> set sensitiveSegments \<or> lower = ''.env'' \<or> startsWith lower ''.env.''
      \<or> lower \<in> set sensitiveBasenames \<or> list_ex (endsWith lower) sensitiveExtensions)"

fun gcloud_config :: "string list \<Rightarrow> bool" where
  "gcloud_config (s # t # rest) = (s = ''.config'' \<and> t = ''gcloud'' \<or> gcloud_config (t # rest))"
| "gcloud_config _ = False"

definition isBuiltInSensitiveFilesystemPath :: "string \<Rightarrow> bool" where
  "isBuiltInSensitiveFilesystemPath path =
     (let segments = map js_lower (filter (\<lambda>segment. length segment > 0) (js_split slash path)) in
      list_ex isSensitiveFilesystemSegment segments \<or> gcloud_config segments)"

definition isSensitiveFilesystemPath :: "string \<Rightarrow> string list \<Rightarrow> bool" where
  "isSensitiveFilesystemPath path additionalDeniedPrefixes =
     (let lower = js_lower path in
      isBuiltInSensitiveFilesystemPath lower
      \<or> list_ex (\<lambda>stem. pathMatchesPrefix lower (js_lower stem)) additionalDeniedPrefixes)"

subsection \<open>Constraints\<close>

datatype limit_field =
    MaxFileBytes | MaxOutputBytes | MaxResults | MaxVisitedEntries | MaxVisitedFiles | MaxVisitedDirectories | MaxDepth
  | MaxPathBytes | MaxPathSegments | MaxDiffBytes | MaxInlineContentBytes

definition maximumFields :: "limit_field list" where
  "maximumFields = [MaxFileBytes, MaxOutputBytes, MaxResults, MaxVisitedEntries, MaxVisitedFiles, MaxVisitedDirectories, MaxDepth,
     MaxPathBytes, MaxPathSegments, MaxDiffBytes, MaxInlineContentBytes]"

fun limit_str :: "limit_field \<Rightarrow> string" where
  "limit_str MaxFileBytes = ''maxFileBytes''"
| "limit_str MaxOutputBytes = ''maxOutputBytes''"
| "limit_str MaxResults = ''maxResults''"
| "limit_str MaxVisitedEntries = ''maxVisitedEntries''"
| "limit_str MaxVisitedFiles = ''maxVisitedFiles''"
| "limit_str MaxVisitedDirectories = ''maxVisitedDirectories''"
| "limit_str MaxDepth = ''maxDepth''"
| "limit_str MaxPathBytes = ''maxPathBytes''"
| "limit_str MaxPathSegments = ''maxPathSegments''"
| "limit_str MaxDiffBytes = ''maxDiffBytes''"
| "limit_str MaxInlineContentBytes = ''maxInlineContentBytes''"

fun filesystemHardLimits :: "limit_field \<Rightarrow> nat" where
  "filesystemHardLimits MaxFileBytes = 1024 * 1024"
| "filesystemHardLimits MaxOutputBytes = 48 * 1024"
| "filesystemHardLimits MaxResults = 1000"
| "filesystemHardLimits MaxVisitedEntries = 10000"
| "filesystemHardLimits MaxVisitedFiles = 5000"
| "filesystemHardLimits MaxVisitedDirectories = 1000"
| "filesystemHardLimits MaxDepth = 8"
| "filesystemHardLimits MaxPathBytes = 1024"
| "filesystemHardLimits MaxPathSegments = 128"
| "filesystemHardLimits MaxDiffBytes = 48 * 1024"
| "filesystemHardLimits MaxInlineContentBytes = 16 * 1024"

definition limits_of :: "(limit_field \<Rightarrow> nat) \<Rightarrow> path_limits" where
  "limits_of f = \<lparr>maxPathBytes = f MaxPathBytes, maxPathSegments = f MaxPathSegments\<rparr>"

record filesystem_constraints =
  fk_allowedPathPrefixes :: "string list option"
  fk_deniedPathPrefixes :: "string list option"
  fk_allowedExtensions :: "string list option"
  fk_maximum :: "limit_field \<Rightarrow> nat option"
  fk_allowMutation :: "bool option"

record effective_constraints_fs =
  fe_allowedPathPrefixes :: "string list option"
  fe_deniedPathPrefixes :: "string list"
  fe_allowedExtensions :: "string list option"
  fe_maximum :: "limit_field \<Rightarrow> nat"
  fe_allowMutation :: bool

definition constraint_fields :: "string list" where
  "constraint_fields = [''allowedPathPrefixes'', ''deniedPathPrefixes'', ''allowedExtensions''] @ map limit_str maximumFields
     @ [''allowMutation'']"

definition invalid_constraints :: "string \<Rightarrow> error" where
  "invalid_constraints message = fs_error ''InvalidFilesystemConstraintsError'' message"

fun slot_string :: "js_value slot \<Rightarrow> string option" where
  "slot_string (Data (JsString s)) = Some s"
| "slot_string _ = None"

text \<open>An array of plain data has no holes. The field is present.\<close>

definition stringList :: "js_value \<Rightarrow> string \<Rightarrow> string list result" where
  "stringList value field = (case value of
     JsArray _ _ slots \<Rightarrow>
       if list_ex (\<lambda>s. slot_string s = None) slots then throw (invalid_constraints (field @ '' must be a string array''))
       else ok (map (\<lambda>s. the (slot_string s)) slots)
   | _ \<Rightarrow> throw (invalid_constraints (field @ '' must be a string array'')))"

definition normalizedPrefixes :: "js_value \<Rightarrow> string \<Rightarrow> string list result" where
  "normalizedPrefixes value field =
     bindR (stringList value field) (\<lambda>list.
       case mapR (\<lambda>path. normalizeRelativePath path (limits_of filesystemHardLimits) False) list of
         Inl e \<Rightarrow> if e = invalid_path then throw (invalid_constraints (field @ '' contains an invalid path'')) else throw e
       | Inr paths \<Rightarrow> ok (sort (js_unique paths)))"

definition extension_char :: "char \<Rightarrow> bool" where
  "extension_char c \<longleftrightarrow> is_lower_alnum (to_lower c)"

text \<open>\<open>/^\.[a-z0-9][a-z0-9._-]*$/iu\<close>\<close>

definition extension_syntax :: "string \<Rightarrow> bool" where
  "extension_syntax s \<longleftrightarrow> (case s of d # c # cs \<Rightarrow> d = CHR ''.'' \<and> extension_char c
     \<and> list_all (\<lambda>x. extension_char x \<or> x \<in> {CHR ''.'', CHR ''_'', CHR ''-''}) cs | _ \<Rightarrow> False)"

definition normalizedExtensions :: "js_value \<Rightarrow> string list result" where
  "normalizedExtensions value =
     bindR (stringList value ''allowedExtensions'') (\<lambda>list.
       if list_ex (\<lambda>extension. \<not> extension_syntax extension \<or> slash \<in> set extension) list
       then throw (invalid_constraints ''allowedExtensions contains an invalid extension'')
       else ok (sort (js_unique (map js_lower list))))"

definition optional :: "(js_value \<Rightarrow> 'a result) \<Rightarrow> js_value \<Rightarrow> 'a option result" where
  "optional f v = (if v = JsUndefined then ok None else bindR (f v) (\<lambda>x. ok (Some x)))"

fun limit_value :: "limit_field \<Rightarrow> js_value \<Rightarrow> nat result" where
  "limit_value field (JsNumber n) = (if isSafeInteger n \<and> \<not> num_lt n (Num 0) then ok (nat \<lfloor>num_value n\<rfloor>)
     else throw (invalid_constraints (limit_str field @ '' must be a non-negative safe integer'')))"
| "limit_value field _ = throw (invalid_constraints (limit_str field @ '' must be a non-negative safe integer''))"

fun mutation_flag :: "js_value \<Rightarrow> bool result" where
  "mutation_flag (JsBool b) = ok b"
| "mutation_flag _ = throw (invalid_constraints ''allowMutation must be boolean'')"

definition parse_limits :: "(string \<times> js_value slot) list \<Rightarrow> (limit_field \<Rightarrow> nat option) result" where
  "parse_limits ps = bindR (mapR (\<lambda>field. optional (limit_value field) (prop_of ps (limit_str field))) maximumFields) (\<lambda>values.
     ok (\<lambda>field. case map_of (zip maximumFields values) field of None \<Rightarrow> None | Some v \<Rightarrow> v))"

definition parse_filesystem :: "js_value \<Rightarrow> filesystem_constraints result" where
  "parse_filesystem value =
     (let ps = (case record_props value of None \<Rightarrow> [] | Some ps \<Rightarrow> ps);
          unknown = sort (filter (\<lambda>key. key \<notin> set constraint_fields) (map fst ps)) in
      if length unknown > 0
      then throw (invalid_constraints (''Unsupported filesystem constraint fields: '' @ join '', '' unknown))
      else
        bindR (optional (\<lambda>v. normalizedPrefixes v ''allowedPathPrefixes'') (prop_of ps ''allowedPathPrefixes'')) (\<lambda>allowed.
        bindR (optional (\<lambda>v. normalizedPrefixes v ''deniedPathPrefixes'') (prop_of ps ''deniedPathPrefixes'')) (\<lambda>deny_list.
        bindR (optional normalizedExtensions (prop_of ps ''allowedExtensions'')) (\<lambda>extensions.
        bindR (parse_limits ps) (\<lambda>maximum.
        bindR (optional mutation_flag (prop_of ps ''allowMutation'')) (\<lambda>allowMutation.
        ok \<lparr>fk_allowedPathPrefixes = allowed, fk_deniedPathPrefixes = deny_list, fk_allowedExtensions = extensions,
          fk_maximum = maximum, fk_allowMutation = allowMutation\<rparr>))))))"

definition option_prop :: "string \<Rightarrow> ('a \<Rightarrow> js_value) \<Rightarrow> 'a option \<Rightarrow> (string \<times> js_value slot) list" where
  "option_prop key f v = (case v of None \<Rightarrow> [] | Some x \<Rightarrow> [(key, Data (f x))])"

definition limit_json :: "nat \<Rightarrow> js_value" where
  "limit_json n = JsNumber (Num (of_nat n))"

definition constraints_value :: "filesystem_constraints \<Rightarrow> js_value" where
  "constraints_value c = JsObject True False
     (option_prop ''allowedPathPrefixes'' text_list (fk_allowedPathPrefixes c)
      @ option_prop ''deniedPathPrefixes'' text_list (fk_deniedPathPrefixes c)
      @ option_prop ''allowedExtensions'' text_list (fk_allowedExtensions c)
      @ concat (map (\<lambda>field. option_prop (limit_str field) limit_json (fk_maximum c field)) maximumFields)
      @ option_prop ''allowMutation'' JsBool (fk_allowMutation c))"

definition normalizeFilesystemConstraints :: "js_value \<Rightarrow> json result" where
  "normalizeFilesystemConstraints value = bindR (parse_filesystem value) (\<lambda>c. normalizeCanonicalJson (constraints_value c))"

subsection \<open>Combining constraints\<close>

definition intersectPrefixes :: "string list \<Rightarrow> string list \<Rightarrow> string list" where
  "intersectPrefixes left right = sort (js_unique (concat (map (\<lambda>first. concat (map (\<lambda>second.
       if pathMatchesPrefix first second then [first]
       else if pathMatchesPrefix second first then [second] else []) right)) left)))"

definition intersectExact :: "string list \<Rightarrow> string list \<Rightarrow> string list" where
  "intersectExact left right = sort (filter (\<lambda>value. value \<in> set right) left)"

definition combinedAllowed ::
  "(string list \<Rightarrow> string list \<Rightarrow> string list) \<Rightarrow> (filesystem_constraints \<Rightarrow> string list option)
     \<Rightarrow> filesystem_constraints list \<Rightarrow> string list option" where
  "combinedAllowed intersect field values = (case List.map_filter field values of
     [] \<Rightarrow> None | first # rest \<Rightarrow> Some (foldl intersect first rest))"

definition argument :: "js_value \<Rightarrow> string \<Rightarrow> js_value" where
  "argument arguments field = (case record_props arguments of None \<Rightarrow> JsUndefined | Some ps \<Rightarrow> prop_of ps field)"

definition operationPaths :: "string \<Rightarrow> js_value \<Rightarrow> string list" where
  "operationPaths operation arguments =
     (if operation = ''filesystem.move''
      then List.map_filter text_of [argument arguments ''sourcePath'', argument arguments ''destinationPath'']
      else List.map_filter text_of [argument arguments ''path''])"

definition satisfiesEffectivePathLimits :: "string \<Rightarrow> effective_constraints_fs \<Rightarrow> bool \<Rightarrow> bool" where
  "satisfiesEffectivePathLimits path effective allowRoot \<longleftrightarrow>
     normalizeRelativePath path (limits_of (fe_maximum effective)) allowRoot = ok path"

text \<open>\<open>lastIndexOf(".")\<close> must be positive.\<close>

definition fileExtension :: "string \<Rightarrow> string" where
  "fileExtension path =
     (let basename = last (js_split slash path);
          tail = takeWhile (\<lambda>c. c \<noteq> CHR ''.'') (rev basename) in
      if length basename \<le> length tail + 1 then '''' else js_lower (CHR ''.'' # rev tail))"

definition effective_filesystem :: "filesystem_constraints \<Rightarrow> filesystem_constraints list \<Rightarrow> effective_constraints_fs" where
  "effective_filesystem resource grants =
     (let all = resource # grants in
      \<lparr>fe_allowedPathPrefixes = combinedAllowed intersectPrefixes fk_allowedPathPrefixes all,
       fe_deniedPathPrefixes = sort (js_unique (concat (map (\<lambda>c. case fk_deniedPathPrefixes c of None \<Rightarrow> [] | Some ds \<Rightarrow> ds) all))),
       fe_allowedExtensions = combinedAllowed intersectExact fk_allowedExtensions all,
       fe_maximum = (\<lambda>field. foldl min (filesystemHardLimits field) (List.map_filter (\<lambda>c. fk_maximum c field) all)),
       fe_allowMutation = (list_all (\<lambda>c. fk_allowMutation c = Some True) grants \<and> fk_allowMutation resource \<noteq> Some False)\<rparr>)"

definition effective_value :: "effective_constraints_fs \<Rightarrow> js_value" where
  "effective_value e = JsObject True False
     (option_prop ''allowedPathPrefixes'' text_list (fe_allowedPathPrefixes e)
      @ [(''deniedPathPrefixes'', Data (text_list (fe_deniedPathPrefixes e)))]
      @ option_prop ''allowedExtensions'' text_list (fe_allowedExtensions e)
      @ map (\<lambda>field. (limit_str field, Data (limit_json (fe_maximum e field)))) maximumFields
      @ [(''allowMutation'', Data (JsBool (fe_allowMutation e)))])"

definition directory_capable :: "string \<Rightarrow> bool" where
  "directory_capable operation \<longleftrightarrow> operation = ''filesystem.list'' \<or> operation = ''filesystem.search''"

definition path_reasons :: "effective_constraints_fs \<Rightarrow> string \<Rightarrow> string \<Rightarrow> string list" where
  "path_reasons e operation path =
     (if \<not> satisfiesEffectivePathLimits path e (directory_capable operation)
      then [''filesystem path exceeds effective path limits'']
      else
        let classification = classifyAllowedPath path (fe_allowedPathPrefixes e) in
        (if classification = PathDenied \<or> (\<not> directory_capable operation \<and> classification \<noteq> InsideAllowed)
         then [''filesystem path is outside allowed prefixes''] else [])
        @ (if list_ex (pathMatchesPrefix path) (fe_deniedPathPrefixes e) then [''filesystem path is denied''] else []))"

definition filesystem_reasons :: "effective_constraints_fs \<Rightarrow> string \<Rightarrow> js_value \<Rightarrow> string list" where
  "filesystem_reasons e operation arguments =
     (let paths = operationPaths operation arguments in
      (if fe_allowedPathPrefixes e = Some [] then [''filesystem allowed path intersection is empty''] else [])
      @ (if fe_allowedExtensions e = Some [] then [''filesystem allowed extension intersection is empty''] else [])
      @ (if length paths = 0 \<and> \<not> directory_capable operation then [''filesystem operation requires a normalized path''] else [])
      @ concat (map (path_reasons e operation) paths)
      @ (case fe_allowedExtensions e of None \<Rightarrow> []
         | Some extensions \<Rightarrow> if \<not> directory_capable operation \<and> list_ex (\<lambda>path. fileExtension path \<notin> set extensions) paths
             then [''filesystem extension is not allowed''] else [])
      @ (if startsWith operation ''filesystem.'' \<and> operation \<notin> {''filesystem.list'', ''filesystem.read'', ''filesystem.search''}
           \<and> \<not> fe_allowMutation e
         then [''filesystem mutation is not allowed''] else []))"

definition fs_message :: "error \<Rightarrow> string" where
  "fs_message e = (case e of ClassError _ message \<Rightarrow> message | CanonicalSerializationError path reason \<Rightarrow> ''Cannot canonicalize '' @ path @ '': '' @ reason
     | _ \<Rightarrow> ''invalid filesystem constraints'')"

definition combine_filesystem :: constraint_evaluator where
  "combine_filesystem operation arguments values resourceConfiguration =
     (case bindR (parse_filesystem resourceConfiguration) (\<lambda>resource.
           bindR (mapR parse_filesystem values) (\<lambda>grants.
           let effective = effective_filesystem resource grants;
               reasons = filesystem_reasons effective operation arguments in
           bindR (normalizeCanonicalJson (effective_value effective)) (\<lambda>json.
           ok \<lparr>cr_ok = (length reasons = 0), cr_effectiveConstraints = embed json, cr_reasons = reasons\<rparr>))) of
        Inl e \<Rightarrow> ok \<lparr>cr_ok = False, cr_effectiveConstraints = empty_object, cr_reasons = [fs_message e]\<rparr>
      | Inr r \<Rightarrow> ok r)"

text \<open>The constraints a connector is called with.\<close>

definition parseEffectiveFilesystemConstraints :: "js_value \<Rightarrow> effective_constraints_fs result" where
  "parseEffectiveFilesystemConstraints value =
     bindR (parse_filesystem value) (\<lambda>c.
       case find (\<lambda>field. fk_maximum c field = None) maximumFields of
         Some field \<Rightarrow> throw (invalid_constraints (''Effective filesystem constraints are missing '' @ limit_str field))
       | None \<Rightarrow> (case (fk_deniedPathPrefixes c, fk_allowMutation c) of
           (Some deny_list, Some allowMutation) \<Rightarrow>
             ok \<lparr>fe_allowedPathPrefixes = fk_allowedPathPrefixes c, fe_deniedPathPrefixes = deny_list,
               fe_allowedExtensions = fk_allowedExtensions c, fe_maximum = (\<lambda>field. the (fk_maximum c field)),
               fe_allowMutation = allowMutation\<rparr>
         | _ \<Rightarrow> throw (invalid_constraints ''Effective filesystem constraints are incomplete'')))"

subsection \<open>Arguments\<close>

definition allowedArguments :: "string \<Rightarrow> string list option" where
  "allowedArguments operation =
     (if operation = ''filesystem.list'' then Some [''path'', ''recursive'']
      else if operation = ''filesystem.read'' then Some [''path'']
      else if operation = ''filesystem.search'' then Some [''path'', ''query'', ''caseSensitive'']
      else if operation = ''filesystem.create'' then Some [''path'', ''content'']
      else if operation = ''filesystem.write'' then Some [''path'', ''content'']
      else if operation = ''filesystem.move'' then Some [''sourcePath'', ''destinationPath'']
      else if operation = ''filesystem.delete'' then Some [''path'']
      else None)"

definition assertFields :: "string \<Rightarrow> (string \<times> json) list \<Rightarrow> unit result" where
  "assertFields operation value = (case allowedArguments operation of
     None \<Rightarrow> throw (CapabilityValidationError (''Unsupported operation: '' @ operation))
   | Some allowed \<Rightarrow>
       let unknown = sort (filter (\<lambda>key. key \<notin> set allowed) (map fst value)) in
       if length unknown > 0
       then throw (CapabilityValidationError (''Unsupported filesystem argument fields: '' @ join '', '' unknown)) else ok ())"

definition argument_text :: "json option \<Rightarrow> string \<Rightarrow> string result" where
  "argument_text value field = (case value of
     Some (JStr s) \<Rightarrow> if length s = 0 then throw (CapabilityValidationError (field @ '' must be a non-empty string'')) else ok s
   | _ \<Rightarrow> throw (CapabilityValidationError (field @ '' must be a non-empty string'')))"

definition argument_path :: "json option \<Rightarrow> string \<Rightarrow> string result" where
  "argument_path value field = bindR (argument_text value field) (\<lambda>s.
     normalizeRelativePath s (limits_of filesystemHardLimits) False)"

definition binary_file :: error where
  "binary_file = fs_error ''FilesystemBinaryFileError'' ''Filesystem content is not valid UTF-8 text''"

definition argument_content :: "json option \<Rightarrow> string result" where
  "argument_content value = (case value of
     Some (JStr s) \<Rightarrow> if CHR 0x00 \<in> set s then throw binary_file
       else if utf8_length s > filesystemHardLimits MaxInlineContentBytes
       then throw (CapabilityValidationError ''inline content exceeds the byte limit'') else ok s
   | _ \<Rightarrow> throw (CapabilityValidationError ''content must be a string''))"

text \<open>A missing or empty path is the root.\<close>

definition start_path :: "json option \<Rightarrow> string result" where
  "start_path value = (if value = None \<or> value = Some (JStr '''') then ok '''' else argument_path value ''path'')"

definition argument_flag :: "json option \<Rightarrow> string \<Rightarrow> bool \<Rightarrow> bool result" where
  "argument_flag value field default_value = (case value of
     None \<Rightarrow> ok default_value | Some (JBool b) \<Rightarrow> ok b
   | _ \<Rightarrow> throw (CapabilityValidationError (field @ '' must be boolean'')))"

definition query_text :: "json option \<Rightarrow> string result" where
  "query_text value = bindR (argument_text value ''query'') (\<lambda>query.
     if CHR 0x0D \<in> set query \<or> CHR 0x0A \<in> set query
     then throw (CapabilityValidationError ''query must be a single line'')
     else if utf8_length query > 1024 then throw (CapabilityValidationError ''query exceeds the byte limit'') else ok query)"

definition argument_entries :: "string \<Rightarrow> (string \<Rightarrow> json option) \<Rightarrow> (string \<times> json) list result" where
  "argument_entries operation value =
     (if operation = ''filesystem.list'' then
        bindR (argument_flag (value ''recursive'') ''recursive'' False) (\<lambda>recursive.
        bindR (start_path (value ''path'')) (\<lambda>path.
        ok [(''path'', JStr path), (''recursive'', JBool recursive)]))
      else if operation = ''filesystem.search'' then
        bindR (query_text (value ''query'')) (\<lambda>query.
        bindR (argument_flag (value ''caseSensitive'') ''caseSensitive'' True) (\<lambda>caseSensitive.
        bindR (start_path (value ''path'')) (\<lambda>path.
        ok [(''path'', JStr path), (''query'', JStr query), (''caseSensitive'', JBool caseSensitive)])))
      else if operation = ''filesystem.move'' then
        bindR (argument_path (value ''sourcePath'') ''sourcePath'') (\<lambda>sourcePath.
        bindR (argument_path (value ''destinationPath'') ''destinationPath'') (\<lambda>destinationPath.
        ok [(''sourcePath'', JStr sourcePath), (''destinationPath'', JStr destinationPath)]))
      else if operation = ''filesystem.create'' \<or> operation = ''filesystem.write'' then
        bindR (argument_path (value ''path'') ''path'') (\<lambda>path.
        bindR (argument_content (value ''content'')) (\<lambda>content.
        ok [(''path'', JStr path), (''content'', JStr content)]))
      else bindR (argument_path (value ''path'') ''path'') (\<lambda>path. ok [(''path'', JStr path)]))"

definition normalizeFilesystemArguments :: "string \<Rightarrow> json \<Rightarrow> json result" where
  "normalizeFilesystemArguments operation v =
     (let es = (case v of JObj es \<Rightarrow> es | _ \<Rightarrow> []) in
      bindR (assertFields operation es) (\<lambda>_.
      bindR (argument_entries operation (map_of es)) (\<lambda>result. normalizeCanonicalJson (embed (JObj result)))))"

subsection \<open>The text of a change\<close>

abbreviation newline :: string where
  "newline \<equiv> [CHR 0x0A]"

fun crlf_to_lf :: "string \<Rightarrow> string" where
  "crlf_to_lf (c # d # cs) = (if c = CHR 0x0D \<and> d = CHR 0x0A then CHR 0x0A # crlf_to_lf cs else c # crlf_to_lf (d # cs))"
| "crlf_to_lf cs = cs"

record split_text =
  sp_lines :: "string list"
  sp_finalNewline :: bool

definition splitText :: "string \<Rightarrow> split_text" where
  "splitText value =
     (let normalized = crlf_to_lf value;
          finalNewline = endsWith normalized newline;
          body = (if finalNewline then butlast normalized else normalized) in
      \<lparr>sp_lines = (if length body = 0 then [] else js_split (CHR 0x0A) body), sp_finalNewline = finalNewline\<rparr>)"

definition line_range :: "nat \<Rightarrow> string" where
  "line_range n = (if n = 1 then ''1'' else ''1,'' @ nat_str n)"

definition operation_aborted :: error where
  "operation_aborted = fs_error ''FilesystemOperationAbortedError'' ''Filesystem operation was aborted''"

definition throwIfAborted :: "bool \<Rightarrow> unit result" where
  "throwIfAborted aborted = (if aborted then throw operation_aborted else ok ())"

definition diff_too_large :: error where
  "diff_too_large = fs_error ''FilesystemDiffTooLargeError'' ''Filesystem simulation diff exceeds the permitted byte limit''"

definition side_lines :: "char \<Rightarrow> split_text \<Rightarrow> string list" where
  "side_lines mark t = map (Cons mark) (sp_lines t)
     @ (if \<not> sp_finalNewline t \<and> length (sp_lines t) > 0 then [CHR 0x5C # '' No newline at end of file''] else [])"

text \<open>The signal is set before the call or not at all: nothing else runs during it.\<close>

definition createUnifiedDiff :: "bool \<Rightarrow> string option \<Rightarrow> string option \<Rightarrow> string \<Rightarrow> string \<Rightarrow> nat \<Rightarrow> string result" where
  "createUnifiedDiff aborted oldPath newPath oldContent newContent maxBytes =
     bindR (throwIfAborted aborted) (\<lambda>_.
       if oldPath = newPath \<and> oldContent = newContent then ok ''''
       else
         let oldText = splitText oldContent; newText = splitText newContent;
             lines =
               [''--- '' @ (case oldPath of None \<Rightarrow> ''/dev/null'' | Some p \<Rightarrow> ''a/'' @ p),
                ''+++ '' @ (case newPath of None \<Rightarrow> ''/dev/null'' | Some p \<Rightarrow> ''b/'' @ p),
                ''@@ -'' @ line_range (length (sp_lines oldText)) @ '' +'' @ line_range (length (sp_lines newText)) @ '' @@'']
               @ side_lines (CHR ''-'') oldText @ side_lines (CHR ''+'') newText;
             diff = join newline lines @ newline in
         if utf8_length diff > maxBytes then throw diff_too_large else ok diff)"

definition combineUnifiedDiffs :: "bool \<Rightarrow> string list \<Rightarrow> nat \<Rightarrow> string result" where
  "combineUnifiedDiffs aborted texts maxBytes =
     bindR (throwIfAborted aborted) (\<lambda>_.
       let combined = concat (filter (\<lambda>diff. length diff > 0) texts) in
       if utf8_length combined > maxBytes then throw diff_too_large else ok combined)"

subsection \<open>Descriptors\<close>

definition filesystem_operation :: "string \<Rightarrow> operation_mode \<Rightarrow> risk_level \<Rightarrow> operation_descriptor" where
  "filesystem_operation name mode risk = \<lparr>od_operation = name, od_mode = mode, od_riskLevel = risk,
     od_supportsSimulation = (mode = MutationMode), od_supportsExecution = True, od_requiresApproval = (mode = MutationMode)\<rparr>"

definition filesystemConnectorDescriptor :: connector_descriptor where
  "filesystemConnectorDescriptor = \<lparr>cn_id = ''filesystem'', cn_version = ''2'', cn_supportedResourceTypes = [FilesystemScope],
     cn_operations =
       [filesystem_operation ''filesystem.list'' ReadMode RiskLow, filesystem_operation ''filesystem.read'' ReadMode RiskLow,
        filesystem_operation ''filesystem.search'' ReadMode RiskLow]
       @ map (\<lambda>operation. filesystem_operation (''filesystem.'' @ operation) MutationMode RiskMedium) [''create'', ''write'', ''move'']
       @ [filesystem_operation ''filesystem.delete'' MutationMode RiskHigh]\<rparr>"

definition fake_operation :: "string \<Rightarrow> operation_mode \<Rightarrow> risk_level \<Rightarrow> bool \<Rightarrow> operation_descriptor" where
  "fake_operation name mode risk approval = \<lparr>od_operation = name, od_mode = mode, od_riskLevel = risk,
     od_supportsSimulation = (mode = MutationMode), od_supportsExecution = False, od_requiresApproval = approval\<rparr>"

definition fakeConnectorDescriptor :: connector_descriptor where
  "fakeConnectorDescriptor = \<lparr>cn_id = ''fake'', cn_version = ''1'', cn_supportedResourceTypes = [FilesystemScope],
     cn_operations =
       [fake_operation ''fake.read'' ReadMode RiskLow False, fake_operation ''fake.write'' MutationMode RiskMedium False,
        fake_operation ''fake.delete'' MutationMode RiskHigh True, fake_operation ''fake.admin'' MutationMode RiskCritical True]\<rparr>"

definition connector_record :: "json \<Rightarrow> json result" where
  "connector_record value = bindR (normalizeCanonicalJson (embed value)) (\<lambda>normalized.
     case normalized of JObj es \<Rightarrow> ok normalized
     | _ \<Rightarrow> throw (CapabilityValidationError ''Connector value must be an object''))"

definition fake_constraints_value :: "fake_constraints \<Rightarrow> js_value" where
  "fake_constraints_value c = JsObject True False
     (option_prop ''allowedTargets'' text_list (fc_allowedTargets c) @ option_prop ''deniedTargets'' text_list (fc_deniedTargets c)
      @ option_prop ''maxPayloadBytes'' JsNumber (fc_maxPayloadBytes c) @ option_prop ''allowMutation'' JsBool (fc_allowMutation c))"

text \<open>The validated constraints are plain data, which normalization keeps.\<close>

definition fakeConnectorDefinition :: "(rat \<Rightarrow> string) \<Rightarrow> 'w connector_definition" where
  "fakeConnectorDefinition num_str = \<lparr>df_descriptor = fakeConnectorDescriptor, df_combineAndValidate = combineAndValidate num_str,
     df_handlerConnector = ''fake'', df_normalizeArguments = (\<lambda>operation value. connector_record value),
     df_normalizeConstraints = (\<lambda>value. bindR (connector_record value) (\<lambda>r.
       bindR (validateFakeConnectorConstraints (embed r)) (\<lambda>c. normalizeCanonicalJson (fake_constraints_value c)))),
     df_prepareResource = (\<lambda>kind externalRef configuration.
       if kind \<noteq> FilesystemScope
       then throwM (ActionError (UnsupportedConnectorResourceTypeError ''fake'' (resource_type_str kind)))
       else bindM (liftR (connector_record configuration)) (\<lambda>c. returnM (externalRef, c))),
     df_invoke = None, df_executeMutation = None\<rparr>"

section \<open>Lemmas: paths\<close>

lemma js_split_not_Nil [simp]: "js_split c s \<noteq> []"
  by (induction s) (auto split: list.splits)

lemma join_js_split: "join [c] (js_split c s) = s"
proof (induction s)
  case (Cons x s)
  then show ?case by (cases "js_split c s"; cases "tl (js_split c s)") (auto split: list.splits)
qed simp

lemma js_split_parts: "seg \<in> set (js_split c s) \<Longrightarrow> c \<notin> set seg"
  by (induction s arbitrary: seg) (auto split: list.splits if_splits)

lemma js_split_chars: "seg \<in> set (js_split c s) \<Longrightarrow> set seg \<subseteq> set s"
  by (induction s arbitrary: seg) (force split: list.splits if_splits)+

lemma js_split_inj: "js_split c s = js_split c t \<Longrightarrow> s = t"
  by (metis join_js_split)

definition path_segments :: "string \<Rightarrow> string list" where
  "path_segments path = (if path = '''' then [] else js_split slash path)"

lemma path_segments_inj: "path_segments p = path_segments q \<Longrightarrow> p = q"
  using js_split_not_Nil [of slash] js_split_inj [of slash] by (metis path_segments_def)

text \<open>A segment that names an entry of its directory.\<close>

definition plain_segment :: "string \<Rightarrow> bool" where
  "plain_segment s \<longleftrightarrow> s \<noteq> '''' \<and> s \<noteq> ''.'' \<and> s \<noteq> ''..'' \<and> set s \<inter> {slash, CHR 0x5C, CHR '':''} = {} \<and> \<not> list_ex unsafe_control s"

lemma normalize_path_ok:
  assumes "normalizeRelativePath v limits allowRoot = ok p"
  shows "p = v" and "v = '''' \<Longrightarrow> allowRoot" and "list_all plain_segment (path_segments v)"
    and "length (path_segments v) \<le> maxPathSegments limits" and "utf8_length v \<le> maxPathBytes limits"
proof -
  have r: "v = '''' \<and> allowRoot \<and> p = '''' \<or> \<not> unsafe_path v \<and> length (js_split slash v) \<le> maxPathSegments limits
      \<and> \<not> list_ex unsafe_segment (js_split slash v) \<and> utf8_length v \<le> maxPathBytes limits \<and> p = v"
    using assms join_js_split [of slash v] by (auto simp: normalizeRelativePath_def Let_def split: if_splits)
  then show "p = v" and "v = '''' \<Longrightarrow> allowRoot" and "length (path_segments v) \<le> maxPathSegments limits"
    "utf8_length v \<le> maxPathBytes limits"
    by (auto simp: path_segments_def utf8_length_def unsafe_path_def)
  show "list_all plain_segment (path_segments v)"
    using r js_split_parts [of _ slash v] js_split_chars [of _ slash v]
    by (fastforce simp: path_segments_def list_all_iff list_ex_iff plain_segment_def unsafe_path_def unsafe_segment_def)
qed

lemma resolve_plain: "list_all plain_segment ss \<Longrightarrow> resolve_path p ss = p @ ss"
  by (induction ss arbitrary: p) (auto simp: resolve_path_def resolve_segment_def plain_segment_def)

lemma resolve_contained:
  assumes "list_all plain_segment (path_segments v)"
  shows "resolveContainedPath p v = ok (p @ path_segments v)"
  using assms resolve_plain by (auto simp: resolveContainedPath_def path_segments_def extends_def)

text \<open>C13. A normalized path stays under the root it is used with: it names one entry, by segments none of which is
  empty, climbs or hides a separator, and different normalized paths name different entries.\<close>

theorem normalized_path_contained:
  assumes "normalizeRelativePath v limits allowRoot = ok p" and "normalizeRelativePath v' limits allowRoot = ok p'"
  shows "p = v \<and> list_all plain_segment (path_segments p) \<and> resolveContainedPath r p = ok (r @ path_segments p)
    \<and> length (path_segments p) \<le> maxPathSegments limits \<and> utf8_length p \<le> maxPathBytes limits
    \<and> (resolveContainedPath r p = resolveContainedPath r p' \<longleftrightarrow> p = p')"
  using normalize_path_ok [OF assms(1)] normalize_path_ok [OF assms(2)]
  by (auto simp: resolve_contained dest: path_segments_inj)

theorem normalized_path_contained_witness:
  "resolveContainedPath [''srv'', ''r''] ''src/a.ts'' = ok [''srv'', ''r'', ''src'', ''a.ts''] \<and>
   resolveContainedPath [''srv'', ''r''] ''src/a.ts'' \<noteq> resolveContainedPath [''srv'', ''r''] ''src/b.ts''"
proof -
  let ?l = "limits_of filesystemHardLimits"
  have "normalizeRelativePath ''src/a.ts'' ?l False = ok ''src/a.ts''" "normalizeRelativePath ''src/b.ts'' ?l False = ok ''src/b.ts''"
    by code_simp+
  from normalized_path_contained [OF this, of "[''srv'', ''r'']"] show ?thesis by (simp add: path_segments_def) metis
qed

section \<open>Lemmas: prefixes\<close>

lemma startsWith_prefix: "startsWith s p \<longleftrightarrow> prefix p s"
  by (auto simp: startsWith_def prefix_def) (metis append_take_drop_id)

lemma matches_prefix: "pathMatchesPrefix path stem \<longleftrightarrow> prefix (stem @ ''/'') (path @ ''/'')"
proof -
  have "prefix (stem @ ''/'') (path @ ''/'') \<longleftrightarrow> stem @ ''/'' = path @ ''/'' \<or> prefix (stem @ ''/'') path"
    by (simp add: prefix_snoc)
  then show ?thesis by (auto simp: pathMatchesPrefix_def startsWith_prefix)
qed

lemma matches_trans: "pathMatchesPrefix p q \<Longrightarrow> pathMatchesPrefix q r \<Longrightarrow> pathMatchesPrefix p r"
  unfolding matches_prefix by (rule prefix_order.trans)

lemma matches_linear: "pathMatchesPrefix p a \<Longrightarrow> pathMatchesPrefix p b \<Longrightarrow> pathMatchesPrefix a b \<or> pathMatchesPrefix b a"
  unfolding matches_prefix by (metis prefix_same_cases)

lemma set_js_unique [simp]: "set (js_unique xs) = set xs"
  by (simp add: js_unique_def)

lemma set_pairs: "set (concat (map (\<lambda>a. concat (map (F a) r)) l)) = (\<Union>a \<in> set l. \<Union>b \<in> set r. set (F a b))"
  by simp

lemma set_intersectPrefixes: "set (intersectPrefixes l r) =
    {a \<in> set l. \<exists>b \<in> set r. pathMatchesPrefix a b} \<union> {b \<in> set r. \<exists>a \<in> set l. pathMatchesPrefix b a \<and> \<not> pathMatchesPrefix a b}"
  unfolding intersectPrefixes_def set_sort set_js_unique set_pairs by (rule set_eqI) (auto split: if_splits)

definition inside :: "string \<Rightarrow> string list \<Rightarrow> bool" where
  "inside path stems \<longleftrightarrow> (\<exists>stem \<in> set stems. pathMatchesPrefix path stem)"

lemma inside_intersect: "inside p (intersectPrefixes l r) \<longleftrightarrow> inside p l \<and> inside p r"
  unfolding inside_def set_intersectPrefixes using matches_trans [of p] matches_linear [of p] by blast

lemma inside_fold: "inside p (foldl intersectPrefixes first rest) \<longleftrightarrow> inside p first \<and> (\<forall>l \<in> set rest. inside p l)"
  by (induction rest arbitrary: first) (auto simp: inside_intersect)

lemma set_map_filter: "set (List.map_filter f xs) = {y. \<exists>x \<in> set xs. f x = Some y}"
  by (force simp: List.map_filter_def)

lemma member_fold: "x \<in> set (foldl intersectExact first rest) \<longleftrightarrow> x \<in> set first \<and> (\<forall>l \<in> set rest. x \<in> set l)"
  by (induction rest arbitrary: first) (auto simp: intersectExact_def)

lemma combined_None: "combinedAllowed g field cs = None \<longleftrightarrow> (\<forall>c \<in> set cs. field c = None)"
proof -
  have "List.map_filter field cs = [] \<longleftrightarrow> (\<forall>c \<in> set cs. field c = None)"
    by (induction cs) (auto split: option.splits)
  then show ?thesis by (auto simp: combinedAllowed_def split: list.splits)
qed

lemma combined_inside:
  "(\<forall>l. combinedAllowed intersectPrefixes field cs = Some l \<longrightarrow> inside p l) \<longleftrightarrow>
     (\<forall>c \<in> set cs. \<forall>l. field c = Some l \<longrightarrow> inside p l)"
proof -
  have "(\<forall>c \<in> set cs. \<forall>l. field c = Some l \<longrightarrow> inside p l) \<longleftrightarrow> (\<forall>l \<in> set (List.map_filter field cs). inside p l)"
    by (auto simp: set_map_filter)
  then show ?thesis by (cases "List.map_filter field cs") (auto simp: combinedAllowed_def inside_fold)
qed

lemma combined_member:
  "(\<forall>l. combinedAllowed intersectExact field cs = Some l \<longrightarrow> x \<in> set l) \<longleftrightarrow>
     (\<forall>c \<in> set cs. \<forall>l. field c = Some l \<longrightarrow> x \<in> set l)"
proof -
  have "(\<forall>c \<in> set cs. \<forall>l. field c = Some l \<longrightarrow> x \<in> set l) \<longleftrightarrow> (\<forall>l \<in> set (List.map_filter field cs). x \<in> set l)"
    by (auto simp: set_map_filter)
  then show ?thesis by (cases "List.map_filter field cs") (auto simp: combinedAllowed_def member_fold)
qed

section \<open>Lemmas: limits and values\<close>

lemma le_fold_min: "n \<le> foldl min h xs \<longleftrightarrow> n \<le> (h :: nat) \<and> (\<forall>x \<in> set xs. n \<le> x)"
  by (induction xs arbitrary: h) auto

lemma normalizes_iff:
  "normalizeRelativePath p limits False = ok p \<longleftrightarrow> \<not> unsafe_path p \<and> \<not> list_ex unsafe_segment (js_split slash p)
     \<and> length (path_segments p) \<le> maxPathSegments limits \<and> utf8_length p \<le> maxPathBytes limits"
  using join_js_split [of slash p] by (auto simp: normalizeRelativePath_def Let_def path_segments_def unsafe_path_def)

lemma insort_map_keys: "(\<And>x. fst (g x) = fst x) \<Longrightarrow> insort_key fst (g x) (map g xs) = map g (insort_key fst x xs)"
  by (induction xs) auto

lemma sort_map_keys: "(\<And>x. fst (g x) = fst x) \<Longrightarrow> sort_key fst (map g xs) = map g (sort_key fst xs)"
  by (induction xs) (simp_all add: insort_map_keys)

text \<open>An object of plain values under harmless keys normalizes to itself, sorted.\<close>

lemma normalize_entries:
  assumes "\<forall>(k, v) \<in> set es. k \<notin> set forbiddenObjectKeys \<and> canonical_json v"
  shows "normalizeCanonicalJson (embed (JObj es)) = ok (JObj (sort_key fst es))"
proof -
  let ?f = "\<lambda>(key, slot). case slot of Data v \<Rightarrow>
      if key \<in> set forbiddenObjectKeys then throw (CanonicalSerializationError (key_path ''$'' key) ''prototype-sensitive keys are forbidden'')
      else bindR (normalize v (key_path ''$'' key)) (\<lambda>j. ok (key, j))
    | _ \<Rightarrow> throw (CanonicalSerializationError (key_path ''$'' key) ''accessor and non-enumerable properties are forbidden'')"
  let ?g = "\<lambda>(k, v). (k, Data (embed v))"
  have "mapR ?f (map ?g xs) = ok xs" if "set xs \<subseteq> set es" for xs
    using that assms by (induction xs) (auto simp: normalize_embed)
  moreover have "sort_props (map ?g es) = map ?g (sort_key fst es)"
    unfolding sort_props_def by (rule sort_map_keys) auto
  ultimately show ?thesis by (simp add: normalizeCanonicalJson_def)
qed

definition texts_of :: "string list \<Rightarrow> json" where
  "texts_of ss = JArr (map JStr ss)"

definition number_of :: "nat \<Rightarrow> json" where
  "number_of n = JNum (of_nat n)"

definition effective_entries :: "effective_constraints_fs \<Rightarrow> (string \<times> json) list" where
  "effective_entries e =
     (case fe_allowedPathPrefixes e of None \<Rightarrow> [] | Some l \<Rightarrow> [(''allowedPathPrefixes'', texts_of l)])
     @ [(''deniedPathPrefixes'', texts_of (fe_deniedPathPrefixes e))]
     @ (case fe_allowedExtensions e of None \<Rightarrow> [] | Some l \<Rightarrow> [(''allowedExtensions'', texts_of l)])
     @ map (\<lambda>field. (limit_str field, number_of (fe_maximum e field))) maximumFields
     @ [(''allowMutation'', JBool (fe_allowMutation e))]"

lemma effective_value_embed: "effective_value e = embed (JObj (effective_entries e))"
  by (simp add: effective_value_def effective_entries_def option_prop_def text_list_def limit_json_def texts_of_def number_of_def
      split: option.splits)

lemma effective_keys: "set (map fst (effective_entries e)) \<subseteq> set constraint_fields" "distinct (map fst (effective_entries e))"
  by (auto simp: effective_entries_def constraint_fields_def maximumFields_def split: option.splits)

lemma harmless_fields: "set constraint_fields \<inter> set forbiddenObjectKeys = {}"
  by (auto simp: constraint_fields_def maximumFields_def forbiddenObjectKeys_def)

lemma effective_json: "normalizeCanonicalJson (effective_value e) = ok (JObj (sort_key fst (effective_entries e)))"
  unfolding effective_value_embed
proof (rule normalize_entries, clarify)
  fix k v assume kv: "(k, v) \<in> set (effective_entries e)"
  then have "k \<in> set constraint_fields" using effective_keys(1) by force
  moreover have "canonical_json v"
    using kv by (auto simp: effective_entries_def texts_of_def number_of_def list_all_iff split: option.splits)
  ultimately show "k \<notin> set forbiddenObjectKeys \<and> canonical_json v" using harmless_fields by auto
qed

section \<open>The combination of constraints\<close>

definition fs_admits :: "string \<Rightarrow> filesystem_constraints \<Rightarrow> bool" where
  "fs_admits path c \<longleftrightarrow> (\<forall>l. fk_allowedPathPrefixes c = Some l \<longrightarrow> inside path l)
     \<and> (\<forall>l. fk_deniedPathPrefixes c = Some l \<longrightarrow> \<not> inside path l)
     \<and> (\<forall>l. fk_allowedExtensions c = Some l \<longrightarrow> fileExtension path \<in> set l)
     \<and> (\<forall>n. fk_maximum c MaxPathBytes = Some n \<longrightarrow> utf8_length path \<le> n)
     \<and> (\<forall>n. fk_maximum c MaxPathSegments = Some n \<longrightarrow> length (path_segments path) \<le> n)"

lemma le_effective_maximum: "n \<le> fe_maximum (effective_filesystem r gs) field \<longleftrightarrow>
    n \<le> filesystemHardLimits field \<and> (\<forall>c \<in> set (r # gs). \<forall>m. fk_maximum c field = Some m \<longrightarrow> n \<le> m)"
proof -
  have "(\<forall>x \<in> set (List.map_filter (\<lambda>c. fk_maximum c field) (r # gs)). n \<le> x) \<longleftrightarrow>
      (\<forall>c \<in> set (r # gs). \<forall>m. fk_maximum c field = Some m \<longrightarrow> n \<le> m)"
    unfolding set_map_filter by blast
  then show ?thesis unfolding effective_filesystem_def Let_def by (simp only: effective_constraints_fs.select_convs le_fold_min)
qed

lemma effective_path_limits:
  "satisfiesEffectivePathLimits p (effective_filesystem r gs) False \<longleftrightarrow>
     normalizeRelativePath p (limits_of filesystemHardLimits) False = ok p
     \<and> (\<forall>c \<in> set (r # gs). (\<forall>n. fk_maximum c MaxPathBytes = Some n \<longrightarrow> utf8_length p \<le> n)
          \<and> (\<forall>n. fk_maximum c MaxPathSegments = Some n \<longrightarrow> length (path_segments p) \<le> n))"
  unfolding satisfiesEffectivePathLimits_def normalizes_iff limits_of_def path_limits.select_convs le_effective_maximum by blast

lemma effective_denied: "list_ex (pathMatchesPrefix p) (fe_deniedPathPrefixes (effective_filesystem r gs)) \<longleftrightarrow>
    (\<exists>c \<in> set (r # gs). \<exists>l. fk_deniedPathPrefixes c = Some l \<and> inside p l)"
proof -
  have "inside p (case v of None \<Rightarrow> [] | Some ds \<Rightarrow> ds) \<longleftrightarrow> (\<exists>l. v = Some l \<and> inside p l)" for v
    by (cases v) (auto simp: inside_def)
  moreover have "list_ex (pathMatchesPrefix p) (fe_deniedPathPrefixes (effective_filesystem r gs)) \<longleftrightarrow>
      (\<exists>c \<in> set (r # gs). inside p (case fk_deniedPathPrefixes c of None \<Rightarrow> [] | Some ds \<Rightarrow> ds))"
  proof -
    have "set (fe_deniedPathPrefixes (effective_filesystem r gs))
        = (\<Union>c \<in> set (r # gs). set (case fk_deniedPathPrefixes c of None \<Rightarrow> [] | Some ds \<Rightarrow> ds))"
      by (simp add: effective_filesystem_def Let_def)
    then show ?thesis unfolding inside_def list_ex_iff by blast
  qed
  ultimately show ?thesis by simp
qed

lemma effective_allowed: "classifyAllowedPath p (fe_allowedPathPrefixes (effective_filesystem r gs)) = InsideAllowed \<longleftrightarrow>
    (\<forall>c \<in> set (r # gs). \<forall>l. fk_allowedPathPrefixes c = Some l \<longrightarrow> inside p l)"
  unfolding combined_inside [symmetric]
  by (auto simp: effective_filesystem_def Let_def classifyAllowedPath_def list_ex_iff inside_def split: option.splits)

lemma path_reasons_Nil:
  assumes "\<not> directory_capable operation"
  shows "path_reasons (effective_filesystem r gs) operation p = [] \<longleftrightarrow>
    satisfiesEffectivePathLimits p (effective_filesystem r gs) False
    \<and> classifyAllowedPath p (fe_allowedPathPrefixes (effective_filesystem r gs)) = InsideAllowed
    \<and> \<not> list_ex (pathMatchesPrefix p) (fe_deniedPathPrefixes (effective_filesystem r gs))"
  using assms by (auto simp: path_reasons_def Let_def)

definition mutation_permitted :: "string \<Rightarrow> filesystem_constraints \<Rightarrow> filesystem_constraints list \<Rightarrow> bool" where
  "mutation_permitted operation r gs \<longleftrightarrow> startsWith operation ''filesystem.'' \<and> operation \<noteq> ''filesystem.read''
     \<longrightarrow> fk_allowMutation r \<noteq> Some False \<and> (\<forall>g \<in> set gs. fk_allowMutation g = Some True)"

lemma reasons_Nil:
  assumes "\<not> directory_capable operation"
  shows "filesystem_reasons (effective_filesystem r gs) operation args = [] \<longleftrightarrow>
    operationPaths operation args \<noteq> [] \<and> mutation_permitted operation r gs
    \<and> (\<forall>p \<in> set (operationPaths operation args). normalizeRelativePath p (limits_of filesystemHardLimits) False = ok p
         \<and> (\<forall>c \<in> set (r # gs). fs_admits p c))"
proof -
  let ?e = "effective_filesystem r gs" and ?ps = "operationPaths operation args"
  have mutation: "fe_allowMutation ?e \<longleftrightarrow> fk_allowMutation r \<noteq> Some False \<and> (\<forall>g \<in> set gs. fk_allowMutation g = Some True)"
    by (auto simp: effective_filesystem_def Let_def list_all_iff)
  have ext: "(\<forall>l. fe_allowedExtensions ?e = Some l \<longrightarrow> fileExtension p \<in> set l) \<longleftrightarrow>
      (\<forall>c \<in> set (r # gs). \<forall>l. fk_allowedExtensions c = Some l \<longrightarrow> fileExtension p \<in> set l)" for p
    using combined_member [of fk_allowedExtensions "r # gs" "fileExtension p"] by (simp add: effective_filesystem_def Let_def)
  have each: "path_reasons ?e operation p = [] \<and> (\<forall>l. fe_allowedExtensions ?e = Some l \<longrightarrow> fileExtension p \<in> set l) \<longleftrightarrow>
      normalizeRelativePath p (limits_of filesystemHardLimits) False = ok p \<and> (\<forall>c \<in> set (r # gs). fs_admits p c)" for p
    unfolding path_reasons_Nil [OF assms] effective_path_limits effective_allowed effective_denied ext fs_admits_def by blast
  have all: "filesystem_reasons ?e operation args = [] \<longleftrightarrow> fe_allowedPathPrefixes ?e \<noteq> Some [] \<and> fe_allowedExtensions ?e \<noteq> Some []
      \<and> ?ps \<noteq> [] \<and> (\<forall>p \<in> set ?ps. path_reasons ?e operation p = [])
      \<and> (\<forall>p \<in> set ?ps. \<forall>l. fe_allowedExtensions ?e = Some l \<longrightarrow> fileExtension p \<in> set l) \<and> mutation_permitted operation r gs"
    unfolding filesystem_reasons_def Let_def append_is_Nil_conv concat_eq_Nil_conv mutation_permitted_def mutation [symmetric]
    using assms by (cases "fe_allowedExtensions ?e") (auto simp: directory_capable_def list_ex_iff)
  have nonempty: "p \<in> set ?ps \<Longrightarrow> path_reasons ?e operation p = [] \<Longrightarrow> fe_allowedPathPrefixes ?e \<noteq> Some []" for p
    using path_reasons_Nil [OF assms] by (auto simp: classifyAllowedPath_def)
  have "filesystem_reasons ?e operation args = [] \<longleftrightarrow> ?ps \<noteq> [] \<and> mutation_permitted operation r gs
      \<and> (\<forall>p \<in> set ?ps. path_reasons ?e operation p = [] \<and> (\<forall>l. fe_allowedExtensions ?e = Some l \<longrightarrow> fileExtension p \<in> set l))"
  proof
    assume "?ps \<noteq> [] \<and> mutation_permitted operation r gs
      \<and> (\<forall>p \<in> set ?ps. path_reasons ?e operation p = [] \<and> (\<forall>l. fe_allowedExtensions ?e = Some l \<longrightarrow> fileExtension p \<in> set l))"
    moreover from this obtain p where "p \<in> set ?ps" by (cases ?ps) auto
    ultimately show "filesystem_reasons ?e operation args = []" unfolding all using nonempty [of p] by auto
  qed (use all in auto)
  then show ?thesis using each by simp
qed

text \<open>
  Listing and searching also take a directory above an allowed prefix. There the combination is only
  sound: \<open>a/b\<close> and \<open>a/c\<close> each let \<open>a\<close> be listed, their intersection is empty and does not.
\<close>

definition fs_lists :: "string \<Rightarrow> filesystem_constraints \<Rightarrow> bool" where
  "fs_lists path c \<longleftrightarrow> (\<forall>l. fk_allowedPathPrefixes c = Some l \<longrightarrow> classifyAllowedPath path (Some l) \<noteq> PathDenied)
     \<and> (\<forall>l. fk_deniedPathPrefixes c = Some l \<longrightarrow> \<not> inside path l)"

lemma classified_part:
  assumes c: "classifyAllowedPath p (Some (foldl intersectPrefixes first rest)) \<noteq> PathDenied" and l: "l \<in> set (first # rest)"
  shows "classifyAllowedPath p (Some l) \<noteq> PathDenied"
proof -
  let ?all = "foldl intersectPrefixes first rest"
  have part: "inside q l" if "inside q ?all" for q using that l inside_fold by auto
  from c have "inside p ?all \<or> (\<exists>s \<in> set ?all. pathCanContainPrefix p s)"
    by (auto simp: classifyAllowedPath_def list_ex_iff inside_def split: if_splits)
  then have "inside p l \<or> (\<exists>s \<in> set l. pathCanContainPrefix p s)"
  proof
    assume "\<exists>s \<in> set ?all. pathCanContainPrefix p s"
    then obtain s where s: "s \<in> set ?all" "pathCanContainPrefix p s" by blast
    have "inside s ?all" using s(1) by (auto simp: inside_def pathMatchesPrefix_def)
    then obtain q where q: "q \<in> set l" "pathMatchesPrefix s q" using part by (auto simp: inside_def)
    then show ?thesis using s(2) matches_linear [of s p q] by (auto simp: pathCanContainPrefix_def inside_def)
  qed (use part in blast)
  then show ?thesis by (auto simp: classifyAllowedPath_def list_ex_iff inside_def)
qed

lemma reasons_listed:
  assumes "directory_capable operation" and none: "filesystem_reasons (effective_filesystem r gs) operation args = []"
    and p: "p \<in> set (operationPaths operation args)" and c: "c \<in> set (r # gs)"
  shows "fs_lists p c"
proof -
  let ?e = "effective_filesystem r gs"
  have "path_reasons ?e operation p = []" using none p by (auto simp: filesystem_reasons_def Let_def)
  then have cl: "classifyAllowedPath p (fe_allowedPathPrefixes ?e) \<noteq> PathDenied"
    and d: "\<not> list_ex (pathMatchesPrefix p) (fe_deniedPathPrefixes ?e)"
    by (auto simp: path_reasons_def Let_def split: if_splits)
  have "classifyAllowedPath p (Some l) \<noteq> PathDenied" if l: "fk_allowedPathPrefixes c = Some l" for l
  proof -
    have m: "l \<in> set (List.map_filter fk_allowedPathPrefixes (r # gs))" unfolding set_map_filter using l c by blast
    then obtain first rest where fr: "List.map_filter fk_allowedPathPrefixes (r # gs) = first # rest"
      by (metis list.exhaust list.set(1) empty_iff)
    have "fe_allowedPathPrefixes ?e = combinedAllowed intersectPrefixes fk_allowedPathPrefixes (r # gs)"
      unfolding effective_filesystem_def Let_def by (simp only: effective_constraints_fs.select_convs)
    then have "fe_allowedPathPrefixes ?e = Some (foldl intersectPrefixes first rest)" using fr by (simp only: combinedAllowed_def list.case)
    then show ?thesis using classified_part cl m fr by metis
  qed
  then show ?thesis using d c unfolding effective_denied fs_lists_def by blast
qed

text \<open>C12. The constraints of several grants and of the resource restrict together. An operation on files (any but
  listing and searching) passes the combined constraints if and only if every set of constraints parses, every path is a
  normalized path, each single set admits each path, its extension and its length, and, where the operation changes
  files, every grant consents to mutation and the resource does not object. Listing and searching pass only if every set
  parses and each single set lets the directory be listed; the converse does not hold for them. So another grant can only
  restrict, and prefix intersections lose nothing for operations on files.\<close>

theorem filesystem_constraints_conjunctive:
  "\<exists>x. combine_filesystem operation args values configuration = ok x
    \<and> (\<not> directory_capable operation \<longrightarrow> (cr_ok x \<longleftrightarrow>
      (\<exists>r gs. parse_filesystem configuration = ok r \<and> mapR parse_filesystem values = ok gs
        \<and> operationPaths operation args \<noteq> [] \<and> mutation_permitted operation r gs
        \<and> (\<forall>p \<in> set (operationPaths operation args). normalizeRelativePath p (limits_of filesystemHardLimits) False = ok p
             \<and> (\<forall>c \<in> set (r # gs). fs_admits p c)))))
    \<and> (directory_capable operation \<and> cr_ok x \<longrightarrow>
      (\<exists>r gs. parse_filesystem configuration = ok r \<and> mapR parse_filesystem values = ok gs
        \<and> (\<forall>p \<in> set (operationPaths operation args). \<forall>c \<in> set (r # gs). fs_lists p c)))"
proof (cases "\<exists>r gs. parse_filesystem configuration = ok r \<and> mapR parse_filesystem values = ok gs")
  case True
  then obtain r gs where rg: "parse_filesystem configuration = ok r" "mapR parse_filesystem values = ok gs" by blast
  then show ?thesis using reasons_Nil [of operation r gs args] reasons_listed [of operation r gs args]
    by (simp add: combine_filesystem_def effective_json Let_def)
next
  case False
  then show ?thesis
    by (cases "parse_filesystem configuration"; cases "mapR parse_filesystem values") (simp_all add: combine_filesystem_def)
qed

theorem filesystem_constraints_conjunctive_witness:
  "\<exists>x. combine_filesystem ''filesystem.read'' (JsObject True False [(''path'', Data (JsString ''src/a.ts''))])
      [JsObject True False [(''allowedPathPrefixes'', Data (text_list [''src/lib'']))]] (JsObject True False []) = ok x
    \<and> \<not> cr_ok x"
proof -
  let ?args = "JsObject True False [(''path'', Data (JsString ''src/a.ts''))]"
  let ?g = "JsObject True False [(''allowedPathPrefixes'', Data (text_list [''src/lib'']))]"
  have "\<not> directory_capable ''filesystem.read''" by code_simp
  with filesystem_constraints_conjunctive [of "''filesystem.read''" ?args "[?g]" "JsObject True False []"]
  obtain x where x: "combine_filesystem ''filesystem.read'' ?args [?g] (JsObject True False []) = ok x"
    "cr_ok x \<longrightarrow> (\<exists>gs. mapR parse_filesystem [?g] = ok gs \<and> (\<forall>p \<in> set (operationPaths ''filesystem.read'' ?args).
       \<forall>c \<in> set gs. fs_admits p c))"
    by (elim exE conjE) force
  have "operationPaths ''filesystem.read'' ?args = [''src/a.ts'']" by code_simp
  moreover have "case mapR parse_filesystem [?g] of Inr [c] \<Rightarrow> fk_allowedPathPrefixes c = Some [''src/lib''] | _ \<Rightarrow> False" by code_simp
  moreover have "\<not> pathMatchesPrefix ''src/a.ts'' ''src/lib''" by code_simp
  ultimately have "\<not> cr_ok x" using x(2) by (auto simp: fs_admits_def inside_def split: sum.splits list.splits)
  then show ?thesis using x(1) by blast
qed

section \<open>Lemmas: parsed constraints\<close>

definition prefixes_ok :: "string list \<Rightarrow> bool" where
  "prefixes_ok l \<longleftrightarrow> sorted l \<and> distinct l
     \<and> (\<forall>p \<in> set l. normalizeRelativePath p (limits_of filesystemHardLimits) False = ok p)"

definition extensions_ok :: "string list \<Rightarrow> bool" where
  "extensions_ok l \<longleftrightarrow> sorted l \<and> distinct l \<and> (\<forall>x \<in> set l. extension_syntax x \<and> slash \<notin> set x \<and> js_lower x = x)"

lemma distinct_js_unique [simp]: "distinct (js_unique xs)"
  by (simp add: js_unique_def)

lemma sort_unique_id: "sorted xs \<Longrightarrow> distinct xs \<Longrightarrow> sort (js_unique xs) = (xs :: string list)"
  by (intro sorted_distinct_set_unique) simp_all

lemma to_lower_idem [simp]: "to_lower (to_lower c) = to_lower c"
  by (auto simp: to_lower_def Let_def)

lemma js_lower_idem [simp]: "js_lower (js_lower s) = js_lower s"
  by (simp add: js_lower_def)

lemma normalized_list:
  assumes "normalizedPrefixes v f = ok l"
  obtains list paths where "mapR (\<lambda>path. normalizeRelativePath path (limits_of filesystemHardLimits) False) list = ok paths"
    "l = sort (js_unique paths)"
proof -
  obtain list where list: "stringList v f = ok list" using assms by (auto simp: normalizedPrefixes_def result_simps)
  then obtain paths where "mapR (\<lambda>path. normalizeRelativePath path (limits_of filesystemHardLimits) False) list = ok paths"
    using assms by (cases "mapR (\<lambda>path. normalizeRelativePath path (limits_of filesystemHardLimits) False) list")
      (simp_all add: normalizedPrefixes_def split: if_splits)
  then show thesis using that assms list by (simp add: normalizedPrefixes_def)
qed

lemma normalizedPrefixes_ok: "normalizedPrefixes v f = ok l \<Longrightarrow> prefixes_ok l"
proof -
  assume "normalizedPrefixes v f = ok l"
  then obtain list paths where list: "mapR (\<lambda>path. normalizeRelativePath path (limits_of filesystemHardLimits) False) list = ok paths"
    and l: "l = sort (js_unique paths)"
    by (rule normalized_list)
  have "\<forall>p \<in> set paths. normalizeRelativePath p (limits_of filesystemHardLimits) False = ok p"
    using normalize_path_ok(1) mapR_ok_nth [OF list] mapR_ok_length [OF list] by (metis in_set_conv_nth)
  then show ?thesis using l by (simp add: prefixes_ok_def)
qed

lemma lower_syntax: "extension_syntax s \<Longrightarrow> extension_syntax (js_lower s)"
proof -
  have "to_lower (CHR ''.'') = CHR ''.''" "to_lower (CHR ''_'') = CHR ''_''" "to_lower (CHR ''-'') = CHR ''-''" by code_simp+
  then show "extension_syntax s \<Longrightarrow> extension_syntax (js_lower s)"
    by (auto simp: extension_syntax_def js_lower_def extension_char_def list_all_iff split: list.splits)
qed

lemma syntax_no_slash: "extension_syntax s \<Longrightarrow> slash \<notin> set s"
proof -
  have "\<not> extension_char slash" by code_simp
  then show "extension_syntax s \<Longrightarrow> slash \<notin> set s" by (auto simp: extension_syntax_def list_all_iff split: list.splits)
qed

lemma normalizedExtensions_ok: "normalizedExtensions v = ok l \<Longrightarrow> extensions_ok l"
  by (auto simp: normalizedExtensions_def result_simps extensions_ok_def list_ex_iff lower_syntax syntax_no_slash split: if_splits)

definition parsed_ok :: "filesystem_constraints \<Rightarrow> bool" where
  "parsed_ok c \<longleftrightarrow> (\<forall>l. fk_allowedPathPrefixes c = Some l \<longrightarrow> prefixes_ok l)
     \<and> (\<forall>l. fk_deniedPathPrefixes c = Some l \<longrightarrow> prefixes_ok l) \<and> (\<forall>l. fk_allowedExtensions c = Some l \<longrightarrow> extensions_ok l)"

lemma optional_ok: "optional f v = ok (Some x) \<Longrightarrow> f v = ok x"
  by (auto simp: optional_def result_simps split: if_splits)

lemma parse_ok: "parse_filesystem v = ok c \<Longrightarrow> parsed_ok c"
  by (auto simp: parse_filesystem_def Let_def result_simps parsed_ok_def split: if_splits
      dest!: optional_ok normalizedPrefixes_ok normalizedExtensions_ok)

lemma intersectPrefixes_ok: "prefixes_ok l \<Longrightarrow> prefixes_ok r \<Longrightarrow> prefixes_ok (intersectPrefixes l r)"
  unfolding prefixes_ok_def set_intersectPrefixes by (auto simp: intersectPrefixes_def)

lemma intersectExact_ok: "extensions_ok l \<Longrightarrow> extensions_ok (intersectExact l r)"
  by (auto simp: extensions_ok_def intersectExact_def)

lemma fold_prefixes_ok: "prefixes_ok l \<Longrightarrow> \<forall>r \<in> set rest. prefixes_ok r \<Longrightarrow> prefixes_ok (foldl intersectPrefixes l rest)"
  by (induction rest arbitrary: l) (auto simp: intersectPrefixes_ok)

lemma fold_extensions_ok: "extensions_ok l \<Longrightarrow> extensions_ok (foldl intersectExact l rest)"
  by (induction rest arbitrary: l) (auto simp: intersectExact_ok)

lemma combined_prefixes_ok:
  assumes "combinedAllowed intersectPrefixes field cs = Some l" and "\<forall>c \<in> set cs. \<forall>l. field c = Some l \<longrightarrow> prefixes_ok l"
  shows "prefixes_ok l"
proof -
  have "\<forall>x \<in> set (List.map_filter field cs). prefixes_ok x" using assms(2) by (auto simp: set_map_filter)
  then show ?thesis using assms(1) fold_prefixes_ok by (auto simp: combinedAllowed_def split: list.splits)
qed

lemma combined_extensions_ok:
  assumes "combinedAllowed intersectExact field cs = Some l" and "\<forall>c \<in> set cs. \<forall>l. field c = Some l \<longrightarrow> extensions_ok l"
  shows "extensions_ok l"
proof -
  have "\<forall>x \<in> set (List.map_filter field cs). extensions_ok x" using assms(2) by (auto simp: set_map_filter)
  then show ?thesis using assms(1) fold_extensions_ok by (auto simp: combinedAllowed_def split: list.splits)
qed

definition effective_ok :: "effective_constraints_fs \<Rightarrow> bool" where
  "effective_ok e \<longleftrightarrow> (\<forall>l. fe_allowedPathPrefixes e = Some l \<longrightarrow> prefixes_ok l) \<and> prefixes_ok (fe_deniedPathPrefixes e)
     \<and> (\<forall>l. fe_allowedExtensions e = Some l \<longrightarrow> extensions_ok l) \<and> (\<forall>f. fe_maximum e f \<le> filesystemHardLimits f)"

lemma effective_filesystem_ok:
  assumes "\<forall>c \<in> set (r # gs). parsed_ok c"
  shows "effective_ok (effective_filesystem r gs)"
proof -
  have "\<forall>l. combinedAllowed intersectPrefixes fk_allowedPathPrefixes (r # gs) = Some l \<longrightarrow> prefixes_ok l"
    "\<forall>l. combinedAllowed intersectExact fk_allowedExtensions (r # gs) = Some l \<longrightarrow> extensions_ok l"
    using assms combined_prefixes_ok [of fk_allowedPathPrefixes "r # gs"] combined_extensions_ok [of fk_allowedExtensions "r # gs"]
    unfolding parsed_ok_def by blast+
  moreover have "prefixes_ok (fe_deniedPathPrefixes (effective_filesystem r gs))"
  proof -
    have "set (fe_deniedPathPrefixes (effective_filesystem r gs))
        = (\<Union>c \<in> set (r # gs). set (case fk_deniedPathPrefixes c of None \<Rightarrow> [] | Some ds \<Rightarrow> ds))"
      by (simp add: effective_filesystem_def Let_def)
    moreover have "\<forall>c \<in> set (r # gs). \<forall>p \<in> set (case fk_deniedPathPrefixes c of None \<Rightarrow> [] | Some ds \<Rightarrow> ds).
        normalizeRelativePath p (limits_of filesystemHardLimits) False = ok p"
    proof
      fix c assume "c \<in> set (r # gs)"
      then show "\<forall>p \<in> set (case fk_deniedPathPrefixes c of None \<Rightarrow> [] | Some ds \<Rightarrow> ds).
        normalizeRelativePath p (limits_of filesystemHardLimits) False = ok p"
        using assms by (cases "fk_deniedPathPrefixes c") (auto simp: parsed_ok_def prefixes_ok_def)
    qed
    ultimately show ?thesis unfolding prefixes_ok_def by (simp add: effective_filesystem_def Let_def) blast
  qed
  moreover have "\<forall>f. fe_maximum (effective_filesystem r gs) f \<le> filesystemHardLimits f"
    using le_effective_maximum [of _ r gs] by blast
  ultimately show ?thesis by (auto simp: effective_ok_def effective_filesystem_def Let_def)
qed

section \<open>Lemmas: constraints as data\<close>

lemma props_embed: "record_props (embed (JObj es)) = Some (map (\<lambda>(k, v). (k, Data (embed v))) es)"
  by (simp add: record_props_def)

lemma prop_of_embed: "prop_of (map (\<lambda>(k, v). (k, Data (embed v))) es) k = (case map_of es k of None \<Rightarrow> JsUndefined | Some v \<Rightarrow> embed v)"
  by (induction es) (auto simp: prop_of_def)

lemma map_of_sort: "distinct (map fst es) \<Longrightarrow> map_of (sort_key fst es) = map_of es"
  by (subst map_of_inject_set) (simp_all add: distinct_map)

lemma slot_strings: "map (\<lambda>s. the (slot_string s)) (map (\<lambda>v. Data (embed v)) (map JStr l)) = l"
  by (induction l) auto

lemma stringList_texts: "stringList (embed (texts_of l)) f = ok l"
  using slot_strings [of l] by (auto simp: stringList_def texts_of_def list_ex_iff)

lemma mapR_id: "\<forall>x \<in> set l. f x = ok x \<Longrightarrow> mapR f l = ok l"
  by (induction l) auto

lemma normalizedPrefixes_texts: "prefixes_ok l \<Longrightarrow> normalizedPrefixes (embed (texts_of l)) f = ok l"
  by (simp add: normalizedPrefixes_def stringList_texts mapR_id prefixes_ok_def sort_unique_id)

lemma normalizedExtensions_texts: "extensions_ok l \<Longrightarrow> normalizedExtensions (embed (texts_of l)) = ok l"
proof -
  assume l: "extensions_ok l"
  then have "map js_lower l = l" by (intro map_idI) (auto simp: extensions_ok_def)
  moreover have "\<not> list_ex (\<lambda>extension. \<not> extension_syntax extension \<or> slash \<in> set extension) l"
    using l by (auto simp: extensions_ok_def list_ex_iff)
  ultimately show ?thesis using l by (simp add: normalizedExtensions_def stringList_texts sort_unique_id extensions_ok_def)
qed

lemma limit_value_number:
  assumes "n \<le> filesystemHardLimits f"
  shows "limit_value f (embed (number_of n)) = ok n"
proof -
  have "n \<le> 1048576" using assms by (cases f) auto
  then show ?thesis by (simp add: number_of_def isSafeInteger_def)
qed

lemma field_listed: "field \<in> set maximumFields"
  by (cases field) (simp_all add: maximumFields_def)

lemma embed_defined [simp]: "embed j \<noteq> JsUndefined"
  by (cases j) auto

lemma map_of_zip_map': "x \<in> set xs \<Longrightarrow> map_of (zip xs (map h xs)) x = Some (h x)"
  by (induction xs) auto

lemma parse_limits_numbers:
  assumes "\<And>f. prop_of ps (limit_str f) = embed (number_of (g f))" and "\<And>f. g f \<le> filesystemHardLimits f"
  shows "parse_limits ps = ok (\<lambda>f. Some (g f))"
proof -
  have "mapR (\<lambda>field. optional (limit_value field) (prop_of ps (limit_str field))) xs = ok (map (\<lambda>f. Some (g f)) xs)" for xs
    by (induction xs) (simp_all add: assms(1) optional_def limit_value_number [OF assms(2)])
  then show ?thesis by (simp add: parse_limits_def map_of_zip_map' [OF field_listed])
qed

lemma effective_props:
  "map_of (effective_entries e) ''allowedPathPrefixes'' = map_option texts_of (fe_allowedPathPrefixes e)"
  "map_of (effective_entries e) ''deniedPathPrefixes'' = Some (texts_of (fe_deniedPathPrefixes e))"
  "map_of (effective_entries e) ''allowedExtensions'' = map_option texts_of (fe_allowedExtensions e)"
  "map_of (effective_entries e) (limit_str f) = Some (number_of (fe_maximum e f))"
  "map_of (effective_entries e) ''allowMutation'' = Some (JBool (fe_allowMutation e))"
  by (auto simp: effective_entries_def maximumFields_def split: option.splits) (cases f; simp)+

lemma find_never: "find (\<lambda>x. False) xs = None"
  by (induction xs) simp_all

lemma parse_effective:
  assumes "effective_ok e"
  shows "parseEffectiveFilesystemConstraints (embed (JObj (sort_key fst (effective_entries e)))) = ok e"
proof -
  let ?es = "sort_key fst (effective_entries e)" let ?ps = "map (\<lambda>(k, v). (k, Data (embed v))) ?es"
  have m: "map_of ?es = map_of (effective_entries e)" by (rule map_of_sort [OF effective_keys(2)])
  have unknown: "filter (\<lambda>key. key \<notin> set constraint_fields) (map fst ?ps) = []"
    using effective_keys(1) [of e] by (force simp: filter_empty_conv)
  have limits: "parse_limits ?ps = ok (\<lambda>f. Some (fe_maximum e f))"
    using assms by (intro parse_limits_numbers) (simp_all add: prop_of_embed m effective_props effective_ok_def)
  have "parse_filesystem (embed (JObj ?es)) = ok \<lparr>fk_allowedPathPrefixes = fe_allowedPathPrefixes e,
      fk_deniedPathPrefixes = Some (fe_deniedPathPrefixes e), fk_allowedExtensions = fe_allowedExtensions e,
      fk_maximum = (\<lambda>f. Some (fe_maximum e f)), fk_allowMutation = Some (fe_allowMutation e)\<rparr>"
    unfolding parse_filesystem_def props_embed Let_def option.case unknown prop_of_embed m effective_props limits
    using assms by (cases "fe_allowedPathPrefixes e"; cases "fe_allowedExtensions e")
      (simp_all add: optional_def normalizedPrefixes_texts normalizedExtensions_texts effective_ok_def)
  then show ?thesis by (simp add: parseEffectiveFilesystemConstraints_def find_never)
qed

text \<open>C39. What the sandbox enforces is what the policy evaluated. When the constraints of the grants and of the resource
  parse, the combined constraints are recorded in a form that the connector reads back unchanged, and no limit in them
  is above the hard limits of the connector.\<close>

theorem effective_constraints_roundtrip:
  assumes "parse_filesystem configuration = ok r" and "mapR parse_filesystem values = ok gs"
  shows "\<exists>x. combine_filesystem operation args values configuration = ok x
    \<and> parseEffectiveFilesystemConstraints (cr_effectiveConstraints x) = ok (effective_filesystem r gs)
    \<and> (\<forall>field. fe_maximum (effective_filesystem r gs) field \<le> filesystemHardLimits field)"
proof -
  have "parsed_ok g" if "g \<in> set gs" for g
    using that parse_ok mapR_ok_nth [OF assms(2)] mapR_ok_length [OF assms(2)] by (metis in_set_conv_nth)
  then have "\<forall>c \<in> set (r # gs). parsed_ok c" using parse_ok [OF assms(1)] by simp
  from effective_filesystem_ok [OF this] have e: "effective_ok (effective_filesystem r gs)" .
  then show ?thesis using assms parse_effective [OF e]
    by (simp add: combine_filesystem_def effective_json Let_def effective_ok_def)
qed

definition sample_configuration :: js_value where
  "sample_configuration = JsObject True False [(''allowMutation'', Data (JsBool True)),
     (''allowedPathPrefixes'', Data (text_list [''src'', ''docs'']))]"

definition sample_fs_grant :: js_value where
  "sample_fs_grant = JsObject True False [(''allowMutation'', Data (JsBool True)),
     (''allowedPathPrefixes'', Data (text_list [''src/lib'', ''test'', ''docs''])), (''maxFileBytes'', Data (JsNumber (Num 100)))]"

theorem effective_constraints_roundtrip_witness:
  "\<exists>x e. combine_filesystem ''filesystem.read'' JsNull [sample_fs_grant] sample_configuration = ok x
     \<and> parseEffectiveFilesystemConstraints (cr_effectiveConstraints x) = ok e
     \<and> fe_allowedPathPrefixes e = Some [''docs'', ''src/lib'']"
proof -
  have "case (parse_filesystem sample_configuration, mapR parse_filesystem [sample_fs_grant]) of
      (Inr r, Inr gs) \<Rightarrow> fe_allowedPathPrefixes (effective_filesystem r gs) = Some [''docs'', ''src/lib'']
    | _ \<Rightarrow> False"
    by code_simp
  then obtain r gs where rg: "parse_filesystem sample_configuration = ok r" "mapR parse_filesystem [sample_fs_grant] = ok gs"
    and e: "fe_allowedPathPrefixes (effective_filesystem r gs) = Some [''docs'', ''src/lib'']"
    by (auto split: sum.splits)
  show ?thesis using effective_constraints_roundtrip [OF rg, of "''filesystem.read''" JsNull] e by blast
qed

end
