(* ===== verification/Filesystem_Sandbox.thy ===== *)
theory Filesystem_Sandbox
  imports Filesystem_Policy Action_Execution
begin

text \<open>
  The sandbox in which the filesystem connector works, \<open>filesystem-sandbox.ts\<close>: reading, listing,
  simulating and executing changes below a root, call by call of the operating system. The file system
  is a tree of entries with inodes and symbolic links; between any two calls other processes may change
  it (\<open>sb_env\<close>), and any call may fail for a reason of its own (\<open>sb_fail\<close>: permissions, devices,
  space). SHA-256, the UTF-8 decoder, random names and how many bytes one write accepts are parameters.
  A byte is a character below 256. One device, and links with absolute targets. The test hooks
  are left out.
\<close>

section \<open>The file system\<close>

record inode =
  nd_bytes :: string
  nd_mode :: nat
  nd_mtime :: int

datatype fs_node = DirNode nat | FileNode nat | LinkNode "string list" | OtherNode nat

record filesys =
  fs_tree :: "(string list \<times> fs_node) list"
  fs_inodes :: "(nat \<times> inode) list"

definition fs_lookup :: "filesys \<Rightarrow> string list \<Rightarrow> fs_node option" where
  "fs_lookup fs p = (if p = [] then Some (DirNode 0) else map_of (fs_tree fs) p)"

definition fs_inode :: "filesys \<Rightarrow> nat \<Rightarrow> inode" where
  "fs_inode fs i = (case map_of (fs_inodes fs) i of None \<Rightarrow> \<lparr>nd_bytes = [], nd_mode = 0, nd_mtime = 0\<rparr> | Some n \<Rightarrow> n)"

definition link_count :: "filesys \<Rightarrow> nat \<Rightarrow> nat" where
  "link_count fs i = length (filter (\<lambda>(p, n). n = FileNode i) (fs_tree fs))"

text \<open>Walking a path: links on the way are followed, the last one if \<open>final\<close> is set, and at most \<open>n\<close> in all.\<close>

function walk :: "filesys \<Rightarrow> bool \<Rightarrow> nat \<Rightarrow> string list \<Rightarrow> string list \<Rightarrow> string + string list" where
  "walk fs final n here [] = Inr here"
| "walk fs final n here (s # ss) = (case fs_lookup fs here of
     Some (DirNode _) \<Rightarrow> (case fs_lookup fs (here @ [s]) of
         None \<Rightarrow> if ss = [] then Inr (here @ [s]) else Inl ''ENOENT''
       | Some (LinkNode target) \<Rightarrow>
           if ss = [] \<and> \<not> final then Inr (here @ [s])
           else (case n of 0 \<Rightarrow> Inl ''ELOOP'' | Suc m \<Rightarrow> walk fs final m [] (target @ ss))
       | Some _ \<Rightarrow> walk fs final n (here @ [s]) ss)
   | Some _ \<Rightarrow> Inl ''ENOTDIR'' | None \<Rightarrow> Inl ''ENOENT'')"
  by pat_completeness auto

termination
  by (relation "measures [\<lambda>(fs, final, n, here, ss). n, \<lambda>(fs, final, n, here, ss). length ss]") auto

definition max_links :: nat where
  "max_links = 40"

text \<open>The entry a path names.\<close>

definition entry_at :: "filesys \<Rightarrow> bool \<Rightarrow> string list \<Rightarrow> string + string list \<times> fs_node" where
  "entry_at fs final p = (case walk fs final max_links [] p of
     Inl code \<Rightarrow> Inl code
   | Inr q \<Rightarrow> (case fs_lookup fs q of None \<Rightarrow> Inl ''ENOENT'' | Some n \<Rightarrow> Inr (q, n)))"

subsection \<open>The state of a file\<close>

datatype file_kind = KindDirectory | KindFile | KindLink | KindOther

record stats =
  st_kind :: file_kind
  st_ino :: nat
  st_size :: nat
  st_mode :: nat
  st_mtime :: int
  st_nlink :: nat

fun stats_of :: "filesys \<Rightarrow> fs_node \<Rightarrow> stats" where
  "stats_of fs (DirNode i) = \<lparr>st_kind = KindDirectory, st_ino = i, st_size = 0, st_mode = 0, st_mtime = 0, st_nlink = 1\<rparr>"
| "stats_of fs (FileNode i) = \<lparr>st_kind = KindFile, st_ino = i, st_size = length (nd_bytes (fs_inode fs i)),
     st_mode = nd_mode (fs_inode fs i), st_mtime = nd_mtime (fs_inode fs i), st_nlink = link_count fs i\<rparr>"
| "stats_of fs (LinkNode target) = \<lparr>st_kind = KindLink, st_ino = 0, st_size = 0, st_mode = 0, st_mtime = 0, st_nlink = 1\<rparr>"
| "stats_of fs (OtherNode i) = \<lparr>st_kind = KindOther, st_ino = i, st_size = 0, st_mode = 0, st_mtime = 0, st_nlink = 1\<rparr>"

subsection \<open>Changes of the tree\<close>

definition set_entry :: "string list \<Rightarrow> fs_node \<Rightarrow> filesys \<Rightarrow> filesys" where
  "set_entry p n fs = fs\<lparr>fs_tree := (p, n) # filter (\<lambda>e. fst e \<noteq> p) (fs_tree fs)\<rparr>"

definition remove_entry :: "string list \<Rightarrow> filesys \<Rightarrow> filesys" where
  "remove_entry p fs = fs\<lparr>fs_tree := filter (\<lambda>e. fst e \<noteq> p) (fs_tree fs)\<rparr>"

definition set_inode :: "nat \<Rightarrow> inode \<Rightarrow> filesys \<Rightarrow> filesys" where
  "set_inode i nd fs = fs\<lparr>fs_inodes := (i, nd) # filter (\<lambda>e. fst e \<noteq> i) (fs_inodes fs)\<rparr>"

fun node_ino :: "fs_node \<Rightarrow> nat" where
  "node_ino (DirNode i) = i"
| "node_ino (FileNode i) = i"
| "node_ino (LinkNode t) = 0"
| "node_ino (OtherNode i) = i"

definition fresh_ino :: "filesys \<Rightarrow> nat" where
  "fresh_ino fs = Suc (foldr max (map (\<lambda>(p, n). node_ino n) (fs_tree fs) @ map fst (fs_inodes fs)) 0)"

section \<open>The sandbox and its calls\<close>

record fs_world =
  fw_fs :: filesys
  fw_calls :: nat

record sandbox =
  sb_root :: "string list"
  sb_constraints :: effective_constraints_fs
  sb_aborted :: bool
  sb_env :: "nat \<Rightarrow> filesys \<Rightarrow> filesys"
  sb_fail :: "nat \<Rightarrow> string option"
  sb_accepted :: "nat \<Rightarrow> nat"
  sb_uuid :: "nat \<Rightarrow> string"
  sb_sha256 :: "string \<Rightarrow> string"
  sb_decode :: "string \<Rightarrow> string option"
  sb_num_str :: "rat \<Rightarrow> string"

text \<open>A call sees the file system as other processes left it, and fails or works on it.\<close>

definition syscall :: "sandbox \<Rightarrow> (filesys \<Rightarrow> string + 'a \<times> filesys) \<Rightarrow> (fs_world, 'a) command" where
  "syscall sb f = (\<lambda>w.
     let fs = sb_env sb (fw_calls w) (fw_fs w); n = Suc (fw_calls w) in
     case sb_fail sb (fw_calls w) of
       Some code \<Rightarrow> (throw (SystemError code), \<lparr>fw_fs = fs, fw_calls = n\<rparr>)
     | None \<Rightarrow> (case f fs of Inl code \<Rightarrow> (throw (SystemError code), \<lparr>fw_fs = fs, fw_calls = n\<rparr>)
         | Inr (x, fs') \<Rightarrow> (ok x, \<lparr>fw_fs = fs', fw_calls = n\<rparr>)))"

definition inspecting :: "(filesys \<Rightarrow> string + 'a) \<Rightarrow> filesys \<Rightarrow> string + 'a \<times> filesys" where
  "inspecting f fs = (case f fs of Inl code \<Rightarrow> Inl code | Inr x \<Rightarrow> Inr (x, fs))"

definition lstatSync :: "sandbox \<Rightarrow> string list \<Rightarrow> (fs_world, stats) command" where
  "lstatSync sb p = syscall sb (inspecting (\<lambda>fs. map_sum id (\<lambda>(q, n). stats_of fs n) (entry_at fs False p)))"

definition realpathSync :: "sandbox \<Rightarrow> string list \<Rightarrow> (fs_world, string list) command" where
  "realpathSync sb p = syscall sb (inspecting (\<lambda>fs. map_sum id fst (entry_at fs True p)))"

text \<open>A descriptor keeps its file, whatever happens to the name. \<open>O_NOFOLLOW\<close> refuses a link.\<close>

definition openSync :: "sandbox \<Rightarrow> string list \<Rightarrow> (fs_world, fs_node) command" where
  "openSync sb p = syscall sb (inspecting (\<lambda>fs. case entry_at fs False p of
     Inl code \<Rightarrow> Inl code | Inr (q, LinkNode _) \<Rightarrow> Inl ''ELOOP'' | Inr (q, n) \<Rightarrow> Inr n))"

definition fstatSync :: "sandbox \<Rightarrow> fs_node \<Rightarrow> (fs_world, stats) command" where
  "fstatSync sb h = syscall sb (inspecting (\<lambda>fs. Inr (stats_of fs h)))"

definition readSync :: "sandbox \<Rightarrow> fs_node \<Rightarrow> nat \<Rightarrow> nat \<Rightarrow> (fs_world, string) command" where
  "readSync sb h position n = syscall sb (inspecting (\<lambda>fs. case h of
     FileNode i \<Rightarrow> Inr (take n (drop position (nd_bytes (fs_inode fs i)))) | _ \<Rightarrow> Inl ''EISDIR''))"

text \<open>The names in a directory.\<close>

definition children :: "filesys \<Rightarrow> string list \<Rightarrow> string list" where
  "children fs p = map (\<lambda>e. last (fst e)) (filter (\<lambda>e. fst e \<noteq> [] \<and> butlast (fst e) = p) (fs_tree fs))"

definition readDirectory :: "sandbox \<Rightarrow> string list \<Rightarrow> (fs_world, string list) command" where
  "readDirectory sb p = syscall sb (inspecting (\<lambda>fs. case entry_at fs True p of
     Inl code \<Rightarrow> Inl code | Inr (q, DirNode _) \<Rightarrow> Inr (children fs q) | Inr _ \<Rightarrow> Inl ''ENOTDIR''))"

text \<open>Where a new entry goes: the directory of the path exists, its last name is taken as it is.\<close>

definition new_place :: "filesys \<Rightarrow> string list \<Rightarrow> string + string list" where
  "new_place fs p = (if p = [] then Inl ''EEXIST'' else case entry_at fs True (butlast p) of
     Inl code \<Rightarrow> Inl code | Inr (q, DirNode _) \<Rightarrow> Inr (q @ [last p]) | Inr _ \<Rightarrow> Inl ''ENOTDIR'')"

text \<open>\<open>O_WRONLY | O_CREAT | O_EXCL | O_NOFOLLOW\<close>\<close>

definition openExclusive :: "sandbox \<Rightarrow> string list \<Rightarrow> nat \<Rightarrow> (fs_world, fs_node) command" where
  "openExclusive sb p mode = syscall sb (\<lambda>fs. case new_place fs p of
     Inl code \<Rightarrow> Inl code
   | Inr q \<Rightarrow> if fs_lookup fs q \<noteq> None then Inl ''EEXIST''
       else let i = fresh_ino fs in
         Inr (FileNode i, set_inode i \<lparr>nd_bytes = [], nd_mode = mode, nd_mtime = 0\<rparr> (set_entry q (FileNode i) fs)))"

definition change_inode :: "sandbox \<Rightarrow> fs_node \<Rightarrow> (inode \<Rightarrow> inode) \<Rightarrow> 'a \<Rightarrow> (fs_world, 'a) command" where
  "change_inode sb h f x = syscall sb (\<lambda>fs. case h of
     FileNode i \<Rightarrow> Inr (x, set_inode i (f (fs_inode fs i)) fs) | _ \<Rightarrow> Inl ''EBADF'')"

text \<open>A write at the end of the file accepts some of the bytes.\<close>

definition writeSync :: "sandbox \<Rightarrow> fs_node \<Rightarrow> string \<Rightarrow> (fs_world, nat) command" where
  "writeSync sb h bytes = (\<lambda>w.
     let n = min (sb_accepted sb (fw_calls w)) (length bytes) in
     change_inode sb h (\<lambda>nd. nd\<lparr>nd_bytes := nd_bytes nd @ take n bytes\<rparr>) n w)"

definition fchmodSync :: "sandbox \<Rightarrow> fs_node \<Rightarrow> nat \<Rightarrow> (fs_world, unit) command" where
  "fchmodSync sb h mode = change_inode sb h (\<lambda>nd. nd\<lparr>nd_mode := mode\<rparr>) ()"

definition fsyncSync :: "sandbox \<Rightarrow> fs_node \<Rightarrow> (fs_world, unit) command" where
  "fsyncSync sb h = syscall sb (inspecting (\<lambda>fs. Inr ()))"

definition closeSync :: "sandbox \<Rightarrow> fs_node \<Rightarrow> (fs_world, unit) command" where
  "closeSync sb h = syscall sb (inspecting (\<lambda>fs. Inr ()))"

text \<open>A second name for a file; \<open>rename\<close> replaces a file at the new name; \<open>unlink\<close> removes a name.\<close>

definition linkSync :: "sandbox \<Rightarrow> string list \<Rightarrow> string list \<Rightarrow> (fs_world, unit) command" where
  "linkSync sb old_path new_path = syscall sb (\<lambda>fs. case (entry_at fs False old_path, new_place fs new_path) of
     (Inl code, _) \<Rightarrow> Inl code | (_, Inl code) \<Rightarrow> Inl code
   | (Inr (q, n), Inr t) \<Rightarrow> if fs_lookup fs t \<noteq> None then Inl ''EEXIST''
       else (case n of DirNode _ \<Rightarrow> Inl ''EPERM'' | _ \<Rightarrow> Inr ((), set_entry t n fs)))"

definition renameSync :: "sandbox \<Rightarrow> string list \<Rightarrow> string list \<Rightarrow> (fs_world, unit) command" where
  "renameSync sb old_path new_path = syscall sb (\<lambda>fs. case (entry_at fs False old_path, new_place fs new_path) of
     (Inl code, _) \<Rightarrow> Inl code | (_, Inl code) \<Rightarrow> Inl code
   | (Inr (q, DirNode _), _) \<Rightarrow> Inl ''ENOTSUP''
   | (Inr (q, n), Inr t) \<Rightarrow> (case fs_lookup fs t of
         Some (DirNode _) \<Rightarrow> Inl ''EISDIR''
       | Some m \<Rightarrow> if m = n then Inr ((), fs) else Inr ((), set_entry t n (remove_entry q fs))
       | None \<Rightarrow> Inr ((), set_entry t n (remove_entry q fs))))"

definition unlinkSync :: "sandbox \<Rightarrow> string list \<Rightarrow> (fs_world, unit) command" where
  "unlinkSync sb p = syscall sb (\<lambda>fs. case entry_at fs False p of
     Inl code \<Rightarrow> Inl code | Inr (q, DirNode _) \<Rightarrow> Inl ''EISDIR'' | Inr (q, n) \<Rightarrow> Inr ((), remove_entry q fs))"

subsection \<open>Handling errors\<close>

text \<open>\<open>try m finally f\<close>, where an error of \<open>f\<close> replaces the outcome of \<open>m\<close>; \<open>try m catch h\<close> is \<open>catchM\<close>.\<close>

definition finallyM :: "(fs_world, 'a) command \<Rightarrow> (fs_world, unit) command \<Rightarrow> (fs_world, 'a) command" where
  "finallyM m f = (\<lambda>w. case m w of (r, w') \<Rightarrow> (case f w' of (Inl e, w'') \<Rightarrow> (Inl e, w'') | (Inr u, w'') \<Rightarrow> (r, w'')))"

definition errorCode :: "error \<Rightarrow> string option" where
  "errorCode e = (case e of SystemError code \<Rightarrow> Some code | _ \<Rightarrow> None)"

section \<open>The operations of the sandbox\<close>

definition symlink_denied :: error where
  "symlink_denied = fs_error ''FilesystemSymlinkDeniedError'' ''Symbolic links are not permitted by the filesystem sandbox''"
definition hard_link_denied :: error where
  "hard_link_denied = fs_error ''FilesystemHardLinkDeniedError'' ''Hard-linked files are not permitted by the filesystem sandbox''"
definition sensitive_path :: error where
  "sensitive_path = fs_error ''SensitiveFilesystemPathError'' ''Filesystem path is unavailable''"
definition entry_not_found :: error where
  "entry_not_found = fs_error ''FilesystemEntryNotFoundError'' ''Filesystem entry is unavailable''"
definition destination_exists :: error where
  "destination_exists = fs_error ''FilesystemDestinationExistsError'' ''Filesystem destination already exists''"
definition not_regular_file :: error where
  "not_regular_file = fs_error ''FilesystemNotRegularFileError'' ''Filesystem entry is not a regular file''"
definition not_directory :: error where
  "not_directory = fs_error ''FilesystemNotDirectoryError'' ''Filesystem entry is not a directory''"
definition file_too_large :: error where
  "file_too_large = fs_error ''FilesystemFileTooLargeError'' ''Filesystem file exceeds the permitted byte limit''"
definition output_too_large :: error where
  "output_too_large = fs_error ''FilesystemOutputTooLargeError'' ''Filesystem output exceeds the permitted byte limit''"
definition source_changed :: error where
  "source_changed = fs_error ''FilesystemSourceChangedError'' ''Filesystem source changed during the operation''"
definition precondition_failed :: error where
  "precondition_failed = fs_error ''SourcePreconditionFailedError'' ''Filesystem source precondition failed''"
definition no_write_progress :: error where
  "no_write_progress = fs_error ''FilesystemWriteProgressError'' ''Filesystem staging write made no progress''"

definition unsupported_operation :: "string \<Rightarrow> error" where
  "unsupported_operation operation = ActionError (UnsupportedConnectorOperationError ''filesystem'' operation)"

definition abort_check :: "sandbox \<Rightarrow> (fs_world, unit) command" where
  "abort_check sb = liftR (throwIfAborted (sb_aborted sb))"

subsection \<open>Paths of the sandbox\<close>

abbreviation denied_prefixes :: "sandbox \<Rightarrow> string list" where
  "denied_prefixes sb \<equiv> fe_deniedPathPrefixes (sb_constraints sb)"

abbreviation sb_limit :: "sandbox \<Rightarrow> limit_field \<Rightarrow> nat" where
  "sb_limit sb \<equiv> fe_maximum (sb_constraints sb)"

definition assertVisible :: "sandbox \<Rightarrow> string \<Rightarrow> unit result" where
  "assertVisible sb path = (if isSensitiveFilesystemPath path (denied_prefixes sb) then throw sensitive_path else ok ())"

definition classifyPath :: "sandbox \<Rightarrow> string \<Rightarrow> path_classification" where
  "classifyPath sb path = (if isSensitiveFilesystemPath path (denied_prefixes sb) then PathDenied
     else classifyAllowedPath path (fe_allowedPathPrefixes (sb_constraints sb)))"

definition extensionPermitted :: "sandbox \<Rightarrow> string \<Rightarrow> bool" where
  "extensionPermitted sb path = (case fe_allowedExtensions (sb_constraints sb) of None \<Rightarrow> True
     | Some allowed \<Rightarrow> fileExtension path \<in> set allowed)"

definition assertInsideAllowed :: "sandbox \<Rightarrow> string \<Rightarrow> unit result" where
  "assertInsideAllowed sb path = (if classifyPath sb path \<noteq> InsideAllowed then throw sensitive_path else ok ())"

definition assertAccessibleByType :: "sandbox \<Rightarrow> string \<Rightarrow> stats \<Rightarrow> unit result" where
  "assertAccessibleByType sb path st =
     (if classifyPath sb path = PathDenied \<or> (st_kind st = KindFile \<and> classifyPath sb path \<noteq> InsideAllowed)
      then throw sensitive_path else ok ())"

definition assertMutationPermitted :: "sandbox \<Rightarrow> unit result" where
  "assertMutationPermitted sb = (if fe_allowMutation (sb_constraints sb) then ok () else throw sensitive_path)"

definition assertEffectivePath :: "sandbox \<Rightarrow> json option \<Rightarrow> bool \<Rightarrow> string result" where
  "assertEffectivePath sb path allowRoot = (case path of
     Some (JStr s) \<Rightarrow> bindR (normalizeRelativePath s (limits_of (sb_limit sb)) allowRoot) (\<lambda>normalized.
       if normalized \<noteq> s then throw invalid_path else ok normalized)
   | _ \<Rightarrow> throw invalid_path)"

definition isPortableDiscoveredPath :: "sandbox \<Rightarrow> string \<Rightarrow> bool" where
  "isPortableDiscoveredPath sb path \<longleftrightarrow> normalizeRelativePath path (limits_of (sb_limit sb)) False = ok path"

definition assertRoot :: "sandbox \<Rightarrow> (fs_world, unit) command" where
  "assertRoot sb =
     bindM (catchM (lstatSync sb (sb_root sb)) (\<lambda>_. throwM entry_not_found)) (\<lambda>st.
     bindM (guardM (st_kind st \<noteq> KindLink) symlink_denied) (\<lambda>_.
     bindM (guardM (st_kind st = KindDirectory) not_directory) (\<lambda>_.
     bindM (realpathSync sb (sb_root sb)) (\<lambda>canonical.
     guardM (canonical = sb_root sb) symlink_denied))))"

definition lookup_error :: "error \<Rightarrow> error" where
  "lookup_error e = (if errorCode e = Some ''ENOENT'' then entry_not_found else source_changed)"

text \<open>The loop over the segments of a path: \<open>current\<close> is the entry reached, \<open>st\<close> its state.\<close>

fun inspect_segments :: "sandbox \<Rightarrow> string list \<Rightarrow> stats \<Rightarrow> string list \<Rightarrow> (fs_world, stats) command" where
  "inspect_segments sb current st [] = returnM st"
| "inspect_segments sb current st (s # ss) =
     bindM (liftR (resolveContainedPath current s)) (\<lambda>deeper.
     bindM (catchM (lstatSync sb deeper) (\<lambda>e. throwM (lookup_error e))) (\<lambda>found.
     bindM (guardM (st_kind found \<noteq> KindLink) symlink_denied) (\<lambda>_.
     bindM (guardM (ss = [] \<or> st_kind found = KindDirectory) not_directory) (\<lambda>_.
     inspect_segments sb deeper found ss))))"

definition inspect :: "sandbox \<Rightarrow> string \<Rightarrow> (fs_world, string list \<times> stats) command" where
  "inspect sb path =
     bindM (assertRoot sb) (\<lambda>_.
     bindM (liftR (assertVisible sb path)) (\<lambda>_.
     bindM (lstatSync sb (sb_root sb)) (\<lambda>root_stats.
     bindM (inspect_segments sb (sb_root sb) root_stats (if path = '''' then [] else js_split slash path)) (\<lambda>st.
     bindM (liftR (resolveContainedPath (sb_root sb) path)) (\<lambda>absolute.
     bindM (catchM (realpathSync sb absolute) (\<lambda>e. throwM (lookup_error e))) (\<lambda>canonical.
     bindM (guardM (canonical = absolute) symlink_denied) (\<lambda>_.
     returnM (absolute, st))))))))"

text \<open>\<open>dirname\<close> of a normalized path; that of a name without directory is the root.\<close>

definition parentPath :: "string \<Rightarrow> string" where
  "parentPath path = join ''/'' (butlast (js_split slash path))"

definition validateParent :: "sandbox \<Rightarrow> string \<Rightarrow> (fs_world, unit) command" where
  "validateParent sb path = bindM (inspect sb (parentPath path)) (\<lambda>(absolute, st). guardM (st_kind st = KindDirectory) not_directory)"

subsection \<open>Reading a file\<close>

record text_file =
  tf_bytes :: string
  tf_content :: string
  tf_sha256 :: string

definition hex64 :: "string \<Rightarrow> bool" where
  "hex64 s \<longleftrightarrow> length s = 64 \<and> list_all (\<lambda>c. c \<in> set ''0123456789abcdef'') s"

definition open_error :: "error \<Rightarrow> error" where
  "open_error e = (if errorCode e = Some ''ELOOP'' then symlink_denied
     else if errorCode e \<in> {Some ''ENOENT'', Some ''ENOTDIR'', Some ''EACCES'', Some ''EPERM''} then entry_not_found
     else source_changed)"

definition assertOpenedPathStillContained :: "sandbox \<Rightarrow> string \<Rightarrow> stats \<Rightarrow> (fs_world, unit) command" where
  "assertOpenedPathStillContained sb path opened =
     bindM (inspect sb path) (\<lambda>(absolute, current).
     guardM (st_kind current = KindFile \<and> st_ino current = st_ino opened \<and> st_nlink opened \<le> 1 \<and> st_nlink current \<le> 1)
       source_changed)"

definition chunk_size :: nat where
  "chunk_size = 64 * 1024"

text \<open>The loop that reads up to one byte more than is permitted.\<close>

function read_chunks :: "sandbox \<Rightarrow> fs_node \<Rightarrow> string \<Rightarrow> (fs_world, string) command" where
  "read_chunks sb h bytes =
     bindM (abort_check sb) (\<lambda>_.
     let n = min chunk_size (sb_limit sb MaxFileBytes + 1 - length bytes) in
     if n = 0 then throwM file_too_large
     else bindM (readSync sb h (length bytes) n) (\<lambda>chunk.
       if length chunk = 0 then returnM bytes
       else if length bytes + length chunk > sb_limit sb MaxFileBytes then throwM file_too_large
       else read_chunks sb h (bytes @ chunk)))"
  by pat_completeness auto

termination
  by (relation "measure (\<lambda>(sb, h, bytes). sb_limit sb MaxFileBytes + 1 - length bytes)")
    (auto intro!: diff_less_mono2 simp flip: length_greater_0_conv)

definition read_opened :: "sandbox \<Rightarrow> string \<Rightarrow> stats \<Rightarrow> fs_node \<Rightarrow> (fs_world, text_file) command" where
  "read_opened sb path inspected h =
     bindM (fstatSync sb h) (\<lambda>before.
     bindM (guardM (st_kind before = KindFile) not_regular_file) (\<lambda>_.
     bindM (guardM (st_nlink before \<le> 1) hard_link_denied) (\<lambda>_.
     bindM (guardM (st_ino before = st_ino inspected) source_changed) (\<lambda>_.
     bindM (assertOpenedPathStillContained sb path before) (\<lambda>_.
     bindM (guardM (st_size before \<le> sb_limit sb MaxFileBytes) file_too_large) (\<lambda>_.
     bindM (read_chunks sb h []) (\<lambda>bytes.
     bindM (fstatSync sb h) (\<lambda>after.
     bindM (guardM (st_ino after = st_ino before \<and> st_size after = st_size before \<and> st_mtime after = st_mtime before
       \<and> st_nlink after = st_nlink before) source_changed) (\<lambda>_.
     bindM (assertOpenedPathStillContained sb path after) (\<lambda>_.
     bindM (guardM (CHR 0x00 \<notin> set bytes) binary_file) (\<lambda>_.
     case sb_decode sb bytes of
       None \<Rightarrow> throwM binary_file
     | Some content \<Rightarrow>
         bindM (guardM (hex64 (sb_sha256 sb bytes)) source_changed) (\<lambda>_.
         returnM \<lparr>tf_bytes = bytes, tf_content = content, tf_sha256 = sb_sha256 sb bytes\<rparr>))))))))))))"

definition readTextFile :: "sandbox \<Rightarrow> string \<Rightarrow> (fs_world, text_file) command" where
  "readTextFile sb path =
     bindM (abort_check sb) (\<lambda>_.
     bindM (guardM (extensionPermitted sb path) sensitive_path) (\<lambda>_.
     bindM (inspect sb path) (\<lambda>(absolute, inspected).
     bindM (guardM (st_kind inspected = KindFile) not_regular_file) (\<lambda>_.
     bindM (guardM (st_nlink inspected \<le> 1) hard_link_denied) (\<lambda>_.
     bindM (guardM (st_size inspected \<le> sb_limit sb MaxFileBytes) file_too_large) (\<lambda>_.
     bindM (abort_check sb) (\<lambda>_.
     bindM (catchM (openSync sb absolute) (\<lambda>e. throwM (open_error e))) (\<lambda>h.
     finallyM (read_opened sb path inspected h) (closeSync sb h)))))))))"

text \<open>Absent: the parent is a directory and the name is not taken; a link is refused.\<close>

definition isAbsent :: "sandbox \<Rightarrow> string \<Rightarrow> (fs_world, bool) command" where
  "isAbsent sb path =
     bindM (liftR (assertVisible sb path)) (\<lambda>_.
     bindM (validateParent sb path) (\<lambda>_.
     bindM (liftR (resolveContainedPath (sb_root sb) path)) (\<lambda>absolute.
     catchM
       (bindM (lstatSync sb absolute) (\<lambda>st. bindM (guardM (st_kind st \<noteq> KindLink) symlink_denied) (\<lambda>_. returnM False)))
       (\<lambda>e. if errorCode e = Some ''ENOENT'' then returnM True else throwM e))))"

definition requireAbsent :: "sandbox \<Rightarrow> string \<Rightarrow> (fs_world, unit) command" where
  "requireAbsent sb path = bindM (isAbsent sb path) (\<lambda>absent. guardM absent destination_exists)"

subsection \<open>Preconditions\<close>

definition size_matches :: "nat \<Rightarrow> js_num \<Rightarrow> bool" where
  "size_matches n s \<longleftrightarrow> isFinite s \<and> num_value s = of_nat n"

definition verify_precondition :: "sandbox \<Rightarrow> file_precondition \<Rightarrow> (fs_world, unit) command" where
  "verify_precondition sb p =
     bindM (liftR (assertEffectivePath sb (Some (JStr (precondition_path p))) False)) (\<lambda>_.
     bindM (abort_check sb) (\<lambda>_.
     bindM (liftR (assertInsideAllowed sb (precondition_path p))) (\<lambda>_.
     case p of
       AbsentFile path \<Rightarrow> bindM (isAbsent sb path) (\<lambda>absent. guardM absent precondition_failed)
     | PresentFile path sha256 expected \<Rightarrow> bindM (readTextFile sb path) (\<lambda>file.
         guardM (tf_sha256 file = sha256 \<and> size_matches (length (tf_bytes file)) expected) precondition_failed))))"

fun verifyPreconditions :: "sandbox \<Rightarrow> file_precondition list \<Rightarrow> (fs_world, unit) command" where
  "verifyPreconditions sb [] = returnM ()"
| "verifyPreconditions sb (p # ps) = bindM (verify_precondition sb p) (\<lambda>_. verifyPreconditions sb ps)"

definition optional_path :: "sandbox \<Rightarrow> json option \<Rightarrow> string option result" where
  "optional_path sb value = (case value of
     Some (JStr s) \<Rightarrow> bindR (assertEffectivePath sb value False) (\<lambda>p. ok (Some p)) | _ \<Rightarrow> ok None)"

definition absent_at :: "file_precondition \<Rightarrow> string option \<Rightarrow> bool" where
  "absent_at p expected \<longleftrightarrow> (case p of AbsentFile path \<Rightarrow> Some path = expected | PresentFile _ _ _ \<Rightarrow> False)"

definition file_at :: "file_precondition \<Rightarrow> string option \<Rightarrow> bool" where
  "file_at p expected \<longleftrightarrow> (case p of AbsentFile _ \<Rightarrow> False | PresentFile path _ _ \<Rightarrow> Some path = expected)"

definition preconditions_fit ::
  "string \<Rightarrow> string option \<Rightarrow> string option \<Rightarrow> string option \<Rightarrow> file_precondition list \<Rightarrow> bool" where
  "preconditions_fit operation path sourcePath destinationPath preconditions \<longleftrightarrow> (case preconditions of
     [p] \<Rightarrow> operation = ''filesystem.create'' \<and> absent_at p path
       \<or> operation \<in> {''filesystem.write'', ''filesystem.delete''} \<and> file_at p path
   | [p, q] \<Rightarrow> operation = ''filesystem.move'' \<and> file_at p sourcePath \<and> absent_at q destinationPath
   | _ \<Rightarrow> False)"

definition assertExecutionPreconditions ::
  "sandbox \<Rightarrow> string \<Rightarrow> (string \<Rightarrow> json option) \<Rightarrow> file_precondition list \<Rightarrow> unit result" where
  "assertExecutionPreconditions sb operation arguments preconditions =
     bindR (optional_path sb (arguments ''path'')) (\<lambda>path.
     bindR (optional_path sb (arguments ''sourcePath'')) (\<lambda>sourcePath.
     bindR (optional_path sb (arguments ''destinationPath'')) (\<lambda>destinationPath.
     if preconditions_fit operation path sourcePath destinationPath preconditions then ok () else throw precondition_failed)))"

subsection \<open>Executing a change\<close>

definition mutationError :: "error \<Rightarrow> bool \<Rightarrow> error" where
  "mutationError e committed = (case e of
     MutationError _ _ \<Rightarrow> e
   | _ \<Rightarrow> MutationError (case errorCode e of Some code \<Rightarrow> code
       | None \<Rightarrow> if length (error_name e) > 0 then error_name e else ''FilesystemMutationFailed'') committed)"

text \<open>\<open>Buffer.from(content, "utf8")\<close>\<close>

definition utf8_encode :: "string \<Rightarrow> string" where
  "utf8_encode s = concat (map (\<lambda>c. let n = (of_char c :: nat) in
     if n < 128 then [c] else [char_of (192 + n div 64), char_of (128 + n mod 64)]) s)"

definition content_of :: "(string \<Rightarrow> json option) \<Rightarrow> string result" where
  "content_of arguments = (case arguments ''content'' of Some (JStr s) \<Rightarrow> ok s | _ \<Rightarrow> throw TypeError)"

definition assertInlineContent :: "sandbox \<Rightarrow> string \<Rightarrow> unit result" where
  "assertInlineContent sb content =
     (if utf8_length content > sb_limit sb MaxInlineContentBytes \<or> utf8_length content > sb_limit sb MaxFileBytes
      then throw file_too_large else ok ())"

definition openDirectory :: "sandbox \<Rightarrow> string list \<Rightarrow> (fs_world, fs_node) command" where
  "openDirectory sb p = syscall sb (inspecting (\<lambda>fs. case entry_at fs False p of
     Inl code \<Rightarrow> Inl code | Inr (q, DirNode i) \<Rightarrow> Inr (DirNode i) | Inr _ \<Rightarrow> Inl ''ENOTDIR''))"

definition fsyncParent :: "sandbox \<Rightarrow> string \<Rightarrow> (fs_world, unit) command" where
  "fsyncParent sb path =
     bindM (inspect sb (parentPath path)) (\<lambda>(absolute, st).
     bindM (openDirectory sb absolute) (\<lambda>h.
     finallyM (fsyncSync sb h) (closeSync sb h)))"

text \<open>The outcome of a command as a value.\<close>

definition tryM :: "(fs_world, 'a) command \<Rightarrow> (fs_world, 'a result) command" where
  "tryM m = (\<lambda>w. case m w of (r, w') \<Rightarrow> (ok r, w'))"

definition best_effort :: "(fs_world, unit) command \<Rightarrow> (fs_world, unit) command" where
  "best_effort m = (\<lambda>w. (ok (), snd (m w)))"

definition staging_stem :: string where
  "staging_stem = ''.ai-office-txn-''"

text \<open>At most \<open>k\<close> attempts at a new name; the last name tried is cleaned up in any case.\<close>

fun open_staged :: "sandbox \<Rightarrow> string list \<Rightarrow> nat \<Rightarrow> (fs_world, string list \<times> fs_node result) command" where
  "open_staged sb parent 0 = throwM source_changed"
| "open_staged sb parent (Suc k) = (\<lambda>w.
     bindM (liftR (resolveContainedPath parent (staging_stem @ sb_uuid sb (fw_calls w)))) (\<lambda>temp.
     bindM (tryM (openExclusive sb temp 384)) (\<lambda>opened. case opened of
       Inr h \<Rightarrow> returnM (temp, Inr h)
     | Inl e \<Rightarrow> if errorCode e \<noteq> Some ''EEXIST'' \<or> k = 0 then returnM (temp, Inl e) else open_staged sb parent k)) w)"

function write_all :: "sandbox \<Rightarrow> fs_node \<Rightarrow> string \<Rightarrow> (fs_world, unit) command" where
  "write_all sb h bytes =
     (if bytes = [] then returnM ()
      else bindM (abort_check sb) (\<lambda>_.
        bindM (writeSync sb h bytes) (\<lambda>written.
        if written = 0 then throwM no_write_progress else write_all sb h (drop written bytes))))"
  by pat_completeness auto

termination
  by (relation "measure (\<lambda>(sb, h, bytes). length bytes)") auto

definition fill_staged :: "sandbox \<Rightarrow> fs_node \<Rightarrow> string \<Rightarrow> nat \<Rightarrow> (fs_world, unit) command" where
  "fill_staged sb h bytes mode =
     bindM (write_all sb h bytes) (\<lambda>_.
     bindM (fchmodSync sb h (mode mod 512)) (\<lambda>_.
     bindM (fsyncSync sb h) (\<lambda>_. closeSync sb h)))"

definition abandon :: "sandbox \<Rightarrow> string list \<Rightarrow> error \<Rightarrow> bool \<Rightarrow> (fs_world, 'a) command" where
  "abandon sb temp e committed = bindM (best_effort (unlinkSync sb temp)) (\<lambda>_. throwM (mutationError e committed))"

text \<open>Up to \<open>commit\<close> nothing has happened to the target; what fails in \<open>conclude\<close> fails after the change.\<close>

definition run_staged ::
  "sandbox \<Rightarrow> string \<Rightarrow> nat \<Rightarrow> (fs_world, unit) command \<Rightarrow> (fs_world, 'a) command \<Rightarrow> string list \<Rightarrow> fs_node
     \<Rightarrow> (fs_world, 'a) command" where
  "run_staged sb bytes mode commit conclude temp h =
     bindM (tryM (fill_staged sb h bytes mode)) (\<lambda>filled. case filled of
       Inl e \<Rightarrow> bindM (closeSync sb h) (\<lambda>_. abandon sb temp e False)
     | Inr _ \<Rightarrow> bindM (tryM commit) (\<lambda>committed. case committed of
         Inl e \<Rightarrow> abandon sb temp e False
       | Inr _ \<Rightarrow> bindM (tryM conclude) (\<lambda>finished. case finished of
           Inl e \<Rightarrow> abandon sb temp e True
         | Inr r \<Rightarrow> bindM (best_effort (unlinkSync sb temp)) (\<lambda>_. returnM r))))"

definition withStagedFile ::
  "sandbox \<Rightarrow> string \<Rightarrow> string \<Rightarrow> nat \<Rightarrow> (string list \<Rightarrow> string list \<Rightarrow> (fs_world, unit) command)
     \<Rightarrow> (string list \<Rightarrow> (fs_world, 'a) command) \<Rightarrow> (fs_world, 'a) command" where
  "withStagedFile sb path bytes mode commit conclude =
     bindM (validateParent sb path) (\<lambda>_.
     bindM (inspect sb (parentPath path)) (\<lambda>(parent, st).
     bindM (guardM (st_kind st = KindDirectory) not_directory) (\<lambda>_.
     bindM (liftR (resolveContainedPath (sb_root sb) path)) (\<lambda>target.
     bindM (catchM (open_staged sb parent 3) (\<lambda>e. throwM (mutationError e False))) (\<lambda>(temp, opened).
     case opened of
       Inl e \<Rightarrow> abandon sb temp e False
     | Inr h \<Rightarrow> run_staged sb bytes mode (commit temp target) (conclude temp) temp h)))))"

definition change_result :: "string option \<Rightarrow> string \<Rightarrow> string option \<Rightarrow> rat option \<Rightarrow> mutation_result" where
  "change_result hash path destination n = \<lparr>mr_resultHash = hash, mr_relativePath = Some path, mr_destinationPath = destination,
     mr_byteLength = n\<rparr>"

definition written_result :: "sandbox \<Rightarrow> string \<Rightarrow> string \<Rightarrow> mutation_result" where
  "written_result sb path bytes = change_result (Some (sb_sha256 sb bytes)) path None (Some (of_nat (length bytes)))"

definition executeCreate ::
  "sandbox \<Rightarrow> (string \<Rightarrow> json option) \<Rightarrow> file_precondition list \<Rightarrow> (fs_world, mutation_result) command" where
  "executeCreate sb arguments preconditions =
     bindM (liftR (assertEffectivePath sb (arguments ''path'') False)) (\<lambda>path.
     bindM (liftR (content_of arguments)) (\<lambda>content.
     bindM (liftR (assertInsideAllowed sb path)) (\<lambda>_.
     bindM (liftR (assertInlineContent sb content)) (\<lambda>_.
     let bytes = utf8_encode content in
     withStagedFile sb path bytes 384
       (\<lambda>temp target. bindM (verifyPreconditions sb preconditions) (\<lambda>_. linkSync sb temp target))
       (\<lambda>temp. bindM (unlinkSync sb temp) (\<lambda>_. bindM (fsyncParent sb path) (\<lambda>_. returnM (written_result sb path bytes))))))))"

text \<open>The rest of a write, once the state of the target is known.\<close>

definition replaceFile ::
  "sandbox \<Rightarrow> string \<Rightarrow> string \<Rightarrow> file_precondition list \<Rightarrow> stats \<Rightarrow> (fs_world, mutation_result) command" where
  "replaceFile sb path bytes preconditions source =
     bindM (guardM (st_kind source = KindFile) not_regular_file) (\<lambda>_.
     bindM (guardM (st_nlink source \<le> 1) hard_link_denied) (\<lambda>_.
     withStagedFile sb path bytes (st_mode source mod 512)
       (\<lambda>temp target. bindM (verifyPreconditions sb preconditions) (\<lambda>_. renameSync sb temp target))
       (\<lambda>temp. bindM (fsyncParent sb path) (\<lambda>_. returnM (written_result sb path bytes)))))"

definition executeWrite ::
  "sandbox \<Rightarrow> (string \<Rightarrow> json option) \<Rightarrow> file_precondition list \<Rightarrow> (fs_world, mutation_result) command" where
  "executeWrite sb arguments preconditions =
     bindM (liftR (assertEffectivePath sb (arguments ''path'') False)) (\<lambda>path.
     bindM (liftR (content_of arguments)) (\<lambda>content.
     bindM (liftR (assertInsideAllowed sb path)) (\<lambda>_.
     bindM (liftR (assertInlineContent sb content)) (\<lambda>_.
     bindM (verifyPreconditions sb preconditions) (\<lambda>_.
     bindM (inspect sb path) (\<lambda>(absolute, source).
     replaceFile sb path (utf8_encode content) preconditions source))))))"

text \<open>What the first precondition says of the source is what the result reports.\<close>

fun source_hash :: "file_precondition list \<Rightarrow> string option" where
  "source_hash (PresentFile _ sha256 _ # _) = Some sha256"
| "source_hash _ = None"

fun source_size :: "file_precondition list \<Rightarrow> rat option" where
  "source_size (PresentFile _ _ n # _) = Some (num_value n)"
| "source_size _ = None"

text \<open>A change in place: \<open>commit\<close> returns the command that finishes it.\<close>

definition committing ::
  "(fs_world, unit) command \<Rightarrow> (fs_world, 'a) command \<Rightarrow> (fs_world, 'a) command" where
  "committing commit conclude =
     bindM (catchM commit (\<lambda>e. throwM (mutationError e False))) (\<lambda>_. catchM conclude (\<lambda>e. throwM (mutationError e True)))"

definition executeMove ::
  "sandbox \<Rightarrow> (string \<Rightarrow> json option) \<Rightarrow> file_precondition list \<Rightarrow> (fs_world, mutation_result) command" where
  "executeMove sb arguments preconditions =
     bindM (liftR (assertEffectivePath sb (arguments ''sourcePath'') False)) (\<lambda>sourcePath.
     bindM (liftR (assertEffectivePath sb (arguments ''destinationPath'') False)) (\<lambda>destinationPath.
     bindM (liftR (assertInsideAllowed sb sourcePath)) (\<lambda>_.
     bindM (liftR (assertInsideAllowed sb destinationPath)) (\<lambda>_.
     committing
       (bindM (verifyPreconditions sb preconditions) (\<lambda>_.
        bindM (inspect sb sourcePath) (\<lambda>(absolute, source).
        bindM (inspect sb (parentPath destinationPath)) (\<lambda>(parent, parent_stats).
        bindM (guardM (st_kind source = KindFile) not_regular_file) (\<lambda>_.
        bindM (guardM (st_nlink source \<le> 1) hard_link_denied) (\<lambda>_.
        bindM (guardM (st_kind parent_stats = KindDirectory) not_directory) (\<lambda>_.
        bindM (liftR (resolveContainedPath (sb_root sb) destinationPath)) (\<lambda>destination.
        renameSync sb absolute destination))))))))
       (bindM (fsyncParent sb sourcePath) (\<lambda>_.
        bindM (if parentPath sourcePath \<noteq> parentPath destinationPath then fsyncParent sb destinationPath else returnM ()) (\<lambda>_.
        returnM (change_result (source_hash preconditions) sourcePath (Some destinationPath) (source_size preconditions)))))))))"

definition executeDelete ::
  "sandbox \<Rightarrow> (string \<Rightarrow> json option) \<Rightarrow> file_precondition list \<Rightarrow> (fs_world, mutation_result) command" where
  "executeDelete sb arguments preconditions =
     bindM (liftR (assertEffectivePath sb (arguments ''path'') False)) (\<lambda>path.
     bindM (liftR (assertInsideAllowed sb path)) (\<lambda>_.
     committing
       (bindM (verifyPreconditions sb preconditions) (\<lambda>_.
        bindM (inspect sb path) (\<lambda>(absolute, source).
        bindM (guardM (st_kind source = KindFile) not_regular_file) (\<lambda>_.
        bindM (guardM (st_nlink source \<le> 1) hard_link_denied) (\<lambda>_.
        unlinkSync sb absolute)))))
       (bindM (fsyncParent sb path) (\<lambda>_.
        returnM (change_result (source_hash preconditions) path None (source_size preconditions))))))"

definition execute_operation ::
  "sandbox \<Rightarrow> string \<Rightarrow> (string \<Rightarrow> json option) \<Rightarrow> file_precondition list \<Rightarrow> (fs_world, mutation_result) command" where
  "execute_operation sb operation arguments preconditions =
     (if operation = ''filesystem.create'' then executeCreate sb arguments preconditions
      else if operation = ''filesystem.write'' then executeWrite sb arguments preconditions
      else if operation = ''filesystem.move'' then executeMove sb arguments preconditions
      else if operation = ''filesystem.delete'' then executeDelete sb arguments preconditions
      else throwM (unsupported_operation operation))"

definition executeMutation ::
  "sandbox \<Rightarrow> string \<Rightarrow> (string \<Rightarrow> json option) \<Rightarrow> file_precondition list \<Rightarrow> (fs_world, mutation_result) command" where
  "executeMutation sb operation arguments preconditions =
     catchM
       (bindM (abort_check sb) (\<lambda>_.
        bindM (liftR (assertMutationPermitted sb)) (\<lambda>_.
        bindM (liftR (assertExecutionPreconditions sb operation arguments preconditions)) (\<lambda>_.
        bindM (verifyPreconditions sb preconditions) (\<lambda>_.
        execute_operation sb operation arguments preconditions)))))
       (\<lambda>e. throwM (mutationError e False))"

subsection \<open>Reading, listing and searching\<close>

definition json_bytes :: "sandbox \<Rightarrow> json \<Rightarrow> nat result" where
  "json_bytes sb v = bindR (canonicalStringify (sb_num_str sb) (embed v)) (\<lambda>s. ok (utf8_length s))"

definition num_json :: "nat \<Rightarrow> json" where
  "num_json n = JNum (of_nat n)"

definition output_check :: "sandbox \<Rightarrow> json \<Rightarrow> unit result" where
  "output_check sb output = bindR (json_bytes sb output) (\<lambda>n.
     if n > sb_limit sb MaxOutputBytes then throw output_too_large else ok ())"

definition read_report :: "string \<Rightarrow> rat option \<Rightarrow> rat option \<Rightarrow> string option \<Rightarrow> bool option \<Rightarrow> read_audit" where
  "read_report path byteLength resultCount sha256 truncated = \<lparr>ra_relativePath = Some path, ra_byteLength = byteLength,
     ra_resultCount = resultCount, ra_contentSha256 = sha256, ra_truncated = truncated\<rparr>"

definition read_output :: "string \<Rightarrow> text_file \<Rightarrow> json" where
  "read_output path file = JObj [(''path'', JStr path), (''content'', JStr (tf_content file)),
     (''byteLength'', num_json (length (tf_bytes file))), (''sha256'', JStr (tf_sha256 file)),
     (''finalNewline'', JBool (endsWith (tf_content file) newline))]"

definition read_file :: "sandbox \<Rightarrow> (string \<Rightarrow> json option) \<Rightarrow> (fs_world, invocation_result) command" where
  "read_file sb arguments =
     bindM (liftR (assertEffectivePath sb (arguments ''path'') False)) (\<lambda>path.
     bindM (liftR (assertInsideAllowed sb path)) (\<lambda>_.
     bindM (readTextFile sb path) (\<lambda>file.
     bindM (liftR (output_check sb (read_output path file))) (\<lambda>_.
     returnM (ReadResult (read_output path file)
       (read_report path (Some (of_nat (length (tf_bytes file)))) None (Some (tf_sha256 file)) None))))))"

definition hidden_error :: "error \<Rightarrow> bool" where
  "hidden_error e \<longleftrightarrow> e \<in> {entry_not_found, symlink_denied, sensitive_path}"

definition inspectDiscovered :: "sandbox \<Rightarrow> string \<Rightarrow> (fs_world, (string list \<times> stats) option) command" where
  "inspectDiscovered sb path = catchM (bindM (inspect sb path) (\<lambda>x. returnM (Some x)))
     (\<lambda>e. if hidden_error e then returnM None else throwM e)"

definition revalidateDirectory :: "sandbox \<Rightarrow> string \<Rightarrow> stats \<Rightarrow> (fs_world, unit) command" where
  "revalidateDirectory sb path expected = bindM (inspect sb path) (\<lambda>(absolute, current).
     guardM (st_kind current = KindDirectory \<and> st_ino current = st_ino expected) source_changed)"

definition checked_directory :: "sandbox \<Rightarrow> string \<Rightarrow> (fs_world, string list \<times> stats) command" where
  "checked_directory sb path =
     bindM (inspect sb path) (\<lambda>(absolute, st).
     bindM (guardM (st_kind st = KindDirectory) not_directory) (\<lambda>_.
     bindM (liftR (assertAccessibleByType sb path st)) (\<lambda>_.
     returnM (absolute, st))))"

text \<open>
  The names of a directory in order, none if there are more than may still be visited, with the entries
  visited so far. \<open>directories\<close> is how many directories may still be read. The entries are taken in one call.
\<close>

definition readBoundedDirectory ::
  "sandbox \<Rightarrow> string \<Rightarrow> nat \<Rightarrow> nat \<Rightarrow> (fs_world, string list \<times> bool \<times> nat) command" where
  "readBoundedDirectory sb path directories visitedEntries =
     bindM (abort_check sb) (\<lambda>_.
     if directories = 0 \<or> visitedEntries \<ge> sb_limit sb MaxVisitedEntries then returnM ([], True, visitedEntries)
     else
       bindM (checked_directory sb path) (\<lambda>_.
       bindM (abort_check sb) (\<lambda>_.
       bindM (checked_directory sb path) (\<lambda>(absolute, st).
       bindM (catchM (readDirectory sb absolute) (\<lambda>_. throwM source_changed)) (\<lambda>names.
       bindM (closeSync sb (DirNode (st_ino st))) (\<lambda>_.
       bindM (abort_check sb) (\<lambda>_.
       bindM (revalidateDirectory sb path st) (\<lambda>_.
       let total = visitedEntries + length names; limit = sb_limit sb MaxVisitedEntries in
       returnM (if total \<ge> limit then ([], True, limit) else (sort names, False, total))))))))))"

record list_state =
  ls_entries :: "json list"
  ls_pending :: "(string \<times> nat) list"
  ls_visitedFiles :: nat
  ls_truncated :: bool

definition child_path :: "string \<Rightarrow> string \<Rightarrow> string" where
  "child_path current name = (if current = '''' then name else current @ ''/'' @ name)"

definition list_output :: "string \<Rightarrow> json list \<Rightarrow> bool \<Rightarrow> json" where
  "list_output start entries truncated = JObj [(''path'', JStr start), (''entries'', JArr entries), (''truncated'', JBool truncated)]"

definition list_entry :: "string \<Rightarrow> stats \<Rightarrow> json" where
  "list_entry path st = JObj ([(''path'', JStr path), (''kind'', JStr (if st_kind st = KindDirectory then ''directory'' else ''file''))]
     @ (if st_kind st = KindFile then [(''byteLength'', num_json (st_size st))] else []))"

text \<open>An entry the listing passes over, given what was found at its path.\<close>

definition skipped_entry :: "sandbox \<Rightarrow> string \<Rightarrow> stats \<Rightarrow> bool" where
  "skipped_entry sb path st \<longleftrightarrow> classifyPath sb path = PathDenied
     \<or> (st_kind st = KindFile \<and> (classifyPath sb path \<noteq> InsideAllowed \<or> st_nlink st > 1))
     \<or> (st_kind st \<noteq> KindFile \<and> st_kind st \<noteq> KindDirectory)"

text \<open>What the listing does with an entry it does not pass over: the new state, and whether it goes on.\<close>

definition list_visit ::
  "sandbox \<Rightarrow> string \<Rightarrow> bool \<Rightarrow> nat \<Rightarrow> string \<Rightarrow> stats \<Rightarrow> list_state \<Rightarrow> (list_state \<times> bool) result" where
  "list_visit sb start recursive depth path st s =
     (let counted = s\<lparr>ls_visitedFiles := ls_visitedFiles s + (if st_kind st = KindFile then 1 else 0)\<rparr>;
          stopped = (\<lambda>s. ok (s\<lparr>ls_truncated := True\<rparr>, False)) in
      if st_kind st = KindFile \<and> ls_visitedFiles s \<ge> sb_limit sb MaxVisitedFiles then stopped s
      else if st_kind st = KindFile \<and> \<not> extensionPermitted sb path then ok (counted, True)
      else if depth > sb_limit sb MaxDepth then ok (counted\<lparr>ls_truncated := True\<rparr>, True)
      else if length (ls_entries s) \<ge> sb_limit sb MaxResults then stopped counted
      else
        let entries = ls_entries s @ [list_entry path st] in
        bindR (json_bytes sb (list_output start entries (ls_truncated s))) (\<lambda>n.
        if n > sb_limit sb MaxOutputBytes then stopped counted
        else ok (counted\<lparr>ls_entries := entries,
          ls_pending := ls_pending s @ (if recursive \<and> st_kind st = KindDirectory then [(path, depth)] else [])\<rparr>, True)))"

fun list_names ::
  "sandbox \<Rightarrow> string \<Rightarrow> bool \<Rightarrow> string \<Rightarrow> nat \<Rightarrow> string list \<Rightarrow> list_state \<Rightarrow> (fs_world, list_state) command" where
  "list_names sb start recursive current depth [] s = returnM s"
| "list_names sb start recursive current depth (name # names) s =
     bindM (abort_check sb) (\<lambda>_.
     let path = child_path current name in
     if \<not> isPortableDiscoveredPath sb path then list_names sb start recursive current depth names s
     else bindM (inspectDiscovered sb path) (\<lambda>found. case found of
         None \<Rightarrow> list_names sb start recursive current depth names s
       | Some (absolute, st) \<Rightarrow>
           if skipped_entry sb path st then list_names sb start recursive current depth names s
           else bindM (liftR (list_visit sb start recursive (depth + 1) path st s)) (\<lambda>(s', more).
             if more then list_names sb start recursive current depth names s' else returnM s')))"

text \<open>The loop over the pending directories; \<open>directories\<close> falls with each one read, and at zero it stops.\<close>

fun list_loop :: "sandbox \<Rightarrow> string \<Rightarrow> bool \<Rightarrow> nat \<Rightarrow> nat \<Rightarrow> list_state \<Rightarrow> (fs_world, list_state) command" where
  "list_loop sb start recursive directories visitedEntries s = (case ls_pending s of
     [] \<Rightarrow> returnM s
   | (current, depth) # rest \<Rightarrow>
       bindM (abort_check sb) (\<lambda>_.
       bindM (readBoundedDirectory sb current directories visitedEntries) (\<lambda>(names, truncated, visited).
       bindM (list_names sb start recursive current depth names
         (s\<lparr>ls_pending := rest, ls_truncated := ls_truncated s \<or> truncated\<rparr>)) (\<lambda>s'.
       if ls_truncated s' \<or> \<not> recursive then returnM s'
       else (case directories of 0 \<Rightarrow> returnM s' | Suc n \<Rightarrow> list_loop sb start recursive n visited s')))))"

definition list_directory :: "sandbox \<Rightarrow> (string \<Rightarrow> json option) \<Rightarrow> (fs_world, invocation_result) command" where
  "list_directory sb arguments =
     bindM (liftR (assertEffectivePath sb (arguments ''path'') True)) (\<lambda>start.
     bindM (abort_check sb) (\<lambda>_.
     bindM (inspect sb start) (\<lambda>(absolute, st).
     bindM (liftR (assertAccessibleByType sb start st)) (\<lambda>_.
     bindM (guardM (st_kind st = KindDirectory) not_directory) (\<lambda>_.
     bindM (list_loop sb start (arguments ''recursive'' = Some (JBool True)) (sb_limit sb MaxVisitedDirectories) 0
       \<lparr>ls_entries = [], ls_pending = [(start, 0)], ls_visitedFiles = 0, ls_truncated = False\<rparr>) (\<lambda>s.
     let output = list_output start (ls_entries s) (ls_truncated s) in
     bindM (liftR (output_check sb output)) (\<lambda>_.
     returnM (ReadResult output
       (read_report start None (Some (of_nat (length (ls_entries s)))) None (Some (ls_truncated s)))))))))))"

text \<open>
  \<open>safeSnippet\<close>: control characters become spaces, then what follows a word for a secret and a \<open>:\<close> or \<open>=\<close> is
  replaced, \<open>/\b(password|secret|token|api[_-]?key)\s*[:=]\s*[^\s,;]+/giu\<close>, and a window is cut out.
\<close>

definition word_char :: "char \<Rightarrow> bool" where
  "word_char c \<longleftrightarrow> is_lower_alnum (to_lower c) \<or> c = CHR ''_''"

definition secret_words :: "string list" where
  "secret_words = [''password'', ''secret'', ''token'', ''api_key'', ''api-key'', ''apikey'']"

definition value_char :: "char \<Rightarrow> bool" where
  "value_char c \<longleftrightarrow> \<not> is_js_space c \<and> c \<noteq> CHR '','' \<and> c \<noteq> CHR '';''"

text \<open>A secret at the start of a text: the word and the rest after its value.\<close>

definition secret_at :: "string \<Rightarrow> (string \<times> string) option" where
  "secret_at s = (case find (\<lambda>word. startsWith (js_lower s) word) secret_words of
     None \<Rightarrow> None
   | Some word \<Rightarrow> (case dropWhile is_js_space (drop (length word) s) of
       [] \<Rightarrow> None
     | c # cs \<Rightarrow>
         let v = dropWhile is_js_space cs in
         if c \<in> {CHR '':'', CHR ''=''} \<and> v \<noteq> [] \<and> value_char (hd v)
         then Some (take (length word) s, dropWhile value_char v) else None))"

lemma secret_at_shorter: "secret_at s = Some (w, rest) \<Longrightarrow> length rest < length s"
proof -
  assume "secret_at s = Some (w, rest)"
  then obtain word where word: "find (\<lambda>word. startsWith (js_lower s) word) secret_words = Some word"
    by (auto simp: secret_at_def split: option.splits)
  then obtain c cs where c: "dropWhile is_js_space (drop (length word) s) = c # cs"
    using \<open>secret_at s = Some (w, rest)\<close> by (cases "dropWhile is_js_space (drop (length word) s)") (simp_all add: secret_at_def)
  then have rest: "rest = dropWhile value_char (dropWhile is_js_space cs)"
    using word \<open>secret_at s = Some (w, rest)\<close> by (simp add: secret_at_def Let_def split: if_splits)
  have "length (c # cs) \<le> length (drop (length word) s)" by (metis c length_dropWhile_le)
  then have "length cs < length s" by simp
  then show ?thesis using rest length_dropWhile_le [of value_char] length_dropWhile_le [of is_js_space cs] by (metis le_less_trans)
qed

function redact :: "bool \<Rightarrow> string \<Rightarrow> string" where
  "redact after_word [] = []"
| "redact after_word (c # cs) = (case (if after_word then None else secret_at (c # cs)) of
     Some (w, rest) \<Rightarrow> w @ ''=[REDACTED]'' @ redact True rest
   | None \<Rightarrow> c # redact (word_char c) cs)"
  by pat_completeness auto

termination
  by (relation "measure (length \<circ> snd)") (auto dest: secret_at_shorter split: if_splits)

definition safeSnippet :: "string \<Rightarrow> nat \<Rightarrow> string" where
  "safeSnippet line column =
     (let normalized = redact False (map (\<lambda>c. if unsafe_control c then CHR '' '' else c) line) in
      take 160 (drop (column - 60) normalized))"

text \<open>\<open>haystack.indexOf(needle, from)\<close>\<close>

fun index_in :: "string \<Rightarrow> string \<Rightarrow> nat option" where
  "index_in needle s = (if startsWith s needle then Some 0
     else case s of [] \<Rightarrow> None | c # cs \<Rightarrow> map_option Suc (index_in needle cs))"

record search_state =
  se_matches :: "json list"
  se_truncated :: bool

definition search_output :: "string \<Rightarrow> json list \<Rightarrow> bool \<Rightarrow> nat \<Rightarrow> json" where
  "search_output start hits truncated visited = JObj [(''path'', JStr start), (''matches'', JArr hits),
     (''truncated'', JBool truncated), (''visitedFiles'', num_json visited)]"

text \<open>The loop over the places of a line; \<open>from\<close> is where the search goes on.\<close>

function search_line ::
  "sandbox \<Rightarrow> string \<Rightarrow> nat \<Rightarrow> string \<Rightarrow> string \<Rightarrow> string \<Rightarrow> nat \<Rightarrow> string \<Rightarrow> nat \<Rightarrow> search_state \<Rightarrow> search_state result" where
  "search_line sb start visited path needle haystack line_number line offset s =
     (if offset > length haystack then ok s
      else case index_in needle (drop offset haystack) of
        None \<Rightarrow> ok s
      | Some d \<Rightarrow>
          let column = offset + d in
          if length (se_matches s) \<ge> sb_limit sb MaxResults then ok (s\<lparr>se_truncated := True\<rparr>)
          else
            let m = JObj [(''path'', JStr path), (''line'', num_json line_number), (''column'', num_json (column + 1)),
                  (''excerpt'', JStr (safeSnippet line column))];
                hits = se_matches s @ [m] in
            bindR (json_bytes sb (search_output start hits (se_truncated s) visited)) (\<lambda>n.
            if n > sb_limit sb MaxOutputBytes then ok (s\<lparr>se_truncated := True\<rparr>)
            else search_line sb start visited path needle haystack line_number line (column + max 1 (length needle))
              (s\<lparr>se_matches := hits\<rparr>)))"
  by pat_completeness auto

termination
  by (relation "measure (\<lambda>(sb, start, visited, path, needle, haystack, line_number, line, offset, s). Suc (length haystack) - offset)")
    auto

fun search_lines ::
  "sandbox \<Rightarrow> string \<Rightarrow> nat \<Rightarrow> string \<Rightarrow> (string \<Rightarrow> string) \<Rightarrow> string \<Rightarrow> nat \<Rightarrow> string list \<Rightarrow> search_state \<Rightarrow> search_state result" where
  "search_lines sb start visited path fold_case needle line_number [] s = ok s"
| "search_lines sb start visited path fold_case needle line_number (line # rest) s =
     bindR (search_line sb start visited path needle (fold_case line) line_number line 0 s) (\<lambda>s'.
     if se_truncated s' then ok s'
     else search_lines sb start visited path fold_case needle (line_number + 1) rest s')"

fun search_files ::
  "sandbox \<Rightarrow> string \<Rightarrow> nat \<Rightarrow> (string \<Rightarrow> string) \<Rightarrow> string \<Rightarrow> string list \<Rightarrow> search_state \<Rightarrow> (fs_world, search_state) command" where
  "search_files sb start visited fold_case needle [] s = returnM s"
| "search_files sb start visited fold_case needle (path # paths) s =
     bindM (abort_check sb) (\<lambda>_.
     bindM (liftR (assertInsideAllowed sb path)) (\<lambda>_.
     bindM (readTextFile sb path) (\<lambda>file.
     bindM (liftR (search_lines sb start visited path fold_case needle 1 (js_split (CHR 0x0A) (crlf_to_lf (tf_content file))) s)) (\<lambda>s'.
     if se_truncated s' then returnM s' else search_files sb start visited fold_case needle paths s'))))"

record find_state =
  fd_files :: "string list"
  fd_pending :: "(string \<times> nat) list"
  fd_visitedFiles :: nat
  fd_truncated :: bool

text \<open>The new state and whether the loop over the names goes on.\<close>

definition search_visit :: "sandbox \<Rightarrow> nat \<Rightarrow> string \<Rightarrow> stats \<Rightarrow> find_state \<Rightarrow> (find_state \<times> bool) result" where
  "search_visit sb depth path st s =
     (if st_kind st = KindDirectory
      then ok (if classifyPath sb path = PathDenied then s
        else if depth < sb_limit sb MaxDepth then s\<lparr>fd_pending := fd_pending s @ [(path, depth)]\<rparr> else s\<lparr>fd_truncated := True\<rparr>, True)
      else if st_kind st = KindFile
      then if classifyPath sb path \<noteq> InsideAllowed then ok (s, True)
        else if st_nlink st > 1 then throw hard_link_denied
        else if fd_visitedFiles s \<ge> sb_limit sb MaxVisitedFiles then ok (s\<lparr>fd_truncated := True\<rparr>, False)
        else ok (s\<lparr>fd_visitedFiles := fd_visitedFiles s + 1,
          fd_files := fd_files s @ (if extensionPermitted sb path then [path] else [])\<rparr>, True)
      else ok (s, True))"

fun search_names :: "sandbox \<Rightarrow> string \<Rightarrow> nat \<Rightarrow> string list \<Rightarrow> find_state \<Rightarrow> (fs_world, find_state) command" where
  "search_names sb current depth [] s = returnM s"
| "search_names sb current depth (name # names) s =
     bindM (abort_check sb) (\<lambda>_.
     let path = child_path current name in
     if \<not> isPortableDiscoveredPath sb path then search_names sb current depth names s
     else bindM (inspectDiscovered sb path) (\<lambda>found. case found of
         None \<Rightarrow> search_names sb current depth names s
       | Some (absolute, st) \<Rightarrow> bindM (liftR (search_visit sb (depth + 1) path st s)) (\<lambda>(s', more).
           if more then search_names sb current depth names s' else returnM s')))"

fun search_loop :: "sandbox \<Rightarrow> nat \<Rightarrow> nat \<Rightarrow> find_state \<Rightarrow> (fs_world, find_state) command" where
  "search_loop sb directories visitedEntries s = (case (fd_truncated s, fd_pending s) of
     (False, (current, depth) # rest) \<Rightarrow>
       bindM (abort_check sb) (\<lambda>_.
       bindM (readBoundedDirectory sb current directories visitedEntries) (\<lambda>(names, truncated, visited).
       bindM (search_names sb current depth names (s\<lparr>fd_pending := rest, fd_truncated := truncated\<rparr>)) (\<lambda>s'.
       case directories of 0 \<Rightarrow> returnM s' | Suc n \<Rightarrow> search_loop sb n visited s')))
   | _ \<Rightarrow> returnM s)"

definition found_start :: "sandbox \<Rightarrow> string \<Rightarrow> stats \<Rightarrow> find_state result" where
  "found_start sb start st =
     (let none = \<lparr>fd_files = [], fd_pending = [], fd_visitedFiles = 0, fd_truncated = False\<rparr> in
      if st_kind st = KindFile
      then ok (if sb_limit sb MaxVisitedFiles = 0 then none\<lparr>fd_truncated := True\<rparr>
        else none\<lparr>fd_visitedFiles := 1, fd_files := [start]\<rparr>)
      else if st_kind st = KindDirectory then ok (none\<lparr>fd_pending := [(start, 0)]\<rparr>)
      else throw not_regular_file)"

definition search_directory :: "sandbox \<Rightarrow> (string \<Rightarrow> json option) \<Rightarrow> (fs_world, invocation_result) command" where
  "search_directory sb arguments =
     bindM (liftR (assertEffectivePath sb (arguments ''path'') True)) (\<lambda>start.
     bindM (abort_check sb) (\<lambda>_.
     bindM (liftR (argument_text (arguments ''query'') ''query'')) (\<lambda>query.
     let fold_case = (if arguments ''caseSensitive'' = Some (JBool True) then id else js_lower) in
     bindM (inspect sb start) (\<lambda>(absolute, st).
     bindM (liftR (assertAccessibleByType sb start st)) (\<lambda>_.
     bindM (liftR (found_start sb start st)) (\<lambda>s0.
     bindM (search_loop sb (sb_limit sb MaxVisitedDirectories) 0 s0) (\<lambda>s1.
     let visited = length (fd_files s1) in
     bindM (search_files sb start visited fold_case (fold_case query) (sort (fd_files s1))
       \<lparr>se_matches = [], se_truncated = fd_truncated s1\<rparr>) (\<lambda>s2.
     let output = search_output start (se_matches s2) (se_truncated s2) visited in
     bindM (liftR (output_check sb output)) (\<lambda>_.
     returnM (ReadResult output
       (read_report start None (Some (of_nat (length (se_matches s2)))) None (Some (se_truncated s2)))))))))))))"

subsection \<open>Simulating a change\<close>

definition absentPrecondition :: "string \<Rightarrow> connector_precondition" where
  "absentPrecondition path = \<lparr>kp_absent = True, kp_path = path, kp_sha256 = None, kp_size = None\<rparr>"

definition filePreconditionFromMetadata :: "string \<Rightarrow> string \<Rightarrow> nat \<Rightarrow> connector_precondition" where
  "filePreconditionFromMetadata path sha256 n =
     \<lparr>kp_absent = False, kp_path = path, kp_sha256 = Some sha256, kp_size = Some (Num (of_nat n))\<rparr>"

definition simulation :: "sandbox \<Rightarrow> string \<Rightarrow> connector_precondition list \<Rightarrow> (fs_world, invocation_result) command" where
  "simulation sb diff preconditions =
     (if utf8_length diff > sb_limit sb MaxDiffBytes then throwM output_too_large else returnM (SimulationResult diff preconditions))"

definition diff_of :: "sandbox \<Rightarrow> string option \<Rightarrow> string option \<Rightarrow> string \<Rightarrow> string \<Rightarrow> (fs_world, string) command" where
  "diff_of sb oldPath newPath oldContent newContent =
     liftR (createUnifiedDiff (sb_aborted sb) oldPath newPath oldContent newContent (sb_limit sb MaxDiffBytes))"

definition file_precondition_from :: "string \<Rightarrow> text_file \<Rightarrow> connector_precondition" where
  "file_precondition_from path file = filePreconditionFromMetadata path (tf_sha256 file) (length (tf_bytes file))"

definition simulateCreate :: "sandbox \<Rightarrow> (string \<Rightarrow> json option) \<Rightarrow> (fs_world, invocation_result) command" where
  "simulateCreate sb arguments =
     bindM (liftR (assertEffectivePath sb (arguments ''path'') False)) (\<lambda>path.
     bindM (liftR (content_of arguments)) (\<lambda>content.
     bindM (liftR (assertMutationPermitted sb)) (\<lambda>_.
     bindM (liftR (assertInsideAllowed sb path)) (\<lambda>_.
     bindM (liftR (assertInlineContent sb content)) (\<lambda>_.
     bindM (liftR (assertVisible sb path)) (\<lambda>_.
     bindM (requireAbsent sb path) (\<lambda>_.
     bindM (diff_of sb None (Some path) '''' content) (\<lambda>diff.
     simulation sb diff [absentPrecondition path]))))))))"

definition simulateWrite :: "sandbox \<Rightarrow> (string \<Rightarrow> json option) \<Rightarrow> (fs_world, invocation_result) command" where
  "simulateWrite sb arguments =
     bindM (liftR (assertEffectivePath sb (arguments ''path'') False)) (\<lambda>path.
     bindM (liftR (content_of arguments)) (\<lambda>content.
     bindM (liftR (assertMutationPermitted sb)) (\<lambda>_.
     bindM (liftR (assertInsideAllowed sb path)) (\<lambda>_.
     bindM (liftR (assertInlineContent sb content)) (\<lambda>_.
     bindM (readTextFile sb path) (\<lambda>source.
     bindM (validateParent sb path) (\<lambda>_.
     bindM (diff_of sb (Some path) (Some path) (tf_content source) content) (\<lambda>diff.
     simulation sb diff [file_precondition_from path source]))))))))"

definition simulateDelete :: "sandbox \<Rightarrow> (string \<Rightarrow> json option) \<Rightarrow> (fs_world, invocation_result) command" where
  "simulateDelete sb arguments =
     bindM (liftR (assertEffectivePath sb (arguments ''path'') False)) (\<lambda>path.
     bindM (liftR (assertMutationPermitted sb)) (\<lambda>_.
     bindM (liftR (assertInsideAllowed sb path)) (\<lambda>_.
     bindM (readTextFile sb path) (\<lambda>source.
     bindM (diff_of sb (Some path) None (tf_content source) '''') (\<lambda>diff.
     simulation sb diff [file_precondition_from path source])))))"

definition simulateMove :: "sandbox \<Rightarrow> (string \<Rightarrow> json option) \<Rightarrow> (fs_world, invocation_result) command" where
  "simulateMove sb arguments =
     bindM (liftR (assertEffectivePath sb (arguments ''sourcePath'') False)) (\<lambda>sourcePath.
     bindM (liftR (assertEffectivePath sb (arguments ''destinationPath'') False)) (\<lambda>destinationPath.
     bindM (liftR (assertMutationPermitted sb)) (\<lambda>_.
     bindM (liftR (assertInsideAllowed sb sourcePath)) (\<lambda>_.
     bindM (liftR (assertInsideAllowed sb destinationPath)) (\<lambda>_.
     bindM (readTextFile sb sourcePath) (\<lambda>source.
     bindM (liftR (assertVisible sb destinationPath)) (\<lambda>_.
     bindM (requireAbsent sb destinationPath) (\<lambda>_.
     bindM (diff_of sb (Some sourcePath) None (tf_content source) '''') (\<lambda>removed.
     bindM (diff_of sb None (Some destinationPath) '''' (tf_content source)) (\<lambda>added.
     bindM (liftR (combineUnifiedDiffs (sb_aborted sb) [removed, added] (sb_limit sb MaxDiffBytes))) (\<lambda>diff.
     simulation sb diff [file_precondition_from sourcePath source, absentPrecondition destinationPath])))))))))))"

definition sandbox_invoke :: "sandbox \<Rightarrow> string \<Rightarrow> (string \<Rightarrow> json option) \<Rightarrow> (fs_world, invocation_result) command" where
  "sandbox_invoke sb operation arguments =
     (if operation = ''filesystem.list'' then list_directory sb arguments
      else if operation = ''filesystem.read'' then read_file sb arguments
      else if operation = ''filesystem.search'' then search_directory sb arguments
      else if operation = ''filesystem.create'' then simulateCreate sb arguments
      else if operation = ''filesystem.write'' then simulateWrite sb arguments
      else if operation = ''filesystem.move'' then simulateMove sb arguments
      else if operation = ''filesystem.delete'' then simulateDelete sb arguments
      else throwM (unsupported_operation operation))"

end
