(* ===== verification/Sandbox_Logic.thy ===== *)
theory Sandbox_Logic
  imports Filesystem_Sandbox
begin

text \<open>
  Reasoning about the sandbox of \<open>Filesystem_Sandbox\<close>. The locale \<open>looking\<close> collects what holds of every command that
  only looks, for any relation that such calls respect; its interpretation says that such commands leave the file
  system to the other processes. \<open>exec\<close> and \<open>tells\<close> are triples over a file system that nobody else changes: what a command
  does, and what the result of a command that only looks tells. The lemmas follow the code from paths without
  links over inspection and reading to the preconditions of a change.
\<close>

section \<open>Commands that only look\<close>

declare read_chunks.simps [simp del] write_all.simps [simp del] list_loop.simps [simp del] search_loop.simps [simp del]
  search_line.simps [simp del]

named_theorems call_rules

definition calls_in :: "(fs_world \<Rightarrow> fs_world \<Rightarrow> bool) \<Rightarrow> (fs_world, 'a) command \<Rightarrow> bool" where
  "calls_in R m \<longleftrightarrow> (\<forall>w. R w (snd (m w)))"

text \<open>A relation between worlds that every call that only looks respects.\<close>

locale looking =
  fixes sb :: sandbox and R :: "fs_world \<Rightarrow> fs_world \<Rightarrow> bool"
  assumes stay: "R w w"
    and follow: "R u v \<Longrightarrow> R v w \<Longrightarrow> R u w"
    and look: "R w \<lparr>fw_fs = sb_env sb (fw_calls w) (fw_fs w), fw_calls = Suc (fw_calls w)\<rparr>"
begin

lemma calls_return [call_rules]: "calls_in R (returnM x)"
  by (simp add: calls_in_def stay)

lemma calls_throw [call_rules]: "calls_in R (throwM e)"
  by (simp add: calls_in_def stay)

lemma calls_lift [call_rules]: "calls_in R (liftR r)"
  by (simp add: calls_in_def stay)

lemma calls_guard [call_rules]: "calls_in R (guardM b e)"
  by (simp add: calls_in_def stay)

lemma calls_bind [call_rules]: "calls_in R m \<Longrightarrow> (\<And>x. calls_in R (f x)) \<Longrightarrow> calls_in R (bindM m f)"
  unfolding calls_in_def bindM_def by (auto split: prod.splits sum.splits intro: follow) (metis follow snd_conv)+

lemma calls_catch [call_rules]: "calls_in R m \<Longrightarrow> (\<And>e. calls_in R (h e)) \<Longrightarrow> calls_in R (catchM m h)"
  unfolding calls_in_def catchM_def by (auto split: prod.splits sum.splits intro: follow) (metis follow snd_conv)+

lemma calls_finally [call_rules]: "calls_in R m \<Longrightarrow> calls_in R f \<Longrightarrow> calls_in R (finallyM m f)"
  unfolding calls_in_def finallyM_def by (auto split: prod.splits sum.splits intro: follow) (metis follow snd_conv)+

lemma calls_look [call_rules]: "calls_in R (syscall sb (inspecting f))"
  using look by (auto simp: calls_in_def syscall_def inspecting_def Let_def split: option.splits sum.splits)

lemma calls_if [call_rules]: "(b \<Longrightarrow> calls_in R m) \<Longrightarrow> (\<not> b \<Longrightarrow> calls_in R m') \<Longrightarrow> calls_in R (if b then m else m')"
  by simp

lemma calls_pair [call_rules]: "(\<And>a b. x = (a, b) \<Longrightarrow> calls_in R (f a b)) \<Longrightarrow> calls_in R (case x of (a, b) \<Rightarrow> f a b)"
  by (cases x) simp

lemma calls_option [call_rules]:
  "(v = None \<Longrightarrow> calls_in R a) \<Longrightarrow> (\<And>x. v = Some x \<Longrightarrow> calls_in R (b x)) \<Longrightarrow> calls_in R (case v of None \<Rightarrow> a | Some x \<Rightarrow> b x)"
  by (cases v) auto

lemma calls_cases [call_rules]:
  "(xs = [] \<Longrightarrow> calls_in R a) \<Longrightarrow> (\<And>y ys. xs = y # ys \<Longrightarrow> calls_in R (b y ys)) \<Longrightarrow> calls_in R (case xs of [] \<Rightarrow> a | y # ys \<Rightarrow> b y ys)"
  by (cases xs) auto

lemma calls_count [call_rules]:
  "(n = 0 \<Longrightarrow> calls_in R a) \<Longrightarrow> (\<And>k. n = Suc k \<Longrightarrow> calls_in R (b k)) \<Longrightarrow> calls_in R (case n of 0 \<Rightarrow> a | Suc k \<Rightarrow> b k)"
  by (cases n) auto

lemma calls_bool [call_rules]: "calls_in R a \<Longrightarrow> calls_in R b \<Longrightarrow> calls_in R (case v of True \<Rightarrow> a | False \<Rightarrow> b)"
  by (cases v) auto

lemma calls_abort [call_rules]: "calls_in R (abort_check sb)"
  unfolding abort_check_def by (intro call_rules)

lemma calls_lstat [call_rules]: "calls_in R (lstatSync sb p)"
  unfolding lstatSync_def by (intro call_rules)

lemma calls_realpath [call_rules]: "calls_in R (realpathSync sb p)"
  unfolding realpathSync_def by (intro call_rules)

lemma calls_open [call_rules]: "calls_in R (openSync sb p)"
  unfolding openSync_def by (intro call_rules)

lemma calls_fstat [call_rules]: "calls_in R (fstatSync sb h)"
  unfolding fstatSync_def by (intro call_rules)

lemma calls_read [call_rules]: "calls_in R (readSync sb h n k)"
  unfolding readSync_def by (intro call_rules)

lemma calls_readdir [call_rules]: "calls_in R (readDirectory sb p)"
  unfolding readDirectory_def by (intro call_rules)

lemma calls_close [call_rules]: "calls_in R (closeSync sb h)"
  unfolding closeSync_def by (intro call_rules)

lemma calls_root [call_rules]: "calls_in R (assertRoot sb)"
  unfolding assertRoot_def by (intro call_rules)

lemma calls_segments [call_rules]: "calls_in R (inspect_segments sb current st ss)"
proof (induction ss arbitrary: current st)
  case Nil
  show ?case unfolding inspect_segments.simps by (intro call_rules)
next
  case (Cons x ss)
  show ?case unfolding inspect_segments.simps Let_def by (intro call_rules Cons)
qed

lemma calls_inspect [call_rules]: "calls_in R (inspect sb path)"
  unfolding inspect_def by (intro call_rules)

lemma calls_parent [call_rules]: "calls_in R (validateParent sb path)"
  unfolding validateParent_def by (intro call_rules)

lemma calls_contained [call_rules]: "calls_in R (assertOpenedPathStillContained sb path st)"
  unfolding assertOpenedPathStillContained_def by (intro call_rules)

lemma calls_chunks [call_rules]: "calls_in R (read_chunks sb h bytes)"
proof (induction "sb_limit sb MaxFileBytes + 1 - length bytes" arbitrary: bytes rule: less_induct)
  case less
  show ?case
    by (subst read_chunks.simps, unfold Let_def, intro call_rules, rule less) (simp flip: length_greater_0_conv)
qed

lemma calls_opened [call_rules]: "calls_in R (read_opened sb path st h)"
  unfolding read_opened_def by (intro call_rules)

lemma calls_file [call_rules]: "calls_in R (readTextFile sb path)"
  unfolding readTextFile_def by (intro call_rules)

lemma calls_absent [call_rules]: "calls_in R (isAbsent sb path)"
  unfolding isAbsent_def by (intro call_rules)

lemma calls_require [call_rules]: "calls_in R (requireAbsent sb path)"
  unfolding requireAbsent_def by (intro call_rules)

lemma calls_precondition [call_rules]: "calls_in R (verify_precondition sb p)"
  unfolding verify_precondition_def by (cases p; simp; intro call_rules)

lemma calls_preconditions [call_rules]: "calls_in R (verifyPreconditions sb ps)"
proof (induction ps)
  case Nil
  show ?case unfolding verifyPreconditions.simps by (intro call_rules)
next
  case (Cons x ps)
  show ?case unfolding verifyPreconditions.simps Let_def by (intro call_rules Cons)
qed

lemma calls_discovered [call_rules]: "calls_in R (inspectDiscovered sb path)"
  unfolding inspectDiscovered_def by (intro call_rules)

lemma calls_directory [call_rules]: "calls_in R (readBoundedDirectory sb path n k)"
  unfolding readBoundedDirectory_def checked_directory_def revalidateDirectory_def Let_def by (intro call_rules)

lemma calls_list_names [call_rules]: "calls_in R (list_names sb start recursive current depth names s)"
proof (induction names arbitrary: s)
  case Nil
  show ?case unfolding list_names.simps by (intro call_rules)
next
  case (Cons x names)
  show ?case unfolding list_names.simps Let_def by (intro call_rules Cons)
qed

lemma calls_list_loop [call_rules]: "calls_in R (list_loop sb start recursive n visited s)"
proof (induction n arbitrary: visited s)
  case 0
  show ?case by (subst list_loop.simps) (intro call_rules; simp)
next
  case (Suc n)
  show ?case by (subst list_loop.simps) (intro call_rules; use Suc in auto)
qed

lemma calls_list [call_rules]: "calls_in R (list_directory sb arguments)"
  unfolding list_directory_def Let_def by (intro call_rules)

lemma calls_read_file [call_rules]: "calls_in R (read_file sb arguments)"
  unfolding read_file_def by (intro call_rules)

lemma calls_search_names [call_rules]: "calls_in R (search_names sb current depth names s)"
proof (induction names arbitrary: s)
  case Nil
  show ?case unfolding search_names.simps by (intro call_rules)
next
  case (Cons x names)
  show ?case unfolding search_names.simps Let_def by (intro call_rules Cons)
qed

lemma calls_search_loop [call_rules]: "calls_in R (search_loop sb n visited s)"
proof (induction n arbitrary: visited s)
  case 0
  show ?case by (subst search_loop.simps) (intro call_rules; simp)
next
  case (Suc n)
  show ?case by (subst search_loop.simps) (intro call_rules; auto intro: Suc)
qed

lemma calls_search_files [call_rules]: "calls_in R (search_files sb start visited fold_case needle paths s)"
proof (induction paths arbitrary: s)
  case Nil
  show ?case unfolding search_files.simps by (intro call_rules)
next
  case (Cons x paths)
  show ?case unfolding search_files.simps Let_def by (intro call_rules Cons)
qed

lemma calls_search [call_rules]: "calls_in R (search_directory sb arguments)"
  unfolding search_directory_def Let_def by (intro call_rules)

lemma calls_simulation [call_rules]: "calls_in R (simulation sb diff ps)"
  unfolding simulation_def by (intro call_rules)

lemma calls_diff [call_rules]: "calls_in R (diff_of sb a b c d)"
  unfolding diff_of_def by (intro call_rules)

lemma calls_create [call_rules]: "calls_in R (simulateCreate sb arguments)"
  unfolding simulateCreate_def by (intro call_rules)

lemma calls_write [call_rules]: "calls_in R (simulateWrite sb arguments)"
  unfolding simulateWrite_def by (intro call_rules)

lemma calls_delete [call_rules]: "calls_in R (simulateDelete sb arguments)"
  unfolding simulateDelete_def by (intro call_rules)

lemma calls_move [call_rules]: "calls_in R (simulateMove sb arguments)"
  unfolding simulateMove_def by (intro call_rules)

lemma calls_invoke: "calls_in R (sandbox_invoke sb operation arguments)"
  unfolding sandbox_invoke_def by (intro call_rules)

end

text \<open>What the other processes do between two calls.\<close>

definition others :: "sandbox \<Rightarrow> nat \<Rightarrow> nat \<Rightarrow> filesys \<Rightarrow> filesys" where
  "others sb m n fs = foldl (\<lambda>fs k. sb_env sb k fs) fs [m..<n]"

definition only_others :: "sandbox \<Rightarrow> fs_world \<Rightarrow> fs_world \<Rightarrow> bool" where
  "only_others sb w w' \<longleftrightarrow> fw_calls w \<le> fw_calls w' \<and> fw_fs w' = others sb (fw_calls w) (fw_calls w') (fw_fs w)"

lemma others_same [simp]: "others sb n n fs = fs"
  by (simp add: others_def)

lemma others_trans: "m \<le> n \<Longrightarrow> n \<le> k \<Longrightarrow> others sb n k (others sb m n fs) = others sb m k fs"
  unfolding others_def foldl_append [symmetric] by (metis le_add_diff_inverse upt_add_eq_append)

interpretation outside: looking sb "only_others sb" for sb
  by unfold_locales (auto simp: only_others_def others_trans, simp add: others_def)

text \<open>C11. Reading, listing, searching and simulating a change never change the file system: whatever other processes do
  meanwhile and whichever calls fail, it is afterwards what the other processes made of it.\<close>

theorem invoke_changes_nothing:
  "fw_calls w \<le> fw_calls (snd (sandbox_invoke sb operation arguments w)) \<and>
   fw_fs (snd (sandbox_invoke sb operation arguments w))
     = others sb (fw_calls w) (fw_calls (snd (sandbox_invoke sb operation arguments w))) (fw_fs w)"
  using outside.calls_invoke by (simp add: calls_in_def only_others_def)

section \<open>Running alone\<close>

text \<open>No other process changes the file system while the command runs. Any call may still fail, but what it says is missing
  is missing.\<close>

definition alone :: "sandbox \<Rightarrow> bool" where
  "alone sb \<longleftrightarrow> sb_env sb = (\<lambda>_ fs. fs) \<and> (\<forall>n. sb_fail sb n \<noteq> Some ''ENOENT'')"

text \<open>A command run on \<open>fs\<close> returns a value with \<open>Q\<close> or throws an error with \<open>E\<close>.\<close>

definition exec ::
  "filesys \<Rightarrow> (fs_world, 'a) command \<Rightarrow> ('a \<Rightarrow> filesys \<Rightarrow> bool) \<Rightarrow> (error \<Rightarrow> filesys \<Rightarrow> bool) \<Rightarrow> bool" where
  "exec fs m Q E \<longleftrightarrow> (\<forall>w. fw_fs w = fs \<longrightarrow> (case m w of (Inl e, w') \<Rightarrow> E e (fw_fs w') | (Inr x, w') \<Rightarrow> Q x (fw_fs w')))"

lemma execI:
  assumes "\<And>w r w'. fw_fs w = fs \<Longrightarrow> m w = (r, w') \<Longrightarrow> (case r of Inl e \<Rightarrow> E e (fw_fs w') | Inr x \<Rightarrow> Q x (fw_fs w'))"
  shows "exec fs m Q E"
  using assms unfolding exec_def by (fastforce split: prod.splits sum.splits)

lemma execD:
  assumes "exec fs m Q E" and "m w = (r, w')" and "fw_fs w = fs"
  shows "case r of Inl e \<Rightarrow> E e (fw_fs w') | Inr x \<Rightarrow> Q x (fw_fs w')"
  using assms unfolding exec_def by (auto split: sum.splits)

lemma exec_weaken:
  assumes "exec fs m Q E" and "\<And>x fs'. Q x fs' \<Longrightarrow> Q' x fs'" and "\<And>e fs'. E e fs' \<Longrightarrow> E' e fs'"
  shows "exec fs m Q' E'"
  using assms unfolding exec_def by (fastforce split: prod.splits sum.splits)

lemma exec_bind:
  assumes "exec fs m R E" and "\<And>x fs'. R x fs' \<Longrightarrow> exec fs' (f x) Q E"
  shows "exec fs (bindM m f) Q E"
proof (rule execI)
  fix w r w' assume w: "fw_fs w = fs" "bindM m f w = (r, w')"
  obtain v u where m: "m w = (v, u)" by fastforce
  from execD [OF assms(1) m w(1)] show "case r of Inl e \<Rightarrow> E e (fw_fs w') | Inr x \<Rightarrow> Q x (fw_fs w')"
    using w(2) m execD [OF assms(2) _ refl] by (cases v) (auto simp: bindM_def)
qed

lemma exec_return: "Q x fs \<Longrightarrow> exec fs (returnM x) Q E"
  by (simp add: exec_def)

lemma exec_throw: "E e fs \<Longrightarrow> exec fs (throwM e) Q E"
  by (simp add: exec_def)

lemma exec_lift: "(\<And>x. r = ok x \<Longrightarrow> Q x fs) \<Longrightarrow> (\<And>e. r = throw e \<Longrightarrow> E e fs) \<Longrightarrow> exec fs (liftR r) Q E"
  by (cases r) (simp_all add: exec_def)

lemma exec_guard: "(b \<Longrightarrow> Q () fs) \<Longrightarrow> (\<not> b \<Longrightarrow> E e fs) \<Longrightarrow> exec fs (guardM b e) Q E"
  by (simp add: exec_def)

lemma exec_catch:
  assumes "exec fs m Q E'" and "\<And>e fs'. E' e fs' \<Longrightarrow> exec fs' (h e) Q E"
  shows "exec fs (catchM m h) Q E"
proof (rule execI)
  fix w r w' assume w: "fw_fs w = fs" "catchM m h w = (r, w')"
  obtain v u where m: "m w = (v, u)" by fastforce
  from execD [OF assms(1) m w(1)] show "case r of Inl e \<Rightarrow> E e (fw_fs w') | Inr x \<Rightarrow> Q x (fw_fs w')"
    using w(2) m execD [OF assms(2) _ refl] by (cases v) (auto simp: catchM_def)
qed

lemma exec_try:
  assumes "exec fs m Q' E'" and "\<And>x fs'. Q' x fs' \<Longrightarrow> Q (ok x) fs'" and "\<And>e fs'. E' e fs' \<Longrightarrow> Q (throw e) fs'"
  shows "exec fs (tryM m) Q E"
proof (rule execI)
  fix w r w' assume w: "fw_fs w = fs" "tryM m w = (r, w')"
  obtain v u where m: "m w = (v, u)" by fastforce
  from execD [OF assms(1) m w(1)] show "case r of Inl e \<Rightarrow> E e (fw_fs w') | Inr x \<Rightarrow> Q x (fw_fs w')"
    using w(2) m assms(2,3) by (cases v) (auto simp: tryM_def)
qed

lemma exec_try_bind:
  assumes "exec fs m Q' E'" and "\<And>x fs'. Q' x fs' \<Longrightarrow> exec fs' (f (ok x)) Q E" and "\<And>e fs'. E' e fs' \<Longrightarrow> exec fs' (f (throw e)) Q E"
  shows "exec fs (bindM (tryM m) f) Q E"
  by (rule exec_bind [OF exec_try [OF assms(1), where Q = "\<lambda>r fs'. case r of Inl e \<Rightarrow> E' e fs' | Inr x \<Rightarrow> Q' x fs'"]])
    (use assms(2,3) in \<open>auto split: sum.splits\<close>)

lemma exec_finally:
  assumes "exec fs m Q' E'" and "\<And>x fs'. Q' x fs' \<Longrightarrow> exec fs' f (\<lambda>_. Q x) E" and "\<And>e fs'. E' e fs' \<Longrightarrow> exec fs' f (\<lambda>_. E e) E"
  shows "exec fs (finallyM m f) Q E"
proof (rule execI)
  fix w r w' assume w: "fw_fs w = fs" "finallyM m f w = (r, w')"
  obtain v u where m: "m w = (v, u)" by fastforce
  obtain v' u' where f: "f u = (v', u')" by fastforce
  from execD [OF assms(1) m w(1)] show "case r of Inl e \<Rightarrow> E e (fw_fs w') | Inr x \<Rightarrow> Q x (fw_fs w')"
    using w(2) m f execD [OF assms(2) f refl] execD [OF assms(3) f refl] by (cases v; cases v') (auto simp: finallyM_def)
qed

lemma exec_calls:
  assumes "\<And>v. exec fs (g v) Q E"
  shows "exec fs (\<lambda>w. g w w) Q E"
proof (rule execI)
  fix w r w' assume "fw_fs w = fs" "g w w = (r, w')"
  then show "case r of Inl e \<Rightarrow> E e (fw_fs w') | Inr x \<Rightarrow> Q x (fw_fs w')" using execD [OF assms [of w]] by blast
qed

lemma exec_syscall:
  assumes "alone sb" and "\<And>code. code \<noteq> ''ENOENT'' \<or> f fs = Inl code \<Longrightarrow> E (SystemError code) fs"
    and "\<And>x fs'. f fs = Inr (x, fs') \<Longrightarrow> Q x fs'"
  shows "exec fs (syscall sb f) Q E"
proof (rule execI)
  fix w r w' assume w: "fw_fs w = fs" "syscall sb f w = (r, w')"
  have env: "sb_env sb = (\<lambda>_ fs. fs)" and fail: "sb_fail sb (fw_calls w) \<noteq> Some ''ENOENT''"
    using assms(1) by (simp_all add: alone_def)
  show "case r of Inl e \<Rightarrow> E e (fw_fs w') | Inr x \<Rightarrow> Q x (fw_fs w')"
    using w fail assms(2,3) by (auto simp: syscall_def Let_def env split: option.splits sum.splits)
qed

text \<open>A command that only looks, and what its result tells.\<close>

definition tells :: "filesys \<Rightarrow> (fs_world, 'a) command \<Rightarrow> ('a \<Rightarrow> bool) \<Rightarrow> bool" where
  "tells fs m F \<longleftrightarrow> exec fs m (\<lambda>x fs'. fs' = fs \<and> F x) (\<lambda>e fs'. fs' = fs)"

lemma tells_exec: "tells fs m F \<Longrightarrow> (\<And>x. F x \<Longrightarrow> Q x fs) \<Longrightarrow> (\<And>e. E e fs) \<Longrightarrow> exec fs m Q E"
  unfolding tells_def by (erule exec_weaken) auto

lemma exec_tells: "tells fs m F \<Longrightarrow> (\<And>e. E e fs) \<Longrightarrow> (\<And>x. F x \<Longrightarrow> exec fs (f x) Q E) \<Longrightarrow> exec fs (bindM m f) Q E"
  by (rule exec_bind [where R = "\<lambda>x fs'. fs' = fs \<and> F x"]) (auto elim: tells_exec)

lemma tells_bind:
  assumes "tells fs m F" and "\<And>x. F x \<Longrightarrow> tells fs (f x) G"
  shows "tells fs (bindM m f) G"
  unfolding tells_def
proof (rule exec_bind)
  show "exec fs m (\<lambda>x fs'. fs' = fs \<and> F x) (\<lambda>e fs'. fs' = fs)" using assms(1) unfolding tells_def .
next
  fix x fs' assume "fs' = fs \<and> F x"
  then show "exec fs' (f x) (\<lambda>x fs'. fs' = fs \<and> G x) (\<lambda>e fs'. fs' = fs)" using assms(2) by (simp add: tells_def)
qed

lemma tells_weaken: "tells fs m F \<Longrightarrow> (\<And>x. F x \<Longrightarrow> G x) \<Longrightarrow> tells fs m G"
  unfolding tells_def by (erule exec_weaken) auto

lemma tells_return: "F x \<Longrightarrow> tells fs (returnM x) F"
  by (simp add: tells_def exec_return)

lemma tells_throw: "tells fs (throwM e) F"
  by (simp add: tells_def exec_throw)

lemma tells_lift: "(\<And>x. r = ok x \<Longrightarrow> F x) \<Longrightarrow> tells fs (liftR r) F"
  by (simp add: tells_def exec_lift)

lemma tells_guard: "(b \<Longrightarrow> F ()) \<Longrightarrow> tells fs (guardM b e) F"
  by (simp add: tells_def exec_guard)

lemma tells_catch: "tells fs m F \<Longrightarrow> (\<And>e. tells fs (h e) F) \<Longrightarrow> tells fs (catchM m h) F"
  unfolding tells_def by (erule exec_catch) simp

lemma tells_finally: "tells fs m F \<Longrightarrow> tells fs f G \<Longrightarrow> tells fs (finallyM m f) F"
  unfolding tells_def by (erule exec_finally) (auto elim: exec_weaken)

lemma tells_look: "alone sb \<Longrightarrow> (\<And>x. f fs = Inr x \<Longrightarrow> F x) \<Longrightarrow> tells fs (syscall sb (inspecting f)) F"
  unfolding tells_def by (rule exec_syscall) (auto simp: inspecting_def split: sum.splits)

lemma tells_if: "(b \<Longrightarrow> tells fs m F) \<Longrightarrow> (\<not> b \<Longrightarrow> tells fs m' F) \<Longrightarrow> tells fs (if b then m else m') F"
  by simp

lemma tells_guard_bind: "(b \<Longrightarrow> tells fs (f ()) F) \<Longrightarrow> tells fs (bindM (guardM b e) f) F"
  by (rule tells_bind [where F = "\<lambda>_. b"]) (auto intro: tells_guard)

lemma tells_lift_bind: "(\<And>x. r = ok x \<Longrightarrow> tells fs (f x) F) \<Longrightarrow> tells fs (bindM (liftR r) f) F"
  by (rule tells_bind [where F = "\<lambda>x. r = ok x"]) (auto intro: tells_lift)

lemma tells_abort_bind: "tells fs (f ()) F \<Longrightarrow> tells fs (bindM (abort_check sb) f) F"
  unfolding abort_check_def by (rule tells_lift_bind) simp

lemma tells_pair: "(\<And>a b. x = (a, b) \<Longrightarrow> tells fs (f a b) F) \<Longrightarrow> tells fs (case x of (a, b) \<Rightarrow> f a b) F"
  by (cases x) simp

lemma exec_guard_bind: "(\<not> b \<Longrightarrow> E e fs) \<Longrightarrow> (b \<Longrightarrow> exec fs (f ()) Q E) \<Longrightarrow> exec fs (bindM (guardM b e) f) Q E"
  by (rule exec_bind [where R = "\<lambda>_ fs'. b \<and> fs' = fs"]) (auto intro: exec_guard)

lemma exec_lift_bind:
  "(\<And>e. r = throw e \<Longrightarrow> E e fs) \<Longrightarrow> (\<And>x. r = ok x \<Longrightarrow> exec fs (f x) Q E) \<Longrightarrow> exec fs (bindM (liftR r) f) Q E"
  by (rule exec_bind [where R = "\<lambda>x fs'. r = ok x \<and> fs' = fs"]) (auto intro: exec_lift)

section \<open>Paths without links\<close>

definition direct :: "filesys \<Rightarrow> string list \<Rightarrow> bool" where
  "direct fs p \<longleftrightarrow> (\<forall>k < length p. \<exists>i. fs_lookup fs (take k p) = Some (DirNode i))"

lemma direct_Nil [simp]: "direct fs []"
  by (simp add: direct_def)

lemma direct_snoc: "direct fs (p @ [s]) \<longleftrightarrow> direct fs p \<and> (\<exists>i. fs_lookup fs p = Some (DirNode i))"
  by (auto simp: direct_def less_Suc_eq)

lemma walk_direct: "walk fs final n here ss = Inr q \<Longrightarrow> direct fs here \<Longrightarrow> direct fs q"
proof (induction fs final n here ss rule: walk.induct)
  case (2 fs final n here s ss)
  show ?case
    using 2 by (auto simp: direct_snoc split: option.splits fs_node.splits if_splits nat.splits)
qed simp

lemma direct_here: "direct fs (here @ s # ss) \<Longrightarrow> direct fs here \<and> (\<exists>i. fs_lookup fs here = Some (DirNode i))"
proof -
  assume *: "direct fs (here @ s # ss)"
  have "\<exists>i. fs_lookup fs (take k here) = Some (DirNode i)" if "k < length here" for k
    using *[unfolded direct_def, rule_format, of k] that by simp
  moreover have "\<exists>i. fs_lookup fs here = Some (DirNode i)"
    using *[unfolded direct_def, rule_format, of "length here"] by simp
  ultimately show ?thesis by (simp add: direct_def)
qed

lemma direct_walk:
  assumes "direct fs (here @ ss)" and "\<not> final \<or> (\<forall>t. fs_lookup fs (here @ ss) \<noteq> Some (LinkNode t))"
  shows "walk fs final n here ss = Inr (here @ ss)"
  using assms
proof (induction ss arbitrary: here)
  case (Cons s ss)
  obtain i where i: "fs_lookup fs here = Some (DirNode i)" using direct_here [OF Cons.prems(1)] by blast
  show ?case
  proof (cases ss)
    case Nil
    then show ?thesis using i Cons.prems(2) by (auto split: option.splits fs_node.splits)
  next
    case (Cons t ts)
    then obtain j where "fs_lookup fs (here @ [s]) = Some (DirNode j)"
      using direct_here [of fs "here @ [s]" t ts] Cons.prems(1) by auto
    then show ?thesis using i Cons.IH [of "here @ [s]"] Cons.prems by simp
  qed
qed simp

text \<open>What an inspection finds: no link on the way, and the state of the entry there.\<close>

definition found_at :: "filesys \<Rightarrow> string list \<Rightarrow> stats \<Rightarrow> bool" where
  "found_at fs p st \<longleftrightarrow> direct fs p \<and> (\<exists>n. fs_lookup fs p = Some n \<and> (\<forall>t. n \<noteq> LinkNode t) \<and> st = stats_of fs n)"

lemma found_at_intro:
  assumes "entry_at fs False p = Inr (q, n)" and "\<forall>t. n \<noteq> LinkNode t" and "entry_at fs True p = Inr (p, m)"
  shows "found_at fs p (stats_of fs n)"
proof -
  have "walk fs True max_links [] p = Inr p" and m: "fs_lookup fs p = Some m"
    using assms(3) by (auto simp: entry_at_def split: sum.splits option.splits)
  from walk_direct [OF this(1)] have p: "direct fs p" by simp
  then have "walk fs False max_links [] p = Inr p" using direct_walk [of fs "[]" p False] by simp
  then have "q = p" "n = m" using assms(1) m by (auto simp: entry_at_def)
  then show ?thesis using p m assms(2) by (auto simp: found_at_def)
qed

lemma found_entry: "found_at fs p st \<Longrightarrow> \<exists>n. entry_at fs final p = Inr (p, n) \<and> fs_lookup fs p = Some n \<and> (\<forall>t. n \<noteq> LinkNode t) \<and> st = stats_of fs n"
  using direct_walk [of fs "[]" p final] by (auto simp: found_at_def entry_at_def)

lemma stats_kind: "st_kind (stats_of fs n) = KindLink \<longleftrightarrow> (\<exists>t. n = LinkNode t)"
  "st_kind (stats_of fs n) = KindFile \<longleftrightarrow> (\<exists>i. n = FileNode i)"
  "st_kind (stats_of fs n) = KindDirectory \<longleftrightarrow> (\<exists>i. n = DirNode i)"
  by (cases n; simp)+

section \<open>Paths of the sandbox\<close>

definition sb_path :: "sandbox \<Rightarrow> string \<Rightarrow> string list" where
  "sb_path sb path = sb_root sb @ path_segments path"

definition plain_path :: "string \<Rightarrow> bool" where
  "plain_path path \<longleftrightarrow> list_all plain_segment (path_segments path)"

lemma effective_path:
  assumes "assertEffectivePath sb v allowRoot = ok p"
  shows "v = Some (JStr p)" and "plain_path p" and "p = '''' \<Longrightarrow> allowRoot"
proof -
  obtain s q where v: "v = Some (JStr s)" and q: "normalizeRelativePath s (limits_of (sb_limit sb)) allowRoot = ok q" and "p = q" "q = s"
    using assms by (auto simp: assertEffectivePath_def result_simps split: option.splits json.splits if_splits)
  then show "v = Some (JStr p)" "plain_path p" "p = '''' \<Longrightarrow> allowRoot"
    using normalize_path_ok [OF q] by (simp_all add: plain_path_def)
qed

lemma resolve_sb: "plain_path path \<Longrightarrow> resolveContainedPath (sb_root sb) path = ok (sb_path sb path)"
  by (simp add: resolve_contained plain_path_def sb_path_def)

lemma split_fresh: "c \<notin> set x \<Longrightarrow> js_split c x = [x]"
  by (induction x) auto

lemma split_append: "c \<notin> set x \<Longrightarrow> js_split c (x @ c # y) = x # js_split c y"
  by (induction x) auto

lemma split_join: "xs \<noteq> [] \<Longrightarrow> \<forall>x \<in> set xs. c \<notin> set x \<Longrightarrow> js_split c (join [c] xs) = xs"
proof (induction xs)
  case (Cons x xs)
  then show ?case by (cases xs) (auto simp: split_fresh split_append)
qed simp

lemma plain_split: "plain_segment s \<Longrightarrow> path_segments s = [s]"
  by (auto simp: plain_segment_def path_segments_def split_fresh)

lemma resolve_segment: "plain_segment s \<Longrightarrow> resolveContainedPath p s = ok (p @ [s])"
  using resolve_contained [of s p] by (simp add: plain_split)

lemma join_Nil_plain: "list_all plain_segment xs \<Longrightarrow> join ''/'' xs = '''' \<longleftrightarrow> xs = []"
  by (cases xs; cases "tl xs") (auto simp: plain_segment_def)

lemma parent_segments:
  assumes "plain_path path" and "path \<noteq> ''''"
  shows "path_segments (parentPath path) = butlast (path_segments path)" and "plain_path (parentPath path)"
proof -
  have segs: "path_segments path = js_split slash path" using assms(2) by (simp add: path_segments_def)
  have "list_all plain_segment (butlast (js_split slash path))"
    using assms(1) segs by (auto simp: plain_path_def list_all_iff dest: in_set_butlastD)
  moreover from this have "\<forall>x \<in> set (butlast (js_split slash path)). slash \<notin> set x" by (auto simp: plain_segment_def list_all_iff)
  ultimately show "path_segments (parentPath path) = butlast (path_segments path)"
    unfolding parentPath_def segs using split_join [of "butlast (js_split slash path)" slash] join_Nil_plain
    by (auto simp: path_segments_def)
  with \<open>list_all plain_segment (butlast (js_split slash path))\<close> show "plain_path (parentPath path)"
    by (simp add: plain_path_def segs)
qed

lemma parent_place:
  assumes "plain_path path" and "path \<noteq> ''''"
  shows "sb_path sb path \<noteq> []" "butlast (sb_path sb path) = sb_path sb (parentPath path)"
  using parent_segments(1) [OF assms] assms(2) by (auto simp: sb_path_def butlast_append path_segments_def)

section \<open>Sensitive and staged entries\<close>

definition staged :: "string list \<Rightarrow> bool" where
  "staged p \<longleftrightarrow> p \<noteq> [] \<and> startsWith (last p) staging_stem"

lemma to_lower_slash: "to_lower c = slash \<longleftrightarrow> c = slash"
proof
  assume *: "to_lower c = slash"
  show "c = slash"
  proof (rule ccontr)
    assume "c \<noteq> slash"
    then have b: "65 \<le> (of_char c :: nat) \<and> of_char c \<le> (222 :: nat)" and e: "char_of ((of_char c :: nat) + 32) = slash"
      using * by (auto simp: to_lower_def Let_def split: if_splits)
    from e have "of_char (char_of ((of_char c :: nat) + 32)) = (of_char slash :: nat)" by simp
    with b show False by simp
  qed
qed (simp add: to_lower_def)

lemma split_lower: "js_split slash (js_lower s) = map js_lower (js_split slash s)"
  by (induction s) (auto simp: js_lower_def to_lower_slash split: list.splits)

lemma stem_lower: "startsWith s staging_stem \<Longrightarrow> startsWith (js_lower s) ''.ai-office-txn-''"
proof -
  have "js_lower ''.ai-office-txn-'' = ''.ai-office-txn-''" by code_simp
  then show "startsWith s staging_stem \<Longrightarrow> startsWith (js_lower s) ''.ai-office-txn-''"
    unfolding startsWith_def staging_stem_def js_lower_def take_map by metis
qed

lemma visible_unstaged:
  assumes "\<not> isSensitiveFilesystemPath path ds" and "plain_path path" and "path \<noteq> ''''"
  shows "\<not> staged (sb_path sb path)"
proof
  assume st: "staged (sb_path sb path)"
  let ?s = "last (js_split slash path)"
  have "last (sb_path sb path) = ?s" using assms(3) by (simp add: sb_path_def path_segments_def)
  then have "startsWith ?s staging_stem" using st by (simp add: staged_def)
  then have "isSensitiveFilesystemSegment (js_lower ?s)" by (simp add: isSensitiveFilesystemSegment_def Let_def stem_lower)
  moreover have "?s \<in> set (js_split slash path)" "js_lower ?s \<noteq> []"
    using assms(2,3) by (auto simp: plain_path_def path_segments_def list_all_iff plain_segment_def js_lower_def)
  ultimately have seg: "isSensitiveFilesystemSegment (js_lower ?s)" "?s \<in> set (js_split slash path)" "js_lower ?s \<noteq> []"
    by blast+
  have "js_lower ?s \<in> set (map js_lower (filter (\<lambda>segment. length segment > 0) (js_split slash (js_lower path))))"
    using seg(2,3) unfolding split_lower by (force intro: image_eqI [where x = "js_lower ?s"])
  then have "isBuiltInSensitiveFilesystemPath (js_lower path)"
    using seg(1) unfolding isBuiltInSensitiveFilesystemPath_def Let_def list_ex_iff by blast
  then show False using assms(1) by (simp add: isSensitiveFilesystemPath_def Let_def)
qed

section \<open>What an inspection tells\<close>

definition state_at :: "filesys \<Rightarrow> string list \<Rightarrow> stats \<Rightarrow> bool" where
  "state_at fs p st \<longleftrightarrow> (\<exists>q n. entry_at fs False p = Inr (q, n) \<and> st = stats_of fs n)"

lemma tells_lstat: "alone sb \<Longrightarrow> tells fs (lstatSync sb p) (state_at fs p)"
  unfolding lstatSync_def by (rule tells_look) (auto simp: state_at_def map_sum_def split: sum.splits)

lemma tells_realpath: "alone sb \<Longrightarrow> tells fs (realpathSync sb p) (\<lambda>q. \<exists>n. entry_at fs True p = Inr (q, n))"
  unfolding realpathSync_def by (rule tells_look) (auto simp: map_sum_def split: sum.splits)

lemma tells_root:
  assumes "alone sb"
  shows "tells fs (assertRoot sb) (\<lambda>_. \<exists>st. state_at fs (sb_root sb) st \<and> st_kind st \<noteq> KindLink)"
  unfolding assertRoot_def
proof (rule tells_bind [OF tells_catch [OF tells_lstat [OF assms] tells_throw]], intro tells_guard_bind)
  fix st assume "state_at fs (sb_root sb) st" "st_kind st \<noteq> KindLink"
  then show "tells fs (bindM (realpathSync sb (sb_root sb)) (\<lambda>canonical. guardM (canonical = sb_root sb) symlink_denied))
      (\<lambda>_. \<exists>st. state_at fs (sb_root sb) st \<and> st_kind st \<noteq> KindLink)"
    by (intro tells_bind [OF tells_realpath [OF assms]] tells_guard) blast
qed

lemma tells_segments:
  assumes "alone sb"
  shows "list_all plain_segment ss \<Longrightarrow> state_at fs p st \<Longrightarrow> st_kind st \<noteq> KindLink \<Longrightarrow>
    tells fs (inspect_segments sb p st ss) (\<lambda>st'. state_at fs (p @ ss) st' \<and> st_kind st' \<noteq> KindLink)"
proof (induction ss arbitrary: p st)
  case Nil
  then show ?case unfolding inspect_segments.simps by (intro tells_return) simp
next
  case (Cons s ss)
  then have s: "resolveContainedPath p s = ok (p @ [s])" by (simp add: resolve_segment)
  show ?case
    unfolding inspect_segments.simps s
  proof (intro tells_lift_bind tells_bind [OF tells_catch [OF tells_lstat [OF assms] tells_throw]] tells_guard_bind)
    fix q found assume q: "ok (p @ [s]) = ok q" and found: "state_at fs q found" "st_kind found \<noteq> KindLink"
    then show "tells fs (inspect_segments sb q found ss) (\<lambda>st'. state_at fs (p @ s # ss) st' \<and> st_kind st' \<noteq> KindLink)"
      using Cons.IH [of q found] Cons.prems(1) by (auto simp del: inspect_segments.simps)
  qed
qed

lemma tells_inspect:
  assumes "alone sb" and "plain_path path"
  shows "tells fs (inspect sb path) (\<lambda>(absolute, st). absolute = sb_path sb path \<and> found_at fs absolute st
    \<and> \<not> isSensitiveFilesystemPath path (denied_prefixes sb))"
proof -
  have segs: "(if path = '''' then [] else js_split slash path) = path_segments path" by (simp add: path_segments_def)
  show ?thesis
    unfolding inspect_def segs resolve_sb [OF assms(2)]
  proof (intro tells_bind [OF tells_root [OF assms(1)]] tells_lift_bind tells_bind [OF tells_lstat [OF assms(1)]])
    fix u v root_stats
    assume u: "\<exists>st. state_at fs (sb_root sb) st \<and> st_kind st \<noteq> KindLink" and v: "assertVisible sb path = ok v"
      and r: "state_at fs (sb_root sb) root_stats"
    then have st: "st_kind root_stats \<noteq> KindLink" by (auto simp: state_at_def)
    have seen: "\<not> isSensitiveFilesystemPath path (denied_prefixes sb)" using v by (auto simp: assertVisible_def split: if_splits)
    show "tells fs (bindM (inspect_segments sb (sb_root sb) root_stats (path_segments path)) (\<lambda>st.
       bindM (liftR (ok (sb_path sb path))) (\<lambda>absolute.
       bindM (catchM (realpathSync sb absolute) (\<lambda>e. throwM (lookup_error e))) (\<lambda>canonical.
       bindM (guardM (canonical = absolute) symlink_denied) (\<lambda>_. returnM (absolute, st))))))
      (\<lambda>(absolute, st). absolute = sb_path sb path \<and> found_at fs absolute st \<and> \<not> isSensitiveFilesystemPath path (denied_prefixes sb))"
    proof (intro tells_bind [OF tells_segments [OF assms(1) _ r st]] tells_lift_bind
        tells_bind [OF tells_catch [OF tells_realpath [OF assms(1)] tells_throw]] tells_guard_bind tells_return)
      fix st' absolute canonical
      assume s: "state_at fs (sb_root sb @ path_segments path) st' \<and> st_kind st' \<noteq> KindLink"
        and "ok (sb_path sb path) = ok absolute" "\<exists>n. entry_at fs True absolute = Inr (canonical, n)" "canonical = absolute"
      then have absolute: "absolute = sb_path sb path" "\<exists>m. entry_at fs True (sb_path sb path) = Inr (sb_path sb path, m)"
        by simp_all
      from s obtain q n where n: "entry_at fs False (sb_path sb path) = Inr (q, n)" "st' = stats_of fs n" "st_kind st' \<noteq> KindLink"
        unfolding state_at_def sb_path_def by blast
      then have "\<forall>t. n \<noteq> LinkNode t" using stats_kind(1) [of fs n] by blast
      with absolute n found_at_intro [of fs "sb_path sb path" q n] have "found_at fs absolute st'" by blast
      then show "case (absolute, st') of (absolute, st) \<Rightarrow> absolute = sb_path sb path \<and> found_at fs absolute st
          \<and> \<not> isSensitiveFilesystemPath path (denied_prefixes sb)"
        using absolute seen by simp
    qed (use assms(2) in \<open>simp add: plain_path_def\<close>)
  qed
qed

definition directory_at :: "filesys \<Rightarrow> string list \<Rightarrow> bool" where
  "directory_at fs p \<longleftrightarrow> direct fs p \<and> (\<exists>i. fs_lookup fs p = Some (DirNode i))"

definition regular_at :: "filesys \<Rightarrow> string list \<Rightarrow> nat \<Rightarrow> bool" where
  "regular_at fs p i \<longleftrightarrow> direct fs p \<and> fs_lookup fs p = Some (FileNode i)"

lemma found_directory: "found_at fs p st \<Longrightarrow> st_kind st = KindDirectory \<Longrightarrow> directory_at fs p"
  by (auto simp: found_at_def directory_at_def stats_kind)

lemma found_file: "found_at fs p st \<Longrightarrow> st_kind st = KindFile \<Longrightarrow> \<exists>i. regular_at fs p i \<and> st = stats_of fs (FileNode i)"
  by (auto simp: found_at_def regular_at_def stats_kind)

lemma tells_parent:
  assumes "alone sb" and "plain_path path" and "path \<noteq> ''''"
  shows "tells fs (validateParent sb path) (\<lambda>_. directory_at fs (butlast (sb_path sb path)))"
  unfolding validateParent_def
  by (intro tells_bind [OF tells_inspect [OF assms(1) parent_segments(2) [OF assms(2,3)]]] tells_pair tells_guard)
    (auto simp: parent_place [OF assms(2,3)] dest: found_directory)

section \<open>Reading a file\<close>

abbreviation content_at :: "filesys \<Rightarrow> nat \<Rightarrow> string" where
  "content_at fs i \<equiv> nd_bytes (fs_inode fs i)"

lemma tells_fstat: "alone sb \<Longrightarrow> tells fs (fstatSync sb h) (\<lambda>st. st = stats_of fs h)"
  unfolding fstatSync_def by (rule tells_look) auto

lemma tells_close: "alone sb \<Longrightarrow> tells fs (closeSync sb h) (\<lambda>_. True)"
  unfolding closeSync_def by (rule tells_look) auto

lemma tells_readSync: "alone sb \<Longrightarrow> tells fs (readSync sb (FileNode i) n k) (\<lambda>chunk. chunk = take k (drop n (content_at fs i)))"
  unfolding readSync_def by (rule tells_look) auto

lemma tells_open: "alone sb \<Longrightarrow> regular_at fs p i \<Longrightarrow> tells fs (openSync sb p) (\<lambda>h. h = FileNode i)"
  unfolding openSync_def using direct_walk [of fs "[]" p False]
  by (intro tells_look) (auto simp: regular_at_def entry_at_def)

lemma take_take_length: "take (length (take n xs)) xs = take n xs"
  by (simp add: min_def)

lemma tells_chunks:
  assumes "alone sb"
  shows "take (length bytes) (content_at fs i) = bytes \<Longrightarrow> tells fs (read_chunks sb (FileNode i) bytes) (\<lambda>b. b = content_at fs i)"
proof (induction "sb_limit sb MaxFileBytes + 1 - length bytes" arbitrary: bytes rule: less_induct)
  case less
  show ?case
    unfolding Let_def
  proof (subst read_chunks.simps, unfold Let_def, intro tells_abort_bind tells_if tells_throw
      tells_bind [OF tells_readSync [OF assms]] tells_return)
    fix chunk
    let ?n = "min chunk_size (sb_limit sb MaxFileBytes + 1 - length bytes)"
    assume n: "?n \<noteq> 0" and chunk: "chunk = take ?n (drop (length bytes) (content_at fs i))"
    show "bytes = content_at fs i" if "length chunk = 0"
    proof -
      have "length (content_at fs i) \<le> length bytes" using that n unfolding chunk by (auto simp: min_def split: if_splits)
      then show ?thesis using less.prems by simp
    qed
    show "tells fs (read_chunks sb (FileNode i) (bytes @ chunk)) (\<lambda>b. b = content_at fs i)" if "length chunk \<noteq> 0"
    proof (rule less.hyps)
      show "sb_limit sb MaxFileBytes + 1 - length (bytes @ chunk) < sb_limit sb MaxFileBytes + 1 - length bytes"
        using that n by (intro diff_less_mono2) (auto simp: min_def split: if_splits)
      show "take (length (bytes @ chunk)) (content_at fs i) = bytes @ chunk"
        using less.prems unfolding chunk by (simp only: length_append take_add take_take_length)
    qed
  qed
qed

text \<open>What is read from file number \<open>i\<close>.\<close>

definition text_of_file :: "sandbox \<Rightarrow> filesys \<Rightarrow> nat \<Rightarrow> text_file \<Rightarrow> bool" where
  "text_of_file sb fs i f \<longleftrightarrow> tf_bytes f = content_at fs i \<and> sb_decode sb (content_at fs i) = Some (tf_content f)
     \<and> tf_sha256 f = sb_sha256 sb (content_at fs i) \<and> CHR 0x00 \<notin> set (content_at fs i)
     \<and> length (content_at fs i) \<le> sb_limit sb MaxFileBytes"

lemma tells_contained: "alone sb \<Longrightarrow> plain_path path \<Longrightarrow> tells fs (assertOpenedPathStillContained sb path st) (\<lambda>_. True)"
  unfolding assertOpenedPathStillContained_def
  by (intro tells_bind [OF tells_inspect] tells_pair tells_guard) auto

lemma tells_opened:
  assumes "alone sb" and "plain_path path"
  shows "tells fs (read_opened sb path st (FileNode i)) (text_of_file sb fs i)"
  unfolding read_opened_def
proof (intro tells_bind [OF tells_fstat [OF assms(1)]] tells_guard_bind tells_bind [OF tells_contained [OF assms]]
    tells_bind [OF tells_chunks [OF assms(1)]])
  fix before bytes after
  assume "before = stats_of fs (FileNode i)" "st_size before \<le> sb_limit sb MaxFileBytes"
    and "bytes = content_at fs i" "CHR 0x00 \<notin> set bytes"
  then show "tells fs (case sb_decode sb bytes of None \<Rightarrow> throwM binary_file
      | Some content \<Rightarrow> bindM (guardM (hex64 (sb_sha256 sb bytes)) source_changed) (\<lambda>_.
          returnM \<lparr>tf_bytes = bytes, tf_content = content, tf_sha256 = sb_sha256 sb bytes\<rparr>)) (text_of_file sb fs i)"
    by (cases "sb_decode sb bytes") (auto simp: text_of_file_def intro!: tells_throw tells_guard_bind tells_return)
qed simp

text \<open>A file is readable at a path: no link leads there, it has no other name, and the sandbox may see it.\<close>

definition readable :: "sandbox \<Rightarrow> filesys \<Rightarrow> string \<Rightarrow> nat \<Rightarrow> bool" where
  "readable sb fs path i \<longleftrightarrow> regular_at fs (sb_path sb path) i \<and> link_count fs i \<le> 1
     \<and> \<not> isSensitiveFilesystemPath path (denied_prefixes sb) \<and> extensionPermitted sb path"

lemma tells_file:
  assumes "alone sb" and "plain_path path"
  shows "tells fs (readTextFile sb path) (\<lambda>f. \<exists>i. readable sb fs path i \<and> text_of_file sb fs i f)"
  unfolding readTextFile_def
proof (intro tells_abort_bind tells_guard_bind tells_bind [OF tells_inspect [OF assms]] tells_pair)
  fix x absolute st
  assume x: "case x of (absolute, st) \<Rightarrow> absolute = sb_path sb path \<and> found_at fs absolute st
      \<and> \<not> isSensitiveFilesystemPath path (denied_prefixes sb)" "x = (absolute, st)"
    and st: "st_kind st = KindFile" "st_nlink st \<le> 1" and ext: "extensionPermitted sb path"
  then obtain i where i: "regular_at fs (sb_path sb path) i" "st = stats_of fs (FileNode i)"
    using found_file [of fs absolute st] by auto
  have r: "readable sb fs path i" using x st(2) i ext by (simp add: readable_def)
  have a: "absolute = sb_path sb path" using x by simp
  show "tells fs (bindM (catchM (openSync sb absolute) (\<lambda>e. throwM (open_error e)))
      (\<lambda>h. finallyM (read_opened sb path st h) (closeSync sb h))) (\<lambda>f. \<exists>i. readable sb fs path i \<and> text_of_file sb fs i f)"
    unfolding a
  proof (intro tells_bind [OF tells_catch [OF tells_open [OF assms(1) i(1)] tells_throw]])
    fix h assume "h = FileNode i"
    then show "tells fs (finallyM (read_opened sb path st h) (closeSync sb h)) (\<lambda>f. \<exists>i. readable sb fs path i \<and> text_of_file sb fs i f)"
      using r by (auto intro!: tells_finally [OF _ tells_close [OF assms(1)]] tells_weaken [OF tells_opened [OF assms]])
  qed
qed

section \<open>Absence and preconditions\<close>

definition free_at :: "filesys \<Rightarrow> string list \<Rightarrow> bool" where
  "free_at fs p \<longleftrightarrow> p \<noteq> [] \<and> directory_at fs (butlast p) \<and> fs_lookup fs p = None"

lemma directory_child: "directory_at fs p \<Longrightarrow> direct fs (p @ [s])"
  by (auto simp: direct_snoc directory_at_def)

lemma directory_place: "p \<noteq> [] \<Longrightarrow> directory_at fs (butlast p) \<Longrightarrow> direct fs p"
  using directory_child [of fs "butlast p" "last p"] by simp

lemma lookup_place: "direct fs p \<Longrightarrow> entry_at fs False p = (case fs_lookup fs p of None \<Rightarrow> Inl ''ENOENT'' | Some n \<Rightarrow> Inr (p, n))"
  using direct_walk [of fs "[]" p False] by (simp add: entry_at_def)

lemma tells_absent:
  assumes "alone sb" and "plain_path path" and "path \<noteq> []"
  shows "tells fs (isAbsent sb path) (\<lambda>b. b \<longrightarrow> free_at fs (sb_path sb path) \<and> \<not> isSensitiveFilesystemPath path (denied_prefixes sb))"
  unfolding isAbsent_def resolve_sb [OF assms(2)]
proof (intro tells_lift_bind tells_bind [OF tells_parent [OF assms]])
  fix u p
  let ?F = "\<lambda>b. b \<longrightarrow> free_at fs (sb_path sb path) \<and> \<not> isSensitiveFilesystemPath path (denied_prefixes sb)"
  assume u: "assertVisible sb path = ok u" and parent: "directory_at fs (butlast (sb_path sb path))" and p: "ok (sb_path sb path) = ok p"
  from p have p: "p = sb_path sb path" by simp
  have place: "entry_at fs False p = (case fs_lookup fs p of None \<Rightarrow> Inl ''ENOENT'' | Some n \<Rightarrow> Inr (p, n))"
    unfolding p by (rule lookup_place [OF directory_place [OF parent_place(1) [OF assms(2,3)] parent]])
  have free: "free_at fs p \<and> \<not> isSensitiveFilesystemPath path (denied_prefixes sb)" if "fs_lookup fs p = None"
    using that u parent parent_place(1) [OF assms(2,3)] by (auto simp: free_at_def p assertVisible_def split: if_splits)
  let ?E = "\<lambda>e fs'. fs' = fs \<and> (errorCode e = Some ''ENOENT'' \<longrightarrow> fs_lookup fs p = None)"
  have lstat: "exec fs (lstatSync sb p) (\<lambda>st fs'. fs' = fs) ?E"
    unfolding lstatSync_def
    by (rule exec_syscall [OF assms(1)]) (auto simp: inspecting_def place errorCode_def split: option.splits)
  have "exec fs (bindM (lstatSync sb p) (\<lambda>st. bindM (guardM (st_kind st \<noteq> KindLink) symlink_denied) (\<lambda>_. returnM False)))
      (\<lambda>x fs'. fs' = fs \<and> ?F x) ?E"
    by (intro exec_bind [OF lstat] exec_guard_bind exec_return) (auto simp: symlink_denied_def fs_error_def errorCode_def)
  then show "tells fs (catchM
       (bindM (lstatSync sb p) (\<lambda>st. bindM (guardM (st_kind st \<noteq> KindLink) symlink_denied) (\<lambda>_. returnM False)))
       (\<lambda>e. if errorCode e = Some ''ENOENT'' then returnM True else throwM e)) ?F"
    unfolding tells_def by (rule exec_catch) (use free in \<open>auto intro: exec_return exec_throw simp: p\<close>)
qed

text \<open>What the preconditions of an approved change say of the file system.\<close>

fun holds_at :: "sandbox \<Rightarrow> filesys \<Rightarrow> file_precondition \<Rightarrow> bool" where
  "holds_at sb fs (AbsentFile path) \<longleftrightarrow> free_at fs (sb_path sb path) \<and> \<not> isSensitiveFilesystemPath path (denied_prefixes sb)"
| "holds_at sb fs (PresentFile path sha256 n) \<longleftrightarrow> (\<exists>i. readable sb fs path i \<and> sb_sha256 sb (content_at fs i) = sha256
     \<and> size_matches (length (content_at fs i)) n)"

lemma tells_precondition:
  assumes "alone sb"
  shows "tells fs (verify_precondition sb p) (\<lambda>_. holds_at sb fs p)"
  unfolding verify_precondition_def
proof (intro tells_lift_bind tells_abort_bind)
  fix path assume path: "assertEffectivePath sb (Some (JStr (precondition_path p))) False = ok path"
  note pp = effective_path [OF path]
  show "tells fs (case p of AbsentFile path \<Rightarrow> bindM (isAbsent sb path) (\<lambda>absent. guardM absent precondition_failed)
     | PresentFile path sha256 expected \<Rightarrow> bindM (readTextFile sb path) (\<lambda>file.
         guardM (tf_sha256 file = sha256 \<and> size_matches (length (tf_bytes file)) expected) precondition_failed))
     (\<lambda>_. holds_at sb fs p)"
  proof (cases p)
    case (AbsentFile q)
    then show ?thesis using pp tells_absent [OF assms, of q fs] by (auto intro!: tells_bind tells_guard)
  next
    case (PresentFile q sha256 n)
    then have q: "plain_path q" using pp by simp
    show ?thesis unfolding PresentFile file_precondition.case
    proof (intro tells_bind [OF tells_file [OF assms q]] tells_guard)
      fix f assume "\<exists>i. readable sb fs q i \<and> text_of_file sb fs i f" and "tf_sha256 f = sha256 \<and> size_matches (length (tf_bytes f)) n"
      then show "holds_at sb fs (PresentFile q sha256 n)" by (auto simp: text_of_file_def)
    qed
  qed
qed

lemma tells_preconditions: "alone sb \<Longrightarrow> tells fs (verifyPreconditions sb ps) (\<lambda>_. \<forall>p \<in> set ps. holds_at sb fs p)"
proof (induction ps)
  case Nil
  then show ?case unfolding verifyPreconditions.simps by (intro tells_return) simp
next
  case (Cons p ps)
  then show ?case unfolding verifyPreconditions.simps
    by (intro tells_bind [OF tells_precondition] tells_weaken [OF Cons.IH]) auto
qed

end
