(* ===== verification/Sandbox_Safety.thy ===== *)
theory Sandbox_Safety
  imports Sandbox_Logic
begin

text \<open>
  What the sandbox promises. A change that is executed while no other process interferes does exactly what was approved,
  or nothing that shows, and its outcome says which; a read returns what the file holds; a listing stays within its bounds.
  The lemmas follow a change from the staged file over the commit to the cleanup.
\<close>

section \<open>Errors of the checks\<close>

named_theorems plain_rules

definition plain_error :: "error \<Rightarrow> bool" where
  "plain_error e \<longleftrightarrow> (\<forall>code b. e \<noteq> MutationError code b)"

definition plain_errors :: "(fs_world, 'a) command \<Rightarrow> bool" where
  "plain_errors m \<longleftrightarrow> (\<forall>w e w'. m w = (throw e, w') \<longrightarrow> plain_error e)"

definition plain_result :: "'a result \<Rightarrow> bool" where
  "plain_result r \<longleftrightarrow> (\<forall>e. r = throw e \<longrightarrow> plain_error e)"

lemma plain_system [plain_rules]: "plain_error (SystemError code)"
  by (simp add: plain_error_def)

lemma plain_class [plain_rules]: "plain_error (fs_error a b)"
  by (simp add: plain_error_def fs_error_def)

lemma plain_named [plain_rules]:
  "plain_error symlink_denied" "plain_error hard_link_denied" "plain_error sensitive_path" "plain_error entry_not_found"
  "plain_error not_regular_file" "plain_error not_directory" "plain_error file_too_large" "plain_error source_changed"
  "plain_error precondition_failed" "plain_error no_write_progress" "plain_error invalid_path" "plain_error path_outside_root"
  "plain_error operation_aborted" "plain_error binary_file" "plain_error (lookup_error e)" "plain_error (open_error e)"
  "plain_error TypeError" "plain_error (unsupported_operation operation)"
  by (simp_all add: plain_error_def fs_error_def symlink_denied_def hard_link_denied_def sensitive_path_def entry_not_found_def
      not_regular_file_def not_directory_def file_too_large_def source_changed_def precondition_failed_def no_write_progress_def
      invalid_path_def path_outside_root_def operation_aborted_def binary_file_def lookup_error_def open_error_def
      unsupported_operation_def)

lemma plain_ok [plain_rules]: "plain_result (ok x)"
  by (simp add: plain_result_def)

lemma plain_throw [plain_rules]: "plain_error e \<Longrightarrow> plain_result (throw e)"
  by (simp add: plain_result_def)

lemma plain_bindR [plain_rules]: "plain_result r \<Longrightarrow> (\<And>x. plain_result (f x)) \<Longrightarrow> plain_result (bindR r f)"
  by (cases r) (auto simp: plain_result_def)

lemma plain_ifR [plain_rules]: "(b \<Longrightarrow> plain_result r) \<Longrightarrow> (\<not> b \<Longrightarrow> plain_result r') \<Longrightarrow> plain_result (if b then r else r')"
  by simp

lemma plain_checks [plain_rules]:
  "plain_result (normalizeRelativePath s limits allowRoot)" "plain_result (resolveContainedPath p s)"
  "plain_result (throwIfAborted aborted)" "plain_result (assertVisible sb path)" "plain_result (assertInsideAllowed sb path)"
  "plain_result (assertMutationPermitted sb)"
  unfolding normalizeRelativePath_def resolveContainedPath_def throwIfAborted_def assertVisible_def assertInsideAllowed_def
    assertMutationPermitted_def Let_def by (intro plain_rules)+

lemma plain_effective [plain_rules]: "plain_result (assertEffectivePath sb v allowRoot)"
  unfolding assertEffectivePath_def by (auto split: option.split json.split intro!: plain_rules)

lemma plain_returnM [plain_rules]: "plain_errors (returnM x)"
  by (simp add: plain_errors_def)

lemma plain_throwM [plain_rules]: "plain_error e \<Longrightarrow> plain_errors (throwM e)"
  by (simp add: plain_errors_def)

lemma plain_liftM [plain_rules]: "plain_result r \<Longrightarrow> plain_errors (liftR r)"
  by (simp add: plain_errors_def plain_result_def)

lemma plain_guardM [plain_rules]: "plain_error e \<Longrightarrow> plain_errors (guardM b e)"
  by (simp add: plain_errors_def)

lemma plain_bindM [plain_rules]: "plain_errors m \<Longrightarrow> (\<And>x. plain_errors (f x)) \<Longrightarrow> plain_errors (bindM m f)"
  unfolding plain_errors_def by (metis bindM_throw)

lemma plain_catchM [plain_rules]:
  "plain_errors m \<Longrightarrow> (\<And>e. plain_error e \<Longrightarrow> plain_errors (h e)) \<Longrightarrow> plain_errors (catchM m h)"
  unfolding plain_errors_def catchM_def by (auto split: prod.splits sum.splits) blast+

lemma plain_finallyM [plain_rules]: "plain_errors m \<Longrightarrow> plain_errors f \<Longrightarrow> plain_errors (finallyM m f)"
  unfolding plain_errors_def finallyM_def by (auto split: prod.splits sum.splits) blast+

lemma plain_syscall [plain_rules]: "plain_errors (syscall sb f)"
  unfolding plain_errors_def by (auto simp: syscall_def Let_def plain_system split: option.splits sum.splits)

lemma plain_ifM [plain_rules]: "(b \<Longrightarrow> plain_errors m) \<Longrightarrow> (\<not> b \<Longrightarrow> plain_errors m') \<Longrightarrow> plain_errors (if b then m else m')"
  by simp

lemma plain_pair [plain_rules]: "(\<And>a b. plain_errors (f a b)) \<Longrightarrow> plain_errors (case x of (a, b) \<Rightarrow> f a b)"
  by (cases x) simp

lemma plain_option [plain_rules]:
  "plain_errors a \<Longrightarrow> (\<And>x. plain_errors (b x)) \<Longrightarrow> plain_errors (case v of None \<Rightarrow> a | Some x \<Rightarrow> b x)"
  by (cases v) auto

lemma plain_calls [plain_rules]:
  "plain_errors (lstatSync sb p)" "plain_errors (realpathSync sb p)" "plain_errors (openSync sb p)" "plain_errors (fstatSync sb h)"
  "plain_errors (readSync sb h n k)" "plain_errors (closeSync sb h)" "plain_errors (fsyncSync sb h)" "plain_errors (openDirectory sb p)"
  "plain_errors (unlinkSync sb p)" "plain_errors (linkSync sb p q)" "plain_errors (renameSync sb p q)" "plain_errors (abort_check sb)"
  "plain_errors (openExclusive sb p mode)" "plain_errors (change_inode sb h g y)" "plain_errors (fchmodSync sb h mode)"
  unfolding lstatSync_def realpathSync_def openSync_def fstatSync_def readSync_def closeSync_def fsyncSync_def openDirectory_def
    unlinkSync_def linkSync_def renameSync_def abort_check_def openExclusive_def change_inode_def fchmodSync_def
  by (intro plain_rules)+

lemma plain_segments [plain_rules]: "plain_errors (inspect_segments sb current st ss)"
proof (induction ss arbitrary: current st)
  case Nil
  show ?case unfolding inspect_segments.simps by (intro plain_rules)
next
  case (Cons s ss)
  show ?case unfolding inspect_segments.simps by (intro plain_rules Cons)
qed

lemma plain_inspect [plain_rules]: "plain_errors (inspect sb path)"
  unfolding inspect_def assertRoot_def by (intro plain_rules)

lemma plain_parent [plain_rules]: "plain_errors (validateParent sb path)" "plain_errors (fsyncParent sb path)"
  unfolding validateParent_def fsyncParent_def by (intro plain_rules)+

lemma plain_chunks [plain_rules]: "plain_errors (read_chunks sb h bytes)"
proof (induction "sb_limit sb MaxFileBytes + 1 - length bytes" arbitrary: bytes rule: less_induct)
  case less
  show ?case
    by (subst read_chunks.simps, unfold Let_def, intro plain_rules, rule less) (simp flip: length_greater_0_conv)
qed

lemma plain_file [plain_rules]: "plain_errors (readTextFile sb path)"
  unfolding readTextFile_def read_opened_def assertOpenedPathStillContained_def by (intro plain_rules)

lemma plain_absent [plain_rules]: "plain_errors (isAbsent sb path)"
  unfolding isAbsent_def by (intro plain_rules) simp_all

lemma plain_precondition [plain_rules]: "plain_errors (verify_precondition sb p)"
  unfolding verify_precondition_def by (cases p) (simp_all only: file_precondition.case, (intro plain_rules)+)

lemma plain_preconditions [plain_rules]: "plain_errors (verifyPreconditions sb ps)"
proof (induction ps)
  case Nil
  show ?case unfolding verifyPreconditions.simps by (intro plain_rules)
next
  case (Cons p ps)
  show ?case unfolding verifyPreconditions.simps by (intro plain_rules Cons)
qed

lemma exec_plain:
  assumes "exec fs m Q E" and "plain_errors m"
  shows "exec fs m Q (\<lambda>e fs'. E e fs' \<and> plain_error e)"
proof (rule execI)
  fix w r w' assume "fw_fs w = fs" "m w = (r, w')"
  with execD [OF assms(1) this(2,1)] assms(2)
  show "case r of Inl e \<Rightarrow> E e (fw_fs w') \<and> plain_error e | Inr x \<Rightarrow> Q x (fw_fs w')"
    by (cases r) (auto simp: plain_errors_def)
qed

section \<open>Changes of the tree\<close>

lemma map_of_other: "map_of (filter (\<lambda>e. fst e \<noteq> p) t) q = (if q = p then None else map_of t q)"
  by (induction t) auto

lemma lookup_set_entry [simp]: "p \<noteq> [] \<Longrightarrow> fs_lookup (set_entry p n fs) q = (if q = p then Some n else fs_lookup fs q)"
  by (auto simp: fs_lookup_def set_entry_def map_of_other)

lemma lookup_remove_entry [simp]: "p \<noteq> [] \<Longrightarrow> fs_lookup (remove_entry p fs) q = (if q = p then None else fs_lookup fs q)"
  by (auto simp: fs_lookup_def remove_entry_def map_of_other)

lemma lookup_set_inode [simp]: "fs_lookup (set_inode i nd fs) q = fs_lookup fs q"
  by (simp add: fs_lookup_def set_inode_def)

lemma inode_simps [simp]:
  "fs_inode (set_entry p n fs) = fs_inode fs" "fs_inode (remove_entry p fs) = fs_inode fs"
  by (simp_all add: fun_eq_iff fs_inode_def set_entry_def remove_entry_def)

lemma inode_set_inode [simp]: "fs_inode (set_inode i nd fs) j = (if j = i then nd else fs_inode fs j)"
  by (simp add: fs_inode_def set_inode_def map_of_other)

lemma set_inode_twice: "set_inode i nd' (set_inode i nd fs) = set_inode i nd' fs"
  by (simp add: set_inode_def)

lemma fresh_unused: "fs_lookup fs p = Some (FileNode j) \<Longrightarrow> j \<noteq> fresh_ino fs"
proof -
  assume "fs_lookup fs p = Some (FileNode j)"
  then have "(p, FileNode j) \<in> set (fs_tree fs)" by (auto simp: fs_lookup_def map_of_SomeD split: if_splits)
  then have "j \<in> set (map (\<lambda>(p, n). node_ino n) (fs_tree fs) @ map fst (fs_inodes fs))" by force
  moreover have "x \<in> set xs \<Longrightarrow> x \<le> foldr max xs 0" for x :: nat and xs by (induction xs) auto
  ultimately show ?thesis unfolding fresh_ino_def by (metis Suc_n_not_le_n)
qed

text \<open>What the sandbox shows of the file system: every entry outside the staging names, with the contents and mode of its file.\<close>

definition node_view :: "filesys \<Rightarrow> fs_node \<Rightarrow> fs_node \<times> inode option" where
  "node_view fs n = (n, case n of FileNode i \<Rightarrow> Some (fs_inode fs i) | _ \<Rightarrow> None)"

definition view :: "filesys \<Rightarrow> string list \<Rightarrow> (fs_node \<times> inode option) option" where
  "view fs p = (if staged p then None else map_option (node_view fs) (fs_lookup fs p))"

definition with_temp :: "filesys \<Rightarrow> string list \<Rightarrow> inode \<Rightarrow> filesys" where
  "with_temp fs temp nd = set_inode (fresh_ino fs) nd (set_entry temp (FileNode (fresh_ino fs)) fs)"

lemma node_view_simps [simp]:
  "node_view (set_entry p n fs) = node_view fs" "node_view (remove_entry p fs) = node_view fs"
  "\<forall>j. n \<noteq> FileNode j \<Longrightarrow> node_view fs n = (n, None)" "node_view fs (FileNode i) = (FileNode i, Some (fs_inode fs i))"
  by (simp_all add: node_view_def fun_eq_iff split: fs_node.split)

lemma node_view_set_inode: "(\<And>j. n = FileNode j \<Longrightarrow> j \<noteq> i) \<Longrightarrow> node_view (set_inode i nd fs) n = node_view fs n"
  by (simp add: node_view_def split: fs_node.split)

lemma view_remove_staged: "staged p \<Longrightarrow> view (remove_entry p fs) = view fs"
  by (rule ext) (auto simp: view_def staged_def)

lemma view_with_temp: "staged temp \<Longrightarrow> view (with_temp fs temp nd) = view fs"
proof
  fix p assume temp: "staged temp"
  then have "temp \<noteq> []" by (simp add: staged_def)
  then show "view (with_temp fs temp nd) p = view fs p"
    using temp fresh_unused [of fs p] by (cases "fs_lookup fs p") (auto simp: view_def with_temp_def node_view_set_inode)
qed

text \<open>A new directory entry and a removed one, as the sandbox shows them.\<close>

lemma view_add:
  assumes "\<not> staged t" and "t \<noteq> []"
  shows "view (set_entry t n fs) = (view fs)(t \<mapsto> node_view fs n)"
  using assms by (auto simp: view_def fun_eq_iff)

lemma view_drop:
  assumes "t \<noteq> []"
  shows "view (remove_entry t fs) = (view fs)(t := None)"
  using assms by (auto simp: view_def fun_eq_iff)

section \<open>Calls that change the tree\<close>

lemma direct_changed:
  assumes "direct fs p" and "\<And>q i. fs_lookup fs q = Some (DirNode i) \<Longrightarrow> \<exists>j. fs_lookup fs' q = Some (DirNode j)"
  shows "direct fs' p"
  using assms unfolding direct_def by blast

lemma directory_changed:
  assumes "directory_at fs p" and "\<And>q i. fs_lookup fs q = Some (DirNode i) \<Longrightarrow> \<exists>j. fs_lookup fs' q = Some (DirNode j)"
  shows "directory_at fs' p"
proof -
  have p: "direct fs p" "\<exists>i. fs_lookup fs p = Some (DirNode i)" using assms(1) by (simp_all add: directory_at_def)
  have "direct fs' p" by (rule direct_changed [where fs = fs]) (use p(1) assms(2) in blast)+
  then show ?thesis using p(2) assms(2) unfolding directory_at_def by blast
qed

lemma place_new: "p \<noteq> [] \<Longrightarrow> directory_at fs (butlast p) \<Longrightarrow> new_place fs p = Inr p"
  using direct_walk [of fs "[]" "butlast p" True] by (auto simp: new_place_def entry_at_def directory_at_def)

lemma exec_unlink:
  assumes "alone sb" and "direct fs p"
  shows "exec fs (unlinkSync sb p) (\<lambda>_ fs'. fs' = remove_entry p fs \<and> (\<forall>i. fs_lookup fs p \<noteq> Some (DirNode i))) (\<lambda>e fs'. fs' = fs)"
  unfolding unlinkSync_def
  by (rule exec_syscall [OF assms(1)]) (auto simp: lookup_place [OF assms(2)] split: option.splits fs_node.splits)

lemma exec_link:
  assumes "alone sb" and "regular_at fs p i" and "q \<noteq> []" and "directory_at fs (butlast q)"
  shows "exec fs (linkSync sb p q) (\<lambda>_ fs'. fs' = set_entry q (FileNode i) fs \<and> fs_lookup fs q = None) (\<lambda>e fs'. fs' = fs)"
  unfolding linkSync_def
  by (rule exec_syscall [OF assms(1)])
    (use assms(2) in \<open>auto simp: lookup_place regular_at_def place_new [OF assms(3,4)] split: option.splits if_splits\<close>)

lemma exec_rename:
  assumes "alone sb" and "regular_at fs p i" and "q \<noteq> []" and "directory_at fs (butlast q)" and "fs_lookup fs q \<noteq> Some (FileNode i)"
  shows "exec fs (renameSync sb p q)
    (\<lambda>_ fs'. fs' = set_entry q (FileNode i) (remove_entry p fs) \<and> (\<forall>i. fs_lookup fs q \<noteq> Some (DirNode i))) (\<lambda>e fs'. fs' = fs)"
  unfolding renameSync_def
  by (rule exec_syscall [OF assms(1)])
    (use assms(2,5) in \<open>auto simp: lookup_place regular_at_def place_new [OF assms(3,4)] split: option.splits if_splits fs_node.splits\<close>)

text \<open>Cleaning up a staging name shows nowhere.\<close>

lemma directory_removed: "directory_at fs p \<Longrightarrow> (\<forall>i. fs_lookup fs q \<noteq> Some (DirNode i)) \<Longrightarrow> q \<noteq> [] \<Longrightarrow> directory_at (remove_entry q fs) p"
  by (erule directory_changed) auto

lemma exec_cleanup:
  assumes "alone sb" and "staged temp" and "directory_at fs (butlast temp)"
  shows "exec fs (best_effort (unlinkSync sb temp)) (\<lambda>_ fs'. view fs' = view fs) E"
proof (rule execI)
  fix w r w' assume w: "fw_fs w = fs" "best_effort (unlinkSync sb temp) w = (r, w')"
  obtain v u where m: "unlinkSync sb temp w = (v, u)" by fastforce
  have "temp \<noteq> []" using assms(2) by (simp add: staged_def)
  from execD [OF exec_unlink [OF assms(1) directory_place [OF this assms(3)]] m w(1)]
  show "case r of Inl e \<Rightarrow> E e (fw_fs w') | Inr x \<Rightarrow> view (fw_fs w') = view fs"
    using w(2) m assms(2) by (cases v) (auto simp: best_effort_def view_remove_staged)
qed

section \<open>The staged file\<close>

text \<open>\<open>randomUUID\<close> yields hexadecimal digits and hyphens.\<close>

definition uuid_chars :: string where
  "uuid_chars = ''0123456789abcdef-''"

definition uuids :: "sandbox \<Rightarrow> bool" where
  "uuids sb \<longleftrightarrow> (\<forall>n. sb_uuid sb n \<noteq> [] \<and> set (sb_uuid sb n) \<subseteq> set uuid_chars)"

definition harmless :: "char \<Rightarrow> bool" where
  "harmless c \<longleftrightarrow> c \<noteq> slash \<and> c \<noteq> CHR 0x5C \<and> c \<noteq> CHR '':'' \<and> \<not> unsafe_control c"

lemma harmless_plain:
  assumes "list_all harmless s" and "2 < length s"
  shows "plain_segment s"
proof -
  have "s \<noteq> t" if "length t \<le> 2" for t using that assms(2) by (metis not_less)
  from this [of "[]"] this [of "''.''"] this [of "''..''"] have "s \<noteq> [] \<and> s \<noteq> ''.'' \<and> s \<noteq> ''..''" by simp
  moreover have "set s \<inter> {slash, CHR 0x5C, CHR '':''} = {}" "\<not> list_ex unsafe_control s"
    using assms(1) by (auto simp: list_all_iff list_ex_iff harmless_def)
  ultimately show ?thesis by (simp add: plain_segment_def)
qed

lemma staging_name:
  assumes "uuids sb"
  shows "plain_segment (staging_stem @ sb_uuid sb n)"
proof (rule harmless_plain)
  have "list_all harmless staging_stem" "list_all harmless uuid_chars" by code_simp+
  then show "list_all harmless (staging_stem @ sb_uuid sb n)" using assms by (auto simp: list_all_iff uuids_def)
  show "2 < length (staging_stem @ sb_uuid sb n)" by (simp add: staging_stem_def)
qed

definition temp_name :: "string list \<Rightarrow> string list \<Rightarrow> bool" where
  "temp_name parent temp \<longleftrightarrow> staged temp \<and> butlast temp = parent"

definition empty_inode :: "nat \<Rightarrow> inode" where
  "empty_inode mode = \<lparr>nd_bytes = [], nd_mode = mode, nd_mtime = 0\<rparr>"

lemma exec_exclusive:
  assumes "alone sb" and "p \<noteq> []" and "directory_at fs (butlast p)"
  shows "exec fs (openExclusive sb p mode)
    (\<lambda>h fs'. fs_lookup fs p = None \<and> h = FileNode (fresh_ino fs) \<and> fs' = with_temp fs p (empty_inode mode)) (\<lambda>e fs'. fs' = fs)"
  unfolding openExclusive_def
  by (rule exec_syscall [OF assms(1)])
    (auto simp: place_new [OF assms(2,3)] with_temp_def empty_inode_def Let_def split: if_splits)

lemma exec_open_staged:
  assumes "alone sb" and "uuids sb" and "directory_at fs parent"
  shows "exec fs (open_staged sb parent k)
    (\<lambda>(temp, opened) fs'. temp_name parent temp \<and> (case opened of Inl e \<Rightarrow> fs' = fs \<and> plain_error e
       | Inr h \<Rightarrow> fs_lookup fs temp = None \<and> h = FileNode (fresh_ino fs) \<and> fs' = with_temp fs temp (empty_inode 384)))
    (\<lambda>e fs'. fs' = fs \<and> plain_error e)"
proof (induction k)
  case 0
  show ?case unfolding open_staged.simps by (intro exec_throw) (simp add: plain_rules)
next
  case (Suc k)
  show ?case
    unfolding open_staged.simps resolve_segment [OF staging_name [OF assms(2)]]
  proof (rule exec_calls [where g = "\<lambda>v. bindM (liftR (ok (parent @ [staging_stem @ sb_uuid sb (fw_calls v)]))) (\<lambda>temp.
     bindM (tryM (openExclusive sb temp 384)) (\<lambda>opened. case opened of
       Inr h \<Rightarrow> returnM (temp, Inr h)
     | Inl e \<Rightarrow> if errorCode e \<noteq> Some ''EEXIST'' \<or> k = 0 then returnM (temp, Inl e) else open_staged sb parent k))"], rule exec_lift_bind)
    fix v temp assume "ok (parent @ [staging_stem @ sb_uuid sb (fw_calls v)]) = (ok temp :: string list result)"
    then have temp: "temp = parent @ [staging_stem @ sb_uuid sb (fw_calls v)]" by simp
    have name: "temp_name parent temp" by (simp add: temp temp_name_def staged_def startsWith_def)
    have ne: "temp \<noteq> []" and dir: "directory_at fs (butlast temp)" using assms(3) by (simp_all add: temp)
    show "exec fs (bindM (tryM (openExclusive sb temp 384)) (\<lambda>opened. case opened of
       Inr h \<Rightarrow> returnM (temp, Inr h)
     | Inl e \<Rightarrow> if errorCode e \<noteq> Some ''EEXIST'' \<or> k = 0 then returnM (temp, Inl e) else open_staged sb parent k))
     (\<lambda>(temp, opened) fs'. temp_name parent temp \<and> (case opened of Inl e \<Rightarrow> fs' = fs \<and> plain_error e
       | Inr h \<Rightarrow> fs_lookup fs temp = None \<and> h = FileNode (fresh_ino fs) \<and> fs' = with_temp fs temp (empty_inode 384)))
    (\<lambda>e fs'. fs' = fs \<and> plain_error e)"
      by (rule exec_try_bind [OF exec_plain [OF exec_exclusive [OF assms(1) ne dir]]])
        (auto simp: plain_rules name intro!: exec_return Suc)
  qed (simp_all add: plain_rules)
qed

section \<open>Writing the staged file\<close>

lemma with_temp_inode [simp]: "fs_inode (with_temp fs temp nd) (fresh_ino fs) = nd"
  by (simp add: with_temp_def)

lemma with_temp_again: "set_inode (fresh_ino fs) nd' (with_temp fs temp nd) = with_temp fs temp nd'"
  by (simp add: with_temp_def set_inode_twice)

lemma exec_change:
  assumes "alone sb"
  shows "exec (with_temp fs temp nd) (change_inode sb (FileNode (fresh_ino fs)) g x)
    (\<lambda>y fs'. y = x \<and> fs' = with_temp fs temp (g nd)) (\<lambda>e fs'. fs' = with_temp fs temp nd \<and> plain_error e)"
  unfolding change_inode_def by (rule exec_syscall [OF assms]) (auto simp: with_temp_again plain_rules)

lemma exec_writeSync:
  assumes "alone sb"
  shows "exec (with_temp fs temp nd) (writeSync sb (FileNode (fresh_ino fs)) bytes)
    (\<lambda>n fs'. fs' = with_temp fs temp (nd\<lparr>nd_bytes := nd_bytes nd @ take n bytes\<rparr>)) (\<lambda>e fs'. fs' = with_temp fs temp nd \<and> plain_error e)"
  unfolding writeSync_def Let_def
  by (rule exec_calls [where g = "\<lambda>v. change_inode sb (FileNode (fresh_ino fs))
        (\<lambda>nd. nd\<lparr>nd_bytes := nd_bytes nd @ take (min (sb_accepted sb (fw_calls v)) (length bytes)) bytes\<rparr>)
        (min (sb_accepted sb (fw_calls v)) (length bytes))"],
      rule exec_weaken [OF exec_change [OF assms]]) auto

lemma exec_write_all:
  assumes "alone sb"
  shows "exec (with_temp fs temp nd) (write_all sb (FileNode (fresh_ino fs)) bytes)
    (\<lambda>_ fs'. fs' = with_temp fs temp (nd\<lparr>nd_bytes := nd_bytes nd @ bytes\<rparr>))
    (\<lambda>e fs'. (\<exists>nd'. fs' = with_temp fs temp nd') \<and> plain_error e)"
proof (induction "length bytes" arbitrary: bytes nd rule: less_induct)
  case less
  show ?case
  proof (cases "bytes = []")
    case True
    then show ?thesis by (subst write_all.simps) (simp only: refl if_True append_Nil2, rule exec_return, cases nd, simp)
  next
    case False
    show ?thesis
      unfolding abort_check_def
    proof (subst write_all.simps, unfold if_not_P [OF False] abort_check_def, intro exec_lift_bind exec_bind [OF exec_writeSync [OF assms, THEN exec_weaken]])
      fix n fs' assume fs': "fs' = with_temp fs temp (nd\<lparr>nd_bytes := nd_bytes nd @ take n bytes\<rparr>)"
      show "exec fs' (if n = 0 then throwM no_write_progress else write_all sb (FileNode (fresh_ino fs)) (drop n bytes))
        (\<lambda>_ fs'. fs' = with_temp fs temp (nd\<lparr>nd_bytes := nd_bytes nd @ bytes\<rparr>))
        (\<lambda>e fs'. (\<exists>nd'. fs' = with_temp fs temp nd') \<and> plain_error e)"
      proof (cases "n = 0")
        case True
        then show ?thesis using fs' by (auto intro!: exec_throw simp: plain_rules)
      next
        case nz: False
        then have "length (drop n bytes) < length bytes" using False by simp
        from less [OF this, of "nd\<lparr>nd_bytes := nd_bytes nd @ take n bytes\<rparr>"] show ?thesis using nz fs' by simp
      qed
    next
      fix e assume "throwIfAborted (sb_aborted sb) = throw e"
      then show "(\<exists>nd'. with_temp fs temp nd = with_temp fs temp nd') \<and> plain_error e"
        using plain_checks(3) by (auto simp: plain_result_def)
    qed auto
  qed
qed

definition staged_inode :: "string \<Rightarrow> nat \<Rightarrow> inode" where
  "staged_inode bytes mode = \<lparr>nd_bytes = bytes, nd_mode = mode mod 512, nd_mtime = 0\<rparr>"

lemma exec_look_plain: "tells fs m F \<Longrightarrow> plain_errors m \<Longrightarrow> exec fs m (\<lambda>x fs'. fs' = fs \<and> F x) (\<lambda>e fs'. fs' = fs \<and> plain_error e)"
  unfolding tells_def by (rule exec_plain)

lemma tells_fsync: "alone sb \<Longrightarrow> tells fs (fsyncSync sb h) (\<lambda>_. True)"
  unfolding fsyncSync_def by (rule tells_look) auto

lemma exec_step:
  assumes "exec fs m R E'" and "\<And>e fs'. E' e fs' \<Longrightarrow> E e fs'" and "\<And>x fs'. R x fs' \<Longrightarrow> exec fs' (f x) Q E"
  shows "exec fs (bindM m f) Q E"
  by (rule exec_bind [where R = R]) (rule exec_weaken [OF assms(1)], use assms(2,3) in auto)

lemmas exec_look_step = exec_step [OF exec_look_plain]

lemma exec_fill:
  assumes "alone sb"
  shows "exec (with_temp fs temp (empty_inode m)) (fill_staged sb (FileNode (fresh_ino fs)) bytes mode)
    (\<lambda>_ fs'. fs' = with_temp fs temp (staged_inode bytes mode)) (\<lambda>e fs'. (\<exists>nd'. fs' = with_temp fs temp nd') \<and> plain_error e)"
  unfolding fill_staged_def fchmodSync_def
proof (rule exec_step [OF exec_write_all [OF assms]], assumption, rule exec_step)
  fix u fs' assume "fs' = with_temp fs temp (empty_inode m\<lparr>nd_bytes := nd_bytes (empty_inode m) @ bytes\<rparr>)"
  then show "exec fs' (change_inode sb (FileNode (fresh_ino fs)) (\<lambda>nd. nd\<lparr>nd_mode := mode mod 512\<rparr>) ())
      (\<lambda>y fs'. fs' = with_temp fs temp (staged_inode bytes mode)) (\<lambda>e fs'. (\<exists>nd'. fs' = with_temp fs temp nd') \<and> plain_error e)"
    by (auto simp: staged_inode_def empty_inode_def intro: exec_weaken [OF exec_change [OF assms]])
next
  fix u fs' assume fs': "fs' = with_temp fs temp (staged_inode bytes mode)"
  show "exec fs' (bindM (fsyncSync sb (FileNode (fresh_ino fs))) (\<lambda>_. closeSync sb (FileNode (fresh_ino fs))))
      (\<lambda>_ fs'. fs' = with_temp fs temp (staged_inode bytes mode)) (\<lambda>e fs'. (\<exists>nd'. fs' = with_temp fs temp nd') \<and> plain_error e)"
    by (rule exec_weaken [OF exec_look_plain [OF tells_bind [OF tells_fsync [OF assms] tells_close [OF assms]]]])
      (use fs' in \<open>auto intro: plain_rules\<close>)
qed

section \<open>Commit and cleanup\<close>

text \<open>An error reports that the change was made exactly when it was.\<close>

definition reported :: "(string list \<Rightarrow> (fs_node \<times> inode option) option) \<Rightarrow> (string list \<Rightarrow> (fs_node \<times> inode option) option) \<Rightarrow>
    error \<Rightarrow> filesys \<Rightarrow> bool" where
  "reported before after e fs \<longleftrightarrow> view fs = (if \<exists>code. e = MutationError code True then after else before)"

lemma mutationError_plain: "plain_error e \<Longrightarrow> \<exists>code. mutationError e c = MutationError code c"
  by (cases e) (auto simp: mutationError_def plain_error_def)

lemma reported_plain: "plain_error e \<Longrightarrow> reported before after e fs \<longleftrightarrow> view fs = before"
  by (auto simp: reported_def plain_error_def)

lemma reported_mutation: "plain_error e \<Longrightarrow> reported before after (mutationError e c) fs \<longleftrightarrow> view fs = (if c then after else before)"
  using mutationError_plain [of e c] by (auto simp: reported_def)

lemma exec_fail:
  assumes "alone sb" and "staged temp" and "directory_at fs (butlast temp)" and "plain_error e" and "view fs = (if c then after else before)"
  shows "exec fs (abandon sb temp e c) Q (reported before after)"
  unfolding abandon_def
  by (rule exec_bind [OF exec_cleanup [OF assms(1-3)]], rule exec_throw) (simp add: reported_mutation [OF assms(4)] assms(5))

lemma with_temp_directory:
  assumes "directory_at fs p" and "temp \<noteq> []" and "fs_lookup fs temp = None"
  shows "directory_at (with_temp fs temp nd) p"
  by (rule directory_changed [OF assms(1)]) (use assms(2,3) in \<open>auto simp: with_temp_def\<close>)

lemma exec_run_staged:
  assumes sb: "alone sb" and temp: "staged temp" "fs_lookup fs temp = None" "directory_at fs (butlast temp)"
    and commit: "exec (with_temp fs temp (staged_inode bytes mode)) commit
        (\<lambda>_ fs'. view fs' = after \<and> directory_at fs' (butlast temp)) (\<lambda>e fs'. fs' = with_temp fs temp (staged_inode bytes mode) \<and> plain_error e)"
    and conclude: "\<And>fs'. view fs' = after \<Longrightarrow> directory_at fs' (butlast temp) \<Longrightarrow>
      exec fs' conclude (\<lambda>x fs''. view fs'' = after \<and> directory_at fs'' (butlast temp))
        (\<lambda>e fs''. view fs'' = after \<and> directory_at fs'' (butlast temp) \<and> plain_error e)"
  shows "exec (with_temp fs temp (empty_inode 384)) (run_staged sb bytes mode commit conclude temp (FileNode (fresh_ino fs)))
     (\<lambda>x fs'. view fs' = after) (reported (view fs) after)"
proof -
  have ne: "temp \<noteq> []" using temp(1) by (simp add: staged_def)
  have dir: "directory_at (with_temp fs temp nd) (butlast temp)" for nd by (rule with_temp_directory [OF temp(3) ne temp(2)])
  have before: "view (with_temp fs temp nd) = view fs" for nd by (rule view_with_temp [OF temp(1)])
  note fail = exec_fail [OF sb temp(1)]
  have closing: "exec fs' (bindM (closeSync sb (FileNode (fresh_ino fs))) (\<lambda>_. abandon sb temp e False)) Q (reported (view fs) after)"
    if "(\<exists>nd'. fs' = with_temp fs temp nd') \<and> plain_error e" for e fs' and Q :: "'a \<Rightarrow> filesys \<Rightarrow> bool"
    by (rule exec_look_step [OF tells_close [OF sb] plain_calls(6)])
      (use that in \<open>auto simp: before dir reported_plain intro!: fail\<close>)
  have finishing: "exec fs' (bindM (tryM conclude) (\<lambda>finished. case finished of
       Inl e \<Rightarrow> abandon sb temp e True | Inr r \<Rightarrow> bindM (best_effort (unlinkSync sb temp)) (\<lambda>_. returnM r)))
     (\<lambda>x fs'. view fs' = after) (reported (view fs) after)"
    if "view fs' = after \<and> directory_at fs' (butlast temp)" for fs'
    by (rule exec_try_bind [OF conclude])
      (use that in \<open>auto intro!: fail exec_bind [OF exec_cleanup [OF sb temp(1)]] exec_return\<close>)
  show ?thesis
    unfolding run_staged_def
  proof (rule exec_try_bind [OF exec_fill [OF sb]], unfold sum.case)
    fix u fs' assume fs': "fs' = with_temp fs temp (staged_inode bytes mode)"
    show "exec fs' (bindM (tryM commit) (\<lambda>committed. case committed of
         Inl e \<Rightarrow> abandon sb temp e False
       | Inr _ \<Rightarrow> bindM (tryM conclude) (\<lambda>finished. case finished of
           Inl e \<Rightarrow> abandon sb temp e True | Inr r \<Rightarrow> bindM (best_effort (unlinkSync sb temp)) (\<lambda>_. returnM r))))
     (\<lambda>x fs'. view fs' = after) (reported (view fs) after)"
      unfolding fs' by (rule exec_try_bind [OF commit]) (auto simp: dir before intro!: fail finishing)
  qed (rule closing)
qed

lemma temp_place: "temp_name parent temp \<Longrightarrow> staged temp \<and> temp \<noteq> [] \<and> butlast temp = parent"
  by (auto simp: temp_name_def staged_def)

lemma exec_withStaged:
  assumes sb: "alone sb" "uuids sb" and path: "plain_path path" "path \<noteq> []"
  defines "parent \<equiv> butlast (sb_path sb path)"
  assumes commit: "\<And>temp. temp_name parent temp \<Longrightarrow> fs_lookup fs temp = None \<Longrightarrow> directory_at fs parent \<Longrightarrow>
      exec (with_temp fs temp (staged_inode bytes mode)) (commit temp (sb_path sb path))
        (\<lambda>_ fs'. view fs' = after \<and> directory_at fs' parent) (\<lambda>e fs'. fs' = with_temp fs temp (staged_inode bytes mode) \<and> plain_error e)"
    and conclude: "\<And>temp fs'. temp_name parent temp \<Longrightarrow> view fs' = after \<Longrightarrow> directory_at fs' parent \<Longrightarrow>
      exec fs' (conclude temp) (\<lambda>x fs''. view fs'' = after \<and> directory_at fs'' parent)
        (\<lambda>e fs''. view fs'' = after \<and> directory_at fs'' parent \<and> plain_error e)"
  shows "exec fs (withStagedFile sb path bytes mode commit conclude) (\<lambda>x fs'. view fs' = after) (reported (view fs) after)"
  unfolding withStagedFile_def resolve_sb [OF path(1)]
proof (rule exec_look_step [OF tells_parent [OF sb(1) path] plain_parent(1)], simp add: reported_plain, elim conjE,
    rule exec_look_step [OF tells_inspect [OF sb(1) parent_segments(2) [OF path]] plain_inspect], simp add: reported_plain, elim conjE)
  fix fs1 fs2 and x :: "string list \<times> stats"
  assume fs1: "fs1 = fs" and dir: "directory_at fs (butlast (sb_path sb path))" and fs2: "fs2 = fs1"
    and x: "case x of (absolute, st) \<Rightarrow> absolute = sb_path sb (parentPath path) \<and> found_at fs1 absolute st
      \<and> \<not> isSensitiveFilesystemPath (parentPath path) (denied_prefixes sb)"
  obtain p st where p: "x = (p, st)" "p = parent" using x parent_place(2) [OF path] by (cases x) (auto simp: parent_def)
  have dir: "directory_at fs parent" using dir by (simp add: parent_def)
  have run: "exec fs' (case opened of Inl e \<Rightarrow> abandon sb temp e False
       | Inr h \<Rightarrow> run_staged sb bytes mode (commit temp (sb_path sb path)) (conclude temp) temp h)
     (\<lambda>x fs'. view fs' = after) (reported (view fs) after)"
    if "temp_name parent temp \<and> (case opened of Inl e \<Rightarrow> fs' = fs \<and> plain_error e
       | Inr h \<Rightarrow> fs_lookup fs temp = None \<and> h = FileNode (fresh_ino fs) \<and> fs' = with_temp fs temp (empty_inode 384))"
    for temp opened fs'
    using that temp_place [of parent temp] dir commit [of temp] conclude [of temp]
    by (cases opened) (auto intro!: exec_fail [OF sb(1)] exec_run_staged [OF sb(1)])
  show "exec fs2 (case x of (parent, st) \<Rightarrow> bindM (guardM (st_kind st = KindDirectory) not_directory) (\<lambda>_.
     bindM (liftR (ok (sb_path sb path))) (\<lambda>target.
     bindM (catchM (open_staged sb parent 3) (\<lambda>e. throwM (mutationError e False))) (\<lambda>(temp, opened).
     case opened of Inl e \<Rightarrow> abandon sb temp e False
     | Inr h \<Rightarrow> run_staged sb bytes mode (commit temp target) (conclude temp) temp h))))
     (\<lambda>x fs'. view fs' = after) (reported (view fs) after)"
    unfolding fs2 fs1 p prod.case
    by (intro exec_guard_bind exec_lift_bind exec_bind [OF exec_catch [OF exec_open_staged [OF sb dir]]] exec_throw)
      (auto simp: reported_plain reported_mutation plain_rules intro: run)
qed

section \<open>The changes\<close>

definition new_file :: "filesys \<Rightarrow> string \<Rightarrow> nat \<Rightarrow> fs_node \<times> inode option" where
  "new_file fs bytes mode = (FileNode (fresh_ino fs), Some (staged_inode bytes mode))"

lemma exec_fsyncParent:
  assumes "alone sb" and "plain_path path" and "path \<noteq> []"
  shows "tells fs (fsyncParent sb path) (\<lambda>_. True)"
proof -
  have open_dir: "tells fs (openDirectory sb p) (\<lambda>_. True)" for p
    unfolding openDirectory_def by (rule tells_look [OF assms(1)]) simp
  show ?thesis unfolding fsyncParent_def
    by (intro tells_bind [OF tells_inspect [OF assms(1) parent_segments(2) [OF assms(2,3)]]] tells_pair tells_bind [OF open_dir]
        tells_finally [OF tells_fsync [OF assms(1)] tells_close [OF assms(1)]])
qed

lemma exec_effective:
  assumes "\<And>p. v = Some (JStr p) \<Longrightarrow> plain_path p \<Longrightarrow> p \<noteq> [] \<Longrightarrow> exec fs (f p) Q E" and "\<And>e. plain_error e \<Longrightarrow> E e fs"
  shows "exec fs (bindM (liftR (assertEffectivePath sb v False)) f) Q E"
proof (rule exec_lift_bind)
  fix e assume "assertEffectivePath sb v False = throw e"
  then show "E e fs" using plain_effective [of sb v False] assms(2) by (simp add: plain_result_def)
next
  fix p assume p: "assertEffectivePath sb v False = ok p"
  from effective_path [OF p] show "exec fs (f p) Q E" by (intro assms(1)) auto
qed

lemma exec_check:
  assumes "plain_result r" and "\<And>u. exec fs (f u) Q E" and "\<And>e. plain_error e \<Longrightarrow> E e fs"
  shows "exec fs (bindM (liftR r) f) Q E"
  by (rule exec_lift_bind) (use assms in \<open>auto simp: plain_result_def\<close>)

lemma exec_content:
  assumes "\<And>c. arguments ''content'' = Some (JStr c) \<Longrightarrow> exec fs (f c) Q E" and "\<And>e. plain_error e \<Longrightarrow> E e fs"
  shows "exec fs (bindM (liftR (content_of arguments)) f) Q E"
  by (rule exec_lift_bind) (use assms in \<open>auto simp: content_of_def plain_rules split: option.splits json.splits\<close>)

lemma plain_inline [plain_rules]: "plain_result (assertInlineContent sb content)"
  unfolding assertInlineContent_def by (intro plain_rules)

lemma exec_commit:
  assumes "alone sb" and "\<And>fs'. (\<forall>p \<in> set ps. holds_at sb fs p) \<Longrightarrow> exec fs m Q E"
    and "\<And>e. plain_error e \<Longrightarrow> E e fs"
  shows "exec fs (bindM (verifyPreconditions sb ps) (\<lambda>_. m)) Q E"
  by (rule exec_look_step [OF tells_preconditions [OF assms(1)] plain_preconditions]) (use assms(2,3) in auto)

lemma exec_plain_call:
  assumes "exec fs m Q E" and "plain_errors m" and "\<And>x fs'. Q x fs' \<Longrightarrow> Q' x fs'" and "\<And>e fs'. E e fs' \<Longrightarrow> plain_error e \<Longrightarrow> E' e fs'"
  shows "exec fs m Q' E'"
  by (rule exec_weaken [OF exec_plain [OF assms(1,2)]]) (use assms(3,4) in auto)

lemma create_commit:
  assumes sb: "alone sb" and path: "plain_path path" "path \<noteq> []" and temp: "temp_name parent temp" "fs_lookup fs temp = None"
    "directory_at fs parent" and parent: "parent = butlast (sb_path sb path)"
  shows "exec (with_temp fs temp nd) (bindM (verifyPreconditions sb [AbsentFile path]) (\<lambda>_. linkSync sb temp (sb_path sb path)))
    (\<lambda>_ fs'. view fs' = (view fs)(sb_path sb path \<mapsto> (FileNode (fresh_ino fs), Some nd)) \<and> directory_at fs' parent)
    (\<lambda>e fs'. fs' = with_temp fs temp nd \<and> plain_error e)"
proof (rule exec_commit [OF sb])
  let ?F = "with_temp fs temp nd" and ?t = "sb_path sb path"
  assume "\<forall>p \<in> set [AbsentFile path]. holds_at sb ?F p"
  then have free: "free_at ?F ?t" and "\<not> isSensitiveFilesystemPath path (denied_prefixes sb)" by simp_all
  then have unstaged: "\<not> staged ?t" using path by (intro visible_unstaged)
  note place = temp_place [OF temp(1)]
  have ne: "temp \<noteq> []" and st: "staged temp" and bl: "butlast temp = parent" using place by auto
  have dir: "directory_at ?F parent" by (rule with_temp_directory [OF temp(3) ne temp(2)])
  have source: "regular_at ?F temp (fresh_ino fs)"
    using directory_place [of temp ?F] dir ne bl by (simp add: regular_at_def with_temp_def)
  show "exec ?F (linkSync sb temp ?t) (\<lambda>_ fs'. view fs' = (view fs)(?t \<mapsto> (FileNode (fresh_ino fs), Some nd)) \<and> directory_at fs' parent)
    (\<lambda>e fs'. fs' = ?F \<and> plain_error e)"
  proof (rule exec_plain_call [OF exec_link [OF sb source]])
    show "?t \<noteq> []" "directory_at ?F (butlast ?t)" using free by (simp_all add: free_at_def)
    fix x fs' assume *: "fs' = set_entry ?t (FileNode (fresh_ino fs)) ?F \<and> fs_lookup ?F ?t = None"
    then have "directory_at fs' parent" using \<open>?t \<noteq> []\<close> by (intro directory_changed [OF dir]) auto
    then show "view fs' = (view fs)(?t \<mapsto> (FileNode (fresh_ino fs), Some nd)) \<and> directory_at fs' parent"
      using * view_add [OF unstaged \<open>?t \<noteq> []\<close>] view_with_temp [OF st] by simp
  qed (simp_all add: plain_calls)
qed (simp_all)

definition text_arg :: "(string \<Rightarrow> json option) \<Rightarrow> string \<Rightarrow> string" where
  "text_arg arguments field = (case arguments field of Some (JStr s) \<Rightarrow> s | _ \<Rightarrow> [])"

lemma exec_executeCreate:
  assumes sb: "alone sb" "uuids sb"
    and args: "arguments ''path'' = Some (JStr path)"
  defines "content \<equiv> text_arg arguments ''content''"
  shows "exec fs (executeCreate sb arguments [AbsentFile path])
    (\<lambda>_ fs'. view fs' = (view fs)(sb_path sb path \<mapsto> new_file fs (utf8_encode content) 384))
    (reported (view fs) ((view fs)(sb_path sb path \<mapsto> new_file fs (utf8_encode content) 384)))"
proof -
  let ?t = "sb_path sb path" and ?b = "utf8_encode content"
  let ?after = "(view fs)(?t \<mapsto> new_file fs ?b 384)"
  have "exec fs (withStagedFile sb path ?b 384
       (\<lambda>temp target. bindM (verifyPreconditions sb [AbsentFile path]) (\<lambda>_. linkSync sb temp target))
       (\<lambda>temp. bindM (unlinkSync sb temp) (\<lambda>_. bindM (fsyncParent sb path) (\<lambda>_.
          returnM (written_result sb path ?b)))))
     (\<lambda>x fs'. view fs' = ?after) (reported (view fs) ?after)"
    if path: "plain_path path" "path \<noteq> []"
  proof (rule exec_withStaged [OF sb path])
    fix temp assume temp: "temp_name (butlast ?t) temp" "fs_lookup fs temp = None" "directory_at fs (butlast ?t)"
    show "exec (with_temp fs temp (staged_inode ?b 384)) (bindM (verifyPreconditions sb [AbsentFile path]) (\<lambda>_. linkSync sb temp ?t))
        (\<lambda>_ fs'. view fs' = ?after \<and> directory_at fs' (butlast ?t))
        (\<lambda>e fs'. fs' = with_temp fs temp (staged_inode ?b 384) \<and> plain_error e)"
      unfolding new_file_def by (rule create_commit [OF sb(1) path temp refl])
  next
    fix temp fs1 assume temp: "temp_name (butlast ?t) temp" and v: "view fs1 = ?after" and dir: "directory_at fs1 (butlast ?t)"
    note place = temp_place [OF temp]
    have d: "direct fs1 temp" using directory_place [of temp fs1] place dir by simp
    show "exec fs1 (bindM (unlinkSync sb temp) (\<lambda>_. bindM (fsyncParent sb path) (\<lambda>_.
          returnM (written_result sb path ?b))))
        (\<lambda>x fs2. view fs2 = ?after \<and> directory_at fs2 (butlast ?t))
        (\<lambda>e fs2. view fs2 = ?after \<and> directory_at fs2 (butlast ?t) \<and> plain_error e)"
    proof (rule exec_step [OF exec_plain [OF exec_unlink [OF sb(1) d] plain_calls(9)]])
      fix x fs2 assume "fs2 = remove_entry temp fs1 \<and> (\<forall>i. fs_lookup fs1 temp \<noteq> Some (DirNode i))"
      then have "view fs2 = ?after" "directory_at fs2 (butlast ?t)"
        using v dir place view_remove_staged [of temp fs1] directory_removed [OF dir] by auto
      then show "exec fs2 (bindM (fsyncParent sb path) (\<lambda>_.
          returnM (written_result sb path ?b)))
        (\<lambda>x fs2. view fs2 = ?after \<and> directory_at fs2 (butlast ?t))
        (\<lambda>e fs2. view fs2 = ?after \<and> directory_at fs2 (butlast ?t) \<and> plain_error e)"
        by (intro exec_look_step [OF exec_fsyncParent [OF sb(1) path] plain_parent(2)] exec_return) auto
    qed (use v dir in auto)
  qed
  then show ?thesis
    unfolding executeCreate_def Let_def args
    by (intro exec_effective exec_content exec_check plain_rules) (auto simp: args content_def text_arg_def reported_plain simp del: verifyPreconditions.simps)
qed

lemma readable_unstaged: "readable sb fs path i \<Longrightarrow> plain_path path \<Longrightarrow> path \<noteq> [] \<Longrightarrow> \<not> staged (sb_path sb path)"
  unfolding readable_def using visible_unstaged by blast

lemma temp_file:
  assumes "temp_name parent temp" and "fs_lookup fs temp = None" and "directory_at fs parent"
  shows "directory_at (with_temp fs temp nd) parent" "regular_at (with_temp fs temp nd) temp (fresh_ino fs)" "temp \<noteq> []" "staged temp"
proof -
  show ne: "temp \<noteq> []" and "staged temp" using temp_place [OF assms(1)] by auto
  show dir: "directory_at (with_temp fs temp nd) parent" by (rule with_temp_directory [OF assms(3) ne assms(2)])
  then show "regular_at (with_temp fs temp nd) temp (fresh_ino fs)"
    using directory_place [of temp "with_temp fs temp nd"] temp_place [OF assms(1)] by (simp add: regular_at_def with_temp_def)
qed

lemma write_commit:
  assumes sb: "alone sb" and path: "plain_path path" "path \<noteq> []" and temp: "temp_name parent temp" "fs_lookup fs temp = None"
    "directory_at fs parent" and parent: "parent = butlast (sb_path sb path)"
  shows "exec (with_temp fs temp nd) (bindM (verifyPreconditions sb [PresentFile path h n]) (\<lambda>_. renameSync sb temp (sb_path sb path)))
    (\<lambda>_ fs'. view fs' = (view fs)(sb_path sb path \<mapsto> (FileNode (fresh_ino fs), Some nd)) \<and> directory_at fs' parent)
    (\<lambda>e fs'. fs' = with_temp fs temp nd \<and> plain_error e)"
proof (rule exec_commit [OF sb])
  let ?F = "with_temp fs temp nd" and ?t = "sb_path sb path"
  note staged_file = temp_file(1,2) [OF temp, where nd = nd] temp_file(3,4) [OF temp]
  assume "\<forall>p \<in> set [PresentFile path h n]. holds_at sb ?F p"
  then obtain j where j: "readable sb ?F path j" by auto
  then have unstaged: "\<not> staged ?t" using path by (rule readable_unstaged)
  have t: "fs_lookup ?F ?t = Some (FileNode j)" "?t \<noteq> []" "?t \<noteq> temp"
    using j unstaged staged_file(4) parent_place(1) [OF path] by (auto simp: readable_def regular_at_def)
  then have "fs_lookup fs ?t = Some (FileNode j)" using staged_file(3) by (simp add: with_temp_def)
  from fresh_unused [OF this] t have other: "fs_lookup ?F ?t \<noteq> Some (FileNode (fresh_ino fs))" by simp
  have dir: "directory_at ?F (butlast ?t)" using staged_file(1) parent by simp
  show "exec ?F (renameSync sb temp ?t) (\<lambda>_ fs'. view fs' = (view fs)(?t \<mapsto> (FileNode (fresh_ino fs), Some nd)) \<and> directory_at fs' parent)
    (\<lambda>e fs'. fs' = ?F \<and> plain_error e)"
  proof (rule exec_plain_call [OF exec_rename [OF sb staged_file(2) t(2) dir other]])
    fix x fs' assume "fs' = set_entry ?t (FileNode (fresh_ino fs)) (remove_entry temp ?F) \<and> (\<forall>i. fs_lookup ?F ?t \<noteq> Some (DirNode i))"
    then have fs': "fs' = set_entry ?t (FileNode (fresh_ino fs)) (remove_entry temp ?F)" by simp
    have "directory_at fs' parent"
      using t staged_file(2,3) by (intro directory_changed [OF staged_file(1)]) (auto simp: fs' regular_at_def)
    then show "view fs' = (view fs)(?t \<mapsto> (FileNode (fresh_ino fs), Some nd)) \<and> directory_at fs' parent"
      using view_add [OF unstaged t(2)] view_remove_staged [OF staged_file(4)] view_with_temp [OF staged_file(4)] by (simp add: fs')
  qed (simp_all add: plain_calls)
qed simp

definition mode_at :: "filesys \<Rightarrow> string list \<Rightarrow> nat" where
  "mode_at fs p = (case fs_lookup fs p of Some (FileNode i) \<Rightarrow> nd_mode (fs_inode fs i) | _ \<Rightarrow> 0)"

lemma exec_replaceFile:
  assumes sb: "alone sb" "uuids sb" and path: "plain_path path" "path \<noteq> []" and source: "found_at fs (sb_path sb path) source"
    and after_def: "after = (view fs)(sb_path sb path \<mapsto> new_file fs bytes (mode_at fs (sb_path sb path)))"
  shows "exec fs (replaceFile sb path bytes [PresentFile path h n] source) (\<lambda>x fs'. view fs' = after) (reported (view fs) after)"
  unfolding replaceFile_def
proof (intro exec_guard_bind)
  let ?t = "sb_path sb path"
  assume "st_kind source = KindFile"
  from found_file [OF source this] obtain i where i: "regular_at fs ?t i" "source = stats_of fs (FileNode i)" by blast
  then have mode: "staged_inode bytes (st_mode source mod 512) = staged_inode bytes (mode_at fs ?t)"
    by (simp add: staged_inode_def mode_at_def regular_at_def)
  show "exec fs (withStagedFile sb path bytes (st_mode source mod 512)
       (\<lambda>temp target. bindM (verifyPreconditions sb [PresentFile path h n]) (\<lambda>_. renameSync sb temp target))
       (\<lambda>temp. bindM (fsyncParent sb path) (\<lambda>_. returnM (written_result sb path bytes))))
     (\<lambda>x fs'. view fs' = after) (reported (view fs) after)"
  proof (rule exec_withStaged [OF sb path])
    fix temp assume temp: "temp_name (butlast ?t) temp" "fs_lookup fs temp = None" "directory_at fs (butlast ?t)"
    show "exec (with_temp fs temp (staged_inode bytes (st_mode source mod 512)))
        (bindM (verifyPreconditions sb [PresentFile path h n]) (\<lambda>_. renameSync sb temp ?t))
        (\<lambda>_ fs'. view fs' = after \<and> directory_at fs' (butlast ?t))
        (\<lambda>e fs'. fs' = with_temp fs temp (staged_inode bytes (st_mode source mod 512)) \<and> plain_error e)"
      unfolding after_def new_file_def mode [symmetric] by (rule write_commit [OF sb(1) path temp refl])
  next
    fix temp fs1 assume "view fs1 = after" "directory_at fs1 (butlast ?t)"
    then show "exec fs1 (bindM (fsyncParent sb path) (\<lambda>_. returnM (written_result sb path bytes)))
        (\<lambda>x fs2. view fs2 = after \<and> directory_at fs2 (butlast ?t))
        (\<lambda>e fs2. view fs2 = after \<and> directory_at fs2 (butlast ?t) \<and> plain_error e)"
      by (intro exec_look_step [OF exec_fsyncParent [OF sb(1) path] plain_parent(2)] exec_return) auto
  qed
qed (simp_all add: reported_plain plain_rules)

lemma exec_executeWrite:
  assumes sb: "alone sb" "uuids sb" and args: "arguments ''path'' = Some (JStr path)"
  defines "content \<equiv> text_arg arguments ''content''"
  defines "after \<equiv> \<lambda>fs. (view fs)(sb_path sb path \<mapsto> new_file fs (utf8_encode content) (mode_at fs (sb_path sb path)))"
  shows "exec fs (executeWrite sb arguments [PresentFile path h n]) (\<lambda>_ fs'. view fs' = after fs) (reported (view fs) (after fs))"
  unfolding executeWrite_def args
proof (intro exec_effective exec_content exec_check plain_rules exec_commit [OF sb(1)])
  fix p c
  assume p: "Some (JStr path) = Some (JStr p)" "plain_path p" "p \<noteq> []" and c: "arguments ''content'' = Some (JStr c)"
  show "exec fs (bindM (inspect sb p) (\<lambda>(absolute, source). replaceFile sb p (utf8_encode c) [PresentFile path h n] source))
     (\<lambda>x fs'. view fs' = after fs) (reported (view fs) (after fs))"
    by (rule exec_look_step [OF tells_inspect [OF sb(1) p(2)] plain_inspect])
      (use p c exec_replaceFile [OF sb _ _ _ refl] in \<open>auto simp: after_def content_def text_arg_def reported_plain\<close>)
qed (simp_all add: reported_plain)

lemma exec_committing:
  assumes "exec fs commit (\<lambda>_ fs'. view fs' = after) (\<lambda>e fs'. fs' = fs \<and> plain_error e)"
    and "\<And>fs'. view fs' = after \<Longrightarrow> exec fs' conclude (\<lambda>_ fs''. fs'' = fs') (\<lambda>e fs''. fs'' = fs' \<and> plain_error e)"
  shows "exec fs (committing commit conclude) (\<lambda>_ fs'. view fs' = after) (reported (view fs) after)"
  unfolding committing_def
proof (rule exec_bind [OF exec_catch [OF assms(1)]], rule exec_throw)
  fix e fs' assume "fs' = fs \<and> plain_error e"
  then show "reported (view fs) after (mutationError e False) fs'" by (simp add: reported_mutation)
next
  fix x fs' assume v: "view fs' = after"
  show "exec fs' (catchM conclude (\<lambda>e. throwM (mutationError e True))) (\<lambda>_ fs'. view fs' = after) (reported (view fs) after)"
    by (rule exec_catch [OF exec_weaken [OF assms(2) [OF v]]]) (use v in \<open>auto simp: reported_mutation intro: exec_throw\<close>)
qed

lemma tells_fsync_both:
  assumes "alone sb" and "plain_path p" "p \<noteq> []" "plain_path q" "q \<noteq> []"
  shows "tells fs (bindM (fsyncParent sb p) (\<lambda>_. bindM (if b then fsyncParent sb q else returnM ()) (\<lambda>_. returnM x))) (\<lambda>_. True)"
  by (intro tells_bind [OF exec_fsyncParent [OF assms(1-3)]] tells_bind [OF tells_if [OF exec_fsyncParent [OF assms(1,4,5)] tells_return]]
      tells_return) simp_all

lemma move_commit:
  assumes sb: "alone sb" and paths: "plain_path source" "source \<noteq> []" "plain_path destination" "destination \<noteq> []"
    and i: "readable sb fs source i" and free: "free_at fs (sb_path sb destination)"
    and seen: "\<not> isSensitiveFilesystemPath destination (denied_prefixes sb)"
  shows "exec fs (renameSync sb (sb_path sb source) (sb_path sb destination))
    (\<lambda>_ fs'. view fs' = (view fs)(sb_path sb source := None, sb_path sb destination := view fs (sb_path sb source)))
    (\<lambda>e fs'. fs' = fs \<and> plain_error e)"
proof -
  let ?s = "sb_path sb source" and ?d = "sb_path sb destination"
  have s: "regular_at fs ?s i" "\<not> staged ?s" "?s \<noteq> []"
    using i readable_unstaged [OF i paths(1,2)] parent_place(1) [OF paths(1,2)] by (auto simp: readable_def)
  have d: "\<not> staged ?d" "?d \<noteq> []" "directory_at fs (butlast ?d)" "fs_lookup fs ?d = None"
    using free visible_unstaged [OF seen paths(3,4)] by (auto simp: free_at_def)
  have v: "view fs ?s = Some (node_view fs (FileNode i))" using s by (simp add: view_def regular_at_def)
  show ?thesis
  proof (rule exec_plain_call [OF exec_rename [OF sb s(1) d(2,3)]])
    fix x fs' assume "fs' = set_entry ?d (FileNode i) (remove_entry ?s fs) \<and> (\<forall>i. fs_lookup fs ?d \<noteq> Some (DirNode i))"
    then show "view fs' = (view fs)(?s := None, ?d := view fs ?s)"
      unfolding v by (simp add: view_add [OF d(1,2)] view_drop [OF s(3)])
  qed (use d in \<open>simp_all add: plain_calls\<close>)
qed

lemma exec_executeMove:
  assumes sb: "alone sb"
    and args: "arguments ''sourcePath'' = Some (JStr source)" "arguments ''destinationPath'' = Some (JStr destination)"
  defines "after \<equiv> \<lambda>fs. (view fs)(sb_path sb source := None, sb_path sb destination := view fs (sb_path sb source))"
  shows "exec fs (executeMove sb arguments [PresentFile source h n, AbsentFile destination]) (\<lambda>_ fs'. view fs' = after fs)
    (reported (view fs) (after fs))"
  unfolding executeMove_def args
proof (intro exec_effective exec_check plain_rules exec_committing exec_commit [OF sb])
  fix p q
  assume p: "Some (JStr source) = Some (JStr p)" "plain_path p" "p \<noteq> []" and q: "Some (JStr destination) = Some (JStr q)" "plain_path q" "q \<noteq> []"
    and holds: "\<forall>c \<in> set [PresentFile source h n, AbsentFile destination]. holds_at sb fs c"
  have pq: "p = source" "q = destination" using p q by simp_all
  from holds pq obtain i where i: "readable sb fs p i" and d: "free_at fs (sb_path sb q)" "\<not> isSensitiveFilesystemPath q (denied_prefixes sb)"
    by auto
  show "exec fs (bindM (inspect sb p) (\<lambda>(absolute, source).
        bindM (inspect sb (parentPath q)) (\<lambda>(parent, parent_stats).
        bindM (guardM (st_kind source = KindFile) not_regular_file) (\<lambda>_.
        bindM (guardM (st_nlink source \<le> 1) hard_link_denied) (\<lambda>_.
        bindM (guardM (st_kind parent_stats = KindDirectory) not_directory) (\<lambda>_.
        bindM (liftR (resolveContainedPath (sb_root sb) q)) (\<lambda>target.
        renameSync sb absolute target)))))))
     (\<lambda>_ fs'. view fs' = after fs) (\<lambda>e fs'. fs' = fs \<and> plain_error e)"
    unfolding resolve_sb [OF q(2)]
  proof (rule exec_look_step [OF tells_inspect [OF sb p(2)] plain_inspect], simp, clarify,
      rule exec_look_step [OF tells_inspect [OF sb parent_segments(2) [OF q(2,3)]] plain_inspect], simp, clarify)
    fix st parent pst
    show "exec fs (bindM (guardM (st_kind st = KindFile) not_regular_file) (\<lambda>_.
        bindM (guardM (st_nlink st \<le> 1) hard_link_denied) (\<lambda>_.
        bindM (guardM (st_kind pst = KindDirectory) not_directory) (\<lambda>_.
        bindM (liftR (ok (sb_path sb q))) (\<lambda>target.
        renameSync sb (sb_path sb p) target)))))
      (\<lambda>_ fs'. view fs' = after fs) (\<lambda>e fs'. fs' = fs \<and> plain_error e)"
      using move_commit [OF sb p(2,3) q(2,3) i d]
      by (intro exec_guard_bind exec_lift_bind) (auto simp: plain_rules pq after_def)
  qed
next
  fix p q fs1
  assume "plain_path p" "p \<noteq> []" "plain_path q" "q \<noteq> []"
  note both = tells_fsync_both [OF sb this]
  show "exec fs1 (bindM (fsyncParent sb p) (\<lambda>_. bindM (if parentPath p \<noteq> parentPath q then fsyncParent sb q else returnM ()) (\<lambda>_.
      returnM (change_result (source_hash [PresentFile source h n, AbsentFile destination]) p (Some q)
        (source_size [PresentFile source h n, AbsentFile destination])))))
     (\<lambda>_ fs'. fs' = fs1) (\<lambda>e fs'. fs' = fs1 \<and> plain_error e)"
    by (rule exec_weaken [OF exec_look_plain [OF both]]) (auto intro!: plain_rules)
qed (simp_all add: reported_plain)

lemma exec_executeDelete:
  assumes sb: "alone sb" and args: "arguments ''path'' = Some (JStr path)"
  defines "after \<equiv> \<lambda>fs. (view fs)(sb_path sb path := None)"
  shows "exec fs (executeDelete sb arguments [PresentFile path h n]) (\<lambda>_ fs'. view fs' = after fs) (reported (view fs) (after fs))"
  unfolding executeDelete_def args
proof (intro exec_effective exec_check plain_rules exec_committing exec_commit [OF sb])
  fix p
  assume p: "Some (JStr path) = Some (JStr p)" "plain_path p" "p \<noteq> []"
  have pq: "p = path" using p by simp
  have ne: "sb_path sb path \<noteq> []" using parent_place(1) [OF p(2,3)] pq by simp
  show "exec fs (bindM (inspect sb p) (\<lambda>(absolute, source).
        bindM (guardM (st_kind source = KindFile) not_regular_file) (\<lambda>_.
        bindM (guardM (st_nlink source \<le> 1) hard_link_denied) (\<lambda>_. unlinkSync sb absolute))))
     (\<lambda>_ fs'. view fs' = after fs) (\<lambda>e fs'. fs' = fs \<and> plain_error e)"
  proof (rule exec_look_step [OF tells_inspect [OF sb p(2)] plain_inspect], simp, clarify)
    fix st assume st: "found_at fs (sb_path sb p) st"
    then have d: "direct fs (sb_path sb p)" by (simp add: found_at_def)
    show "exec fs (bindM (guardM (st_kind st = KindFile) not_regular_file) (\<lambda>_.
        bindM (guardM (st_nlink st \<le> 1) hard_link_denied) (\<lambda>_. unlinkSync sb (sb_path sb p))))
      (\<lambda>_ fs'. view fs' = after fs) (\<lambda>e fs'. fs' = fs \<and> plain_error e)"
      by (intro exec_guard_bind exec_plain_call [OF exec_unlink [OF sb d]])
        (auto simp: plain_rules pq after_def view_drop [OF ne])
  qed
next
  fix p fs1
  assume p: "plain_path p" "p \<noteq> []"
  show "exec fs1 (bindM (fsyncParent sb p) (\<lambda>_.
      returnM (change_result (source_hash [PresentFile path h n]) p None (source_size [PresentFile path h n]))))
     (\<lambda>_ fs'. fs' = fs1) (\<lambda>e fs'. fs' = fs1 \<and> plain_error e)"
    by (rule exec_weaken [OF exec_look_plain [OF tells_bind [OF exec_fsyncParent [OF sb p] tells_return]]]) (auto intro!: plain_rules)
qed (simp_all add: reported_plain)

section \<open>The outcome of a change\<close>

lemma optional_path_ok: "optional_path sb v = ok (Some p) \<Longrightarrow> v = Some (JStr p)"
  by (auto simp: optional_path_def result_simps split: option.splits json.splits dest: effective_path(1))

text \<open>The file system that an approved change asks for, as the sandbox shows it.\<close>

definition approved_change :: "sandbox \<Rightarrow> string \<Rightarrow> (string \<Rightarrow> json option) \<Rightarrow> filesys \<Rightarrow> string list \<Rightarrow> (fs_node \<times> inode option) option" where
  "approved_change sb operation arguments fs =
     (let target = sb_path sb (text_arg arguments ''path''); source = sb_path sb (text_arg arguments ''sourcePath'');
          destination = sb_path sb (text_arg arguments ''destinationPath''); bytes = utf8_encode (text_arg arguments ''content'') in
      if operation = ''filesystem.create'' then (view fs)(target \<mapsto> new_file fs bytes 384)
      else if operation = ''filesystem.write'' then (view fs)(target \<mapsto> new_file fs bytes (mode_at fs target))
      else if operation = ''filesystem.move'' then (view fs)(source := None, destination := view fs source)
      else (view fs)(target := None))"

lemma text_arg_is: "arguments field = Some (JStr s) \<Longrightarrow> text_arg arguments field = s"
  by (simp add: text_arg_def)

lemma exec_operation:
  assumes sb: "alone sb" "uuids sb" and fit: "assertExecutionPreconditions sb operation arguments ps = ok ()"
  shows "exec fs (execute_operation sb operation arguments ps) (\<lambda>_ fs'. view fs' = approved_change sb operation arguments fs)
    (reported (view fs) (approved_change sb operation arguments fs))"
proof -
  obtain path source destination where paths: "optional_path sb (arguments ''path'') = ok path"
    "optional_path sb (arguments ''sourcePath'') = ok source" "optional_path sb (arguments ''destinationPath'') = ok destination"
    and fit: "preconditions_fit operation path source destination ps"
    using fit by (auto simp: assertExecutionPreconditions_def result_simps split: if_splits)
  consider (create) p where "operation = ''filesystem.create''" "ps = [AbsentFile p]" "path = Some p"
    | (rewrite) p h n where "operation = ''filesystem.write''" "ps = [PresentFile p h n]" "path = Some p"
    | (move) p h n q where "operation = ''filesystem.move''" "ps = [PresentFile p h n, AbsentFile q]" "source = Some p" "destination = Some q"
    | (delete) p h n where "operation = ''filesystem.delete''" "ps = [PresentFile p h n]" "path = Some p"
    using fit by (auto simp: preconditions_fit_def absent_at_def file_at_def split: list.splits file_precondition.splits)
  then show ?thesis
  proof cases
    case create
    with paths(1) have a: "arguments ''path'' = Some (JStr p)" by (auto dest: optional_path_ok)
    from exec_executeCreate [where arguments = arguments, OF sb a] create show ?thesis
      by (simp add: execute_operation_def approved_change_def Let_def text_arg_is a del: verifyPreconditions.simps)
  next
    case rewrite
    with paths(1) have a: "arguments ''path'' = Some (JStr p)" by (auto dest: optional_path_ok)
    from exec_executeWrite [where arguments = arguments, OF sb a] rewrite show ?thesis
      by (simp add: execute_operation_def approved_change_def Let_def text_arg_is a del: verifyPreconditions.simps)
  next
    case move
    with paths have a: "arguments ''sourcePath'' = Some (JStr p)" "arguments ''destinationPath'' = Some (JStr q)" by (auto dest: optional_path_ok)
    from exec_executeMove [where arguments = arguments, OF sb(1) a] move show ?thesis
      by (simp add: execute_operation_def approved_change_def Let_def text_arg_is a del: verifyPreconditions.simps)
  next
    case delete
    with paths(1) have a: "arguments ''path'' = Some (JStr p)" by (auto dest: optional_path_ok)
    from exec_executeDelete [where arguments = arguments, OF sb(1) a] delete show ?thesis
      by (simp add: execute_operation_def approved_change_def Let_def text_arg_is a del: verifyPreconditions.simps)
  qed
qed

definition says_changed :: "'a result \<Rightarrow> bool" where
  "says_changed r \<longleftrightarrow> (case r of Inl e \<Rightarrow> \<exists>code. e = MutationError code True | Inr x \<Rightarrow> True)"

lemma mutationError_form: "\<exists>code b. mutationError e c = MutationError code b"
  by (cases e) (auto simp: mutationError_def)

lemma mutationError_True: "mutationError e False = MutationError code True \<Longrightarrow> e = MutationError code True"
  by (cases e) (auto simp: mutationError_def)

lemma mutation_again: "reported before after e fs \<Longrightarrow> reported before after (mutationError e False) fs"
  by (cases e) (auto simp: reported_def mutationError_def)

lemma plain_execution: "assertExecutionPreconditions sb operation arguments ps = throw e \<Longrightarrow> plain_error e"
proof -
  have opt: "plain_result (optional_path sb v)" for v
    unfolding optional_path_def by (auto split: option.split json.split intro!: plain_rules)
  have "plain_result (assertExecutionPreconditions sb operation arguments ps)"
    unfolding assertExecutionPreconditions_def by (intro plain_rules opt)
  then show "assertExecutionPreconditions sb operation arguments ps = throw e \<Longrightarrow> plain_error e" by (simp add: plain_result_def)
qed

text \<open>What a mutation does to the visible file system, with the outcome it reports.\<close>

lemma exec_executeMutation:
  assumes "alone sb" and "uuids sb"
  shows "exec fs (executeMutation sb operation arguments preconditions)
    (\<lambda>_ fs'. view fs' = approved_change sb operation arguments fs \<and> (\<forall>p \<in> set preconditions. holds_at sb fs p))
    (\<lambda>e fs'. (reported (view fs) (approved_change sb operation arguments fs) e fs'
       \<and> ((\<exists>code. e = MutationError code True) \<longrightarrow> (\<forall>p \<in> set preconditions. holds_at sb fs p)))
      \<and> (\<exists>code b. e = MutationError code b))"
proof -
  let ?after = "approved_change sb operation arguments fs" and ?H = "\<forall>p \<in> set preconditions. holds_at sb fs p"
  let ?E = "\<lambda>e fs'. reported (view fs) ?after e fs' \<and> ((\<exists>code. e = MutationError code True) \<longrightarrow> ?H)"
  have early: "?E e fs" if "plain_error e" for e using that by (auto simp: reported_plain) (auto simp: plain_error_def)
  have run: "exec fs (execute_operation sb operation arguments preconditions) (\<lambda>_ fs'. view fs' = ?after \<and> ?H) ?E"
    if "?H" "assertExecutionPreconditions sb operation arguments preconditions = ok ()"
    by (rule exec_weaken [OF exec_operation [OF assms(1,2) that(2)]]) (use that(1) in auto)
  show ?thesis
    unfolding executeMutation_def
  proof (rule exec_catch [where E' = ?E], unfold abort_check_def)
    show "exec fs (bindM (liftR (throwIfAborted (sb_aborted sb))) (\<lambda>_. bindM (liftR (assertMutationPermitted sb)) (\<lambda>_.
        bindM (liftR (assertExecutionPreconditions sb operation arguments preconditions)) (\<lambda>_.
        bindM (verifyPreconditions sb preconditions) (\<lambda>_. execute_operation sb operation arguments preconditions)))))
       (\<lambda>_ fs'. view fs' = ?after \<and> ?H) ?E"
      by (intro exec_check exec_lift_bind exec_commit [OF assms(1)] plain_rules early run) (auto simp: early plain_execution)
  next
    fix e fs' assume e: "?E e fs'"
    then show "exec fs' (throwM (mutationError e False)) (\<lambda>_ fs'. view fs' = ?after \<and> ?H)
        (\<lambda>e fs'. ?E e fs' \<and> (\<exists>code b. e = MutationError code b))"
      using mutation_again [of "view fs" ?after e fs'] mutationError_form [of e False]
      by (intro exec_throw conjI impI) (auto dest: mutationError_True)
  qed
qed

text \<open>C2. While no other process interferes, an approved change happens entirely or not at all, and the outcome says which.
  When the change succeeds, or fails with a report that it may have happened, every precondition held and the visible file
  system is what the change asks for: the file created or replaced with these bytes and mode, moved, or deleted, and every
  other entry as it was. When it fails with a report that nothing happened, the visible file system is unchanged. It fails in no other way.\<close>

theorem mutation_exact:
  assumes "alone sb" and "uuids sb" and "executeMutation sb operation arguments preconditions w = (r, w')"
  shows "view (fw_fs w') = (if says_changed r then approved_change sb operation arguments (fw_fs w) else view (fw_fs w))
    \<and> (says_changed r \<longrightarrow> (\<forall>p \<in> set preconditions. holds_at sb (fw_fs w) p))
    \<and> (\<forall>e. r = throw e \<longrightarrow> (\<exists>code b. e = MutationError code b))"
  using execD [OF exec_executeMutation [OF assms(1,2)] assms(3) refl]
  by (auto simp: says_changed_def reported_def split: sum.splits)

text \<open>C10. What a read returns is what the file holds. While no other process interferes, a read that succeeds changes nothing
  and returns the whole text, size and hash of one regular file that the path names without any link, that has no other
  name, lies inside the allowed prefixes, is not sensitive, has a permitted extension, and is within the limits for files and output.\<close>

theorem read_file_exact:
  assumes "alone sb" and "read_file sb arguments w = (ok x, w')"
  shows "\<exists>path i text out. arguments ''path'' = Some (JStr path) \<and> readable sb (fw_fs w) path i \<and> classifyPath sb path = InsideAllowed
    \<and> length (content_at (fw_fs w) i) \<le> sb_limit sb MaxFileBytes \<and> sb_decode sb (content_at (fw_fs w) i) = Some text
    \<and> out = read_output path \<lparr>tf_bytes = content_at (fw_fs w) i, tf_content = text, tf_sha256 = sb_sha256 sb (content_at (fw_fs w) i)\<rparr>
    \<and> (\<exists>n. json_bytes sb out = ok n \<and> n \<le> sb_limit sb MaxOutputBytes) \<and> (\<exists>report. x = ReadResult out report) \<and> fw_fs w' = fw_fs w"
proof -
  let ?fs = "fw_fs w"
  let ?P = "\<lambda>x. \<exists>path i text out. arguments ''path'' = Some (JStr path) \<and> readable sb ?fs path i \<and> classifyPath sb path = InsideAllowed
    \<and> length (content_at ?fs i) \<le> sb_limit sb MaxFileBytes \<and> sb_decode sb (content_at ?fs i) = Some text
    \<and> out = read_output path \<lparr>tf_bytes = content_at ?fs i, tf_content = text, tf_sha256 = sb_sha256 sb (content_at ?fs i)\<rparr>
    \<and> (\<exists>n. json_bytes sb out = ok n \<and> n \<le> sb_limit sb MaxOutputBytes) \<and> (\<exists>report. x = ReadResult out report)"
  have "tells ?fs (read_file sb arguments) ?P"
    unfolding read_file_def
  proof (intro tells_lift_bind)
    fix path u assume path: "assertEffectivePath sb (arguments ''path'') False = ok path" and u: "assertInsideAllowed sb path = ok u"
    note p = effective_path [OF path]
    from u have allowed: "classifyPath sb path = InsideAllowed" by (simp add: assertInsideAllowed_def split: if_splits)
    show "tells ?fs (bindM (readTextFile sb path) (\<lambda>file. bindM (liftR (output_check sb (read_output path file))) (\<lambda>_.
       returnM (ReadResult (read_output path file)
         (read_report path (Some (of_nat (length (tf_bytes file)))) None (Some (tf_sha256 file)) None))))) ?P"
    proof (intro tells_bind [OF tells_file [OF assms(1) p(2)]] tells_lift_bind tells_return)
      fix f v assume "\<exists>i. readable sb ?fs path i \<and> text_of_file sb ?fs i f" and v: "output_check sb (read_output path f) = ok v"
      then obtain i where i: "readable sb ?fs path i" "text_of_file sb ?fs i f" by blast
      then have f: "f = \<lparr>tf_bytes = content_at ?fs i, tf_content = tf_content f, tf_sha256 = sb_sha256 sb (content_at ?fs i)\<rparr>"
        by (cases f) (simp add: text_of_file_def)
      obtain n where n: "json_bytes sb (read_output path f) = ok n" "n \<le> sb_limit sb MaxOutputBytes"
        using v by (auto simp: output_check_def result_simps split: if_splits)
      show "?P (ReadResult (read_output path f) (read_report path (Some (of_nat (length (tf_bytes f)))) None (Some (tf_sha256 f)) None))"
      proof (rule exI [where x = path], rule exI [where x = i], rule exI [where x = "tf_content f"], rule exI [where x = "read_output path f"],
          intro conjI)
        show "read_output path f
            = read_output path \<lparr>tf_bytes = content_at ?fs i, tf_content = tf_content f, tf_sha256 = sb_sha256 sb (content_at ?fs i)\<rparr>"
          using f by simp
      qed (use p(1) i allowed n in \<open>auto simp: text_of_file_def\<close>)
    qed
  qed
  from execD [OF this [unfolded tells_def] assms(2) refl] show ?thesis by simp
qed

section \<open>What a listing returns\<close>

definition yields :: "(fs_world, 'a) command \<Rightarrow> ('a \<Rightarrow> bool) \<Rightarrow> bool" where
  "yields m Q \<longleftrightarrow> (\<forall>w x w'. m w = (ok x, w') \<longrightarrow> Q x)"

lemma yields_bind: "yields m P \<Longrightarrow> (\<And>x. P x \<Longrightarrow> yields (f x) Q) \<Longrightarrow> yields (bindM m f) Q"
  unfolding yields_def by (metis bindM_ok)

lemma yields_any: "yields m (\<lambda>_. True)"
  by (simp add: yields_def)

lemma yields_skip: "(\<And>x. yields (f x) Q) \<Longrightarrow> yields (bindM m f) Q"
  by (rule yields_bind [OF yields_any])

lemma yields_lift: "(\<And>x. r = ok x \<Longrightarrow> yields (f x) Q) \<Longrightarrow> yields (bindM (liftR r) f) Q"
  by (rule yields_bind [where P = "\<lambda>x. r = ok x"]) (auto simp: yields_def)

lemma yields_return: "Q x \<Longrightarrow> yields (returnM x) Q"
  by (simp add: yields_def)

text \<open>An entry that may be shown, with what was found there.\<close>

definition shown :: "sandbox \<Rightarrow> json \<Rightarrow> bool" where
  "shown sb e \<longleftrightarrow> (\<exists>path st. e = list_entry path st \<and> isPortableDiscoveredPath sb path \<and> \<not> skipped_entry sb path st
     \<and> (st_kind st = KindFile \<longrightarrow> extensionPermitted sb path))"

definition listing_ok :: "sandbox \<Rightarrow> list_state \<Rightarrow> bool" where
  "listing_ok sb s \<longleftrightarrow> length (ls_entries s) \<le> sb_limit sb MaxResults \<and> (\<forall>e \<in> set (ls_entries s). shown sb e)"

lemma list_visit_ok:
  assumes "list_visit sb start recursive depth path st s = ok (s', go)" and "listing_ok sb s"
    and "isPortableDiscoveredPath sb path" and "\<not> skipped_entry sb path st"
  shows "listing_ok sb s'"
proof -
  have new: "shown sb (list_entry path st)" if "st_kind st = KindFile \<longrightarrow> extensionPermitted sb path"
    unfolding shown_def using assms(3,4) that by blast
  show ?thesis using assms(1,2) new by (auto simp: list_visit_def Let_def listing_ok_def result_simps split: if_splits)
qed

lemma listing_ok_update [simp]: "listing_ok sb (s\<lparr>ls_pending := r, ls_truncated := t\<rparr>) = listing_ok sb s"
  by (simp add: listing_ok_def)

lemma list_names_ok: "listing_ok sb s \<Longrightarrow> yields (list_names sb start recursive current depth names s) (listing_ok sb)"
proof (induction names arbitrary: s)
  case Nil
  then show ?case unfolding list_names.simps by (rule yields_return)
next
  case (Cons name names)
  show ?case
    unfolding list_names.simps Let_def
  proof (intro yields_skip)
    let ?p = "child_path current name"
    show "yields (if \<not> isPortableDiscoveredPath sb ?p then list_names sb start recursive current depth names s
     else bindM (inspectDiscovered sb ?p) (\<lambda>found. case found of
         None \<Rightarrow> list_names sb start recursive current depth names s
       | Some (absolute, st) \<Rightarrow>
           if skipped_entry sb ?p st then list_names sb start recursive current depth names s
           else bindM (liftR (list_visit sb start recursive (depth + 1) ?p st s)) (\<lambda>(s', more).
             if more then list_names sb start recursive current depth names s' else returnM s'))) (listing_ok sb)"
      using Cons list_visit_ok [of sb start recursive "depth + 1" ?p _ s]
      by (auto intro!: yields_skip yields_lift yields_return split: option.split)
  qed
qed

lemma yields_loop:
  assumes "\<And>names truncated visited. yields (g names truncated visited) P" and "\<And>names truncated visited s. P s \<Longrightarrow> yields (f visited s) Q"
  shows "yields (bindM m (\<lambda>_. bindM d (\<lambda>(names, truncated, visited). bindM (g names truncated visited) (f visited)))) Q"
  by (intro yields_skip) (auto intro!: yields_bind [OF assms(1)] assms(2))

lemma list_loop_ok: "listing_ok sb s \<Longrightarrow> yields (list_loop sb start recursive n visited s) (listing_ok sb)"
proof (induction n arbitrary: visited s)
  case 0
  then show ?case
    by (subst list_loop.simps) (auto intro!: yields_return yields_loop [OF list_names_ok] split: list.split)
next
  case (Suc n)
  then show ?case
    by (subst list_loop.simps) (auto intro!: yields_return yields_loop [OF list_names_ok] split: list.split)
qed

text \<open>C40. A listing shows no more than it may, whatever other processes do: at most \<open>maxResults\<close> entries within the
  limit of output bytes, each at a portable path that is neither sensitive nor denied, the files among them inside the allowed
  prefixes, with a permitted extension and no other name.\<close>

theorem listing_bounded:
  assumes "list_directory sb arguments w = (ok x, w')"
  shows "\<exists>start entries truncated report n. x = ReadResult (list_output start entries truncated) report
    \<and> length entries \<le> sb_limit sb MaxResults \<and> (\<forall>e \<in> set entries. shown sb e)
    \<and> json_bytes sb (list_output start entries truncated) = ok n \<and> n \<le> sb_limit sb MaxOutputBytes"
proof -
  let ?Q = "\<lambda>x. \<exists>start entries truncated report n. x = ReadResult (list_output start entries truncated) report
    \<and> length entries \<le> sb_limit sb MaxResults \<and> (\<forall>e \<in> set entries. shown sb e)
    \<and> json_bytes sb (list_output start entries truncated) = ok n \<and> n \<le> sb_limit sb MaxOutputBytes"
  have "yields (list_directory sb arguments) ?Q"
    unfolding list_directory_def Let_def
  proof (rule yields_skip, rule yields_skip, rule yields_skip, clarify, rule yields_skip, rule yields_skip,
      rule yields_bind [OF list_loop_ok], simp add: listing_ok_def, rule yields_lift, rule yields_return)
    fix start s u
    assume s: "listing_ok sb s" and "output_check sb (list_output start (ls_entries s) (ls_truncated s)) = ok u"
    then obtain n where n: "json_bytes sb (list_output start (ls_entries s) (ls_truncated s)) = ok n" "n \<le> sb_limit sb MaxOutputBytes"
      by (auto simp: output_check_def result_simps split: if_splits)
    show "?Q (ReadResult (list_output start (ls_entries s) (ls_truncated s))
       (read_report start None (Some (of_nat (length (ls_entries s)))) None (Some (ls_truncated s))))"
      by (rule exI [where x = start], rule exI [where x = "ls_entries s"], rule exI [where x = "ls_truncated s"], rule exI, rule exI [where x = n])
        (use s n in \<open>simp add: listing_ok_def\<close>)
  qed
  then show ?thesis using assms unfolding yields_def by blast
qed

section \<open>A run\<close>

definition sample_limits :: effective_constraints_fs where
  "sample_limits = \<lparr>fe_allowedPathPrefixes = None, fe_deniedPathPrefixes = [], fe_allowedExtensions = None,
     fe_maximum = (\<lambda>_. 9), fe_allowMutation = True\<rparr>"

definition sample_box :: sandbox where
  "sample_box = \<lparr>sb_root = [''srv''], sb_constraints = sample_limits, sb_aborted = False, sb_env = (\<lambda>_ fs. fs), sb_fail = (\<lambda>_. None),
     sb_accepted = (\<lambda>_. 1), sb_uuid = (\<lambda>_. ''a1''), sb_sha256 = (\<lambda>_. ''h''), sb_decode = Some, sb_num_str = (\<lambda>_. ''1'')\<rparr>"

definition sample_files :: filesys where
  "sample_files = \<lparr>fs_tree = [([''srv''], DirNode 1)], fs_inodes = []\<rparr>"

definition sample_arguments :: "string \<Rightarrow> json option" where
  "sample_arguments = map_of [(''path'', JStr ''b''), (''content'', JStr ''hi'')]"

lemma sample_alone: "alone sample_box" "uuids sample_box"
  by (simp_all add: alone_def uuids_def sample_box_def uuid_chars_def)

theorem mutation_exact_witness:
  "\<exists>x w'. executeMutation sample_box ''filesystem.create'' sample_arguments [AbsentFile ''b''] \<lparr>fw_fs = sample_files, fw_calls = 0\<rparr> = (ok x, w')
    \<and> view (fw_fs w') [''srv'', ''b''] = Some (FileNode 2, Some \<lparr>nd_bytes = ''hi'', nd_mode = 384, nd_mtime = 0\<rparr>)"
proof -
  let ?w = "\<lparr>fw_fs = sample_files, fw_calls = 0\<rparr>"
  have "case executeMutation sample_box ''filesystem.create'' sample_arguments [AbsentFile ''b''] ?w of (Inr x, w') \<Rightarrow> True | _ \<Rightarrow> False"
    by code_simp
  then obtain x w' where run: "executeMutation sample_box ''filesystem.create'' sample_arguments [AbsentFile ''b''] ?w = (ok x, w')"
    by (auto split: prod.splits sum.splits)
  from mutation_exact [OF sample_alone run] 
  have "view (fw_fs w') = approved_change sample_box ''filesystem.create'' sample_arguments sample_files" by (simp add: says_changed_def)
  moreover have "fresh_ino sample_files = 2" by code_simp
  ultimately show ?thesis using run
    by (simp add: approved_change_def Let_def new_file_def staged_inode_def text_arg_def sample_arguments_def sb_path_def path_segments_def
        sample_box_def utf8_encode_def)
qed

definition sample_reader :: sandbox where
  "sample_reader = sample_box\<lparr>sb_constraints := sample_limits\<lparr>fe_maximum := (\<lambda>f. if f = MaxOutputBytes then 300 else 9)\<rparr>,
     sb_sha256 := (\<lambda>_. replicate 64 (CHR ''a''))\<rparr>"

definition sample_read_files :: filesys where
  "sample_read_files = \<lparr>fs_tree = [([''srv''], DirNode 1), ([''srv'', ''b''], FileNode 2)],
     fs_inodes = [(2, \<lparr>nd_bytes = ''hi'', nd_mode = 384, nd_mtime = 0\<rparr>)]\<rparr>"

abbreviation at_call :: "nat \<Rightarrow> fs_world" where
  "at_call n \<equiv> \<lparr>fw_fs = sample_read_files, fw_calls = n\<rparr>"

lemma t_inspect: "\<exists>k. inspect sample_reader ''b'' (at_call n) = (ok ([''srv'', ''b''], stats_of sample_read_files (FileNode 2)), at_call k)"
proof -
  have "case inspect sample_reader ''b'' (at_call n) of (Inr (p, st), w') \<Rightarrow> p = [''srv'', ''b''] \<and> st = stats_of sample_read_files (FileNode 2)
      \<and> fw_fs w' = sample_read_files | _ \<Rightarrow> False"
    by code_simp
  then show ?thesis by (auto split: prod.splits sum.splits) (metis (full_types) fs_world.surjective old.unit.exhaust)
qed

lemma t_open: "openSync sample_reader [''srv'', ''b''] (at_call n) = (ok (FileNode 2), at_call (Suc n))" by code_simp
lemma t_fstat: "fstatSync sample_reader (FileNode 2) (at_call n) = (ok (stats_of sample_read_files (FileNode 2)), at_call (Suc n))"
  by code_simp
lemma t_close: "closeSync sample_reader (FileNode 2) (at_call n) = (ok (), at_call (Suc n))"
  by code_simp

lemma t_read: "readSync sample_reader (FileNode 2) k m (at_call n) = (ok (take m (drop k ''hi'')), at_call (Suc n))"
  by (simp add: readSync_def syscall_def inspecting_def sample_reader_def sample_box_def sample_read_files_def fs_inode_def)

lemma t_chunks: "read_chunks sample_reader (FileNode 2) [] (at_call n) = (ok ''hi'', at_call (Suc (Suc n)))"
proof -
  have lim: "sb_limit sample_reader MaxFileBytes = 9" "sb_aborted sample_reader = False" by code_simp+
  have m: "min chunk_size 10 = 10" "min chunk_size 8 = 8" by (simp_all add: chunk_size_def)
  have two: "read_chunks sample_reader (FileNode 2) ''hi'' (at_call k) = (ok ''hi'', at_call (Suc k))" for k
    by (subst read_chunks.simps) (simp add: bindM_def abort_check_def throwIfAborted_def lim m t_read)
  show ?thesis
    by (subst read_chunks.simps) (simp add: bindM_def abort_check_def throwIfAborted_def lim m t_read two)
qed

lemma sample_read: "\<exists>x k. read_file sample_reader sample_arguments (at_call 0) = (ok x, at_call k)"
proof -
  obtain f where insp: "\<And>n. inspect sample_reader ''b'' (at_call n) = (ok ([''srv'', ''b''], stats_of sample_read_files (FileNode 2)), at_call (f n))"
    using t_inspect by metis
  have st: "link_count sample_read_files 2 = 1" "content_at sample_read_files 2 = ''hi''" by code_simp+
  have pure: "assertEffectivePath sample_reader (sample_arguments ''path'') False = ok ''b''" "assertInsideAllowed sample_reader ''b'' = ok ()"
    "sb_limit sample_reader MaxFileBytes = 9" "sb_aborted sample_reader = False" "extensionPermitted sample_reader ''b''"
    "sb_decode sample_reader ''hi'' = Some ''hi''" "hex64 (sb_sha256 sample_reader ''hi'')"
    "output_check sample_reader (read_output ''b'' \<lparr>tf_bytes = ''hi'', tf_content = ''hi'', tf_sha256 = sb_sha256 sample_reader ''hi''\<rparr>) = ok ()"
    by code_simp+
  note run = bindM_def catchM_def finallyM_def abort_check_def throwIfAborted_def
  let ?text = "\<lparr>tf_bytes = ''hi'', tf_content = ''hi'', tf_sha256 = sb_sha256 sample_reader ''hi''\<rparr>"
  have "\<forall>s n. \<exists>k. st_ino s = 2 \<longrightarrow> read_opened sample_reader ''b'' s (FileNode 2) (at_call n) = (ok ?text, at_call k)"
    by (simp add: read_opened_def assertOpenedPathStillContained_def run pure insp st t_fstat t_chunks)
  then obtain g where opened: "\<And>n s. st_ino s = 2 \<Longrightarrow> read_opened sample_reader ''b'' s (FileNode 2) (at_call n) = (ok ?text, at_call (g s n))"
    unfolding choice_iff by blast
  have "\<exists>k. readTextFile sample_reader ''b'' (at_call n) = (ok ?text, at_call k)" for n
    by (simp add: readTextFile_def run pure insp t_open opened st t_close)
  then obtain k where "readTextFile sample_reader ''b'' (at_call 0) = (ok ?text, at_call k)" by blast
  then show ?thesis by (simp add: read_file_def bindM_def pure)
qed

theorem read_file_exact_witness:
  "\<exists>x w' report. read_file sample_reader sample_arguments (at_call 0) = (ok x, w')
    \<and> x = ReadResult (read_output ''b'' \<lparr>tf_bytes = ''hi'', tf_content = ''hi'', tf_sha256 = replicate 64 (CHR ''a'')\<rparr>) report"
proof -
  obtain x k where run: "read_file sample_reader sample_arguments (at_call 0) = (ok x, at_call k)" using sample_read by blast
  have a: "alone sample_reader" by (simp add: alone_def sample_reader_def sample_box_def)
  have s: "sb_path sample_reader ''b'' = [''srv'', ''b'']" "sample_arguments ''path'' = Some (JStr ''b'')"
    "fs_lookup sample_read_files [''srv'', ''b''] = Some (FileNode 2)" "content_at sample_read_files 2 = ''hi''" 
    "sb_decode sample_reader t = Some t" "sb_sha256 sample_reader t = replicate 64 (CHR ''a'')" for t
    by (simp_all add: sb_path_def path_segments_def sample_reader_def sample_box_def sample_arguments_def fs_lookup_def
        sample_read_files_def fs_inode_def)
  from read_file_exact [OF a run] show ?thesis using run s by (auto simp: readable_def regular_at_def)
qed

definition sample_lister :: sandbox where
  "sample_lister = sample_box\<lparr>sb_constraints := sample_limits\<lparr>fe_maximum :=
     (\<lambda>f. if f = MaxOutputBytes then 300 else if f = MaxVisitedDirectories then 1 else 9)\<rparr>\<rparr>"

definition sample_list_arguments :: "string \<Rightarrow> json option" where
  "sample_list_arguments = map_of [(''path'', JStr ''''), (''recursive'', JBool False)]"

fun one_entry :: "invocation_result \<Rightarrow> bool" where
  "one_entry (ReadResult (JObj [(k, JStr []), (l, JArr [e]), p]) report) = True"
| "one_entry _ = False"

lemma one_entry_iff: "one_entry (ReadResult (list_output start entries truncated) report) \<longleftrightarrow> start = [] \<and> length entries = 1"
  by (cases start; cases entries; cases "tl entries") (auto simp: list_output_def)

theorem listing_bounded_witness:
  "\<exists>x w' entries truncated report. list_directory sample_lister sample_list_arguments (at_call 0) = (ok x, w')
    \<and> x = ReadResult (list_output [] entries truncated) report \<and> (\<forall>e \<in> set entries. shown sample_lister e) \<and> length entries = 1"
proof -
  have "case list_directory sample_lister sample_list_arguments (at_call 0) of (Inr x, w') \<Rightarrow> one_entry x | _ \<Rightarrow> False"
    by code_simp
  then obtain x w' where run: "list_directory sample_lister sample_list_arguments (at_call 0) = (ok x, w')" and x: "one_entry x"
    by (auto split: prod.splits sum.splits)
  from listing_bounded [OF run] obtain start entries truncated report
    where o: "x = ReadResult (list_output start entries truncated) report" "\<forall>e \<in> set entries. shown sample_lister e" by blast
  with x have "start = []" "length entries = 1" by (simp_all add: one_entry_iff)
  then show ?thesis using run o by blast
qed

end
