(* ===== verification/Spec2Isabelle.thy ===== *)
theory Spec2Isabelle
  imports Task_Reachability Metered_Gateway Action_Safety Project_Profile Sandbox_Safety
begin

text \<open>
  \<^bold>\<open>A verification development of ai-office.\<close>

  ai-office runs an office of software agents for a project: people and agents create tasks, agents
  work on them under an enforced pipeline, every effect outside the database goes through a policy
  with approvals, model calls are metered against budgets, and governance records and an audit trail
  say what was decided. The program is a TypeScript monorepo; the modelled code is its core:
  \<open>packages/domain\<close> (aggregates), \<open>packages/application\<close> (services), the SQLite repositories of
  \<open>packages/storage-sqlite\<close> with the constraints and triggers of \<open>migrations/project\<close>,
  \<open>packages/llm-gateway\<close>, \<open>packages/connector-sdk\<close> and \<open>packages/filesystem-connector\<close>.

  \<^bold>\<open>How code becomes definitions.\<close>
  An object that a class wraps is the record of its properties, and each method is a function from
  it to a new record or an error; snapshots and copies are the identity on values. A thrown error is
  a value of the type \<open>error\<close>, and a fallible function returns \<open>'a result\<close> (\<open>error + 'a\<close>). Numbers are
  \<open>js_num\<close> (rationals with NaN and the infinities, \<open>Number.isSafeInteger\<close> written out), dates are
  milliseconds or the invalid date, strings are lists of characters below 256. An unknown value is a
  \<open>js_value\<close>, which has every kind of value that serialization treats differently. A repository is a
  record of tables; a statement returns the driver's result with the new tables, or aborts, and the
  triggers and constraints of the schema are part of it. A service method is a \<open>command\<close>: it threads
  the world (database, clock, identifier generator), and \<open>transaction\<close> restores the database when the
  work throws.

  \<^bold>\<open>Theories, in the order of their dependence.\<close>
  \<^item> \<open>Prelude\<close>: numbers, dates, errors, results, commands and the locale \<open>ranked_lifecycle\<close>, the contract
    of a status machine, interpreted on every status table of the program.
  \<^item> \<open>Task_Lifecycle\<close> (\<open>domain/task/task.ts\<close>): the task aggregate; a history of operations, terminal
    statuses, what a completed task went through.
  \<^item> \<open>Task_Dependency\<close> (\<open>task-dependency.ts\<close>, \<open>run-eligibility.ts\<close>): prerequisites; the cycle check
    terminates and decides reachability.
  \<^item> \<open>Pipeline_Run\<close> (\<open>domain/pipeline/pipeline-run.ts\<close>): the enforced pipeline run: its shape, approvals,
    separation of agents and termination.
  \<^item> \<open>Canonical_Json\<close> (\<open>canonical-json.ts\<close>, \<open>sensitive-fields.ts\<close>): canonical texts identify values.
  \<^item> \<open>Task_Storage\<close>, \<open>Task_Commands\<close> (the task repositories and services): the locale \<open>task_store\<close> is the
    contract of the repository, interpreted there; each service keeps the tables acyclic and closed
    under completion up to historical corrections.
  \<^item> \<open>Governance\<close> (\<open>governance.ts\<close>, its repository and \<open>manage-governance.ts\<close>): audit trails of statuses,
    final decisions, and the services as a refinement of the repository's atomic writes.
  \<^item> \<open>Task_Completion\<close> (\<open>record-task-completion.ts\<close>, requirement links): the two-step correction of a
    task that was finished outside the office.
  \<^item> \<open>Task_Reachability\<close>: the commands of \<open>Task_Commands\<close> and the historical correction in sequence, with
    pipelines and other services in between: the invariant of every reachable database, the exact effect of a
    lifecycle operation, and the agreement of the application's checks with the triggers.
  \<^item> \<open>Cost\<close> (\<open>cost.ts\<close>, \<open>cost-calculator.ts\<close>, \<open>sqlite-cost.repository.ts\<close>): prices with their rounding,
    versioned price lists, budgets and reservations in 64-bit integers; the claim that budgets hold is for
    joint reservations in different budgets, as \<open>Metered_Gateway\<close> makes them.
  \<^item> \<open>Metered_Gateway\<close> (\<open>provider.ts\<close>, \<open>fallback-provider.ts\<close>, \<open>metered-gateway.ts\<close>): a model call between
    its reservation and its charge, on the repository of \<open>Cost\<close>.
  \<^item> \<open>Agent_Run\<close> (\<open>domain/agent\<close>): the agent run, its provenance and frozen model routing.
  \<^item> \<open>Action_Lifecycle\<close>, \<open>Capability_Policy\<close> (\<open>domain/capability\<close>): requests, simulations, approvals and
    executions of controlled actions, and the policy engine that authorizes them.
  \<^item> \<open>Connector_Registry\<close> (\<open>connector-sdk\<close>): the interface of connectors and what the registry accepts.
  \<^item> \<open>Action_Storage\<close> (the capability and controlled execution repositories): every statement with its
    triggers; the invariant of the four action tables under any interleaving of statements.
  \<^item> \<open>Action_Request\<close>, \<open>Action_Execution\<close> (\<open>application/capability\<close>): requesting, simulating, approving
    and executing an action, each transaction on a fresh evaluation of the policy.
  \<^item> \<open>Action_Safety\<close>: what the services guarantee together; the locale \<open>guarantee\<close> is the contract of a
    command towards the relation its database changes stay in, interpreted on the accepted statements.
  \<^item> \<open>Project_Handover\<close> (\<open>domain/project/project-handover.ts\<close>): when a project is ready, what is
    recommended next, and the text that identifies the facts a repository review was confirmed for.
  \<^item> \<open>Project_Profile\<close> (projects, identities, checkouts and profiles, with their repositories and
    services): imports, answers to questions, the confirmed review and the assessment read from the tables.
  \<^item> \<open>Filesystem_Policy\<close> (\<open>filesystem-path.ts\<close>, \<open>filesystem-arguments.ts\<close>, \<open>filesystem-constraints.ts\<close>,
    \<open>sensitive-paths.ts\<close>, \<open>unified-diff.ts\<close>, the descriptors): the paths, arguments and constraints the connector accepts, how the constraints of several
    grants combine, and the texts its results have.
  \<^item> \<open>Filesystem_Sandbox\<close> (\<open>filesystem-sandbox.ts\<close>): every operation of the sandbox as a sequence of system
    calls on a POSIX file system of inodes, where each call may fail and other processes act before it.
  \<^item> \<open>Sandbox_Logic\<close>: what commands of system calls guarantee: the locale \<open>looking\<close> is the contract of a
    command that changes no file, interpreted on the sandbox in its environment; \<open>exec\<close> and \<open>tells\<close>
    are the triples of a sandbox that runs alone.
  \<^item> \<open>Sandbox_Safety\<close>: each mutation makes the approved change or none and says which; reading and listing.

  \<^bold>\<open>How the parts interact.\<close>
  \<open>Task_Commands\<close>, \<open>Governance\<close> and \<open>Task_Completion\<close> share the tables of \<open>Task_Storage\<close>, which
  \<open>governance_db\<close> extends. \<open>action_db\<close> extends them too, and reads agent runs and pipeline runs: the
  authorization of an action is the decision of \<open>Capability_Policy\<close>, turned into a denial when the
  current stage of the pipeline run does not grant the operation to the agent. \<open>cost_db\<close> is the state
  of the gateway, and \<open>profile_db\<close> extends the tables of \<open>Governance\<close>, which the handover assessment reads.
  \<open>Filesystem_Sandbox\<close> is the code behind a connector of \<open>Connector_Registry\<close>: it runs under the effective
  constraints that \<open>Filesystem_Policy\<close> combines, and the errors it throws are the ones \<open>Action_Execution\<close>
  records as definite or uncertain outcomes.

  \<^bold>\<open>Parameters and hypotheses.\<close>
  Code outside the repository is an argument of the definitions: the clock and the identifier
  generator (\<open>services\<close>), SHA-256 (\<open>sha256\<close>), the decimal printer of numbers (\<open>num_str\<close>, with
  \<open>number_printer\<close> as what the language standard says of it), model providers, and connectors with
  their constraint handlers. Identifiers are only assumed distinct where a hypothesis says so.
  The service that stops the runs of a cancelled task is a parameter too, and \<open>runs_apart\<close> says that it leaves
  the task tables alone.
  The sandbox has in its record what its host decides: what other processes do before each system call
  (\<open>sb_env\<close>), which calls fail and how (\<open>sb_fail\<close>), how many bytes a write accepts, the decoder of
  UTF-8, SHA-256 and random identifiers. \<open>alone\<close> says that no other process changes files meanwhile and that no
  call invents a missing file; it is the threat model of
  \<open>docs/implementation/M6C-lite-trusted-local-execution.md\<close>. \<open>uuids\<close> says that a random name is a plain
  segment. What needs no such hypothesis (\<open>invoke_changes_nothing\<close>) is stated without it.

  \<^bold>\<open>Bounds.\<close>
  Recursive functions terminate on their own measure; no fuel is used. Amounts of money are integers
  checked against the signed 64-bit range, as the code does with \<open>bigint\<close>. ISO texts are compared as
  dates, which agrees for the years 0 to 9999. Characters above 255 are left out, and with them only
  the case conversions and encodings of those characters.

  \<^bold>\<open>Not modelled.\<close>
  User interfaces (dashboard, command line), process management (daemon, service managers, worker
  processes, queues), adapters of vendor libraries (model providers, Postgres, SurrealDB, BullMQ),
  the files of archives and bindings and read models that only
  project data for presentation: their content is input and output. Domain packs, project
  configuration, portability and the installation of projects are application logic that is left for
  later work. Of the filesystem connector, the object that hands calls to the sandbox, the default
  registry object and the plan of atomic mutations are left out. Of modelled files, the test hooks of the controlled action services, the database views that
  only serve presentation and logging are left out; the notes of the components say what remains.
\<close>

end
